(* ===== verification/Prelude.thy ===== *)
theory Prelude
  imports Main "HOL-Library.Word" "HOL-Library.Log_Nat" "HOL-Library.Monad_Syntax"
begin

text \<open>
  Shared vocabulary of the development: the machine integers of the driver
  (an LP64 kernel, so \<open>unsigned long\<close> is 64 bits), pointers, the errno values,
  the arithmetic helpers of the Linux headers the driver calls (\<open>ALIGN\<close>,
  \<open>roundup_pow_of_two\<close>, \<open>ilog2\<close>, \<open>max\<close>), the environment of one driver call, and
  the generic facts on lists, options and words that the components use.

  A driver function that can dereference a dangling or null pointer returns an
  \<open>option\<close>: \<open>None\<close> is the memory fault (a kernel oops), \<open>Some\<close> carries what the
  function returns and the new state. Error codes are ordinary return values.
\<close>

unbundle bit_operations_syntax

named_theorems mm_simps \<open>unfolding rules of the memory manager\<close>
named_theorems jm_simps \<open>unfolding rules of the job manager\<close>
named_theorems hw_simps \<open>unfolding rules of register access\<close>
named_theorems u64_simps \<open>reading 64-bit arithmetic on natural numbers\<close>

type_synonym u8 = "8 word"
type_synonym u16 = "16 word"
type_synonym u32 = "32 word"
type_synonym u64 = "64 word"

type_synonym ptr = nat

abbreviation (input) NULL :: ptr where "NULL \<equiv> 0"

subsection \<open>Linux errno values\<close>

definition ENOENT :: int where "ENOENT = 2"
definition ENOMEM :: int where "ENOMEM = 12"
definition EFAULT :: int where "EFAULT = 14"
definition EINVAL :: int where "EINVAL = 22"
definition ENOTTY :: int where "ENOTTY = 25"

lemmas errno_defs = ENOENT_def ENOMEM_def EFAULT_def EINVAL_def ENOTTY_def

subsection \<open>Arithmetic macros of the Linux headers\<close>

text \<open>The driver's own interface counts in pages of 4 KB.\<close>

definition PAGE_SIZE :: u64 where "PAGE_SIZE = 4096"

definition PAGE_SHIFT :: nat where "PAGE_SHIFT = 12"

definition ALIGN :: "u64 \<Rightarrow> u64 \<Rightarrow> u64" where
  "ALIGN x a = (x + (a - 1)) AND NOT (a - 1)"

text \<open>
  \<open>fls64 x\<close> is the position of the highest set bit, counted from 1 (0 for 0).
  \<open>roundup_pow_of_two n\<close> is \<open>1UL << fls_long(n - 1)\<close>; a shift by 64, which C leaves
  undefined (\<open>n = 0\<close> or \<open>n > 2^63\<close>), is taken modulo 64 as the 64-bit ARM shift does.
\<close>

definition fls64 :: "u64 \<Rightarrow> nat" where
  "fls64 x = floorlog 2 (unat x)"

definition roundup_pow_of_two :: "u64 \<Rightarrow> u64" where
  "roundup_pow_of_two n = push_bit (fls64 (n - 1) mod 64) 1"

definition ilog2 :: "u64 \<Rightarrow> int" where
  "ilog2 x = int (fls64 x) - 1"

subsection \<open>The environment of one driver call\<close>

text \<open>
  What the kernel answers while one driver function runs: the calling thread
  (\<open>task_pid_nr(current)\<close>, 0 in interrupt context), the clock, for each
  \<open>kzalloc\<close> site whether memory is available (per region for the block list), the
  bytes left uncopied by \<open>copy_from_user\<close>/\<open>copy_to_user\<close> (0 is success), the
  answers of the mapping and DMA services, and, for the probe, the answers of the
  register mapping (per physical base address), interrupt and misc device services.
\<close>

record kenv =
  cur_tid :: int
  now_ns :: int
  kz_blk :: "int \<Rightarrow> bool"
  kz_back :: "int \<Rightarrow> bool"
  kz_sbuf :: bool
  kz_sjob :: bool
  kz_ajob :: bool
  kz_waitq :: bool
  kz_session :: bool
  kz_status :: bool
  kz_misc :: bool
  cfu_left :: int
  ctu_left :: int
  mmap_ret :: int
  remap_va :: u64
  rmem_ret :: int
  dma_mask_ret :: int
  dma_cmask_ret :: int
  dma_va :: u64
  kz_io :: "u64 \<Rightarrow> bool"
  mem_region_ok :: "u64 \<Rightarrow> bool"
  ioremap_va :: "u64 \<Rightarrow> u64"
  kz_core :: bool
  kz_soc :: bool
  kz_irq :: bool
  kz_miscdev :: bool
  kz_dup :: bool
  wq_ok :: bool
  request_irq_ret :: int
  misc_ret :: int

text \<open>The environment in which every kernel service succeeds, for thread \<open>t\<close>.\<close>

definition env_ok :: "int \<Rightarrow> kenv" where
  "env_ok t = \<lparr>cur_tid = t, now_ns = 0, kz_blk = (\<lambda>_. True), kz_back = (\<lambda>_. True),
     kz_sbuf = True, kz_sjob = True, kz_ajob = True, kz_waitq = True, kz_session = True,
     kz_status = True, kz_misc = True, cfu_left = 0, ctu_left = 0, mmap_ret = 0,
     remap_va = 0x1000, rmem_ret = 0, dma_mask_ret = 0, dma_cmask_ret = 0, dma_va = 0x1000,
     kz_io = (\<lambda>_. True), mem_region_ok = (\<lambda>_. True), ioremap_va = (\<lambda>p. p), kz_core = True,
     kz_soc = True, kz_irq = True, kz_miscdev = True, kz_dup = True, wq_ok = True, request_irq_ret = 0, misc_ret = 0\<rparr>"

subsection \<open>Words read as natural numbers\<close>

lemma unat_add_nowrap [u64_simps]:
  fixes x y :: u64
  shows "unat x + unat y < 2 ^ 64 \<Longrightarrow> unat (x + y) = unat x + unat y"
  by (simp add: unat_word_ariths)

lemma unat_sub_nowrap [u64_simps]:
  fixes x y :: u64
  shows "unat y \<le> unat x \<Longrightarrow> unat (x - y) = unat x - unat y"
  by (simp add: unat_sub word_le_nat_alt)

lemma unat_lt_u64 [simp]: "unat (x :: u64) < 18446744073709551616"
  using unsigned_less [of x] by simp

lemma word_eq_unat: "(x :: u64) = y \<longleftrightarrow> unat x = unat y"
  by (rule word_unat_eq_iff)

lemma unat_pos_u64: "0 < unat (x :: u64) \<longleftrightarrow> x \<noteq> 0"
  by (simp add: unat_gt_0)

lemma unat_exp_u64:
  assumes "k < 64"
  shows "unat (2 ^ k :: u64) = 2 ^ k"
proof -
  have "(2 :: nat) ^ k < 2 ^ 64" using assms by (intro power_strict_increasing) simp_all
  then have "unat (of_nat (2 ^ k) :: u64) = 2 ^ k"
    unfolding unat_of_nat by (simp only: len_num0 len_bit0 len_num1) simp
  then show ?thesis by simp
qed

lemma unat_mult_div_u64:
  fixes x a :: u64
  shows "unat (x div a * a) = unat x div unat a * unat a"
proof -
  have "unat (x div a) * unat a \<le> unat x" by (simp add: unat_div)
  then have "unat (x div a) * unat a < 2 ^ LENGTH(64)"
    by (rule le_less_trans) (rule unsigned_less)
  then have "unat (x div a * a) = unat (x div a) * unat a" by (rule iffD1 [OF unat_mult_lem])
  then show ?thesis by (simp only: unat_div)
qed

lemma and_not_minus: "(y :: u64) AND NOT m = y - (y AND m)"
proof -
  have "(y AND m) + (y AND NOT m) = (y AND m) OR (y AND NOT m)"
    by (rule disjunctive_add) (simp add: bit_simps)
  also have "\<dots> = y"
    by (rule bit_word_eqI) (auto simp: bit_simps)
  finally show ?thesis by (simp add: algebra_simps)
qed

lemma ALIGN_bounds:
  assumes "unat x + unat (a - 1) < 2 ^ 64"
  shows "unat x \<le> unat (ALIGN x a)" and "unat (ALIGN x a) \<le> unat x + unat (a - 1)"
proof -
  let ?m = "a - 1" let ?y = "x + (a - 1)"
  have y: "unat ?y = unat x + unat ?m" using assms by (rule unat_add_nowrap)
  have le1: "unat (?y AND ?m) \<le> unat ?m" and le2: "unat (?y AND ?m) \<le> unat ?y"
    by (simp_all flip: word_le_nat_alt add: word_and_le1 word_and_le2)
  have "unat (ALIGN x a) = unat ?y - unat (?y AND ?m)"
    unfolding ALIGN_def and_not_minus using le2 by (rule unat_sub_nowrap)
  with y le1 show "unat x \<le> unat (ALIGN x a)" "unat (ALIGN x a) \<le> unat x + unat ?m"
    by linarith+
qed

lemma ALIGN_pow2_dvd:
  assumes "n < 64"
  shows "2 ^ n dvd unat (ALIGN x (2 ^ n))"
proof -
  have "ALIGN x (2 ^ n) = push_bit n (drop_bit n (x + mask n))"
    unfolding ALIGN_def
    by (rule bit_word_eqI) (auto simp: bit_simps mask_eq_exp_minus_1 [symmetric])
  then have "take_bit n (ALIGN x (2 ^ n)) = 0"
    by (simp add: take_bit_push_bit)
  then have "take_bit n (unat (ALIGN x (2 ^ n))) = 0"
    by (metis unsigned_0 unsigned_take_bit_eq)
  then show ?thesis by (simp add: take_bit_eq_mod mod_eq_0_iff_dvd)
qed

subsection \<open>Lists\<close>

lemma nth_split:
  assumes "i < length xs"
  shows "xs = take i xs @ xs ! i # drop (Suc i) xs"
  using assms by (rule id_take_nth_drop)

lemma sum_list_take_nth_drop:
  assumes "i < length xs"
  shows "sum_list (map f xs) = sum_list (map f (take i xs)) + (f (xs ! i) :: nat)
    + sum_list (map f (drop (Suc i) xs))"
  by (subst nth_split [OF assms]) (simp add: add.assoc)

end
