(* ===== verification/Errcode.thy ===== *)
theory Errcode
  imports Prelude
begin

text \<open>
  The error codes shared with user land (\<open>uk_interface/aipu_errcode.h\<close>) and their
  translation to errno values (\<open>aipu_errcode_map.c\<close>).
\<close>

definition AIPU_ERRCODE_NO_ERROR :: int where "AIPU_ERRCODE_NO_ERROR = 0"
definition AIPU_ERRCODE_JOB_ID_NOT_FOUND :: int where "AIPU_ERRCODE_JOB_ID_NOT_FOUND = 1"
definition AIPU_ERRCODE_JOB_NOT_END :: int where "AIPU_ERRCODE_JOB_NOT_END = 2"
definition AIPU_ERRCODE_JOB_PROF_DISABLED :: int where "AIPU_ERRCODE_JOB_PROF_DISABLED = 3"
definition AIPU_ERRCODE_AIPU_NOT_FOUND :: int where "AIPU_ERRCODE_AIPU_NOT_FOUND = 4"
definition AIPU_ERRCODE_JOB_DESC_UNMATCHED :: int where "AIPU_ERRCODE_JOB_DESC_UNMATCHED = 5"
definition AIPU_ERRCODE_NO_MEMORY :: int where "AIPU_ERRCODE_NO_MEMORY = 6"
definition AIPU_ERRCODE_NO_ALIGN_MEM :: int where "AIPU_ERRCODE_NO_ALIGN_MEM = 7"
definition AIPU_ERRCODE_INTERNAL_NULLPTR :: int where "AIPU_ERRCODE_INTERNAL_NULLPTR = 8"
definition AIPU_ERRCODE_PLAT_GET_RES_FAIL :: int where "AIPU_ERRCODE_PLAT_GET_RES_FAIL = 9"
definition AIPU_ERRCODE_CREATE_KOBJ_ERR :: int where "AIPU_ERRCODE_CREATE_KOBJ_ERR = 10"
definition AIPU_ERRCODE_INVALID_OPS :: int where "AIPU_ERRCODE_INVALID_OPS = 11"
definition AIPU_ERRCODE_INVALID_ARGS :: int where "AIPU_ERRCODE_INVALID_ARGS = 12"
definition AIPU_ERRCODE_IOREMAP_FAIL :: int where "AIPU_ERRCODE_IOREMAP_FAIL = 13"
definition AIPU_ERRCODE_INVALID_INT_STAT :: int where "AIPU_ERRCODE_INVALID_INT_STAT = 14"
definition AIPU_ERRCODE_ITEM_NOT_FOUND :: int where "AIPU_ERRCODE_ITEM_NOT_FOUND = 15"

lemmas errcode_defs =
  AIPU_ERRCODE_NO_ERROR_def AIPU_ERRCODE_JOB_ID_NOT_FOUND_def AIPU_ERRCODE_JOB_NOT_END_def
  AIPU_ERRCODE_JOB_PROF_DISABLED_def AIPU_ERRCODE_AIPU_NOT_FOUND_def
  AIPU_ERRCODE_JOB_DESC_UNMATCHED_def AIPU_ERRCODE_NO_MEMORY_def AIPU_ERRCODE_NO_ALIGN_MEM_def
  AIPU_ERRCODE_INTERNAL_NULLPTR_def AIPU_ERRCODE_PLAT_GET_RES_FAIL_def
  AIPU_ERRCODE_CREATE_KOBJ_ERR_def AIPU_ERRCODE_INVALID_OPS_def AIPU_ERRCODE_INVALID_ARGS_def
  AIPU_ERRCODE_IOREMAP_FAIL_def AIPU_ERRCODE_INVALID_INT_STAT_def AIPU_ERRCODE_ITEM_NOT_FOUND_def

text \<open>The \<open>switch\<close> of the source, case by case, in its order.\<close>

definition map_errcode :: "int \<Rightarrow> int" where
  "map_errcode err =
     (if err = AIPU_ERRCODE_NO_ERROR then 0
      else if err \<in> {AIPU_ERRCODE_INVALID_INT_STAT, AIPU_ERRCODE_IOREMAP_FAIL,
                AIPU_ERRCODE_JOB_PROF_DISABLED, AIPU_ERRCODE_CREATE_KOBJ_ERR,
                AIPU_ERRCODE_PLAT_GET_RES_FAIL} then - EFAULT
      else if err \<in> {AIPU_ERRCODE_INVALID_OPS, AIPU_ERRCODE_JOB_NOT_END} then - ENOTTY
      else if err \<in> {AIPU_ERRCODE_INTERNAL_NULLPTR, AIPU_ERRCODE_INVALID_ARGS} then - EINVAL
      else if err \<in> {AIPU_ERRCODE_NO_MEMORY, AIPU_ERRCODE_NO_ALIGN_MEM} then - ENOMEM
      else if err \<in> {AIPU_ERRCODE_JOB_ID_NOT_FOUND, AIPU_ERRCODE_AIPU_NOT_FOUND,
                AIPU_ERRCODE_ITEM_NOT_FOUND, AIPU_ERRCODE_JOB_DESC_UNMATCHED} then - ENOENT
      else - EFAULT)"

lemma map_errcode_NULLPTR [simp]: "map_errcode AIPU_ERRCODE_INTERNAL_NULLPTR = - EINVAL"
  and map_errcode_ITEM [simp]: "map_errcode AIPU_ERRCODE_ITEM_NOT_FOUND = - ENOENT"
  and map_errcode_KOBJ [simp]: "map_errcode AIPU_ERRCODE_CREATE_KOBJ_ERR = - EFAULT"
  and map_errcode_OPS [simp]: "map_errcode AIPU_ERRCODE_INVALID_OPS = - ENOTTY"
  and map_errcode_ARGS [simp]: "map_errcode AIPU_ERRCODE_INVALID_ARGS = - EINVAL"
  and map_errcode_NOMEM [simp]: "map_errcode AIPU_ERRCODE_NO_MEMORY = - ENOMEM"
  by (simp_all add: map_errcode_def errcode_defs)

lemma errno_nonzero [simp]:
  "ENOENT \<noteq> 0" "ENOMEM \<noteq> 0" "EFAULT \<noteq> 0" "EINVAL \<noteq> 0" "ENOTTY \<noteq> 0"
  by (simp_all add: errno_defs)

end
