(* ===== verification/Interface.thy ===== *)
theory Interface
  imports Errcode
begin

text \<open>
  The structures and constants that user land and the driver share
  (\<open>uk_interface/\<close>), the driver's own buffer descriptor (\<open>aipu_buffer.h\<close>) and the
  build configuration (\<open>config/config.h\<close>).
\<close>

subsection \<open>Buffers (\<open>aipu_buf_req.h\<close>, \<open>aipu_buffer.h\<close>)\<close>

text \<open>
  User land passes the data type as an unchecked \<open>u32\<close>, so the enumeration keeps
  its numeric values.
\<close>

definition AIPU_MM_DATA_TYPE_NONE :: u32 where "AIPU_MM_DATA_TYPE_NONE = 0"
definition AIPU_MM_DATA_TYPE_TEXT :: u32 where "AIPU_MM_DATA_TYPE_TEXT = 1"
definition AIPU_MM_DATA_TYPE_RO_STACK :: u32 where "AIPU_MM_DATA_TYPE_RO_STACK = 2"
definition AIPU_MM_DATA_TYPE_STATIC :: u32 where "AIPU_MM_DATA_TYPE_STATIC = 3"
definition AIPU_MM_DATA_TYPE_REUSE :: u32 where "AIPU_MM_DATA_TYPE_REUSE = 4"

lemmas data_type_defs = AIPU_MM_DATA_TYPE_NONE_def AIPU_MM_DATA_TYPE_TEXT_def
  AIPU_MM_DATA_TYPE_RO_STACK_def AIPU_MM_DATA_TYPE_STATIC_def AIPU_MM_DATA_TYPE_REUSE_def

datatype aipu_alloc_flag =
  AIPU_ALLOC_FLAG_DEFAULT | AIPU_ALLOC_FLAG_STRICT | AIPU_ALLOC_FLAG_COMPACT

record buf_desc =
  bd_pa :: u64
  bd_dev_offset :: u64
  bd_bytes :: u64
  bd_region_id :: u32

record buf_request =
  br_bytes :: u64
  br_align_in_page :: u32
  br_data_type :: u32
  br_region_id :: u32
  br_alloc_flag :: u32
  br_desc :: buf_desc
  br_errcode :: int

record aipu_buffer =
  ab_pa :: u64
  ab_va :: u64
  ab_bytes :: u64
  ab_region_id :: u32
  ab_type :: u32

definition zero_buffer :: aipu_buffer where
  "zero_buffer = \<lparr>ab_pa = 0, ab_va = 0, ab_bytes = 0, ab_region_id = 0, ab_type = 0\<rparr>"

definition zero_desc :: buf_desc where
  "zero_desc = \<lparr>bd_pa = 0, bd_dev_offset = 0, bd_bytes = 0, bd_region_id = 0\<rparr>"

text \<open>The memory types of \<open>aipu_mm.h\<close>, stored as a number in a buffer descriptor.\<close>

datatype aipu_mem_type = AIPU_MEM_TYPE_SRAM | AIPU_MEM_TYPE_CMA | AIPU_MEM_TYPE_RESERVED

fun mem_type_num :: "aipu_mem_type \<Rightarrow> u32" where
  "mem_type_num AIPU_MEM_TYPE_SRAM = 0"
| "mem_type_num AIPU_MEM_TYPE_CMA = 1"
| "mem_type_num AIPU_MEM_TYPE_RESERVED = 2"

subsection \<open>Jobs (\<open>aipu_job_desc.h\<close>, \<open>aipu_job_status.h\<close>, \<open>aipu_profiling.h\<close>)\<close>

record user_job_desc =
  start_pc_addr :: u64
  intr_handler_addr :: u64
  data_0_addr :: u64
  data_1_addr :: u64
  static_addr :: u64
  reuse_addr :: u64
  job_id :: u32
  code_size :: u32
  rodata_size :: u32
  stack_size :: u32
  static_size :: u32
  reuse_size :: u32
  enable_prof :: u32
  enable_asid :: u32

record user_job =
  uj_desc :: user_job_desc
  uj_errcode :: int

record profiling_data =
  execution_time_ns :: int
  rdata_tot_msb :: u32
  rdata_tot_lsb :: u32
  wdata_tot_msb :: u32
  wdata_tot_lsb :: u32
  tot_cycle_msb :: u32
  tot_cycle_lsb :: u32

definition zero_pdata :: profiling_data where
  "zero_pdata = \<lparr>execution_time_ns = 0, rdata_tot_msb = 0, rdata_tot_lsb = 0,
     wdata_tot_msb = 0, wdata_tot_lsb = 0, tot_cycle_msb = 0, tot_cycle_lsb = 0\<rparr>"

definition zero_job_desc :: user_job_desc where
  "zero_job_desc = \<lparr>start_pc_addr = 0, intr_handler_addr = 0, data_0_addr = 0, data_1_addr = 0,
     static_addr = 0, reuse_addr = 0, job_id = 0, code_size = 0, rodata_size = 0,
     stack_size = 0, static_size = 0, reuse_size = 0, enable_prof = 0, enable_asid = 0\<rparr>"

datatype job_state =
  AIPU_JOB_STATE_IDLE | AIPU_JOB_STATE_PENDING | AIPU_JOB_STATE_SCHED | AIPU_JOB_STATE_END

definition AIPU_JOB_STATE_DONE :: u32 where "AIPU_JOB_STATE_DONE = 1"
definition AIPU_JOB_STATE_EXCEPTION :: u32 where "AIPU_JOB_STATE_EXCEPTION = 2"

definition AIPU_EXCEP_NO_EXCEPTION :: int where "AIPU_EXCEP_NO_EXCEPTION = 0"

record job_status_desc =
  js_job_id :: u32
  js_thread_id :: u32
  js_state :: u32
  js_pdata :: profiling_data

text \<open>\<open>jq_status\<close> stands for the user array that the query fills.\<close>

record job_status_query =
  jq_max_cnt :: u32
  jq_get_single_job :: u32
  jq_job_id :: u32
  jq_status :: "job_status_desc list"
  jq_poll_cnt :: u32
  jq_errcode :: int

subsection \<open>Capability and register requests (\<open>aipu_capability.h\<close>, \<open>aipu_io_req.h\<close>)\<close>

record aipu_cap =
  isa_version :: u32
  tpc_feature :: u32
  aiff_feature :: u32
  cap_errcode :: int

text \<open>The direction comes unchecked from user land, so it keeps its number.\<close>

definition AIPU_IO_READ :: u32 where "AIPU_IO_READ = 0"
definition AIPU_IO_WRITE :: u32 where "AIPU_IO_WRITE = 1"

record aipu_io_req =
  io_offset :: u32
  io_rw :: u32
  io_value :: u32
  io_errcode :: int

subsection \<open>Configuration (\<open>config.h\<close>, \<open>aipu_mm.h\<close>)\<close>

definition AIPU_ENABLE_RESET_HW_NONE_IDLE :: bool where "AIPU_ENABLE_RESET_HW_NONE_IDLE = False"

definition AIPU_ASE_ID_NONE :: u32 where "AIPU_ASE_ID_NONE = 0"
definition AIPU_ASE_ID_0 :: u32 where "AIPU_ASE_ID_0 = 1"
definition AIPU_ASE_ID_1 :: u32 where "AIPU_ASE_ID_1 = 2"
definition AIPU_ASE_ID_2 :: u32 where "AIPU_ASE_ID_2 = 4"
definition AIPU_ASE_ID_ALL :: u32 where "AIPU_ASE_ID_ALL = 0xF"

definition AIPU_CONFIG_TEXT_ASID :: u32 where "AIPU_CONFIG_TEXT_ASID = AIPU_ASE_ID_0"
definition AIPU_CONFIG_RO_STACK_ASID :: u32 where "AIPU_CONFIG_RO_STACK_ASID = AIPU_ASE_ID_0"
definition AIPU_CONFIG_STATIC_ASID :: u32 where "AIPU_CONFIG_STATIC_ASID = AIPU_ASE_ID_1"
definition AIPU_CONFIG_REUSE_ASID :: u32 where "AIPU_CONFIG_REUSE_ASID = AIPU_ASE_ID_2"

definition AIPU_CONFIG_ENABLE_SRAM :: bool where "AIPU_CONFIG_ENABLE_SRAM = False"
definition AIPU_CONFIG_ENABLE_FALL_BACK_TO_DDR :: bool where
  "AIPU_CONFIG_ENABLE_FALL_BACK_TO_DDR = True"
definition AIPU_CONFIG_SRAM_DATA_ASID :: u32 where
  "AIPU_CONFIG_SRAM_DATA_ASID = AIPU_CONFIG_REUSE_ASID"
definition AIPU_CONFIG_MM_ALLOC_FLAG :: aipu_alloc_flag where
  "AIPU_CONFIG_MM_ALLOC_FLAG = AIPU_ALLOC_FLAG_COMPACT"

text \<open>Hardware versions and boards (\<open>aipu_core.h\<close>, \<open>aipu_soc.h\<close>); the driver stores them as \<open>int\<close>.\<close>

definition AIPU_VERSION_ZHOUYI_V1 :: int where "AIPU_VERSION_ZHOUYI_V1 = 1"
definition AIPU_VERSION_ZHOUYI_V2 :: int where "AIPU_VERSION_ZHOUYI_V2 = 2"

definition AIPU_BOARD_BRAND_DEFAULT :: int where "AIPU_BOARD_BRAND_DEFAULT = 0"
definition AIPU_BOARD_BRAND_JUNOR2 :: int where "AIPU_BOARD_BRAND_JUNOR2 = 1"
definition AIPU_BOARD_BRAND_ZYNQ6CG :: int where "AIPU_BOARD_BRAND_ZYNQ6CG = 4"

lemmas version_defs = AIPU_VERSION_ZHOUYI_V1_def AIPU_VERSION_ZHOUYI_V2_def

end
