(* ===== verification/Io.thy ===== *)
theory Io
  imports Interface "HOL-Library.State_Monad"
begin

text \<open>
  Register access (\<open>aipu_io.c\<close>). A register routine is a state transformer over the
  device as the driver sees it: the value the device answers to the \<open>n\<close>-th access at
  an address, unknown to the driver, and the log of the accesses in program order. The
  second half is a small logic for such routines: what every access of a routine
  satisfies, composed along \<open>do\<close> blocks.
\<close>

subsection \<open>The device\<close>

datatype io_event = IoRead nat u64 | IoWrite nat u64 u32

text \<open>\<open>IoRead w a\<close> and \<open>IoWrite w a v\<close>: an access of \<open>w\<close> bytes at kernel address \<open>a\<close>.\<close>

record mmio =
  io_dev :: "nat \<Rightarrow> u64 \<Rightarrow> u32"
  io_log :: "io_event list"

definition readl :: "nat \<Rightarrow> u64 \<Rightarrow> (mmio, u32) state" where
  "readl w a = State (\<lambda>m. (io_dev m (length (io_log m)) a, m\<lparr>io_log := io_log m @ [IoRead w a]\<rparr>))"

definition writel :: "nat \<Rightarrow> u64 \<Rightarrow> u32 \<Rightarrow> (mmio, unit) state" where
  "writel w a v = State (\<lambda>m. ((), m\<lparr>io_log := io_log m @ [IoWrite w a v]\<rparr>))"

subsection \<open>Register regions\<close>

record io_region =
  ir_phys :: u64
  ir_kern :: u64
  ir_size :: u32

text \<open>What creating and destroying a region claims from and returns to the kernel.\<close>

datatype io_resource = Request_mem_region u64 u32 | Ioremap u64 u32 | Iounmap u64 | Release_mem_region u64 u32

text \<open>
  \<open>goto fail\<close> does not reset \<open>region\<close>: after a failed \<open>request_mem_region\<close> or
  \<open>ioremap_nocache\<close> the zeroed region is returned, not NULL.
\<close>

definition aipu_create_ioregion :: "kenv \<Rightarrow> u64 \<Rightarrow> u32 \<Rightarrow> io_region option \<times> io_resource list" where
  "aipu_create_ioregion e phys_base sz =
     (if sz = 0 then (None, [])
      else if \<not> kz_io e phys_base then (None, [])
      else if \<not> mem_region_ok e phys_base then (Some \<lparr>ir_phys = 0, ir_kern = 0, ir_size = 0\<rparr>, [])
      else if ioremap_va e phys_base = 0
      then (Some \<lparr>ir_phys = 0, ir_kern = 0, ir_size = 0\<rparr>, [Request_mem_region phys_base sz])
      else (Some \<lparr>ir_phys = phys_base, ir_kern = ioremap_va e phys_base, ir_size = sz\<rparr>,
            [Request_mem_region phys_base sz, Ioremap phys_base sz]))"

definition aipu_destroy_ioregion :: "io_region option \<Rightarrow> io_region option \<times> io_resource list" where
  "aipu_destroy_ioregion region =
     (case region of
        None \<Rightarrow> (None, [])
      | Some r \<Rightarrow>
          if ir_kern r \<noteq> 0
          then (Some \<lparr>ir_phys = 0, ir_kern = 0, ir_size = 0\<rparr>,
                [Iounmap (ir_kern r), Release_mem_region (ir_phys r) (ir_size r)])
          else (Some r, []))"

subsection \<open>Access\<close>

text \<open>The guard every access function repeats.\<close>

definition io_valid :: "io_region option \<Rightarrow> u64 \<Rightarrow> bool" where
  "io_valid region offset =
     (case region of None \<Rightarrow> False | Some r \<Rightarrow> ir_kern r \<noteq> 0 \<and> offset < ucast (ir_size r))"

definition io_addr :: "io_region option \<Rightarrow> u64 \<Rightarrow> u64" where
  "io_addr region offset = (case region of None \<Rightarrow> offset | Some r \<Rightarrow> ir_kern r + offset)"

definition aipu_read8 :: "io_region option \<Rightarrow> u64 \<Rightarrow> (mmio, u8) state" where
  "aipu_read8 region offset =
     (if io_valid region offset
      then do { v \<leftarrow> readl 1 (io_addr region offset); State_Monad.return (ucast v) }
      else State_Monad.return 0)"

definition aipu_read16 :: "io_region option \<Rightarrow> u64 \<Rightarrow> (mmio, u16) state" where
  "aipu_read16 region offset =
     (if io_valid region offset
      then do { v \<leftarrow> readl 2 (io_addr region offset); State_Monad.return (ucast v) }
      else State_Monad.return 0)"

definition aipu_read32 :: "io_region option \<Rightarrow> u64 \<Rightarrow> (mmio, u32) state" where
  "aipu_read32 region offset =
     (if io_valid region offset then readl 4 (io_addr region offset) else State_Monad.return 0)"

definition aipu_write8 :: "io_region option \<Rightarrow> u64 \<Rightarrow> u32 \<Rightarrow> (mmio, unit) state" where
  "aipu_write8 region offset data =
     (let data' = data AND 0xFF
      in if io_valid region offset then writel 1 (io_addr region offset) data' else State_Monad.return ())"

definition aipu_write16 :: "io_region option \<Rightarrow> u64 \<Rightarrow> u32 \<Rightarrow> (mmio, unit) state" where
  "aipu_write16 region offset data =
     (let data' = data AND 0xFFFF
      in if io_valid region offset then writel 2 (io_addr region offset) data' else State_Monad.return ())"

definition aipu_write32 :: "io_region option \<Rightarrow> u64 \<Rightarrow> u32 \<Rightarrow> (mmio, unit) state" where
  "aipu_write32 region offset data =
     (if io_valid region offset then writel 4 (io_addr region offset) data else State_Monad.return ())"

definition AIPU_BIT :: "u32 \<Rightarrow> nat \<Rightarrow> bool" where
  "AIPU_BIT data n = (drop_bit n data AND 1 \<noteq> 0)"

lemma AIPU_BIT_iff: "AIPU_BIT data n \<longleftrightarrow> bit data n"
  unfolding AIPU_BIT_def by (simp add: bit_iff_odd_drop_bit odd_iff_mod_2_eq_one and_one_eq mod2_eq_if)

subsection \<open>What a routine does to the device\<close>

text \<open>
  \<open>emits P m\<close>: the routine \<open>m\<close> only extends the log, by accesses that satisfy \<open>P\<close>.
\<close>

definition emits :: "(io_event \<Rightarrow> bool) \<Rightarrow> (mmio, 'a) state \<Rightarrow> bool" where
  "emits P m \<longleftrightarrow>
     (\<forall>s. \<exists>evs. snd (run_state m s) = s\<lparr>io_log := io_log s @ evs\<rparr> \<and> (\<forall>ev \<in> set evs. P ev))"

lemma emits_return [hw_simps, intro]: "emits P (State_Monad.return x)"
  by (simp add: emits_def exI [of _ "[]"])

lemma emits_bind [intro]:
  assumes "emits P m" "\<And>x. emits P (f x)"
  shows "emits P (State_Monad.bind m f)"
  unfolding emits_def
proof (intro allI)
  fix s
  obtain x s1 where r: "run_state m s = (x, s1)" by fastforce
  obtain e1 where e1: "s1 = s\<lparr>io_log := io_log s @ e1\<rparr>" "\<forall>ev \<in> set e1. P ev"
    using assms(1) [unfolded emits_def, rule_format, of s] r by auto
  obtain e2 where e2: "snd (run_state (f x) s1) = s1\<lparr>io_log := io_log s1 @ e2\<rparr>" "\<forall>ev \<in> set e2. P ev"
    using assms(2) [of x, unfolded emits_def, rule_format, of s1] by auto
  show "\<exists>evs. snd (run_state (State_Monad.bind m f) s) = s\<lparr>io_log := io_log s @ evs\<rparr> \<and> (\<forall>ev \<in> set evs. P ev)"
    using r e1 e2 by (intro exI [of _ "e1 @ e2"]) auto
qed

lemma emits_if [intro]: "emits P m \<Longrightarrow> emits P m' \<Longrightarrow> emits P (if b then m else m')"
  by simp

lemma emits_mono: "emits P m \<Longrightarrow> (\<And>ev. P ev \<Longrightarrow> Q ev) \<Longrightarrow> emits Q m"
  unfolding emits_def by blast

text \<open>An access that starts inside the region and is \<open>n\<close> bytes wide.\<close>

fun starts_in :: "io_region option \<Rightarrow> io_event \<Rightarrow> bool" where
  "starts_in region (IoRead w a) = (\<exists>off. io_valid region off \<and> a = io_addr region off)"
| "starts_in region (IoWrite w a v) = (\<exists>off. io_valid region off \<and> a = io_addr region off)"

lemma emits_readl [intro]: "P (IoRead w a) \<Longrightarrow> emits P (readl w a)"
  unfolding emits_def readl_def by (intro allI exI [of _ "[IoRead w a]"]) simp

lemma emits_writel [intro]: "P (IoWrite w a v) \<Longrightarrow> emits P (writel w a v)"
  unfolding emits_def writel_def by (intro allI exI [of _ "[IoWrite w a v]"]) simp

lemma emits_read32 [intro]: "emits (starts_in region) (aipu_read32 region off)"
  unfolding aipu_read32_def by (cases "io_valid region off") (auto intro!: emits_readl)

lemma emits_write32 [intro]: "emits (starts_in region) (aipu_write32 region off v)"
  unfolding aipu_write32_def by (cases "io_valid region off") (auto intro!: emits_writel)

lemma run_write32 [hw_simps]:
  "io_valid region off \<Longrightarrow>
   run_state (aipu_write32 region off v) m = ((), m\<lparr>io_log := io_log m @ [IoWrite 4 (io_addr region off) v]\<rparr>)"
  by (simp add: aipu_write32_def writel_def)

lemma run_read32 [hw_simps]:
  "io_valid region off \<Longrightarrow>
   run_state (aipu_read32 region off) m =
     (io_dev m (length (io_log m)) (io_addr region off), m\<lparr>io_log := io_log m @ [IoRead 4 (io_addr region off)]\<rparr>)"
  by (simp add: aipu_read32_def readl_def)

end
