(* ===== verification/Core.thy ===== *)
theory Core
  imports Io
begin

text \<open>
  The hardware core and the SoC as the driver keeps them (\<open>aipu/aipu_core.c\<close>,
  \<open>aipu/soc/aipu_soc.c\<close>) and the interrupt object (\<open>aipu_irq.c\<close>, without the two
  handlers, which need the job manager). The operation tables of the source
  (\<open>core_ctrl\<close>, \<open>soc_ctrl\<close>) have one value per hardware version and per board, so they
  are enumerations here, and the calls through them are case distinctions.
\<close>

datatype aipu_io_operation = Zhouyi_v1_ops | Zhouyi_v2_ops

datatype soc_io_operation = Default_soc_ops | Junor2_soc_ops | X6cg_soc_ops

text \<open>
  \<open>oq_uhandler\<close> is \<open>None\<close> while the handlers are not yet stored; \<open>oq_wq\<close>: the work queue exists.
\<close>

record aipu_irq_object =
  oq_irqnum :: u32
  oq_uhandler :: "aipu_io_operation option"
  oq_wq :: bool

record aipu_core =
  core_version :: int
  freq_in_MHz :: u32
  max_sched :: int
  core_base0 :: "io_region option"
  core_irq_obj :: "aipu_irq_object option"

record aipu_soc =
  soc_brand :: int
  soc_base0 :: "io_region option"

text \<open>What is claimed from and given back to the kernel, in order.\<close>

datatype resource =
    Res_io io_resource
  | Res_request_irq u32
  | Res_free_irq u32
  | Res_create_workqueue
  | Res_flush_workqueue
  | Res_destroy_workqueue

subsection \<open>The interrupt object\<close>

definition aipu_destroy_irq_object :: "aipu_irq_object option \<Rightarrow> resource list" where
  "aipu_destroy_irq_object irq_obj =
     (case irq_obj of
        None \<Rightarrow> []
      | Some obj \<Rightarrow>
          (if oq_wq obj then [Res_flush_workqueue, Res_destroy_workqueue] else []) @
          (if oq_irqnum obj \<noteq> 0 then [Res_free_irq (oq_irqnum obj)] else []))"

definition aipu_create_irq_object :: "kenv \<Rightarrow> u32 \<Rightarrow> aipu_io_operation \<Rightarrow> aipu_irq_object option \<times> resource list" where
  "aipu_create_irq_object e irqnum handlers =
     (if \<not> kz_irq e then (None, [])
      else
        let obj = \<lparr>oq_irqnum = 0, oq_uhandler = None, oq_wq = False\<rparr>
        in if \<not> wq_ok e then (None, aipu_destroy_irq_object (Some obj))
           else
             let obj1 = obj\<lparr>oq_wq := True\<rparr>
             in if request_irq_ret e \<noteq> 0
                then (None, Res_create_workqueue # aipu_destroy_irq_object (Some obj1))
                else (Some (obj1\<lparr>oq_irqnum := irqnum, oq_uhandler := Some handlers\<rparr>),
                      [Res_create_workqueue, Res_request_irq irqnum]))"

text \<open>
  Queuing the work item: already queued work is not queued twice. A destroyed work queue
  (\<open>aipu_wq == NULL\<close>) is a memory fault.
\<close>

definition aipu_irq_schedulework :: "aipu_irq_object option \<Rightarrow> bool \<Rightarrow> bool option" where
  "aipu_irq_schedulework irq_obj queued =
     (case irq_obj of
        None \<Rightarrow> Some queued
      | Some obj \<Rightarrow> if oq_wq obj then Some True else None)"

definition aipu_irq_flush_workqueue :: "aipu_irq_object \<Rightarrow> resource list" where
  "aipu_irq_flush_workqueue irq_obj = [Res_flush_workqueue]"

subsection \<open>Core and SoC\<close>

definition ZHOUYI_V1_MAX_SCHED_JOB_NUM :: int where "ZHOUYI_V1_MAX_SCHED_JOB_NUM = 1"
definition ZHOUYI_V2_MAX_SCHED_JOB_NUM :: int where "ZHOUYI_V2_MAX_SCHED_JOB_NUM = 1"

text \<open>The size is handed to \<open>aipu_create_ioregion\<close> as a \<open>u32\<close>.\<close>

definition create_aipu_core ::
  "kenv \<Rightarrow> int \<Rightarrow> u32 \<Rightarrow> u64 \<Rightarrow> u64 \<Rightarrow> u32 \<Rightarrow> aipu_io_operation \<Rightarrow> int \<times> aipu_core option \<times> resource list" where
  "create_aipu_core e version irqnum aipu_base0 base0_size freq handlers =
     (if base0_size = 0 then (- EINVAL, None, [])
      else if \<not> kz_core e then (- ENOMEM, None, [])
      else if version \<noteq> AIPU_VERSION_ZHOUYI_V1 \<and> version \<noteq> AIPU_VERSION_ZHOUYI_V2
      then (- EINVAL, None, [])
      else
        let max_num = (if version = AIPU_VERSION_ZHOUYI_V1 then ZHOUYI_V1_MAX_SCHED_JOB_NUM
                       else ZHOUYI_V2_MAX_SCHED_JOB_NUM);
            (base0, r1) = aipu_create_ioregion e aipu_base0 (ucast base0_size)
        in case base0 of
             None \<Rightarrow> (- EFAULT, None, map Res_io r1)
           | Some _ \<Rightarrow>
               let (obj, r2) = aipu_create_irq_object e irqnum handlers
               in case obj of
                    None \<Rightarrow> (- EFAULT, None, map Res_io r1 @ r2)
                  | Some _ \<Rightarrow>
                      (0, Some \<lparr>core_version = version, freq_in_MHz = freq, max_sched = max_num,
                                core_base0 = base0, core_irq_obj = obj\<rparr>,
                       map Res_io r1 @ r2))"

definition destroy_aipu_core :: "aipu_core option \<Rightarrow> resource list" where
  "destroy_aipu_core core =
     (case core of
        None \<Rightarrow> []
      | Some c \<Rightarrow> map Res_io (snd (aipu_destroy_ioregion (core_base0 c))) @
          aipu_destroy_irq_object (core_irq_obj c))"

definition create_aipu_soc :: "kenv \<Rightarrow> int \<Rightarrow> u64 \<Rightarrow> u64 \<Rightarrow> int \<times> aipu_soc option \<times> resource list" where
  "create_aipu_soc e brand soc_base base0_size =
     (if \<not> kz_soc e then (- ENOMEM, None, [])
      else if base0_size \<noteq> 0 then
        let (base0, r) = aipu_create_ioregion e soc_base (ucast base0_size)
        in case base0 of
             None \<Rightarrow> (- EFAULT, None, map Res_io r)
           | Some _ \<Rightarrow> (0, Some \<lparr>soc_brand = brand, soc_base0 = base0\<rparr>, map Res_io r)
      else (0, Some \<lparr>soc_brand = brand, soc_base0 = None\<rparr>, []))"

definition destroy_aipu_soc :: "aipu_soc option \<Rightarrow> resource list" where
  "destroy_aipu_soc soc =
     (case soc of
        None \<Rightarrow> []
      | Some s \<Rightarrow> map Res_io (snd (aipu_destroy_ioregion (soc_base0 s))))"

subsection \<open>What a created core holds\<close>

lemma core_create_cases:
  assumes "create_aipu_core e v irq base sz freq ops = (ret, core, rs)"
  shows "ret \<noteq> 0 \<and> core = None \<or>
    ret = 0 \<and> (\<exists>c. core = Some c \<and> core_version c = v \<and> max_sched c = 1 \<and> core_base0 c \<noteq> None \<and>
      core_irq_obj c = Some \<lparr>oq_irqnum = irq, oq_uhandler = Some ops, oq_wq = True\<rparr> \<and>
      v \<in> {AIPU_VERSION_ZHOUYI_V1, AIPU_VERSION_ZHOUYI_V2})"
  using assms
  by (auto simp: create_aipu_core_def ZHOUYI_V1_MAX_SCHED_JOB_NUM_def ZHOUYI_V2_MAX_SCHED_JOB_NUM_def aipu_create_irq_object_def Let_def errno_defs
      split: if_splits option.splits prod.splits)

end
