(* ===== verification/Zhouyi.thy ===== *)
theory Zhouyi
  imports Core
begin

text \<open>
  The operations common to both hardware versions (\<open>aipu/zhouyi/zhouyi.c\<close>) and the
  register map (\<open>zhouyi.h\<close>).
\<close>

definition ZHOUYI_IRQ_NONE :: u32 where "ZHOUYI_IRQ_NONE = 0"
definition ZHOUYI_IRQ_QEMPTY :: u32 where "ZHOUYI_IRQ_QEMPTY = 1"
definition ZHOUYI_IRQ_DONE :: u32 where "ZHOUYI_IRQ_DONE = 2"
definition ZHOUYI_IRQ_EXCEP :: u32 where "ZHOUYI_IRQ_EXCEP = 4"

definition ZHOUYI_IRQ :: u32 where
  "ZHOUYI_IRQ = ZHOUYI_IRQ_QEMPTY OR ZHOUYI_IRQ_DONE OR ZHOUYI_IRQ_EXCEP"

definition ZHOUYI_CTRL_REG_OFFSET :: u64 where "ZHOUYI_CTRL_REG_OFFSET = 0x0"
definition ZHOUYI_STAT_REG_OFFSET :: u64 where "ZHOUYI_STAT_REG_OFFSET = 0x4"
definition ZHOUYI_START_PC_REG_OFFSET :: u64 where "ZHOUYI_START_PC_REG_OFFSET = 0x8"
definition ZHOUYI_INTR_PC_REG_OFFSET :: u64 where "ZHOUYI_INTR_PC_REG_OFFSET = 0xC"
definition ZHOUYI_DATA_ADDR_0_REG_OFFSET :: u64 where "ZHOUYI_DATA_ADDR_0_REG_OFFSET = 0x14"
definition ZHOUYI_DATA_ADDR_1_REG_OFFSET :: u64 where "ZHOUYI_DATA_ADDR_1_REG_OFFSET = 0x18"
definition ZHOUYI_ISA_VERSION_REG_OFFSET :: u64 where "ZHOUYI_ISA_VERSION_REG_OFFSET = 0x40"
definition ZHOUYI_TPC_FEATURE_REG_OFFSET :: u64 where "ZHOUYI_TPC_FEATURE_REG_OFFSET = 0x44"
definition ZHOUYI_SPU_FEATURE_REG_OFFSET :: u64 where "ZHOUYI_SPU_FEATURE_REG_OFFSET = 0x48"
definition ZHOUYI_HWA_FEATURE_REG_OFFSET :: u64 where "ZHOUYI_HWA_FEATURE_REG_OFFSET = 0x4C"
definition ZHOUYI_REVISION_ID_REG_OFFSET :: u64 where "ZHOUYI_REVISION_ID_REG_OFFSET = 0x50"
definition ZHOUYI_MEM_FEATURE_REG_OFFSET :: u64 where "ZHOUYI_MEM_FEATURE_REG_OFFSET = 0x54"
definition ZHOUYI_INST_RAM_FEATURE_REG_OFFSET :: u64 where "ZHOUYI_INST_RAM_FEATURE_REG_OFFSET = 0x58"
definition ZHOUYI_LOCAL_SRAM_FEATURE_REG_OFFSET :: u64 where "ZHOUYI_LOCAL_SRAM_FEATURE_REG_OFFSET = 0x5C"
definition ZHOUYI_GLOBAL_SRAM_FEATURE_REG_OFFSET :: u64 where "ZHOUYI_GLOBAL_SRAM_FEATURE_REG_OFFSET = 0x60"
definition ZHOUYI_INST_CACHE_FEATURE_REG_OFFSET :: u64 where "ZHOUYI_INST_CACHE_FEATURE_REG_OFFSET = 0x64"
definition ZHOUYI_DATA_CACHE_FEATURE_REG_OFFSET :: u64 where "ZHOUYI_DATA_CACHE_FEATURE_REG_OFFSET = 0x68"

lemmas zhouyi_reg_defs = ZHOUYI_CTRL_REG_OFFSET_def ZHOUYI_STAT_REG_OFFSET_def ZHOUYI_START_PC_REG_OFFSET_def
  ZHOUYI_INTR_PC_REG_OFFSET_def ZHOUYI_DATA_ADDR_0_REG_OFFSET_def ZHOUYI_DATA_ADDR_1_REG_OFFSET_def
  ZHOUYI_ISA_VERSION_REG_OFFSET_def ZHOUYI_TPC_FEATURE_REG_OFFSET_def ZHOUYI_SPU_FEATURE_REG_OFFSET_def
  ZHOUYI_HWA_FEATURE_REG_OFFSET_def ZHOUYI_REVISION_ID_REG_OFFSET_def ZHOUYI_MEM_FEATURE_REG_OFFSET_def
  ZHOUYI_INST_RAM_FEATURE_REG_OFFSET_def ZHOUYI_LOCAL_SRAM_FEATURE_REG_OFFSET_def
  ZHOUYI_GLOBAL_SRAM_FEATURE_REG_OFFSET_def ZHOUYI_INST_CACHE_FEATURE_REG_OFFSET_def
  ZHOUYI_DATA_CACHE_FEATURE_REG_OFFSET_def

lemmas zhouyi_irq_defs = ZHOUYI_IRQ_NONE_def ZHOUYI_IRQ_QEMPTY_def ZHOUYI_IRQ_DONE_def ZHOUYI_IRQ_EXCEP_def
  ZHOUYI_IRQ_def

definition zhouyi_read_status_reg :: "io_region option \<Rightarrow> (mmio, u32) state" where
  "zhouyi_read_status_reg io = aipu_read32 io ZHOUYI_STAT_REG_OFFSET"

definition zhouyi_clear_qempty_interrupt :: "io_region option \<Rightarrow> (mmio, unit) state" where
  "zhouyi_clear_qempty_interrupt io = aipu_write32 io ZHOUYI_STAT_REG_OFFSET ZHOUYI_IRQ_QEMPTY"

definition zhouyi_clear_done_interrupt :: "io_region option \<Rightarrow> (mmio, unit) state" where
  "zhouyi_clear_done_interrupt io = aipu_write32 io ZHOUYI_STAT_REG_OFFSET ZHOUYI_IRQ_DONE"

definition zhouyi_clear_excep_interrupt :: "io_region option \<Rightarrow> (mmio, unit) state" where
  "zhouyi_clear_excep_interrupt io = aipu_write32 io ZHOUYI_STAT_REG_OFFSET ZHOUYI_IRQ_EXCEP"

definition zhouyi_query_cap :: "io_region option \<Rightarrow> aipu_cap \<Rightarrow> (mmio, int \<times> aipu_cap) state" where
  "zhouyi_query_cap io cap =
     (case io of
        None \<Rightarrow> State_Monad.return (map_errcode AIPU_ERRCODE_INTERNAL_NULLPTR, cap)
      | Some _ \<Rightarrow> do {
          isa \<leftarrow> aipu_read32 io ZHOUYI_ISA_VERSION_REG_OFFSET;
          tpc \<leftarrow> aipu_read32 io ZHOUYI_TPC_FEATURE_REG_OFFSET;
          aiff \<leftarrow> aipu_read32 io ZHOUYI_HWA_FEATURE_REG_OFFSET;
          State_Monad.return (AIPU_ERRCODE_NO_ERROR,
            cap\<lparr>isa_version := isa, tpc_feature := tpc, aiff_feature := aiff,
                 cap_errcode := AIPU_ERRCODE_NO_ERROR\<rparr>)
        })"

definition zhouyi_io_rw :: "io_region option \<Rightarrow> aipu_io_req \<Rightarrow> (mmio, aipu_io_req) state" where
  "zhouyi_io_rw io io_req =
     (case io of
        None \<Rightarrow> State_Monad.return io_req
      | Some _ \<Rightarrow>
          (if io_rw io_req = AIPU_IO_READ then do {
             v \<leftarrow> aipu_read32 io (ucast (io_offset io_req));
             State_Monad.return (io_req\<lparr>io_value := v, io_errcode := AIPU_ERRCODE_NO_ERROR\<rparr>)
           }
           else if io_rw io_req = AIPU_IO_WRITE then do {
             aipu_write32 io (ucast (io_offset io_req)) (io_value io_req);
             State_Monad.return (io_req\<lparr>io_errcode := AIPU_ERRCODE_NO_ERROR\<rparr>)
           }
           else State_Monad.return (io_req\<lparr>io_errcode := AIPU_ERRCODE_NO_ERROR\<rparr>)))"

subsection \<open>Where they access\<close>

lemma zhouyi_emits [intro]:
  "emits (starts_in io) (zhouyi_read_status_reg io)"
  "emits (starts_in io) (zhouyi_clear_qempty_interrupt io)"
  "emits (starts_in io) (zhouyi_clear_done_interrupt io)"
  "emits (starts_in io) (zhouyi_clear_excep_interrupt io)"
  unfolding zhouyi_read_status_reg_def zhouyi_clear_qempty_interrupt_def zhouyi_clear_done_interrupt_def
    zhouyi_clear_excep_interrupt_def by (intro emits_read32 emits_write32)+

lemma zhouyi_query_cap_emits [intro]: "emits (starts_in io) (zhouyi_query_cap io cap)"
  unfolding zhouyi_query_cap_def
  by (cases io) (simp only: option.case, intro emits_return emits_bind emits_read32)+

lemma zhouyi_io_rw_emits [intro]: "emits (starts_in io) (zhouyi_io_rw io req)"
  unfolding zhouyi_io_rw_def
  by (cases io)
     (simp_all only: option.case, (intro emits_return emits_if emits_bind emits_read32 emits_write32)+)

end
