(* ===== verification/Z1.thy ===== *)
theory Z1
  imports Zhouyi
begin

text \<open>
  The register operations of the version 1 core (\<open>aipu/zhouyi/z1/z1.c\<close>). The interrupt
  handlers are in theory \<open>Irq\<close>. Messages printed by \<open>dev_info\<close> are not modelled, but
  the register reads that produce their arguments are. Routines that dereference the
  core without a check return an \<open>option\<close>.
\<close>

definition ZHOUYIV1_IRQ_ENABLE_FLAG :: u32 where "ZHOUYIV1_IRQ_ENABLE_FLAG = ZHOUYI_IRQ"
definition ZHOUYIV1_IRQ_DISABLE_FLAG :: u32 where "ZHOUYIV1_IRQ_DISABLE_FLAG = ZHOUYI_IRQ_NONE"
definition ZHOUYI_INTR_CAUSE_REG_OFFSET :: u64 where "ZHOUYI_INTR_CAUSE_REG_OFFSET = 0x20"
definition ZHOUYI_L2_CACHE_FEATURE_REG_OFFSET :: u64 where "ZHOUYI_L2_CACHE_FEATURE_REG_OFFSET = 0x6C"

lemmas z1_defs = ZHOUYIV1_IRQ_ENABLE_FLAG_def ZHOUYIV1_IRQ_DISABLE_FLAG_def ZHOUYI_INTR_CAUSE_REG_OFFSET_def
  ZHOUYI_L2_CACHE_FEATURE_REG_OFFSET_def

text \<open>A routine guarded by \<open>if (core)\<close>.\<close>

definition if_core :: "aipu_core option \<Rightarrow> (io_region option \<Rightarrow> (mmio, unit) state) \<Rightarrow> (mmio, unit) state" where
  "if_core core f = (case core of None \<Rightarrow> State_Monad.return () | Some c \<Rightarrow> f (core_base0 c))"

definition zhouyi_v1_enable_interrupt :: "aipu_core option \<Rightarrow> (mmio, unit) state" where
  "zhouyi_v1_enable_interrupt core =
     if_core core (\<lambda>base0. aipu_write32 base0 ZHOUYI_CTRL_REG_OFFSET ZHOUYIV1_IRQ_ENABLE_FLAG)"

definition zhouyi_v1_disable_interrupt :: "aipu_core option \<Rightarrow> (mmio, unit) state" where
  "zhouyi_v1_disable_interrupt core =
     if_core core (\<lambda>base0. aipu_write32 base0 ZHOUYI_CTRL_REG_OFFSET ZHOUYIV1_IRQ_DISABLE_FLAG)"

definition zhouyi_v1_clear_qempty_interrupt :: "aipu_core option \<Rightarrow> (mmio, unit) state" where
  "zhouyi_v1_clear_qempty_interrupt core = if_core core zhouyi_clear_qempty_interrupt"

definition zhouyi_v1_clear_done_interrupt :: "aipu_core option \<Rightarrow> (mmio, unit) state" where
  "zhouyi_v1_clear_done_interrupt core = if_core core zhouyi_clear_done_interrupt"

definition zhouyi_v1_clear_excep_interrupt :: "aipu_core option \<Rightarrow> (mmio, unit) state" where
  "zhouyi_v1_clear_excep_interrupt core = if_core core zhouyi_clear_excep_interrupt"

text \<open>\<open>(unsigned int)\<close> keeps the low 32 bits of an address.\<close>

definition zhouyi_v1_trigger :: "aipu_core option \<Rightarrow> user_job_desc \<Rightarrow> (mmio, int) state" where
  "zhouyi_v1_trigger core udesc =
     (case core of
        None \<Rightarrow> State_Monad.return (map_errcode AIPU_ERRCODE_INTERNAL_NULLPTR)
      | Some c \<Rightarrow> do {
          let phys_addr0 = ucast (data_0_addr udesc);
          aipu_write32 (core_base0 c) ZHOUYI_DATA_ADDR_0_REG_OFFSET phys_addr0;
          let phys_addr1 = ucast (data_1_addr udesc);
          aipu_write32 (core_base0 c) ZHOUYI_DATA_ADDR_1_REG_OFFSET phys_addr1;
          aipu_write32 (core_base0 c) ZHOUYI_INTR_PC_REG_OFFSET (ucast (intr_handler_addr udesc));
          let start_pc = ucast (start_pc_addr udesc) OR 0xD;
          aipu_write32 (core_base0 c) ZHOUYI_START_PC_REG_OFFSET start_pc;
          State_Monad.return AIPU_ERRCODE_NO_ERROR
        })"

text \<open>\<open>&&\<close> stops at the first bit that is 0; each operand reads the register again.\<close>

definition zhouyi_v1_is_idle :: "aipu_core option \<Rightarrow> (mmio, bool) state" where
  "zhouyi_v1_is_idle core =
     (case core of
        None \<Rightarrow> State_Monad.return False
      | Some c \<Rightarrow> do {
          a \<leftarrow> aipu_read32 (core_base0 c) ZHOUYI_STAT_REG_OFFSET;
          if \<not> AIPU_BIT a 16 then State_Monad.return False
          else do {
            b \<leftarrow> aipu_read32 (core_base0 c) ZHOUYI_STAT_REG_OFFSET;
            if \<not> AIPU_BIT b 17 then State_Monad.return False
            else do {
              d \<leftarrow> aipu_read32 (core_base0 c) ZHOUYI_STAT_REG_OFFSET;
              State_Monad.return (AIPU_BIT d 18)
            }
          }
        })"

definition zhouyi_v1_read_status_reg :: "aipu_core option \<Rightarrow> (mmio, u32) state option" where
  "zhouyi_v1_read_status_reg core = map_option (\<lambda>c. zhouyi_read_status_reg (core_base0 c)) core"

definition v1_id_registers :: "u64 list" where
  "v1_id_registers = [ZHOUYI_ISA_VERSION_REG_OFFSET, ZHOUYI_TPC_FEATURE_REG_OFFSET,
     ZHOUYI_SPU_FEATURE_REG_OFFSET, ZHOUYI_HWA_FEATURE_REG_OFFSET, ZHOUYI_REVISION_ID_REG_OFFSET,
     ZHOUYI_MEM_FEATURE_REG_OFFSET, ZHOUYI_INST_RAM_FEATURE_REG_OFFSET,
     ZHOUYI_LOCAL_SRAM_FEATURE_REG_OFFSET, ZHOUYI_GLOBAL_SRAM_FEATURE_REG_OFFSET,
     ZHOUYI_INST_CACHE_FEATURE_REG_OFFSET, ZHOUYI_DATA_CACHE_FEATURE_REG_OFFSET,
     ZHOUYI_L2_CACHE_FEATURE_REG_OFFSET]"

fun read_registers :: "io_region option \<Rightarrow> u64 list \<Rightarrow> (mmio, u32 list) state" where
  "read_registers io [] = State_Monad.return []"
| "read_registers io (off # offs) = do {
     v \<leftarrow> aipu_read32 io off;
     vs \<leftarrow> read_registers io offs;
     State_Monad.return (v # vs)
   }"

text \<open>The values printed, the initial status first.\<close>

definition zhouyi_v1_print_hw_id_info :: "aipu_core option \<Rightarrow> (mmio, u32 list) state" where
  "zhouyi_v1_print_hw_id_info core =
     (case core of
        None \<Rightarrow> State_Monad.return []
      | Some c \<Rightarrow> read_registers (core_base0 c) (ZHOUYI_STAT_REG_OFFSET # v1_id_registers))"

definition zhouyi_v1_query_cap :: "aipu_core option \<Rightarrow> aipu_cap \<Rightarrow> (mmio, int \<times> aipu_cap) state" where
  "zhouyi_v1_query_cap core cap =
     (case core of None \<Rightarrow> State_Monad.return (0, cap) | Some c \<Rightarrow> zhouyi_query_cap (core_base0 c) cap)"

definition zhouyi_v1_io_rw :: "aipu_core option \<Rightarrow> aipu_io_req \<Rightarrow> (mmio, aipu_io_req) state option" where
  "zhouyi_v1_io_rw core io_req = map_option (\<lambda>c. zhouyi_io_rw (core_base0 c) io_req) core"

lemma read_registers_emits [intro]: "emits (starts_in io) (read_registers io offs)"
  by (induction offs) (auto intro!: emits_return emits_bind)

end
