(* ===== verification/Z2.thy ===== *)
theory Z2
  imports Z1
begin

text \<open>
  The register operations of the version 2 core (\<open>aipu/zhouyi/z2/z2.c\<close>): as version 1,
  with a fault interrupt and three address space extension (ASE) windows. The register
  reads in \<open>dev_dbg\<close> arguments, compiled out without dynamic debugging, are not modelled.
\<close>

definition ZHOUYI_IRQ_FAULT :: u32 where "ZHOUYI_IRQ_FAULT = 8"
definition ZHOUYIV2_IRQ_ENABLE_FLAG :: u32 where "ZHOUYIV2_IRQ_ENABLE_FLAG = ZHOUYI_IRQ OR ZHOUYI_IRQ_FAULT"
definition ZHOUYIV2_IRQ_DISABLE_FLAG :: u32 where "ZHOUYIV2_IRQ_DISABLE_FLAG = ZHOUYI_IRQ_NONE"

definition ZHOUYI_V2_ASE_READ_ENABLE :: u32 where "ZHOUYI_V2_ASE_READ_ENABLE = push_bit 31 1"
definition ZHOUYI_V2_ASE_RW_ENABLE :: u32 where "ZHOUYI_V2_ASE_RW_ENABLE = push_bit 30 3"

definition AIPU_ADDR_EXT0_CTRL_REG_OFFSET :: u64 where "AIPU_ADDR_EXT0_CTRL_REG_OFFSET = 0xC0"
definition AIPU_ADDR_EXT0_HIGH_BASE_REG_OFFSET :: u64 where "AIPU_ADDR_EXT0_HIGH_BASE_REG_OFFSET = 0xC4"
definition AIPU_ADDR_EXT0_LOW_BASE_REG_OFFSET :: u64 where "AIPU_ADDR_EXT0_LOW_BASE_REG_OFFSET = 0xC8"
definition AIPU_ADDR_EXT1_CTRL_REG_OFFSET :: u64 where "AIPU_ADDR_EXT1_CTRL_REG_OFFSET = 0xCC"
definition AIPU_ADDR_EXT1_HIGH_BASE_REG_OFFSET :: u64 where "AIPU_ADDR_EXT1_HIGH_BASE_REG_OFFSET = 0xD0"
definition AIPU_ADDR_EXT1_LOW_BASE_REG_OFFSET :: u64 where "AIPU_ADDR_EXT1_LOW_BASE_REG_OFFSET = 0xD4"
definition AIPU_ADDR_EXT2_CTRL_REG_OFFSET :: u64 where "AIPU_ADDR_EXT2_CTRL_REG_OFFSET = 0xD8"
definition AIPU_ADDR_EXT2_HIGH_BASE_REG_OFFSET :: u64 where "AIPU_ADDR_EXT2_HIGH_BASE_REG_OFFSET = 0xDC"
definition AIPU_ADDR_EXT2_LOW_BASE_REG_OFFSET :: u64 where "AIPU_ADDR_EXT2_LOW_BASE_REG_OFFSET = 0xE0"

lemmas z2_defs = ZHOUYI_IRQ_FAULT_def ZHOUYIV2_IRQ_ENABLE_FLAG_def ZHOUYIV2_IRQ_DISABLE_FLAG_def
  ZHOUYI_V2_ASE_READ_ENABLE_def ZHOUYI_V2_ASE_RW_ENABLE_def AIPU_ADDR_EXT0_CTRL_REG_OFFSET_def
  AIPU_ADDR_EXT0_HIGH_BASE_REG_OFFSET_def AIPU_ADDR_EXT0_LOW_BASE_REG_OFFSET_def
  AIPU_ADDR_EXT1_CTRL_REG_OFFSET_def AIPU_ADDR_EXT1_HIGH_BASE_REG_OFFSET_def
  AIPU_ADDR_EXT1_LOW_BASE_REG_OFFSET_def AIPU_ADDR_EXT2_CTRL_REG_OFFSET_def
  AIPU_ADDR_EXT2_HIGH_BASE_REG_OFFSET_def AIPU_ADDR_EXT2_LOW_BASE_REG_OFFSET_def

text \<open>
  \<open>ilog2((max((u64)4096, (u64)roundup_pow_of_two(value))>>12)) + 1\<close>: 1 for up to 4 KB, 2 for
  up to 8 KB, and so on.
\<close>

definition ZHOUYI_V2_ASE_CTRL_SIZE :: "u64 \<Rightarrow> u32" where
  "ZHOUYI_V2_ASE_CTRL_SIZE value =
     word_of_int (ilog2 (drop_bit 12 (max 4096 (roundup_pow_of_two value))) + 1)"

definition zhouyi_v2_enable_interrupt :: "aipu_core option \<Rightarrow> (mmio, unit) state" where
  "zhouyi_v2_enable_interrupt core =
     if_core core (\<lambda>base0. aipu_write32 base0 ZHOUYI_CTRL_REG_OFFSET ZHOUYIV2_IRQ_ENABLE_FLAG)"

definition zhouyi_v2_disable_interrupt :: "aipu_core option \<Rightarrow> (mmio, unit) state" where
  "zhouyi_v2_disable_interrupt core =
     if_core core (\<lambda>base0. aipu_write32 base0 ZHOUYI_CTRL_REG_OFFSET ZHOUYIV2_IRQ_DISABLE_FLAG)"

definition zhouyi_v2_clear_qempty_interrupt :: "aipu_core option \<Rightarrow> (mmio, unit) state" where
  "zhouyi_v2_clear_qempty_interrupt core = if_core core zhouyi_clear_qempty_interrupt"

definition zhouyi_v2_clear_done_interrupt :: "aipu_core option \<Rightarrow> (mmio, unit) state" where
  "zhouyi_v2_clear_done_interrupt core = if_core core zhouyi_clear_done_interrupt"

definition zhouyi_v2_clear_excep_interrupt :: "aipu_core option \<Rightarrow> (mmio, unit) state" where
  "zhouyi_v2_clear_excep_interrupt core = if_core core zhouyi_clear_excep_interrupt"

definition zhouyi_v2_clear_fault_interrupt :: "aipu_core option \<Rightarrow> (mmio, unit) state" where
  "zhouyi_v2_clear_fault_interrupt core =
     if_core core (\<lambda>base0. aipu_write32 base0 ZHOUYI_STAT_REG_OFFSET ZHOUYI_IRQ_FAULT)"

subsection \<open>Starting a job\<close>

definition ase0_start :: "user_job_desc \<Rightarrow> u64" where
  "ase0_start udesc = min (start_pc_addr udesc) (min (data_0_addr udesc) (data_1_addr udesc))"

definition ase0_end :: "user_job_desc \<Rightarrow> u64" where
  "ase0_end udesc =
     max (start_pc_addr udesc + ucast (code_size udesc))
       (max (data_0_addr udesc + ucast (rodata_size udesc)) (data_1_addr udesc + ucast (stack_size udesc)))"

definition high32 :: "u64 \<Rightarrow> u32" where "high32 a = ucast (drop_bit 32 a)"

definition low32 :: "u64 \<Rightarrow> u32" where "low32 a = ucast a"

text \<open>The three registers of an ASE window: control, high base, low base.\<close>

definition write_ase :: "io_region option \<Rightarrow> u64 \<Rightarrow> u64 \<Rightarrow> u64 \<Rightarrow> u32 \<Rightarrow> u32 \<Rightarrow> u32 \<Rightarrow> (mmio, unit) state" where
  "write_ase io ctrl_off high_off low_off ctrl high low = do {
     aipu_write32 io ctrl_off ctrl;
     aipu_write32 io high_off high;
     aipu_write32 io low_off low
   }"

definition zhouyi_v2_trigger :: "aipu_core option \<Rightarrow> user_job_desc \<Rightarrow> (mmio, int) state" where
  "zhouyi_v2_trigger core udesc =
     (case core of
        None \<Rightarrow> State_Monad.return (map_errcode AIPU_ERRCODE_INTERNAL_NULLPTR)
      | Some c \<Rightarrow> do {
          let io = core_base0 c;
          let base = (if enable_asid udesc \<noteq> 0 then ase0_start udesc else 0);
          let start_pc = low32 (start_pc_addr udesc - base);
          let intr_pc = low32 (intr_handler_addr udesc - base);
          let data_0_pa = low32 (data_0_addr udesc - base);
          let data_1_pa = low32 (data_1_addr udesc - base);
          let ase0_base_high = high32 (start_pc_addr udesc);
          aipu_write32 io ZHOUYI_DATA_ADDR_0_REG_OFFSET data_0_pa;
          aipu_write32 io ZHOUYI_DATA_ADDR_1_REG_OFFSET data_1_pa;
          aipu_write32 io ZHOUYI_INTR_PC_REG_OFFSET intr_pc;
          (if enable_asid udesc \<noteq> 0
           then do {
             write_ase io AIPU_ADDR_EXT0_CTRL_REG_OFFSET AIPU_ADDR_EXT0_HIGH_BASE_REG_OFFSET
               AIPU_ADDR_EXT0_LOW_BASE_REG_OFFSET
               (ZHOUYI_V2_ASE_RW_ENABLE OR ZHOUYI_V2_ASE_CTRL_SIZE (ase0_end udesc - ase0_start udesc))
               (high32 (ase0_start udesc)) 0;
             write_ase io AIPU_ADDR_EXT1_CTRL_REG_OFFSET AIPU_ADDR_EXT1_HIGH_BASE_REG_OFFSET
               AIPU_ADDR_EXT1_LOW_BASE_REG_OFFSET
               (ZHOUYI_V2_ASE_READ_ENABLE OR ZHOUYI_V2_ASE_CTRL_SIZE (ucast (static_size udesc)))
               (high32 (static_addr udesc)) (low32 (static_addr udesc));
             write_ase io AIPU_ADDR_EXT2_CTRL_REG_OFFSET AIPU_ADDR_EXT2_HIGH_BASE_REG_OFFSET
               AIPU_ADDR_EXT2_LOW_BASE_REG_OFFSET
               (ZHOUYI_V2_ASE_RW_ENABLE OR ZHOUYI_V2_ASE_CTRL_SIZE (ucast (reuse_size udesc)))
               (high32 (reuse_addr udesc)) (low32 (reuse_addr udesc))
           }
           else do {
             write_ase io AIPU_ADDR_EXT0_CTRL_REG_OFFSET AIPU_ADDR_EXT0_HIGH_BASE_REG_OFFSET
               AIPU_ADDR_EXT0_LOW_BASE_REG_OFFSET ZHOUYI_V2_ASE_RW_ENABLE ase0_base_high 0;
             write_ase io AIPU_ADDR_EXT1_CTRL_REG_OFFSET AIPU_ADDR_EXT1_HIGH_BASE_REG_OFFSET
               AIPU_ADDR_EXT1_LOW_BASE_REG_OFFSET ZHOUYI_V2_ASE_RW_ENABLE ase0_base_high 0;
             write_ase io AIPU_ADDR_EXT2_CTRL_REG_OFFSET AIPU_ADDR_EXT2_HIGH_BASE_REG_OFFSET
               AIPU_ADDR_EXT2_LOW_BASE_REG_OFFSET ZHOUYI_V2_ASE_RW_ENABLE ase0_base_high 0
           });
          aipu_write32 io ZHOUYI_START_PC_REG_OFFSET (start_pc OR 0xD);
          State_Monad.return AIPU_ERRCODE_NO_ERROR
        })"

definition zhouyi_v2_is_idle :: "aipu_core option \<Rightarrow> (mmio, bool) state" where
  "zhouyi_v2_is_idle core =
     (case core of
        None \<Rightarrow> State_Monad.return False
      | Some c \<Rightarrow> do {
          a \<leftarrow> aipu_read32 (core_base0 c) ZHOUYI_STAT_REG_OFFSET;
          if \<not> AIPU_BIT a 16 then State_Monad.return False
          else do {
            b \<leftarrow> aipu_read32 (core_base0 c) ZHOUYI_STAT_REG_OFFSET;
            if \<not> AIPU_BIT b 17 then State_Monad.return False
            else do {
              d \<leftarrow> aipu_read32 (core_base0 c) ZHOUYI_STAT_REG_OFFSET;
              State_Monad.return (AIPU_BIT d 18)
            }
          }
        })"

definition zhouyi_v2_read_status_reg :: "aipu_core option \<Rightarrow> (mmio, u32) state" where
  "zhouyi_v2_read_status_reg core =
     (case core of None \<Rightarrow> State_Monad.return 0 | Some c \<Rightarrow> zhouyi_read_status_reg (core_base0 c))"

definition v2_id_registers :: "u64 list" where
  "v2_id_registers = [ZHOUYI_ISA_VERSION_REG_OFFSET, ZHOUYI_TPC_FEATURE_REG_OFFSET,
     ZHOUYI_SPU_FEATURE_REG_OFFSET, ZHOUYI_HWA_FEATURE_REG_OFFSET, ZHOUYI_REVISION_ID_REG_OFFSET,
     ZHOUYI_MEM_FEATURE_REG_OFFSET, ZHOUYI_INST_RAM_FEATURE_REG_OFFSET,
     ZHOUYI_LOCAL_SRAM_FEATURE_REG_OFFSET, ZHOUYI_GLOBAL_SRAM_FEATURE_REG_OFFSET,
     ZHOUYI_INST_CACHE_FEATURE_REG_OFFSET, ZHOUYI_DATA_CACHE_FEATURE_REG_OFFSET]"

definition zhouyi_v2_print_hw_id_info :: "aipu_core option \<Rightarrow> (mmio, u32 list) state" where
  "zhouyi_v2_print_hw_id_info core =
     (case core of
        None \<Rightarrow> State_Monad.return []
      | Some c \<Rightarrow> read_registers (core_base0 c) (ZHOUYI_STAT_REG_OFFSET # v2_id_registers))"

definition zhouyi_v2_query_cap :: "aipu_core option \<Rightarrow> aipu_cap \<Rightarrow> (mmio, int \<times> aipu_cap) state" where
  "zhouyi_v2_query_cap core cap =
     (case core of None \<Rightarrow> State_Monad.return (0, cap) | Some c \<Rightarrow> zhouyi_query_cap (core_base0 c) cap)"

definition zhouyi_v2_io_rw :: "aipu_core option \<Rightarrow> aipu_io_req \<Rightarrow> (mmio, aipu_io_req) state" where
  "zhouyi_v2_io_rw core io_req =
     (case core of None \<Rightarrow> State_Monad.return io_req | Some c \<Rightarrow> zhouyi_io_rw (core_base0 c) io_req)"

end
