(* ===== verification/Soc.thy ===== *)
theory Soc
  imports Core
begin

text \<open>
  The board functions: default (\<open>aipu/soc/default/default.c\<close>), Juno r2
  (\<open>aipu/soc/junor2/junor2.c\<close>) and ZYNQ 6CG (\<open>aipu/soc/x6cg/x6cg.c\<close>).
\<close>

definition JUNOR2_WORK_STAT_START_REQ :: u64 where "JUNOR2_WORK_STAT_START_REQ = 0x140"
definition JUNOR2_WORK_STAT_END_REQ :: u64 where "JUNOR2_WORK_STAT_END_REQ = 0x144"
definition JUNOR2_ALL_RDATA_TOT_LSB :: u64 where "JUNOR2_ALL_RDATA_TOT_LSB = 0x200"
definition JUNOR2_ALL_RDATA_TOT_MSB :: u64 where "JUNOR2_ALL_RDATA_TOT_MSB = 0x204"
definition JUNOR2_ALL_WDATA_TOT_LSB :: u64 where "JUNOR2_ALL_WDATA_TOT_LSB = 0x208"
definition JUNOR2_ALL_WDATA_TOT_MSB :: u64 where "JUNOR2_ALL_WDATA_TOT_MSB = 0x20C"
definition JUNOR2_TOT_CYCLE_LSB :: u64 where "JUNOR2_TOT_CYCLE_LSB = 0x220"
definition JUNOR2_TOT_CYCLE_MSB :: u64 where "JUNOR2_TOT_CYCLE_MSB = 0x224"
definition JUNOR2_ENABLE_BW_STAT_FLAG :: u32 where "JUNOR2_ENABLE_BW_STAT_FLAG = 1"
definition JUNOR2_DISABLE_BW_STAT_FLAG :: u32 where "JUNOR2_DISABLE_BW_STAT_FLAG = 1"
definition JUNOR2_RESET_REG_OFFSET :: u64 where "JUNOR2_RESET_REG_OFFSET = 0x104"
definition JUNOR2_RESET_AIPU_FLAG :: u32 where "JUNOR2_RESET_AIPU_FLAG = 0"
definition JUNOR2_RELEASE_AIPU_FLAG :: u32 where "JUNOR2_RELEASE_AIPU_FLAG = 1"
definition JUNOR2_CLK_GATING_REG_OFFSET :: u64 where "JUNOR2_CLK_GATING_REG_OFFSET = 0x104"
definition JUNOR2_CLK_GATING_ENABLE_FLAG :: u32 where "JUNOR2_CLK_GATING_ENABLE_FLAG = 0x31"
definition JUNOR2_CLK_GATING_DISABLE_FLAG :: u32 where "JUNOR2_CLK_GATING_DISABLE_FLAG = 1"
definition X6CG_RESET_REG_OFFSET :: u64 where "X6CG_RESET_REG_OFFSET = 0"
definition X6CG_RESET_AIPU_FLAG :: u32 where "X6CG_RESET_AIPU_FLAG = 0"
definition X6CG_RELEASE_AIPU_FLAG :: u32 where "X6CG_RELEASE_AIPU_FLAG = 1"

text \<open>A routine guarded by \<open>if (soc)\<close>.\<close>

definition if_soc :: "aipu_soc option \<Rightarrow> (io_region option \<Rightarrow> (mmio, unit) state) \<Rightarrow> (mmio, unit) state" where
  "if_soc soc f = (case soc of None \<Rightarrow> State_Monad.return () | Some s \<Rightarrow> f (soc_base0 s))"

subsection \<open>Juno r2\<close>

definition junor2_start_bw_profiling :: "aipu_soc option \<Rightarrow> (mmio, unit) state" where
  "junor2_start_bw_profiling soc =
     if_soc soc (\<lambda>io. aipu_write32 io JUNOR2_WORK_STAT_START_REQ JUNOR2_ENABLE_BW_STAT_FLAG)"

definition junor2_stop_bw_profiling :: "aipu_soc option \<Rightarrow> (mmio, unit) state" where
  "junor2_stop_bw_profiling soc =
     if_soc soc (\<lambda>io. aipu_write32 io JUNOR2_WORK_STAT_END_REQ JUNOR2_DISABLE_BW_STAT_FLAG)"

definition junor2_read_profiling_reg :: "aipu_soc option \<Rightarrow> profiling_data \<Rightarrow> (mmio, profiling_data) state" where
  "junor2_read_profiling_reg soc pdata =
     (case soc of
        None \<Rightarrow> State_Monad.return pdata
      | Some s \<Rightarrow> do {
          rm \<leftarrow> aipu_read32 (soc_base0 s) JUNOR2_ALL_RDATA_TOT_MSB;
          rl \<leftarrow> aipu_read32 (soc_base0 s) JUNOR2_ALL_RDATA_TOT_LSB;
          wm \<leftarrow> aipu_read32 (soc_base0 s) JUNOR2_ALL_WDATA_TOT_MSB;
          wl \<leftarrow> aipu_read32 (soc_base0 s) JUNOR2_ALL_WDATA_TOT_LSB;
          cm \<leftarrow> aipu_read32 (soc_base0 s) JUNOR2_TOT_CYCLE_MSB;
          cl \<leftarrow> aipu_read32 (soc_base0 s) JUNOR2_TOT_CYCLE_LSB;
          State_Monad.return (pdata\<lparr>rdata_tot_msb := rm, rdata_tot_lsb := rl, wdata_tot_msb := wm,
            wdata_tot_lsb := wl, tot_cycle_msb := cm, tot_cycle_lsb := cl\<rparr>)
        })"

definition junor2_logic_reset :: "aipu_soc option \<Rightarrow> (mmio, unit) state" where
  "junor2_logic_reset soc = if_soc soc (\<lambda>io. aipu_write32 io JUNOR2_RESET_REG_OFFSET JUNOR2_RESET_AIPU_FLAG)"

definition junor2_logic_release :: "aipu_soc option \<Rightarrow> (mmio, unit) state" where
  "junor2_logic_release soc = if_soc soc (\<lambda>io. aipu_write32 io JUNOR2_RESET_REG_OFFSET JUNOR2_RELEASE_AIPU_FLAG)"

definition junor2_enable_clk_gating :: "aipu_soc option \<Rightarrow> (mmio, unit) state" where
  "junor2_enable_clk_gating soc =
     if_soc soc (\<lambda>io. aipu_write32 io JUNOR2_CLK_GATING_REG_OFFSET JUNOR2_CLK_GATING_ENABLE_FLAG)"

definition junor2_disable_clk_gating :: "aipu_soc option \<Rightarrow> (mmio, unit) state" where
  "junor2_disable_clk_gating soc =
     if_soc soc (\<lambda>io. aipu_write32 io JUNOR2_CLK_GATING_REG_OFFSET JUNOR2_CLK_GATING_DISABLE_FLAG)"

definition junor2_has_logic_reset :: "aipu_soc option \<Rightarrow> bool" where
  "junor2_has_logic_reset soc =
     (case soc of
        None \<Rightarrow> False
      | Some s \<Rightarrow> if soc_base0 s \<noteq> None then AIPU_ENABLE_RESET_HW_NONE_IDLE else False)"

subsection \<open>ZYNQ 6CG\<close>

definition x6cg_start_bw_profiling :: "aipu_soc option \<Rightarrow> (mmio, unit) state" where
  "x6cg_start_bw_profiling soc = State_Monad.return ()"

definition x6cg_stop_bw_profiling :: "aipu_soc option \<Rightarrow> (mmio, unit) state" where
  "x6cg_stop_bw_profiling soc = State_Monad.return ()"

definition x6cg_read_profiling_reg :: "aipu_soc option \<Rightarrow> profiling_data \<Rightarrow> (mmio, profiling_data) state" where
  "x6cg_read_profiling_reg soc pdata =
     State_Monad.return
       (if soc \<noteq> None
        then pdata\<lparr>rdata_tot_msb := 0, rdata_tot_lsb := 0, wdata_tot_msb := 0, wdata_tot_lsb := 0,
                   tot_cycle_msb := 0, tot_cycle_lsb := 0\<rparr>
        else pdata)"

definition x6cg_logic_reset :: "aipu_soc option \<Rightarrow> (mmio, unit) state" where
  "x6cg_logic_reset soc = if_soc soc (\<lambda>io. aipu_write32 io X6CG_RESET_REG_OFFSET X6CG_RESET_AIPU_FLAG)"

definition x6cg_logic_release :: "aipu_soc option \<Rightarrow> (mmio, unit) state" where
  "x6cg_logic_release soc = if_soc soc (\<lambda>io. aipu_write32 io X6CG_RESET_REG_OFFSET X6CG_RELEASE_AIPU_FLAG)"

definition x6cg_enable_clk_gating :: "aipu_soc option \<Rightarrow> (mmio, unit) state" where
  "x6cg_enable_clk_gating soc = State_Monad.return ()"

definition x6cg_disable_clk_gating :: "aipu_soc option \<Rightarrow> (mmio, unit) state" where
  "x6cg_disable_clk_gating soc = State_Monad.return ()"

definition x6cg_has_logic_reset :: "aipu_soc option \<Rightarrow> bool" where
  "x6cg_has_logic_reset soc =
     (case soc of
        None \<Rightarrow> False
      | Some s \<Rightarrow> if soc_base0 s \<noteq> None then AIPU_ENABLE_RESET_HW_NONE_IDLE else False)"

subsection \<open>Default board\<close>

definition default_start_bw_profiling :: "aipu_soc option \<Rightarrow> (mmio, unit) state" where
  "default_start_bw_profiling soc = State_Monad.return ()"

definition default_stop_bw_profiling :: "aipu_soc option \<Rightarrow> (mmio, unit) state" where
  "default_stop_bw_profiling soc = State_Monad.return ()"

definition default_read_profiling_reg :: "aipu_soc option \<Rightarrow> profiling_data \<Rightarrow> (mmio, profiling_data) state" where
  "default_read_profiling_reg soc pdata =
     State_Monad.return
       (if soc \<noteq> None
        then pdata\<lparr>rdata_tot_msb := 0, rdata_tot_lsb := 0, wdata_tot_msb := 0, wdata_tot_lsb := 0,
                   tot_cycle_msb := 0, tot_cycle_lsb := 0\<rparr>
        else pdata)"

definition default_logic_reset :: "aipu_soc option \<Rightarrow> (mmio, unit) state" where
  "default_logic_reset soc = State_Monad.return ()"

definition default_logic_release :: "aipu_soc option \<Rightarrow> (mmio, unit) state" where
  "default_logic_release soc = State_Monad.return ()"

definition default_enable_clk_gating :: "aipu_soc option \<Rightarrow> (mmio, unit) state" where
  "default_enable_clk_gating soc = State_Monad.return ()"

definition default_disable_clk_gating :: "aipu_soc option \<Rightarrow> (mmio, unit) state" where
  "default_disable_clk_gating soc = State_Monad.return ()"

definition default_has_logic_reset :: "aipu_soc option \<Rightarrow> bool" where
  "default_has_logic_reset soc = False"

end
