(* ===== verification/MmBlock.thy ===== *)
theory MmBlock
  imports Interface
begin

text \<open>
  The block list of one memory region (\<open>aipu_mm.c\<close>). The kernel list is circular
  with a sentinel (\<open>region->blk_head\<close>, 0 bytes, free); the model keeps the blocks
  after the sentinel as a list, in list order, and a block pointer is an index
  into it. The theory holds the search for a free block, the split of a block on
  allocation and the merge of neighbours on release, the tiling invariant of the
  list, and the lemmas that both operations keep it.
\<close>

datatype aipu_blk_state = AIPU_BLOCK_STATE_FREE | AIPU_BLOCK_STATE_ALLOCATED

record aipu_block =
  blk_pa :: u64
  blk_bytes :: u64
  blk_tid :: int
  blk_type :: u32
  blk_state :: aipu_blk_state

subsection \<open>Creating blocks\<close>

text \<open>\<open>kz\<close>: whether \<open>kzalloc\<close> succeeds.\<close>

definition create_block ::
  "bool \<Rightarrow> u64 \<Rightarrow> u64 \<Rightarrow> int \<Rightarrow> u32 \<Rightarrow> aipu_blk_state \<Rightarrow> aipu_block option" where
  "create_block kz base bytes tid type state =
     (if \<not> kz then None
      else Some \<lparr>blk_pa = base, blk_bytes = bytes, blk_tid = tid, blk_type = type,
                 blk_state = state\<rparr>)"

definition create_block_list_head :: "bool \<Rightarrow> u64 \<Rightarrow> u64 \<Rightarrow> aipu_block option" where
  "create_block_list_head kz base bytes =
     create_block kz base bytes 0 AIPU_MM_DATA_TYPE_NONE AIPU_BLOCK_STATE_FREE"

definition blk_head :: aipu_block where
  "blk_head = \<lparr>blk_pa = 0, blk_bytes = 0, blk_tid = 0, blk_type = AIPU_MM_DATA_TYPE_NONE,
     blk_state = AIPU_BLOCK_STATE_FREE\<rparr>"

subsection \<open>Searching a free block\<close>

text \<open>
  The two loop bodies: the start address the block offers, if the request fits.
  All arithmetic is on \<open>u64\<close> and wraps, as in the source.
\<close>

definition fit_forward :: "u64 \<Rightarrow> u64 \<Rightarrow> aipu_block \<Rightarrow> u64 option" where
  "fit_forward bytes alignment blk =
     (if blk_state blk \<noteq> AIPU_BLOCK_STATE_ALLOCATED then
        let start = ALIGN (blk_pa blk) alignment; end' = start + bytes
        in if end' \<le> blk_pa blk + blk_bytes blk then Some start else None
      else None)"

definition fit_reverse :: "u64 \<Rightarrow> u64 \<Rightarrow> aipu_block \<Rightarrow> u64 option" where
  "fit_reverse bytes alignment blk =
     (if blk_state blk \<noteq> AIPU_BLOCK_STATE_ALLOCATED then
        let result = (blk_pa blk + blk_bytes blk - bytes) div alignment;
            start = result * alignment; end' = start + bytes
        in if blk_pa blk \<le> start \<and> end' \<le> blk_pa blk + blk_bytes blk then Some start else None
      else None)"

text \<open>
  \<open>list_for_each_entry\<close> and \<open>list_for_each_entry_reverse\<close> with a \<open>goto success\<close>
  out of the loop: the first index of the visiting order whose block is accepted.
\<close>

fun scan_blocks :: "(aipu_block \<Rightarrow> 'a option) \<Rightarrow> nat list \<Rightarrow> aipu_block list \<Rightarrow> (nat \<times> 'a) option" where
  "scan_blocks accept [] bl = None"
| "scan_blocks accept (i # is) bl =
     (case accept (bl ! i) of Some x \<Rightarrow> Some (i, x) | None \<Rightarrow> scan_blocks accept is bl)"

definition is_forward_type :: "u32 \<Rightarrow> bool" where
  "is_forward_type data_type =
     (data_type = AIPU_MM_DATA_TYPE_TEXT \<or> data_type = AIPU_MM_DATA_TYPE_RO_STACK)"

definition aipu_mm_find_block_candidate_no_lock ::
  "aipu_block list \<Rightarrow> u64 \<Rightarrow> u64 \<Rightarrow> u32 \<Rightarrow> int + (nat \<times> u64)" where
  "aipu_mm_find_block_candidate_no_lock bl bytes alignment data_type =
     (if bytes = 0 \<or> alignment = 0 \<or> alignment mod PAGE_SIZE \<noteq> 0 then Inl (- EINVAL)
      else
        case (if is_forward_type data_type
              then scan_blocks (fit_forward bytes alignment) [0..<length bl] bl
              else scan_blocks (fit_reverse bytes alignment) (rev [0..<length bl]) bl) of
          None \<Rightarrow> Inl (- ENOMEM)
        | Some (i, start) \<Rightarrow> Inr (i, start))"

subsection \<open>Splitting a block\<close>

text \<open>Replace entry \<open>i\<close> of the list by the entries \<open>xs\<close>.\<close>

definition splice :: "nat \<Rightarrow> 'a list \<Rightarrow> 'a list \<Rightarrow> 'a list" where
  "splice i xs bl = take i bl @ xs @ drop (Suc i) bl"

text \<open>
  \<open>kz\<close> and \<open>kz_back\<close> are the outcomes of the two \<open>create_block\<close> calls. The second one
  is not checked by the source before \<open>list_add(&remaining_blk->list, ...)\<close>, so its
  failure is a memory fault.
\<close>

definition aipu_mm_split_block_no_lock ::
  "bool \<Rightarrow> bool \<Rightarrow> int \<Rightarrow> aipu_block list \<Rightarrow> nat \<Rightarrow> u64 \<Rightarrow> u64 \<Rightarrow> u32 \<Rightarrow> (int \<times> aipu_block list) option"
where
  "aipu_mm_split_block_no_lock kz kzb tid bl i alloc_base alloc_bytes type =
     (let target = bl ! i;
          alloc_start = alloc_base;
          alloc_end = alloc_start + alloc_bytes - 1;
          target_start = blk_pa target;
          target_end = blk_pa target + blk_bytes target - 1
      in if alloc_bytes = 0 \<or> alloc_end < target_start \<or> alloc_end > target_end
         then Some (- EINVAL, bl)
         else if alloc_start = target_start \<and> alloc_end = target_end
         then Some (0, splice i [target\<lparr>blk_tid := tid, blk_type := type,
                                         blk_state := AIPU_BLOCK_STATE_ALLOCATED\<rparr>] bl)
         else case create_block kz alloc_start alloc_bytes tid type AIPU_BLOCK_STATE_ALLOCATED of
                None \<Rightarrow> Some (- ENOMEM, bl)
              | Some alloc_blk \<Rightarrow>
                  if alloc_start = target_start \<and> alloc_end < target_end
                  then Some (0, splice i [alloc_blk,
                               target\<lparr>blk_pa := blk_pa target + blk_bytes alloc_blk,
                                      blk_bytes := blk_bytes target - blk_bytes alloc_blk\<rparr>] bl)
                  else if alloc_start > target_start \<and> alloc_end = target_end
                  then Some (0, splice i [target\<lparr>blk_bytes := blk_bytes target - blk_bytes alloc_blk\<rparr>,
                               alloc_blk] bl)
                  else case create_block kzb (alloc_end + 1) (target_end - alloc_end) tid type
                              AIPU_BLOCK_STATE_FREE of
                         None \<Rightarrow> None
                       | Some back \<Rightarrow>
                           Some (0, splice i [target\<lparr>blk_bytes := alloc_start - blk_pa target\<rparr>,
                               alloc_blk, back] bl))"

subsection \<open>Releasing a block\<close>

text \<open>Neighbours in the circular list: the sentinel before the first and after the last.\<close>

definition list_prev_block :: "nat \<Rightarrow> aipu_block list \<Rightarrow> aipu_block" where
  "list_prev_block i bl = (if i = 0 then blk_head else bl ! (i - 1))"

definition list_next_block :: "nat \<Rightarrow> aipu_block list \<Rightarrow> aipu_block" where
  "list_next_block i bl = (if Suc i < length bl then bl ! Suc i else blk_head)"

text \<open>Marking block \<open>i\<close> free and merging it with its free neighbours.\<close>

definition release_block :: "nat \<Rightarrow> aipu_block list \<Rightarrow> aipu_block list" where
  "release_block i bl =
     (let target = (bl ! i)\<lparr>blk_tid := 0, blk_type := AIPU_MM_DATA_TYPE_NONE,
                             blk_state := AIPU_BLOCK_STATE_FREE\<rparr>;
          prev = list_prev_block i bl;
          nxt = list_next_block i bl;
          merge_prev = (blk_bytes prev \<noteq> 0 \<and> blk_state prev = AIPU_BLOCK_STATE_FREE);
          merge_next = (blk_bytes nxt \<noteq> 0 \<and> blk_state nxt \<noteq> AIPU_BLOCK_STATE_ALLOCATED);
          front = (if merge_prev then take (i - 1) bl else take i bl);
          target1 = (if merge_prev then prev\<lparr>blk_bytes := blk_bytes prev + blk_bytes target\<rparr>
                     else target);
          target2 = (if merge_next then target1\<lparr>blk_bytes := blk_bytes target1 + blk_bytes nxt\<rparr>
                     else target1);
          rest = (if merge_next then drop (i + 2) bl else drop (i + 1) bl)
      in front @ [target2] @ rest)"

text \<open>The first block with the address and size of the descriptor.\<close>

definition find_block_by_desc :: "aipu_block list \<Rightarrow> u64 \<Rightarrow> u64 \<Rightarrow> nat option" where
  "find_block_by_desc bl pa bytes =
     map_option fst (scan_blocks (\<lambda>b. if blk_pa b = pa \<and> blk_bytes b = bytes then Some () else None)
                       [0..<length bl] bl)"

subsection \<open>The invariant of a block list\<close>

text \<open>The blocks tile the addresses from \<open>s\<close> up to \<open>e\<close>, without gaps, overlaps or empty blocks.\<close>

fun tiles :: "nat \<Rightarrow> aipu_block list \<Rightarrow> nat \<Rightarrow> bool" where
  "tiles s [] e = (s = e)"
| "tiles s (b # bs) e =
     (unat (blk_pa b) = s \<and> 0 < unat (blk_bytes b) \<and> tiles (s + unat (blk_bytes b)) bs e)"

definition is_free :: "aipu_block \<Rightarrow> bool" where
  "is_free b = (blk_state b = AIPU_BLOCK_STATE_FREE)"

text \<open>No two neighbours are both free.\<close>

definition coalesced :: "aipu_block list \<Rightarrow> bool" where
  "coalesced = successively (\<lambda>a b. \<not> (is_free a \<and> is_free b))"

definition free_bytes :: "aipu_block list \<Rightarrow> nat" where
  "free_bytes bl = sum_list (map (\<lambda>b. if is_free b then unat (blk_bytes b) else 0) bl)"

text \<open>What the list promises to its clients: the allocated ranges (address, size).\<close>

definition live :: "aipu_block list \<Rightarrow> (nat \<times> nat) set" where
  "live bl = {(unat (blk_pa b), unat (blk_bytes b)) | b. b \<in> set bl \<and> \<not> is_free b}"

text \<open>What is left of a block when owner information is erased.\<close>

definition skel :: "aipu_block \<Rightarrow> u64 \<times> u64 \<times> aipu_blk_state" where
  "skel b = (blk_pa b, blk_bytes b, blk_state b)"

subsection \<open>Scanning\<close>

lemma scan_blocks_SomeD:
  "scan_blocks f is bl = Some (i, x) \<Longrightarrow> i \<in> set is \<and> f (bl ! i) = Some x"
  by (induction "is") (auto split: option.splits)

lemma scan_blocks_None_iff:
  "scan_blocks f is bl = None \<longleftrightarrow> (\<forall>i \<in> set is. f (bl ! i) = None)"
  by (induction "is") (auto split: option.splits)

lemma scan_blocks_first:
  "scan_blocks f (is1 @ i # is2) bl = Some (i, x) \<Longrightarrow> i \<notin> set is1 \<Longrightarrow>
   \<forall>j \<in> set is1. f (bl ! j) = None"
  by (induction is1) (auto split: option.splits)

subsection \<open>Tilings\<close>

lemma tiles_append:
  "tiles s (xs @ ys) e \<longleftrightarrow> (\<exists>m. tiles s xs m \<and> tiles m ys e)"
  by (induction xs arbitrary: s) auto

lemma tiles_le: "tiles s bl e \<Longrightarrow> s \<le> e"
  by (induction bl arbitrary: s) fastforce+

lemma tiles_total: "tiles s bl e \<Longrightarrow> e = s + sum_list (map (unat \<circ> blk_bytes) bl)"
  by (induction bl arbitrary: s) force+

lemma tiles_mem:
  "tiles s bl e \<Longrightarrow> b \<in> set bl \<Longrightarrow>
   s \<le> unat (blk_pa b) \<and> 0 < unat (blk_bytes b) \<and> unat (blk_pa b) + unat (blk_bytes b) \<le> e"
proof (induction bl arbitrary: s)
  case (Cons a bl)
  then show ?case using tiles_le by fastforce
qed simp

lemma tiles_disjoint:
  assumes "tiles s bl e" "i < j" "j < length bl"
  shows "unat (blk_pa (bl ! i)) + unat (blk_bytes (bl ! i)) \<le> unat (blk_pa (bl ! j))"
proof -
  from assms have "bl = take (Suc i) bl @ drop (Suc i) bl" and l: "Suc i \<le> length bl" by auto
  with assms(1) obtain m where a: "tiles s (take (Suc i) bl) m" and b: "tiles m (drop (Suc i) bl) e"
    by (metis tiles_append)
  have "bl ! i \<in> set (take (Suc i) bl)" using l by (auto simp: in_set_conv_nth intro!: exI [of _ i])
  moreover have "bl ! j \<in> set (drop (Suc i) bl)"
    using assms l by (auto simp: in_set_conv_nth intro!: exI [of _ "j - Suc i"])
  ultimately show ?thesis using tiles_mem [OF a] tiles_mem [OF b] by fastforce
qed

lemma tiles_distinct: "tiles s bl e \<Longrightarrow> distinct (map blk_pa bl)"
  unfolding distinct_conv_nth length_map
proof (intro allI impI)
  fix i j assume t: "tiles s bl e" and i: "i < length bl" and j: "j < length bl" and "i \<noteq> j"
  have pos: "0 < unat (blk_bytes (bl ! k))" if "k < length bl" for k
    using tiles_mem [OF t, of "bl ! k"] that by simp
  from \<open>i \<noteq> j\<close> consider "i < j" | "j < i" by linarith
  then show "map blk_pa bl ! i \<noteq> map blk_pa bl ! j"
    using tiles_disjoint [OF t, of i j] tiles_disjoint [OF t, of j i] pos [OF i] pos [OF j] i j
    by cases auto
qed

subsection \<open>What fits\<close>

lemma fit_forward_bounds:
  assumes "fit_forward n a b = Some s"
    and "unat (blk_pa b) + unat (blk_bytes b) \<le> 2 ^ 62" "unat n \<le> 2 ^ 62" "unat a < 2 ^ 32" "0 < a"
  shows "is_free b" "unat (blk_pa b) \<le> unat s"
    and "unat s + unat n \<le> unat (blk_pa b) + unat (blk_bytes b)"
proof -
  have a1: "unat (a - 1) < 2 ^ 32"
    using assms(4,5) unat_sub_nowrap [of 1 a] by (simp add: word_less_nat_alt)
  from assms(1) have s: "s = ALIGN (blk_pa b) a" and le: "s + n \<le> blk_pa b + blk_bytes b"
    and f: "is_free b"
    by (auto simp: fit_forward_def Let_def is_free_def split: if_splits)
       (metis aipu_blk_state.exhaust)
  have nw: "unat (blk_pa b) + unat (a - 1) < 2 ^ 64" using a1 assms(2) by simp
  note bd = ALIGN_bounds [OF nw, folded s]
  have e: "unat (blk_pa b + blk_bytes b) = unat (blk_pa b) + unat (blk_bytes b)"
    using assms(2) by (intro unat_add_nowrap) simp
  have e2: "unat (s + n) = unat s + unat n"
    using bd a1 assms(2,3) by (intro unat_add_nowrap) simp
  show "is_free b" by (fact f)
  show "unat (blk_pa b) \<le> unat s" using bd by simp
  show "unat s + unat n \<le> unat (blk_pa b) + unat (blk_bytes b)"
    using le e e2 by (simp add: word_le_nat_alt)
qed

lemma floor_mult:
  assumes "(0 :: u64) < a"
  shows "unat (x div a * a) = unat x div unat a * unat a"
    and "unat (x div a * a) \<le> unat x" and "unat a dvd unat (x div a * a)"
    and "unat x - unat (x div a * a) < unat a"
proof -
  show e: "unat (x div a * a) = unat x div unat a * unat a" by (rule unat_mult_div_u64)
  show "unat (x div a * a) \<le> unat x" "unat a dvd unat (x div a * a)" using e by simp_all
  have "0 < unat a" using assms by (simp add: word_less_nat_alt)
  then show "unat x - unat (x div a * a) < unat a"
    using e by (simp add: minus_div_mult_eq_mod)
qed

lemma fit_reverse_bounds:
  assumes "fit_reverse n a b = Some s"
    and "unat (blk_pa b) + unat (blk_bytes b) \<le> 2 ^ 62"
    and "unat n \<le> unat (blk_pa b) + unat (blk_bytes b)" "0 < a"
  shows "is_free b" "unat (blk_pa b) \<le> unat s"
    and "unat s + unat n \<le> unat (blk_pa b) + unat (blk_bytes b)"
    and "unat a dvd unat s"
proof -
  let ?r = "blk_pa b + blk_bytes b - n"
  from assms(1) have s: "s = ?r div a * a" and lo: "blk_pa b \<le> s"
    and le: "s + n \<le> blk_pa b + blk_bytes b" and f: "is_free b"
    by (auto simp: fit_reverse_def Let_def is_free_def split: if_splits)
       (metis aipu_blk_state.exhaust)
  have e: "unat (blk_pa b + blk_bytes b) = unat (blk_pa b) + unat (blk_bytes b)"
    using assms(2) by (intro unat_add_nowrap) simp
  have r: "unat ?r = unat (blk_pa b) + unat (blk_bytes b) - unat n"
    using unat_sub_nowrap [of n "blk_pa b + blk_bytes b"] e assms(3) by simp
  show "is_free b" by (fact f)
  show "unat (blk_pa b) \<le> unat s" using lo by (simp add: word_le_nat_alt)
  show "unat s + unat n \<le> unat (blk_pa b) + unat (blk_bytes b)"
    using floor_mult(2) [OF assms(4), of ?r] r assms(3) unfolding s by linarith
  show "unat a dvd unat s" using floor_mult(3) [OF assms(4)] s by simp
qed

text \<open>Completeness of the two searches: a free block that is refused has no room.\<close>

lemma ALIGN_least:
  assumes "unat x + unat (a - 1) < 2 ^ 64" "a = 2 ^ k" "k < 64" "unat a dvd y" "unat x \<le> y"
  shows "unat (ALIGN x a) \<le> y"
proof (rule ccontr)
  assume n: "\<not> unat (ALIGN x a) \<le> y"
  have ua: "unat a = 2 ^ k" using assms(2,3) by (simp add: unat_exp_u64)
  then have ua1: "unat (a - 1) = 2 ^ k - 1"
    using unat_sub_nowrap [of 1 a] by simp
  have d: "2 ^ k dvd unat (ALIGN x a)" using ALIGN_pow2_dvd [OF assms(3)] assms(2) by simp
  then have "2 ^ k dvd unat (ALIGN x a) - y" using assms(4) ua by (simp add: dvd_diff_nat)
  with n have "2 ^ k \<le> unat (ALIGN x a) - y" by (simp add: dvd_imp_le)
  with ALIGN_bounds(2) [OF assms(1)] assms(5) ua1 n show False by simp
qed

lemma fit_forward_None:
  assumes "fit_forward n a b = None" "is_free b" "a = 2 ^ k" "k < 32"
    and "unat (blk_pa b) + unat (blk_bytes b) \<le> 2 ^ 62" "unat n \<le> 2 ^ 62"
    and "unat a dvd y" "unat (blk_pa b) \<le> y"
  shows "unat (blk_pa b) + unat (blk_bytes b) < y + unat n"
proof -
  have ua: "unat a = 2 ^ k" "(2::nat) ^ k < 2 ^ 32"
    using assms(3,4) power_strict_increasing [of k 32 "2 :: nat"] by (simp_all add: unat_exp_u64)
  then have a1: "unat (a - 1) < 2 ^ 32"
    using unat_sub_nowrap [of 1 a] by simp
  let ?s = "ALIGN (blk_pa b) a"
  have nw: "unat (blk_pa b) + unat (a - 1) < 2 ^ 64" using a1 assms(5) by simp
  note bd = ALIGN_bounds [OF nw]
  have e: "unat (blk_pa b + blk_bytes b) = unat (blk_pa b) + unat (blk_bytes b)"
    using assms(5) by (intro unat_add_nowrap) simp
  have e2: "unat (?s + n) = unat ?s + unat n"
    using bd a1 assms(5,6) by (intro unat_add_nowrap) simp
  from assms(1,2) have "\<not> ?s + n \<le> blk_pa b + blk_bytes b"
    by (auto simp: fit_forward_def Let_def is_free_def split: if_splits)
  then have "unat (blk_pa b) + unat (blk_bytes b) < unat ?s + unat n"
    using e e2 by (simp add: word_le_nat_alt)
  moreover have "unat ?s \<le> y"
    using ALIGN_least [OF nw assms(3) _ assms(7,8)] assms(4) by simp
  ultimately show ?thesis by linarith
qed

lemma fit_reverse_None:
  assumes "fit_reverse n a b = None" "is_free b" "0 < a"
    and "unat (blk_pa b) + unat (blk_bytes b) \<le> 2 ^ 62"
    and "unat n \<le> unat (blk_pa b) + unat (blk_bytes b)"
    and "unat a dvd y" "unat (blk_pa b) \<le> y"
  shows "unat (blk_pa b) + unat (blk_bytes b) < y + unat n"
proof (rule ccontr)
  assume "\<not> ?thesis"
  then have fits: "y + unat n \<le> unat (blk_pa b) + unat (blk_bytes b)" by simp
  let ?r = "blk_pa b + blk_bytes b - n"
  have e: "unat (blk_pa b + blk_bytes b) = unat (blk_pa b) + unat (blk_bytes b)"
    using assms(4) by (intro unat_add_nowrap) simp
  have r: "unat ?r = unat (blk_pa b) + unat (blk_bytes b) - unat n"
    using unat_sub_nowrap [of n "blk_pa b + blk_bytes b"] e assms(5) by simp
  let ?s = "?r div a * a"
  have "y \<le> unat ?r" using fits r by simp
  then have "y div unat a * unat a \<le> unat ?s"
    using floor_mult(1) [OF assms(3), of ?r] by (simp add: div_le_mono)
  then have ys: "y \<le> unat ?s" using assms(6) by simp
  have "unat (?s + n) = unat ?s + unat n"
    using floor_mult(2) [OF assms(3), of ?r] r assms(4,5) by (intro unat_add_nowrap) simp
  then have "?s + n \<le> blk_pa b + blk_bytes b" "blk_pa b \<le> ?s"
    using floor_mult(2) [OF assms(3), of ?r] r e assms(5,7) ys by (simp_all add: word_le_nat_alt)
  with assms(1,2) show False
    by (auto simp: fit_reverse_def Let_def is_free_def split: if_splits)
qed

subsection \<open>Splicing\<close>

lemma splice_append [simp]: "splice (length pre) X (pre @ t # post) = pre @ X @ post"
  by (simp add: splice_def)

lemma split_at: "i < length bl \<Longrightarrow> \<exists>pre post. bl = pre @ bl ! i # post \<and> length pre = i"
  by (metis id_take_nth_drop length_take min.absorb4)

lemma live_append: "live (xs @ ys) = live xs \<union> live ys"
  by (auto simp: live_def)

lemma live_Cons:
  "live (b # bs) = (if is_free b then {} else {(unat (blk_pa b), unat (blk_bytes b))}) \<union> live bs"
  by (auto simp: live_def)

lemma live_Nil [simp]: "live [] = {}" by (simp add: live_def)

lemma free_bytes_append: "free_bytes (xs @ ys) = free_bytes xs + free_bytes ys"
  by (simp add: free_bytes_def)

lemma free_bytes_Cons:
  "free_bytes (b # bs) = (if is_free b then unat (blk_bytes b) else 0) + free_bytes bs"
  by (simp add: free_bytes_def)

lemma free_bytes_Nil [simp]: "free_bytes [] = 0" by (simp add: free_bytes_def)

lemma coalesced_append:
  "coalesced (xs @ ys) \<longleftrightarrow> coalesced xs \<and> coalesced ys \<and>
     (xs = [] \<or> ys = [] \<or> \<not> (is_free (last xs) \<and> is_free (hd ys)))"
  by (simp add: coalesced_def successively_append_iff)

lemma coalesced_Cons:
  "coalesced (b # bs) \<longleftrightarrow> coalesced bs \<and> (bs = [] \<or> \<not> (is_free b \<and> is_free (hd bs)))"
  by (cases bs) (auto simp: coalesced_def)

lemma coalesced_Nil [simp]: "coalesced []" by (simp add: coalesced_def)

lemmas block_list_simps = live_append live_Cons free_bytes_append free_bytes_Cons
  coalesced_append coalesced_Cons tiles_append

subsection \<open>The effect of a split\<close>

text \<open>
  What replaces block \<open>t\<close> when \<open>n\<close> bytes from \<open>s\<close> are taken out of it: a list that
  tiles the same addresses, with one allocated range and the rest free.
\<close>

definition is_cut :: "aipu_block \<Rightarrow> u64 \<Rightarrow> u64 \<Rightarrow> aipu_block list \<Rightarrow> bool" where
  "is_cut t s n X \<longleftrightarrow>
     tiles (unat (blk_pa t)) X (unat (blk_pa t) + unat (blk_bytes t)) \<and> coalesced X \<and> X \<noteq> [] \<and>
     live X = {(unat s, unat n)} \<and> free_bytes X + unat n = unat (blk_bytes t)"

lemma split_block_cut:
  assumes "is_free (bl ! i)" "0 < unat n" "unat (blk_pa (bl ! i)) \<le> unat s"
    and "unat s + unat n \<le> unat (blk_pa (bl ! i)) + unat (blk_bytes (bl ! i))"
    and "unat (blk_pa (bl ! i)) + unat (blk_bytes (bl ! i)) \<le> 2 ^ 62"
    and res: "aipu_mm_split_block_no_lock kz kzb tid bl i s n ty = Some (r, bl')"
  shows "r = 0 \<and> (\<exists>X. bl' = splice i X bl \<and> is_cut (bl ! i) s n X) \<or> r \<noteq> 0 \<and> bl' = bl"
proof -
  define t where "t = bl ! i"
  note a = assms(1-5) [folded t_def]
  have te0: "unat (blk_pa t + blk_bytes t) = unat (blk_pa t) + unat (blk_bytes t)"
    and ae0: "unat (s + n) = unat s + unat n"
    using a by (simp_all add: unat_add_nowrap)
  have ae: "unat (s + n - 1) = unat s + unat n - 1"
    using unat_sub_nowrap [of 1 "s + n"] ae0 a by simp
  have te: "unat (blk_pa t + blk_bytes t - 1) = unat (blk_pa t) + unat (blk_bytes t) - 1"
    using unat_sub_nowrap [of 1 "blk_pa t + blk_bytes t"] te0 a by simp
  have ae1: "unat (s + n - 1 + 1) = unat s + unat n" using ae0 by simp
  have bk: "unat (blk_pa t + blk_bytes t - 1 - (s + n - 1)) =
      unat (blk_pa t) + unat (blk_bytes t) - (unat s + unat n)"
    using unat_sub_nowrap [of "s + n - 1" "blk_pa t + blk_bytes t - 1"] ae te a by simp
  have "blk_pa t + blk_bytes t - 1 - (s + n - 1) = blk_pa t + (blk_bytes t + (- s - n))" by simp
  note bk2 = bk [unfolded this]
  have sn: "unat (s + n) = unat s + unat n" by (fact ae0)
  have fr: "unat (s - blk_pa t) = unat s - unat (blk_pa t)"
    and pn: "unat (blk_pa t + n) = unat (blk_pa t) + unat n"
    and bn: "unat (blk_bytes t - n) = unat (blk_bytes t) - unat n"
    using a by (simp_all add: unat_add_nowrap unat_sub_nowrap)
  note w = word_less_nat_alt word_le_nat_alt word_eq_unat ae te ae1 bk bk2 sn fr pn bn
  have fb: "is_free t" using a by simp
  show ?thesis
    using res a fb
    unfolding aipu_mm_split_block_no_lock_def create_block_def Let_def t_def [symmetric] w
    by (cases "unat s = unat (blk_pa t)";
        cases "unat s + unat n = unat (blk_pa t) + unat (blk_bytes t)")
       (auto simp: is_cut_def block_list_simps is_free_def w split: if_splits option.splits)
qed

lemma split_block_total:
  "\<exists>r bl'. aipu_mm_split_block_no_lock True True tid bl i s n ty = Some (r, bl')"
  by (simp add: aipu_mm_split_block_no_lock_def create_block_def Let_def)

lemma splice_cut:
  assumes "i < length bl" "is_free (bl ! i)" "is_cut (bl ! i) s n X" "tiles lo bl hi" "coalesced bl"
  shows "tiles lo (splice i X bl) hi" "coalesced (splice i X bl)"
    and "live (splice i X bl) = insert (unat s, unat n) (live bl)"
    and "free_bytes (splice i X bl) + unat n = free_bytes bl"
proof -
  obtain pre post where bl: "bl = pre @ bl ! i # post" and i: "length pre = i"
    using split_at [OF assms(1)] by blast
  define t where "t = bl ! i"
  have b: "bl = pre @ t # post" using bl t_def by simp
  note cut = assms(3) [folded t_def, unfolded is_cut_def]
  have sp: "splice i X bl = pre @ X @ post" using b i by auto
  have f: "is_free t" using assms(2) t_def by simp
  show "tiles lo (splice i X bl) hi" unfolding sp using assms(4) b cut by (auto simp: tiles_append)
  show "coalesced (splice i X bl)"
    unfolding sp using assms(5) b cut f by (auto simp: coalesced_append coalesced_Cons)
  show "live (splice i X bl) = insert (unat s, unat n) (live bl)"
    unfolding sp using b cut f by (auto simp: live_append live_Cons)
  show "free_bytes (splice i X bl) + unat n = free_bytes bl"
    unfolding sp using b cut f by (auto simp: free_bytes_append free_bytes_Cons)
qed

subsection \<open>The effect of a release\<close>

definition freed :: "aipu_block \<Rightarrow> aipu_block" where
  "freed t = t\<lparr>blk_tid := 0, blk_type := AIPU_MM_DATA_TYPE_NONE, blk_state := AIPU_BLOCK_STATE_FREE\<rparr>"

text \<open>
  With \<open>t\<close> between \<open>pre\<close> and \<open>post\<close>, the release replaces \<open>front @ t # back\<close> by one free
  block, where \<open>front\<close> and \<open>back\<close> are the free neighbours (at most one block each).
\<close>

definition free_tail :: "aipu_block list \<Rightarrow> aipu_block list" where
  "free_tail pre = (if pre \<noteq> [] \<and> is_free (last pre) then [last pre] else [])"

definition free_front :: "aipu_block list \<Rightarrow> aipu_block list" where
  "free_front post = (if post \<noteq> [] \<and> is_free (hd post) then [hd post] else [])"

lemma not_alloc_is_free: "blk_state b \<noteq> AIPU_BLOCK_STATE_ALLOCATED \<longleftrightarrow> is_free b"
  by (metis aipu_blk_state.distinct(1) aipu_blk_state.exhaust is_free_def)

lemma list_neighbours:
  "list_next_block (length pre) (pre @ t # post) = (if post = [] then blk_head else hd post)"
  "list_prev_block (length pre) (pre @ t # post) = (if pre = [] then blk_head else last pre)"
  by (cases post; cases pre rule: rev_cases;
      simp add: list_next_block_def list_prev_block_def nth_append)+

lemma release_block_shape:
  assumes "tiles lo (pre @ t # post) hi"
  shows "\<exists>pre' post' m. pre = pre' @ free_tail pre \<and> post = free_front post @ post' \<and>
    release_block (length pre) (pre @ t # post) = pre' @ m # post' \<and> is_free m \<and>
    blk_pa m = blk_pa (hd (free_tail pre @ [t])) \<and>
    blk_bytes m = sum_list (map blk_bytes (free_tail pre @ [t])) + sum_list (map blk_bytes (free_front post))"
proof -
  have h: "blk_bytes blk_head = 0" by (simp add: blk_head_def)
  have pl: "pre \<noteq> [] \<Longrightarrow> blk_bytes (last pre) \<noteq> 0" and ph: "post \<noteq> [] \<Longrightarrow> blk_bytes (hd post) \<noteq> 0"
    using tiles_mem [OF assms, of "last pre"] tiles_mem [OF assms, of "hd post"] by auto
  let ?p = "pre \<noteq> [] \<and> is_free (last pre)" and ?n = "post \<noteq> [] \<and> is_free (hd post)"
  let ?m1 = "if ?p then (last pre)\<lparr>blk_bytes := blk_bytes (last pre) + blk_bytes t\<rparr> else freed t"
  let ?m = "if ?n then ?m1\<lparr>blk_bytes := blk_bytes ?m1 + blk_bytes (hd post)\<rparr> else ?m1"
  have cp: "(blk_bytes (if pre = [] then blk_head else last pre) \<noteq> 0 \<and>
      is_free (if pre = [] then blk_head else last pre)) = ?p"
    and cn: "(blk_bytes (if post = [] then blk_head else hd post) \<noteq> 0 \<and>
      is_free (if post = [] then blk_head else hd post)) = ?n"
    using h pl ph by auto
  have tk: "take (length pre - 1) (pre @ t # post) = butlast pre" "take (length pre) (pre @ t # post) = pre"
    "drop (length pre + 2) (pre @ t # post) = tl post" "drop (length pre + 1) (pre @ t # post) = post"
    by (simp_all add: butlast_conv_take drop_Suc)
  have r: "release_block (length pre) (pre @ t # post) =
      (if ?p then butlast pre else pre) @ ?m # (if ?n then tl post else post)"
    unfolding release_block_def Let_def list_neighbours not_alloc_is_free is_free_def [symmetric] cp cn tk
    by (simp add: freed_def)
  show ?thesis
  proof (intro exI conjI)
    show "release_block (length pre) (pre @ t # post) =
        (if ?p then butlast pre else pre) @ ?m # (if ?n then tl post else post)" by (fact r)
  qed (auto simp: free_tail_def free_front_def freed_def is_free_def)
qed

lemma release_block_effect:
  assumes i: "i < length bl" and t: "tiles lo bl hi" and hi: "hi \<le> 2 ^ 62"
    and al: "\<not> is_free (bl ! i)"
  shows "tiles lo (release_block i bl) hi"
    and "coalesced bl \<Longrightarrow> coalesced (release_block i bl)"
    and "live (release_block i bl) = live bl - {(unat (blk_pa (bl ! i)), unat (blk_bytes (bl ! i)))}"
    and "free_bytes (release_block i bl) = free_bytes bl + unat (blk_bytes (bl ! i))"
    and "live bl = insert (unat (blk_pa (bl ! i)), unat (blk_bytes (bl ! i))) (live (release_block i bl))"
proof -
  define b where "b = bl ! i"
  obtain pre post where bl: "bl = pre @ b # post" and ip: "length pre = i"
    using split_at [OF i] b_def by blast
  obtain pre' post' m where pre: "pre = pre' @ free_tail pre" and post: "post = free_front post @ post'"
    and rel: "release_block i bl = pre' @ m # post'" and m: "is_free m"
    and pa: "blk_pa m = blk_pa (hd (free_tail pre @ [b]))"
    and by': "blk_bytes m = sum_list (map blk_bytes (free_tail pre @ [b]))
                 + sum_list (map blk_bytes (free_front post))"
    using release_block_shape [OF t [unfolded bl]] ip bl by auto
  define F G where "F = free_tail pre" and "G = free_front post"
  note FG = F_def [symmetric] G_def [symmetric]
  have bl2: "bl = pre' @ (F @ b # G) @ post'" using bl pre post FG by auto
  have F1: "F = [] \<or> (\<exists>f. F = [f] \<and> is_free f)" and G1: "G = [] \<or> (\<exists>g. G = [g] \<and> is_free g)"
    by (auto simp: F_def G_def free_tail_def free_front_def)
  have nb: "\<not> is_free b" using al b_def by simp
  obtain x y where x: "tiles lo pre' x" and mid: "tiles x (F @ b # G) y" and y: "tiles y post' hi"
    using t unfolding bl2 tiles_append by blast
  have yhi: "y \<le> hi" using tiles_le [OF y] .
  have mt: "unat (blk_pa m) = x" and mb: "x + unat (blk_bytes m) = y" and
       sz: "unat (blk_bytes m) = free_bytes (F @ G) + unat (blk_bytes b)"
    using mid F1 G1 pa by' yhi hi unfolding FG
    by (auto simp: unat_add_nowrap free_bytes_append free_bytes_Cons)
  have mpos: "0 < unat (blk_bytes m)"
    using sz tiles_mem [OF mid, of b] by simp
  show "tiles lo (release_block i bl) hi"
    unfolding rel using x mt mb mpos y by (auto simp: tiles_append)
  have F0: "F = [] \<Longrightarrow> pre' = [] \<or> \<not> is_free (last pre')"
    and G0: "G = [] \<Longrightarrow> post' = [] \<or> \<not> is_free (hd post')"
    using pre post unfolding FG by (metis F_def append_Nil2 free_tail_def list.distinct(1),
      metis G_def append_Nil free_front_def list.distinct(1))
  have lastpre: "pre' = [] \<or> \<not> is_free (last pre')" and hdpost: "post' = [] \<or> \<not> is_free (hd post')"
    if c: "coalesced bl"
    using c [unfolded bl2] F1 G1 F0 G0 by (auto simp: coalesced_append coalesced_Cons)
  show "coalesced (release_block i bl)" if c: "coalesced bl"
    unfolding rel using c m lastpre [OF c] hdpost [OF c] unfolding bl2
    by (auto simp: coalesced_append coalesced_Cons)
  have lv: "live bl = insert (unat (blk_pa b), unat (blk_bytes b)) (live (pre' @ m # post'))"
    unfolding bl2 using F1 G1 nb m by (auto simp: live_append live_Cons)
  have "(unat (blk_pa b), unat (blk_bytes b)) \<notin> live (pre' @ m # post')"
    using tiles_mem [OF x] tiles_mem [OF y] tiles_mem [OF mid, of b] m
    by (fastforce simp: live_append live_Cons live_def)
  then show "live (release_block i bl) = live bl - {(unat (blk_pa (bl ! i)), unat (blk_bytes (bl ! i)))}"
    unfolding lv rel b_def by simp
  show "live bl = insert (unat (blk_pa (bl ! i)), unat (blk_bytes (bl ! i))) (live (release_block i bl))"
    using lv rel b_def by simp
  show "free_bytes (release_block i bl) = free_bytes bl + unat (blk_bytes (bl ! i))"
    unfolding rel b_def [symmetric] unfolding bl2 using sz nb m
    by (simp add: free_bytes_append free_bytes_Cons)
qed

subsection \<open>Finding a block by its descriptor\<close>

lemma find_block_by_desc_SomeD:
  assumes "find_block_by_desc bl pa bytes = Some i"
  shows "i < length bl" "blk_pa (bl ! i) = pa" "blk_bytes (bl ! i) = bytes"
  using assms by (auto simp: find_block_by_desc_def split: if_splits dest!: scan_blocks_SomeD)

lemma find_block_by_desc_live:
  assumes t: "tiles lo bl hi" and l: "(unat pa, unat bytes) \<in> live bl"
  obtains i where "find_block_by_desc bl pa bytes = Some i" "i < length bl"
    "blk_pa (bl ! i) = pa" "blk_bytes (bl ! i) = bytes" "\<not> is_free (bl ! i)"
proof -
  from l obtain b where b: "b \<in> set bl" "blk_pa b = pa" "blk_bytes b = bytes" "\<not> is_free b"
    by (auto simp: live_def word_eq_unat)
  then obtain j where j: "j < length bl" "bl ! j = b" by (auto simp: in_set_conv_nth)
  have "find_block_by_desc bl pa bytes \<noteq> None"
    using b j by (auto simp: find_block_by_desc_def scan_blocks_None_iff)
  then obtain i where i: "find_block_by_desc bl pa bytes = Some i" by blast
  note d = find_block_by_desc_SomeD [OF i]
  have "i = j" using tiles_distinct [OF t] d b j by (auto simp: distinct_conv_nth)
  with d b j i that show thesis by blast
qed

lemma find_block_by_desc_not_live:
  "find_block_by_desc bl pa bytes = None \<Longrightarrow> (unat pa, unat bytes) \<notin> live bl"
  by (auto simp: find_block_by_desc_def scan_blocks_None_iff live_def in_set_conv_nth word_eq_unat
           split: if_splits)

subsection \<open>The list is determined by what is allocated\<close>

lemma live_bounds: "tiles lo bl hi \<Longrightarrow> (p, n) \<in> live bl \<Longrightarrow> lo \<le> p \<and> 0 < n \<and> p + n \<le> hi"
  using tiles_mem by (fastforce simp: live_def)

lemma first_free_le:
  assumes "tiles lo (b # bs) hi" "coalesced (b # bs)" "is_free b"
    and "tiles lo (b' # bs') hi" "is_free b'" "live (b # bs) = live (b' # bs')"
  shows "unat (blk_bytes b') \<le> unat (blk_bytes b)"
proof (cases bs)
  case Nil
  then show ?thesis using assms(1,4) tiles_le [of "lo + unat (blk_bytes b')" bs' hi] by auto
next
  case (Cons c cs)
  with assms(1-3) have "(lo + unat (blk_bytes b), unat (blk_bytes c)) \<in> live (b # bs)"
    by (auto simp: live_Cons coalesced_Cons)
  then have "(lo + unat (blk_bytes b), unat (blk_bytes c)) \<in> live bs'"
    using assms(3,5,6) by (simp add: live_Cons)
  moreover have "tiles (lo + unat (blk_bytes b')) bs' hi" using assms(4) by auto
  ultimately show ?thesis using live_bounds by fastforce
qed

lemma live_first:
  assumes "tiles lo (b # bs) hi" "(lo, n) \<in> live (b # bs)"
  shows "\<not> is_free b \<and> n = unat (blk_bytes b)"
proof -
  have t: "tiles (lo + unat (blk_bytes b)) bs hi" and "0 < unat (blk_bytes b)" using assms(1) by auto
  then have "(lo, n) \<notin> live bs" using live_bounds [OF t, of lo n] by auto
  then show ?thesis using assms by (auto simp: live_Cons split: if_splits)
qed

lemma live_tl:
  assumes "tiles lo (b # bs) hi"
  shows "live bs = live (b # bs) - {(lo, unat (blk_bytes b))}"
proof -
  have "tiles (lo + unat (blk_bytes b)) bs hi" "0 < unat (blk_bytes b)" "unat (blk_pa b) = lo"
    using assms by auto
  then have "(lo, unat (blk_bytes b)) \<notin> live bs" "unat (blk_pa b) = lo"
    using live_bounds by fastforce+
  then show ?thesis by (simp add: live_Cons)
qed

lemma skel_determined:
  "tiles lo bl hi \<Longrightarrow> coalesced bl \<Longrightarrow> tiles lo bl' hi \<Longrightarrow> coalesced bl' \<Longrightarrow>
   live bl = live bl' \<Longrightarrow> map skel bl = map skel bl'"
proof (induction bl arbitrary: lo bl')
  case Nil
  then show ?case by (cases bl') (use tiles_le in fastforce)+
next
  case (Cons b bs)
  from Cons.prems(1) have "lo < hi" using tiles_le by fastforce
  with Cons.prems(3) obtain b' bs' where bl': "bl' = b' # bs'" by (cases bl') auto
  note p = Cons.prems(1-4) [unfolded bl'] and lv = Cons.prems(5) [unfolded bl']
  have pa: "unat (blk_pa b) = lo" "unat (blk_pa b') = lo"
    and tb: "tiles (lo + unat (blk_bytes b)) bs hi" and tb': "tiles (lo + unat (blk_bytes b')) bs' hi"
    and c: "coalesced bs" "coalesced bs'"
    using p by (auto simp: coalesced_Cons)
  have fr: "is_free b = is_free b'"
  proof -
    have "\<not> is_free b \<Longrightarrow> (lo, unat (blk_bytes b)) \<in> live (b # bs)"
      and "\<not> is_free b' \<Longrightarrow> (lo, unat (blk_bytes b')) \<in> live (b' # bs')"
      using pa by (simp_all add: live_Cons)
    then have "\<not> is_free b \<Longrightarrow> (lo, unat (blk_bytes b)) \<in> live (b' # bs')"
      and "\<not> is_free b' \<Longrightarrow> (lo, unat (blk_bytes b')) \<in> live (b # bs)"
      using lv by simp_all
    then show ?thesis using live_first [OF p(1)] live_first [OF p(3)] by blast
  qed
  have n: "unat (blk_bytes b) = unat (blk_bytes b')"
  proof (cases "is_free b")
    case True
    then show ?thesis
      using first_free_le [OF p(1,2) True p(3) _ lv] first_free_le [OF p(3,4) _ p(1) True lv [symmetric]] fr
      by simp
  next
    case False
    then have "(lo, unat (blk_bytes b)) \<in> live (b # bs)" using pa by (simp add: live_Cons)
    then have "(lo, unat (blk_bytes b)) \<in> live (b' # bs')" using lv by simp
    then show ?thesis using live_first [OF p(3)] by blast
  qed
  have "live bs = live (b # bs) - {(lo, unat (blk_bytes b))}"
    and "live bs' = live (b' # bs') - {(lo, unat (blk_bytes b'))}"
    using live_tl [OF p(1)] live_tl [OF p(3)] .
  then have "live bs = live bs'" by (simp only: lv n)
  then have "map skel bs = map skel bs'"
    using Cons.IH [OF tb c(1) _ c(2)] tb' unfolding n by blast
  moreover have "skel b = skel b'"
  proof -
    have "blk_pa b = blk_pa b'" "blk_bytes b = blk_bytes b'"
      using pa n by (simp_all only: word_eq_unat)
    moreover have "blk_state b = blk_state b'"
      using fr by (cases "blk_state b"; cases "blk_state b'") (simp_all add: is_free_def)
    ultimately show ?thesis by (simp add: skel_def)
  qed
  ultimately show ?case using bl' by simp
qed

end
