(* ===== verification/Allocator.thy ===== *)
theory Allocator
  imports Prelude
begin

text \<open>
  The contract of a range allocator: what the session layer relies on when it asks the
  memory manager for physical ranges. A range is a pair of address and size. The
  interface is a locale; its lemmas hold for every sequence of admissible requests
  and releases of owned ranges. The memory manager is its interpretation (theory
  \<open>Mm\<close>).
\<close>

definition apart :: "nat \<times> nat \<Rightarrow> nat \<times> nat \<Rightarrow> bool" where
  "apart x y \<longleftrightarrow> fst x + snd x \<le> fst y \<or> fst y + snd y \<le> fst x"

definition owned_bytes :: "(nat \<times> nat) set \<Rightarrow> nat" where
  "owned_bytes s = (\<Sum>x \<in> s. snd x)"

text \<open>
  The states an allocator reaches from \<open>r\<close>: \<open>al\<close> grants a range or refuses, \<open>fr\<close>
  takes an owned range back.
\<close>

inductive alloc_reach ::
  "('q \<Rightarrow> 'r \<Rightarrow> ('r \<times> nat \<times> nat) option) \<Rightarrow> (nat \<times> nat \<Rightarrow> 'r \<Rightarrow> 'r) \<Rightarrow> ('r \<Rightarrow> (nat \<times> nat) set) \<Rightarrow>
   ('q \<Rightarrow> 'r \<Rightarrow> bool) \<Rightarrow> 'r \<Rightarrow> 'r \<Rightarrow> bool"
  for al fr own adm r where
    reach_refl: "alloc_reach al fr own adm r r"
  | reach_alloc: "alloc_reach al fr own adm r s \<Longrightarrow> adm q s \<Longrightarrow> al q s = Some (s', d) \<Longrightarrow>
      alloc_reach al fr own adm r s'"
  | reach_free: "alloc_reach al fr own adm r s \<Longrightarrow> d \<in> own s \<Longrightarrow> alloc_reach al fr own adm r (fr d s)"

locale range_allocator =
  fixes inv :: "'r \<Rightarrow> bool"
    and own :: "'r \<Rightarrow> (nat \<times> nat) set"
    and avail :: "'r \<Rightarrow> nat"
    and al :: "'q \<Rightarrow> 'r \<Rightarrow> ('r \<times> nat \<times> nat) option"
    and fr :: "nat \<times> nat \<Rightarrow> 'r \<Rightarrow> 'r"
    and adm :: "'q \<Rightarrow> 'r \<Rightarrow> bool"
  assumes own_finite: "inv r \<Longrightarrow> finite (own r)"
    and alloc_inv: "inv r \<Longrightarrow> adm q r \<Longrightarrow> al q r = Some (r', d) \<Longrightarrow> inv r'"
    and alloc_own: "inv r \<Longrightarrow> adm q r \<Longrightarrow> al q r = Some (r', d) \<Longrightarrow> own r' = insert d (own r)"
    and alloc_apart: "inv r \<Longrightarrow> adm q r \<Longrightarrow> al q r = Some (r', d) \<Longrightarrow>
      0 < snd d \<and> (\<forall>x \<in> own r. apart x d)"
    and alloc_avail: "inv r \<Longrightarrow> adm q r \<Longrightarrow> al q r = Some (r', d) \<Longrightarrow> avail r' + snd d = avail r"
    and free_inv: "inv r \<Longrightarrow> d \<in> own r \<Longrightarrow> inv (fr d r)"
    and free_own: "inv r \<Longrightarrow> d \<in> own r \<Longrightarrow> own (fr d r) = own r - {d}"
    and free_avail: "inv r \<Longrightarrow> d \<in> own r \<Longrightarrow> avail (fr d r) = avail r + snd d"
begin

abbreviation reach :: "'r \<Rightarrow> 'r \<Rightarrow> bool" where
  "reach \<equiv> alloc_reach al fr own adm"

lemma alloc_new: "inv r \<Longrightarrow> adm q r \<Longrightarrow> al q r = Some (r', d) \<Longrightarrow> d \<notin> own r"
  using alloc_apart [of r q r' d] by (auto simp: apart_def)

lemma reach_inv: "reach r s \<Longrightarrow> inv r \<Longrightarrow> inv s"
  by (induction rule: alloc_reach.induct) (auto intro: alloc_inv free_inv)

text \<open>Ranges handed out and not yet returned never overlap.\<close>

lemma reach_apart:
  "reach r s \<Longrightarrow> inv r \<Longrightarrow> pairwise apart (own r) \<Longrightarrow> pairwise apart (own s)"
proof (induction rule: alloc_reach.induct)
  case reach_refl
  then show ?case by simp
next
  case (reach_alloc s q s' d)
  then have "inv s" using reach_inv by blast
  with reach_alloc show ?case
    using alloc_own [of s q s' d] alloc_apart [of s q s' d]
    by (auto simp: pairwise_insert apart_def)
next
  case (reach_free s d)
  then have "inv s" using reach_inv by blast
  with reach_free show ?case by (auto simp: free_own pairwise_def)
qed

text \<open>No byte is lost or invented: what is free and what is owned add up to the same sum.\<close>

lemma reach_conserves:
  "reach r s \<Longrightarrow> inv r \<Longrightarrow> avail s + owned_bytes (own s) = avail r + owned_bytes (own r)"
proof (induction rule: alloc_reach.induct)
  case reach_refl
  then show ?case by simp
next
  case (reach_alloc s q s' d)
  then have i: "inv s" using reach_inv by blast
  note c = alloc_own [OF i reach_alloc.hyps(2,3)] alloc_avail [OF i reach_alloc.hyps(2,3)]
    alloc_new [OF i reach_alloc.hyps(2,3)] own_finite [OF i]
  show ?case using reach_alloc.IH reach_alloc.prems c by (simp add: owned_bytes_def)
next
  case (reach_free s d)
  then have i: "inv s" using reach_inv by blast
  have "owned_bytes (own s) = snd d + owned_bytes (own s - {d})"
    using own_finite [OF i] reach_free.hyps(2) by (simp add: owned_bytes_def sum.remove)
  then show ?case using reach_free i by (simp add: free_own free_avail)
qed

text \<open>A release right after an allocation restores what is owned and what is free.\<close>

lemma alloc_free_id:
  assumes "inv r" "adm q r" "al q r = Some (r', d)"
  shows "own (fr d r') = own r \<and> avail (fr d r') = avail r"
proof -
  have "inv r'" "own r' = insert d (own r)" "d \<notin> own r" "avail r' + snd d = avail r"
    using assms alloc_inv alloc_own alloc_new alloc_avail by blast+
  then show ?thesis using free_own [of r' d] free_avail [of r' d] by auto
qed

end

end
