(* ===== verification/Mm.thy ===== *)
theory Mm
  imports MmBlock Allocator
begin

text \<open>
  The memory manager (\<open>aipu_mm.c\<close>): regions of physical memory with their block
  lists, allocation in a region under either policy, the scan over the regions,
  release, and the set-up and tear-down of regions. Region lists are kept in list
  order (new regions at the front); a list head that could not be allocated is
  \<open>None\<close>. A region pointer is an index into its list.
\<close>

subsection \<open>State\<close>

text \<open>The \<open>alloc_in_region\<close> function pointer takes one of two values.\<close>

datatype alloc_in_region_t = Strict_no_lock | Compact_no_lock

record aipu_mem_region =
  rg_id :: int
  rg_blks :: "aipu_block list"
  rg_pa :: u64
  rg_va :: u64
  rg_tot_bytes :: u64
  rg_tot_free_bytes :: u64
  rg_flag :: aipu_alloc_flag
  rg_type :: aipu_mem_type
  rg_alloc_in_region :: alloc_in_region_t

record aipu_memory_manager =
  sram_head :: "aipu_mem_region list option"
  sram_cnt :: int
  ddr_head :: "aipu_mem_region list option"
  ddr_cnt :: int
  sram_global :: u32
  mm_version :: int

subsection \<open>Sizes and address space identifiers\<close>

definition get_asid :: "u32 \<Rightarrow> u32" where
  "get_asid type =
     (if type = AIPU_MM_DATA_TYPE_TEXT then AIPU_CONFIG_TEXT_ASID
      else if type = AIPU_MM_DATA_TYPE_RO_STACK then AIPU_CONFIG_RO_STACK_ASID
      else if type = AIPU_MM_DATA_TYPE_STATIC then AIPU_CONFIG_STATIC_ASID
      else if type = AIPU_MM_DATA_TYPE_REUSE then AIPU_CONFIG_REUSE_ASID
      else if type = AIPU_MM_DATA_TYPE_NONE then AIPU_ASE_ID_ALL
      else AIPU_ASE_ID_NONE)"

definition get_alloc_size :: "aipu_mem_region \<Rightarrow> u64 \<Rightarrow> u64" where
  "get_alloc_size region requested =
     (if requested = 0 then 0
      else if rg_flag region = AIPU_ALLOC_FLAG_STRICT then max 4096 (roundup_pow_of_two requested)
      else if rg_flag region = AIPU_ALLOC_FLAG_COMPACT then ALIGN requested PAGE_SIZE
      else 0)"

definition get_roundup_size :: "aipu_alloc_flag \<Rightarrow> u64 \<Rightarrow> u64" where
  "get_roundup_size flag requested =
     (if requested = 0 then 0
      else if flag = AIPU_ALLOC_FLAG_STRICT then max 4096 (roundup_pow_of_two requested)
      else if flag = AIPU_ALLOC_FLAG_COMPACT then ALIGN requested PAGE_SIZE
      else 0)"

text \<open>\<open>buf_req->align_in_page * 4 * 1024\<close> is computed in 32 bits before it is widened.\<close>

definition req_alignment :: "buf_request \<Rightarrow> u64" where
  "req_alignment buf_req = ucast (br_align_in_page buf_req * 4 * 1024)"

subsection \<open>Allocation in one region\<close>

definition aipu_mm_alloc_in_region_strict_no_lock ::
  "kenv \<Rightarrow> aipu_mem_region \<Rightarrow> buf_request \<Rightarrow> aipu_buffer \<Rightarrow>
   (int \<times> aipu_mem_region \<times> buf_request \<times> aipu_buffer) option" where
  "aipu_mm_alloc_in_region_strict_no_lock e region buf_req buf =
     (let roundup_bytes = get_alloc_size region (br_bytes buf_req);
          alignment = req_alignment buf_req
      in case aipu_mm_find_block_candidate_no_lock (rg_blks region) roundup_bytes alignment
                (br_data_type buf_req) of
           Inl ret \<Rightarrow> Some (ret, region, buf_req, buf)
         | Inr (i, alloc_pa) \<Rightarrow> do {
             (ret, bl) \<leftarrow> aipu_mm_split_block_no_lock (kz_blk e (rg_id region)) (kz_back e (rg_id region))
                           (cur_tid e) (rg_blks region) i alloc_pa roundup_bytes (br_data_type buf_req);
             if ret \<noteq> 0 then Some (- ENOMEM, region\<lparr>rg_blks := bl\<rparr>, buf_req, buf)
             else Some (0, region\<lparr>rg_blks := bl\<rparr>, buf_req\<lparr>br_errcode := AIPU_ERRCODE_NO_ERROR\<rparr>,
                        buf\<lparr>ab_pa := alloc_pa, ab_va := rg_va region + alloc_pa - rg_pa region,
                            ab_bytes := roundup_bytes\<rparr>)
           })"

definition aipu_mm_alloc_in_region_compact_no_lock ::
  "kenv \<Rightarrow> aipu_mem_region \<Rightarrow> buf_request \<Rightarrow> aipu_buffer \<Rightarrow>
   (int \<times> aipu_mem_region \<times> buf_request \<times> aipu_buffer) option" where
  "aipu_mm_alloc_in_region_compact_no_lock e region buf_req buf =
     (let compact_bytes = get_alloc_size region (br_bytes buf_req);
          alignment = req_alignment buf_req
      in case aipu_mm_find_block_candidate_no_lock (rg_blks region) compact_bytes alignment
                (br_data_type buf_req) of
           Inl ret \<Rightarrow> Some (ret, region, buf_req, buf)
         | Inr (i, alloc_pa) \<Rightarrow> do {
             (ret, bl) \<leftarrow> aipu_mm_split_block_no_lock (kz_blk e (rg_id region)) (kz_back e (rg_id region))
                           (cur_tid e) (rg_blks region) i alloc_pa compact_bytes (br_data_type buf_req);
             if ret \<noteq> 0 then Some (- ENOMEM, region\<lparr>rg_blks := bl\<rparr>, buf_req, buf)
             else Some (0, region\<lparr>rg_blks := bl\<rparr>, buf_req\<lparr>br_errcode := AIPU_ERRCODE_NO_ERROR\<rparr>,
                        buf\<lparr>ab_pa := alloc_pa, ab_va := rg_va region + alloc_pa - rg_pa region,
                            ab_bytes := compact_bytes\<rparr>)
           })"

definition alloc_in_region ::
  "kenv \<Rightarrow> aipu_mem_region \<Rightarrow> buf_request \<Rightarrow> aipu_buffer \<Rightarrow>
   (int \<times> aipu_mem_region \<times> buf_request \<times> aipu_buffer) option" where
  "alloc_in_region e region =
     (case rg_alloc_in_region region of
        Strict_no_lock \<Rightarrow> aipu_mm_alloc_in_region_strict_no_lock e region
      | Compact_no_lock \<Rightarrow> aipu_mm_alloc_in_region_compact_no_lock e region)"

definition aipu_mm_try_alloc_in_region ::
  "kenv \<Rightarrow> aipu_mem_region \<Rightarrow> buf_request \<Rightarrow> aipu_buffer \<Rightarrow>
   (int \<times> aipu_mem_region \<times> buf_request \<times> aipu_buffer) option" where
  "aipu_mm_try_alloc_in_region e region buf_req buf = do {
     (ret, region', buf_req', buf') \<leftarrow> alloc_in_region e region buf_req buf;
     if ret = 0
     then Some (ret, region'\<lparr>rg_tot_free_bytes := rg_tot_free_bytes region' - ab_bytes buf'\<rparr>, buf_req',
                buf'\<lparr>ab_region_id := word_of_int (rg_id region'), ab_type := mem_type_num (rg_type region')\<rparr>)
     else Some (ret, region', buf_req', buf')
   }"

subsection \<open>The scan over the regions\<close>

text \<open>
  One \<open>list_for_each_entry\<close> loop with a \<open>break\<close> on success; \<open>eligible\<close> is the test of the
  loop body and \<open>ret\<close> the value the loop leaves when no region is tried.
\<close>

fun alloc_regions_loop ::
  "(aipu_mem_region \<Rightarrow> bool) \<Rightarrow> kenv \<Rightarrow> int \<Rightarrow> aipu_mem_region list \<Rightarrow> buf_request \<Rightarrow> aipu_buffer \<Rightarrow>
   (int \<times> aipu_mem_region list \<times> buf_request \<times> aipu_buffer) option" where
  "alloc_regions_loop eligible e ret [] buf_req buf = Some (ret, [], buf_req, buf)"
| "alloc_regions_loop eligible e ret (region # rs) buf_req buf =
     (if eligible region then do {
        (ret', region', buf_req', buf') \<leftarrow> aipu_mm_try_alloc_in_region e region buf_req buf;
        if ret' = 0 then Some (ret', region' # rs, buf_req', buf')
        else do {
          (ret'', rs', buf_req'', buf'') \<leftarrow> alloc_regions_loop eligible e ret' rs buf_req' buf';
          Some (ret'', region' # rs', buf_req'', buf'')
        }
      } else do {
        (ret', rs', buf_req', buf') \<leftarrow> alloc_regions_loop eligible e ret rs buf_req buf;
        Some (ret', region # rs', buf_req', buf')
      })"

definition aipu_mm_scan_regions_alloc ::
  "kenv \<Rightarrow> int \<Rightarrow> aipu_mem_region list option \<Rightarrow> buf_request \<Rightarrow> aipu_buffer \<Rightarrow>
   (int \<times> aipu_mem_region list option \<times> buf_request \<times> aipu_buffer) option" where
  "aipu_mm_scan_regions_alloc e version head buf_req buf =
     (case head of
        None \<Rightarrow> Some (- EINVAL, head, buf_req, buf)
      | Some regions \<Rightarrow> do {
          (ret, regions', buf_req', buf') \<leftarrow>
            (if version = AIPU_VERSION_ZHOUYI_V2 \<and> br_data_type buf_req = AIPU_MM_DATA_TYPE_RO_STACK
             then alloc_regions_loop (\<lambda>region. br_region_id buf_req = word_of_int (rg_id region))
                    e (- ENOMEM) regions buf_req buf
             else alloc_regions_loop
                    (\<lambda>region. get_alloc_size region (br_bytes buf_req) \<le> rg_tot_free_bytes region)
                    e (- ENOMEM) regions buf_req buf);
          Some (ret, Some regions', buf_req', buf')
        })"

definition aipu_mm_alloc ::
  "kenv \<Rightarrow> aipu_memory_manager \<Rightarrow> buf_request \<Rightarrow> aipu_buffer \<Rightarrow>
   (int \<times> aipu_memory_manager \<times> buf_request \<times> aipu_buffer) option" where
  "aipu_mm_alloc e mm buf_req buf0 =
     (if br_bytes buf_req = 0 \<or> br_align_in_page buf_req = 0 then Some (- EINVAL, mm, buf_req, buf0)
      else
        let buf = zero_buffer; asid = get_asid (br_data_type buf_req)
        in if sram_cnt mm = 0 \<and> ddr_cnt mm = 0 then Some (- ENOMEM, mm, buf_req, buf)
           else do {
             (ret1, sram', req1, buf1) \<leftarrow>
               (if AIPU_CONFIG_ENABLE_SRAM \<and> sram_global mm AND asid \<noteq> 0
                then aipu_mm_scan_regions_alloc e (mm_version mm) (sram_head mm) buf_req buf
                else Some (1, sram_head mm, buf_req, buf));
             let mm1 = mm\<lparr>sram_head := sram'\<rparr>;
             if AIPU_CONFIG_ENABLE_SRAM \<and> sram_global mm AND asid \<noteq> 0 \<and>
                (ret1 \<noteq> 0 \<and> \<not> AIPU_CONFIG_ENABLE_FALL_BACK_TO_DDR \<or> ret1 = 0)
             then Some (ret1, mm1, req1, buf1)
             else do {
               (ret, ddr', req2, buf2) \<leftarrow>
                 aipu_mm_scan_regions_alloc e (mm_version mm) (ddr_head mm) req1 buf1;
               let mm2 = mm1\<lparr>ddr_head := ddr'\<rparr>;
               if ret \<noteq> 0 then Some (ret, mm2, req2\<lparr>br_errcode := AIPU_ERRCODE_NO_MEMORY\<rparr>, buf2)
               else Some (ret, mm2, req2, buf2)
             }
           })"

subsection \<open>Release\<close>

definition aipu_mm_free_in_region :: "aipu_mem_region \<Rightarrow> buf_desc \<Rightarrow> int \<times> aipu_mem_region" where
  "aipu_mm_free_in_region region buf =
     (case find_block_by_desc (rg_blks region) (bd_pa buf) (bd_bytes buf) of
        None \<Rightarrow> (- EINVAL, region)
      | Some i \<Rightarrow>
          (0, region\<lparr>rg_blks := release_block i (rg_blks region),
                     rg_tot_free_bytes := rg_tot_free_bytes region + bd_bytes buf\<rparr>))"

text \<open>Index of the first region that contains \<open>bytes\<close> bytes from \<open>pa\<close>.\<close>

fun find_region_index :: "aipu_mem_region list \<Rightarrow> u64 \<Rightarrow> u64 \<Rightarrow> nat option" where
  "find_region_index [] pa bytes = None"
| "find_region_index (region # rs) pa bytes =
     (if rg_pa region \<le> pa \<and> pa + bytes \<le> rg_pa region + rg_tot_bytes region then Some 0
      else map_option Suc (find_region_index rs pa bytes))"

definition aipu_mm_find_region :: "aipu_mem_region list option \<Rightarrow> u64 \<Rightarrow> u64 \<Rightarrow> nat option" where
  "aipu_mm_find_region head pa bytes =
     (case head of None \<Rightarrow> None
      | Some regions \<Rightarrow> if bytes = 0 then None else find_region_index regions pa bytes)"

definition free_at :: "aipu_mem_region list option \<Rightarrow> nat \<Rightarrow> buf_desc \<Rightarrow> int \<times> aipu_mem_region list option" where
  "free_at head k buf =
     (case head of None \<Rightarrow> (- EINVAL, None)
      | Some regions \<Rightarrow>
          let (ret, region') = aipu_mm_free_in_region (regions ! k) buf
          in (ret, Some (regions[k := region'])))"

definition aipu_mm_free :: "aipu_memory_manager \<Rightarrow> buf_desc \<Rightarrow> int \<times> aipu_memory_manager" where
  "aipu_mm_free mm buf =
     (case aipu_mm_find_region (sram_head mm) (bd_pa buf) (bd_bytes buf) of
        Some k \<Rightarrow>
          let (ret, head') = free_at (sram_head mm) k buf in (ret, mm\<lparr>sram_head := head'\<rparr>)
      | None \<Rightarrow>
          (case aipu_mm_find_region (ddr_head mm) (bd_pa buf) (bd_bytes buf) of
             None \<Rightarrow> (- EINVAL, mm)
           | Some k \<Rightarrow>
               let (ret, head') = free_at (ddr_head mm) k buf in (ret, mm\<lparr>ddr_head := head'\<rparr>)))"

subsection \<open>Setting up and tearing down regions\<close>

text \<open>The mapping services answer with a virtual address, 0 for NULL.\<close>

definition aipu_remap_region_nocache :: "kenv \<Rightarrow> u64 \<Rightarrow> u64 \<Rightarrow> u64" where
  "aipu_remap_region_nocache e base bytes = (if bytes = 0 then 0 else remap_va e)"

definition aipu_alloc_cma_region_nocache :: "kenv \<Rightarrow> u64 \<Rightarrow> u64 \<Rightarrow> u64" where
  "aipu_alloc_cma_region_nocache e base bytes =
     (if bytes = 0 then 0
      else if rmem_ret e \<noteq> 0 then 0
      else if dma_mask_ret e \<noteq> 0 then 0
      else if dma_cmask_ret e \<noteq> 0 then 0
      else dma_va e)"

text \<open>
  The two block list heads are created without a check, and the first \<open>list_add\<close>
  dereferences both: a failed \<open>kzalloc\<close> is a memory fault.
\<close>

definition aipu_init_region ::
  "kenv \<Rightarrow> int \<Rightarrow> u64 \<Rightarrow> u64 \<Rightarrow> aipu_mem_type \<Rightarrow> u64 \<Rightarrow> (int + aipu_mem_region) option" where
  "aipu_init_region e rid base bytes type va =
     (if bytes = 0 then Some (Inl (- EINVAL))
      else do {
        _ \<leftarrow> create_block_list_head (kz_blk e rid) 0 0;
        new_blk \<leftarrow> create_block_list_head (kz_back e rid) base bytes;
        Some (Inr \<lparr>rg_id = rid, rg_blks = [new_blk], rg_pa = base, rg_va = va, rg_tot_bytes = bytes,
                   rg_tot_free_bytes = bytes, rg_flag = AIPU_CONFIG_MM_ALLOC_FLAG, rg_type = type,
                   rg_alloc_in_region =
                     (if AIPU_CONFIG_MM_ALLOC_FLAG = AIPU_ALLOC_FLAG_STRICT
                      then Strict_no_lock else Compact_no_lock)\<rparr>)
      })"

text \<open>\<open>list_add\<close> puts the new region at the front of its list.\<close>

definition aipu_update_mm_regions ::
  "aipu_mem_region list option \<Rightarrow> int \<Rightarrow> aipu_mem_region \<Rightarrow> int \<times> aipu_mem_region list option \<times> int" where
  "aipu_update_mm_regions head region_cnt new_region =
     (case head of
        None \<Rightarrow> (- EINVAL, head, region_cnt)
      | Some regions \<Rightarrow> (0, Some (new_region # regions), region_cnt + 1))"

definition create_region_list_head :: "kenv \<Rightarrow> aipu_mem_region list option" where
  "create_region_list_head e = (if kz_misc e then Some [] else None)"

definition aipu_init_mm :: "kenv \<Rightarrow> int \<Rightarrow> aipu_memory_manager" where
  "aipu_init_mm e version =
     \<lparr>sram_head = create_region_list_head e, sram_cnt = 0, ddr_head = create_region_list_head e,
      ddr_cnt = 0, sram_global = AIPU_CONFIG_SRAM_DATA_ASID, mm_version = version\<rparr>"

definition aipu_mm_add_region ::
  "kenv \<Rightarrow> aipu_memory_manager \<Rightarrow> u64 \<Rightarrow> u64 \<Rightarrow> aipu_mem_type \<Rightarrow> (int \<times> aipu_memory_manager) option" where
  "aipu_mm_add_region e mm base bytes type =
     (if bytes = 0 then Some (- EINVAL, mm)
      else if \<not> kz_misc e then Some (- ENOMEM, mm)
      else
        let va = (case type of
                    AIPU_MEM_TYPE_SRAM \<Rightarrow> aipu_remap_region_nocache e base bytes
                  | AIPU_MEM_TYPE_CMA \<Rightarrow> aipu_alloc_cma_region_nocache e base bytes
                  | AIPU_MEM_TYPE_RESERVED \<Rightarrow> aipu_remap_region_nocache e base bytes)
        in if va = 0 then Some (- ENOMEM, mm)
           else do {
             r \<leftarrow> aipu_init_region e (sram_cnt mm + ddr_cnt mm) base bytes type va;
             case r of
               Inl ret \<Rightarrow> Some (ret, mm)
             | Inr region \<Rightarrow>
                 if type = AIPU_MEM_TYPE_SRAM
                 then let (ret, head, cnt) = aipu_update_mm_regions (sram_head mm) (sram_cnt mm) region
                      in Some (ret, mm\<lparr>sram_head := head, sram_cnt := cnt\<rparr>)
                 else let (ret, head, cnt) = aipu_update_mm_regions (ddr_head mm) (ddr_cnt mm) region
                      in Some (ret, mm\<lparr>ddr_head := head, ddr_cnt := cnt\<rparr>)
           })"

text \<open>Tear-down returns what is handed back to the kernel.\<close>

datatype unmap_event =
    Memunmap u64
  | Dma_free_coherent u64 u64 u64
  | Reserved_mem_release

definition aipu_unmap_region_nocache :: "u64 \<Rightarrow> unmap_event list" where
  "aipu_unmap_region_nocache va = (if va \<noteq> 0 then [Memunmap va] else [])"

definition aipu_free_cma_region_nocache :: "aipu_mem_region \<Rightarrow> unmap_event list" where
  "aipu_free_cma_region_nocache region =
     [Dma_free_coherent (rg_tot_bytes region) (rg_va region) (rg_pa region), Reserved_mem_release]"

definition aipu_mm_deinit_region :: "aipu_mem_region \<Rightarrow> unmap_event list \<times> aipu_mem_region" where
  "aipu_mm_deinit_region region =
     ((case rg_type region of
         AIPU_MEM_TYPE_SRAM \<Rightarrow> aipu_unmap_region_nocache (rg_va region)
       | AIPU_MEM_TYPE_CMA \<Rightarrow> aipu_free_cma_region_nocache region
       | AIPU_MEM_TYPE_RESERVED \<Rightarrow> aipu_unmap_region_nocache (rg_va region)),
      region\<lparr>rg_blks := [], rg_pa := 0, rg_va := 0, rg_tot_bytes := 0, rg_tot_free_bytes := 0\<rparr>)"

definition deinit_regions :: "aipu_mem_region list option \<Rightarrow> unmap_event list" where
  "deinit_regions head =
     (case head of None \<Rightarrow> [] | Some regions \<Rightarrow> concat (map (fst \<circ> aipu_mm_deinit_region) regions))"

definition aipu_deinit_mm :: "aipu_memory_manager \<Rightarrow> unmap_event list \<times> aipu_memory_manager" where
  "aipu_deinit_mm mm =
     (deinit_regions (sram_head mm) @ deinit_regions (ddr_head mm),
      \<lparr>sram_head = None, sram_cnt = 0, ddr_head = None, ddr_cnt = 0, sram_global = 0, mm_version = 0\<rparr>)"

subsection \<open>One region\<close>

text \<open>
  The block list tiles the region, is coalesced and agrees with the free counter. The
  region lies below \<open>2 ^ 62\<close> and its size does not exceed its base address; the
  device trees of the repository place it at \<open>0xA0000000\<close> with \<open>0x20000000\<close> bytes, at
  \<open>0x40000000\<close> with \<open>0x20000000\<close> and at \<open>0x1000000000\<close> with \<open>0x10000000\<close>.
\<close>

definition region_wf :: "aipu_mem_region \<Rightarrow> bool" where
  "region_wf r \<longleftrightarrow>
     tiles (unat (rg_pa r)) (rg_blks r) (unat (rg_pa r) + unat (rg_tot_bytes r)) \<and>
     coalesced (rg_blks r) \<and> unat (rg_tot_free_bytes r) = free_bytes (rg_blks r) \<and>
     unat (rg_pa r) + unat (rg_tot_bytes r) \<le> 2 ^ 62 \<and> unat (rg_tot_bytes r) \<le> unat (rg_pa r)"

abbreviation region_live :: "aipu_mem_region \<Rightarrow> (nat \<times> nat) set" where
  "region_live r \<equiv> live (rg_blks r)"

lemma strict_eq_compact:
  "aipu_mm_alloc_in_region_strict_no_lock = aipu_mm_alloc_in_region_compact_no_lock"
  by (intro ext) (simp only: aipu_mm_alloc_in_region_strict_no_lock_def
        aipu_mm_alloc_in_region_compact_no_lock_def)

lemma alloc_in_region_eq: "alloc_in_region = aipu_mm_alloc_in_region_compact_no_lock"
  by (intro ext) (simp add: alloc_in_region_def strict_eq_compact split: alloc_in_region_t.split)

lemma live_apart:
  assumes "tiles lo bl hi" "x \<in> live bl" "y \<in> live bl" "x \<noteq> y"
  shows "apart x y"
proof -
  from assms(2) obtain i where i: "i < length bl" "x = (unat (blk_pa (bl ! i)), unat (blk_bytes (bl ! i)))"
    by (auto simp: live_def in_set_conv_nth)
  from assms(3) obtain j where j: "j < length bl" "y = (unat (blk_pa (bl ! j)), unat (blk_bytes (bl ! j)))"
    by (auto simp: live_def in_set_conv_nth)
  from i j assms(4) consider "i < j" | "j < i" by (cases i j rule: linorder_cases) auto
  then show ?thesis
    using tiles_disjoint [OF assms(1), of i j] tiles_disjoint [OF assms(1), of j i] i j
    by cases (auto simp: apart_def)
qed

lemma live_apart_free:
  assumes "tiles lo bl hi" "i < length bl" "is_free (bl ! i)" "x \<in> live bl"
  shows "apart x (unat (blk_pa (bl ! i)), unat (blk_bytes (bl ! i)))"
proof -
  from assms(4) obtain j where j: "j < length bl" "\<not> is_free (bl ! j)"
      "x = (unat (blk_pa (bl ! j)), unat (blk_bytes (bl ! j)))"
    by (auto simp: live_def in_set_conv_nth)
  with assms(3) consider "i < j" | "j < i" by (cases i j rule: linorder_cases) auto
  then show ?thesis
    using tiles_disjoint [OF assms(1), of i j] tiles_disjoint [OF assms(1), of j i] assms(2) j
    by cases (auto simp: apart_def)
qed

lemma free_bytes_le: "tiles lo bl hi \<Longrightarrow> free_bytes bl \<le> hi - lo"
proof (induction bl arbitrary: lo)
  case (Cons b bl)
  then have "free_bytes bl \<le> hi - (lo + unat (blk_bytes b))" "lo + unat (blk_bytes b) \<le> hi"
    using tiles_le by auto
  then show ?case by (auto simp: free_bytes_Cons)
qed simp

lemma region_free_le: "region_wf r \<Longrightarrow> unat (rg_tot_free_bytes r) \<le> unat (rg_tot_bytes r)"
  using free_bytes_le by (fastforce simp: region_wf_def)

lemma unat_ucast_u32: "unat (ucast (x :: u32) :: u64) = unat x"
  by (simp add: unsigned_ucast_eq take_bit_nat_eq_self order.strict_trans [OF unsigned_less])

lemma req_alignment_lt: "unat (req_alignment q) < 2 ^ 32"
proof -
  have "unat (req_alignment q) = unat (br_align_in_page q * 4 * 1024)"
    unfolding req_alignment_def by (rule unat_ucast_u32)
  also have "\<dots> < 2 ^ LENGTH(32)" by (rule unsigned_less)
  finally show ?thesis by simp
qed

text \<open>A successful search points into a free block that holds the whole range.\<close>

lemma find_candidate_Inr:
  assumes wf: "tiles lo bl hi" "hi \<le> 2 ^ 62" and n: "unat n \<le> lo" and a: "unat a < 2 ^ 32"
    and f: "aipu_mm_find_block_candidate_no_lock bl n a ty = Inr (i, s)"
  shows "i < length bl" "is_free (bl ! i)" "0 < unat n" "unat (blk_pa (bl ! i)) \<le> unat s"
    and "unat s + unat n \<le> unat (blk_pa (bl ! i)) + unat (blk_bytes (bl ! i))"
    and "unat (blk_pa (bl ! i)) + unat (blk_bytes (bl ! i)) \<le> 2 ^ 62"
    and "\<not> is_forward_type ty \<Longrightarrow> unat a dvd unat s"
    and "is_forward_type ty \<Longrightarrow> a = 2 ^ k \<Longrightarrow> k < 64 \<Longrightarrow> unat a dvd unat s"
proof -
  have np: "n \<noteq> 0" and ap: "0 < a"
    using f by (auto simp: aipu_mm_find_block_candidate_no_lock_def word_gt_0 split: if_splits)
  define fw where "fw = is_forward_type ty"
  have il: "i < length bl"
    and fit: "if fw then fit_forward n a (bl ! i) = Some s else fit_reverse n a (bl ! i) = Some s"
    using f by (auto simp: aipu_mm_find_block_candidate_no_lock_def fw_def
        split: if_splits option.splits dest!: scan_blocks_SomeD)
  show "i < length bl" by (fact il)
  have bm: "bl ! i \<in> set bl" using il by simp
  note mem = tiles_mem [OF wf(1) bm]
  have e62: "unat (blk_pa (bl ! i)) + unat (blk_bytes (bl ! i)) \<le> 2 ^ 62" using mem wf(2) by linarith
  have n62: "unat n \<le> 2 ^ 62" and nb: "unat n \<le> unat (blk_pa (bl ! i)) + unat (blk_bytes (bl ! i))"
    using n mem wf(2) by linarith+
  show "0 < unat n" using np by (simp add: unat_pos_u64)
  show "unat (blk_pa (bl ! i)) + unat (blk_bytes (bl ! i)) \<le> 2 ^ 62" by (fact e62)
  show "is_free (bl ! i)" "unat (blk_pa (bl ! i)) \<le> unat s"
    "unat s + unat n \<le> unat (blk_pa (bl ! i)) + unat (blk_bytes (bl ! i))"
    using fit_forward_bounds [OF _ e62 n62 a ap, of s] fit_reverse_bounds [OF _ e62 nb ap, of s] fit
    by (cases fw; simp)+
  show "\<not> is_forward_type ty \<Longrightarrow> unat a dvd unat s"
    using fit_reverse_bounds(4) [OF _ e62 nb ap, of s] fit by (simp add: fw_def)
  show "is_forward_type ty \<Longrightarrow> a = 2 ^ k \<Longrightarrow> k < 64 \<Longrightarrow> unat a dvd unat s"
    using fit ALIGN_pow2_dvd [of k "blk_pa (bl ! i)"]
    by (auto simp: fw_def fit_forward_def Let_def unat_exp_u64 split: if_splits)
qed

text \<open>What a successful allocation of \<open>n\<close> bytes at \<open>p\<close> does to a region.\<close>

definition region_grant :: "aipu_mem_region \<Rightarrow> aipu_mem_region \<Rightarrow> u64 \<Rightarrow> u64 \<Rightarrow> bool" where
  "region_grant r r' p n \<longleftrightarrow>
     (\<exists>bl'. r' = r\<lparr>rg_blks := bl', rg_tot_free_bytes := rg_tot_free_bytes r - n\<rparr>) \<and> region_wf r' \<and>
     region_live r' = insert (unat p, unat n) (region_live r) \<and> 0 < unat n \<and>
     unat (rg_pa r) \<le> unat p \<and> unat p + unat n \<le> unat (rg_pa r) + unat (rg_tot_bytes r) \<and>
     (\<forall>x \<in> region_live r. apart x (unat p, unat n)) \<and>
     unat (rg_tot_free_bytes r') + unat n = unat (rg_tot_free_bytes r)"

definition alloc_outcome ::
  "aipu_mem_region \<Rightarrow> buf_request \<Rightarrow> aipu_mem_region \<Rightarrow> buf_request \<Rightarrow> aipu_buffer \<Rightarrow> bool" where
  "alloc_outcome r q r' q' b' \<longleftrightarrow>
     q' = q\<lparr>br_errcode := AIPU_ERRCODE_NO_ERROR\<rparr> \<and>
     ab_va b' = rg_va r + ab_pa b' - rg_pa r \<and> ab_bytes b' = get_alloc_size r (br_bytes q) \<and>
     ab_region_id b' = word_of_int (rg_id r) \<and> ab_type b' = mem_type_num (rg_type r) \<and>
     region_grant r r' (ab_pa b') (get_alloc_size r (br_bytes q)) \<and>
     (\<not> is_forward_type (br_data_type q) \<longrightarrow> unat (req_alignment q) dvd unat (ab_pa b')) \<and>
     (\<forall>k < 64. req_alignment q = 2 ^ k \<longrightarrow> unat (req_alignment q) dvd unat (ab_pa b'))"

lemma try_alloc_effect:
  assumes wf: "region_wf r" and sz: "unat (get_alloc_size r (br_bytes q)) \<le> unat (rg_tot_bytes r)"
    and res: "aipu_mm_try_alloc_in_region e r q b = Some (ret, r', q', b')"
  shows "ret \<noteq> 0 \<and> r' = r \<and> q' = q \<and> b' = b \<or> ret = 0 \<and> alloc_outcome r q r' q' b'"
proof -
  let ?n = "get_alloc_size r (br_bytes q)" and ?a = "req_alignment q" and ?ty = "br_data_type q"
  let ?lo = "unat (rg_pa r)" and ?hi = "unat (rg_pa r) + unat (rg_tot_bytes r)"
  have t: "tiles ?lo (rg_blks r) ?hi" and co: "coalesced (rg_blks r)" and hi: "?hi \<le> 2 ^ 62"
    and fb: "unat (rg_tot_free_bytes r) = free_bytes (rg_blks r)" and nlo: "unat ?n \<le> ?lo"
    using wf sz by (auto simp: region_wf_def)
  show ?thesis
  proof (cases "aipu_mm_find_block_candidate_no_lock (rg_blks r) ?n ?a ?ty")
    case (Inl err)
    then have "err \<noteq> 0"
      by (auto simp: aipu_mm_find_block_candidate_no_lock_def errno_defs split: if_splits option.splits)
    with Inl res show ?thesis
      by (auto simp: aipu_mm_try_alloc_in_region_def alloc_in_region_eq
          aipu_mm_alloc_in_region_compact_no_lock_def)
  next
    case (Inr cand)
    obtain i s where cs: "cand = (i, s)" by fastforce
    note c = find_candidate_Inr [OF t hi nlo req_alignment_lt Inr [unfolded cs]]
    obtain r0 bl' where sp: "aipu_mm_split_block_no_lock (kz_blk e (rg_id r)) (kz_back e (rg_id r))
        (cur_tid e) (rg_blks r) i s ?n ?ty = Some (r0, bl')"
      using res Inr cs by (auto simp: aipu_mm_try_alloc_in_region_def alloc_in_region_eq
          aipu_mm_alloc_in_region_compact_no_lock_def Let_def bind_eq_Some_conv)
    note cut = split_block_cut [OF c(2,3,4,5,6) sp]
    show ?thesis
    proof (cases "r0 = 0")
      case False
      then have "r' = r" "ret \<noteq> 0" "q' = q" "b' = b"
        using res Inr cs sp cut by (auto simp: aipu_mm_try_alloc_in_region_def alloc_in_region_eq
          aipu_mm_alloc_in_region_compact_no_lock_def Let_def errno_defs)
      then show ?thesis by simp
    next
      case True
      with cut obtain X where bl': "bl' = splice i X (rg_blks r)" and X: "is_cut (rg_blks r ! i) s ?n X"
        by blast
      note fx = splice_cut [OF c(1,2) X t co, folded bl']
      have out: "ret = 0" "q' = q\<lparr>br_errcode := AIPU_ERRCODE_NO_ERROR\<rparr>"
        "b' = b\<lparr>ab_pa := s, ab_va := rg_va r + s - rg_pa r, ab_bytes := ?n,
           ab_region_id := word_of_int (rg_id r), ab_type := mem_type_num (rg_type r)\<rparr>"
        "r' = r\<lparr>rg_blks := bl', rg_tot_free_bytes := rg_tot_free_bytes r - ?n\<rparr>"
        using res Inr cs sp True by (auto simp: aipu_mm_try_alloc_in_region_def alloc_in_region_eq
          aipu_mm_alloc_in_region_compact_no_lock_def Let_def)
      have tf: "unat (rg_tot_free_bytes r - ?n) = unat (rg_tot_free_bytes r) - unat ?n"
        using fx(4) fb by (intro unat_sub_nowrap) simp
      have bm: "rg_blks r ! i \<in> set (rg_blks r)" using c(1) by simp
      note mem = tiles_mem [OF t bm]
      have "region_grant r r' s ?n"
        unfolding region_grant_def
      proof (intro conjI ballI exI)
        show "r' = r\<lparr>rg_blks := bl', rg_tot_free_bytes := rg_tot_free_bytes r - ?n\<rparr>" by (fact out)
        show "region_wf r'"
          using fx tf fb wf by (simp add: region_wf_def out)
        show "region_live r' = insert (unat s, unat ?n) (region_live r)" using fx by (simp add: out)
        show "0 < unat ?n" by (fact c(3))
        show "?lo \<le> unat s" "unat s + unat ?n \<le> ?hi" using c mem by linarith+
        show "unat (rg_tot_free_bytes r') + unat ?n = unat (rg_tot_free_bytes r)"
          using tf fx(4) fb by (simp add: out)
        fix x assume "x \<in> region_live r"
        from live_apart_free [OF t c(1,2) this] show "apart x (unat s, unat ?n)"
          using c by (auto simp: apart_def)
      qed
      moreover have "\<forall>k < 64. ?a = 2 ^ k \<longrightarrow> unat ?a dvd unat s"
        using c(7,8) by blast
      ultimately show ?thesis using out c(7) by (auto simp: alloc_outcome_def)
    qed
  qed
qed

lemma free_in_region_effect:
  assumes wf: "region_wf r" and l: "(unat (bd_pa d), unat (bd_bytes d)) \<in> region_live r"
    and res: "aipu_mm_free_in_region r d = (ret, r')"
  shows "ret = 0" "\<exists>bl' n. r' = r\<lparr>rg_blks := bl', rg_tot_free_bytes := n\<rparr>" "region_wf r'"
    and "region_live r' = region_live r - {(unat (bd_pa d), unat (bd_bytes d))}"
    and "unat (rg_tot_free_bytes r') = unat (rg_tot_free_bytes r) + unat (bd_bytes d)"
proof -
  let ?hi = "unat (rg_pa r) + unat (rg_tot_bytes r)"
  have t: "tiles (unat (rg_pa r)) (rg_blks r) ?hi" and co: "coalesced (rg_blks r)" and hi: "?hi \<le> 2 ^ 62"
    and fb: "unat (rg_tot_free_bytes r) = free_bytes (rg_blks r)"
    using wf by (auto simp: region_wf_def)
  obtain i where i: "find_block_by_desc (rg_blks r) (bd_pa d) (bd_bytes d) = Some i"
    "i < length (rg_blks r)" "blk_pa (rg_blks r ! i) = bd_pa d" "blk_bytes (rg_blks r ! i) = bd_bytes d"
    "\<not> is_free (rg_blks r ! i)"
    using find_block_by_desc_live [OF t l] by blast
  have out: "ret = 0" "r' = r\<lparr>rg_blks := release_block i (rg_blks r),
      rg_tot_free_bytes := rg_tot_free_bytes r + bd_bytes d\<rparr>"
    using res i(1) by (auto simp: aipu_mm_free_in_region_def)
  note fx = release_block_effect [OF i(2) t hi i(5), unfolded i(3,4)]
  have "free_bytes (release_block i (rg_blks r)) \<le> 2 ^ 62"
    using free_bytes_le [OF fx(1)] hi by linarith
  then have tf: "unat (rg_tot_free_bytes r + bd_bytes d) = unat (rg_tot_free_bytes r) + unat (bd_bytes d)"
    using fx(4) fb by (intro unat_add_nowrap) simp
  show "ret = 0" "\<exists>bl' n. r' = r\<lparr>rg_blks := bl', rg_tot_free_bytes := n\<rparr>" using out by auto
  show "region_wf r'" using wf fx(1,2,4) co tf fb by (simp add: region_wf_def out)
  show "region_live r' = region_live r - {(unat (bd_pa d), unat (bd_bytes d))}"
    "unat (rg_tot_free_bytes r') = unat (rg_tot_free_bytes r) + unat (bd_bytes d)"
    using fx(3) tf by (simp_all add: out)
qed

text \<open>Releasing what was just allocated restores the region, owner information aside.\<close>

lemma alloc_free_restores:
  assumes wf: "region_wf r" and g: "region_grant r r' p n"
    and f: "aipu_mm_free_in_region r' d = (ret, r'')" and d: "bd_pa d = p" "bd_bytes d = n"
  shows "ret = 0 \<and> map skel (rg_blks r'') = map skel (rg_blks r) \<and>
    rg_tot_free_bytes r'' = rg_tot_free_bytes r \<and> rg_pa r'' = rg_pa r \<and> rg_tot_bytes r'' = rg_tot_bytes r"
proof -
  note gd = g [unfolded region_grant_def]
  have wf': "region_wf r'" and l: "(unat (bd_pa d), unat (bd_bytes d)) \<in> region_live r'"
    using gd d by auto
  note fx = free_in_region_effect [OF wf' l f]
  have nl: "(unat p, unat n) \<notin> region_live r" using gd by (fastforce simp: apart_def)
  have "region_live r'' = region_live r" using fx(4) gd d nl by auto
  moreover have same: "rg_pa r'' = rg_pa r" "rg_tot_bytes r'' = rg_tot_bytes r" using fx(2) gd by auto
  moreover have "map skel (rg_blks r'') = map skel (rg_blks r)"
    using skel_determined [of "unat (rg_pa r)" "rg_blks r''" _ "rg_blks r"] wf fx(3) same calculation(1)
    by (auto simp: region_wf_def)
  moreover have "rg_tot_free_bytes r'' = rg_tot_free_bytes r"
    using fx(5) gd d by (simp add: word_eq_unat)
  ultimately show ?thesis using fx(1) by blast
qed

subsection \<open>Lists of regions\<close>

definition extents :: "aipu_mem_region list \<Rightarrow> (nat \<times> nat) list" where
  "extents rs = map (\<lambda>r. (unat (rg_pa r), unat (rg_tot_bytes r))) rs"

definition regions_wf :: "aipu_mem_region list \<Rightarrow> bool" where
  "regions_wf rs \<longleftrightarrow> (\<forall>r \<in> set rs. region_wf r) \<and> sorted_wrt apart (extents rs)"

definition regions_live :: "aipu_mem_region list \<Rightarrow> (nat \<times> nat) set" where
  "regions_live rs = (\<Union>r \<in> set rs. region_live r)"

definition regions_free :: "aipu_mem_region list \<Rightarrow> nat" where
  "regions_free rs = sum_list (map (\<lambda>r. unat (rg_tot_free_bytes r)) rs)"

lemma regions_simps [simp]:
  "regions_live [] = {}" "regions_live (r # rs) = region_live r \<union> regions_live rs"
  "regions_free [] = 0" "regions_free (r # rs) = unat (rg_tot_free_bytes r) + regions_free rs"
  "regions_live (xs @ ys) = regions_live xs \<union> regions_live ys"
  "regions_free (xs @ ys) = regions_free xs + regions_free ys"
  "extents [] = []" "extents (r # rs) = (unat (rg_pa r), unat (rg_tot_bytes r)) # extents rs"
  "extents (xs @ ys) = extents xs @ extents ys"
  by (auto simp: regions_live_def regions_free_def extents_def)

lemma region_live_inside:
  "region_wf r \<Longrightarrow> (p, n) \<in> region_live r \<Longrightarrow>
   unat (rg_pa r) \<le> p \<and> 0 < n \<and> p + n \<le> unat (rg_pa r) + unat (rg_tot_bytes r)"
  using live_bounds by (fastforce simp: region_wf_def)

lemma regions_live_apart:
  assumes wf: "regions_wf rs" and x: "x \<in> regions_live rs" "y \<in> regions_live rs" "x \<noteq> y"
  shows "apart x y"
proof -
  obtain i where i: "i < length rs" "x \<in> region_live (rs ! i)"
    using x by (auto simp: regions_live_def in_set_conv_nth)
  obtain j where j: "j < length rs" "y \<in> region_live (rs ! j)"
    using x by (auto simp: regions_live_def in_set_conv_nth)
  have w: "region_wf (rs ! i)" "region_wf (rs ! j)" using wf i j by (auto simp: regions_wf_def)
  show ?thesis
  proof (cases "i = j")
    case True
    then show ?thesis using live_apart [OF _ i(2) _ x(3)] j w by (auto simp: region_wf_def)
  next
    case False
    have s: "sorted_wrt apart (extents rs)" using wf by (simp add: regions_wf_def)
    have "apart (extents rs ! i) (extents rs ! j) \<or> apart (extents rs ! j) (extents rs ! i)"
      using False i j sorted_wrt_nth_less [OF s, of i j] sorted_wrt_nth_less [OF s, of j i]
      by (cases i j rule: linorder_cases) (auto simp: extents_def)
    then show ?thesis
      using region_live_inside [OF w(1), of "fst x" "snd x"] region_live_inside [OF w(2), of "fst y" "snd y"] i j
      by (auto simp: apart_def extents_def)
  qed
qed

text \<open>Replacing one region by an updated one with the same extent.\<close>

lemma regions_update:
  assumes "regions_wf (pre @ r # post)" "region_wf r'" "rg_pa r' = rg_pa r" "rg_tot_bytes r' = rg_tot_bytes r"
  shows "regions_wf (pre @ r' # post)"
  using assms by (auto simp: regions_wf_def)

text \<open>A range inside one region is apart from what the other regions own.\<close>

lemma range_apart_others:
  assumes wf: "regions_wf (pre @ r # post)" and x: "x \<in> regions_live pre \<union> regions_live post"
    and p: "unat (rg_pa r) \<le> p" "p + n \<le> unat (rg_pa r) + unat (rg_tot_bytes r)"
  shows "apart x (p, n)"
proof -
  obtain q where q: "q \<in> set pre \<union> set post" "x \<in> region_live q"
    using x by (auto simp: regions_live_def)
  have w: "region_wf q" using wf q by (auto simp: regions_wf_def)
  have "(unat (rg_pa q), unat (rg_tot_bytes q)) \<in> set (extents pre) \<union> set (extents post)"
    using q by (auto simp: extents_def)
  then have "apart (unat (rg_pa q), unat (rg_tot_bytes q)) (unat (rg_pa r), unat (rg_tot_bytes r)) \<or>
    apart (unat (rg_pa r), unat (rg_tot_bytes r)) (unat (rg_pa q), unat (rg_tot_bytes q))"
    using wf by (auto simp: regions_wf_def sorted_wrt_append)
  then show ?thesis
    using region_live_inside [OF w, of "fst x" "snd x"] q p by (auto simp: apart_def)
qed

lemma alloc_regions_loop_effect:
  assumes "regions_wf rs" "ret \<noteq> 0"
    and "\<And>r. r \<in> set rs \<Longrightarrow> eligible r \<Longrightarrow> unat (get_alloc_size r (br_bytes q)) \<le> unat (rg_tot_bytes r)"
    and "alloc_regions_loop eligible e ret rs q b = Some (ret', rs', q', b')"
  shows "ret' \<noteq> 0 \<and> rs' = rs \<and> q' = q \<and> b' = b \<or>
    ret' = 0 \<and> (\<exists>pre r post r'. rs = pre @ r # post \<and> rs' = pre @ r' # post \<and> eligible r \<and>
      alloc_outcome r q r' q' b')"
  using assms
proof (induction rs arbitrary: ret ret' rs')
  case Nil
  then show ?case by simp
next
  case (Cons r rs)
  have wf: "region_wf r" "regions_wf rs" using Cons.prems(1) by (auto simp: regions_wf_def)
  have sz: "\<And>x. x \<in> set rs \<Longrightarrow> eligible x \<Longrightarrow> unat (get_alloc_size x (br_bytes q)) \<le> unat (rg_tot_bytes x)"
    using Cons.prems(3) by simp
  show ?case
  proof (cases "eligible r")
    case True
    obtain r1 x q1 b1 where tr: "aipu_mm_try_alloc_in_region e r q b = Some (r1, x, q1, b1)"
      using Cons.prems(4) True by (auto simp: bind_eq_Some_conv)
    have "unat (get_alloc_size r (br_bytes q)) \<le> unat (rg_tot_bytes r)" using Cons.prems(3) True by simp
    note eff = try_alloc_effect [OF wf(1) this tr]
    show ?thesis
    proof (cases "r1 = 0")
      case ok: True
      then have "ret' = 0" "rs' = x # rs" "q' = q1" "b' = b1" using Cons.prems(4) True tr by auto
      then show ?thesis using eff ok True by (metis append_Nil)
    next
      case False
      then have "x = r" "q1 = q" "b1 = b" using eff by auto
      with False Cons.prems(4) True tr obtain rs1 where
        l: "alloc_regions_loop eligible e r1 rs q b = Some (ret', rs1, q', b')" "rs' = r # rs1"
        by (auto simp: bind_eq_Some_conv)
      from Cons.IH [OF wf(2) False sz l(1)] l(2) show ?thesis by (metis append_Cons)
    qed
  next
    case False
    with Cons.prems(4) obtain rs1 where
      l: "alloc_regions_loop eligible e ret rs q b = Some (ret', rs1, q', b')" "rs' = r # rs1"
      by (auto simp: bind_eq_Some_conv)
    from Cons.IH [OF wf(2) Cons.prems(2) sz l(1)] l(2) show ?thesis by (metis append_Cons)
  qed
qed

text \<open>Effect of one allocation on the region list as a whole.\<close>

lemma alloc_outcome_regions:
  assumes wf: "regions_wf (pre @ r # post)" and o: "alloc_outcome r q r' q' b'"
  shows "regions_wf (pre @ r' # post)"
    and "regions_live (pre @ r' # post) =
           insert (unat (ab_pa b'), unat (ab_bytes b')) (regions_live (pre @ r # post))"
    and "0 < unat (ab_bytes b')"
    and "\<forall>x \<in> regions_live (pre @ r # post). apart x (unat (ab_pa b'), unat (ab_bytes b'))"
    and "regions_free (pre @ r' # post) + unat (ab_bytes b') = regions_free (pre @ r # post)"
proof -
  have n: "ab_bytes b' = get_alloc_size r (br_bytes q)" using o by (simp add: alloc_outcome_def)
  have g: "region_grant r r' (ab_pa b') (ab_bytes b')" using o n by (simp add: alloc_outcome_def)
  note gd = g [unfolded region_grant_def]
  have wf': "region_wf r'" and same: "rg_pa r' = rg_pa r" "rg_tot_bytes r' = rg_tot_bytes r"
    using gd by auto
  show "regions_wf (pre @ r' # post)" by (rule regions_update [OF wf wf' same])
  show "regions_live (pre @ r' # post) =
      insert (unat (ab_pa b'), unat (ab_bytes b')) (regions_live (pre @ r # post))"
    using gd by auto
  show "0 < unat (ab_bytes b')" using gd by blast
  show "\<forall>x \<in> regions_live (pre @ r # post). apart x (unat (ab_pa b'), unat (ab_bytes b'))"
    using gd range_apart_others [OF wf, of _ "unat (ab_pa b')" "unat (ab_bytes b')"] by auto
  show "regions_free (pre @ r' # post) + unat (ab_bytes b') = regions_free (pre @ r # post)"
    using gd by auto
qed

subsection \<open>The manager\<close>

text \<open>
  SRAM is compiled out, so the manager's memory is the DDR list; \<open>mm_wf\<close> also asks
  that no SRAM region was added, as in the driver's probe.
\<close>

definition ddr_regions :: "aipu_memory_manager \<Rightarrow> aipu_mem_region list" where
  "ddr_regions mm = (case ddr_head mm of None \<Rightarrow> [] | Some rs \<Rightarrow> rs)"

definition mm_wf :: "aipu_memory_manager \<Rightarrow> bool" where
  "mm_wf mm \<longleftrightarrow> regions_wf (ddr_regions mm) \<and> (sram_head mm = None \<or> sram_head mm = Some [])"

definition mm_live :: "aipu_memory_manager \<Rightarrow> (nat \<times> nat) set" where
  "mm_live mm = regions_live (ddr_regions mm)"

definition mm_free_bytes :: "aipu_memory_manager \<Rightarrow> nat" where
  "mm_free_bytes mm = regions_free (ddr_regions mm)"

text \<open>
  The one path without the free-space guard is the read-only/stack request on a version
  2 device; there the rounded size must fit the regions with the requested id.
\<close>

definition sane_request :: "buf_request \<Rightarrow> aipu_memory_manager \<Rightarrow> bool" where
  "sane_request q mm \<longleftrightarrow>
     mm_version mm = AIPU_VERSION_ZHOUYI_V2 \<and> br_data_type q = AIPU_MM_DATA_TYPE_RO_STACK \<longrightarrow>
       (\<forall>r \<in> set (ddr_regions mm). br_region_id q = word_of_int (rg_id r) \<longrightarrow>
          get_alloc_size r (br_bytes q) \<le> rg_tot_bytes r)"

lemma get_alloc_guard:
  "region_wf r \<Longrightarrow> get_alloc_size r n \<le> rg_tot_free_bytes r \<Longrightarrow>
   unat (get_alloc_size r n) \<le> unat (rg_tot_bytes r)"
  using region_free_le by (fastforce simp: word_le_nat_alt)

lemma mm_alloc_ddr:
  assumes "aipu_mm_alloc e mm q b = Some (ret, mm', q', b')" "br_bytes q \<noteq> 0" "br_align_in_page q \<noteq> 0"
    and "\<not> (sram_cnt mm = 0 \<and> ddr_cnt mm = 0)"
  obtains ddr' q1 where "aipu_mm_scan_regions_alloc e (mm_version mm) (ddr_head mm) q zero_buffer = Some (ret, ddr', q1, b')"
    "mm' = mm\<lparr>ddr_head := ddr'\<rparr>" "q' = (if ret = 0 then q1 else q1\<lparr>br_errcode := AIPU_ERRCODE_NO_MEMORY\<rparr>)"
proof -
  have "mm\<lparr>sram_head := sram_head mm\<rparr> = mm" by simp
  then show thesis
    using assms that
    by (auto simp: aipu_mm_alloc_def AIPU_CONFIG_ENABLE_SRAM_def Let_def bind_eq_Some_conv split: if_splits)
qed

lemma mm_alloc_effect:
  assumes wf: "mm_wf mm" and sane: "sane_request q mm"
    and res: "aipu_mm_alloc e mm q b = Some (ret, mm', q', b')"
  shows "ret \<noteq> 0 \<and> mm' = mm \<or>
    ret = 0 \<and> mm_wf mm' \<and>
    (\<exists>pre r post r'. ddr_regions mm = pre @ r # post \<and> mm' = mm\<lparr>ddr_head := Some (pre @ r' # post)\<rparr> \<and>
       alloc_outcome r q r' q' b')"
proof (cases "br_bytes q = 0 \<or> br_align_in_page q = 0 \<or> sram_cnt mm = 0 \<and> ddr_cnt mm = 0")
  case True
  then show ?thesis using res by (auto simp: aipu_mm_alloc_def Let_def errno_defs split: if_splits)
next
  case False
  then obtain ddr' q1 where
    sc: "aipu_mm_scan_regions_alloc e (mm_version mm) (ddr_head mm) q zero_buffer = Some (ret, ddr', q1, b')"
    and mm': "mm' = mm\<lparr>ddr_head := ddr'\<rparr>"
    and q': "q' = (if ret = 0 then q1 else q1\<lparr>br_errcode := AIPU_ERRCODE_NO_MEMORY\<rparr>)"
    using mm_alloc_ddr [OF res] by blast
  show ?thesis
  proof (cases "ddr_head mm")
    case None
    then have "ddr' = None" "ret \<noteq> 0" using sc by (auto simp: aipu_mm_scan_regions_alloc_def errno_defs)
    then have "mm' = mm" using mm' None by simp
    with \<open>ret \<noteq> 0\<close> show ?thesis by simp
  next
    case (Some rs)
    let ?ro = "mm_version mm = AIPU_VERSION_ZHOUYI_V2 \<and> br_data_type q = AIPU_MM_DATA_TYPE_RO_STACK"
    let ?el = "\<lambda>r. if ?ro then br_region_id q = word_of_int (rg_id r)
                   else get_alloc_size r (br_bytes q) \<le> rg_tot_free_bytes r"
    have rs: "ddr_regions mm = rs" "regions_wf rs" using Some wf by (auto simp: ddr_regions_def mm_wf_def)
    obtain rs' where l: "alloc_regions_loop ?el e (- ENOMEM) rs q zero_buffer = Some (ret, rs', q1, b')"
      and ddr': "ddr' = Some rs'"
      using sc Some by (auto simp: aipu_mm_scan_regions_alloc_def bind_eq_Some_conv split: if_splits)
    have sz: "unat (get_alloc_size r (br_bytes q)) \<le> unat (rg_tot_bytes r)" if "r \<in> set rs" "?el r" for r
      using that sane rs get_alloc_guard [of r "br_bytes q"]
      by (auto simp: sane_request_def regions_wf_def word_le_nat_alt split: if_splits)
    have en: "- ENOMEM \<noteq> 0" by (simp add: errno_defs)
    have "ret \<noteq> 0 \<and> rs' = rs \<and> q1 = q \<and> b' = zero_buffer \<or>
      ret = 0 \<and> (\<exists>pre r post r'. rs = pre @ r # post \<and> rs' = pre @ r' # post \<and> ?el r \<and>
        alloc_outcome r q r' q1 b')"
      by (rule alloc_regions_loop_effect [OF rs(2) en _ l]) (rule sz)
    then show ?thesis
    proof (elim disjE conjE exE)
      assume "ret \<noteq> 0" "rs' = rs"
      then show ?thesis using mm' ddr' Some by simp
    next
      fix pre r post r'
      assume ok: "ret = 0" and sp: "rs = pre @ r # post" "rs' = pre @ r' # post"
        and o: "alloc_outcome r q r' q1 b'"
      have "mm_wf mm'"
        using alloc_outcome_regions(1) [OF rs(2) [unfolded sp] o] wf mm' ddr' sp
        by (simp add: mm_wf_def ddr_regions_def)
      then show ?thesis using ok sp o mm' ddr' rs q' by auto
    qed
  qed
qed

lemma find_region_owner:
  assumes "regions_wf (pre @ r # post)" "(unat pa, unat n) \<in> region_live r"
  shows "find_region_index (pre @ r # post) pa n = Some (length pre)"
  using assms(1)
proof (induction pre)
  case Nil
  have wf: "region_wf r" using Nil by (simp add: regions_wf_def)
  note in' = region_live_inside [OF wf assms(2)]
  have "unat (rg_pa r) + unat (rg_tot_bytes r) \<le> 2 ^ 62" using wf by (simp add: region_wf_def)
  then show ?case using in' by (auto simp: word_le_nat_alt unat_add_nowrap)
next
  case (Cons q pre)
  have wf: "region_wf r" and wq: "region_wf q" and wr: "regions_wf (pre @ r # post)"
    and ap: "apart (unat (rg_pa q), unat (rg_tot_bytes q)) (unat (rg_pa r), unat (rg_tot_bytes r))"
    using Cons.prems by (auto simp: regions_wf_def)
  note in' = region_live_inside [OF wf assms(2)]
  have "unat (rg_pa r) + unat (rg_tot_bytes r) \<le> 2 ^ 62" "unat (rg_pa q) + unat (rg_tot_bytes q) \<le> 2 ^ 62"
    using wf wq by (auto simp: region_wf_def)
  then have "\<not> (rg_pa q \<le> pa \<and> pa + n \<le> rg_pa q + rg_tot_bytes q)"
    using in' ap by (auto simp: word_le_nat_alt unat_add_nowrap apart_def)
  then show ?case using Cons.IH [OF wr] by simp
qed

lemma mm_free_effect:
  assumes wf: "mm_wf mm" and l: "(unat (bd_pa d), unat (bd_bytes d)) \<in> mm_live mm"
    and res: "aipu_mm_free mm d = (ret, mm')"
  shows "ret = 0 \<and> mm_wf mm' \<and> mm_live mm' = mm_live mm - {(unat (bd_pa d), unat (bd_bytes d))} \<and>
    mm_free_bytes mm' = mm_free_bytes mm + unat (bd_bytes d) \<and>
    (\<exists>pre r post r'. ddr_regions mm = pre @ r # post \<and> mm' = mm\<lparr>ddr_head := Some (pre @ r' # post)\<rparr> \<and>
       (unat (bd_pa d), unat (bd_bytes d)) \<in> region_live r \<and> aipu_mm_free_in_region r d = (0, r'))"
proof -
  let ?x = "(unat (bd_pa d), unat (bd_bytes d))"
  obtain r where r: "r \<in> set (ddr_regions mm)" "?x \<in> region_live r"
    using l by (auto simp: mm_live_def regions_live_def)
  then obtain pre post where rs: "ddr_regions mm = pre @ r # post" by (meson split_list)
  have head: "ddr_head mm = Some (pre @ r # post)" using rs by (auto simp: ddr_regions_def split: option.splits)
  have w: "regions_wf (pre @ r # post)" using wf rs by (simp add: mm_wf_def)
  have wr: "region_wf r" using w by (simp add: regions_wf_def)
  have nz: "bd_bytes d \<noteq> 0" using region_live_inside [OF wr r(2)] by auto
  obtain ret' r' where fr: "aipu_mm_free_in_region r d = (ret', r')" by fastforce
  note fx = free_in_region_effect [OF wr r(2) fr]
  have noSram: "aipu_mm_find_region (sram_head mm) (bd_pa d) (bd_bytes d) = None"
    using wf by (auto simp: mm_wf_def aipu_mm_find_region_def)
  have "aipu_mm_find_region (ddr_head mm) (bd_pa d) (bd_bytes d) = Some (length pre)"
    using find_region_owner [OF w r(2)] nz head by (simp add: aipu_mm_find_region_def)
  then have out: "ret = ret'" "mm' = mm\<lparr>ddr_head := Some (pre @ r' # post)\<rparr>"
    using res fr head noSram by (auto simp: aipu_mm_free_def free_at_def)
  have rs': "ddr_regions mm' = pre @ r' # post" by (simp add: out ddr_regions_def)
  have same: "rg_pa r' = rg_pa r" "rg_tot_bytes r' = rg_tot_bytes r" using fx(2) by auto
  have wf': "mm_wf mm'" using regions_update [OF w fx(3) same] wf rs' by (simp add: mm_wf_def out)
  have "?x \<notin> regions_live pre \<union> regions_live post"
    using range_apart_others [OF w, of ?x "unat (bd_pa d)" "unat (bd_bytes d)"]
      region_live_inside [OF wr r(2)] by (auto simp: apart_def)
  then have "mm_live mm' = mm_live mm - {?x}"
    using fx(4) by (auto simp: mm_live_def rs rs')
  moreover have "mm_free_bytes mm' = mm_free_bytes mm + unat (bd_bytes d)"
    using fx(5) by (simp add: mm_free_bytes_def rs rs')
  ultimately show ?thesis using wf' fx(1) out rs fr r(2) by auto
qed

lemma mm_alloc_regions:
  assumes wf: "mm_wf mm" and sane: "sane_request q mm"
    and res: "aipu_mm_alloc e mm q b = Some (0, mm', q', b')"
  shows "mm_wf mm'" "mm_live mm' = insert (unat (ab_pa b'), unat (ab_bytes b')) (mm_live mm)"
    and "0 < unat (ab_bytes b')" "\<forall>x \<in> mm_live mm. apart x (unat (ab_pa b'), unat (ab_bytes b'))"
    and "mm_free_bytes mm' + unat (ab_bytes b') = mm_free_bytes mm"
proof -
  obtain pre r post r' where rs: "ddr_regions mm = pre @ r # post"
    "mm' = mm\<lparr>ddr_head := Some (pre @ r' # post)\<rparr>" and o: "alloc_outcome r q r' q' b'"
    and wf': "mm_wf mm'"
    using mm_alloc_effect [OF wf sane res] by blast
  have rs': "ddr_regions mm' = pre @ r' # post" by (simp add: rs ddr_regions_def)
  have w: "regions_wf (pre @ r # post)" using wf rs by (simp add: mm_wf_def)
  note fx = alloc_outcome_regions [OF w o]
  show "mm_wf mm'" by (fact wf')
  show "mm_live mm' = insert (unat (ab_pa b'), unat (ab_bytes b')) (mm_live mm)"
    "\<forall>x \<in> mm_live mm. apart x (unat (ab_pa b'), unat (ab_bytes b'))"
    "mm_free_bytes mm' + unat (ab_bytes b') = mm_free_bytes mm" "0 < unat (ab_bytes b')"
    using fx by (simp_all add: mm_live_def mm_free_bytes_def rs(1) rs')
qed

subsection \<open>The manager as a range allocator\<close>

definition mm_al :: "kenv \<times> buf_request \<Rightarrow> aipu_memory_manager \<Rightarrow> (aipu_memory_manager \<times> nat \<times> nat) option" where
  "mm_al q mm =
     (case aipu_mm_alloc (fst q) mm (snd q) zero_buffer of
        None \<Rightarrow> None
      | Some (ret, mm', _, b) \<Rightarrow>
          if ret = 0 then Some (mm', unat (ab_pa b), unat (ab_bytes b)) else None)"

definition desc_of :: "nat \<times> nat \<Rightarrow> buf_desc" where
  "desc_of d = \<lparr>bd_pa = word_of_nat (fst d), bd_dev_offset = 0, bd_bytes = word_of_nat (snd d),
     bd_region_id = 0\<rparr>"

definition mm_fr :: "nat \<times> nat \<Rightarrow> aipu_memory_manager \<Rightarrow> aipu_memory_manager" where
  "mm_fr d mm = snd (aipu_mm_free mm (desc_of d))"

lemma mm_al_SomeD:
  assumes "mm_al q mm = Some (mm', d)"
  obtains q' b where "aipu_mm_alloc (fst q) mm (snd q) zero_buffer = Some (0, mm', q', b)"
    "d = (unat (ab_pa b), unat (ab_bytes b))"
  using assms by (auto simp: mm_al_def split: option.splits if_splits)

lemma mm_live_words:
  "d \<in> mm_live mm \<Longrightarrow> (unat (bd_pa (desc_of d)), unat (bd_bytes (desc_of d))) = d"
  by (auto simp: mm_live_def regions_live_def live_def desc_of_def)

lemma mm_free_owned:
  assumes "mm_wf mm" "d \<in> mm_live mm"
  shows "mm_wf (mm_fr d mm)" "mm_live (mm_fr d mm) = mm_live mm - {d}"
    and "mm_free_bytes (mm_fr d mm) = mm_free_bytes mm + snd d"
proof -
  obtain ret mm' where f: "aipu_mm_free mm (desc_of d) = (ret, mm')" by fastforce
  note w = mm_live_words [OF assms(2)]
  have "snd d = unat (bd_bytes (desc_of d))" using w by (metis snd_conv)
  with mm_free_effect [OF assms(1) _ f] assms(2) w
  show "mm_wf (mm_fr d mm)" "mm_live (mm_fr d mm) = mm_live mm - {d}"
    "mm_free_bytes (mm_fr d mm) = mm_free_bytes mm + snd d"
    by (simp_all add: mm_fr_def f)
qed

lemma mm_live_finite: "finite (mm_live mm)"
  by (simp add: mm_live_def regions_live_def live_def)

interpretation mma: range_allocator mm_wf mm_live mm_free_bytes mm_al mm_fr "\<lambda>q. sane_request (snd q)"
proof
  fix r r' :: aipu_memory_manager and q :: "kenv \<times> buf_request" and d :: "nat \<times> nat"
  show "finite (mm_live r)" by (rule mm_live_finite)
  assume wf: "mm_wf r"
  { assume a: "sane_request (snd q) r" "mm_al q r = Some (r', d)"
    from a(2) obtain q' b where c: "aipu_mm_alloc (fst q) r (snd q) zero_buffer = Some (0, r', q', b)"
      and d: "d = (unat (ab_pa b), unat (ab_bytes b))" by (rule mm_al_SomeD)
    note fx = mm_alloc_regions [OF wf a(1) c]
    show "mm_wf r'" "mm_live r' = insert d (mm_live r)" "0 < snd d \<and> (\<forall>x \<in> mm_live r. apart x d)"
      "mm_free_bytes r' + snd d = mm_free_bytes r"
      using fx by (simp_all add: d) }
  assume "d \<in> mm_live r"
  from mm_free_owned [OF wf this]
  show "mm_wf (mm_fr d r)" "mm_live (mm_fr d r) = mm_live r - {d}"
    "mm_free_bytes (mm_fr d r) = mm_free_bytes r + snd d" by simp_all
qed

end
