(* ===== verification/Waitqueue.thy ===== *)
theory Waitqueue
  imports Prelude
begin

text \<open>
  The wait queues of user threads (\<open>aipu_thread_waitqueue.c\<close>). Every session keeps a
  circular list of them behind a sentinel; the model keeps the entries after the
  sentinel, in list order. A kernel \<open>wait_queue_head_t\<close> is what the driver does to it:
  how often a poll registered on it and how often it was woken.
\<close>

record wait_queue_head_t =
  wq_polls :: nat
  wq_wakeups :: nat

definition init_waitqueue_head :: wait_queue_head_t where
  "init_waitqueue_head = \<lparr>wq_polls = 0, wq_wakeups = 0\<rparr>"

definition poll_wait :: "wait_queue_head_t \<Rightarrow> wait_queue_head_t" where
  "poll_wait q = q\<lparr>wq_polls := wq_polls q + 1\<rparr>"

definition wake_up_interruptible :: "wait_queue_head_t \<Rightarrow> wait_queue_head_t" where
  "wake_up_interruptible q = q\<lparr>wq_wakeups := wq_wakeups q + 1\<rparr>"

record aipu_thread_wait_queue =
  wq_uthread_id :: int
  wq_ref_cnt :: int
  wq_p_wait :: wait_queue_head_t

text \<open>The result of \<open>kzalloc\<close> is used without a check: a failure is a memory fault.\<close>

definition do_create_thread_wait_queue :: "kenv \<Rightarrow> int \<Rightarrow> aipu_thread_wait_queue option" where
  "do_create_thread_wait_queue e uthread_id =
     (if kz_waitq e
      then Some \<lparr>wq_uthread_id = uthread_id, wq_ref_cnt = 0, wq_p_wait = init_waitqueue_head\<rparr>
      else None)"

text \<open>A pointer into the list is an index; a null head is \<open>None\<close>.\<close>

fun find_wait_queue :: "aipu_thread_wait_queue list \<Rightarrow> int \<Rightarrow> nat option" where
  "find_wait_queue [] uthread_id = None"
| "find_wait_queue (cur # qs) uthread_id =
     (if wq_uthread_id cur = uthread_id then Some 0
      else map_option Suc (find_wait_queue qs uthread_id))"

definition get_thread_wait_queue_no_lock :: "aipu_thread_wait_queue list option \<Rightarrow> int \<Rightarrow> nat option" where
  "get_thread_wait_queue_no_lock head uthread_id =
     (case head of None \<Rightarrow> None | Some qs \<Rightarrow> find_wait_queue qs uthread_id)"

text \<open>
  Returns the new queue (\<open>None\<close> for NULL, when the thread already has one) and the list.
\<close>

definition create_thread_wait_queue_no_lock ::
  "kenv \<Rightarrow> aipu_thread_wait_queue list option \<Rightarrow> int \<Rightarrow>
   (aipu_thread_wait_queue option \<times> aipu_thread_wait_queue list option) option" where
  "create_thread_wait_queue_no_lock e head uthread_id =
     (case get_thread_wait_queue_no_lock head uthread_id of
        Some i \<Rightarrow>
          Some (None, map_option (\<lambda>qs. qs[i := (qs ! i)\<lparr>wq_ref_cnt := wq_ref_cnt (qs ! i) + 1\<rparr>]) head)
      | None \<Rightarrow> do {
          queue \<leftarrow> do_create_thread_wait_queue e uthread_id;
          let queue' = queue\<lparr>wq_ref_cnt := wq_ref_cnt queue + 1\<rparr>;
          Some (Some queue', map_option (\<lambda>qs. qs @ [queue']) head)
        })"

definition ck_delete_thread_wait_queue_no_lock ::
  "aipu_thread_wait_queue list \<Rightarrow> nat option \<Rightarrow> aipu_thread_wait_queue list" where
  "ck_delete_thread_wait_queue_no_lock qs wait_queue =
     (case wait_queue of
        None \<Rightarrow> qs
      | Some i \<Rightarrow> if wq_ref_cnt (qs ! i) = 0 then take i qs @ drop (Suc i) qs else qs)"

definition delete_wait_queue :: "aipu_thread_wait_queue list option \<Rightarrow> aipu_thread_wait_queue list option" where
  "delete_wait_queue head = map_option (\<lambda>_. []) head"

subsection \<open>Lemmas\<close>

lemma find_wait_queue_SomeD:
  "find_wait_queue qs t = Some i \<Longrightarrow> i < length qs \<and> wq_uthread_id (qs ! i) = t"
  by (induction qs arbitrary: i) (auto split: if_splits)

lemma find_wait_queue_None_iff:
  "find_wait_queue qs t = None \<longleftrightarrow> t \<notin> wq_uthread_id ` set qs"
  by (induction qs) auto

lemma find_wait_queue_Some_iff:
  "(\<exists>i. find_wait_queue qs t = Some i) \<longleftrightarrow> t \<in> wq_uthread_id ` set qs"
  using find_wait_queue_None_iff [of qs t] by (cases "find_wait_queue qs t") auto

text \<open>One queue per thread, each referenced.\<close>

definition waitqs_wf :: "aipu_thread_wait_queue list \<Rightarrow> bool" where
  "waitqs_wf qs \<longleftrightarrow> distinct (map wq_uthread_id qs) \<and> (\<forall>q \<in> set qs. 0 < wq_ref_cnt q)"

text \<open>How many references the threads hold.\<close>

definition total_refs :: "aipu_thread_wait_queue list \<Rightarrow> int" where
  "total_refs qs = sum_list (map wq_ref_cnt qs)"

lemma map_wq_update:
  "i < length qs \<Longrightarrow> wq_uthread_id q = wq_uthread_id (qs ! i) \<Longrightarrow>
   map wq_uthread_id (qs[i := q]) = map wq_uthread_id qs"
  by (simp add: map_update list_update_same_conv)

lemma total_refs_update:
  "i < length qs \<Longrightarrow> total_refs (qs[i := q]) = total_refs qs - wq_ref_cnt (qs ! i) + wq_ref_cnt q"
  unfolding total_refs_def
  by (induction qs arbitrary: i) (auto split: nat.splits)

lemma create_wait_queue_effect:
  assumes wf: "waitqs_wf qs"
    and res: "create_thread_wait_queue_no_lock e (Some qs) t = Some (q, Some qs')"
  shows "waitqs_wf qs'" "wq_uthread_id ` set qs' = insert t (wq_uthread_id ` set qs)"
    and "total_refs qs' = total_refs qs + 1"
    and "q = None \<longleftrightarrow> t \<in> wq_uthread_id ` set qs"
proof -
  have "waitqs_wf qs' \<and> wq_uthread_id ` set qs' = insert t (wq_uthread_id ` set qs) \<and>
      total_refs qs' = total_refs qs + 1 \<and> (q = None \<longleftrightarrow> t \<in> wq_uthread_id ` set qs)"
  proof (cases "find_wait_queue qs t")
    case None
    then have qs': "qs' = qs @ [\<lparr>wq_uthread_id = t, wq_ref_cnt = 1, wq_p_wait = init_waitqueue_head\<rparr>]"
      and q: "q \<noteq> None"
      using res by (auto simp: create_thread_wait_queue_no_lock_def get_thread_wait_queue_no_lock_def
          do_create_thread_wait_queue_def Let_def split: if_splits)
    then show ?thesis using wf None
      by (auto simp: waitqs_wf_def total_refs_def find_wait_queue_None_iff)
  next
    case (Some i)
    note i = find_wait_queue_SomeD [OF Some]
    let ?q = "(qs ! i)\<lparr>wq_ref_cnt := wq_ref_cnt (qs ! i) + 1\<rparr>"
    have qs': "qs' = qs[i := ?q]" and q: "q = None"
      using res Some by (auto simp: create_thread_wait_queue_no_lock_def get_thread_wait_queue_no_lock_def)
    have m: "map wq_uthread_id qs' = map wq_uthread_id qs"
      unfolding qs' using i by (intro map_wq_update) simp_all
    then have im: "wq_uthread_id ` set qs' = wq_uthread_id ` set qs" by (metis list.set_map)
    have t: "t \<in> wq_uthread_id ` set qs" using i by auto
    have "0 < wq_ref_cnt x" if "x \<in> set qs'" for x
    proof -
      have "0 < wq_ref_cnt (qs ! i)" using wf i by (simp add: waitqs_wf_def)
      then show ?thesis
        using that wf set_update_subset_insert [of qs i ?q] by (auto simp: waitqs_wf_def qs')
    qed
    then have "waitqs_wf qs'" using wf m by (simp add: waitqs_wf_def)
    moreover have "total_refs qs' = total_refs qs + 1" using i by (simp add: qs' total_refs_update)
    ultimately show ?thesis using im t q by auto
  qed
  then show "waitqs_wf qs'" "wq_uthread_id ` set qs' = insert t (wq_uthread_id ` set qs)"
    "total_refs qs' = total_refs qs + 1" "q = None \<longleftrightarrow> t \<in> wq_uthread_id ` set qs" by auto
qed

lemma create_wait_queue_total:
  "kz_waitq e \<Longrightarrow> \<exists>q qs'. create_thread_wait_queue_no_lock e (Some qs) t = Some (q, Some qs')"
  by (auto simp: create_thread_wait_queue_no_lock_def get_thread_wait_queue_no_lock_def
      do_create_thread_wait_queue_def Let_def split: option.splits)

text \<open>Waking or polling a queue keeps the list well-formed.\<close>

lemma waitqs_wf_touch:
  assumes "waitqs_wf qs" "i < length qs"
  shows "waitqs_wf (qs[i := (qs ! i)\<lparr>wq_p_wait := w\<rparr>])"
    and "wq_uthread_id ` set (qs[i := (qs ! i)\<lparr>wq_p_wait := w\<rparr>]) = wq_uthread_id ` set qs"
proof -
  let ?q = "(qs ! i)\<lparr>wq_p_wait := w\<rparr>"
  have m: "map wq_uthread_id (qs[i := ?q]) = map wq_uthread_id qs"
    using assms(2) by (intro map_wq_update) simp_all
  then show "wq_uthread_id ` set (qs[i := ?q]) = wq_uthread_id ` set qs" by (metis list.set_map)
  show "waitqs_wf (qs[i := ?q])"
    using assms m set_update_subset_insert [of qs i ?q] by (fastforce simp: waitqs_wf_def)
qed

text \<open>The release of a reference-free queue never applies: the counters only grow.\<close>

lemma ck_delete_noop:
  assumes "waitqs_wf qs" "i < length qs"
  shows "ck_delete_thread_wait_queue_no_lock qs (Some i) = qs"
proof -
  have "0 < wq_ref_cnt (qs ! i)" using assms by (simp add: waitqs_wf_def)
  then show ?thesis by (simp add: ck_delete_thread_wait_queue_no_lock_def)
qed

end
