(* ===== verification/Session.thy ===== *)
theory Session
  imports Mm Waitqueue
begin

text \<open>
  Sessions (\<open>aipu_session.c\<close>, and \<open>aipu_mm_free_session_buffers\<close> of \<open>aipu_mm.c\<close>):
  one per open file, with its buffers, its jobs and the wait queues of its threads.

  Sessions and session jobs are shared by pointer with the job manager, so they live in
  a heap of objects that \<open>kfree\<close> removes; a lookup that fails is the use of a dangling
  pointer. New objects get fresh addresses (0 is NULL). The circular lists are HOL lists
  in list order, without their sentinels, and \<open>list_add\<close> puts an entry at the front.
\<close>

subsection \<open>State\<close>

record session_buf =
  sb_desc :: aipu_buffer
  sb_dev_offset :: u64
  sb_type :: u32
  sb_map_num :: int

record session_job =
  sj_uthread_id :: int
  sj_desc :: user_job_desc
  sj_state :: job_state
  sj_exception_type :: int
  sj_pdata :: profiling_data
  sj_sched_time :: int
  sj_done_time :: int

record aipu_session =
  user_pid :: int
  sbuf_list :: "session_buf list"
  job_list :: "ptr list"
  wait_queue_head :: "aipu_thread_wait_queue list option"
  com_wait :: wait_queue_head_t
  single_thread_poll :: int

record heap =
  h_sess :: "ptr \<Rightarrow> aipu_session option"
  h_sjob :: "ptr \<Rightarrow> session_job option"
  h_next :: ptr

definition empty_heap :: heap where
  "empty_heap = \<lparr>h_sess = (\<lambda>_. None), h_sjob = (\<lambda>_. None), h_next = 1\<rparr>"

definition put_session :: "ptr \<Rightarrow> aipu_session \<Rightarrow> heap \<Rightarrow> heap" where
  "put_session sp s h = h\<lparr>h_sess := (h_sess h)(sp \<mapsto> s)\<rparr>"

definition put_sjob :: "ptr \<Rightarrow> session_job \<Rightarrow> heap \<Rightarrow> heap" where
  "put_sjob jp j h = h\<lparr>h_sjob := (h_sjob h)(jp \<mapsto> j)\<rparr>"

subsection \<open>Buffers and jobs\<close>

definition init_session_buf :: "aipu_buffer option \<Rightarrow> u64 \<Rightarrow> session_buf" where
  "init_session_buf desc dev_offset =
     (case desc of
        None \<Rightarrow> \<lparr>sb_desc = zero_buffer, sb_dev_offset = dev_offset, sb_type = 0, sb_map_num = 0\<rparr>
      | Some d \<Rightarrow> \<lparr>sb_desc = d, sb_dev_offset = dev_offset, sb_type = ab_type d, sb_map_num = 0\<rparr>)"

definition create_session_buf :: "kenv \<Rightarrow> aipu_buffer \<Rightarrow> u64 \<Rightarrow> session_buf option" where
  "create_session_buf e desc dev_offset =
     (if kz_sbuf e then Some (init_session_buf (Some desc) dev_offset) else None)"

definition init_session_job :: "kenv \<Rightarrow> user_job_desc option \<Rightarrow> session_job" where
  "init_session_job e desc =
     \<lparr>sj_uthread_id = cur_tid e,
      sj_desc = (case desc of None \<Rightarrow> zero_job_desc | Some d \<Rightarrow> d),
      sj_state = AIPU_JOB_STATE_IDLE, sj_exception_type = AIPU_EXCEP_NO_EXCEPTION,
      sj_pdata = zero_pdata, sj_sched_time = 0, sj_done_time = 0\<rparr>"

definition create_session_job :: "kenv \<Rightarrow> heap \<Rightarrow> user_job_desc \<Rightarrow> ptr \<times> heap" where
  "create_session_job e h desc =
     (if kz_sjob e
      then (h_next h, (put_sjob (h_next h) (init_session_job e (Some desc)) h)\<lparr>h_next := h_next h + 1\<rparr>)
      else (NULL, h))"

text \<open>\<open>kfree\<close> of a session job; freeing a dangling pointer is a memory fault.\<close>

definition destroy_session_job :: "heap \<Rightarrow> ptr \<Rightarrow> (int \<times> heap) option" where
  "destroy_session_job h job =
     (if job = NULL then Some (map_errcode AIPU_ERRCODE_INTERNAL_NULLPTR, h)
      else case h_sjob h job of
             None \<Rightarrow> None
           | Some _ \<Rightarrow> Some (AIPU_ERRCODE_NO_ERROR, h\<lparr>h_sjob := (h_sjob h)(job := None)\<rparr>))"

definition is_session_all_jobs_end :: "aipu_session \<Rightarrow> bool" where
  "is_session_all_jobs_end session = (job_list session = [])"

definition is_session_all_buffers_freed :: "aipu_session \<Rightarrow> bool" where
  "is_session_all_buffers_freed session = (sbuf_list session = [])"

text \<open>Searches return the index of the first matching buffer.\<close>

fun find_buffer :: "(session_buf \<Rightarrow> bool) \<Rightarrow> session_buf list \<Rightarrow> nat option" where
  "find_buffer p [] = None"
| "find_buffer p (b # bs) = (if p b then Some 0 else map_option Suc (find_buffer p bs))"

definition find_buffer_bydesc_no_lock :: "aipu_session \<Rightarrow> buf_desc \<Rightarrow> nat option" where
  "find_buffer_bydesc_no_lock session d =
     find_buffer (\<lambda>b. ab_pa (sb_desc b) = bd_pa d \<and> ab_bytes (sb_desc b) = bd_bytes d) (sbuf_list session)"

text \<open>\<open>len\<close> is an \<open>int\<close>, sign-extended to 64 bits for the unsigned comparison.\<close>

definition find_buffer_byoffset_no_lock :: "aipu_session \<Rightarrow> u64 \<Rightarrow> 32 word \<Rightarrow> nat option" where
  "find_buffer_byoffset_no_lock session offset len =
     find_buffer (\<lambda>b. sb_dev_offset b = offset \<and> (scast len :: u64) \<le> ab_bytes (sb_desc b)) (sbuf_list session)"

subsection \<open>Creating and destroying sessions\<close>

definition aipu_create_session :: "kenv \<Rightarrow> heap \<Rightarrow> int \<Rightarrow> (int \<times> ptr \<times> heap) option" where
  "aipu_create_session e h pid =
     (if \<not> kz_session e then Some (- ENOMEM, NULL, h)
      else do {
        (queue, _) \<leftarrow> create_thread_wait_queue_no_lock e None 0;
        let session = \<lparr>user_pid = pid, sbuf_list = [], job_list = [],
              wait_queue_head = (case queue of None \<Rightarrow> None | Some _ \<Rightarrow> Some []),
              com_wait = init_waitqueue_head, single_thread_poll = 0\<rparr>;
        Some (0, h_next h, (put_session (h_next h) session h)\<lparr>h_next := h_next h + 1\<rparr>)
      })"

definition aipu_destroy_session :: "heap \<Rightarrow> ptr \<Rightarrow> (int \<times> heap) option" where
  "aipu_destroy_session h session =
     (if session = NULL then Some (map_errcode AIPU_ERRCODE_INTERNAL_NULLPTR, h)
      else do {
        s \<leftarrow> h_sess h session;
        if is_session_all_jobs_end s \<and> is_session_all_buffers_freed s
        then Some (AIPU_ERRCODE_NO_ERROR, h\<lparr>h_sess := (h_sess h)(session := None)\<rparr>)
        else Some (map_errcode AIPU_ERRCODE_INTERNAL_NULLPTR, h)
      })"

definition aipu_get_session_pid :: "aipu_session \<Rightarrow> int" where
  "aipu_get_session_pid session = user_pid session"

subsection \<open>Buffers of a session\<close>

definition aipu_session_add_buf ::
  "kenv \<Rightarrow> aipu_session \<Rightarrow> buf_request \<Rightarrow> aipu_buffer \<Rightarrow> int \<times> aipu_session \<times> buf_request" where
  "aipu_session_add_buf e session buf_req buf =
     (case create_session_buf e buf (ab_pa buf) of
        None \<Rightarrow> (map_errcode AIPU_ERRCODE_CREATE_KOBJ_ERR, session,
                 buf_req\<lparr>br_errcode := AIPU_ERRCODE_CREATE_KOBJ_ERR\<rparr>)
      | Some new_sbuf \<Rightarrow>
          (AIPU_ERRCODE_NO_ERROR, session\<lparr>sbuf_list := new_sbuf # sbuf_list session\<rparr>,
           buf_req\<lparr>br_desc := \<lparr>bd_pa = ab_pa buf, bd_dev_offset = ab_pa buf, bd_bytes = ab_bytes buf,
                               bd_region_id = ab_region_id buf\<rparr>,
                   br_errcode := AIPU_ERRCODE_NO_ERROR\<rparr>))"

definition aipu_session_detach_buf :: "aipu_session \<Rightarrow> buf_desc \<Rightarrow> int \<times> aipu_session" where
  "aipu_session_detach_buf session d =
     (case find_buffer_bydesc_no_lock session d of
        None \<Rightarrow> (map_errcode AIPU_ERRCODE_ITEM_NOT_FOUND, session)
      | Some i \<Rightarrow>
          (AIPU_ERRCODE_NO_ERROR,
           session\<lparr>sbuf_list := take i (sbuf_list session) @ drop (Suc i) (sbuf_list session)\<rparr>))"

text \<open>
  The mapping of a buffer. The answer of the mapping service is \<open>mmap_ret\<close> of the
  environment; the model also returns what was mapped: address and length.
\<close>

record vm_area_struct =
  vm_start :: u64
  vm_end :: u64
  vm_pgoff :: u64

definition aipu_session_mmap_buf ::
  "kenv \<Rightarrow> aipu_session \<Rightarrow> vm_area_struct \<Rightarrow> int \<times> aipu_session \<times> (u64 \<times> u64) option" where
  "aipu_session_mmap_buf e session vma =
     (let offset = vm_pgoff vma * PAGE_SIZE;
          len = ucast (vm_end vma - vm_start vma)
      in case find_buffer_byoffset_no_lock session offset len of
           None \<Rightarrow> (map_errcode AIPU_ERRCODE_ITEM_NOT_FOUND, session, None)
         | Some i \<Rightarrow>
             let buf = sbuf_list session ! i
             in if sb_map_num buf \<noteq> 0 then (map_errcode AIPU_ERRCODE_INVALID_OPS, session, None)
                else
                  let (ret, mapped) =
                        (if sb_type buf = mem_type_num AIPU_MEM_TYPE_CMA
                         then (mmap_ret e, Some (ab_pa (sb_desc buf), ab_bytes (sb_desc buf)))
                         else if sb_type buf = mem_type_num AIPU_MEM_TYPE_SRAM \<or>
                                 sb_type buf = mem_type_num AIPU_MEM_TYPE_RESERVED
                         then (mmap_ret e,
                               Some (push_bit PAGE_SHIFT (drop_bit PAGE_SHIFT (ab_pa (sb_desc buf))),
                                     vm_end vma - vm_start vma))
                         else (AIPU_ERRCODE_NO_ERROR, None))
                  in if ret = 0
                     then (ret, session\<lparr>sbuf_list := (sbuf_list session)[i := buf\<lparr>sb_map_num := sb_map_num buf + 1\<rparr>]\<rparr>,
                           mapped)
                     else (ret, session, None))"

definition aipu_get_session_sbuf_head :: "aipu_session \<Rightarrow> aipu_buffer option" where
  "aipu_get_session_sbuf_head session =
     (case sbuf_list session of [] \<Rightarrow> None | b # _ \<Rightarrow> Some (sb_desc b))"

text \<open>The \<open>while\<close> loop of \<open>aipu_mm_free_session_buffers\<close>: each round frees the first buffer
  and detaches it, so the list gets shorter.
\<close>

lemma find_buffer_SomeD: "find_buffer p bs = Some i \<Longrightarrow> i < length bs \<and> p (bs ! i) \<and> (\<forall>j < i. \<not> p (bs ! j))"
proof (induction bs arbitrary: i)
  case (Cons b bs)
  show ?case
  proof (cases "p b")
    case False
    with Cons.prems obtain j where "find_buffer p bs = Some j" "i = Suc j" by auto
    with Cons.IH [of j] False show ?thesis by (auto simp: nth_Cons split: nat.splits)
  qed (use Cons.prems in auto)
qed simp

lemma find_buffer_None_iff: "find_buffer p bs = None \<longleftrightarrow> (\<forall>b \<in> set bs. \<not> p b)"
  by (induction bs) auto

lemma detach_buf_shorter:
  "aipu_session_detach_buf s d = (0, s') \<Longrightarrow> length (sbuf_list s') < length (sbuf_list s)"
  by (auto simp: aipu_session_detach_buf_def find_buffer_bydesc_no_lock_def map_errcode_def errcode_defs
      errno_defs dest!: find_buffer_SomeD split: option.splits)

function aipu_mm_free_session_buffers ::
  "aipu_memory_manager \<Rightarrow> aipu_session \<Rightarrow> int \<times> aipu_memory_manager \<times> aipu_session" where
  "aipu_mm_free_session_buffers mm session =
     (case aipu_get_session_sbuf_head session of
        None \<Rightarrow> (0, mm, session)
      | Some buf \<Rightarrow>
          let desc = \<lparr>bd_pa = ab_pa buf, bd_dev_offset = 0, bd_bytes = ab_bytes buf, bd_region_id = 0\<rparr>;
              freed = aipu_mm_free mm desc
          in if fst freed \<noteq> 0 then (fst freed, snd freed, session)
             else let detached = aipu_session_detach_buf session desc
                  in if fst detached \<noteq> 0 then (fst detached, snd freed, snd detached)
                     else aipu_mm_free_session_buffers (snd freed) (snd detached))"
  by pat_completeness auto
termination
  by (relation "measure (\<lambda>(mm, session). length (sbuf_list session))")
     (auto intro!: detach_buf_shorter simp: prod_eq_iff)

declare aipu_mm_free_session_buffers.simps [simp del]

subsection \<open>Jobs of a session\<close>

definition aipu_session_add_job ::
  "kenv \<Rightarrow> heap \<Rightarrow> ptr \<Rightarrow> user_job \<Rightarrow> (ptr \<times> heap \<times> user_job) option" where
  "aipu_session_add_job e h session user_job =
     (if session = NULL
      then Some (NULL, h, user_job\<lparr>uj_errcode := AIPU_ERRCODE_INTERNAL_NULLPTR\<rparr>)
      else
        let (kern_job, h1) = create_session_job e h (uj_desc user_job)
        in if kern_job = NULL
           then Some (NULL, h1, user_job\<lparr>uj_errcode := AIPU_ERRCODE_CREATE_KOBJ_ERR\<rparr>)
           else do {
             s \<leftarrow> h_sess h1 session;
             (_, queues) \<leftarrow> create_thread_wait_queue_no_lock e (wait_queue_head s) (cur_tid e);
             Some (kern_job,
                   put_session session (s\<lparr>job_list := kern_job # job_list s, wait_queue_head := queues\<rparr>) h1,
                   user_job\<lparr>uj_errcode := AIPU_ERRCODE_NO_ERROR\<rparr>)
           })"

fun free_jobs :: "heap \<Rightarrow> ptr list \<Rightarrow> heap option" where
  "free_jobs h [] = Some h"
| "free_jobs h (cursor # rest) = do {
     (_, h') \<leftarrow> destroy_session_job h cursor;
     free_jobs h' rest
   }"

definition aipu_session_delete_jobs :: "heap \<Rightarrow> ptr \<Rightarrow> (int \<times> heap) option" where
  "aipu_session_delete_jobs h session =
     (if session = NULL then Some (map_errcode AIPU_ERRCODE_INTERNAL_NULLPTR, h)
      else do {
        s \<leftarrow> h_sess h session;
        h' \<leftarrow> free_jobs h (job_list s);
        Some (AIPU_ERRCODE_NO_ERROR, put_session session (s\<lparr>job_list := []\<rparr>) h')
      })"

text \<open>
  \<open>excep_flag\<close> is only logged: the source stores \<open>AIPU_EXCEP_NO_EXCEPTION\<close> in both cases.
\<close>

definition aipu_session_job_done :: "heap \<Rightarrow> ptr \<Rightarrow> ptr \<Rightarrow> int \<Rightarrow> heap option" where
  "aipu_session_job_done h session job excep_flag =
     (if session = NULL \<or> job = NULL then Some h
      else do {
        s \<leftarrow> h_sess h session;
        j \<leftarrow> h_sjob h job;
        let h1 = put_sjob job (j\<lparr>sj_state := AIPU_JOB_STATE_END,
                                  sj_exception_type := AIPU_EXCEP_NO_EXCEPTION\<rparr>) h;
        if single_thread_poll s \<noteq> 0
        then (case get_thread_wait_queue_no_lock (wait_queue_head s) (sj_uthread_id j) of
                None \<Rightarrow> Some h1
              | Some i \<Rightarrow>
                  let queues = the (wait_queue_head s);
                      q = (queues ! i)\<lparr>wq_p_wait := wake_up_interruptible (wq_p_wait (queues ! i))\<rparr>
                  in Some (put_session session (s\<lparr>wait_queue_head := Some (queues[i := q])\<rparr>) h1))
        else Some (put_session session (s\<lparr>com_wait := wake_up_interruptible (com_wait s)\<rparr>) h1)
      })"

text \<open>The jobs behind the list of a session; a dangling entry is a memory fault.\<close>

fun lookup_jobs :: "heap \<Rightarrow> ptr list \<Rightarrow> session_job list option" where
  "lookup_jobs h [] = Some []"
| "lookup_jobs h (p # ps) = do {
     j \<leftarrow> h_sjob h p;
     js \<leftarrow> lookup_jobs h ps;
     Some (j # js)
   }"

fun has_job_of :: "int \<Rightarrow> session_job list \<Rightarrow> bool" where
  "has_job_of uthread_id [] = False"
| "has_job_of uthread_id (j # js) = (if sj_uthread_id j = uthread_id then True else has_job_of uthread_id js)"

fun has_end_job :: "bool \<Rightarrow> int \<Rightarrow> session_job list \<Rightarrow> int" where
  "has_end_job wake_up_single uthread_id [] = 0"
| "has_end_job wake_up_single uthread_id (j # js) =
     (if sj_state j = AIPU_JOB_STATE_END then
        (if wake_up_single
         then (if sj_uthread_id j = uthread_id then 1 else has_end_job wake_up_single uthread_id js)
         else 1)
      else has_end_job wake_up_single uthread_id js)"

definition aipu_session_thread_has_end_job :: "heap \<Rightarrow> ptr \<Rightarrow> int \<Rightarrow> int option" where
  "aipu_session_thread_has_end_job h session uthread_id =
     (if session = NULL then Some 0
      else do {
        s \<leftarrow> h_sess h session;
        js \<leftarrow> lookup_jobs h (job_list s);
        Some (has_end_job (has_job_of uthread_id js) uthread_id js)
      })"

text \<open>
  The query loop: \<open>cnt\<close> is both \<open>poll_cnt\<close> and \<open>poll_iter\<close>, \<open>status\<close> the kernel array; a write
  beyond its end is a memory fault. Returns the heap, the jobs that stay in the list, the
  count and the array.
\<close>

definition job_selected :: "job_status_query \<Rightarrow> session_job \<Rightarrow> bool" where
  "job_selected q j \<longleftrightarrow>
     (job_id (sj_desc j) = jq_job_id q \<and> jq_get_single_job q \<noteq> 0 \<or> jq_get_single_job q = 0) \<and>
     sj_state j = AIPU_JOB_STATE_END"

definition status_of :: "int \<Rightarrow> session_job \<Rightarrow> job_status_desc" where
  "status_of pid j =
     \<lparr>js_job_id = job_id (sj_desc j), js_thread_id = word_of_int pid,
      js_state = (if sj_exception_type j = AIPU_EXCEP_NO_EXCEPTION
                  then AIPU_JOB_STATE_DONE else AIPU_JOB_STATE_EXCEPTION),
      js_pdata = sj_pdata j\<rparr>"

fun job_status_loop ::
  "int \<Rightarrow> job_status_query \<Rightarrow> heap \<Rightarrow> u32 \<Rightarrow> job_status_desc list \<Rightarrow> ptr list \<Rightarrow>
   (heap \<times> ptr list \<times> u32 \<times> job_status_desc list) option" where
  "job_status_loop pid q h cnt status [] = Some (h, [], cnt, status)"
| "job_status_loop pid q h cnt status (cursor # rest) =
     (if cnt = jq_max_cnt q then Some (h, cursor # rest, cnt, status)
      else do {
        j \<leftarrow> h_sjob h cursor;
        if job_selected q j
        then if unat cnt < length status
             then do {
               (_, h') \<leftarrow> destroy_session_job h cursor;
               let status' = status[unat cnt := status_of pid j];
               if jq_get_single_job q \<noteq> 0 then Some (h', rest, cnt + 1, status')
               else job_status_loop pid q h' (cnt + 1) status' rest
             }
             else None
        else do {
          (h', kept, cnt', status') \<leftarrow> job_status_loop pid q h cnt status rest;
          Some (h', cursor # kept, cnt', status')
        }
      })"

definition zero_status :: job_status_desc where
  "zero_status = \<lparr>js_job_id = 0, js_thread_id = 0, js_state = 0, js_pdata = zero_pdata\<rparr>"

text \<open>
  \<open>query_cnt\<close> is an \<open>int\<close>; a negative one asks \<open>kzalloc\<close> for nearly \<open>2 ^ 64\<close> bytes, which
  fails. The user array receives the first \<open>poll_cnt\<close> entries when \<open>copy_to_user\<close>
  copies everything; a partial copy leaves \<open>jq_status\<close> as it was in the model.
\<close>

definition aipu_session_get_job_status ::
  "kenv \<Rightarrow> heap \<Rightarrow> ptr \<Rightarrow> job_status_query \<Rightarrow> (int \<times> heap \<times> job_status_query) option" where
  "aipu_session_get_job_status e h session job_status =
     (if session = NULL then Some (AIPU_ERRCODE_NO_ERROR, h, job_status)
      else if jq_max_cnt job_status < 1
      then Some (map_errcode AIPU_ERRCODE_INVALID_ARGS, h, job_status\<lparr>jq_errcode := AIPU_ERRCODE_INVALID_ARGS\<rparr>)
      else
        let query_cnt = (if jq_get_single_job job_status \<noteq> 0 then 1 else sint (jq_max_cnt job_status))
        in if \<not> (kz_status e \<and> 0 \<le> query_cnt)
           then Some (map_errcode AIPU_ERRCODE_NO_MEMORY, h, job_status\<lparr>jq_errcode := AIPU_ERRCODE_NO_MEMORY\<rparr>)
           else do {
             s \<leftarrow> h_sess h session;
             (h1, kept, cnt, status) \<leftarrow>
               job_status_loop (user_pid s) job_status h 0 (replicate (nat query_cnt) zero_status) (job_list s);
             let h2 = put_session session (s\<lparr>job_list := kept\<rparr>) h1;
             let q = job_status\<lparr>jq_poll_cnt := cnt\<rparr>;
             if cnt = 0
             then Some (map_errcode AIPU_ERRCODE_ITEM_NOT_FOUND, h2, q\<lparr>jq_errcode := AIPU_ERRCODE_ITEM_NOT_FOUND\<rparr>)
             else if ctu_left e = 0
             then Some (0, h2, q\<lparr>jq_status := take (unat cnt) status, jq_errcode := AIPU_ERRCODE_NO_ERROR\<rparr>)
             else Some (ctu_left e, h2, q)
           })"

definition aipu_session_get_wait_queue :: "heap \<Rightarrow> ptr \<Rightarrow> int \<Rightarrow> nat option option" where
  "aipu_session_get_wait_queue h session uthread_id =
     (if session = NULL then Some None
      else do {
        s \<leftarrow> h_sess h session;
        Some (get_thread_wait_queue_no_lock (wait_queue_head s) uthread_id)
      })"

text \<open>The loop over the jobs stops at the first job of the thread, found or not its queue.\<close>

definition aipu_session_add_poll_wait_queue :: "heap \<Rightarrow> ptr \<Rightarrow> int \<Rightarrow> heap option" where
  "aipu_session_add_poll_wait_queue h session uthread_id =
     (if session = NULL then Some h
      else do {
        s \<leftarrow> h_sess h session;
        js \<leftarrow> lookup_jobs h (job_list s);
        let s1 = (if has_job_of uthread_id js
                  then (case get_thread_wait_queue_no_lock (wait_queue_head s) uthread_id of
                          None \<Rightarrow> s
                        | Some i \<Rightarrow>
                            let queues = the (wait_queue_head s);
                                q = (queues ! i)\<lparr>wq_p_wait := poll_wait (wq_p_wait (queues ! i))\<rparr>
                            in s\<lparr>wait_queue_head := Some (queues[i := q]), single_thread_poll := 1\<rparr>)
                  else s);
        Some (put_session session
                (if single_thread_poll s1 = 0 then s1\<lparr>com_wait := poll_wait (com_wait s1)\<rparr> else s1) h)
      })"

definition session_job_mark_sched :: "kenv \<Rightarrow> heap \<Rightarrow> ptr \<Rightarrow> heap option" where
  "session_job_mark_sched e h job =
     (if job = NULL then Some h
      else do {
        j \<leftarrow> h_sjob h job;
        Some (put_sjob job (j\<lparr>sj_sched_time := now_ns e\<rparr>) h)
      })"

definition session_job_mark_done :: "kenv \<Rightarrow> heap \<Rightarrow> ptr \<Rightarrow> heap option" where
  "session_job_mark_done e h job =
     (if job = NULL then Some h
      else do {
        j \<leftarrow> h_sjob h job;
        Some (put_sjob job (j\<lparr>sj_done_time := now_ns e,
                              sj_pdata := (sj_pdata j)\<lparr>execution_time_ns := now_ns e - sj_sched_time j\<rparr>\<rparr>) h)
      })"

definition is_session_job_prof_enabled :: "heap \<Rightarrow> ptr \<Rightarrow> u32 option" where
  "is_session_job_prof_enabled h job =
     (if job = NULL then Some 0
      else do {
        j \<leftarrow> h_sjob h job;
        Some (enable_prof (sj_desc j))
      })"

subsection \<open>The invariant of the session heap\<close>

text \<open>
  Of one session, over the session jobs \<open>m\<close>: its job list has no duplicates and no
  dangling entries, every job's thread has a wait queue, and no buffer is mapped twice.
\<close>

definition session_wf :: "(ptr \<Rightarrow> session_job option) \<Rightarrow> aipu_session \<Rightarrow> bool" where
  "session_wf m s \<longleftrightarrow>
     distinct (job_list s) \<and>
     (\<exists>qs. wait_queue_head s = Some qs \<and> waitqs_wf qs \<and>
        (\<forall>p \<in> set (job_list s). \<exists>j. m p = Some j \<and> sj_uthread_id j \<in> wq_uthread_id ` set qs)) \<and>
     (\<forall>b \<in> set (sbuf_list s). sb_map_num b \<in> {0, 1})"

text \<open>
  Of the heap: addresses are in range, sessions are well-formed, every session job is in
  the list of exactly one session.
\<close>

definition heap_wf :: "heap \<Rightarrow> bool" where
  "heap_wf h \<longleftrightarrow>
     0 < h_next h \<and>
     (\<forall>p. (h_sess h p \<noteq> None \<or> h_sjob h p \<noteq> None) \<longrightarrow> 0 < p \<and> p < h_next h) \<and>
     (\<forall>sp s. h_sess h sp = Some s \<longrightarrow> session_wf (h_sjob h) s) \<and>
     (\<forall>sp sp' s s'. h_sess h sp = Some s \<longrightarrow> h_sess h sp' = Some s' \<longrightarrow> sp \<noteq> sp' \<longrightarrow>
        set (job_list s) \<inter> set (job_list s') = {}) \<and>
     (\<forall>p. h_sjob h p \<noteq> None \<longrightarrow> (\<exists>sp s. h_sess h sp = Some s \<and> p \<in> set (job_list s)))"

lemma heap_wfD:
  assumes "heap_wf h"
  shows "0 < h_next h" "h_sess h p \<noteq> None \<Longrightarrow> 0 < p \<and> p < h_next h"
    and "h_sjob h p \<noteq> None \<Longrightarrow> 0 < p \<and> p < h_next h"
    and "h_sess h sp = Some s \<Longrightarrow> session_wf (h_sjob h) s"
    and "h_sess h sp = Some s \<Longrightarrow> h_sess h sp' = Some s' \<Longrightarrow> sp \<noteq> sp' \<Longrightarrow> x \<in> set (job_list s) \<Longrightarrow>
      x \<notin> set (job_list s')"
    and "h_sjob h p \<noteq> None \<Longrightarrow> \<exists>sp s. h_sess h sp = Some s \<and> p \<in> set (job_list s)"
  using assms unfolding heap_wf_def by blast+

lemma heap_wf_null [simp]: "heap_wf h \<Longrightarrow> h_sess h 0 = None" "heap_wf h \<Longrightarrow> h_sjob h 0 = None"
  using heap_wfD(2,3) [of h 0] by (fastforce simp: not_None_eq)+

lemma heap_wf_fresh:
  "heap_wf h \<Longrightarrow> h_next h \<le> p \<Longrightarrow> h_sess h p = None"
  "heap_wf h \<Longrightarrow> h_next h \<le> p \<Longrightarrow> h_sjob h p = None"
  using heap_wfD(2,3) [of h p] by fastforce+

lemma session_wf_job:
  "session_wf m s \<Longrightarrow> p \<in> set (job_list s) \<Longrightarrow> \<exists>j. m p = Some j"
  by (auto simp: session_wf_def)

lemma session_wf_cong:
  "session_wf m s \<Longrightarrow> (\<And>p. p \<in> set (job_list s) \<Longrightarrow> m' p = m p) \<Longrightarrow> session_wf m' s"
  by (auto simp: session_wf_def)

text \<open>Every operation on one session is an instance of this update: it replaces the session,
  adds fresh jobs to its list, changes or frees jobs of its list, and nothing else.
\<close>

lemma heap_wf_update:
  assumes wf: "heap_wf h" and s: "h_sess h sp = Some s"
    and h': "h_sess h' = (h_sess h)(sp \<mapsto> s')" "h_next h \<le> h_next h'"
    and new: "\<And>p. p \<in> set (job_list s') \<Longrightarrow> p \<in> set (job_list s) \<or> h_sjob h p = None \<and> 0 < p \<and> p < h_next h'"
    and same: "\<And>p. p \<notin> set (job_list s) \<Longrightarrow> p \<notin> set (job_list s') \<Longrightarrow> h_sjob h' p = h_sjob h p"
    and freed: "\<And>p. p \<in> set (job_list s) \<Longrightarrow> p \<notin> set (job_list s') \<Longrightarrow> h_sjob h' p = None"
    and wf': "session_wf (h_sjob h') s'"
  shows "heap_wf h'"
proof -
  note d = heap_wfD [OF wf]
  have ws: "session_wf (h_sjob h) s" by (rule d(4) [OF s])
  have mem: "h_sjob h p \<noteq> None" if "p \<in> set (job_list t)" "h_sess h tp = Some t" for p tp t
    using session_wf_job [OF d(4) [OF that(2)] that(1)] by auto
  have other: "p \<notin> set (job_list s) \<and> p \<notin> set (job_list s')"
    if t: "h_sess h tp = Some t" "tp \<noteq> sp" "p \<in> set (job_list t)" for tp t p
    using d(5) [OF t(1) s t(2,3)] new [of p] mem [OF t(3,1)] by auto
  have rng: "0 < p \<and> p < h_next h'" if "h_sess h' p \<noteq> None \<or> h_sjob h' p \<noteq> None" for p
  proof (cases "h_sess h p \<noteq> None \<or> h_sjob h p \<noteq> None")
    case True
    then show ?thesis using d(2,3) [of p] h'(2) by auto
  next
    case False
    then have "h_sjob h' p \<noteq> None" using that s h'(1) by (auto split: if_splits)
    then have "p \<in> set (job_list s')" using False same [of p] freed [of p] by fastforce
    then show ?thesis using new [of p] mem [OF _ s, of p] False by fastforce
  qed
  have swf: "session_wf (h_sjob h') t" if t: "h_sess h' tp = Some t" for tp t
  proof (cases "tp = sp")
    case True
    then show ?thesis using t h'(1) wf' by simp
  next
    case False
    then have t': "h_sess h tp = Some t" using t h'(1) by simp
    show ?thesis
      by (rule session_wf_cong [OF d(4) [OF t']]) (use other [OF t' False] same in blast)
  qed
  have disj: "set (job_list t) \<inter> set (job_list u) = {}"
    if t: "h_sess h' tp = Some t" and u: "h_sess h' up = Some u" and ne: "tp \<noteq> up" for tp up t u
  proof (cases "tp = sp \<or> up = sp")
    case True
    then show ?thesis using t u ne h'(1) other by (auto split: if_splits)
  next
    case False
    then show ?thesis using t u ne h'(1) d(5) [of tp t up u] by auto
  qed
  have own: "\<exists>tp t. h_sess h' tp = Some t \<and> p \<in> set (job_list t)" if p: "h_sjob h' p \<noteq> None" for p
  proof (cases "p \<in> set (job_list s')")
    case True
    then show ?thesis using h'(1) by auto
  next
    case False
    then have "p \<notin> set (job_list s)" using p freed by auto
    then have "h_sjob h p \<noteq> None" using same False p by auto
    then obtain tp t where t: "h_sess h tp = Some t" "p \<in> set (job_list t)" using d(6) by blast
    then have "tp \<noteq> sp" using s \<open>p \<notin> set (job_list s)\<close> by auto
    then show ?thesis using t h'(1) by (intro exI [of _ tp] exI [of _ t]) simp
  qed
  have "0 < h_next h'" using d(1) h'(2) by linarith
  then show ?thesis
    unfolding heap_wf_def by (intro conjI allI impI) 
      (assumption | erule rng [THEN conjunct1] rng [THEN conjunct2] swf own | erule (2) disj)+
qed

lemma heap_wf_empty: "heap_wf empty_heap"
  by (simp add: heap_wf_def empty_heap_def)

subsection \<open>The query loop\<close>

text \<open>
  The reference: the jobs the query reports are the first ones of the list, in list
  order, that it selects, at most \<open>k\<close> of them.
\<close>

definition job_at :: "heap \<Rightarrow> ptr \<Rightarrow> session_job" where
  "job_at h p = the (h_sjob h p)"

definition reported :: "job_status_query \<Rightarrow> heap \<Rightarrow> nat \<Rightarrow> ptr list \<Rightarrow> ptr list" where
  "reported q h k ps = take k (filter (\<lambda>p. job_selected q (job_at h p)) ps)"

definition forget_jobs :: "ptr set \<Rightarrow> heap \<Rightarrow> heap" where
  "forget_jobs ps h = h\<lparr>h_sjob := (\<lambda>p. if p \<in> ps then None else h_sjob h p)\<rparr>"

lemma forget_jobs_simps [simp]:
  "forget_jobs {} h = h" "h_sess (forget_jobs A h) = h_sess h" "h_next (forget_jobs A h) = h_next h"
  "h_sjob (forget_jobs A h) p = (if p \<in> A then None else h_sjob h p)"
  "forget_jobs A (forget_jobs B h) = forget_jobs (A \<union> B) h"
  by (auto simp: forget_jobs_def fun_eq_iff)

lemma destroy_session_job_forget:
  "p \<noteq> 0 \<Longrightarrow> h_sjob h p = Some j \<Longrightarrow> destroy_session_job h p = Some (0, forget_jobs {p} h)"
  by (auto simp: destroy_session_job_def forget_jobs_def errcode_defs fun_upd_def)

lemma free_jobs_forget:
  "distinct ps \<Longrightarrow> \<forall>p \<in> set ps. p \<noteq> 0 \<and> h_sjob h p \<noteq> None \<Longrightarrow> free_jobs h ps = Some (forget_jobs (set ps) h)"
proof (induction ps arbitrary: h)
  case (Cons p ps)
  then obtain j where j: "p \<noteq> 0" "h_sjob h p = Some j" by auto
  have "free_jobs (forget_jobs {p} h) ps = Some (forget_jobs (set ps) (forget_jobs {p} h))"
    using Cons.prems by (intro Cons.IH) auto
  then show ?case by (simp add: destroy_session_job_forget [OF j])
qed simp

lemma job_status_loop_spec:
  assumes "distinct ps" "\<forall>p \<in> set ps. p \<noteq> 0 \<and> h_sjob h p \<noteq> None"
    and "unat cnt \<le> unat (jq_max_cnt q)" "jq_get_single_job q \<noteq> 0 \<longrightarrow> cnt < jq_max_cnt q"
    and k: "k = (if jq_get_single_job q \<noteq> 0 then 1 else unat (jq_max_cnt q) - unat cnt)"
    and "unat cnt + k \<le> length status"
  shows "\<exists>status'. job_status_loop pid q h cnt status ps =
      Some (forget_jobs (set (reported q h k ps)) h, filter (\<lambda>p. p \<notin> set (reported q h k ps)) ps,
        cnt + of_nat (length (reported q h k ps)), status') \<and>
    take (unat cnt + length (reported q h k ps)) status' =
      take (unat cnt) status @ map (\<lambda>p. status_of pid (job_at h p)) (reported q h k ps) \<and>
    length status' = length status"
  using assms
proof (induction ps arbitrary: h cnt status k)
  case Nil
  then show ?case by (simp add: reported_def)
next
  case (Cons c rest)
  obtain j where j: "h_sjob h c = Some j" "c \<noteq> 0" using Cons.prems(2) by auto
  have ja: "job_at h c = j" by (simp add: job_at_def j)
  show ?case
  proof (cases "cnt = jq_max_cnt q")
    case True
    then have "k = 0" using Cons.prems by auto
    then show ?thesis using True by (simp add: reported_def)
  next
    case False
    then have lt: "unat cnt < unat (jq_max_cnt q)"
      using Cons.prems(3) by (metis le_neq_implies_less word_unat_eq_iff)
    have kpos: "0 < k" using lt Cons.prems(5) by (auto split: if_splits)
    show ?thesis
    proof (cases "job_selected q j")
      case False
      have rp: "reported q h k (c # rest) = reported q h k rest" using False by (simp add: reported_def ja)
      have nc: "c \<notin> set (reported q h k rest)"
        using Cons.prems(1) by (auto simp: reported_def dest: in_set_takeD)
      have "distinct rest" "\<forall>p \<in> set rest. p \<noteq> 0 \<and> h_sjob h p \<noteq> None" using Cons.prems by auto
      from Cons.IH [OF this Cons.prems(3-6)] show ?thesis
        using False \<open>cnt \<noteq> jq_max_cnt q\<close> j rp nc by auto
    next
      case True
      have room: "unat cnt < length status" using kpos Cons.prems(6) by simp
      let ?st = "status[unat cnt := status_of pid j]"
      have step: "job_status_loop pid q h cnt status (c # rest) =
          (if jq_get_single_job q \<noteq> 0 then Some (forget_jobs {c} h, rest, cnt + 1, ?st)
           else job_status_loop pid q (forget_jobs {c} h) (cnt + 1) ?st rest)"
        using True \<open>cnt \<noteq> jq_max_cnt q\<close> j room by (simp add: destroy_session_job_forget)
      have tk: "take (Suc (unat cnt)) ?st = take (unat cnt) status @ [status_of pid j]"
        using room by (simp add: take_Suc_conv_app_nth)
      show ?thesis
      proof (cases "jq_get_single_job q \<noteq> 0")
        case single: True
        have rp: "reported q h k (c # rest) = [c]"
          using single True Cons.prems(5) by (simp add: reported_def ja)
        have "filter (\<lambda>p. p \<noteq> c) rest = rest" using Cons.prems(1) by (auto simp: filter_id_conv)
        then show ?thesis using step single rp tk ja by (simp add: ja)
      next
        case multi: False
        let ?h = "forget_jobs {c} h"
        have c1: "unat (cnt + 1) = Suc (unat cnt)"
        proof -
          have "unat (jq_max_cnt q) < 2 ^ LENGTH(32)" by (rule unsigned_less)
          then have "unat cnt + 1 < 2 ^ LENGTH(32)" using lt by linarith
          then show ?thesis by (simp add: unat_word_ariths)
        qed
        have d: "distinct rest" "\<forall>p \<in> set rest. p \<noteq> 0 \<and> h_sjob ?h p \<noteq> None" using Cons.prems(1,2) by auto
        have pre: "unat (cnt + 1) \<le> unat (jq_max_cnt q)" "jq_get_single_job q \<noteq> 0 \<longrightarrow> cnt + 1 < jq_max_cnt q"
          "k - 1 = (if jq_get_single_job q \<noteq> 0 then 1 else unat (jq_max_cnt q) - unat (cnt + 1))"
          "unat (cnt + 1) + (k - 1) \<le> length ?st"
          using c1 lt multi Cons.prems(5,6) by auto
        have jr: "job_at ?h p = job_at h p" if "p \<in> set rest" for p
          using that Cons.prems(1) by (auto simp: job_at_def)
        then have "filter (\<lambda>p. job_selected q (job_at ?h p)) rest = filter (\<lambda>p. job_selected q (job_at h p)) rest"
          by (intro filter_cong) auto
        then have rr: "reported q ?h (k - 1) rest = reported q h (k - 1) rest" by (simp add: reported_def)
        have rp: "reported q h k (c # rest) = c # reported q h (k - 1) rest"
          using True kpos by (cases k) (simp_all add: reported_def ja)
        have sub: "set (reported q h (k - 1) rest) \<subseteq> set rest"
          by (auto simp: reported_def dest: in_set_takeD)
        have mp: "map (\<lambda>p. status_of pid (job_at ?h p)) (reported q h (k - 1) rest) =
            map (\<lambda>p. status_of pid (job_at h p)) (reported q h (k - 1) rest)"
          using jr sub by (intro map_cong) auto
        have fl: "filter (\<lambda>p. p \<notin> set (reported q h (k - 1) rest)) rest =
            filter (\<lambda>p. p \<noteq> c \<and> p \<notin> set (reported q h (k - 1) rest)) rest"
          using Cons.prems(1) by (intro filter_cong) auto
        from Cons.IH [OF d pre, unfolded rr mp]
        show ?thesis
          using step multi rp c1 tk fl ja by (auto simp: add.commute add.left_commute)
      qed
    qed
  qed
qed

subsection \<open>Every operation keeps the invariant\<close>

lemma put_simps [simp]:
  "h_sess (put_session sp s h) = (h_sess h)(sp \<mapsto> s)" "h_sjob (put_session sp s h) = h_sjob h"
  "h_next (put_session sp s h) = h_next h"
  "h_sess (put_sjob p j h) = h_sess h" "h_sjob (put_sjob p j h) = (h_sjob h)(p \<mapsto> j)"
  "h_next (put_sjob p j h) = h_next h"
  by (simp_all add: put_session_def put_sjob_def)

lemma create_session_effect:
  assumes wf: "heap_wf h" and res: "aipu_create_session e h pid = Some (ret, sp, h')"
  shows "heap_wf h'" and "ret = 0 \<Longrightarrow> sp \<noteq> 0 \<and> h_sess h sp = None \<and> h_sjob h' = h_sjob h \<and>
      (\<exists>s. h_sess h' = (h_sess h)(sp \<mapsto> s) \<and> user_pid s = pid \<and> sbuf_list s = [] \<and> job_list s = [] \<and>
         single_thread_poll s = 0)"
    and "ret \<noteq> 0 \<Longrightarrow> sp = 0 \<and> h' = h"
proof -
  note d = heap_wfD [OF wf]
  have "heap_wf h' \<and> (ret = 0 \<longrightarrow> sp \<noteq> 0 \<and> h_sess h sp = None \<and> h_sjob h' = h_sjob h \<and>
      (\<exists>s. h_sess h' = (h_sess h)(sp \<mapsto> s) \<and> user_pid s = pid \<and> sbuf_list s = [] \<and> job_list s = [] \<and>
         single_thread_poll s = 0)) \<and> (ret \<noteq> 0 \<longrightarrow> sp = 0 \<and> h' = h)"
  proof (cases "kz_session e")
    case False
    then show ?thesis using res wf by (auto simp: aipu_create_session_def errno_defs)
  next
    case True
    then obtain s where s: "ret = 0" "sp = h_next h" "h_sess h' = (h_sess h)(sp \<mapsto> s)" "h_sjob h' = h_sjob h"
      "h_next h' = Suc (h_next h)" "user_pid s = pid" "sbuf_list s = []" "job_list s = []"
      "single_thread_poll s = 0" "wait_queue_head s = Some []"
      using res by (auto simp: aipu_create_session_def create_thread_wait_queue_no_lock_def
          get_thread_wait_queue_no_lock_def bind_eq_Some_conv Let_def)
    have sw: "session_wf m s" for m using s by (simp add: session_wf_def waitqs_wf_def)
    have fr: "h_sess h sp = None" "h_sjob h sp = None" using heap_wf_fresh [OF wf, of sp] s(2) by auto
    have "heap_wf h'"
      unfolding heap_wf_def
    proof (intro conjI allI impI)
      show "0 < h_next h'" using s by simp
      fix p assume "h_sess h' p \<noteq> None \<or> h_sjob h' p \<noteq> None"
      then show "0 < p" "p < h_next h'"
        using d(1) d(2,3) [of p] s(2-5) by (cases "p = sp"; fastforce)+
    next
      fix tp t assume "h_sess h' tp = Some t"
      then show "session_wf (h_sjob h') t" using s(3,4) sw d(4) by (auto split: if_splits)
    next
      fix tp up t u assume "h_sess h' tp = Some t" "h_sess h' up = Some u" "tp \<noteq> up"
      then show "set (job_list t) \<inter> set (job_list u) = {}"
        using s(3,8) d(5) [of tp t up u] by (auto split: if_splits)
    next
      fix p assume "h_sjob h' p \<noteq> None"
      then have "h_sjob h p \<noteq> None" using s(4) by simp
      then obtain tp t where t: "h_sess h tp = Some t" "p \<in> set (job_list t)" using d(6) by blast
      then have "tp \<noteq> sp" using fr by auto
      then show "\<exists>sp s. h_sess h' sp = Some s \<and> p \<in> set (job_list s)" using t s(3) by (intro exI [of _ tp]) auto
    qed
    moreover have "sp \<noteq> 0" using s(2) d(1) by simp
    ultimately show ?thesis using s fr by auto
  qed
  then show "heap_wf h'" "ret = 0 \<Longrightarrow> sp \<noteq> 0 \<and> h_sess h sp = None \<and> h_sjob h' = h_sjob h \<and>
      (\<exists>s. h_sess h' = (h_sess h)(sp \<mapsto> s) \<and> user_pid s = pid \<and> sbuf_list s = [] \<and> job_list s = [] \<and>
         single_thread_poll s = 0)" "ret \<noteq> 0 \<Longrightarrow> sp = 0 \<and> h' = h" by blast+
qed

lemma destroy_session_wf:
  assumes wf: "heap_wf h" and res: "aipu_destroy_session h sp = Some (ret, h')"
  shows "heap_wf h'"
proof (cases "h' = h")
  case False
  note d = heap_wfD [OF wf]
  obtain s where s: "h_sess h sp = Some s" "job_list s = []" "h' = h\<lparr>h_sess := (h_sess h)(sp := None)\<rparr>"
    using res False by (auto simp: aipu_destroy_session_def is_session_all_jobs_end_def
        bind_eq_Some_conv split: if_splits)
  have own: "\<exists>tp t. tp \<noteq> sp \<and> h_sess h tp = Some t \<and> p \<in> set (job_list t)" if "h_sjob h p \<noteq> None" for p
    using d(6) [OF that] s(1,2) by force
  show ?thesis unfolding heap_wf_def
  proof (intro conjI allI impI)
    show "0 < h_next h'" using d(1) s by simp
    fix p assume "h_sess h' p \<noteq> None \<or> h_sjob h' p \<noteq> None"
    then show "0 < p" "p < h_next h'" using d(2,3) [of p] s by (auto split: if_splits)
  next
    fix tp t assume "h_sess h' tp = Some t"
    then show "session_wf (h_sjob h') t" using s d(4) by (auto split: if_splits)
  next
    fix tp up t u assume "h_sess h' tp = Some t" "h_sess h' up = Some u" "tp \<noteq> up"
    then show "set (job_list t) \<inter> set (job_list u) = {}"
      using s(3) d(5) [of tp t up u] by (auto split: if_splits)
  next
    fix p assume "h_sjob h' p \<noteq> None"
    then have "h_sjob h p \<noteq> None" using s by simp
    from own [OF this] show "\<exists>sp s. h_sess h' sp = Some s \<and> p \<in> set (job_list s)" using s by auto
  qed
qed (use wf in simp)

text \<open>Changing only the buffers of a session, or its wait queues and polling state.\<close>

lemma put_session_wf:
  assumes wf: "heap_wf h" and s: "h_sess h sp = Some s" and jl: "job_list s' = job_list s"
    and wf': "session_wf (h_sjob h) s'"
  shows "heap_wf (put_session sp s' h)"
  by (rule heap_wf_update [OF wf s, of _ s']) (use jl wf' in auto)

text \<open>Changing a session job without moving it to another thread.\<close>

lemma put_sjob_wf:
  assumes wf: "heap_wf h" and j: "h_sjob h p = Some j" and t: "sj_uthread_id j' = sj_uthread_id j"
  shows "heap_wf (put_sjob p j' h)"
proof -
  obtain sp s where s: "h_sess h sp = Some s" "p \<in> set (job_list s)" using heap_wfD(6) [OF wf, of p] j by auto
  have w: "session_wf ((h_sjob h)(p \<mapsto> j')) s"
    using heap_wfD(4) [OF wf s(1)] j t unfolding session_wf_def by fastforce
  show ?thesis
    by (rule heap_wf_update [OF wf s(1), of _ s]) (use s w in \<open>auto simp: fun_upd_triv\<close>)
qed

lemma session_wf_qs:
  assumes "session_wf m s"
  obtains qs where "wait_queue_head s = Some qs" "waitqs_wf qs"
    "\<And>p. p \<in> set (job_list s) \<Longrightarrow> \<exists>j. m p = Some j \<and> sj_uthread_id j \<in> wq_uthread_id ` set qs"
  using assms by (auto simp: session_wf_def)

lemma add_job_effect:
  assumes wf: "heap_wf h" and s: "h_sess h sp = Some s"
    and res: "aipu_session_add_job e h sp uj = Some (jp, h', uj')"
  shows "heap_wf h'" and "jp = 0 \<Longrightarrow> h' = h \<and> uj_errcode uj' = AIPU_ERRCODE_CREATE_KOBJ_ERR"
    and "jp \<noteq> 0 \<Longrightarrow> jp = h_next h \<and> h_sjob h jp = None \<and> uj_errcode uj' = AIPU_ERRCODE_NO_ERROR \<and>
      h_sjob h' = (h_sjob h)(jp \<mapsto> init_session_job e (Some (uj_desc uj))) \<and>
      (\<exists>qs. h_sess h' = (h_sess h)(sp \<mapsto> s\<lparr>job_list := jp # job_list s, wait_queue_head := Some qs\<rparr>))"
proof -
  have spn: "sp \<noteq> 0" using heap_wf_null(1) [OF wf] s by (cases sp) auto
  have "heap_wf h' \<and> (jp = 0 \<longrightarrow> h' = h \<and> uj_errcode uj' = AIPU_ERRCODE_CREATE_KOBJ_ERR) \<and>
    (jp \<noteq> 0 \<longrightarrow> jp = h_next h \<and> h_sjob h jp = None \<and> uj_errcode uj' = AIPU_ERRCODE_NO_ERROR \<and>
      h_sjob h' = (h_sjob h)(jp \<mapsto> init_session_job e (Some (uj_desc uj))) \<and>
      (\<exists>qs. h_sess h' = (h_sess h)(sp \<mapsto> s\<lparr>job_list := jp # job_list s, wait_queue_head := Some qs\<rparr>)))"
  proof (cases "kz_sjob e")
    case False
    then show ?thesis using res spn wf
      by (auto simp: aipu_session_add_job_def create_session_job_def)
  next
    case True
    have nx: "h_next h \<noteq> 0" using heap_wfD(1) [OF wf] by simp
    note fr = heap_wf_fresh [OF wf order_refl]
    have sw: "session_wf (h_sjob h) s" by (rule heap_wfD(4) [OF wf s])
    obtain qs where qs: "wait_queue_head s = Some qs" "waitqs_wf qs"
      and own: "\<And>p. p \<in> set (job_list s) \<Longrightarrow> \<exists>j. h_sjob h p = Some j \<and> sj_uthread_id j \<in> wq_uthread_id ` set qs"
      using session_wf_qs [OF sw] by blast
    let ?p = "h_next h" and ?j = "init_session_job e (Some (uj_desc uj))"
    obtain q qs' where c: "create_thread_wait_queue_no_lock e (Some qs) (cur_tid e) = Some (q, qs')"
      and out: "jp = ?p" "uj' = uj\<lparr>uj_errcode := AIPU_ERRCODE_NO_ERROR\<rparr>"
        "h' = put_session sp (s\<lparr>job_list := ?p # job_list s, wait_queue_head := qs'\<rparr>)
               ((put_sjob ?p ?j h)\<lparr>h_next := ?p + 1\<rparr>)"
      using res True nx spn s qs
      by (auto simp: aipu_session_add_job_def create_session_job_def Let_def bind_eq_Some_conv)
    obtain qs2 where qs2: "qs' = Some qs2"
      using c by (auto simp: create_thread_wait_queue_no_lock_def bind_eq_Some_conv Let_def split: option.splits)
    note ce = create_wait_queue_effect [OF qs(2) c [unfolded qs2]]
    let ?s' = "s\<lparr>job_list := ?p # job_list s, wait_queue_head := Some qs2\<rparr>"
    have pn: "?p \<notin> set (job_list s)" using session_wf_job [OF sw] fr by force
    have jt: "sj_uthread_id ?j = cur_tid e" by (simp add: init_session_job_def)
    have hm: "h_sjob h' = (h_sjob h)(?p \<mapsto> ?j)" using out by simp
    have own': "\<exists>j. h_sjob h' p = Some j \<and> sj_uthread_id j \<in> wq_uthread_id ` set qs2"
      if "p \<in> set (?p # job_list s)" for p
    proof (cases "p = ?p")
      case True
      then show ?thesis unfolding hm ce(2) by (simp add: jt)
    next
      case False
      then show ?thesis using own [of p] that unfolding hm ce(2) by auto
    qed
    have w': "session_wf (h_sjob h') ?s'"
      using sw pn ce(1) own' by (auto simp: session_wf_def)
    have "heap_wf h'"
      by (rule heap_wf_update [OF wf s, of _ ?s']) (use out qs2 w' fr nx pn in auto)
    then show ?thesis using out qs2 fr nx by auto
  qed
  then show "heap_wf h'" "jp = 0 \<Longrightarrow> h' = h \<and> uj_errcode uj' = AIPU_ERRCODE_CREATE_KOBJ_ERR"
    "jp \<noteq> 0 \<Longrightarrow> jp = h_next h \<and> h_sjob h jp = None \<and> uj_errcode uj' = AIPU_ERRCODE_NO_ERROR \<and>
      h_sjob h' = (h_sjob h)(jp \<mapsto> init_session_job e (Some (uj_desc uj))) \<and>
      (\<exists>qs. h_sess h' = (h_sess h)(sp \<mapsto> s\<lparr>job_list := jp # job_list s, wait_queue_head := Some qs\<rparr>))"
    by blast+
qed

lemma session_null: "heap_wf h \<Longrightarrow> h_sess h sp = Some s \<Longrightarrow> sp \<noteq> 0"
  using heap_wf_null(1) [of h] by (cases sp) auto

lemma session_jobs_live:
  assumes "heap_wf h" "h_sess h sp = Some s"
  shows "distinct (job_list s)" "\<forall>p \<in> set (job_list s). p \<noteq> 0 \<and> h_sjob h p \<noteq> None"
proof -
  have w: "session_wf (h_sjob h) s" using heap_wfD(4) assms by blast
  then show "distinct (job_list s)" by (simp add: session_wf_def)
  show "\<forall>p \<in> set (job_list s). p \<noteq> 0 \<and> h_sjob h p \<noteq> None"
    using session_wf_job [OF w] heap_wfD(3) [OF assms(1)] by fastforce
qed

text \<open>Dropping jobs from the list and the heap at once.\<close>

lemma drop_jobs_wf:
  assumes wf: "heap_wf h" and s: "h_sess h sp = Some s" and A: "A \<subseteq> set (job_list s)"
  shows "heap_wf (put_session sp (s\<lparr>job_list := filter (\<lambda>p. p \<notin> A) (job_list s)\<rparr>) (forget_jobs A h))"
proof -
  have sw: "session_wf (h_sjob h) s" using heap_wfD(4) wf s by blast
  let ?s' = "s\<lparr>job_list := filter (\<lambda>p. p \<notin> A) (job_list s)\<rparr>"
  have "session_wf (h_sjob (forget_jobs A h)) ?s'"
    using sw by (fastforce simp: session_wf_def)
  then show ?thesis
    by (intro heap_wf_update [OF wf s, of _ ?s']) (use A in auto)
qed

lemma delete_jobs_effect:
  assumes wf: "heap_wf h" and s: "h_sess h sp = Some s"
  shows "\<exists>h'. aipu_session_delete_jobs h sp = Some (0, h') \<and> heap_wf h' \<and>
    h_sess h' = (h_sess h)(sp \<mapsto> s\<lparr>job_list := []\<rparr>) \<and>
    h_sjob h' = (\<lambda>p. if p \<in> set (job_list s) then None else h_sjob h p)"
proof -
  have "aipu_session_delete_jobs h sp =
      Some (0, put_session sp (s\<lparr>job_list := filter (\<lambda>p. p \<notin> set (job_list s)) (job_list s)\<rparr>)
        (forget_jobs (set (job_list s)) h))"
    using s session_null [OF wf s] free_jobs_forget [OF session_jobs_live [OF wf s]]
    by (simp add: aipu_session_delete_jobs_def errcode_defs)
  with drop_jobs_wf [OF wf s order_refl] show ?thesis
    by (intro exI conjI) (assumption, assumption, simp_all add: fun_eq_iff)
qed

lemma sint_nonneg_uint: "0 \<le> sint x \<Longrightarrow> sint x = uint x" for x :: u32
  using sint_lt [of x] unfolding uint_sint by (simp add: take_bit_int_eq_self)

lemma get_job_status_effect:
  assumes wf: "heap_wf h" and s: "h_sess h sp = Some s" and mx: "1 \<le> jq_max_cnt q"
    and kz: "kz_status e" and ok: "jq_get_single_job q \<noteq> 0 \<or> 0 \<le> sint (jq_max_cnt q)"
    and k: "k = (if jq_get_single_job q \<noteq> 0 then 1 else unat (jq_max_cnt q))"
    and r: "r = reported q h k (job_list s)"
  shows "\<exists>h' q'. aipu_session_get_job_status e h sp q =
      Some (if r = [] then map_errcode AIPU_ERRCODE_ITEM_NOT_FOUND else ctu_left e, h', q') \<and>
    h' = put_session sp (s\<lparr>job_list := filter (\<lambda>p. p \<notin> set r) (job_list s)\<rparr>) (forget_jobs (set r) h) \<and>
    unat (jq_poll_cnt q') = length r \<and>
    (r \<noteq> [] \<longrightarrow> ctu_left e = 0 \<longrightarrow> jq_status q' = map (\<lambda>p. status_of (user_pid s) (job_at h p)) r \<and>
       jq_errcode q' = AIPU_ERRCODE_NO_ERROR) \<and>
    (r = [] \<longrightarrow> jq_errcode q' = AIPU_ERRCODE_ITEM_NOT_FOUND)"
proof -
  let ?n = "if jq_get_single_job q \<noteq> 0 then 1 else sint (jq_max_cnt q)"
  have n: "nat ?n = k"
  proof (cases "jq_get_single_job q \<noteq> 0")
    case False
    with ok have "0 \<le> sint (jq_max_cnt q)" by simp
    then have "sint (jq_max_cnt q) = uint (jq_max_cnt q)" by (rule sint_nonneg_uint)
    then show ?thesis using False k by simp
  qed (simp add: k)
  have k1: "1 \<le> unat (jq_max_cnt q)" using mx by (simp add: word_le_nat_alt)
  have r': "r = reported q h k (job_list s)" by (fact r)
  have pre: "unat (0 :: u32) \<le> unat (jq_max_cnt q)" "jq_get_single_job q \<noteq> 0 \<longrightarrow> 0 < jq_max_cnt q"
    "k = (if jq_get_single_job q \<noteq> 0 then 1 else unat (jq_max_cnt q) - unat (0 :: u32))"
    "unat (0 :: u32) + k \<le> length (replicate (nat ?n) zero_status)"
    using k k1 n by (auto simp: word_less_nat_alt)
  obtain st where l: "job_status_loop (user_pid s) q h 0 (replicate (nat ?n) zero_status) (job_list s) =
      Some (forget_jobs (set r) h, filter (\<lambda>p. p \<notin> set r) (job_list s), 0 + of_nat (length r), st)"
    and st: "take (length r) st = map (\<lambda>p. status_of (user_pid s) (job_at h p)) r"
    using job_status_loop_spec [OF session_jobs_live [OF wf s] pre, folded r', of "user_pid s"] by auto
  have lr: "length r \<le> unat (jq_max_cnt q)" using k k1 by (auto simp: r reported_def split: if_splits)
  have "unat (jq_max_cnt q) < 2 ^ LENGTH(32)" by (rule unsigned_less)
  with lr have u: "unat (of_nat (length r) :: u32) = length r"
    unfolding unat_of_nat by (intro mod_less) linarith
  then have z: "(of_nat (length r) :: u32) = 0 \<longleftrightarrow> r = []"
    unfolding unat_eq_zero [symmetric] u by simp
  have nn: "0 \<le> ?n" using ok by simp
  have mx': "\<not> jq_max_cnt q < 1" using mx by (rule leD)
  have nb: "\<not> \<not> (kz_status e \<and> 0 \<le> ?n)" using kz nn by blast
  let ?h2 = "put_session sp (s\<lparr>job_list := filter (\<lambda>p. p \<notin> set r) (job_list s)\<rparr>) (forget_jobs (set r) h)"
  have "aipu_session_get_job_status e h sp q =
      (if (of_nat (length r) :: u32) = 0
       then Some (map_errcode AIPU_ERRCODE_ITEM_NOT_FOUND, ?h2,
              q\<lparr>jq_poll_cnt := of_nat (length r), jq_errcode := AIPU_ERRCODE_ITEM_NOT_FOUND\<rparr>)
       else if ctu_left e = 0
       then Some (0, ?h2, q\<lparr>jq_poll_cnt := of_nat (length r),
              jq_status := take (unat (of_nat (length r) :: u32)) st, jq_errcode := AIPU_ERRCODE_NO_ERROR\<rparr>)
       else Some (ctu_left e, ?h2, q\<lparr>jq_poll_cnt := of_nat (length r)\<rparr>))"
    unfolding aipu_session_get_job_status_def Let_def if_not_P [OF mx'] if_not_P [OF nb]
      if_not_P [OF session_null [OF wf s]]
    by (simp only: s l bind.bind_lunit prod.case add_0_left)
  then show ?thesis unfolding z u st by (cases "r = []") (simp_all add: u)
qed

text \<open>What one wake-up does: to the common queue, or to the queue of the thread \<open>t\<close>.\<close>

definition woken :: "int \<Rightarrow> aipu_session \<Rightarrow> aipu_session \<Rightarrow> bool" where
  "woken t s s' \<longleftrightarrow>
     (if single_thread_poll s = 0 then s' = s\<lparr>com_wait := wake_up_interruptible (com_wait s)\<rparr>
      else \<exists>qs i. wait_queue_head s = Some qs \<and> i < length qs \<and> wq_uthread_id (qs ! i) = t \<and>
        s' = s\<lparr>wait_queue_head := Some (qs[i := (qs ! i)\<lparr>wq_p_wait := wake_up_interruptible (wq_p_wait (qs ! i))\<rparr>])\<rparr>)"

lemma woken_same: "woken t s s' \<Longrightarrow> job_list s' = job_list s \<and> sbuf_list s' = sbuf_list s \<and>
    user_pid s' = user_pid s \<and> single_thread_poll s' = single_thread_poll s"
  by (auto simp: woken_def split: if_splits)

lemma session_wf_qs_update:
  assumes "session_wf m s" "wait_queue_head s = Some qs" "i < length qs"
  shows "session_wf m (s\<lparr>wait_queue_head := Some (qs[i := (qs ! i)\<lparr>wq_p_wait := w\<rparr>])\<rparr>)"
  using assms waitqs_wf_touch [of qs i w] by (auto simp: session_wf_def)

lemma woken_wf: "session_wf m s \<Longrightarrow> woken t s s' \<Longrightarrow> session_wf m s'"
  using session_wf_qs_update by (fastforce simp: woken_def session_wf_def split: if_splits)

lemma job_done_effect:
  assumes wf: "heap_wf h" and s: "h_sess h sp = Some s" and j: "h_sjob h p = Some j" and p: "p \<in> set (job_list s)"
  shows "\<exists>h' s'. aipu_session_job_done h sp p x = Some h' \<and> heap_wf h' \<and>
    h_sess h' = (h_sess h)(sp \<mapsto> s') \<and> woken (sj_uthread_id j) s s' \<and> h_next h' = h_next h \<and>
    h_sjob h' = (h_sjob h)(p \<mapsto> j\<lparr>sj_state := AIPU_JOB_STATE_END, sj_exception_type := AIPU_EXCEP_NO_EXCEPTION\<rparr>)"
proof -
  let ?j = "j\<lparr>sj_state := AIPU_JOB_STATE_END, sj_exception_type := AIPU_EXCEP_NO_EXCEPTION\<rparr>"
  let ?h1 = "put_sjob p ?j h"
  have nz: "sp \<noteq> 0" "p \<noteq> 0" using session_null [OF wf s] heap_wf_null(2) [OF wf] j by (cases p; force)+
  have wf1: "heap_wf ?h1" by (rule put_sjob_wf [OF wf j]) simp
  have s1: "h_sess ?h1 sp = Some s" using s by simp
  have sw1: "session_wf (h_sjob ?h1) s" by (rule heap_wfD(4) [OF wf1 s1])
  obtain qs where qs: "wait_queue_head s = Some qs"
    and own: "sj_uthread_id j \<in> wq_uthread_id ` set qs"
    using session_wf_qs [OF heap_wfD(4) [OF wf s]] p j by (metis option.inject)
  obtain i where i: "find_wait_queue qs (sj_uthread_id j) = Some i"
    using own find_wait_queue_Some_iff by blast
  note il = find_wait_queue_SomeD [OF i]
  define s' where "s' = (if single_thread_poll s = 0 then s\<lparr>com_wait := wake_up_interruptible (com_wait s)\<rparr>
      else s\<lparr>wait_queue_head := Some (qs[i := (qs ! i)\<lparr>wq_p_wait := wake_up_interruptible (wq_p_wait (qs ! i))\<rparr>])\<rparr>)"
  have w: "woken (sj_uthread_id j) s s'"
    using qs il by (auto simp: woken_def s'_def)
  have "aipu_session_job_done h sp p x = Some (put_session sp s' ?h1)"
    using nz s j qs i by (simp add: aipu_session_job_done_def s'_def get_thread_wait_queue_no_lock_def)
  moreover have "heap_wf (put_session sp s' ?h1)"
    using woken_same [OF w] woken_wf [OF sw1 w] by (intro put_session_wf [OF wf1 s1]) auto
  ultimately show ?thesis using w by (intro exI [of _ "put_session sp s' ?h1"] exI [of _ s']) simp
qed

lemma lookup_jobs_map:
  "\<forall>p \<in> set ps. h_sjob h p \<noteq> None \<Longrightarrow> lookup_jobs h ps = Some (map (job_at h) ps)"
  by (induction ps) (auto simp: job_at_def)

lemma has_job_of_iff: "has_job_of t js \<longleftrightarrow> (\<exists>j \<in> set js. sj_uthread_id j = t)"
  by (induction js) auto

lemma has_end_job_iff:
  "has_end_job single t js =
     (if \<exists>j \<in> set js. sj_state j = AIPU_JOB_STATE_END \<and> (single \<longrightarrow> sj_uthread_id j = t) then 1 else 0)"
  by (induction js) auto

lemma add_poll_effect:
  assumes wf: "heap_wf h" and s: "h_sess h sp = Some s"
  shows "\<exists>h' s'. aipu_session_add_poll_wait_queue h sp t = Some h' \<and> heap_wf h' \<and>
    h_sess h' = (h_sess h)(sp \<mapsto> s') \<and> h_sjob h' = h_sjob h \<and> h_next h' = h_next h \<and>
    job_list s' = job_list s \<and> sbuf_list s' = sbuf_list s \<and>
    (if \<exists>p \<in> set (job_list s). sj_uthread_id (job_at h p) = t
     then single_thread_poll s' = 1 \<and> (\<exists>qs i. wait_queue_head s = Some qs \<and> i < length qs \<and>
       wq_uthread_id (qs ! i) = t \<and>
       wait_queue_head s' = Some (qs[i := (qs ! i)\<lparr>wq_p_wait := poll_wait (wq_p_wait (qs ! i))\<rparr>])) \<and>
       com_wait s' = com_wait s
     else s' = (if single_thread_poll s = 0 then s\<lparr>com_wait := poll_wait (com_wait s)\<rparr> else s))"
proof -
  let ?mine = "\<exists>p \<in> set (job_list s). sj_uthread_id (job_at h p) = t"
  have nz: "sp \<noteq> 0" by (rule session_null [OF wf s])
  note live = session_jobs_live [OF wf s]
  have lk: "lookup_jobs h (job_list s) = Some (map (job_at h) (job_list s))"
    using live by (intro lookup_jobs_map) blast
  have hj: "has_job_of t (map (job_at h) (job_list s)) \<longleftrightarrow> ?mine" by (simp add: has_job_of_iff)
  have sw: "session_wf (h_sjob h) s" by (rule heap_wfD(4) [OF wf s])
  obtain qs where qs: "wait_queue_head s = Some qs"
    and own: "\<And>p. p \<in> set (job_list s) \<Longrightarrow> \<exists>j. h_sjob h p = Some j \<and> sj_uthread_id j \<in> wq_uthread_id ` set qs"
    using session_wf_qs [OF sw] by blast
  show ?thesis
  proof (cases ?mine)
    case False
    let ?s' = "if single_thread_poll s = 0 then s\<lparr>com_wait := poll_wait (com_wait s)\<rparr> else s"
    have "aipu_session_add_poll_wait_queue h sp t = Some (put_session sp ?s' h)"
      using nz s lk hj False by (auto simp: aipu_session_add_poll_wait_queue_def)
    moreover have "heap_wf (put_session sp ?s' h)"
      using sw by (intro put_session_wf [OF wf s]) (auto simp: session_wf_def)
    ultimately show ?thesis using False by (intro exI [of _ "put_session sp ?s' h"] exI [of _ ?s']) simp
  next
    case True
    then have "t \<in> wq_uthread_id ` set qs" using own by (fastforce simp: job_at_def)
    then obtain i where i: "find_wait_queue qs t = Some i" using find_wait_queue_Some_iff by blast
    note il = find_wait_queue_SomeD [OF i]
    let ?q = "(qs ! i)\<lparr>wq_p_wait := poll_wait (wq_p_wait (qs ! i))\<rparr>"
    let ?s' = "s\<lparr>wait_queue_head := Some (qs[i := ?q]), single_thread_poll := 1\<rparr>"
    have "aipu_session_add_poll_wait_queue h sp t = Some (put_session sp ?s' h)"
      using nz s lk hj True qs i
      by (simp add: aipu_session_add_poll_wait_queue_def get_thread_wait_queue_no_lock_def)
    moreover have "session_wf (h_sjob h) ?s'"
      using session_wf_qs_update [OF sw qs, of i] il by (simp add: session_wf_def)
    then have "heap_wf (put_session sp ?s' h)" by (intro put_session_wf [OF wf s]) auto
    ultimately show ?thesis using True qs il
      by (intro exI [of _ "put_session sp ?s' h"] exI [of _ ?s']) auto
  qed
qed

lemma mark_sched_effect:
  assumes "heap_wf h" "h_sjob h p = Some j"
  shows "session_job_mark_sched e h p = Some (put_sjob p (j\<lparr>sj_sched_time := now_ns e\<rparr>) h)"
    and "heap_wf (put_sjob p (j\<lparr>sj_sched_time := now_ns e\<rparr>) h)"
  using assms heap_wf_null(2) [OF assms(1)] put_sjob_wf [OF assms]
  by (auto simp: session_job_mark_sched_def)

lemma mark_done_effect:
  assumes "heap_wf h" "h_sjob h p = Some j"
  shows "\<exists>j'. session_job_mark_done e h p = Some (put_sjob p j' h) \<and> heap_wf (put_sjob p j' h) \<and>
    sj_uthread_id j' = sj_uthread_id j \<and> sj_state j' = sj_state j \<and> sj_desc j' = sj_desc j"
  using assms heap_wf_null(2) [OF assms(1)] put_sjob_wf [OF assms]
  by (auto simp: session_job_mark_done_def)

end
