(* ===== verification/Aipu.thy ===== *)
theory Aipu
  imports Z2 Soc Session
begin

text \<open>
  The driver's private data (\<open>struct aipu_priv\<close>, \<open>aipu/aipu.h\<close>), the whole driver state,
  and the wrappers of \<open>aipu/aipu.c\<close> that reach the hardware through the operation
  tables. The driver has one \<open>aipu_priv\<close>; the checks of its pointer for NULL never fail
  and are dropped.
\<close>

subsection \<open>State\<close>

text \<open>
  The job manager's own job objects (\<open>aipu_job_manager.h\<close>). \<open>aj_ptr\<close> is the address of the
  object; the queues are lists in list order without their heads, and a head that was not
  allocated is \<open>None\<close>.
\<close>

record aipu_job =
  aj_ptr :: ptr
  aj_uthread_id :: int
  aj_desc :: user_job_desc
  aj_session :: ptr
  aj_session_job :: ptr
  aj_state :: job_state
  aj_exception_flag :: int
  aj_valid_flag :: int

definition AIPU_JOB_FLAG_VALID :: int where "AIPU_JOB_FLAG_VALID = 1"

record aipu_job_manager =
  scheduled_queue :: "aipu_job list option"
  pending_queue :: "aipu_job list option"
  sched_num :: int
  max_sched_num :: int
  init_done :: int

record aipu_priv =
  board :: int
  version :: int
  core0 :: "aipu_core option"
  soc :: "aipu_soc option"
  core_ctrl :: aipu_io_operation
  soc_ctrl :: soc_io_operation
  host_to_aipu_map :: u64
  misc :: bool
  job_manager :: aipu_job_manager
  mm :: aipu_memory_manager
  is_suspend :: int
  is_reset :: int

text \<open>
  The driver as a whole: private data, heap of sessions and session jobs, the device, and
  whether the bottom half is queued on the work queue.
\<close>

record sys =
  priv :: aipu_priv
  hp :: heap
  dev_io :: mmio
  work_queued :: bool

definition run_io :: "(mmio, 'a) state \<Rightarrow> sys \<Rightarrow> 'a \<times> sys" where
  "run_io m s = (let (x, io') = run_state m (dev_io s) in (x, s\<lparr>dev_io := io'\<rparr>))"

definition exec_io :: "(mmio, 'a) state \<Rightarrow> sys \<Rightarrow> sys" where
  "exec_io m s = snd (run_io m s)"

abbreviation jm_of :: "sys \<Rightarrow> aipu_job_manager" where "jm_of s \<equiv> job_manager (priv s)"

definition put_jm :: "aipu_job_manager \<Rightarrow> sys \<Rightarrow> sys" where
  "put_jm jm s = s\<lparr>priv := (priv s)\<lparr>job_manager := jm\<rparr>\<rparr>"

definition put_mm :: "aipu_memory_manager \<Rightarrow> sys \<Rightarrow> sys" where
  "put_mm m s = s\<lparr>priv := (priv s)\<lparr>mm := m\<rparr>\<rparr>"

definition put_hp :: "heap \<Rightarrow> sys \<Rightarrow> sys" where
  "put_hp h s = s\<lparr>hp := h\<rparr>"

subsection \<open>The wrappers over the operation tables\<close>

definition aipu_priv_add_mem_region ::
  "kenv \<Rightarrow> aipu_priv \<Rightarrow> u64 \<Rightarrow> u64 \<Rightarrow> aipu_mem_type \<Rightarrow> (int \<times> aipu_priv) option" where
  "aipu_priv_add_mem_region e aipu base sz type = do {
     (ret, m) \<leftarrow> aipu_mm_add_region e (mm aipu) base sz type;
     Some (ret, aipu\<lparr>mm := m\<rparr>)
   }"

definition aipu_priv_get_version :: "aipu_priv \<Rightarrow> int option" where
  "aipu_priv_get_version aipu = map_option core_version (core0 aipu)"

definition aipu_priv_enable_interrupt :: "aipu_priv \<Rightarrow> (mmio, unit) state" where
  "aipu_priv_enable_interrupt aipu =
     (case core_ctrl aipu of
        Zhouyi_v1_ops \<Rightarrow> zhouyi_v1_enable_interrupt (core0 aipu)
      | Zhouyi_v2_ops \<Rightarrow> zhouyi_v2_enable_interrupt (core0 aipu))"

definition aipu_priv_disable_interrupt :: "aipu_priv \<Rightarrow> (mmio, unit) state" where
  "aipu_priv_disable_interrupt aipu =
     (case core_ctrl aipu of
        Zhouyi_v1_ops \<Rightarrow> zhouyi_v1_disable_interrupt (core0 aipu)
      | Zhouyi_v2_ops \<Rightarrow> zhouyi_v2_disable_interrupt (core0 aipu))"

definition aipu_priv_trigger :: "aipu_priv \<Rightarrow> user_job_desc \<Rightarrow> (mmio, int) state" where
  "aipu_priv_trigger aipu udesc =
     (case core_ctrl aipu of
        Zhouyi_v1_ops \<Rightarrow> zhouyi_v1_trigger (core0 aipu) udesc
      | Zhouyi_v2_ops \<Rightarrow> zhouyi_v2_trigger (core0 aipu) udesc)"

definition aipu_priv_is_idle :: "aipu_priv \<Rightarrow> (mmio, bool) state" where
  "aipu_priv_is_idle aipu =
     (case core_ctrl aipu of
        Zhouyi_v1_ops \<Rightarrow> zhouyi_v1_is_idle (core0 aipu)
      | Zhouyi_v2_ops \<Rightarrow> zhouyi_v2_is_idle (core0 aipu))"

definition aipu_priv_query_capability :: "aipu_priv \<Rightarrow> aipu_cap \<Rightarrow> (mmio, int \<times> aipu_cap) state" where
  "aipu_priv_query_capability aipu cap =
     (case core_ctrl aipu of
        Zhouyi_v1_ops \<Rightarrow> zhouyi_v1_query_cap (core0 aipu) cap
      | Zhouyi_v2_ops \<Rightarrow> zhouyi_v2_query_cap (core0 aipu) cap)"

definition aipu_priv_io_rw :: "aipu_priv \<Rightarrow> aipu_io_req \<Rightarrow> (mmio, aipu_io_req) state option" where
  "aipu_priv_io_rw aipu io_req =
     (case core_ctrl aipu of
        Zhouyi_v1_ops \<Rightarrow> zhouyi_v1_io_rw (core0 aipu) io_req
      | Zhouyi_v2_ops \<Rightarrow> Some (zhouyi_v2_io_rw (core0 aipu) io_req))"

definition aipu_priv_print_hw_id_info :: "aipu_priv \<Rightarrow> (mmio, u32 list) state" where
  "aipu_priv_print_hw_id_info aipu =
     (case core_ctrl aipu of
        Zhouyi_v1_ops \<Rightarrow> zhouyi_v1_print_hw_id_info (core0 aipu)
      | Zhouyi_v2_ops \<Rightarrow> zhouyi_v2_print_hw_id_info (core0 aipu))"

definition aipu_priv_start_bw_profiling :: "aipu_priv \<Rightarrow> (mmio, unit) state" where
  "aipu_priv_start_bw_profiling aipu =
     (case soc_ctrl aipu of
        Default_soc_ops \<Rightarrow> default_start_bw_profiling (soc aipu)
      | Junor2_soc_ops \<Rightarrow> junor2_start_bw_profiling (soc aipu)
      | X6cg_soc_ops \<Rightarrow> x6cg_start_bw_profiling (soc aipu))"

definition aipu_priv_stop_bw_profiling :: "aipu_priv \<Rightarrow> (mmio, unit) state" where
  "aipu_priv_stop_bw_profiling aipu =
     (case soc_ctrl aipu of
        Default_soc_ops \<Rightarrow> default_stop_bw_profiling (soc aipu)
      | Junor2_soc_ops \<Rightarrow> junor2_stop_bw_profiling (soc aipu)
      | X6cg_soc_ops \<Rightarrow> x6cg_stop_bw_profiling (soc aipu))"

definition aipu_priv_read_profiling_reg :: "aipu_priv \<Rightarrow> profiling_data \<Rightarrow> (mmio, profiling_data) state" where
  "aipu_priv_read_profiling_reg aipu pdata =
     (case soc_ctrl aipu of
        Default_soc_ops \<Rightarrow> default_read_profiling_reg (soc aipu) pdata
      | Junor2_soc_ops \<Rightarrow> junor2_read_profiling_reg (soc aipu) pdata
      | X6cg_soc_ops \<Rightarrow> x6cg_read_profiling_reg (soc aipu) pdata)"

definition aipu_priv_has_logic_reset :: "aipu_priv \<Rightarrow> bool" where
  "aipu_priv_has_logic_reset aipu =
     (case soc_ctrl aipu of
        Default_soc_ops \<Rightarrow> default_has_logic_reset (soc aipu)
      | Junor2_soc_ops \<Rightarrow> junor2_has_logic_reset (soc aipu)
      | X6cg_soc_ops \<Rightarrow> x6cg_has_logic_reset (soc aipu))"

definition aipu_priv_logic_reset :: "aipu_priv \<Rightarrow> (mmio, unit) state" where
  "aipu_priv_logic_reset aipu =
     (case soc_ctrl aipu of
        Default_soc_ops \<Rightarrow> default_logic_reset (soc aipu)
      | Junor2_soc_ops \<Rightarrow> junor2_logic_reset (soc aipu)
      | X6cg_soc_ops \<Rightarrow> x6cg_logic_reset (soc aipu))"

definition aipu_priv_logic_release :: "aipu_priv \<Rightarrow> (mmio, unit) state" where
  "aipu_priv_logic_release aipu =
     (case soc_ctrl aipu of
        Default_soc_ops \<Rightarrow> default_logic_release (soc aipu)
      | Junor2_soc_ops \<Rightarrow> junor2_logic_release (soc aipu)
      | X6cg_soc_ops \<Rightarrow> x6cg_logic_release (soc aipu))"

definition aipu_priv_logic_reset_release :: "aipu_priv \<Rightarrow> (mmio, unit) state" where
  "aipu_priv_logic_reset_release aipu = do {
     aipu_priv_logic_reset aipu;
     aipu_priv_logic_release aipu
   }"

definition aipu_priv_enable_clk_gating :: "aipu_priv \<Rightarrow> (mmio, unit) state" where
  "aipu_priv_enable_clk_gating aipu =
     (case soc_ctrl aipu of
        Default_soc_ops \<Rightarrow> default_enable_clk_gating (soc aipu)
      | Junor2_soc_ops \<Rightarrow> junor2_enable_clk_gating (soc aipu)
      | X6cg_soc_ops \<Rightarrow> x6cg_enable_clk_gating (soc aipu))"

definition aipu_priv_disable_clk_gating :: "aipu_priv \<Rightarrow> (mmio, unit) state" where
  "aipu_priv_disable_clk_gating aipu =
     (case soc_ctrl aipu of
        Default_soc_ops \<Rightarrow> default_disable_clk_gating (soc aipu)
      | Junor2_soc_ops \<Rightarrow> junor2_disable_clk_gating (soc aipu)
      | X6cg_soc_ops \<Rightarrow> x6cg_disable_clk_gating (soc aipu))"

text \<open>The configuration disables the reset of a busy core on every board.\<close>

lemma no_logic_reset [simp]: "aipu_priv_has_logic_reset aipu = False"
  by (auto simp: aipu_priv_has_logic_reset_def default_has_logic_reset_def junor2_has_logic_reset_def
      x6cg_has_logic_reset_def AIPU_ENABLE_RESET_HW_NONE_IDLE_def
      split: soc_io_operation.split option.split)

subsection \<open>Device access leaves the rest of the driver alone\<close>

lemma run_io_simps [simp]:
  "priv (snd (run_io m s)) = priv s" "hp (snd (run_io m s)) = hp s"
  "work_queued (snd (run_io m s)) = work_queued s"
  "priv (exec_io m s) = priv s" "hp (exec_io m s) = hp s" "work_queued (exec_io m s) = work_queued s"
  by (simp_all add: run_io_def exec_io_def split: prod.split)

lemma run_ioE:
  assumes "run_io m s = (x, s')"
  obtains "priv s' = priv s" "hp s' = hp s" "work_queued s' = work_queued s"
  using assms run_io_simps(1-3) [of m s] by simp

lemma put_sys_simps [simp]:
  "priv (put_jm j s) = (priv s)\<lparr>job_manager := j\<rparr>" "hp (put_jm j s) = hp s" "dev_io (put_jm j s) = dev_io s"
  "work_queued (put_jm j s) = work_queued s"
  "priv (put_mm m s) = (priv s)\<lparr>mm := m\<rparr>" "hp (put_mm m s) = hp s" "dev_io (put_mm m s) = dev_io s"
  "work_queued (put_mm m s) = work_queued s"
  "priv (put_hp h s) = priv s" "hp (put_hp h s) = h" "dev_io (put_hp h s) = dev_io s"
  "work_queued (put_hp h s) = work_queued s"
  by (simp_all add: put_jm_def put_mm_def put_hp_def)

end
