(* ===== verification/Hw.thy ===== *)
theory Hw
  imports Aipu
begin

text \<open>
  Where the driver touches the device: every routine that goes through the operation
  tables only extends the access log, by accesses that start inside the register region
  of the core or of the SoC.
\<close>

definition dev_access :: "aipu_priv \<Rightarrow> io_event \<Rightarrow> bool" where
  "dev_access p ev \<longleftrightarrow>
     (\<exists>c. core0 p = Some c \<and> starts_in (core_base0 c) ev) \<or>
     (\<exists>d. soc p = Some d \<and> starts_in (soc_base0 d) ev)"

lemma dev_access_core: "core0 p = Some c \<Longrightarrow> emits (starts_in (core_base0 c)) m \<Longrightarrow> emits (dev_access p) m"
  by (erule emits_mono) (auto simp: dev_access_def)

lemma dev_access_soc: "soc p = Some d \<Longrightarrow> emits (starts_in (soc_base0 d)) m \<Longrightarrow> emits (dev_access p) m"
  by (erule emits_mono) (auto simp: dev_access_def)

lemma if_core_emits:
  "(\<And>c. core = Some c \<Longrightarrow> emits (starts_in (core_base0 c)) (f (core_base0 c))) \<Longrightarrow> core0 p = core \<Longrightarrow>
   emits (dev_access p) (if_core core f)"
  unfolding if_core_def by (cases core) (auto intro: emits_return dev_access_core)

lemma if_soc_emits:
  "(\<And>d. sc = Some d \<Longrightarrow> emits (starts_in (soc_base0 d)) (f (soc_base0 d))) \<Longrightarrow> soc p = sc \<Longrightarrow>
   emits (dev_access p) (if_soc sc f)"
  unfolding if_soc_def by (cases sc) (auto intro: emits_return dev_access_soc)

lemma write_ase_emits [intro]: "emits (starts_in io) (write_ase io a b c x y z)"
  unfolding write_ase_def by (intro emits_bind emits_write32)

subsection \<open>Version 1 and 2 cores\<close>

lemma v1_trigger_emits: "emits (dev_access p) (zhouyi_v1_trigger (core0 p) d)"
proof (cases "core0 p")
  case (Some c)
  then show ?thesis unfolding zhouyi_v1_trigger_def Some option.case Let_def
    by (intro dev_access_core [OF Some] emits_bind emits_write32 emits_return)
qed (simp add: zhouyi_v1_trigger_def emits_return)

lemma v2_trigger_emits: "emits (dev_access p) (zhouyi_v2_trigger (core0 p) d)"
proof (cases "core0 p")
  case (Some c)
  then show ?thesis unfolding zhouyi_v2_trigger_def Some option.case Let_def
    by (intro dev_access_core [OF Some] emits_bind emits_if emits_write32 emits_return write_ase_emits)
qed (simp add: zhouyi_v2_trigger_def emits_return)

lemma v1_is_idle_emits: "emits (dev_access p) (zhouyi_v1_is_idle (core0 p))"
proof (cases "core0 p")
  case (Some c)
  then show ?thesis unfolding zhouyi_v1_is_idle_def Some option.case
    by (intro dev_access_core [OF Some] emits_bind emits_if emits_read32 emits_return)
qed (simp add: zhouyi_v1_is_idle_def emits_return)

lemma v2_is_idle_emits: "emits (dev_access p) (zhouyi_v2_is_idle (core0 p))"
proof (cases "core0 p")
  case (Some c)
  then show ?thesis unfolding zhouyi_v2_is_idle_def Some option.case
    by (intro dev_access_core [OF Some] emits_bind emits_if emits_read32 emits_return)
qed (simp add: zhouyi_v2_is_idle_def emits_return)

lemma core_write_emits:
  "emits (dev_access p) (zhouyi_v1_enable_interrupt (core0 p))"
  "emits (dev_access p) (zhouyi_v1_disable_interrupt (core0 p))"
  "emits (dev_access p) (zhouyi_v2_enable_interrupt (core0 p))"
  "emits (dev_access p) (zhouyi_v2_disable_interrupt (core0 p))"
  "emits (dev_access p) (zhouyi_v1_clear_qempty_interrupt (core0 p))"
  "emits (dev_access p) (zhouyi_v1_clear_done_interrupt (core0 p))"
  "emits (dev_access p) (zhouyi_v1_clear_excep_interrupt (core0 p))"
  "emits (dev_access p) (zhouyi_v2_clear_qempty_interrupt (core0 p))"
  "emits (dev_access p) (zhouyi_v2_clear_done_interrupt (core0 p))"
  "emits (dev_access p) (zhouyi_v2_clear_excep_interrupt (core0 p))"
  "emits (dev_access p) (zhouyi_v2_clear_fault_interrupt (core0 p))"
  unfolding zhouyi_v1_enable_interrupt_def zhouyi_v1_disable_interrupt_def zhouyi_v2_enable_interrupt_def
    zhouyi_v2_disable_interrupt_def zhouyi_v1_clear_qempty_interrupt_def zhouyi_v1_clear_done_interrupt_def
    zhouyi_v1_clear_excep_interrupt_def zhouyi_v2_clear_qempty_interrupt_def zhouyi_v2_clear_done_interrupt_def
    zhouyi_v2_clear_excep_interrupt_def zhouyi_v2_clear_fault_interrupt_def
  by (rule if_core_emits; (rule emits_write32 zhouyi_emits refl))+

lemma query_cap_emits:
  "emits (dev_access p) (zhouyi_v1_query_cap (core0 p) cap)"
  "emits (dev_access p) (zhouyi_v2_query_cap (core0 p) cap)"
  by (cases "core0 p"; simp add: zhouyi_v1_query_cap_def zhouyi_v2_query_cap_def emits_return;
      erule dev_access_core; rule zhouyi_query_cap_emits)+

lemma print_id_emits:
  "emits (dev_access p) (zhouyi_v1_print_hw_id_info (core0 p))"
  "emits (dev_access p) (zhouyi_v2_print_hw_id_info (core0 p))"
  by (cases "core0 p"; simp only: zhouyi_v1_print_hw_id_info_def zhouyi_v2_print_hw_id_info_def option.case;
      (rule emits_return | erule dev_access_core, rule read_registers_emits))+

lemma v1_io_rw_emits: "zhouyi_v1_io_rw (core0 p) req = Some m \<Longrightarrow> emits (dev_access p) m"
  by (auto simp: zhouyi_v1_io_rw_def intro: dev_access_core)

lemma v2_io_rw_emits: "emits (dev_access p) (zhouyi_v2_io_rw (core0 p) req)"
  by (cases "core0 p"; simp add: zhouyi_v2_io_rw_def emits_return; erule dev_access_core; rule zhouyi_io_rw_emits)

lemma v1_status_emits: "zhouyi_v1_read_status_reg (core0 p) = Some m \<Longrightarrow> emits (dev_access p) m"
  by (auto simp: zhouyi_v1_read_status_reg_def intro: dev_access_core)

lemma v2_status_emits: "emits (dev_access p) (zhouyi_v2_read_status_reg (core0 p))"
  by (cases "core0 p"; simp add: zhouyi_v2_read_status_reg_def emits_return; erule dev_access_core; rule zhouyi_emits)

subsection \<open>SoC\<close>

lemma junor2_write_emits:
  "emits (dev_access p) (junor2_start_bw_profiling (soc p))"
  "emits (dev_access p) (junor2_stop_bw_profiling (soc p))"
  "emits (dev_access p) (junor2_logic_reset (soc p))"
  "emits (dev_access p) (junor2_logic_release (soc p))"
  "emits (dev_access p) (junor2_enable_clk_gating (soc p))"
  "emits (dev_access p) (junor2_disable_clk_gating (soc p))"
  "emits (dev_access p) (x6cg_logic_reset (soc p))"
  "emits (dev_access p) (x6cg_logic_release (soc p))"
  unfolding junor2_start_bw_profiling_def junor2_stop_bw_profiling_def junor2_logic_reset_def
    junor2_logic_release_def junor2_enable_clk_gating_def junor2_disable_clk_gating_def
    x6cg_logic_reset_def x6cg_logic_release_def
  by (rule if_soc_emits; (rule emits_write32 refl))+

lemma junor2_read_emits: "emits (dev_access p) (junor2_read_profiling_reg (soc p) pd)"
proof (cases "soc p")
  case (Some d)
  then show ?thesis unfolding junor2_read_profiling_reg_def Some option.case
    by (intro dev_access_soc [OF Some] emits_bind emits_read32 emits_return)
qed (simp add: junor2_read_profiling_reg_def emits_return)

subsection \<open>The wrappers\<close>

lemmas priv_defs = aipu_priv_enable_interrupt_def aipu_priv_disable_interrupt_def aipu_priv_trigger_def
  aipu_priv_is_idle_def aipu_priv_query_capability_def aipu_priv_print_hw_id_info_def
  aipu_priv_start_bw_profiling_def aipu_priv_stop_bw_profiling_def aipu_priv_read_profiling_reg_def
  aipu_priv_logic_reset_def aipu_priv_logic_release_def aipu_priv_enable_clk_gating_def
  aipu_priv_disable_clk_gating_def

lemmas soc_noop_defs = default_start_bw_profiling_def default_stop_bw_profiling_def
  default_read_profiling_reg_def default_logic_reset_def default_logic_release_def
  default_enable_clk_gating_def default_disable_clk_gating_def x6cg_start_bw_profiling_def
  x6cg_stop_bw_profiling_def x6cg_read_profiling_reg_def x6cg_enable_clk_gating_def x6cg_disable_clk_gating_def

lemma priv_emits [intro]:
  "emits (dev_access p) (aipu_priv_enable_interrupt p)"
  "emits (dev_access p) (aipu_priv_disable_interrupt p)"
  "emits (dev_access p) (aipu_priv_trigger p d)"
  "emits (dev_access p) (aipu_priv_is_idle p)"
  "emits (dev_access p) (aipu_priv_query_capability p cap)"
  "emits (dev_access p) (aipu_priv_print_hw_id_info p)"
  "emits (dev_access p) (aipu_priv_start_bw_profiling p)"
  "emits (dev_access p) (aipu_priv_stop_bw_profiling p)"
  "emits (dev_access p) (aipu_priv_read_profiling_reg p pd)"
  "emits (dev_access p) (aipu_priv_logic_reset p)"
  "emits (dev_access p) (aipu_priv_logic_release p)"
  "emits (dev_access p) (aipu_priv_enable_clk_gating p)"
  "emits (dev_access p) (aipu_priv_disable_clk_gating p)"
  unfolding priv_defs soc_noop_defs
  by (cases "core_ctrl p"; cases "soc_ctrl p";
      simp only: aipu_io_operation.case soc_io_operation.case;
      rule core_write_emits v1_trigger_emits v2_trigger_emits v1_is_idle_emits v2_is_idle_emits
        query_cap_emits print_id_emits junor2_write_emits junor2_read_emits emits_return)+

lemma priv_io_rw_emits: "aipu_priv_io_rw p req = Some m \<Longrightarrow> emits (dev_access p) m"
  by (cases "core_ctrl p") (auto simp: aipu_priv_io_rw_def intro: v1_io_rw_emits v2_io_rw_emits)

subsection \<open>On the driver state\<close>

text \<open>The device is touched only inside its regions, and its answers are untouched.\<close>

definition dev_extends :: "sys \<Rightarrow> sys \<Rightarrow> bool" where
  "dev_extends s s' \<longleftrightarrow>
     (\<exists>evs. dev_io s' = (dev_io s)\<lparr>io_log := io_log (dev_io s) @ evs\<rparr> \<and> (\<forall>ev \<in> set evs. dev_access (priv s) ev))"

lemma dev_extends_refl [simp]: "dev_io s' = dev_io s \<Longrightarrow> dev_extends s s'"
  unfolding dev_extends_def by (rule exI [of _ "[]"]) simp

lemma dev_extends_trans:
  assumes "dev_extends s t" "dev_extends t u" "core0 (priv t) = core0 (priv s)" "soc (priv t) = soc (priv s)"
  shows "dev_extends s u"
proof -
  obtain e1 e2 where "dev_io t = (dev_io s)\<lparr>io_log := io_log (dev_io s) @ e1\<rparr>" "\<forall>ev \<in> set e1. dev_access (priv s) ev"
    "dev_io u = (dev_io t)\<lparr>io_log := io_log (dev_io t) @ e2\<rparr>" "\<forall>ev \<in> set e2. dev_access (priv t) ev"
    using assms(1,2) unfolding dev_extends_def by blast
  then show ?thesis using assms(3,4)
    unfolding dev_extends_def by (intro exI [of _ "e1 @ e2"]) (auto simp: dev_access_def)
qed

lemma dev_extends_io: "dev_extends s s' \<Longrightarrow> io_dev (dev_io s') = io_dev (dev_io s)"
  by (auto simp: dev_extends_def)

lemma run_io_extends:
  assumes "emits (dev_access (priv s)) m"
  shows "dev_extends s (snd (run_io m s))" "dev_extends s (exec_io m s)"
proof -
  obtain evs where "snd (run_state m (dev_io s)) = (dev_io s)\<lparr>io_log := io_log (dev_io s) @ evs\<rparr>"
    "\<forall>ev \<in> set evs. dev_access (priv s) ev"
    using assms unfolding emits_def by blast
  then show "dev_extends s (snd (run_io m s))" "dev_extends s (exec_io m s)"
    unfolding dev_extends_def run_io_def exec_io_def by (auto split: prod.split)
qed

end
