(* ===== verification/JobManager.thy ===== *)
theory JobManager
  imports Hw
begin

text \<open>
  The job manager (\<open>aipu_job_manager.c\<close>): the pending queue in order of submission, the
  scheduled queue of jobs that run or have ended, and their movement on submission,
  interrupt, bottom half, cancellation and timeout. Everything runs under the manager's
  spinlock, so each function is one atomic step; the bottom half drops the lock around
  the call into the session, which the model does not interleave.

  Queue entries are objects with an address (\<open>aj_ptr\<close>). The two loops that call
  \<open>aipu_invalidate_job_no_lock\<close> walk the addresses the queue has when they start; a live
  walk differs only after a reset of the core, which the configuration disables
  (lemma \<open>no_logic_reset\<close>).
\<close>

subsection \<open>Job objects\<close>

definition init_aipu_job :: "heap \<Rightarrow> ptr \<Rightarrow> user_job_desc option \<Rightarrow> ptr \<Rightarrow> ptr \<Rightarrow> aipu_job option" where
  "init_aipu_job h addr desc kern_job session = do {
     tid \<leftarrow> (if kern_job = NULL then Some 0 else map_option sj_uthread_id (h_sjob h kern_job));
     Some \<lparr>aj_ptr = addr, aj_uthread_id = tid,
           aj_desc = (case desc of None \<Rightarrow> zero_job_desc | Some d \<Rightarrow> d),
           aj_session = session, aj_session_job = kern_job, aj_state = AIPU_JOB_STATE_IDLE,
           aj_exception_flag = AIPU_EXCEP_NO_EXCEPTION, aj_valid_flag = AIPU_JOB_FLAG_VALID\<rparr>
   }"

definition create_aipu_job ::
  "kenv \<Rightarrow> heap \<Rightarrow> user_job_desc option \<Rightarrow> ptr \<Rightarrow> ptr \<Rightarrow> (aipu_job option \<times> heap) option" where
  "create_aipu_job e h desc kern_job session =
     (if \<not> kz_ajob e then Some (None, h)
      else do {
        job \<leftarrow> init_aipu_job h (h_next h) desc kern_job session;
        Some (Some job, h\<lparr>h_next := h_next h + 1\<rparr>)
      })"

definition find_job :: "ptr \<Rightarrow> aipu_job list \<Rightarrow> aipu_job option" where
  "find_job p q = find (\<lambda>j. aj_ptr j = p) q"

text \<open>\<open>list_del\<close> and \<open>kfree\<close>: the object leaves the queue it is in.\<close>

definition remove_aipu_job :: "ptr \<Rightarrow> aipu_job_manager \<Rightarrow> aipu_job_manager" where
  "remove_aipu_job p jm =
     jm\<lparr>pending_queue := map_option (filter (\<lambda>j. aj_ptr j \<noteq> p)) (pending_queue jm),
        scheduled_queue := map_option (filter (\<lambda>j. aj_ptr j \<noteq> p)) (scheduled_queue jm)\<rparr>"

definition update_aipu_job :: "ptr \<Rightarrow> (aipu_job \<Rightarrow> aipu_job) \<Rightarrow> aipu_job_manager \<Rightarrow> aipu_job_manager" where
  "update_aipu_job p f jm =
     jm\<lparr>pending_queue := map_option (map (\<lambda>j. if aj_ptr j = p then f j else j)) (pending_queue jm),
        scheduled_queue := map_option (map (\<lambda>j. if aj_ptr j = p then f j else j)) (scheduled_queue jm)\<rparr>"

definition lookup_aipu_job :: "ptr \<Rightarrow> aipu_job_manager \<Rightarrow> aipu_job option" where
  "lookup_aipu_job p jm = do {
     ps \<leftarrow> pending_queue jm;
     ss \<leftarrow> scheduled_queue jm;
     find_job p (ps @ ss)
   }"

subsection \<open>Set-up and tear-down\<close>

definition aipu_init_job_manager :: "kenv \<Rightarrow> aipu_job_manager \<Rightarrow> int \<Rightarrow> int \<times> aipu_job_manager" where
  "aipu_init_job_manager e jm max_num =
     (if init_done jm \<noteq> 0 then (0, jm)
      else
        let head = (if kz_ajob e then Some [] else None);
            jm1 = jm\<lparr>scheduled_queue := head, pending_queue := head\<rparr>
        in if head = None then (- ENOMEM, jm1)
           else (0, jm1\<lparr>sched_num := 0, max_sched_num := max_num, init_done := 1\<rparr>))"

definition delete_queue :: "aipu_job list option \<Rightarrow> aipu_job list option" where
  "delete_queue head = map_option (\<lambda>_. []) head"

definition aipu_deinit_job_manager :: "aipu_job_manager \<Rightarrow> aipu_job_manager" where
  "aipu_deinit_job_manager jm =
     jm\<lparr>scheduled_queue := delete_queue (scheduled_queue jm),
        pending_queue := delete_queue (pending_queue jm), sched_num := 0\<rparr>"

subsection \<open>Scheduling\<close>

definition aipu_job_manager_trigger_job_sched :: "kenv \<Rightarrow> sys \<Rightarrow> aipu_job \<Rightarrow> sys option" where
  "aipu_job_manager_trigger_job_sched e s job = do {
     let s1 = exec_io (aipu_priv_trigger (priv s) (aj_desc job)) s;
     prof \<leftarrow> is_session_job_prof_enabled (hp s1) (aj_session_job job);
     if prof \<noteq> 0 then do {
       h \<leftarrow> session_job_mark_sched e (hp s1) (aj_session_job job);
       Some (exec_io (aipu_priv_start_bw_profiling (priv s1)) (put_hp h s1))
     }
     else Some s1
   }"

text \<open>The three conditions of the \<open>if\<close> are evaluated in order; only the last reads the device.\<close>

definition aipu_schedule_pending_job_no_lock :: "kenv \<Rightarrow> sys \<Rightarrow> sys option" where
  "aipu_schedule_pending_job_no_lock e s = do {
     pending \<leftarrow> pending_queue (jm_of s);
     if pending \<noteq> [] \<and> sched_num (jm_of s) < max_sched_num (jm_of s)
     then (case run_io (aipu_priv_is_idle (priv s)) s of
             (idle, s1) \<Rightarrow>
               if idle then do {
                 let curr_job = hd pending;
                 s2 \<leftarrow> aipu_job_manager_trigger_job_sched e s1 curr_job;
                 scheduled \<leftarrow> scheduled_queue (jm_of s2);
                 Some (put_jm ((jm_of s2)\<lparr>pending_queue := Some (tl pending),
                         scheduled_queue := Some (scheduled @ [curr_job\<lparr>aj_state := AIPU_JOB_STATE_SCHED\<rparr>]),
                         sched_num := sched_num (jm_of s2) + 1\<rparr>) s2)
               }
               else Some s1)
     else Some s
   }"

definition aipu_job_manager_schedule_new_job ::
  "kenv \<Rightarrow> sys \<Rightarrow> user_job \<Rightarrow> ptr \<Rightarrow> ptr \<Rightarrow> (int \<times> sys \<times> user_job) option" where
  "aipu_job_manager_schedule_new_job e s user_job session_job session =
     (if session_job = NULL \<or> session = NULL
      then Some (map_errcode AIPU_ERRCODE_INTERNAL_NULLPTR, s,
                 user_job\<lparr>uj_errcode := AIPU_ERRCODE_INTERNAL_NULLPTR\<rparr>)
      else do {
        (job, h) \<leftarrow> create_aipu_job e (hp s) (Some (uj_desc user_job)) session_job session;
        case job of
          None \<Rightarrow> Some (map_errcode AIPU_ERRCODE_CREATE_KOBJ_ERR, s,
                        user_job\<lparr>uj_errcode := AIPU_ERRCODE_CREATE_KOBJ_ERR\<rparr>)
        | Some j \<Rightarrow> do {
            pending \<leftarrow> pending_queue (jm_of s);
            let j' = j\<lparr>aj_state := AIPU_JOB_STATE_PENDING\<rparr>;
            let s1 = put_jm ((jm_of s)\<lparr>pending_queue := Some (pending @ [j'])\<rparr>) (put_hp h s);
            s2 \<leftarrow> aipu_schedule_pending_job_no_lock e s1;
            Some (AIPU_ERRCODE_NO_ERROR, s2, user_job\<lparr>uj_errcode := AIPU_ERRCODE_NO_ERROR\<rparr>)
          }
      })"

subsection \<open>Invalidation\<close>

definition aipu_invalidate_job_no_lock :: "kenv \<Rightarrow> sys \<Rightarrow> ptr \<Rightarrow> (int \<times> sys) option" where
  "aipu_invalidate_job_no_lock e s p = do {
     job \<leftarrow> lookup_aipu_job p (jm_of s);
     if aj_state job = AIPU_JOB_STATE_SCHED then
       (if aipu_priv_has_logic_reset (priv s) then do {
          let s1 = exec_io (aipu_priv_logic_reset_release (priv s)) s;
          let s2 = put_jm ((jm_of s1)\<lparr>sched_num := sched_num (jm_of s1) - 1\<rparr>) s1;
          s3 \<leftarrow> aipu_schedule_pending_job_no_lock e s2;
          Some (0, s3)
        }
        else Some (0, put_jm (update_aipu_job p (\<lambda>j. j\<lparr>aj_valid_flag := 0\<rparr>) (jm_of s)) s))
     else if aj_state job = AIPU_JOB_STATE_PENDING
     then Some (0, put_jm (remove_aipu_job p (jm_of s)) s)
     else Some (- EINVAL, s)
   }"

text \<open>Jobs are compared by the process identifiers of their sessions.\<close>

fun invalidate_canceled_loop :: "kenv \<Rightarrow> int \<Rightarrow> sys \<Rightarrow> ptr list \<Rightarrow> sys option" where
  "invalidate_canceled_loop e pid s [] = Some s"
| "invalidate_canceled_loop e pid s (cursor # rest) = do {
     job \<leftarrow> lookup_aipu_job cursor (jm_of s);
     owner \<leftarrow> h_sess (hp s) (aj_session job);
     if aipu_get_session_pid owner = pid then do {
       (_, s') \<leftarrow> aipu_invalidate_job_no_lock e s cursor;
       invalidate_canceled_loop e pid s' rest
     }
     else invalidate_canceled_loop e pid s rest
   }"

definition aipu_invalidate_canceled_jobs_no_lock ::
  "kenv \<Rightarrow> sys \<Rightarrow> aipu_job list option \<Rightarrow> ptr \<Rightarrow> sys option" where
  "aipu_invalidate_canceled_jobs_no_lock e s head session =
     (case head of
        None \<Rightarrow> Some s
      | Some q \<Rightarrow> if session = NULL then Some s
                  else do {
                    own \<leftarrow> (if q = [] then Some 0 else map_option aipu_get_session_pid (h_sess (hp s) session));
                    invalidate_canceled_loop e own s (map aj_ptr q)
                  })"

definition aipu_job_manager_cancel_session_jobs :: "kenv \<Rightarrow> sys \<Rightarrow> ptr \<Rightarrow> (int \<times> sys) option" where
  "aipu_job_manager_cancel_session_jobs e s session =
     (if session = NULL then Some (map_errcode AIPU_ERRCODE_INTERNAL_NULLPTR, s)
      else do {
        s1 \<leftarrow> aipu_invalidate_canceled_jobs_no_lock e s (pending_queue (jm_of s)) session;
        s2 \<leftarrow> aipu_invalidate_canceled_jobs_no_lock e s1 (scheduled_queue (jm_of s1)) session;
        (_, h) \<leftarrow> aipu_session_delete_jobs (hp s2) session;
        Some (AIPU_ERRCODE_NO_ERROR, put_hp h s2)
      })"

fun invalidate_timeout_loop :: "kenv \<Rightarrow> u32 \<Rightarrow> sys \<Rightarrow> aipu_job list \<Rightarrow> (int \<times> sys) option" where
  "invalidate_timeout_loop e jid s [] = Some (- EINVAL, s)"
| "invalidate_timeout_loop e jid s (cursor # rest) =
     (if aj_uthread_id cursor = cur_tid e \<and> job_id (aj_desc cursor) = jid
      then aipu_invalidate_job_no_lock e s (aj_ptr cursor)
      else invalidate_timeout_loop e jid s rest)"

definition aipu_invalidate_timeout_job_no_lock ::
  "kenv \<Rightarrow> sys \<Rightarrow> aipu_job list option \<Rightarrow> u32 \<Rightarrow> (int \<times> sys) option" where
  "aipu_invalidate_timeout_job_no_lock e s head jid =
     (case head of None \<Rightarrow> Some (- EINVAL, s) | Some q \<Rightarrow> invalidate_timeout_loop e jid s q)"

definition aipu_invalidate_timeout_job :: "kenv \<Rightarrow> sys \<Rightarrow> u32 \<Rightarrow> (int \<times> sys) option" where
  "aipu_invalidate_timeout_job e s jid = do {
     (ret, s1) \<leftarrow> aipu_invalidate_timeout_job_no_lock e s (pending_queue (jm_of s)) jid;
     if ret \<noteq> 0
     then aipu_invalidate_timeout_job_no_lock e s1 (scheduled_queue (jm_of s1)) jid
     else Some (ret, s1)
   }"

subsection \<open>Completion\<close>

definition aipu_session_job_update_pdata :: "sys \<Rightarrow> ptr \<Rightarrow> ptr \<Rightarrow> sys option" where
  "aipu_session_job_update_pdata s session job =
     (if session = NULL \<or> job = NULL then Some s
      else do {
        _ \<leftarrow> h_sess (hp s) session;
        j \<leftarrow> h_sjob (hp s) job;
        if enable_prof (sj_desc j) \<noteq> 0
        then (case run_io (aipu_priv_read_profiling_reg (priv s) (sj_pdata j)) s of
                (pdata, s1) \<Rightarrow> Some (put_hp (put_sjob job (j\<lparr>sj_pdata := pdata\<rparr>) (hp s1)) s1))
        else Some s
      })"

definition aipu_job_manager_update_job_profiling_data :: "sys \<Rightarrow> aipu_job \<Rightarrow> sys option" where
  "aipu_job_manager_update_job_profiling_data s job = do {
     prof \<leftarrow> is_session_job_prof_enabled (hp s) (aj_session_job job);
     if prof \<noteq> 0 \<and> aj_state job = AIPU_JOB_STATE_END \<and> aj_exception_flag job = AIPU_EXCEP_NO_EXCEPTION
     then aipu_session_job_update_pdata (exec_io (aipu_priv_stop_bw_profiling (priv s)) s)
            (aj_session job) (aj_session_job job)
     else Some s
   }"

text \<open>The first job in state \<open>SCHED\<close> and its index.\<close>

fun first_sched :: "aipu_job list \<Rightarrow> nat option" where
  "first_sched [] = None"
| "first_sched (j # js) = (if aj_state j = AIPU_JOB_STATE_SCHED then Some 0 else map_option Suc (first_sched js))"

definition aipu_job_manager_update_job_state_irq :: "kenv \<Rightarrow> sys \<Rightarrow> int \<Rightarrow> sys option" where
  "aipu_job_manager_update_job_state_irq e s exception_flag = do {
     scheduled \<leftarrow> scheduled_queue (jm_of s);
     s' \<leftarrow> (case first_sched scheduled of
              None \<Rightarrow> Some s
            | Some i \<Rightarrow> do {
                let job = (scheduled ! i)\<lparr>aj_state := AIPU_JOB_STATE_END, aj_exception_flag := exception_flag\<rparr>;
                let s1 = put_jm ((jm_of s)\<lparr>scheduled_queue := Some (scheduled[i := job])\<rparr>) s;
                prof \<leftarrow> is_session_job_prof_enabled (hp s1) (aj_session_job job);
                h \<leftarrow> (if prof \<noteq> 0 then session_job_mark_done e (hp s1) (aj_session_job job) else Some (hp s1));
                let s2 = put_hp h s1;
                s3 \<leftarrow> (if aj_valid_flag job = AIPU_JOB_FLAG_VALID
                       then aipu_job_manager_update_job_profiling_data s2 job else Some s2);
                Some (if sched_num (jm_of s3) \<noteq> 0
                      then put_jm ((jm_of s3)\<lparr>sched_num := sched_num (jm_of s3) - 1\<rparr>) s3 else s3)
              });
     aipu_schedule_pending_job_no_lock e s'
   }"

fun queue_done_loop :: "heap \<Rightarrow> aipu_job list \<Rightarrow> (heap \<times> aipu_job list) option" where
  "queue_done_loop h [] = Some (h, [])"
| "queue_done_loop h (job # rest) =
     (if aj_state job \<noteq> AIPU_JOB_STATE_END then do {
        (h', q) \<leftarrow> queue_done_loop h rest;
        Some (h', job # q)
      }
      else do {
        h1 \<leftarrow> (if aj_valid_flag job = AIPU_JOB_FLAG_VALID
               then aipu_session_job_done h (aj_session job) (aj_session_job job) (aj_exception_flag job)
               else Some h);
        queue_done_loop h1 rest
      })"

definition aipu_job_manager_update_job_queue_done_irq :: "sys \<Rightarrow> sys option" where
  "aipu_job_manager_update_job_queue_done_irq s = do {
     scheduled \<leftarrow> scheduled_queue (jm_of s);
     (h, q) \<leftarrow> queue_done_loop (hp s) scheduled;
     Some (put_jm ((jm_of s)\<lparr>scheduled_queue := Some q\<rparr>) (put_hp h s))
   }"

end
