(* ===== verification/JobQueue.thy ===== *)
theory JobQueue
  imports JobManager
begin

text \<open>
  The invariant of the job manager and what each of its operations does to the two
  queues and to the heap of sessions.
\<close>

subsection \<open>The invariant\<close>

definition pending_jobs :: "aipu_job_manager \<Rightarrow> aipu_job list" where
  "pending_jobs jm = (case pending_queue jm of None \<Rightarrow> [] | Some q \<Rightarrow> q)"

definition scheduled_jobs :: "aipu_job_manager \<Rightarrow> aipu_job list" where
  "scheduled_jobs jm = (case scheduled_queue jm of None \<Rightarrow> [] | Some q \<Rightarrow> q)"

text \<open>All jobs of the manager, the oldest first.\<close>

definition all_jobs :: "aipu_job_manager \<Rightarrow> aipu_job list" where
  "all_jobs jm = scheduled_jobs jm @ pending_jobs jm"

definition order_of :: "aipu_job_manager \<Rightarrow> ptr list" where
  "order_of jm = map aj_ptr (all_jobs jm)"

definition valid_job :: "aipu_job \<Rightarrow> bool" where
  "valid_job j \<longleftrightarrow> aj_valid_flag j = AIPU_JOB_FLAG_VALID"

text \<open>
  Both heads exist; pending jobs are pending and valid; in the scheduled queue the ended
  jobs stand before the running ones, whose number \<open>sched_num\<close> counts, within the limit.
\<close>

definition jm_wf :: "aipu_job_manager \<Rightarrow> bool" where
  "jm_wf jm \<longleftrightarrow>
     pending_queue jm \<noteq> None \<and> scheduled_queue jm \<noteq> None \<and>
     (\<forall>j \<in> set (pending_jobs jm). aj_state j = AIPU_JOB_STATE_PENDING \<and> valid_job j) \<and>
     (\<exists>es rs. scheduled_jobs jm = es @ rs \<and> (\<forall>j \<in> set es. aj_state j = AIPU_JOB_STATE_END) \<and>
        (\<forall>j \<in> set rs. aj_state j = AIPU_JOB_STATE_SCHED) \<and> sched_num jm = int (length rs)) \<and>
     sched_num jm \<le> max_sched_num jm \<and>
     distinct (order_of jm)"

text \<open>
  A job of the manager is live when its session exists and its session job is in the
  list of that session, not ended. The valid jobs of the manager are live and stand for
  different session jobs.
\<close>

definition job_live :: "heap \<Rightarrow> aipu_job \<Rightarrow> bool" where
  "job_live h j \<longleftrightarrow>
     (\<exists>s sj. h_sess h (aj_session j) = Some s \<and> aj_session_job j \<in> set (job_list s) \<and>
        h_sjob h (aj_session_job j) = Some sj \<and> sj_state sj = AIPU_JOB_STATE_IDLE \<and>
        sj_uthread_id sj = aj_uthread_id j)"

definition jobs_live :: "heap \<Rightarrow> aipu_job_manager \<Rightarrow> bool" where
  "jobs_live h jm \<longleftrightarrow>
     (\<forall>j \<in> set (all_jobs jm). aj_ptr j < h_next h \<and> (valid_job j \<longrightarrow> job_live h j)) \<and>
     distinct (map aj_session_job (filter valid_job (all_jobs jm)))"

definition jobs_ok :: "sys \<Rightarrow> bool" where
  "jobs_ok s \<longleftrightarrow> heap_wf (hp s) \<and> jm_wf (jm_of s) \<and> jobs_live (hp s) (jm_of s)"

lemma jm_wf_heads:
  assumes "jm_wf jm"
  shows "pending_queue jm = Some (pending_jobs jm)" "scheduled_queue jm = Some (scheduled_jobs jm)"
  using assms by (auto simp: jm_wf_def pending_jobs_def scheduled_jobs_def)

lemma jobs_okD:
  assumes "jobs_ok s"
  shows "heap_wf (hp s)" "jm_wf (jm_of s)" "jobs_live (hp s) (jm_of s)"
  using assms by (simp_all add: jobs_ok_def)

lemma jobs_upd_simps [simp]:
  "pending_jobs (jm\<lparr>pending_queue := Some q\<rparr>) = q"
  "scheduled_jobs (jm\<lparr>scheduled_queue := Some q\<rparr>) = q"
  "pending_jobs (jm\<lparr>scheduled_queue := x\<rparr>) = pending_jobs jm"
  "scheduled_jobs (jm\<lparr>pending_queue := x\<rparr>) = scheduled_jobs jm"
  "pending_jobs (jm\<lparr>sched_num := n\<rparr>) = pending_jobs jm"
  "scheduled_jobs (jm\<lparr>sched_num := n\<rparr>) = scheduled_jobs jm"
  by (simp_all add: pending_jobs_def scheduled_jobs_def)

subsection \<open>Changes of profiling data\<close>

definition sj_core :: "session_job \<Rightarrow> int \<times> user_job_desc \<times> job_state \<times> int" where
  "sj_core j = (sj_uthread_id j, sj_desc j, sj_state j, sj_exception_type j)"

text \<open>Only times and profiling data of session jobs differ.\<close>

definition same_jobs :: "heap \<Rightarrow> heap \<Rightarrow> bool" where
  "same_jobs h h' \<longleftrightarrow> h_sess h' = h_sess h \<and> h_next h' = h_next h \<and>
     (\<forall>p. map_option sj_core (h_sjob h' p) = map_option sj_core (h_sjob h p))"

lemma same_jobs_refl [simp]: "same_jobs h h"
  by (simp add: same_jobs_def)

lemma same_jobs_trans: "same_jobs h h' \<Longrightarrow> same_jobs h' h'' \<Longrightarrow> same_jobs h h''"
  by (simp add: same_jobs_def)

lemma same_jobs_put: "h_sjob h p = Some j \<Longrightarrow> sj_core j' = sj_core j \<Longrightarrow> same_jobs h (put_sjob p j' h)"
  by (simp add: same_jobs_def)

lemma same_jobs_get:
  assumes "same_jobs h h'" "h_sjob h p = Some j"
  obtains j' where "h_sjob h' p = Some j'" "sj_core j' = sj_core j"
proof -
  have "map_option sj_core (h_sjob h' p) = Some (sj_core j)" using assms by (simp add: same_jobs_def)
  then show thesis using that by (cases "h_sjob h' p") auto
qed

lemma same_jobs_None: "same_jobs h h' \<Longrightarrow> h_sjob h' p = None \<longleftrightarrow> h_sjob h p = None"
  unfolding same_jobs_def by (metis map_option_is_None)

lemma same_jobs_session_wf:
  assumes "same_jobs h h'" "session_wf (h_sjob h) s"
  shows "session_wf (h_sjob h') s"
proof -
  obtain qs where qs: "wait_queue_head s = Some qs" "waitqs_wf qs"
    and own: "\<And>p. p \<in> set (job_list s) \<Longrightarrow> \<exists>j. h_sjob h p = Some j \<and> sj_uthread_id j \<in> wq_uthread_id ` set qs"
    using session_wf_qs [OF assms(2)] by blast
  have "\<exists>j. h_sjob h' p = Some j \<and> sj_uthread_id j \<in> wq_uthread_id ` set qs" if p: "p \<in> set (job_list s)" for p
  proof -
    obtain j where j: "h_sjob h p = Some j" "sj_uthread_id j \<in> wq_uthread_id ` set qs" using own [OF p] by blast
    obtain j' where "h_sjob h' p = Some j'" "sj_core j' = sj_core j" by (rule same_jobs_get [OF assms(1) j(1)])
    then show ?thesis using j(2) by (simp add: sj_core_def)
  qed
  then show ?thesis using assms(2) qs by (simp add: session_wf_def)
qed

lemma same_jobs_wf:
  assumes "same_jobs h h'" "heap_wf h"
  shows "heap_wf h'"
proof -
  have e: "h_sess h' = h_sess h" "h_next h' = h_next h" using assms(1) by (simp_all add: same_jobs_def)
  show ?thesis
    using assms(2) same_jobs_session_wf [OF assms(1)]
    unfolding heap_wf_def e same_jobs_None [OF assms(1)] by blast
qed

lemma same_jobs_sym: "same_jobs h h' \<Longrightarrow> same_jobs h' h"
  by (simp add: same_jobs_def)

lemma same_jobs_live:
  assumes "same_jobs h h'" "job_live h j"
  shows "job_live h' j"
proof -
  obtain s sj where s: "h_sess h (aj_session j) = Some s" "aj_session_job j \<in> set (job_list s)"
    and sj: "h_sjob h (aj_session_job j) = Some sj" "sj_state sj = AIPU_JOB_STATE_IDLE"
      "sj_uthread_id sj = aj_uthread_id j"
    using assms(2) by (auto simp: job_live_def)
  obtain sj' where "h_sjob h' (aj_session_job j) = Some sj'" "sj_core sj' = sj_core sj"
    by (rule same_jobs_get [OF assms(1) sj(1)])
  moreover have "h_sess h' = h_sess h" using assms(1) by (simp add: same_jobs_def)
  ultimately show ?thesis using s sj by (auto simp: job_live_def sj_core_def)
qed

lemma same_jobs_jobs_live: "same_jobs h h' \<Longrightarrow> jobs_live h' jm \<longleftrightarrow> jobs_live h jm"
  using same_jobs_live [of h h'] same_jobs_live [OF same_jobs_sym, of h h']
  by (auto simp: jobs_live_def same_jobs_def)

subsection \<open>Working with the queues\<close>

lemma jm_wfI:
  assumes "pending_queue jm = Some ps" "scheduled_queue jm = Some (es @ rs)"
    and "\<And>j. j \<in> set ps \<Longrightarrow> aj_state j = AIPU_JOB_STATE_PENDING \<and> valid_job j"
    and "\<And>j. j \<in> set es \<Longrightarrow> aj_state j = AIPU_JOB_STATE_END"
    and "\<And>j. j \<in> set rs \<Longrightarrow> aj_state j = AIPU_JOB_STATE_SCHED"
    and "sched_num jm = int (length rs)" "sched_num jm \<le> max_sched_num jm"
    and "distinct (map aj_ptr (es @ rs @ ps))"
  shows "jm_wf jm"
proof -
  have e: "pending_jobs jm = ps" "scheduled_jobs jm = es @ rs"
    using assms(1,2) by (simp_all add: pending_jobs_def scheduled_jobs_def)
  have "\<exists>es' rs'. scheduled_jobs jm = es' @ rs' \<and> (\<forall>j \<in> set es'. aj_state j = AIPU_JOB_STATE_END) \<and>
      (\<forall>j \<in> set rs'. aj_state j = AIPU_JOB_STATE_SCHED) \<and> sched_num jm = int (length rs')"
    using assms(4-6) e by blast
  then show ?thesis using assms(1,2,3,7,8) e by (simp add: jm_wf_def order_of_def all_jobs_def)
qed

lemma jm_wfE:
  assumes "jm_wf jm"
  obtains ps es rs where "pending_queue jm = Some ps" "scheduled_queue jm = Some (es @ rs)"
    "pending_jobs jm = ps" "scheduled_jobs jm = es @ rs"
    "\<And>j. j \<in> set ps \<Longrightarrow> aj_state j = AIPU_JOB_STATE_PENDING \<and> valid_job j"
    "\<And>j. j \<in> set es \<Longrightarrow> aj_state j = AIPU_JOB_STATE_END"
    "\<And>j. j \<in> set rs \<Longrightarrow> aj_state j = AIPU_JOB_STATE_SCHED"
    "sched_num jm = int (length rs)" "sched_num jm \<le> max_sched_num jm"
    "distinct (map aj_ptr (es @ rs @ ps))"
proof -
  obtain es rs where er: "scheduled_jobs jm = es @ rs" "\<forall>j \<in> set es. aj_state j = AIPU_JOB_STATE_END"
      "\<forall>j \<in> set rs. aj_state j = AIPU_JOB_STATE_SCHED" "sched_num jm = int (length rs)"
    using assms unfolding jm_wf_def by blast
  have "\<forall>j \<in> set (pending_jobs jm). aj_state j = AIPU_JOB_STATE_PENDING \<and> valid_job j"
    "sched_num jm \<le> max_sched_num jm" "distinct (order_of jm)"
    using assms unfolding jm_wf_def by blast+
  with er jm_wf_heads [OF assms] show thesis
    by (intro that [of "pending_jobs jm" es rs]) (auto simp: order_of_def all_jobs_def)
qed

text \<open>What liveness depends on.\<close>

definition job_key :: "aipu_job \<Rightarrow> ptr \<times> int \<times> ptr \<times> ptr \<times> int" where
  "job_key j = (aj_ptr j, aj_uthread_id j, aj_session j, aj_session_job j, aj_valid_flag j)"

lemma job_key_live: "job_key j = job_key k \<Longrightarrow> job_live h j \<longleftrightarrow> job_live h k"
  by (simp add: job_key_def job_live_def)

lemma job_key_valid: "job_key j = job_key k \<Longrightarrow> valid_job j \<longleftrightarrow> valid_job k"
  by (simp add: job_key_def valid_job_def)

lemma job_key_simps [simp]:
  "job_key (j\<lparr>aj_state := st\<rparr>) = job_key j" "job_key (j\<lparr>aj_exception_flag := x\<rparr>) = job_key j"
  "valid_job (j\<lparr>aj_state := st\<rparr>) = valid_job j" "valid_job (j\<lparr>aj_exception_flag := x\<rparr>) = valid_job j"
  by (simp_all add: job_key_def valid_job_def)

lemma map_key_valid:
  "map job_key xs = map job_key ys \<Longrightarrow>
   map aj_session_job (filter valid_job xs) = map aj_session_job (filter valid_job ys) \<and>
   map aj_ptr xs = map aj_ptr ys"
proof (induction xs arbitrary: ys)
  case (Cons x xs)
  then obtain y zs where y: "ys = y # zs" "job_key x = job_key y" "map job_key xs = map job_key zs" by (cases ys) auto
  from Cons.IH [OF y(3)] job_key_valid [OF y(2)] y(1,2) show ?case by (auto simp: job_key_def)
qed simp

lemma jobs_live_cong:
  assumes "map job_key (all_jobs jm') = map job_key (all_jobs jm)"
  shows "jobs_live h jm' \<longleftrightarrow> jobs_live h jm"
proof -
  let ?P = "\<lambda>j. aj_ptr j < h_next h \<and> (valid_job j \<longrightarrow> job_live h j)"
  let ?Q = "\<lambda>(p, t, sp, jp, v). p < h_next h \<and> (v = AIPU_JOB_FLAG_VALID \<longrightarrow>
      (\<exists>s sj. h_sess h sp = Some s \<and> jp \<in> set (job_list s) \<and> h_sjob h jp = Some sj \<and>
        sj_state sj = AIPU_JOB_STATE_IDLE \<and> sj_uthread_id sj = t))"
  have q: "?P j \<longleftrightarrow> ?Q (job_key j)" for j
    by (simp add: job_key_def job_live_def valid_job_def)
  have "(\<forall>j \<in> set (all_jobs jm'). ?P j) \<longleftrightarrow> (\<forall>k \<in> set (map job_key (all_jobs jm')). ?Q k)" unfolding q by simp
  also have "\<dots> \<longleftrightarrow> (\<forall>j \<in> set (all_jobs jm). ?P j)" unfolding assms q by simp
  finally show ?thesis using map_key_valid [OF assms] by (simp add: jobs_live_def)
qed

lemma order_cong: "map job_key (all_jobs jm') = map job_key (all_jobs jm) \<Longrightarrow> order_of jm' = order_of jm"
  unfolding order_of_def by (drule map_key_valid) blast

lemma jobs_liveD:
  assumes "jobs_live h jm" "j \<in> set (all_jobs jm)"
  shows "aj_ptr j < h_next h" "valid_job j \<Longrightarrow> job_live h j"
  using assms by (simp_all add: jobs_live_def)

lemma job_live_job:
  assumes "job_live h j"
  obtains sj where "h_sjob h (aj_session_job j) = Some sj" "sj_state sj = AIPU_JOB_STATE_IDLE"
  using assms by (auto simp: job_live_def)

subsection \<open>Scheduling\<close>

lemma prof_enabled_live:
  assumes "heap_wf h" "h_sjob h p = Some sj"
  shows "is_session_job_prof_enabled h p = Some (enable_prof (sj_desc sj))"
proof -
  have "p \<noteq> 0" using assms heap_wf_null(2) [OF assms(1)] by (cases p) auto
  then show ?thesis using assms(2) by (simp add: is_session_job_prof_enabled_def)
qed

lemma trigger_effect:
  assumes wf: "heap_wf (hp s)" and live: "job_live (hp s) job"
  shows "\<exists>s'. aipu_job_manager_trigger_job_sched e s job = Some s' \<and> priv s' = priv s \<and>
    work_queued s' = work_queued s \<and> same_jobs (hp s) (hp s')"
proof -
  obtain sj where sj: "h_sjob (hp s) (aj_session_job job) = Some sj" by (rule job_live_job [OF live])
  let ?s1 = "exec_io (aipu_priv_trigger (priv s) (aj_desc job)) s"
  have pe: "is_session_job_prof_enabled (hp s) (aj_session_job job) = Some (enable_prof (sj_desc sj))"
    by (rule prof_enabled_live [OF wf sj])
  show ?thesis
  proof (cases "enable_prof (sj_desc sj) = 0")
    case True
    then show ?thesis by (simp add: aipu_job_manager_trigger_job_sched_def pe Let_def)
  next
    case False
    have m: "session_job_mark_sched e (hp s) (aj_session_job job) =
        Some (put_sjob (aj_session_job job) (sj\<lparr>sj_sched_time := now_ns e\<rparr>) (hp s))"
      by (rule mark_sched_effect(1) [OF wf sj])
    have "same_jobs (hp s) (put_sjob (aj_session_job job) (sj\<lparr>sj_sched_time := now_ns e\<rparr>) (hp s))"
      by (rule same_jobs_put [OF sj]) (simp add: sj_core_def)
    then show ?thesis using False m by (simp add: aipu_job_manager_trigger_job_sched_def pe Let_def)
  qed
qed

text \<open>
  One call of the scheduler either changes nothing but the device log, or moves the first
  pending job to the end of the scheduled queue; it moves it exactly when there is one,
  there is room, and the core reports idle.
\<close>

definition sched_frame :: "sys \<Rightarrow> sys \<Rightarrow> bool" where
  "sched_frame s s' \<longleftrightarrow>
     priv s' = (priv s)\<lparr>job_manager := jm_of s'\<rparr> \<and> work_queued s' = work_queued s \<and>
     max_sched_num (jm_of s') = max_sched_num (jm_of s) \<and> init_done (jm_of s') = init_done (jm_of s)"

definition will_schedule :: "sys \<Rightarrow> bool" where
  "will_schedule s \<longleftrightarrow> pending_jobs (jm_of s) \<noteq> [] \<and> sched_num (jm_of s) < max_sched_num (jm_of s) \<and>
     fst (run_io (aipu_priv_is_idle (priv s)) s)"

definition scheduled_first :: "aipu_job_manager \<Rightarrow> aipu_job_manager" where
  "scheduled_first jm =
     jm\<lparr>pending_queue := Some (tl (pending_jobs jm)),
        scheduled_queue := Some (scheduled_jobs jm @ [(hd (pending_jobs jm))\<lparr>aj_state := AIPU_JOB_STATE_SCHED\<rparr>]),
        sched_num := sched_num jm + 1\<rparr>"

lemma scheduled_first_simps [simp]:
  "pending_jobs (scheduled_first jm) = tl (pending_jobs jm)"
  "scheduled_jobs (scheduled_first jm) = scheduled_jobs jm @ [(hd (pending_jobs jm))\<lparr>aj_state := AIPU_JOB_STATE_SCHED\<rparr>]"
  by (simp_all add: scheduled_first_def pending_jobs_def scheduled_jobs_def)

lemma scheduled_first_keys:
  "pending_jobs jm \<noteq> [] \<Longrightarrow> map job_key (all_jobs (scheduled_first jm)) = map job_key (all_jobs jm)"
  by (cases "pending_jobs jm") (simp_all add: all_jobs_def)

lemma scheduled_first_wf:
  assumes "jm_wf jm" "pending_jobs jm \<noteq> []" "sched_num jm < max_sched_num jm"
  shows "jm_wf (scheduled_first jm)"
proof (rule jm_wfE [OF assms(1)])
  fix ps es rs
  assume a: "pending_jobs jm = ps" "scheduled_jobs jm = es @ rs"
    "\<And>j. j \<in> set ps \<Longrightarrow> aj_state j = AIPU_JOB_STATE_PENDING \<and> valid_job j"
    "\<And>j. j \<in> set es \<Longrightarrow> aj_state j = AIPU_JOB_STATE_END"
    "\<And>j. j \<in> set rs \<Longrightarrow> aj_state j = AIPU_JOB_STATE_SCHED"
    "sched_num jm = int (length rs)" "distinct (map aj_ptr (es @ rs @ ps))"
  then obtain p qs where p: "ps = p # qs" using assms(2) by (cases ps) auto
  show ?thesis
    by (rule jm_wfI [of _ qs es "rs @ [p\<lparr>aj_state := AIPU_JOB_STATE_SCHED\<rparr>]"])
       (use a p assms(3) in \<open>auto simp: scheduled_first_def\<close>)
qed

lemma schedule_pending_effect:
  assumes ok: "jobs_ok s"
  shows "\<exists>s'. aipu_schedule_pending_job_no_lock e s = Some s' \<and> jobs_ok s' \<and> sched_frame s s' \<and>
    same_jobs (hp s) (hp s') \<and> map job_key (all_jobs (jm_of s')) = map job_key (all_jobs (jm_of s)) \<and>
    jm_of s' = (if will_schedule s then scheduled_first (jm_of s) else jm_of s)"
proof -
  note wf = jobs_okD [OF ok]
  note heads = jm_wf_heads [OF wf(2)]
  show ?thesis
  proof (cases "pending_jobs (jm_of s) \<noteq> [] \<and> sched_num (jm_of s) < max_sched_num (jm_of s)")
    case False
    then have "aipu_schedule_pending_job_no_lock e s = Some s"
      by (auto simp: aipu_schedule_pending_job_no_lock_def heads)
    then show ?thesis using ok False by (auto simp: sched_frame_def will_schedule_def)
  next
    case True
    obtain idle s1 where r: "run_io (aipu_priv_is_idle (priv s)) s = (idle, s1)" by fastforce
    have s1: "priv s1 = priv s" "hp s1 = hp s" "work_queued s1 = work_queued s"
      using run_ioE [OF r] by blast+
    have ws: "will_schedule s \<longleftrightarrow> idle" using True r by (simp add: will_schedule_def)
    show ?thesis
    proof (cases idle)
      case False
      then have "aipu_schedule_pending_job_no_lock e s = Some s1"
        using True by (simp add: aipu_schedule_pending_job_no_lock_def heads r)
      then show ?thesis using ok s1 ws False by (simp add: sched_frame_def jobs_ok_def)
    next
      case idle: True
      let ?j = "hd (pending_jobs (jm_of s))"
      have jp: "?j \<in> set (pending_jobs (jm_of s))" using True by simp
      have jv: "valid_job ?j" using wf(2) jp unfolding jm_wf_def by blast
      have "job_live (hp s1) ?j" using jobs_liveD(2) [OF wf(3) _ jv] jp s1 by (simp add: all_jobs_def)
      from trigger_effect [OF _ this, of e] wf(1) s1 obtain s2 where
        s2: "aipu_job_manager_trigger_job_sched e s1 ?j = Some s2" "priv s2 = priv s"
          "work_queued s2 = work_queued s" "same_jobs (hp s) (hp s2)" by auto
      let ?s' = "put_jm (scheduled_first (jm_of s)) s2"
      have e1: "aipu_schedule_pending_job_no_lock e s = Some ?s'"
        using True idle s2(2) by (simp add: aipu_schedule_pending_job_no_lock_def heads r s2(1)
            scheduled_first_def Let_def)
      have k: "map job_key (all_jobs (scheduled_first (jm_of s))) = map job_key (all_jobs (jm_of s))"
        using True by (intro scheduled_first_keys) simp
      have "jobs_ok ?s'"
        using same_jobs_wf [OF s2(4) wf(1)] scheduled_first_wf [OF wf(2)] True wf(3) s2(4)
          same_jobs_jobs_live [OF s2(4)] jobs_live_cong [OF k] by (simp add: jobs_ok_def)
      then show ?thesis using e1 k s2 ws idle
        by (auto simp: sched_frame_def scheduled_first_def intro!: exI [of _ ?s'])
    qed
  qed
qed

subsection \<open>Submission\<close>

lemma same_jobs_next:
  assumes "heap_wf h"
  shows "heap_wf (h\<lparr>h_next := h_next h + 1\<rparr>)"
  using assms unfolding heap_wf_def by (auto simp: less_Suc_eq)

lemma submit_effect:
  assumes ok: "jobs_ok s" and st: "h_sess (hp s) sp = Some st" and jl: "jp \<in> set (job_list st)"
    and sj: "h_sjob (hp s) jp = Some sj" "sj_state sj = AIPU_JOB_STATE_IDLE"
    and new: "jp \<notin> aj_session_job ` {j \<in> set (all_jobs (jm_of s)). valid_job j}"
    and kz: "kz_ajob e"
    and j_def: "j = \<lparr>aj_ptr = h_next (hp s), aj_uthread_id = sj_uthread_id sj, aj_desc = uj_desc uj,
           aj_session = sp, aj_session_job = jp, aj_state = AIPU_JOB_STATE_PENDING,
           aj_exception_flag = AIPU_EXCEP_NO_EXCEPTION, aj_valid_flag = AIPU_JOB_FLAG_VALID\<rparr>"
    and s1_def: "s1 = put_jm ((jm_of s)\<lparr>pending_queue := Some (pending_jobs (jm_of s) @ [j])\<rparr>)
           (put_hp ((hp s)\<lparr>h_next := h_next (hp s) + 1\<rparr>) s)"
  shows "jobs_ok s1" and "aipu_job_manager_schedule_new_job e s uj jp sp =
      map_option (\<lambda>s2. (AIPU_ERRCODE_NO_ERROR, s2, uj\<lparr>uj_errcode := AIPU_ERRCODE_NO_ERROR\<rparr>))
        (aipu_schedule_pending_job_no_lock e s1)"
proof -
  note wf = jobs_okD [OF ok]
  let ?h = "(hp s)\<lparr>h_next := h_next (hp s) + 1\<rparr>"
  let ?jm = "(jm_of s)\<lparr>pending_queue := Some (pending_jobs (jm_of s) @ [j])\<rparr>"
  have nz: "sp \<noteq> 0" "jp \<noteq> 0"
    using session_null [OF wf(1) st] session_jobs_live(2) [OF wf(1) st] jl by auto
  have fresh: "aj_ptr j \<notin> set (order_of (jm_of s))"
    using jobs_liveD(1) [OF wf(3)] by (fastforce simp: order_of_def j_def)
  have jmw: "jm_wf ?jm"
  proof (rule jm_wfE [OF wf(2)])
    fix ps es rs
    assume a: "pending_jobs (jm_of s) = ps" "scheduled_queue (jm_of s) = Some (es @ rs)" "scheduled_jobs (jm_of s) = es @ rs"
      "\<And>j. j \<in> set ps \<Longrightarrow> aj_state j = AIPU_JOB_STATE_PENDING \<and> valid_job j"
      "\<And>j. j \<in> set es \<Longrightarrow> aj_state j = AIPU_JOB_STATE_END"
      "\<And>j. j \<in> set rs \<Longrightarrow> aj_state j = AIPU_JOB_STATE_SCHED"
      "sched_num (jm_of s) = int (length rs)" "sched_num (jm_of s) \<le> max_sched_num (jm_of s)"
      "distinct (map aj_ptr (es @ rs @ ps))"
    show ?thesis
      by (rule jm_wfI [of _ "ps @ [j]" es rs])
         (use a fresh in \<open>auto simp: order_of_def all_jobs_def j_def valid_job_def\<close>)
  qed
  have aj: "all_jobs ?jm = all_jobs (jm_of s) @ [j]" by (simp add: all_jobs_def)
  have lj: "job_live ?h k \<longleftrightarrow> job_live (hp s) k" for k by (simp add: job_live_def)
  have "job_live ?h j" using st jl sj by (auto simp: job_live_def j_def)
  then have "jobs_live ?h ?jm"
    using wf(3) new unfolding jobs_live_def aj lj
    by (auto simp: j_def valid_job_def less_Suc_eq image_iff)
  then show "jobs_ok s1" using same_jobs_next [OF wf(1)] jmw by (simp add: jobs_ok_def s1_def)
  have ini: "init_aipu_job (hp s) (h_next (hp s)) (Some (uj_desc uj)) jp sp =
      Some (j\<lparr>aj_state := AIPU_JOB_STATE_IDLE\<rparr>)"
    using nz sj(1) by (simp add: init_aipu_job_def j_def)
  show "aipu_job_manager_schedule_new_job e s uj jp sp =
      map_option (\<lambda>s2. (AIPU_ERRCODE_NO_ERROR, s2, uj\<lparr>uj_errcode := AIPU_ERRCODE_NO_ERROR\<rparr>))
        (aipu_schedule_pending_job_no_lock e s1)"
    using nz kz by (cases "aipu_schedule_pending_job_no_lock e s1")
      (simp_all add: aipu_job_manager_schedule_new_job_def create_aipu_job_def ini
        jm_wf_heads [OF wf(2)] s1_def j_def Let_def)
qed

lemma submit_no_memory:
  assumes "sp \<noteq> 0" "jp \<noteq> 0" "\<not> kz_ajob e"
  shows "aipu_job_manager_schedule_new_job e s uj jp sp =
    Some (map_errcode AIPU_ERRCODE_CREATE_KOBJ_ERR, s, uj\<lparr>uj_errcode := AIPU_ERRCODE_CREATE_KOBJ_ERR\<rparr>)"
  using assms by (simp add: aipu_job_manager_schedule_new_job_def create_aipu_job_def)

subsection \<open>The interrupt: the first running job has ended\<close>

definition ended :: "aipu_job_manager \<Rightarrow> aipu_job list" where
  "ended jm = takeWhile (\<lambda>j. aj_state j = AIPU_JOB_STATE_END) (scheduled_jobs jm)"

definition running :: "aipu_job_manager \<Rightarrow> aipu_job list" where
  "running jm = dropWhile (\<lambda>j. aj_state j = AIPU_JOB_STATE_END) (scheduled_jobs jm)"

lemma ended_running:
  assumes "jm_wf jm"
  shows "scheduled_jobs jm = ended jm @ running jm"
    and "\<forall>j \<in> set (ended jm). aj_state j = AIPU_JOB_STATE_END"
    and "\<forall>j \<in> set (running jm). aj_state j = AIPU_JOB_STATE_SCHED"
    and "sched_num jm = int (length (running jm))"
proof -
  show "scheduled_jobs jm = ended jm @ running jm" by (simp add: ended_def running_def)
  show "\<forall>j \<in> set (ended jm). aj_state j = AIPU_JOB_STATE_END" by (auto simp: ended_def dest: set_takeWhileD)
  obtain es rs where er: "scheduled_jobs jm = es @ rs" "\<forall>j \<in> set es. aj_state j = AIPU_JOB_STATE_END"
      "\<forall>j \<in> set rs. aj_state j = AIPU_JOB_STATE_SCHED" "sched_num jm = int (length rs)"
    using assms unfolding jm_wf_def by blast
  have "running jm = rs"
    using er(2,3) by (cases rs) (auto simp: running_def er(1) dropWhile_append3 dropWhile_eq_Nil_conv)
  with er show "\<forall>j \<in> set (running jm). aj_state j = AIPU_JOB_STATE_SCHED" "sched_num jm = int (length (running jm))"
    by simp_all
qed

lemma first_sched_append:
  "\<forall>j \<in> set es. aj_state j = AIPU_JOB_STATE_END \<Longrightarrow> \<forall>j \<in> set rs. aj_state j = AIPU_JOB_STATE_SCHED \<Longrightarrow>
   first_sched (es @ rs) = (if rs = [] then None else Some (length es))"
proof (induction es)
  case Nil
  then show ?case by (cases rs) auto
qed auto

definition completed :: "int \<Rightarrow> aipu_job \<Rightarrow> aipu_job" where
  "completed x j = j\<lparr>aj_state := AIPU_JOB_STATE_END, aj_exception_flag := x\<rparr>"

definition completed_first :: "int \<Rightarrow> aipu_job_manager \<Rightarrow> aipu_job_manager" where
  "completed_first x jm =
     jm\<lparr>scheduled_queue := Some (ended jm @ completed x (hd (running jm)) # tl (running jm)),
        sched_num := sched_num jm - 1\<rparr>"

lemma completed_simps [simp]:
  "aj_state (completed x j) = AIPU_JOB_STATE_END" "job_key (completed x j) = job_key j"
  "aj_ptr (completed x j) = aj_ptr j" "valid_job (completed x j) = valid_job j"
  "aj_session (completed x j) = aj_session j" "aj_session_job (completed x j) = aj_session_job j"
  "aj_valid_flag (completed x j) = aj_valid_flag j" "aj_exception_flag (completed x j) = x"
  by (simp_all add: completed_def)

lemma completed_first_simps [simp]:
  "pending_jobs (completed_first x jm) = pending_jobs jm"
  "pending_queue (completed_first x jm) = pending_queue jm"
  "max_sched_num (completed_first x jm) = max_sched_num jm"
  "init_done (completed_first x jm) = init_done jm"
  "scheduled_jobs (completed_first x jm) = ended jm @ completed x (hd (running jm)) # tl (running jm)"
  "sched_num (completed_first x jm) = sched_num jm - 1"
  by (simp_all add: completed_first_def pending_jobs_def scheduled_jobs_def)

lemma completed_first_keys:
  assumes "jm_wf jm" "running jm \<noteq> []"
  shows "map job_key (all_jobs (completed_first x jm)) = map job_key (all_jobs jm)"
  using assms(2) by (cases "running jm") (simp_all add: all_jobs_def ended_running(1) [OF assms(1)])

lemma completed_first_wf:
  assumes "jm_wf jm" "running jm \<noteq> []"
  shows "jm_wf (completed_first x jm)"
proof -
  note er = ended_running [OF assms(1)]
  obtain r rs where r: "running jm = r # rs" using assms(2) by (cases "running jm") auto
  show ?thesis
  proof (rule jm_wfE [OF assms(1)])
    fix ps es rs'
    assume a: "pending_queue jm = Some ps" "pending_jobs jm = ps" "scheduled_jobs jm = es @ rs'"
      "\<And>j. j \<in> set ps \<Longrightarrow> aj_state j = AIPU_JOB_STATE_PENDING \<and> valid_job j"
      "sched_num jm \<le> max_sched_num jm" "distinct (map aj_ptr (es @ rs' @ ps))"
    have "es @ rs' @ ps = ended jm @ running jm @ ps" using a(3) er(1) by (metis append_assoc)
    then have d: "distinct (map aj_ptr (ended jm @ running jm @ ps))" using a(6) by (simp only:)
    show ?thesis
      by (rule jm_wfI [of _ ps "ended jm @ [completed x r]" rs])
         (use a d er r in \<open>auto simp: completed_first_def\<close>)
  qed
qed

lemma update_pdata_effect:
  assumes wf: "heap_wf (hp s)" and live: "job_live (hp s) j"
  shows "\<exists>s'. aipu_session_job_update_pdata s (aj_session j) (aj_session_job j) = Some s' \<and>
    priv s' = priv s \<and> work_queued s' = work_queued s \<and> same_jobs (hp s) (hp s')"
proof -
  obtain st sj where l: "h_sess (hp s) (aj_session j) = Some st" "h_sjob (hp s) (aj_session_job j) = Some sj"
    using live by (auto simp: job_live_def)
  obtain pd s1 where r: "run_io (aipu_priv_read_profiling_reg (priv s) (sj_pdata sj)) s = (pd, s1)" by fastforce
  have s1: "priv s1 = priv s" "hp s1 = hp s" "work_queued s1 = work_queued s" using run_ioE [OF r] by blast+
  have "same_jobs (hp s) (put_sjob (aj_session_job j) (sj\<lparr>sj_pdata := pd\<rparr>) (hp s))"
    by (rule same_jobs_put [OF l(2)]) (simp add: sj_core_def)
  then show ?thesis using l r s1 by (auto simp: aipu_session_job_update_pdata_def)
qed

lemma update_profiling_effect:
  assumes wf: "heap_wf (hp s)" and live: "job_live (hp s) j"
  shows "\<exists>s'. aipu_job_manager_update_job_profiling_data s j = Some s' \<and>
    priv s' = priv s \<and> work_queued s' = work_queued s \<and> same_jobs (hp s) (hp s')"
proof -
  obtain sj where sj: "h_sjob (hp s) (aj_session_job j) = Some sj" by (rule job_live_job [OF live])
  let ?s1 = "exec_io (aipu_priv_stop_bw_profiling (priv s)) s"
  have "\<exists>s'. aipu_session_job_update_pdata ?s1 (aj_session j) (aj_session_job j) = Some s' \<and>
    priv s' = priv s \<and> work_queued s' = work_queued s \<and> same_jobs (hp s) (hp s')"
    using update_pdata_effect [of ?s1 j] wf live by simp
  then show ?thesis
    by (auto simp: aipu_job_manager_update_job_profiling_data_def prof_enabled_live [OF wf sj])
qed

text \<open>The upper half with a running job whose session job still exists: the first running job
  ends with the flag, then the scheduler runs.
\<close>

lemma state_irq_effect:
  assumes ok: "jobs_ok s" and run: "running (jm_of s) \<noteq> []"
    and live: "job_live (hp s) (hd (running (jm_of s)))"
  shows "\<exists>s1. aipu_job_manager_update_job_state_irq e s x = aipu_schedule_pending_job_no_lock e s1 \<and>
    jobs_ok s1 \<and> same_jobs (hp s) (hp s1) \<and> priv s1 = (priv s)\<lparr>job_manager := completed_first x (jm_of s)\<rparr> \<and>
    work_queued s1 = work_queued s"
proof -
  note wf = jobs_okD [OF ok]
  note er = ended_running [OF wf(2)]
  let ?jm = "jm_of s"
  obtain r rs where r: "running ?jm = r # rs" using run by (cases "running ?jm") auto
  have fs: "first_sched (scheduled_jobs ?jm) = Some (length (ended ?jm))"
    using first_sched_append [OF er(2,3)] er(1) run by simp
  have nth: "scheduled_jobs ?jm ! length (ended ?jm) = r" by (simp add: er(1) r)
  let ?job = "completed x r"
  have upd: "(scheduled_jobs ?jm)[length (ended ?jm) := ?job] = ended ?jm @ ?job # rs"
    by (simp add: er(1) r)
  let ?s1 = "put_jm (?jm\<lparr>scheduled_queue := Some (ended ?jm @ ?job # rs)\<rparr>) s"
  have rl: "job_live (hp s) ?job" using live job_key_live [of ?job r] by (simp add: r)
  obtain sj where sj: "h_sjob (hp s) (aj_session_job r) = Some sj" using job_live_job [OF rl] by auto
  have pe: "is_session_job_prof_enabled (hp s) (aj_session_job r) = Some (enable_prof (sj_desc sj))"
    by (rule prof_enabled_live [OF wf(1) sj])
  obtain h where h: "(if enable_prof (sj_desc sj) \<noteq> 0 then session_job_mark_done e (hp s) (aj_session_job r)
      else Some (hp s)) = Some h" "same_jobs (hp s) h"
  proof (cases "enable_prof (sj_desc sj) = 0")
    case False
    have "aj_session_job r \<noteq> 0" using sj heap_wf_null(2) [OF wf(1)] by (cases "aj_session_job r") auto
    then obtain j' where
      j': "session_job_mark_done e (hp s) (aj_session_job r) = Some (put_sjob (aj_session_job r) j' (hp s))"
        "sj_core j' = sj_core sj"
      using sj by (simp add: session_job_mark_done_def sj_core_def)
    show thesis by (rule that [of "put_sjob (aj_session_job r) j' (hp s)"]) (use False j' same_jobs_put [OF sj] in auto)
  qed (use that [of "hp s"] in simp)
  have hwf: "heap_wf h" by (rule same_jobs_wf [OF h(2) wf(1)])
  let ?s2 = "put_hp h ?s1"
  have "job_live (hp ?s2) ?job" using same_jobs_live [OF h(2) rl] by simp
  from update_profiling_effect [OF _ this] hwf obtain s3' where
    s3': "aipu_job_manager_update_job_profiling_data ?s2 ?job = Some s3'" "priv s3' = priv ?s2"
      "work_queued s3' = work_queued s" "same_jobs h (hp s3')" by auto
  obtain s3 where s3: "(if aj_valid_flag r = AIPU_JOB_FLAG_VALID
      then aipu_job_manager_update_job_profiling_data ?s2 ?job else Some ?s2) = Some s3"
      "priv s3 = priv ?s2" "work_queued s3 = work_queued s" "same_jobs h (hp s3)"
    using s3' by (cases "aj_valid_flag r = AIPU_JOB_FLAG_VALID") auto
  have sn: "sched_num ?jm = int (length rs) + 1" using er(4) r by simp
  let ?s4 = "put_jm (completed_first x ?jm) s3"
  have cf: "completed_first x ?jm = ?jm\<lparr>scheduled_queue := Some (ended ?jm @ ?job # rs), sched_num := sched_num ?jm - 1\<rparr>"
    by (simp add: completed_first_def r)
  have q: "scheduled_queue ?jm = Some (scheduled_jobs ?jm)" by (rule jm_wf_heads(2) [OF wf(2)])
  have job: "(scheduled_jobs ?jm ! length (ended ?jm))\<lparr>aj_state := AIPU_JOB_STATE_END, aj_exception_flag := x\<rparr> = ?job"
    by (simp add: nth completed_def)
  have eq: "aipu_job_manager_update_job_state_irq e s x = aipu_schedule_pending_job_no_lock e ?s4"
    unfolding aipu_job_manager_update_job_state_irq_def q bind.bind_lunit fs option.case job Let_def upd
      completed_simps put_sys_simps pe h(1) s3(1)
    using s3(2) sn by (simp add: cf)
  have sm: "same_jobs (hp s) (hp ?s4)" using same_jobs_trans [OF h(2) s3(4)] by simp
  have "jobs_ok ?s4"
    using same_jobs_wf [OF sm wf(1)] completed_first_wf [OF wf(2) run] same_jobs_jobs_live [OF sm]
      jobs_live_cong [OF completed_first_keys [OF wf(2) run]] wf(3) by (simp add: jobs_ok_def)
  then show ?thesis using eq sm s3 by (intro exI [of _ ?s4]) simp
qed

lemma state_irq_idle:
  assumes "jobs_ok s" "running (jm_of s) = []"
  shows "aipu_job_manager_update_job_state_irq e s x = aipu_schedule_pending_job_no_lock e s"
proof -
  note wf = jobs_okD [OF assms(1)]
  note er = ended_running [OF wf(2)]
  have "first_sched (scheduled_jobs (jm_of s)) = None"
    using first_sched_append [OF er(2,3)] er(1) assms(2) by simp
  then show ?thesis
    by (simp add: aipu_job_manager_update_job_state_irq_def jm_wf_heads(2) [OF wf(2)])
qed

subsection \<open>The bottom half: ended jobs leave the queue\<close>

definition finished :: "session_job \<Rightarrow> session_job" where
  "finished j = j\<lparr>sj_state := AIPU_JOB_STATE_END, sj_exception_type := AIPU_EXCEP_NO_EXCEPTION\<rparr>"

text \<open>
  The session jobs \<open>A\<close> are finished, sessions are only woken, the rest is unchanged.
\<close>

definition finishes :: "ptr set \<Rightarrow> heap \<Rightarrow> heap \<Rightarrow> bool" where
  "finishes A h h' \<longleftrightarrow>
     h_next h' = h_next h \<and>
     h_sjob h' = (\<lambda>p. if p \<in> A then map_option finished (h_sjob h p) else h_sjob h p) \<and>
     (\<forall>sp. rel_option (\<lambda>s s'. job_list s' = job_list s \<and> user_pid s' = user_pid s \<and> sbuf_list s' = sbuf_list s)
        (h_sess h sp) (h_sess h' sp))"

lemma finishes_refl: "finishes {} h h"
  by (simp add: finishes_def option.rel_refl)

lemma finished_idem [simp]: "finished (finished j) = finished j"
  by (simp add: finished_def)

lemma finishes_trans:
  assumes a: "finishes A h h'" and b: "finishes B h' h''"
  shows "finishes (A \<union> B) h h''"
proof -
  have "h_sjob h'' p = (if p \<in> A \<union> B then map_option finished (h_sjob h p) else h_sjob h p)" for p
    using a b by (auto simp: finishes_def option.map_comp o_def)
  moreover have "rel_option (\<lambda>s s'. job_list s' = job_list s \<and> user_pid s' = user_pid s \<and> sbuf_list s' = sbuf_list s)
      (h_sess h sp) (h_sess h'' sp)" for sp
  proof -
    have "rel_option (\<lambda>s s'. job_list s' = job_list s \<and> user_pid s' = user_pid s \<and> sbuf_list s' = sbuf_list s)
        (h_sess h sp) (h_sess h' sp)"
      "rel_option (\<lambda>s s'. job_list s' = job_list s \<and> user_pid s' = user_pid s \<and> sbuf_list s' = sbuf_list s)
        (h_sess h' sp) (h_sess h'' sp)" using a b unfolding finishes_def by blast+
    then show ?thesis by (cases "h_sess h sp"; cases "h_sess h' sp"; cases "h_sess h'' sp") auto
  qed
  ultimately show ?thesis using a b unfolding finishes_def by auto
qed

lemma finishes_sess:
  assumes "finishes A h h'" "h_sess h sp = Some s"
  obtains s' where "h_sess h' sp = Some s'" "job_list s' = job_list s" "user_pid s' = user_pid s" "sbuf_list s' = sbuf_list s"
proof -
  have "rel_option (\<lambda>s s'. job_list s' = job_list s \<and> user_pid s' = user_pid s \<and> sbuf_list s' = sbuf_list s)
      (h_sess h sp) (h_sess h' sp)" using assms(1) unfolding finishes_def by blast
  then show thesis using assms(2) that by (cases "h_sess h' sp") auto
qed

lemma finishes_live:
  assumes "finishes A h h'" "job_live h j" "aj_session_job j \<notin> A"
  shows "job_live h' j"
proof -
  obtain s sj where s: "h_sess h (aj_session j) = Some s" "aj_session_job j \<in> set (job_list s)"
      "h_sjob h (aj_session_job j) = Some sj" "sj_state sj = AIPU_JOB_STATE_IDLE" "sj_uthread_id sj = aj_uthread_id j"
    using assms(2) by (auto simp: job_live_def)
  obtain s' where "h_sess h' (aj_session j) = Some s'" "job_list s' = job_list s"
    by (rule finishes_sess [OF assms(1) s(1)])
  moreover have "h_sjob h' (aj_session_job j) = h_sjob h (aj_session_job j)"
    using assms(1,3) by (simp add: finishes_def)
  ultimately show ?thesis using s by (auto simp: job_live_def)
qed

lemma job_done_finishes:
  assumes wf: "heap_wf h" and live: "job_live h j"
  shows "\<exists>h'. aipu_session_job_done h (aj_session j) (aj_session_job j) x = Some h' \<and> heap_wf h' \<and>
    finishes {aj_session_job j} h h'"
proof -
  obtain s sj where s: "h_sess h (aj_session j) = Some s" "aj_session_job j \<in> set (job_list s)"
      "h_sjob h (aj_session_job j) = Some sj"
    using live by (auto simp: job_live_def)
  obtain h' s' where h': "aipu_session_job_done h (aj_session j) (aj_session_job j) x = Some h'" "heap_wf h'"
      "h_sess h' = (h_sess h)(aj_session j \<mapsto> s')" "woken (sj_uthread_id sj) s s'" "h_next h' = h_next h"
      "h_sjob h' = (h_sjob h)(aj_session_job j \<mapsto> finished sj)"
    using job_done_effect [OF wf s(1) s(3) s(2), of x] unfolding finished_def by blast
  note w = woken_same [OF h'(4)]
  have "rel_option (\<lambda>s s'. job_list s' = job_list s \<and> user_pid s' = user_pid s \<and> sbuf_list s' = sbuf_list s)
      (h_sess h sp) (h_sess h' sp)" for sp
    using s(1) w h'(3) by (cases "h_sess h sp") auto
  then have "finishes {aj_session_job j} h h'"
    using h'(5,6) s(3) by (auto simp: finishes_def fun_eq_iff)
  then show ?thesis using h'(1,2) by blast
qed

lemma queue_done_running:
  "\<forall>j \<in> set rs. aj_state j \<noteq> AIPU_JOB_STATE_END \<Longrightarrow> queue_done_loop h rs = Some (h, rs)"
  by (induction rs) auto

lemma queue_done_effect:
  assumes "heap_wf h" "\<forall>j \<in> set es. aj_state j = AIPU_JOB_STATE_END"
    and "\<forall>j \<in> set rs. aj_state j \<noteq> AIPU_JOB_STATE_END"
    and "\<forall>j \<in> set es. valid_job j \<longrightarrow> job_live h j" "distinct (map aj_session_job (filter valid_job es))"
  shows "\<exists>h'. queue_done_loop h (es @ rs) = Some (h', rs) \<and> heap_wf h' \<and>
    finishes (aj_session_job ` {j \<in> set es. valid_job j}) h h'"
  using assms
proof (induction es arbitrary: h)
  case Nil
  then show ?case using queue_done_running finishes_refl by auto
next
  case (Cons j es)
  show ?case
  proof (cases "valid_job j")
    case False
    have "{k \<in> set (j # es). valid_job k} = {k \<in> set es. valid_job k}" using False by auto
    moreover have "queue_done_loop h ((j # es) @ rs) = queue_done_loop h (es @ rs)"
      using False Cons.prems(2) by (simp add: valid_job_def)
    moreover have "\<exists>h'. queue_done_loop h (es @ rs) = Some (h', rs) \<and> heap_wf h' \<and>
        finishes (aj_session_job ` {j \<in> set es. valid_job j}) h h'"
      using Cons.prems False by (intro Cons.IH) auto
    ultimately show ?thesis by (simp only:)
  next
    case True
    obtain h1 where h1: "aipu_session_job_done h (aj_session j) (aj_session_job j) (aj_exception_flag j) = Some h1"
        "heap_wf h1" "finishes {aj_session_job j} h h1"
      using job_done_finishes [OF Cons.prems(1)] True Cons.prems(4) by (metis list.set_intros(1))
    have ne: "aj_session_job k \<noteq> aj_session_job j" if "k \<in> set es" "valid_job k" for k
      using Cons.prems(5) True that by (auto simp: image_iff)
    have "job_live h1 k" if "k \<in> set es" "valid_job k" for k
      using finishes_live [OF h1(3), of k] Cons.prems(4) ne [OF that] that by auto
    then obtain h' where h': "queue_done_loop h1 (es @ rs) = Some (h', rs)" "heap_wf h'"
        "finishes (aj_session_job ` {j \<in> set es. valid_job j}) h1 h'"
      using Cons.IH [OF h1(2)] Cons.prems True by (auto simp: Ball_def)
    have "{k \<in> set (j # es). valid_job k} = insert j {k \<in> set es. valid_job k}" using True by auto
    then have e: "aj_session_job ` {k \<in> set (j # es). valid_job k} =
        {aj_session_job j} \<union> aj_session_job ` {k \<in> set es. valid_job k}" by auto
    have "queue_done_loop h ((j # es) @ rs) = Some (h', rs)"
      using True Cons.prems(2) h1(1) h'(1) by (simp add: valid_job_def)
    then show ?thesis unfolding e using h'(2) finishes_trans [OF h1(3) h'(3)] by blast
  qed
qed

definition reaped :: "aipu_job_manager \<Rightarrow> aipu_job_manager" where
  "reaped jm = jm\<lparr>scheduled_queue := Some (running jm)\<rparr>"

lemma reaped_simps [simp]:
  "pending_jobs (reaped jm) = pending_jobs jm" "scheduled_jobs (reaped jm) = running jm"
  "max_sched_num (reaped jm) = max_sched_num jm" "sched_num (reaped jm) = sched_num jm"
  by (simp_all add: reaped_def)

lemma reaped_wf:
  assumes "jm_wf jm"
  shows "jm_wf (reaped jm)"
proof -
  note er = ended_running [OF assms]
  have "distinct (map aj_ptr (ended jm @ running jm @ pending_jobs jm))"
    using assms er(1) by (simp add: jm_wf_def order_of_def all_jobs_def)
  then show ?thesis
    by (intro jm_wfI [of _ "pending_jobs jm" "[]" "running jm"])
       (use assms er jm_wf_heads [OF assms] in \<open>auto simp: reaped_def jm_wf_def\<close>)
qed

lemma bottom_half_effect:
  assumes ok: "jobs_ok s"
  shows "\<exists>s'. aipu_job_manager_update_job_queue_done_irq s = Some s' \<and> jobs_ok s' \<and>
    priv s' = (priv s)\<lparr>job_manager := reaped (jm_of s)\<rparr> \<and> work_queued s' = work_queued s \<and> dev_io s' = dev_io s \<and>
    finishes (aj_session_job ` {j \<in> set (ended (jm_of s)). valid_job j}) (hp s) (hp s')"
proof -
  note wf = jobs_okD [OF ok]
  let ?jm = "jm_of s"
  note er = ended_running [OF wf(2)]
  let ?A = "aj_session_job ` {j \<in> set (ended ?jm). valid_job j}"
  have aj: "all_jobs ?jm = ended ?jm @ running ?jm @ pending_jobs ?jm" by (simp add: all_jobs_def er(1))
  have d: "distinct (map aj_session_job (filter valid_job (all_jobs ?jm)))"
    using wf(3) by (simp add: jobs_live_def)
  have l: "\<forall>j \<in> set (ended ?jm). valid_job j \<longrightarrow> job_live (hp s) j"
    using jobs_liveD(2) [OF wf(3)] by (auto simp: aj)
  obtain h' where h': "queue_done_loop (hp s) (scheduled_jobs ?jm) = Some (h', running ?jm)" "heap_wf h'"
      "finishes ?A (hp s) h'"
    using queue_done_effect [OF wf(1) er(2) _ l, of "running ?jm"] er(3) d unfolding er(1) aj by auto
  let ?s' = "put_jm (reaped ?jm) (put_hp h' s)"
  have rl: "all_jobs (reaped ?jm) = running ?jm @ pending_jobs ?jm" by (simp add: all_jobs_def)
  have notA: "aj_session_job k \<notin> ?A" if "k \<in> set (running ?jm @ pending_jobs ?jm)" "valid_job k" for k
    using d that by (auto simp: aj)
  have "job_live h' k" if "k \<in> set (running ?jm @ pending_jobs ?jm)" "valid_job k" for k
    using finishes_live [OF h'(3) _ notA [OF that]] jobs_liveD(2) [OF wf(3), of k] that by (auto simp: aj)
  moreover have "h_next h' = h_next (hp s)" using h'(3) by (simp add: finishes_def)
  ultimately have "jobs_live h' (reaped ?jm)"
    using wf(3) d unfolding jobs_live_def rl aj by auto
  then have "jobs_ok ?s'" using h'(2) reaped_wf [OF wf(2)] by (simp add: jobs_ok_def)
  moreover have "aipu_job_manager_update_job_queue_done_irq s = Some ?s'"
    by (simp add: aipu_job_manager_update_job_queue_done_irq_def jm_wf_heads [OF wf(2)] h'(1) reaped_def)
  ultimately show ?thesis using h'(3) by (intro exI [of _ ?s']) simp
qed

subsection \<open>Cancellation and timeout\<close>

definition job_pid :: "heap \<Rightarrow> aipu_job \<Rightarrow> int" where
  "job_pid h j = user_pid (the (h_sess h (aj_session j)))"

definition cancel_running :: "aipu_job \<Rightarrow> aipu_job" where
  "cancel_running j = (if aj_state j = AIPU_JOB_STATE_SCHED then j\<lparr>aj_valid_flag := 0\<rparr> else j)"

lemma cancel_running_simps [simp]:
  "aj_ptr (cancel_running j) = aj_ptr j" "aj_state (cancel_running j) = aj_state j"
  "aj_session (cancel_running j) = aj_session j" "aj_session_job (cancel_running j) = aj_session_job j"
  "aj_uthread_id (cancel_running j) = aj_uthread_id j" "aj_desc (cancel_running j) = aj_desc j"
  "valid_job (cancel_running j) \<longleftrightarrow> valid_job j \<and> aj_state j \<noteq> AIPU_JOB_STATE_SCHED"
  by (simp_all add: cancel_running_def valid_job_def AIPU_JOB_FLAG_VALID_def)

lemma find_job_distinct:
  assumes "distinct (map aj_ptr xs)" "j \<in> set xs"
  shows "find_job (aj_ptr j) xs = Some j"
proof -
  have "find_job (aj_ptr j) xs \<noteq> None" using assms(2) by (auto simp: find_job_def find_None_iff)
  then obtain k where k: "find_job (aj_ptr j) xs = Some k" by blast
  then have "k \<in> set xs" "aj_ptr k = aj_ptr j" by (auto simp: find_job_def find_Some_iff)
  then have "k = j" using assms by (metis distinct_map inj_onD)
  then show ?thesis using k by simp
qed

lemma lookup_job:
  assumes "jm_wf jm" "j \<in> set (all_jobs jm)"
  shows "lookup_aipu_job (aj_ptr j) jm = Some j"
proof -
  have "distinct (map aj_ptr (pending_jobs jm @ scheduled_jobs jm))"
    using assms(1) by (auto simp: jm_wf_def order_of_def all_jobs_def)
  from find_job_distinct [OF this, of j] assms(2)
  show ?thesis by (simp add: lookup_aipu_job_def jm_wf_heads [OF assms(1)] all_jobs_def Un_commute)
qed

text \<open>The two queues, and nothing else of the manager, replaced.\<close>

definition with_queues :: "aipu_job list \<Rightarrow> aipu_job list \<Rightarrow> aipu_job_manager \<Rightarrow> aipu_job_manager" where
  "with_queues ps ss jm = jm\<lparr>pending_queue := Some ps, scheduled_queue := Some ss\<rparr>"

lemma with_queues_simps [simp]:
  "pending_jobs (with_queues ps ss jm) = ps" "scheduled_jobs (with_queues ps ss jm) = ss"
  "pending_queue (with_queues ps ss jm) = Some ps" "scheduled_queue (with_queues ps ss jm) = Some ss"
  "sched_num (with_queues ps ss jm) = sched_num jm" "max_sched_num (with_queues ps ss jm) = max_sched_num jm"
  "init_done (with_queues ps ss jm) = init_done jm"
  "with_queues ps ss (with_queues ps' ss' jm) = with_queues ps ss jm"
  by (simp_all add: with_queues_def pending_jobs_def scheduled_jobs_def)

lemma with_queues_triv: "jm_wf jm \<Longrightarrow> with_queues (pending_jobs jm) (scheduled_jobs jm) jm = jm"
  using jm_wf_heads [of jm] by (cases jm) (simp add: with_queues_def)

lemma remove_pending:
  assumes "jm_wf jm" "pending_jobs jm = ys @ j # xs"
  shows "remove_aipu_job (aj_ptr j) jm = with_queues (ys @ xs) (scheduled_jobs jm) jm"
    and "jm_wf (with_queues (ys @ xs) (scheduled_jobs jm) jm)"
proof -
  have d: "distinct (map aj_ptr (scheduled_jobs jm @ ys @ j # xs))"
    using assms by (simp add: jm_wf_def order_of_def all_jobs_def)
  have 1: "filter (\<lambda>k. aj_ptr k \<noteq> aj_ptr j) zs = zs" if "aj_ptr j \<notin> aj_ptr ` set zs" for zs
    using that by (intro filter_True) (auto simp: image_iff)
  have "aj_ptr j \<notin> aj_ptr ` set (scheduled_jobs jm)" "aj_ptr j \<notin> aj_ptr ` set ys" "aj_ptr j \<notin> aj_ptr ` set xs"
    using d by auto
  note f = this [THEN 1]
  show "remove_aipu_job (aj_ptr j) jm = with_queues (ys @ xs) (scheduled_jobs jm) jm"
    by (simp add: remove_aipu_job_def with_queues_def jm_wf_heads [OF assms(1)] assms(2) f)
  show "jm_wf (with_queues (ys @ xs) (scheduled_jobs jm) jm)"
    using assms d by (auto simp: jm_wf_def order_of_def all_jobs_def)
qed

lemma update_scheduled:
  assumes "jm_wf jm" "scheduled_jobs jm = ys @ j # xs"
  shows "update_aipu_job (aj_ptr j) f jm = with_queues (pending_jobs jm) (ys @ f j # xs) jm"
proof -
  have d: "distinct (map aj_ptr (ys @ j # xs @ pending_jobs jm))"
    using assms by (simp add: jm_wf_def order_of_def all_jobs_def)
  have 1: "map (\<lambda>k. if aj_ptr k = aj_ptr j then f k else k) zs = zs" if "aj_ptr j \<notin> aj_ptr ` set zs" for zs
    using that by (intro map_idI) (auto simp: image_iff)
  have "aj_ptr j \<notin> aj_ptr ` set (pending_jobs jm)" "aj_ptr j \<notin> aj_ptr ` set ys" "aj_ptr j \<notin> aj_ptr ` set xs"
    using d by auto
  note m = this [THEN 1]
  show ?thesis
    by (simp add: update_aipu_job_def with_queues_def jm_wf_heads [OF assms(1)] assms(2) m)
qed

text \<open>Replacing scheduled jobs by jobs of the same address and state.\<close>

lemma with_scheduled_wf:
  assumes wf: "jm_wf jm" and p: "map aj_ptr ss = map aj_ptr (scheduled_jobs jm)"
    and st: "map aj_state ss = map aj_state (scheduled_jobs jm)"
  shows "jm_wf (with_queues (pending_jobs jm) ss jm)"
proof -
  note er = ended_running [OF wf]
  let ?n = "length (ended jm)"
  have len: "length ss = length (ended jm) + length (running jm)"
    using arg_cong [OF p, of length] er(1) by simp
  have s1: "map aj_state (take ?n ss) = map aj_state (ended jm)"
    using arg_cong [OF st, of "take ?n"] er(1) by (simp add: take_map)
  have s2: "map aj_state (drop ?n ss) = map aj_state (running jm)"
    using arg_cong [OF st, of "drop ?n"] er(1) by (simp add: drop_map)
  have e: "aj_state j = AIPU_JOB_STATE_END" if "j \<in> set (take ?n ss)" for j
  proof -
    have "aj_state j \<in> set (map aj_state (take ?n ss))" using that by simp
    then show ?thesis unfolding s1 using er(2) by auto
  qed
  have r: "aj_state j = AIPU_JOB_STATE_SCHED" if "j \<in> set (drop ?n ss)" for j
  proof -
    have "aj_state j \<in> set (map aj_state (drop ?n ss))" using that by simp
    then show ?thesis unfolding s2 using er(3) by auto
  qed
  have "distinct (map aj_ptr (take ?n ss @ drop ?n ss @ pending_jobs jm))"
    using wf p unfolding append_assoc [symmetric] append_take_drop_id
    by (simp add: jm_wf_def order_of_def all_jobs_def)
  then show ?thesis
    using wf er(4) len e r
    by (intro jm_wfI [of _ "pending_jobs jm" "take ?n ss" "drop ?n ss"]) (auto simp: jm_wf_def)
qed

lemma invalidate_pending:
  assumes "jm_wf (jm_of s)" "pending_jobs (jm_of s) = ys @ j # xs"
  shows "aipu_invalidate_job_no_lock e s (aj_ptr j) =
    Some (0, put_jm (with_queues (ys @ xs) (scheduled_jobs (jm_of s)) (jm_of s)) s)"
proof -
  have "aj_state j = AIPU_JOB_STATE_PENDING" using assms by (simp add: jm_wf_def)
  then show ?thesis
    using lookup_job [OF assms(1), of j] remove_pending(1) [OF assms] assms(2)
    by (simp add: aipu_invalidate_job_no_lock_def all_jobs_def)
qed

lemma invalidate_scheduled:
  assumes "jm_wf (jm_of s)" "scheduled_jobs (jm_of s) = ys @ j # xs"
  shows "aipu_invalidate_job_no_lock e s (aj_ptr j) =
    Some (if aj_state j = AIPU_JOB_STATE_SCHED then 0 else - EINVAL,
          put_jm (with_queues (pending_jobs (jm_of s)) (ys @ cancel_running j # xs) (jm_of s)) s)"
proof -
  have "j \<in> set (scheduled_jobs (jm_of s))" using assms(2) by simp
  then have st: "aj_state j \<in> {AIPU_JOB_STATE_SCHED, AIPU_JOB_STATE_END}"
    using ended_running [OF assms(1)] by (metis Un_iff insert_iff set_append)
  have id: "put_jm (with_queues (pending_jobs (jm_of s)) (scheduled_jobs (jm_of s)) (jm_of s)) s = s"
    unfolding with_queues_triv [OF assms(1)] by (simp add: put_jm_def)
  show ?thesis
    using st lookup_job [OF assms(1), of j] update_scheduled [OF assms] assms(2) id
    by (auto simp: aipu_invalidate_job_no_lock_def all_jobs_def cancel_running_def)
qed

lemma put_jm_again [simp]: "put_jm j (put_jm k s) = put_jm j s"
  by (simp add: put_jm_def)

lemma put_jm_same: "put_jm (jm_of s) s = s"
  by (simp add: put_jm_def)

lemma cancel_pending_loop:
  assumes "jm_wf (jm_of s)" "pending_jobs (jm_of s) = ys @ xs"
    and "\<forall>j \<in> set xs. h_sess (hp s) (aj_session j) \<noteq> None"
  shows "invalidate_canceled_loop e pid s (map aj_ptr xs) =
    Some (put_jm (with_queues (ys @ filter (\<lambda>j. job_pid (hp s) j \<noteq> pid) xs) (scheduled_jobs (jm_of s)) (jm_of s)) s)"
  using assms
proof (induction xs arbitrary: ys s)
  case Nil
  then show ?case by (metis append_Nil2 filter.simps(1) invalidate_canceled_loop.simps(1) list.simps(8)
      put_jm_same with_queues_triv)
next
  case (Cons j xs)
  obtain st where st: "h_sess (hp s) (aj_session j) = Some st" using Cons.prems(3) by auto
  have lk: "lookup_aipu_job (aj_ptr j) (jm_of s) = Some j"
    using lookup_job [OF Cons.prems(1)] Cons.prems(2) by (simp add: all_jobs_def)
  have pid: "aipu_get_session_pid st = job_pid (hp s) j"
    by (simp add: job_pid_def st aipu_get_session_pid_def)
  show ?case
  proof (cases "job_pid (hp s) j = pid")
    case True
    let ?s = "put_jm (with_queues (ys @ xs) (scheduled_jobs (jm_of s)) (jm_of s)) s"
    have "invalidate_canceled_loop e pid ?s (map aj_ptr xs) =
      Some (put_jm (with_queues (ys @ filter (\<lambda>j. job_pid (hp ?s) j \<noteq> pid) xs) (scheduled_jobs (jm_of ?s)) (jm_of ?s)) ?s)"
      using Cons.prems remove_pending(2) [OF Cons.prems(1,2)] by (intro Cons.IH) auto
    then show ?thesis using True lk st pid invalidate_pending [OF Cons.prems(1,2)] by simp
  next
    case False
    have "pending_jobs (jm_of s) = (ys @ [j]) @ xs" "\<forall>j \<in> set xs. h_sess (hp s) (aj_session j) \<noteq> None"
      using Cons.prems(2,3) by auto
    from Cons.IH [OF Cons.prems(1) this] False lk st pid show ?thesis by simp
  qed
qed

lemma cancel_scheduled_loop:
  assumes "jm_wf (jm_of s)" "scheduled_jobs (jm_of s) = ys @ xs"
    and "\<forall>j \<in> set xs. h_sess (hp s) (aj_session j) \<noteq> None"
  shows "invalidate_canceled_loop e pid s (map aj_ptr xs) =
    Some (put_jm (with_queues (pending_jobs (jm_of s))
      (ys @ map (\<lambda>j. if job_pid (hp s) j = pid then cancel_running j else j) xs) (jm_of s)) s)"
  using assms
proof (induction xs arbitrary: ys s)
  case Nil
  then show ?case by (metis append_Nil2 invalidate_canceled_loop.simps(1) list.simps(8)
      put_jm_same with_queues_triv)
next
  case (Cons j xs)
  obtain st where st: "h_sess (hp s) (aj_session j) = Some st" using Cons.prems(3) by auto
  have lk: "lookup_aipu_job (aj_ptr j) (jm_of s) = Some j"
    using lookup_job [OF Cons.prems(1)] Cons.prems(2) by (simp add: all_jobs_def)
  have pid: "aipu_get_session_pid st = job_pid (hp s) j"
    by (simp add: job_pid_def st aipu_get_session_pid_def)
  show ?case
  proof (cases "job_pid (hp s) j = pid")
    case True
    let ?ss = "ys @ cancel_running j # xs"
    let ?s = "put_jm (with_queues (pending_jobs (jm_of s)) ?ss (jm_of s)) s"
    have "jm_wf (jm_of ?s)" using with_scheduled_wf [OF Cons.prems(1), of ?ss] Cons.prems(2) by simp
    moreover have "scheduled_jobs (jm_of ?s) = (ys @ [cancel_running j]) @ xs"
      "\<forall>j \<in> set xs. h_sess (hp ?s) (aj_session j) \<noteq> None" using Cons.prems(3) by auto
    ultimately have "invalidate_canceled_loop e pid ?s (map aj_ptr xs) =
      Some (put_jm (with_queues (pending_jobs (jm_of ?s))
        ((ys @ [cancel_running j]) @ map (\<lambda>j. if job_pid (hp ?s) j = pid then cancel_running j else j) xs) (jm_of ?s)) ?s)"
      by (rule Cons.IH)
    then show ?thesis using True lk st pid invalidate_scheduled [OF Cons.prems(1,2)] by simp
  next
    case False
    have "scheduled_jobs (jm_of s) = (ys @ [j]) @ xs" "\<forall>j \<in> set xs. h_sess (hp s) (aj_session j) \<noteq> None"
      using Cons.prems(2,3) by auto
    from Cons.IH [OF Cons.prems(1) this] False lk st pid show ?thesis by simp
  qed
qed

definition canceled :: "heap \<Rightarrow> int \<Rightarrow> aipu_job_manager \<Rightarrow> aipu_job_manager" where
  "canceled h pid jm =
     with_queues (filter (\<lambda>j. job_pid h j \<noteq> pid) (pending_jobs jm))
       (map (\<lambda>j. if job_pid h j = pid then cancel_running j else j) (scheduled_jobs jm)) jm"

lemma filter_pending_wf:
  assumes "jm_wf jm"
  shows "jm_wf (with_queues (filter P (pending_jobs jm)) (scheduled_jobs jm) jm)"
proof -
  note er = ended_running [OF assms]
  have "distinct (map aj_ptr (ended jm @ running jm @ pending_jobs jm))"
    using assms er(1) by (simp add: jm_wf_def order_of_def all_jobs_def)
  then have "distinct (map aj_ptr (ended jm @ running jm @ filter P (pending_jobs jm)))"
    by (auto simp: distinct_map_filter)
  then show ?thesis
    by (intro jm_wfI [of _ "filter P (pending_jobs jm)" "ended jm" "running jm"])
       (use assms er in \<open>auto simp: jm_wf_def\<close>)
qed

lemma canceled_wf:
  assumes "jm_wf jm"
  shows "jm_wf (canceled h pid jm)"
proof -
  let ?ss = "map (\<lambda>j. if job_pid h j = pid then cancel_running j else j) (scheduled_jobs jm)"
  have "jm_wf (with_queues (pending_jobs jm) ?ss jm)"
    by (rule with_scheduled_wf [OF assms]) (auto simp: map_eq_conv)
  from filter_pending_wf [OF this, of "\<lambda>j. job_pid h j \<noteq> pid"] show ?thesis by (simp add: canceled_def)
qed

lemma cancel_effect:
  assumes ok: "jobs_ok s" and st: "h_sess (hp s) sp = Some st"
    and sess: "\<forall>j \<in> set (all_jobs (jm_of s)). h_sess (hp s) (aj_session j) \<noteq> None"
  shows "\<exists>h'. aipu_job_manager_cancel_session_jobs e s sp =
      Some (0, put_hp h' (put_jm (canceled (hp s) (user_pid st) (jm_of s)) s)) \<and>
    aipu_session_delete_jobs (hp s) sp = Some (0, h')"
proof -
  note wf = jobs_okD [OF ok]
  let ?jm = "jm_of s" and ?pid = "user_pid st"
  note heads = jm_wf_heads [OF wf(2)]
  have nz: "sp \<noteq> 0" by (rule session_null [OF wf(1) st])
  let ?ps = "filter (\<lambda>j. job_pid (hp s) j \<noteq> ?pid) (pending_jobs ?jm)"
  let ?s1 = "put_jm (with_queues ?ps (scheduled_jobs ?jm) ?jm) s"
  have l1: "invalidate_canceled_loop e ?pid s (map aj_ptr (pending_jobs ?jm)) = Some ?s1"
    using cancel_pending_loop [OF wf(2), of "[]" "pending_jobs ?jm" e ?pid] sess by (simp add: all_jobs_def)
  have wf1: "jm_wf (jm_of ?s1)" using filter_pending_wf [OF wf(2)] by simp
  have s1: "aipu_invalidate_canceled_jobs_no_lock e s (pending_queue ?jm) sp = Some ?s1"
  proof (cases "pending_jobs ?jm = []")
    case True
    with l1 show ?thesis using heads nz by (auto simp: aipu_invalidate_canceled_jobs_no_lock_def)
  next
    case False
    with l1 show ?thesis using heads nz st
      by (simp add: aipu_invalidate_canceled_jobs_no_lock_def aipu_get_session_pid_def)
  qed
  let ?s2 = "put_jm (canceled (hp s) ?pid ?jm) s"
  have l2: "invalidate_canceled_loop e ?pid ?s1 (map aj_ptr (scheduled_jobs ?jm)) = Some ?s2"
    using cancel_scheduled_loop [OF wf1, of "[]" "scheduled_jobs ?jm" e ?pid] sess
    by (simp add: all_jobs_def canceled_def)
  have s2: "aipu_invalidate_canceled_jobs_no_lock e ?s1 (scheduled_queue (jm_of ?s1)) sp = Some ?s2"
  proof (cases "scheduled_jobs ?jm = []")
    case True
    with l2 show ?thesis using nz by (auto simp: aipu_invalidate_canceled_jobs_no_lock_def canceled_def)
  next
    case False
    with l2 show ?thesis using nz st
      by (simp add: aipu_invalidate_canceled_jobs_no_lock_def aipu_get_session_pid_def)
  qed
  obtain h' where h': "aipu_session_delete_jobs (hp s) sp = Some (0, h')"
    using delete_jobs_effect [OF wf(1) st] by blast
  then show ?thesis
    using nz s1 s2 by (simp add: aipu_job_manager_cancel_session_jobs_def errcode_defs)
qed

lemma distinct_map_filters:
  "distinct (map f (xs @ ys)) \<Longrightarrow> distinct (map f (filter P xs @ filter Q ys))"
  by (auto simp: distinct_map_filter)

lemma cancel_jobs_ok:
  assumes ok: "jobs_ok s" and st: "h_sess (hp s) sp = Some st"
    and fin: "\<forall>j \<in> set (ended (jm_of s)). valid_job j \<longrightarrow> aj_session j \<noteq> sp"
    and del: "aipu_session_delete_jobs (hp s) sp = Some (0, h')"
  shows "jobs_ok (put_hp h' (put_jm (canceled (hp s) (user_pid st) (jm_of s)) s))"
    and "\<forall>j \<in> set (all_jobs (canceled (hp s) (user_pid st) (jm_of s))). valid_job j \<longrightarrow> aj_session j \<noteq> sp"
proof -
  note wf = jobs_okD [OF ok]
  let ?jm = "jm_of s" and ?pid = "user_pid st"
  let ?jm' = "canceled (hp s) ?pid ?jm"
  let ?c = "\<lambda>j. if job_pid (hp s) j = ?pid then cancel_running j else j"
  note er = ended_running [OF wf(2)]
  obtain h where h: "h' = h" "heap_wf h" "h_sess h = (h_sess (hp s))(sp \<mapsto> st\<lparr>job_list := []\<rparr>)"
    "h_sjob h = (\<lambda>p. if p \<in> set (job_list st) then None else h_sjob (hp s) p)"
    using delete_jobs_effect [OF wf(1) st] del by auto
  have hn: "h_next h' = h_next (hp s)"
    using del free_jobs_forget [OF session_jobs_live [OF wf(1) st]] st session_null [OF wf(1) st]
    by (auto simp: aipu_session_delete_jobs_def)
  have keep: "aj_session j \<noteq> sp" if j: "j \<in> set (all_jobs ?jm')" and v: "valid_job j" for j
  proof
    assume e: "aj_session j = sp"
    have pid: "job_pid (hp s) j = ?pid" by (simp add: job_pid_def e st)
    consider "j \<in> set (pending_jobs ?jm)" "job_pid (hp s) j \<noteq> ?pid"
      | k where "k \<in> set (scheduled_jobs ?jm)" "j = ?c k"
      using j by (auto simp: all_jobs_def canceled_def)
    then show False
    proof cases
      case 1
      then show ?thesis using pid by simp
    next
      case 2
      then have ks: "aj_session k = sp" "valid_job k" using e v by (auto split: if_splits)
      then have "job_pid (hp s) k = ?pid" by (simp add: job_pid_def st)
      then have "aj_state k \<noteq> AIPU_JOB_STATE_SCHED" using 2 v by simp
      then have "k \<in> set (ended ?jm)" using 2(1) er by auto
      then show ?thesis using fin ks by blast
    qed
  qed
  then show "\<forall>j \<in> set (all_jobs ?jm'). valid_job j \<longrightarrow> aj_session j \<noteq> sp" by blast
  have src: "\<exists>k \<in> set (all_jobs ?jm). valid_job k \<and> j = k" if j: "j \<in> set (all_jobs ?jm')" and v: "valid_job j" for j
    using j v by (auto simp: all_jobs_def canceled_def cancel_running_def valid_job_def AIPU_JOB_FLAG_VALID_def
        split: if_splits)
  have live: "job_live h' j" if j: "j \<in> set (all_jobs ?jm')" and v: "valid_job j" for j
  proof -
    have ne: "aj_session j \<noteq> sp" by (rule keep [OF j v])
    have "job_live (hp s) j" using src [OF j v] jobs_liveD(2) [OF wf(3)] by blast
    then obtain t sj where t: "h_sess (hp s) (aj_session j) = Some t" "aj_session_job j \<in> set (job_list t)"
      "h_sjob (hp s) (aj_session_job j) = Some sj" "sj_state sj = AIPU_JOB_STATE_IDLE" "sj_uthread_id sj = aj_uthread_id j"
      by (auto simp: job_live_def)
    have "aj_session_job j \<notin> set (job_list st)" using heap_wfD(5) [OF wf(1) t(1) st ne t(2)] .
    then show ?thesis using t ne h by (simp add: job_live_def)
  qed
  let ?P = "\<lambda>j. job_pid (hp s) j \<noteq> ?pid \<and> valid_job j"
  have c: "valid_job \<circ> ?c = (\<lambda>j. valid_job (?c j) \<and> valid_job j)" by (auto simp: fun_eq_iff)
  have "map aj_session_job (filter valid_job (all_jobs ?jm')) =
      map aj_session_job (filter (\<lambda>j. valid_job (?c j) \<and> valid_job j) (scheduled_jobs ?jm) @
        filter ?P (pending_jobs ?jm))"
    unfolding all_jobs_def canceled_def with_queues_simps filter_append filter_map c filter_filter map_append
    by (simp add: o_def if_distrib [of aj_session_job])
  then have eq: "map aj_session_job (filter valid_job (all_jobs ?jm')) =
      map aj_session_job (filter (\<lambda>j. valid_job (?c j)) (filter valid_job (scheduled_jobs ?jm)) @
        filter (\<lambda>j. job_pid (hp s) j \<noteq> ?pid) (filter valid_job (pending_jobs ?jm)))"
    by (simp add: conj_commute)
  have "distinct (map aj_session_job (filter valid_job (scheduled_jobs ?jm) @ filter valid_job (pending_jobs ?jm)))"
    using wf(3) by (simp add: jobs_live_def all_jobs_def)
  then have d: "distinct (map aj_session_job (filter valid_job (all_jobs ?jm')))"
    unfolding eq by (rule distinct_map_filters)
  have ptr: "aj_ptr j < h_next h'" if j: "j \<in> set (all_jobs ?jm')" for j
  proof -
    have "aj_ptr j \<in> aj_ptr ` set (all_jobs ?jm)"
      using j by (auto simp: all_jobs_def canceled_def)
    then obtain k where "k \<in> set (all_jobs ?jm)" "aj_ptr j = aj_ptr k" by blast
    then show ?thesis using jobs_liveD(1) [OF wf(3)] hn by simp
  qed
  show "jobs_ok (put_hp h' (put_jm ?jm' s))"
    using h(1,2) canceled_wf [OF wf(2)] live d ptr by (simp add: jobs_ok_def jobs_live_def)
qed

text \<open>The job of the calling thread with the given identifier.\<close>

definition timeout_target :: "kenv \<Rightarrow> u32 \<Rightarrow> aipu_job \<Rightarrow> bool" where
  "timeout_target e jid j \<longleftrightarrow> aj_uthread_id j = cur_tid e \<and> job_id (aj_desc j) = jid"

lemma timeout_loop:
  "invalidate_timeout_loop e jid s xs =
     (case find (timeout_target e jid) xs of
        None \<Rightarrow> Some (- EINVAL, s)
      | Some j \<Rightarrow> aipu_invalidate_job_no_lock e s (aj_ptr j))"
  by (induction xs) (auto simp: timeout_target_def)

lemma find_split:
  assumes "find P xs = Some j"
  obtains ys zs where "xs = ys @ j # zs" "P j" "\<forall>y \<in> set ys. \<not> P y"
proof -
  obtain i where i: "i < length xs" "P (xs ! i)" "j = xs ! i" "\<forall>k < i. \<not> P (xs ! k)"
    using assms by (auto simp: find_Some_iff)
  have "\<forall>y \<in> set (take i xs). \<not> P y" using i by (auto simp: in_set_conv_nth)
  then show thesis using that [of "take i xs" "drop (Suc i) xs"] nth_split [OF i(1)] i(2,3) by simp
qed

text \<open>The kill of a timed-out job: the first pending target leaves its queue; if there is
  none, the first scheduled target loses its validity if it runs, and is refused if it
  has ended.
\<close>

lemma timeout_effect:
  assumes wf: "jm_wf (jm_of s)"
  shows "(find (timeout_target e jid) (pending_jobs (jm_of s)) = Some j \<longrightarrow>
     (\<exists>ys xs. pending_jobs (jm_of s) = ys @ j # xs \<and>
       aipu_invalidate_timeout_job e s jid =
         Some (0, put_jm (with_queues (ys @ xs) (scheduled_jobs (jm_of s)) (jm_of s)) s)))"
    and "find (timeout_target e jid) (pending_jobs (jm_of s)) = None \<longrightarrow>
     find (timeout_target e jid) (scheduled_jobs (jm_of s)) = Some j \<longrightarrow>
     (\<exists>ys xs. scheduled_jobs (jm_of s) = ys @ j # xs \<and>
       aipu_invalidate_timeout_job e s jid =
         Some (if aj_state j = AIPU_JOB_STATE_SCHED then 0 else - EINVAL,
           put_jm (with_queues (pending_jobs (jm_of s)) (ys @ cancel_running j # xs) (jm_of s)) s))"
    and "find (timeout_target e jid) (pending_jobs (jm_of s)) = None \<longrightarrow>
     find (timeout_target e jid) (scheduled_jobs (jm_of s)) = None \<longrightarrow>
     aipu_invalidate_timeout_job e s jid = Some (- EINVAL, s)"
proof -
  note heads = jm_wf_heads [OF wf]
  note defs = aipu_invalidate_timeout_job_def aipu_invalidate_timeout_job_no_lock_def heads timeout_loop
  show "find (timeout_target e jid) (pending_jobs (jm_of s)) = Some j \<longrightarrow>
     (\<exists>ys xs. pending_jobs (jm_of s) = ys @ j # xs \<and>
       aipu_invalidate_timeout_job e s jid =
         Some (0, put_jm (with_queues (ys @ xs) (scheduled_jobs (jm_of s)) (jm_of s)) s))"
  proof
    assume f: "find (timeout_target e jid) (pending_jobs (jm_of s)) = Some j"
    obtain ys xs where p: "pending_jobs (jm_of s) = ys @ j # xs" by (rule find_split [OF f])
    show "\<exists>ys xs. pending_jobs (jm_of s) = ys @ j # xs \<and>
       aipu_invalidate_timeout_job e s jid =
         Some (0, put_jm (with_queues (ys @ xs) (scheduled_jobs (jm_of s)) (jm_of s)) s)"
      by (intro exI conjI, rule p) (simp add: defs f invalidate_pending [OF wf p])
  qed
  show "find (timeout_target e jid) (pending_jobs (jm_of s)) = None \<longrightarrow>
     find (timeout_target e jid) (scheduled_jobs (jm_of s)) = Some j \<longrightarrow>
     (\<exists>ys xs. scheduled_jobs (jm_of s) = ys @ j # xs \<and>
       aipu_invalidate_timeout_job e s jid =
         Some (if aj_state j = AIPU_JOB_STATE_SCHED then 0 else - EINVAL,
           put_jm (with_queues (pending_jobs (jm_of s)) (ys @ cancel_running j # xs) (jm_of s)) s))"
  proof (intro impI)
    assume n: "find (timeout_target e jid) (pending_jobs (jm_of s)) = None"
      and f: "find (timeout_target e jid) (scheduled_jobs (jm_of s)) = Some j"
    obtain ys xs where p: "scheduled_jobs (jm_of s) = ys @ j # xs" by (rule find_split [OF f])
    show "\<exists>ys xs. scheduled_jobs (jm_of s) = ys @ j # xs \<and>
       aipu_invalidate_timeout_job e s jid =
         Some (if aj_state j = AIPU_JOB_STATE_SCHED then 0 else - EINVAL,
           put_jm (with_queues (pending_jobs (jm_of s)) (ys @ cancel_running j # xs) (jm_of s)) s)"
      by (intro exI conjI, rule p) (simp add: defs n f invalidate_scheduled [OF wf p])
  qed
  show "find (timeout_target e jid) (pending_jobs (jm_of s)) = None \<longrightarrow>
     find (timeout_target e jid) (scheduled_jobs (jm_of s)) = None \<longrightarrow>
     aipu_invalidate_timeout_job e s jid = Some (- EINVAL, s)"
    by (simp add: defs)
qed

text \<open>Jobs that leave a queue or lose validity keep the others live.\<close>

lemma jobs_live_drop:
  assumes "jobs_live h jm" "pending_jobs jm = ys @ j # xs"
  shows "jobs_live h (with_queues (ys @ xs) (scheduled_jobs jm) jm)"
  using assms by (auto simp: jobs_live_def all_jobs_def split: if_splits)

lemma jobs_live_cancel:
  assumes "jobs_live h jm" "scheduled_jobs jm = ys @ j # xs"
  shows "jobs_live h (with_queues (pending_jobs jm) (ys @ cancel_running j # xs) jm)"
proof -
  have l: "job_live h (cancel_running j) \<longleftrightarrow> job_live h j" by (simp add: job_live_def)
  show ?thesis using assms by (auto simp: jobs_live_def all_jobs_def l split: if_splits)
qed

lemma timeout_jobs_ok:
  assumes ok: "jobs_ok s" and res: "aipu_invalidate_timeout_job e s jid = Some (ret, s')"
  shows "jobs_ok s'" and "hp s' = hp s" and "ret \<in> {0, - EINVAL}"
proof -
  note wf = jobs_okD [OF ok]
  note t = timeout_effect [OF wf(2), of e jid]
  have "jobs_ok s' \<and> hp s' = hp s \<and> ret \<in> {0, - EINVAL}"
  proof (cases "find (timeout_target e jid) (pending_jobs (jm_of s))")
    case (Some j)
    then obtain ys xs where p: "pending_jobs (jm_of s) = ys @ j # xs"
      "s' = put_jm (with_queues (ys @ xs) (scheduled_jobs (jm_of s)) (jm_of s)) s" "ret = 0"
      using t(1) [of j] res by auto
    then show ?thesis
      using wf(1) remove_pending(2) [OF wf(2) p(1)] jobs_live_drop [OF wf(3) p(1)] by (simp add: jobs_ok_def)
  next
    case None
    show ?thesis
    proof (cases "find (timeout_target e jid) (scheduled_jobs (jm_of s))")
      case (Some j)
      then obtain ys xs where p: "scheduled_jobs (jm_of s) = ys @ j # xs"
        "s' = put_jm (with_queues (pending_jobs (jm_of s)) (ys @ cancel_running j # xs) (jm_of s)) s"
        "ret \<in> {0, - EINVAL}"
        using t(2) [of j] None res by (auto split: if_splits)
      have "jm_wf (with_queues (pending_jobs (jm_of s)) (ys @ cancel_running j # xs) (jm_of s))"
        by (rule with_scheduled_wf [OF wf(2)]) (simp_all add: p(1))
      then show ?thesis using p wf(1) jobs_live_cancel [OF wf(3) p(1)] by (simp add: jobs_ok_def)
    next
      case None2: None
      then show ?thesis using t(3) None res ok by auto
    qed
  qed
  then show "jobs_ok s'" "hp s' = hp s" "ret \<in> {0, - EINVAL}" by blast+
qed

subsection \<open>Device access of the job manager\<close>

text \<open>A step of the driver that touches the device only through the regions, and keeps them.\<close>

definition dev_step :: "sys \<Rightarrow> sys \<Rightarrow> bool" where
  "dev_step s s' \<longleftrightarrow> dev_extends s s' \<and> core0 (priv s') = core0 (priv s) \<and> soc (priv s') = soc (priv s) \<and>
     core_ctrl (priv s') = core_ctrl (priv s) \<and> soc_ctrl (priv s') = soc_ctrl (priv s)"

lemma dev_step_trans: "dev_step s t \<Longrightarrow> dev_step t u \<Longrightarrow> dev_step s u"
  unfolding dev_step_def using dev_extends_trans by metis

lemma dev_step_refl [simp]: "dev_step s s" "dev_step s (put_jm jm s)" "dev_step s (put_hp h s)" "dev_step s (put_mm m s)"
  by (simp_all add: dev_step_def)

lemma dev_step_put [simp]:
  "dev_step s (put_jm jm t) \<longleftrightarrow> dev_step s t" "dev_step s (put_hp h t) \<longleftrightarrow> dev_step s t"
  by (auto simp: dev_step_def dev_extends_def)

lemma dev_step_io:
  "emits (dev_access (priv s)) m \<Longrightarrow> dev_step s (exec_io m s)"
  "emits (dev_access (priv s)) m \<Longrightarrow> run_io m s = (x, t) \<Longrightarrow> dev_step s t"
  using run_io_extends [of s m] run_io_simps [of m s] by (auto simp: dev_step_def)

lemma trigger_dev_step: "aipu_job_manager_trigger_job_sched e s job = Some s' \<Longrightarrow> dev_step s s'"
proof -
  assume t: "aipu_job_manager_trigger_job_sched e s job = Some s'"
  let ?s1 = "exec_io (aipu_priv_trigger (priv s) (aj_desc job)) s"
  have 1: "dev_step s ?s1" by (intro dev_step_io(1) priv_emits)
  show ?thesis
  proof (cases "s' = ?s1")
    case False
    then obtain h where s': "s' = exec_io (aipu_priv_start_bw_profiling (priv ?s1)) (put_hp h ?s1)"
      using t by (auto simp: aipu_job_manager_trigger_job_sched_def Let_def bind_eq_Some_conv split: if_splits)
    have "dev_step (put_hp h ?s1) s'" unfolding s' by (rule dev_step_io(1)) (simp, intro priv_emits)
    with 1 show ?thesis by (meson dev_step_refl(3) dev_step_trans)
  qed (use 1 in simp)
qed

lemma schedule_dev_step: "aipu_schedule_pending_job_no_lock e s = Some s' \<Longrightarrow> dev_step s s'"
proof -
  assume t: "aipu_schedule_pending_job_no_lock e s = Some s'"
  obtain idle s1 where r: "run_io (aipu_priv_is_idle (priv s)) s = (idle, s1)" by fastforce
  have 1: "dev_step s s1" by (rule dev_step_io(2) [OF priv_emits(4) r])
  consider "s' = s" | "s' = s1" | s2 jm where "aipu_job_manager_trigger_job_sched e s1 (hd (the (pending_queue (jm_of s)))) = Some s2"
    "s' = put_jm jm s2"
    using t by (auto simp: aipu_schedule_pending_job_no_lock_def r Let_def bind_eq_Some_conv split: if_splits)
  then show ?thesis
  proof cases
    case 3
    from dev_step_trans [OF 1 trigger_dev_step [OF 3(1)]] 3(2) show ?thesis by simp
  qed (use 1 in simp_all)
qed

lemma pdata_dev_step: "aipu_session_job_update_pdata s sp jp = Some s' \<Longrightarrow> dev_step s s'"
proof -
  assume t: "aipu_session_job_update_pdata s sp jp = Some s'"
  show ?thesis
  proof (cases "s' = s")
    case False
    then obtain j where "h_sjob (hp s) jp = Some j" "s' = (case run_io (aipu_priv_read_profiling_reg (priv s) (sj_pdata j)) s of
                (pdata, s1) \<Rightarrow> put_hp (put_sjob jp (j\<lparr>sj_pdata := pdata\<rparr>) (hp s1)) s1)"
      using t by (auto simp: aipu_session_job_update_pdata_def bind_eq_Some_conv split: if_splits prod.splits)
    moreover obtain pd s1 where r: "run_io (aipu_priv_read_profiling_reg (priv s) (sj_pdata j)) s = (pd, s1)" by fastforce
    moreover have "dev_step s s1" by (rule dev_step_io(2) [OF priv_emits(9) r])
    ultimately show ?thesis by simp
  qed simp
qed

lemma profiling_dev_step: "aipu_job_manager_update_job_profiling_data s j = Some s' \<Longrightarrow> dev_step s s'"
proof -
  assume t: "aipu_job_manager_update_job_profiling_data s j = Some s'"
  have "dev_step s (exec_io (aipu_priv_stop_bw_profiling (priv s)) s)" by (intro dev_step_io(1) priv_emits)
  with t pdata_dev_step dev_step_trans show ?thesis
    by (auto simp: aipu_job_manager_update_job_profiling_data_def bind_eq_Some_conv split: if_splits)
qed

lemma state_irq_dev_step: "aipu_job_manager_update_job_state_irq e s x = Some s' \<Longrightarrow> dev_step s s'"
proof -
  assume t: "aipu_job_manager_update_job_state_irq e s x = Some s'"
  obtain s1 where "aipu_schedule_pending_job_no_lock e s1 = Some s'" "dev_step s s1"
  proof -
    from t obtain ss where ss: "scheduled_queue (jm_of s) = Some ss"
      by (auto simp: aipu_job_manager_update_job_state_irq_def bind_eq_Some_conv)
    show thesis
    proof (cases "first_sched ss")
      case None
      then show thesis using t ss that [of s] by (simp add: aipu_job_manager_update_job_state_irq_def)
    next
      case (Some i)
      let ?job = "(ss ! i)\<lparr>aj_state := AIPU_JOB_STATE_END, aj_exception_flag := x\<rparr>"
      let ?s1 = "put_jm ((jm_of s)\<lparr>scheduled_queue := Some (ss[i := ?job])\<rparr>) s"
      obtain h s3 where s3: "(if aj_valid_flag ?job = AIPU_JOB_FLAG_VALID
           then aipu_job_manager_update_job_profiling_data (put_hp h ?s1) ?job else Some (put_hp h ?s1)) = Some s3"
        and fin: "aipu_schedule_pending_job_no_lock e (if sched_num (jm_of s3) \<noteq> 0
           then put_jm ((jm_of s3)\<lparr>sched_num := sched_num (jm_of s3) - 1\<rparr>) s3 else s3) = Some s'"
        using t ss Some unfolding aipu_job_manager_update_job_state_irq_def Let_def
        by (simp only: bind_eq_Some_conv option.case option.inject ex_simps simp_thms) blast
      have "dev_step (put_hp h ?s1) s3"
        using s3 profiling_dev_step by (cases "aj_valid_flag ?job = AIPU_JOB_FLAG_VALID") auto
      then have "dev_step s s3" by (meson dev_step_refl dev_step_trans)
      then show thesis by (intro that [OF fin]) auto
    qed
  qed
  with schedule_dev_step dev_step_trans show ?thesis by blast
qed

end
