(* ===== verification/Fifo.thy ===== *)
theory Fifo
  imports Prelude "HOL-Library.Sublist"
begin

text \<open>
  The contract of a first-in first-out service, as the file operations and the interrupt
  handlers rely on it when they drive the job manager. Every admissible operation
  succeeds, keeps the invariant, and keeps the order of the entries: new entries join at
  the end, entries may leave from anywhere, no entry overtakes another. The job manager
  (theory \<open>JobManagerSpec\<close>) and the whole driver (theory \<open>DriverSpec\<close>) are its
  interpretations.
\<close>

text \<open>A run of operations from one state to another, with the entries that joined on the way.\<close>

inductive fifo_run ::
  "('op \<Rightarrow> 's \<Rightarrow> 's option) \<Rightarrow> ('op \<Rightarrow> 's \<Rightarrow> 'i list) \<Rightarrow> ('op \<Rightarrow> 's \<Rightarrow> bool) \<Rightarrow> 's \<Rightarrow> 'i list \<Rightarrow> 's \<Rightarrow> bool"
  for step arrivals adm s where
    run_refl: "fifo_run step arrivals adm s [] s"
  | run_step: "fifo_run step arrivals adm s ids t \<Longrightarrow> adm a t \<Longrightarrow> step a t = Some u \<Longrightarrow>
      fifo_run step arrivals adm s (ids @ arrivals a t) u"

inductive_cases fifo_runE: "fifo_run step arrivals adm s ids t"

locale fifo_service =
  fixes inv :: "'s \<Rightarrow> bool"
    and queue :: "'s \<Rightarrow> 'i list"
    and step :: "'op \<Rightarrow> 's \<Rightarrow> 's option"
    and arrivals :: "'op \<Rightarrow> 's \<Rightarrow> 'i list"
    and adm :: "'op \<Rightarrow> 's \<Rightarrow> bool"
  assumes step_total: "inv s \<Longrightarrow> adm a s \<Longrightarrow> \<exists>s'. step a s = Some s'"
    and step_inv: "inv s \<Longrightarrow> adm a s \<Longrightarrow> step a s = Some s' \<Longrightarrow> inv s'"
    and step_order: "inv s \<Longrightarrow> adm a s \<Longrightarrow> step a s = Some s' \<Longrightarrow> subseq (queue s') (queue s @ arrivals a s)"
begin

abbreviation run :: "'s \<Rightarrow> 'i list \<Rightarrow> 's \<Rightarrow> bool" where
  "run \<equiv> fifo_run step arrivals adm"

lemma run_inv: "run s ids t \<Longrightarrow> inv s \<Longrightarrow> inv t"
  by (induction rule: fifo_run.induct) (auto intro: step_inv)

lemma run_not_stuck: "run s ids t \<Longrightarrow> inv s \<Longrightarrow> adm a t \<Longrightarrow> \<exists>u. step a t = Some u"
  using run_inv step_total by blast

text \<open>What is queued at the end is a subsequence of what was queued and what joined, in that order.\<close>

lemma run_order: "run s ids t \<Longrightarrow> inv s \<Longrightarrow> subseq (queue t) (queue s @ ids)"
proof (induction rule: fifo_run.induct)
  case run_refl
  then show ?case by simp
next
  case (run_step ids t a u)
  have "inv t" using run_inv run_step by blast
  then have "subseq (queue u) (queue t @ arrivals a t)" using run_step by (intro step_order)
  also have "subseq (queue t @ arrivals a t) ((queue s @ ids) @ arrivals a t)"
    using list_emb_append_mono [OF run_step.IH [OF run_step.prems] subseq_order.order_refl] .
  finally show ?case by simp
qed

lemma run_trans: "run t ids' u \<Longrightarrow> run s ids t \<Longrightarrow> run s (ids @ ids') u"
  by (induction rule: fifo_run.induct) (simp, metis append_assoc fifo_run.run_step)

end

end
