(* ===== verification/SessionSpec.thy ===== *)
theory SessionSpec
  imports Session
begin

text \<open>
  The properties of sessions: their buffers against the memory manager, the mapping of
  buffers, and the submission, query and completion of jobs.
\<close>

subsection \<open>Concrete sessions\<close>

definition demo_session :: "session_buf list \<Rightarrow> ptr list \<Rightarrow> aipu_session" where
  "demo_session bufs jobs = \<lparr>user_pid = 100, sbuf_list = bufs, job_list = jobs,
     wait_queue_head = Some [\<lparr>wq_uthread_id = 7, wq_ref_cnt = 2, wq_p_wait = init_waitqueue_head\<rparr>],
     com_wait = init_waitqueue_head, single_thread_poll = 0\<rparr>"

definition demo_job :: "u32 \<Rightarrow> job_state \<Rightarrow> session_job" where
  "demo_job jid st = \<lparr>sj_uthread_id = 7, sj_desc = zero_job_desc\<lparr>job_id := jid\<rparr>, sj_state = st,
     sj_exception_type = 0, sj_pdata = zero_pdata, sj_sched_time = 0, sj_done_time = 0\<rparr>"

text \<open>Session 1 holds job 2 (identifier 11, ended) and job 3 (identifier 12, idle).\<close>

definition demo_heap :: heap where
  "demo_heap = \<lparr>h_sess = (\<lambda>p. if p = 1 then Some (demo_session [] [3, 2]) else None),
     h_sjob = (\<lambda>p. if p = 2 then Some (demo_job 11 AIPU_JOB_STATE_END)
                   else if p = 3 then Some (demo_job 12 AIPU_JOB_STATE_IDLE) else None),
     h_next = 4\<rparr>"

lemma demo_heap_wf: "heap_wf demo_heap"
  by (auto simp: heap_wf_def demo_heap_def demo_session_def session_wf_def waitqs_wf_def demo_job_def
      split: if_splits)

subsection \<open>Buffers\<close>

definition sbuf_range :: "session_buf \<Rightarrow> nat \<times> nat" where
  "sbuf_range b = (unat (ab_pa (sb_desc b)), unat (ab_bytes (sb_desc b)))"

lemma detach_head:
  assumes "sbuf_list s = b # bs" "bd_pa d = ab_pa (sb_desc b)" "bd_bytes d = ab_bytes (sb_desc b)"
  shows "aipu_session_detach_buf s d = (0, s\<lparr>sbuf_list := bs\<rparr>)"
  using assms by (simp add: aipu_session_detach_buf_def find_buffer_bydesc_no_lock_def errcode_defs)

lemma free_session_buffers_effect:
  assumes "mm_wf mm" "distinct (map sbuf_range (sbuf_list s))" "sbuf_range ` set (sbuf_list s) \<subseteq> mm_live mm"
  shows "\<exists>mm'. aipu_mm_free_session_buffers mm s = (0, mm', s\<lparr>sbuf_list := []\<rparr>) \<and> mm_wf mm' \<and>
    mm_live mm' = mm_live mm - sbuf_range ` set (sbuf_list s) \<and>
    mm_free_bytes mm' = mm_free_bytes mm + sum_list (map (snd \<circ> sbuf_range) (sbuf_list s))"
  using assms
proof (induction "sbuf_list s" arbitrary: s mm)
  case Nil
  then have "s\<lparr>sbuf_list := []\<rparr> = s" by (metis aipu_session.surjective aipu_session.update_convs(2))
  then show ?case using Nil
    by (auto simp: aipu_mm_free_session_buffers.simps aipu_get_session_sbuf_head_def)
next
  case (Cons b bs)
  let ?d = "\<lparr>bd_pa = ab_pa (sb_desc b), bd_dev_offset = 0, bd_bytes = ab_bytes (sb_desc b), bd_region_id = 0\<rparr>"
  let ?s = "s\<lparr>sbuf_list := bs\<rparr>"
  have sl: "sbuf_list s = b # bs" using Cons.hyps(2) by simp
  obtain ret mm1 where f: "aipu_mm_free mm ?d = (ret, mm1)" by fastforce
  have l: "(unat (bd_pa ?d), unat (bd_bytes ?d)) \<in> mm_live mm"
    using Cons.prems(3) sl by (auto simp: sbuf_range_def)
  note fx = mm_free_effect [OF Cons.prems(1) l f]
  have live1: "mm_live mm1 = mm_live mm - {sbuf_range b}" using fx by (simp add: sbuf_range_def)
  have step: "aipu_mm_free_session_buffers mm s = aipu_mm_free_session_buffers mm1 ?s"
    using f fx detach_head [OF sl, of ?d]
    by (subst aipu_mm_free_session_buffers.simps) (simp add: aipu_get_session_sbuf_head_def sl)
  have "distinct (map sbuf_range (sbuf_list ?s))" "sbuf_range ` set (sbuf_list ?s) \<subseteq> mm_live mm1"
    using Cons.prems(2,3) sl live1 by auto
  from Cons.hyps(1) [of ?s mm1, OF _ _ this] fx
  obtain mm' where m: "aipu_mm_free_session_buffers mm1 ?s = (0, mm', ?s\<lparr>sbuf_list := []\<rparr>)" "mm_wf mm'"
    "mm_live mm' = mm_live mm1 - sbuf_range ` set bs"
    "mm_free_bytes mm' = mm_free_bytes mm1 + sum_list (map (snd \<circ> sbuf_range) bs)" by auto
  have "mm_free_bytes mm1 = mm_free_bytes mm + snd (sbuf_range b)" using fx by (simp add: sbuf_range_def)
  then show ?case using m step live1 sl by auto
qed

text \<open>C34. Closing a session gives its memory back. When the session's buffers are distinct allocated
  ranges of a well-formed manager, the release loop ends with 0, the session has no buffer
  left, and exactly these ranges leave the allocated ones, their bytes becoming free.\<close>

theorem free_session_buffers_releases:
  assumes "mm_wf mm" "distinct (map sbuf_range (sbuf_list s))" "sbuf_range ` set (sbuf_list s) \<subseteq> mm_live mm"
  shows "\<exists>mm'. aipu_mm_free_session_buffers mm s = (0, mm', s\<lparr>sbuf_list := []\<rparr>) \<and> mm_wf mm' \<and>
    mm_live mm' = mm_live mm - sbuf_range ` set (sbuf_list s) \<and>
    mm_free_bytes mm' = mm_free_bytes mm + sum_list (map (snd \<circ> sbuf_range) (sbuf_list s))"
  by (rule free_session_buffers_effect [OF assms])

definition demo_sbuf :: session_buf where
  "demo_sbuf = \<lparr>sb_desc = \<lparr>ab_pa = 0xA0000000, ab_va = 0x1000, ab_bytes = 0x20000000, ab_region_id = 0,
     ab_type = 2\<rparr>, sb_dev_offset = 0xA0000000, sb_type = 2, sb_map_num = 0\<rparr>"

text \<open>A manager whose one region is allocated as a whole, to the session above.\<close>

definition demo_mm_full :: aipu_memory_manager where
  "demo_mm_full = \<lparr>sram_head = Some [], sram_cnt = 0,
     ddr_head = Some [\<lparr>rg_id = 0, rg_blks = [\<lparr>blk_pa = 0xA0000000, blk_bytes = 0x20000000, blk_tid = 7,
         blk_type = 1, blk_state = AIPU_BLOCK_STATE_ALLOCATED\<rparr>], rg_pa = 0xA0000000, rg_va = 0x1000,
       rg_tot_bytes = 0x20000000, rg_tot_free_bytes = 0, rg_flag = AIPU_ALLOC_FLAG_COMPACT,
       rg_type = AIPU_MEM_TYPE_RESERVED, rg_alloc_in_region = Compact_no_lock\<rparr>],
     ddr_cnt = 1, sram_global = 4, mm_version = 1\<rparr>"

lemma demo_mm_full:
  "mm_wf demo_mm_full" "mm_live demo_mm_full = {(0xA0000000, 0x20000000)}" "mm_free_bytes demo_mm_full = 0"
  by (simp_all add: demo_mm_full_def mm_wf_def regions_wf_def region_wf_def coalesced_def free_bytes_def
      mm_live_def mm_free_bytes_def ddr_regions_def live_def is_free_def)

lemma free_session_buffers_releases_witness:
  "\<exists>mm'. aipu_mm_free_session_buffers demo_mm_full (demo_session [demo_sbuf] []) =
     (0, mm', demo_session [] []) \<and> mm_live mm' = {} \<and> mm_free_bytes mm' = 0x20000000"
  using free_session_buffers_releases [OF demo_mm_full(1), of "demo_session [demo_sbuf] []"]
  by (auto simp: demo_session_def demo_sbuf_def sbuf_range_def demo_mm_full)

lemma find_buffer_touch:
  "find_buffer p bs = Some i \<Longrightarrow> p b \<Longrightarrow> find_buffer p (bs[i := b]) = Some i"
  by (induction bs arbitrary: i) (auto split: if_splits nat.splits)

text \<open>A buffer is mapped at most once, and only at its own offset. A successful mapping of a buffer
  of a session finds the buffer by its device offset, requires that it was not mapped, marks
  it mapped and changes nothing else; a second attempt on it is refused as an invalid
  operation.\<close>

theorem mmap_buf_once:
  assumes "aipu_session_mmap_buf e s vma = (0, s', m)"
  shows "\<exists>i < length (sbuf_list s). sb_dev_offset (sbuf_list s ! i) = vm_pgoff vma * PAGE_SIZE \<and>
    sb_map_num (sbuf_list s ! i) = 0 \<and>
    s' = s\<lparr>sbuf_list := (sbuf_list s)[i := (sbuf_list s ! i)\<lparr>sb_map_num := 1\<rparr>]\<rparr> \<and>
    aipu_session_mmap_buf e2 s' vma = (map_errcode AIPU_ERRCODE_INVALID_OPS, s', None)"
proof -
  let ?off = "vm_pgoff vma * PAGE_SIZE" and ?len = "ucast (vm_end vma - vm_start vma) :: 32 word"
  let ?p = "\<lambda>b. sb_dev_offset b = ?off \<and> (scast ?len :: u64) \<le> ab_bytes (sb_desc b)"
  obtain i where i: "find_buffer ?p (sbuf_list s) = Some i"
    using assms by (auto simp: aipu_session_mmap_buf_def find_buffer_byoffset_no_lock_def map_errcode_def
        errcode_defs errno_defs split: option.splits)
  note f = find_buffer_SomeD [OF i]
  let ?b = "sbuf_list s ! i"
  have z: "sb_map_num ?b = 0"
    using assms i by (auto simp: aipu_session_mmap_buf_def find_buffer_byoffset_no_lock_def Let_def map_errcode_def
        errcode_defs errno_defs split: if_splits)
  have s': "s' = s\<lparr>sbuf_list := (sbuf_list s)[i := ?b\<lparr>sb_map_num := 1\<rparr>]\<rparr>"
    using assms i z by (auto simp: aipu_session_mmap_buf_def find_buffer_byoffset_no_lock_def Let_def split: if_splits)
  have "find_buffer ?p (sbuf_list s') = Some i"
    unfolding s' using find_buffer_touch [OF i, of "?b\<lparr>sb_map_num := 1\<rparr>"] f by simp
  then have "aipu_session_mmap_buf e2 s' vma = (map_errcode AIPU_ERRCODE_INVALID_OPS, s', None)"
    using f by (simp add: aipu_session_mmap_buf_def find_buffer_byoffset_no_lock_def Let_def s')
  then show ?thesis using f z s' by blast
qed

lemma mmap_buf_once_witness:
  "\<exists>s' m. aipu_session_mmap_buf (env_ok 7) (demo_session [demo_sbuf] [])
       \<lparr>vm_start = 0, vm_end = 0x1000, vm_pgoff = 0xA0000\<rparr> = (0, s', m) \<and>
     aipu_session_mmap_buf (env_ok 8) s' \<lparr>vm_start = 0, vm_end = 0x1000, vm_pgoff = 0xA0000\<rparr> =
       (map_errcode AIPU_ERRCODE_INVALID_OPS, s', None)"
proof -
  obtain s' m where a: "aipu_session_mmap_buf (env_ok 7) (demo_session [demo_sbuf] [])
       \<lparr>vm_start = 0, vm_end = 0x1000, vm_pgoff = 0xA0000\<rparr> = (0, s', m)"
    by (simp add: aipu_session_mmap_buf_def find_buffer_byoffset_no_lock_def demo_session_def demo_sbuf_def
        PAGE_SIZE_def PAGE_SHIFT_def env_ok_def Let_def)
  from mmap_buf_once [OF a, of "env_ok 8"] a show ?thesis by blast
qed

text \<open>The length check of a mapping is done on an \<open>int\<close>. A mapping of 4 GB and one page at the offset
  of a buffer of one page is accepted, and for reserved memory the whole length is mapped,
  far beyond the buffer.\<close>

theorem mmap_buf_length_truncated:
  "\<exists>s'. aipu_session_mmap_buf (env_ok 7)
     (demo_session [demo_sbuf\<lparr>sb_desc := (sb_desc demo_sbuf)\<lparr>ab_bytes := 0x1000\<rparr>\<rparr>] [])
     \<lparr>vm_start = 0, vm_end = 0x100001000, vm_pgoff = 0xA0000\<rparr> = (0, s', Some (0xA0000000, 0x100001000))"
  by (simp add: aipu_session_mmap_buf_def find_buffer_byoffset_no_lock_def demo_session_def demo_sbuf_def
      PAGE_SIZE_def PAGE_SHIFT_def env_ok_def Let_def)

subsection \<open>Jobs\<close>

text \<open>Submission of a job to a session keeps the heap invariant. It either fails without any effect
  and reports the error code, or puts one new idle job, with the caller's thread and
  descriptor, at the front of the session's list; no other object of the heap changes but
  the session's wait queues, among which the thread now has one.\<close>

theorem session_add_job_effect:
  assumes "heap_wf h" "h_sess h sp = Some s" "aipu_session_add_job e h sp uj = Some (jp, h', uj')"
  shows "heap_wf h' \<and>
    (if jp = 0 then h' = h \<and> uj_errcode uj' = AIPU_ERRCODE_CREATE_KOBJ_ERR
     else h_sjob h jp = None \<and> uj_errcode uj' = AIPU_ERRCODE_NO_ERROR \<and>
       (\<exists>s' qs. h_sess h' = (h_sess h)(sp \<mapsto> s') \<and> s' = s\<lparr>job_list := jp # job_list s, wait_queue_head := Some qs\<rparr> \<and>
          cur_tid e \<in> wq_uthread_id ` set qs) \<and>
       (\<exists>j. h_sjob h' = (h_sjob h)(jp \<mapsto> j) \<and> sj_uthread_id j = cur_tid e \<and> sj_desc j = uj_desc uj \<and>
          sj_state j = AIPU_JOB_STATE_IDLE))"
proof (cases "jp = 0")
  case True
  then show ?thesis using add_job_effect(1,2) [OF assms] by simp
next
  case False
  note fx = add_job_effect(1,3) [OF assms]
  let ?j = "init_session_job e (Some (uj_desc uj))"
  obtain qs where qs: "h_sess h' = (h_sess h)(sp \<mapsto> s\<lparr>job_list := jp # job_list s, wait_queue_head := Some qs\<rparr>)"
    using fx(2) False by blast
  have m: "h_sjob h' = (h_sjob h)(jp \<mapsto> ?j)" using fx(2) False by blast
  have "h_sess h' sp = Some (s\<lparr>job_list := jp # job_list s, wait_queue_head := Some qs\<rparr>)" by (simp add: qs)
  from heap_wfD(4) [OF fx(1) this] have "cur_tid e \<in> wq_uthread_id ` set qs"
    by (auto simp: session_wf_def m init_session_job_def)
  then show ?thesis using fx False qs m by (auto simp: init_session_job_def)
qed

lemma session_add_job_effect_witness:
  "\<exists>h' uj'. aipu_session_add_job (env_ok 9) demo_heap 1 \<lparr>uj_desc = zero_job_desc, uj_errcode = 0\<rparr> = Some (4, h', uj') \<and>
     heap_wf h'"
proof -
  obtain h' uj' where a: "aipu_session_add_job (env_ok 9) demo_heap 1 \<lparr>uj_desc = zero_job_desc, uj_errcode = 0\<rparr> =
      Some (4, h', uj')"
    by (simp add: aipu_session_add_job_def create_session_job_def env_ok_def demo_heap_def demo_session_def
        create_thread_wait_queue_no_lock_def get_thread_wait_queue_no_lock_def do_create_thread_wait_queue_def
        Let_def)
  have "h_sess demo_heap 1 = Some (demo_session [] [3, 2])" by (simp add: demo_heap_def)
  from session_add_job_effect [OF demo_heap_wf this a] a show ?thesis by blast
qed

text \<open>C19. The status query against its specification. With memory for the kernel array and a
  non-negative count, the query reports exactly the first ended jobs of the list in list
  order - all of them up to \<open>max_cnt\<close>, or the first with the given identifier - fills that
  many entries of the array (never beyond its end), removes exactly these jobs from the
  session and the heap, and keeps the invariant; it returns an error exactly when it finds
  none or the copy to user land fails.\<close>

theorem get_job_status_spec:
  assumes "heap_wf h" "h_sess h sp = Some s" "1 \<le> jq_max_cnt q" "kz_status e"
    and "jq_get_single_job q \<noteq> 0 \<or> 0 \<le> sint (jq_max_cnt q)"
    and "r = reported q h (if jq_get_single_job q \<noteq> 0 then 1 else unat (jq_max_cnt q)) (job_list s)"
  shows "\<exists>h' q'. aipu_session_get_job_status e h sp q =
      Some (if r = [] then map_errcode AIPU_ERRCODE_ITEM_NOT_FOUND else ctu_left e, h', q') \<and> heap_wf h' \<and>
    h_sess h' = (h_sess h)(sp \<mapsto> s\<lparr>job_list := filter (\<lambda>p. p \<notin> set r) (job_list s)\<rparr>) \<and>
    h_sjob h' = (\<lambda>p. if p \<in> set r then None else h_sjob h p) \<and>
    unat (jq_poll_cnt q') = length r \<and>
    (r \<noteq> [] \<and> ctu_left e = 0 \<longrightarrow> jq_status q' = map (\<lambda>p. status_of (user_pid s) (job_at h p)) r)"
proof -
  have sub: "set r \<subseteq> set (job_list s)" by (auto simp: assms(6) reported_def dest: in_set_takeD)
  from get_job_status_effect [OF assms(1-5) refl assms(6)] drop_jobs_wf [OF assms(1,2) sub]
  show ?thesis by (auto simp: fun_eq_iff)
qed

definition demo_query :: job_status_query where
  "demo_query = \<lparr>jq_max_cnt = 4, jq_get_single_job = 0, jq_job_id = 0, jq_status = [], jq_poll_cnt = 0, jq_errcode = 0\<rparr>"

lemma get_job_status_spec_witness:
  "\<exists>h' q'. aipu_session_get_job_status (env_ok 7) demo_heap 1 demo_query = Some (0, h', q') \<and>
     map js_job_id (jq_status q') = [11] \<and> h_sjob h' 2 = None"
proof -
  have r: "[2] = reported demo_query demo_heap (if jq_get_single_job demo_query \<noteq> 0 then 1 else unat (jq_max_cnt demo_query))
      (job_list (demo_session [] [3, 2]))"
    by (simp add: reported_def demo_query_def demo_heap_def job_at_def job_selected_def demo_job_def demo_session_def)
  have s: "h_sess demo_heap 1 = Some (demo_session [] [3, 2])" by (simp add: demo_heap_def)
  have p: "1 \<le> jq_max_cnt demo_query" "kz_status (env_ok 7)"
    "jq_get_single_job demo_query \<noteq> 0 \<or> 0 \<le> sint (jq_max_cnt demo_query)"
    by (simp_all add: demo_query_def env_ok_def)
  from get_job_status_spec [OF demo_heap_wf s p r] show ?thesis
    by (auto simp: env_ok_def status_of_def job_at_def demo_heap_def demo_job_def)
qed

lemma thread_has_end_job_raw:
  assumes "heap_wf h" "h_sess h sp = Some s"
  shows "aipu_session_thread_has_end_job h sp t =
    Some (has_end_job (\<exists>p \<in> set (job_list s). sj_uthread_id (job_at h p) = t) t (map (job_at h) (job_list s)))"
proof -
  have "lookup_jobs h (job_list s) = Some (map (job_at h) (job_list s))"
    using session_jobs_live [OF assms] by (intro lookup_jobs_map) blast
  then show ?thesis
    using session_null [OF assms] assms(2)
    by (auto simp: aipu_session_thread_has_end_job_def has_job_of_iff)
qed

text \<open>What a poll is told. The answer is 1 exactly when the session has an ended job of the calling
  thread, or has no job of that thread at all and some ended job.\<close>

theorem thread_has_end_job_spec:
  assumes "heap_wf h" "h_sess h sp = Some s"
  shows "aipu_session_thread_has_end_job h sp t =
    Some (if \<exists>p \<in> set (job_list s). sj_state (job_at h p) = AIPU_JOB_STATE_END \<and>
               (sj_uthread_id (job_at h p) = t \<or> (\<forall>p' \<in> set (job_list s). sj_uthread_id (job_at h p') \<noteq> t))
          then 1 else 0)"
  by (auto simp: thread_has_end_job_raw [OF assms] has_end_job_iff)

lemma thread_has_end_job_spec_witness:
  "aipu_session_thread_has_end_job demo_heap 1 7 = Some 1 \<and> aipu_session_thread_has_end_job demo_heap 1 8 = Some 1"
proof -
  have s: "h_sess demo_heap 1 = Some (demo_session [] [3, 2])" by (simp add: demo_heap_def)
  show ?thesis
    using thread_has_end_job_spec [OF demo_heap_wf s, of 7] thread_has_end_job_spec [OF demo_heap_wf s, of 8]
    by (simp add: demo_session_def job_at_def demo_heap_def demo_job_def)
qed

text \<open>C35. No wake-up is lost for a thread that polls for its own job. If thread \<open>t\<close> registers while its
  job \<open>p\<close> is in the session, and the job then completes, the queue that is woken is the one
  the thread registered on, and the condition it re-checks holds.\<close>

theorem poll_then_done_wakes:
  assumes "heap_wf h" "h_sess h sp = Some s" "p \<in> set (job_list s)" "sj_uthread_id (job_at h p) = t"
  shows "\<exists>h1 h2 s2 qs2 i qs. aipu_session_add_poll_wait_queue h sp t = Some h1 \<and>
    aipu_session_job_done h1 sp p x = Some h2 \<and> heap_wf h2 \<and> h_sess h2 sp = Some s2 \<and>
    wait_queue_head s = Some qs \<and> wait_queue_head s2 = Some qs2 \<and>
    i < length qs \<and> wq_uthread_id (qs ! i) = t \<and>
    wq_p_wait (qs2 ! i) = wake_up_interruptible (poll_wait (wq_p_wait (qs ! i))) \<and>
    aipu_session_thread_has_end_job h2 sp t = Some 1"
proof -
  have mine: "\<exists>p \<in> set (job_list s). sj_uthread_id (job_at h p) = t" using assms(3,4) by blast
  obtain h1 s1 qs i where h1: "aipu_session_add_poll_wait_queue h sp t = Some h1" "heap_wf h1"
      "h_sess h1 = (h_sess h)(sp \<mapsto> s1)" "h_sjob h1 = h_sjob h" "job_list s1 = job_list s"
      "single_thread_poll s1 = 1"
    and qs: "wait_queue_head s = Some qs" "i < length qs" "wq_uthread_id (qs ! i) = t"
      "wait_queue_head s1 = Some (qs[i := (qs ! i)\<lparr>wq_p_wait := poll_wait (wq_p_wait (qs ! i))\<rparr>])"
    using add_poll_effect [OF assms(1,2), of t] mine by auto
  obtain j where j: "h_sjob h1 p = Some j" "sj_uthread_id j = t"
    using session_jobs_live(2) [OF assms(1,2)] assms(3,4) h1(4) by (auto simp: job_at_def)
  have s1: "h_sess h1 sp = Some s1" "p \<in> set (job_list s1)" using h1 assms(3) by auto
  obtain h2 s2 where h2: "aipu_session_job_done h1 sp p x = Some h2" "heap_wf h2"
      "h_sess h2 = (h_sess h1)(sp \<mapsto> s2)" "woken t s1 s2"
      "h_sjob h2 = (h_sjob h1)(p \<mapsto> j\<lparr>sj_state := AIPU_JOB_STATE_END, sj_exception_type := AIPU_EXCEP_NO_EXCEPTION\<rparr>)"
    using job_done_effect [OF h1(2) s1(1) j(1) s1(2), of x, unfolded j(2)] by blast
  let ?qs1 = "qs[i := (qs ! i)\<lparr>wq_p_wait := poll_wait (wq_p_wait (qs ! i))\<rparr>]"
  obtain k where k: "k < length ?qs1" "wq_uthread_id (?qs1 ! k) = t"
      "wait_queue_head s2 = Some (?qs1[k := (?qs1 ! k)\<lparr>wq_p_wait := wake_up_interruptible (wq_p_wait (?qs1 ! k))\<rparr>])"
    using h2(4) h1(6) qs(4) by (auto simp: woken_def)
  have "waitqs_wf ?qs1" using heap_wfD(4) [OF h1(2) s1(1)] qs(4) by (auto simp: session_wf_def)
  then have "distinct (map wq_uthread_id ?qs1)" by (simp add: waitqs_wf_def)
  moreover have "map wq_uthread_id ?qs1 ! k = map wq_uthread_id ?qs1 ! i" using k(1,2) qs(2,3) by simp
  ultimately have ki: "k = i" using nth_eq_iff_index_eq [of "map wq_uthread_id ?qs1" k i] k(1) qs(2) by simp
  have s2: "h_sess h2 sp = Some s2" "job_list s2 = job_list s"
    using h2(3,4) woken_same [OF h2(4)] h1(5) by auto
  have "aipu_session_thread_has_end_job h2 sp t = Some 1"
    using s2(2) assms(3) j(2) h2(5) by (auto simp: thread_has_end_job_raw [OF h2(2) s2(1)] has_end_job_iff job_at_def)
  moreover have "wq_p_wait (?qs1[k := (?qs1 ! k)\<lparr>wq_p_wait := wake_up_interruptible (wq_p_wait (?qs1 ! k))\<rparr>] ! i) =
      wake_up_interruptible (poll_wait (wq_p_wait (qs ! i)))"
    using qs(2) unfolding ki by simp
  ultimately show ?thesis using h1(1) h2(1,2) s2(1) qs(1-3) k(3) by blast
qed

lemma poll_then_done_wakes_witness:
  "\<exists>h1 h2. aipu_session_add_poll_wait_queue demo_heap 1 7 = Some h1 \<and>
     aipu_session_job_done h1 1 3 0 = Some h2 \<and> aipu_session_thread_has_end_job h2 1 7 = Some 1"
proof -
  have s: "h_sess demo_heap 1 = Some (demo_session [] [3, 2])" by (simp add: demo_heap_def)
  have "3 \<in> set (job_list (demo_session [] [3, 2]))" "sj_uthread_id (job_at demo_heap 3) = 7"
    by (simp_all add: demo_session_def job_at_def demo_heap_def demo_job_def)
  from poll_then_done_wakes [OF demo_heap_wf s this, of 0] show ?thesis by blast
qed

text \<open>A wake-up that is lost. Thread 8 has no job in the session; once thread 7 has polled for its
  own jobs, a poll of thread 8 registers on no queue, and the completion of a job of thread
  7 wakes nothing thread 8 could wait on - although the condition thread 8 polls for, some
  ended job in the session, becomes true.\<close>

theorem poll_without_jobs_registers_nowhere:
  "\<exists>h1 h2 h3 h4. h_sess h1 1 = Some (demo_session [] [3]) \<and>
     aipu_session_add_poll_wait_queue h1 1 7 = Some h2 \<and>
     aipu_session_add_poll_wait_queue h2 1 8 = Some h3 \<and> h3 = h2 \<and>
     aipu_session_thread_has_end_job h3 1 8 = Some 0 \<and>
     aipu_session_job_done h3 1 3 0 = Some h4 \<and>
     map_option com_wait (h_sess h4 1) = Some init_waitqueue_head \<and>
     aipu_session_thread_has_end_job h4 1 8 = Some 1"
proof -
  let ?h1 = "\<lparr>h_sess = [1 \<mapsto> demo_session [] [3]], h_sjob = [3 \<mapsto> demo_job 12 AIPU_JOB_STATE_IDLE], h_next = 4\<rparr>"
  show ?thesis
    by (rule exI [of _ ?h1])
       (simp add: aipu_session_add_poll_wait_queue_def demo_session_def demo_job_def
         get_thread_wait_queue_no_lock_def aipu_session_thread_has_end_job_def aipu_session_job_done_def Let_def)
qed

text \<open>No exception reaches user land. Whatever the interrupt reported, a completed job of a
  well-formed heap is recorded without exception, and a later query reports it as done.\<close>

theorem exception_never_reported:
  assumes "heap_wf h" "h_sess h sp = Some s" "p \<in> set (job_list s)" "aipu_session_job_done h sp p x = Some h'"
  shows "js_state (status_of pid (job_at h' p)) = AIPU_JOB_STATE_DONE"
proof -
  obtain j where j: "h_sjob h p = Some j" using session_jobs_live(2) [OF assms(1,2)] assms(3) by auto
  from job_done_effect [OF assms(1,2) j assms(3), of x] assms(4)
  show ?thesis by (auto simp: status_of_def job_at_def)
qed

lemma exception_never_reported_witness:
  "\<exists>h'. aipu_session_job_done demo_heap 1 3 1 = Some h' \<and>
     js_state (status_of 100 (job_at h' 3)) = AIPU_JOB_STATE_DONE"
proof -
  obtain h' where a: "aipu_session_job_done demo_heap 1 3 1 = Some h'"
    by (simp add: aipu_session_job_done_def demo_heap_def demo_session_def)
  have s: "h_sess demo_heap 1 = Some (demo_session [] [3, 2])" by (simp add: demo_heap_def)
  have "3 \<in> set (job_list (demo_session [] [3, 2]))" by (simp add: demo_session_def)
  from exception_never_reported [OF demo_heap_wf s this a] a show ?thesis by blast
qed

end
