(* ===== verification/MmSpec.thy ===== *)
theory MmSpec
  imports Mm
begin

text \<open>
  The properties of the memory manager, on top of the lemmas of \<open>MmBlock\<close> and \<open>Mm\<close>.
\<close>

subsection \<open>A concrete manager\<close>

text \<open>
  The reserved DDR region of the juno device tree, added to a fresh manager by the
  driver's own operations, and a request of one page of weights.
\<close>

definition demo_mm :: "int \<Rightarrow> aipu_memory_manager" where
  "demo_mm version = snd (the (aipu_mm_add_region (env_ok 7) (aipu_init_mm (env_ok 7) version)
     0xA0000000 0x20000000 AIPU_MEM_TYPE_RESERVED))"

definition demo_request :: "u64 \<Rightarrow> u32 \<Rightarrow> u32 \<Rightarrow> buf_request" where
  "demo_request bytes pages type = \<lparr>br_bytes = bytes, br_align_in_page = pages, br_data_type = type,
     br_region_id = 0, br_alloc_flag = 0, br_desc = zero_desc, br_errcode = 0\<rparr>"

lemma demo_mm_eq:
  "demo_mm v = \<lparr>sram_head = Some [], sram_cnt = 0,
     ddr_head = Some [\<lparr>rg_id = 0, rg_blks = [\<lparr>blk_pa = 0xA0000000, blk_bytes = 0x20000000, blk_tid = 0,
         blk_type = 0, blk_state = AIPU_BLOCK_STATE_FREE\<rparr>], rg_pa = 0xA0000000, rg_va = 0x1000,
       rg_tot_bytes = 0x20000000, rg_tot_free_bytes = 0x20000000, rg_flag = AIPU_ALLOC_FLAG_COMPACT,
       rg_type = AIPU_MEM_TYPE_RESERVED, rg_alloc_in_region = Compact_no_lock\<rparr>],
     ddr_cnt = 1, sram_global = 4, mm_version = v\<rparr>"
  by (simp add: demo_mm_def aipu_mm_add_region_def aipu_init_mm_def create_region_list_head_def env_ok_def
      aipu_remap_region_nocache_def aipu_init_region_def create_block_list_head_def create_block_def
      aipu_update_mm_regions_def AIPU_CONFIG_MM_ALLOC_FLAG_def AIPU_CONFIG_SRAM_DATA_ASID_def
      AIPU_CONFIG_REUSE_ASID_def AIPU_ASE_ID_2_def data_type_defs)

lemma demo_mm_wf: "mm_wf (demo_mm v)"
  by (simp add: demo_mm_eq mm_wf_def ddr_regions_def regions_wf_def region_wf_def coalesced_def
      free_bytes_def is_free_def)


lemmas demo_run_simps = demo_mm_eq demo_request_def env_ok_def zero_buffer_def aipu_mm_alloc_def
  aipu_mm_scan_regions_alloc_def aipu_mm_try_alloc_in_region_def alloc_in_region_def
  aipu_mm_alloc_in_region_compact_no_lock_def aipu_mm_find_block_candidate_no_lock_def
  aipu_mm_split_block_no_lock_def create_block_def get_alloc_size_def req_alignment_def get_asid_def
  fit_forward_def fit_reverse_def is_forward_type_def ALIGN_def PAGE_SIZE_def splice_def
  AIPU_CONFIG_ENABLE_SRAM_def data_type_defs version_defs errno_defs ddr_regions_def
  live_def is_free_def

subsection \<open>Which requests have room\<close>

text \<open>A free block of the region holds an aligned range of \<open>n\<close> bytes.\<close>

definition has_room :: "aipu_mem_region \<Rightarrow> nat \<Rightarrow> nat \<Rightarrow> bool" where
  "has_room r n a \<longleftrightarrow>
     (\<exists>b \<in> set (rg_blks r). is_free b \<and>
        (\<exists>y. a dvd y \<and> unat (blk_pa b) \<le> y \<and> y + n \<le> unat (blk_pa b) + unat (blk_bytes b)))"

definition no_kzalloc_failure :: "kenv \<Rightarrow> bool" where
  "no_kzalloc_failure e \<longleftrightarrow> (\<forall>i. kz_blk e i) \<and> (\<forall>i. kz_back e i)"

lemma free_block_le: "b \<in> set bl \<Longrightarrow> is_free b \<Longrightarrow> unat (blk_bytes b) \<le> free_bytes bl"
  by (induction bl) (auto simp: free_bytes_Cons)

lemma no_room_beyond_free:
  "region_wf r \<Longrightarrow> unat (rg_tot_free_bytes r) < n \<Longrightarrow> \<not> has_room r n a"
  using free_block_le by (fastforce simp: has_room_def region_wf_def)

lemma split_block_fits:
  assumes "is_free (bl ! i)" "0 < unat n" "unat (blk_pa (bl ! i)) \<le> unat s"
    and "unat s + unat n \<le> unat (blk_pa (bl ! i)) + unat (blk_bytes (bl ! i))"
    and "unat (blk_pa (bl ! i)) + unat (blk_bytes (bl ! i)) \<le> 2 ^ 62"
    and res: "aipu_mm_split_block_no_lock True True tid bl i s n ty = Some (r, bl')"
  shows "r = 0"
proof -
  define t where "t = bl ! i"
  note a = assms(1-5) [folded t_def]
  have te0: "unat (blk_pa t + blk_bytes t) = unat (blk_pa t) + unat (blk_bytes t)"
    and ae0: "unat (s + n) = unat s + unat n"
    using a by (simp_all add: unat_add_nowrap)
  have ae: "unat (s + n - 1) = unat s + unat n - 1"
    using unat_sub_nowrap [of 1 "s + n"] ae0 a by simp
  have te: "unat (blk_pa t + blk_bytes t - 1) = unat (blk_pa t) + unat (blk_bytes t) - 1"
    using unat_sub_nowrap [of 1 "blk_pa t + blk_bytes t"] te0 a by simp
  have "n \<noteq> 0" "\<not> s + n - 1 < blk_pa t" "\<not> blk_pa t + blk_bytes t - 1 < s + n - 1"
    using a by (auto simp: word_less_nat_alt ae te)
  then show ?thesis
    using res unfolding aipu_mm_split_block_no_lock_def create_block_def Let_def t_def [symmetric]
    by (auto split: if_splits)
qed

lemma candidate_room:
  assumes wf: "tiles lo bl hi" "hi \<le> 2 ^ 62" and n: "0 < unat n" "unat n \<le> lo"
    and a: "a = 2 ^ k" "12 \<le> k" "k < 32"
  shows "(\<exists>i s. aipu_mm_find_block_candidate_no_lock bl n a ty = Inr (i, s)) \<longleftrightarrow>
    (\<exists>b \<in> set bl. is_free b \<and> (\<exists>y. unat a dvd y \<and> unat (blk_pa b) \<le> y \<and>
       y + unat n \<le> unat (blk_pa b) + unat (blk_bytes b)))" (is "?found \<longleftrightarrow> ?room")
proof
  have ua: "unat a = 2 ^ k" using a by (simp add: unat_exp_u64)
  have lt: "unat a < 2 ^ 32" using a(3) power_strict_increasing [of k 32 "2 :: nat"] by (simp add: ua)
  have ap: "0 < a" using ua by (simp add: word_gt_0 flip: unat_pos_u64)
  { assume ?found
    then obtain i s where f: "aipu_mm_find_block_candidate_no_lock bl n a ty = Inr (i, s)" by blast
    note c = find_candidate_Inr [OF wf n(2) lt f]
    have "unat a dvd unat s" using c(7) c(8) [OF _ a(1)] a(3) by fastforce
    with c show ?room by (intro bexI [of _ "bl ! i"]) auto }
  assume ?room
  then obtain b y where b: "b \<in> set bl" "is_free b"
    and y: "unat a dvd y" "unat (blk_pa b) \<le> y" "y + unat n \<le> unat (blk_pa b) + unat (blk_bytes b)"
    by blast
  obtain j where j: "j < length bl" "b = bl ! j" using b(1) by (auto simp: in_set_conv_nth)
  note m = tiles_mem [OF wf(1) b(1)]
  have fw: "fit_forward n a b \<noteq> None"
    using fit_forward_None [of n a b k y] b a y m wf(2) n(2) by fastforce
  have rv: "fit_reverse n a b \<noteq> None"
    using fit_reverse_None [of n a b y] b ap y m wf(2) by fastforce
  have "scan_blocks (fit_forward n a) [0..<length bl] bl \<noteq> None"
    "scan_blocks (fit_reverse n a) (rev [0..<length bl]) bl \<noteq> None"
    using fw rv j unfolding scan_blocks_None_iff by auto
  moreover have "a mod PAGE_SIZE = 0"
  proof -
    have "(2 :: nat) ^ 12 dvd unat a" unfolding ua by (rule le_imp_power_dvd) (fact a(2))
    then show ?thesis unfolding PAGE_SIZE_def word_eq_unat unat_mod by simp
  qed
  moreover have "n \<noteq> 0" "a \<noteq> 0" using n(1) ap by auto
  ultimately show ?found
    by (auto simp: aipu_mm_find_block_candidate_no_lock_def split: option.splits)
qed

lemma try_alloc_room:
  assumes wf: "region_wf r" and e: "no_kzalloc_failure e"
    and n: "0 < unat (get_alloc_size r (br_bytes q))" "unat (get_alloc_size r (br_bytes q)) \<le> unat (rg_tot_bytes r)"
    and a: "req_alignment q = 2 ^ k" "12 \<le> k" "k < 32"
  shows "\<exists>ret r' q' b'. aipu_mm_try_alloc_in_region e r q b = Some (ret, r', q', b') \<and>
    (ret = 0 \<longleftrightarrow> has_room r (unat (get_alloc_size r (br_bytes q))) (unat (req_alignment q)))"
proof -
  let ?n = "get_alloc_size r (br_bytes q)" and ?a = "req_alignment q" and ?ty = "br_data_type q"
  have t: "tiles (unat (rg_pa r)) (rg_blks r) (unat (rg_pa r) + unat (rg_tot_bytes r))"
    and hi: "unat (rg_pa r) + unat (rg_tot_bytes r) \<le> 2 ^ 62" and nlo: "unat ?n \<le> unat (rg_pa r)"
    using wf n by (auto simp: region_wf_def)
  note room = candidate_room [OF t hi n(1) nlo a, of ?ty, folded has_room_def]
  show ?thesis
  proof (cases "aipu_mm_find_block_candidate_no_lock (rg_blks r) ?n ?a ?ty")
    case (Inl err)
    then have "err \<noteq> 0"
      by (auto simp: aipu_mm_find_block_candidate_no_lock_def errno_defs split: if_splits option.splits)
    with Inl room show ?thesis
      by (auto simp: aipu_mm_try_alloc_in_region_def alloc_in_region_eq
          aipu_mm_alloc_in_region_compact_no_lock_def)
  next
    case (Inr cand)
    obtain i s where cs: "cand = (i, s)" by fastforce
    note c = find_candidate_Inr [OF t hi nlo req_alignment_lt Inr [unfolded cs]]
    have kz: "kz_blk e (rg_id r)" "kz_back e (rg_id r)" using e by (auto simp: no_kzalloc_failure_def)
    obtain r0 bl' where sp: "aipu_mm_split_block_no_lock True True
        (cur_tid e) (rg_blks r) i s ?n ?ty = Some (r0, bl')"
      using split_block_total by blast
    have "r0 = 0" using split_block_fits [OF c(2,3,4,5,6) sp] .
    with sp Inr cs kz room show ?thesis
      by (auto simp: aipu_mm_try_alloc_in_region_def alloc_in_region_eq
          aipu_mm_alloc_in_region_compact_no_lock_def Let_def)
  qed
qed


lemma alloc_loop_room:
  assumes "regions_wf rs" "no_kzalloc_failure e" "ret \<noteq> 0"
    and "\<And>r. r \<in> set rs \<Longrightarrow> 0 < unat (get_alloc_size r (br_bytes q))"
    and "req_alignment q = 2 ^ k" "12 \<le> k" "k < 32"
  shows "\<exists>ret' rs' q' b'.
    alloc_regions_loop (\<lambda>r. get_alloc_size r (br_bytes q) \<le> rg_tot_free_bytes r) e ret rs q b = Some (ret', rs', q', b') \<and>
    (ret' = 0 \<longleftrightarrow> (\<exists>r \<in> set rs. has_room r (unat (get_alloc_size r (br_bytes q))) (unat (req_alignment q))))"
  using assms
proof (induction rs arbitrary: ret)
  case Nil
  then show ?case by simp
next
  case (Cons r rs)
  let ?n = "get_alloc_size r (br_bytes q)"
  have wf: "region_wf r" and wfs: "regions_wf rs" using Cons.prems(1) by (auto simp: regions_wf_def)
  note IH = Cons.IH [OF wfs Cons.prems(2) _ Cons.prems(4-7)]
  show ?case
  proof (cases "?n \<le> rg_tot_free_bytes r")
    case False
    then have "\<not> has_room r (unat ?n) (unat (req_alignment q))"
      by (intro no_room_beyond_free [OF wf]) (simp add: word_le_nat_alt)
    with False IH [OF Cons.prems(3)] show ?thesis by fastforce
  next
    case True
    have pos: "0 < unat ?n" using Cons.prems(4) by simp
    obtain ret1 r1 q1 b1 where tr: "aipu_mm_try_alloc_in_region e r q b = Some (ret1, r1, q1, b1)"
      and rm: "ret1 = 0 \<longleftrightarrow> has_room r (unat ?n) (unat (req_alignment q))"
      using try_alloc_room [OF wf Cons.prems(2) pos get_alloc_guard [OF wf True] Cons.prems(5-7)] by blast
    show ?thesis
    proof (cases "ret1 = 0")
      case True
      with tr rm \<open>?n \<le> _\<close> show ?thesis by auto
    next
      case False
      have "q1 = q" "b1 = b"
        using try_alloc_effect [OF wf get_alloc_guard [OF wf True] tr] False by auto
      with IH [OF False] tr False rm True show ?thesis by fastforce
    qed
  qed
qed

lemma req_alignment_pow2:
  assumes "br_align_in_page q = 2 ^ j" "j < 20"
  shows "req_alignment q = 2 ^ (j + 12)"
proof -
  have lt: "(2 :: nat) ^ (j + 12) < 2 ^ 32" using assms(2) by (intro power_strict_increasing) auto
  have "br_align_in_page q * 4 * 1024 = word_of_nat (2 ^ (j + 12))"
    by (simp add: assms(1) power_add)
  then have "unat (br_align_in_page q * 4 * 1024) = 2 ^ (j + 12)"
    using lt by (simp only: unat_of_nat) simp
  then show ?thesis
    using assms(2) by (simp add: word_eq_unat req_alignment_def unat_ucast_u32 unat_exp_u64)
qed

lemma compact_size_pos:
  assumes "rg_flag r = AIPU_CONFIG_MM_ALLOC_FLAG" "0 < unat n" "unat n \<le> 2 ^ 63"
  shows "0 < unat (get_alloc_size r n)"
proof -
  have "unat n \<le> unat (ALIGN n PAGE_SIZE)"
    using assms(3) by (intro ALIGN_bounds(1)) (simp add: PAGE_SIZE_def)
  with assms show ?thesis
    by (auto simp: get_alloc_size_def AIPU_CONFIG_MM_ALLOC_FLAG_def)
qed


subsection \<open>Properties\<close>

text \<open>C4. Allocation on a well-formed manager. If it fails, the manager is unchanged. If it succeeds,
  the manager stays well-formed (every region is tiled by its blocks, no two free
  neighbours, counters exact), exactly the granted range is added to the allocated ones,
  the range overlaps none of them, lies in one region, has the rounded size, is aligned as
  requested when the search runs from the top or the alignment is a power of two, and the
  free counters drop by exactly its size.\<close>

theorem mm_alloc_grants:
  assumes "mm_wf mm" "sane_request q mm" "aipu_mm_alloc e mm q b = Some (ret, mm', q', buf)"
  shows "(ret \<noteq> 0 \<longrightarrow> mm' = mm) \<and>
    (ret = 0 \<longrightarrow> mm_wf mm' \<and>
       mm_live mm' = insert (unat (ab_pa buf), unat (ab_bytes buf)) (mm_live mm) \<and>
       (\<forall>x \<in> mm_live mm. apart x (unat (ab_pa buf), unat (ab_bytes buf))) \<and>
       mm_free_bytes mm' + unat (ab_bytes buf) = mm_free_bytes mm \<and>
       br_errcode q' = AIPU_ERRCODE_NO_ERROR \<and>
       (\<exists>r \<in> set (ddr_regions mm).
          ab_bytes buf = get_alloc_size r (br_bytes q) \<and> 0 < unat (ab_bytes buf) \<and>
          unat (rg_pa r) \<le> unat (ab_pa buf) \<and>
          unat (ab_pa buf) + unat (ab_bytes buf) \<le> unat (rg_pa r) + unat (rg_tot_bytes r) \<and>
          ab_va buf - rg_va r = ab_pa buf - rg_pa r \<and>
          ab_region_id buf = word_of_int (rg_id r) \<and>
          (\<not> is_forward_type (br_data_type q) \<or> (\<exists>k < 64. req_alignment q = 2 ^ k) \<longrightarrow>
             unat (req_alignment q) dvd unat (ab_pa buf))))"
proof (cases "ret = 0")
  case False
  with mm_alloc_effect [OF assms] show ?thesis by simp
next
  case True
  obtain pre r post r' where rs: "ddr_regions mm = pre @ r # post" and o: "alloc_outcome r q r' q' buf"
    using mm_alloc_effect [OF assms] True by blast
  note fx = mm_alloc_regions [OF assms(1,2) assms(3) [unfolded True]]
  have r: "r \<in> set (ddr_regions mm)" by (simp add: rs)
  show ?thesis
    using True fx o [unfolded alloc_outcome_def region_grant_def]
    by (auto intro!: bexI [OF _ r])
qed

lemma mm_alloc_grants_witness:
  "\<exists>mm' q' buf. aipu_mm_alloc (env_ok 7) (demo_mm 1) (demo_request 100 1 3) zero_buffer = Some (0, mm', q', buf) \<and>
     mm_wf mm' \<and> ab_pa buf = 0xBFFFF000"
proof -
  obtain mm' q' buf where a: "aipu_mm_alloc (env_ok 7) (demo_mm 1) (demo_request 100 1 3) zero_buffer =
      Some (0, mm', q', buf)" "ab_pa buf = 0xBFFFF000"
    by (simp add: demo_run_simps)
  have "sane_request (demo_request 100 1 3) (demo_mm 1)"
    by (simp add: sane_request_def demo_mm_eq version_defs)
  from mm_alloc_grants [OF demo_mm_wf this a(1)] a show ?thesis by blast
qed


text \<open>C12. Allocation refuses only when there is no room. On a manager with DDR regions, when the
  kernel gives memory for the list nodes and the alignment is a power of two, a request
  outside the read-only/stack path of version 2 returns, and returns 0 exactly when some
  free block of some region holds an aligned range of the rounded size.\<close>

theorem mm_alloc_complete:
  assumes "mm_wf mm" "ddr_head mm = Some rs" "0 < ddr_cnt mm" "no_kzalloc_failure e"
    and "\<forall>r \<in> set rs. rg_flag r = AIPU_CONFIG_MM_ALLOC_FLAG"
    and "0 < br_bytes q" "unat (br_bytes q) \<le> 2 ^ 63" "br_align_in_page q = 2 ^ j" "j < 20"
    and "\<not> (mm_version mm = AIPU_VERSION_ZHOUYI_V2 \<and> br_data_type q = AIPU_MM_DATA_TYPE_RO_STACK)"
  shows "\<exists>ret mm' q' buf. aipu_mm_alloc e mm q b = Some (ret, mm', q', buf) \<and>
    (ret = 0 \<longleftrightarrow>
       (\<exists>r \<in> set rs. has_room r (unat (get_alloc_size r (br_bytes q))) (unat (req_alignment q))))"
proof -
  have wf: "regions_wf rs" using assms(1,2) by (simp add: mm_wf_def ddr_regions_def)
  have pos: "0 < unat (get_alloc_size r (br_bytes q))" if "r \<in> set rs" for r
    using compact_size_pos [of r "br_bytes q"] that assms(5,6,7) by (auto simp: word_less_nat_alt)
  have en: "- ENOMEM \<noteq> 0" by (simp add: errno_defs)
  have k: "12 \<le> j + 12" "j + 12 < 32" using assms(9) by simp_all
  obtain ret rs' q1 b1 where l: "alloc_regions_loop
      (\<lambda>r. get_alloc_size r (br_bytes q) \<le> rg_tot_free_bytes r) e (- ENOMEM) rs q zero_buffer = Some (ret, rs', q1, b1)"
    and rm: "ret = 0 \<longleftrightarrow>
       (\<exists>r \<in> set rs. has_room r (unat (get_alloc_size r (br_bytes q))) (unat (req_alignment q)))"
    using alloc_loop_room [OF wf assms(4) en pos req_alignment_pow2 [OF assms(8,9)] k] by blast
  have nz: "br_bytes q \<noteq> 0" "br_align_in_page q \<noteq> 0"
    using assms(6,8,9) by auto
  have "aipu_mm_scan_regions_alloc e (mm_version mm) (Some rs) q zero_buffer = Some (ret, Some rs', q1, b1)"
    using assms(10) l by (auto simp: aipu_mm_scan_regions_alloc_def)
  then have "\<exists>mm' q' buf. aipu_mm_alloc e mm q b = Some (ret, mm', q', buf)"
    using nz assms(2,3) by (auto simp: aipu_mm_alloc_def AIPU_CONFIG_ENABLE_SRAM_def Let_def)
  with rm show ?thesis by blast
qed

lemma mm_alloc_complete_witness:
  "\<exists>ret mm' q' buf. aipu_mm_alloc (env_ok 7) (demo_mm 1) (demo_request 0x20000001 1 3) zero_buffer =
     Some (ret, mm', q', buf) \<and> ret \<noteq> 0"
proof -
  obtain rs where rs: "ddr_head (demo_mm 1) = Some rs" "\<forall>r \<in> set rs. rg_flag r = AIPU_CONFIG_MM_ALLOC_FLAG"
    "0 < ddr_cnt (demo_mm 1)" "\<forall>r \<in> set rs. \<not> has_room r (unat (get_alloc_size r 0x20000001)) 4096"
    by (simp add: demo_mm_eq AIPU_CONFIG_MM_ALLOC_FLAG_def has_room_def get_alloc_size_def ALIGN_def PAGE_SIZE_def)
  have e: "no_kzalloc_failure (env_ok 7)" by (simp add: no_kzalloc_failure_def env_ok_def)
  have al: "req_alignment (demo_request 0x20000001 1 3) = 4096" by (simp add: req_alignment_def demo_request_def)
  show ?thesis
    using mm_alloc_complete [OF demo_mm_wf rs(1,3) e rs(2), of "demo_request 0x20000001 1 3" 0 zero_buffer] rs(4) al
    by (auto simp: demo_request_def demo_mm_eq version_defs)
qed

text \<open>C13. Release on a well-formed manager of a range that is allocated: it succeeds, removes
  exactly that range from the allocated ones, gives its bytes back to the free counters and
  keeps the manager well-formed, neighbouring free blocks merged.\<close>

theorem mm_free_releases:
  assumes "mm_wf mm" "(unat (bd_pa d), unat (bd_bytes d)) \<in> mm_live mm"
  shows "\<exists>mm'. aipu_mm_free mm d = (0, mm') \<and> mm_wf mm' \<and>
    mm_live mm' = mm_live mm - {(unat (bd_pa d), unat (bd_bytes d))} \<and>
    mm_free_bytes mm' = mm_free_bytes mm + unat (bd_bytes d)"
proof -
  obtain ret mm' where f: "aipu_mm_free mm d = (ret, mm')" by fastforce
  from mm_free_effect [OF assms f] show ?thesis using f by auto
qed

definition demo_full :: aipu_memory_manager where
  "demo_full = (case aipu_mm_alloc (env_ok 7) (demo_mm 1) (demo_request 0x20000000 1 1) zero_buffer of
     Some (_, mm, _, _) \<Rightarrow> mm | None \<Rightarrow> demo_mm 1)"

lemma mm_free_releases_witness:
  "\<exists>mm'. aipu_mm_free demo_full (desc_of (0xA0000000, 0x20000000)) = (0, mm') \<and> mm_live mm' = {} \<and>
     mm_free_bytes mm' = 0x20000000"
proof -
  have "mm_wf demo_full" "mm_live demo_full = {(0xA0000000, 0x20000000)}" "mm_free_bytes demo_full = 0"
    by (simp_all add: demo_full_def demo_run_simps mm_wf_def regions_wf_def region_wf_def coalesced_def
        free_bytes_def mm_live_def mm_free_bytes_def)
  then show ?thesis using mm_free_releases [of demo_full "desc_of (0xA0000000, 0x20000000)"]
    by (auto simp: desc_of_def)
qed


text \<open>Releasing what was just allocated restores the manager: the same blocks with the same
  states in every region, hence the same free memory, whatever the request was. Owner
  information of free blocks is not compared.\<close>

theorem mm_alloc_free_roundtrip:
  assumes "mm_wf mm" "sane_request q mm" "aipu_mm_alloc e mm q b = Some (0, mm', q', buf)"
    and "bd_pa d = ab_pa buf" "bd_bytes d = ab_bytes buf"
  shows "\<exists>mm''. aipu_mm_free mm' d = (0, mm'') \<and>
    map (map skel \<circ> rg_blks) (ddr_regions mm'') = map (map skel \<circ> rg_blks) (ddr_regions mm) \<and>
    map rg_tot_free_bytes (ddr_regions mm'') = map rg_tot_free_bytes (ddr_regions mm)"
proof -
  obtain pre r post r' where rs: "ddr_regions mm = pre @ r # post"
    "mm' = mm\<lparr>ddr_head := Some (pre @ r' # post)\<rparr>" and o: "alloc_outcome r q r' q' buf"
    and wf': "mm_wf mm'"
    using mm_alloc_effect [OF assms(1-3)] by blast
  note g = o [unfolded alloc_outcome_def]
  have gr: "region_grant r r' (ab_pa buf) (ab_bytes buf)" using g by simp
  have rs': "ddr_regions mm' = pre @ r' # post" by (simp add: rs ddr_regions_def)
  have wr: "region_wf r" using assms(1) rs by (simp add: mm_wf_def regions_wf_def)
  have l: "(unat (bd_pa d), unat (bd_bytes d)) \<in> region_live r'"
    using gr assms(4,5) by (simp add: region_grant_def)
  then have lm: "(unat (bd_pa d), unat (bd_bytes d)) \<in> mm_live mm'"
    by (auto simp: mm_live_def rs')
  obtain ret mm'' where f: "aipu_mm_free mm' d = (ret, mm'')" by fastforce
  have w: "regions_wf (pre @ r' # post)" using wf' rs' by (simp add: mm_wf_def)
  obtain ret2 r2 where fr: "aipu_mm_free_in_region r' d = (ret2, r2)" by fastforce
  have nz: "bd_bytes d \<noteq> 0" using gr assms(5) by (auto simp: region_grant_def)
  have "aipu_mm_find_region (sram_head mm') (bd_pa d) (bd_bytes d) = None"
    using wf' by (auto simp: mm_wf_def aipu_mm_find_region_def)
  moreover have "aipu_mm_find_region (ddr_head mm') (bd_pa d) (bd_bytes d) = Some (length pre)"
    using find_region_owner [OF w l] nz by (simp add: aipu_mm_find_region_def rs(2))
  ultimately have out: "ret = ret2" "ddr_regions mm'' = pre @ r2 # post"
    using f fr by (auto simp: aipu_mm_free_def free_at_def rs(2) ddr_regions_def)
  have "ret2 = 0 \<and> map skel (rg_blks r2) = map skel (rg_blks r) \<and> rg_tot_free_bytes r2 = rg_tot_free_bytes r"
    using alloc_free_restores [OF wr gr fr assms(4,5)] by blast
  then show ?thesis using f out by (simp add: rs(1))
qed

lemma mm_alloc_free_roundtrip_witness:
  "\<exists>mm' q' buf mm''. aipu_mm_alloc (env_ok 7) (demo_mm 1) (demo_request 100 1 3) zero_buffer = Some (0, mm', q', buf) \<and>
     aipu_mm_free mm' (desc_of (0xBFFFF000, 0x1000)) = (0, mm'') \<and>
     map rg_tot_free_bytes (ddr_regions mm'') = [0x20000000]"
proof -
  obtain mm' q' buf where a: "aipu_mm_alloc (env_ok 7) (demo_mm 1) (demo_request 100 1 3) zero_buffer =
      Some (0, mm', q', buf)" "ab_pa buf = 0xBFFFF000" "ab_bytes buf = 0x1000"
    by (simp add: demo_run_simps)
  have "sane_request (demo_request 100 1 3) (demo_mm 1)"
    by (simp add: sane_request_def demo_mm_eq version_defs)
  from mm_alloc_free_roundtrip [OF demo_mm_wf this a(1), of "desc_of (0xBFFFF000, 0x1000)"] a show ?thesis
    by (auto simp: desc_of_def demo_mm_eq ddr_regions_def)
qed

lemma init_region_SomeD:
  assumes "aipu_init_region e rid base bytes type va = Some (Inr r)"
  shows "bytes \<noteq> 0" "rg_id r = rid" "rg_pa r = base" "rg_tot_bytes r = bytes" "rg_tot_free_bytes r = bytes"
    and "\<exists>tid ty. rg_blks r = [\<lparr>blk_pa = base, blk_bytes = bytes, blk_tid = tid, blk_type = ty,
           blk_state = AIPU_BLOCK_STATE_FREE\<rparr>]"
  using assms
  by (auto simp: aipu_init_region_def create_block_list_head_def create_block_def bind_eq_Some_conv
      split: if_splits)

lemma add_region_cases:
  assumes "aipu_mm_add_region e mm base bytes type = Some (ret, mm')" "type \<noteq> AIPU_MEM_TYPE_SRAM"
  shows "ret \<noteq> 0 \<and> mm' = mm \<or>
    ret = 0 \<and> (\<exists>rs r va. ddr_head mm = Some rs \<and>
      mm' = mm\<lparr>ddr_head := Some (r # rs), ddr_cnt := ddr_cnt mm + 1\<rparr> \<and>
      aipu_init_region e (sram_cnt mm + ddr_cnt mm) base bytes type va = Some (Inr r))"
proof -
  define va where "va = (case type of
      AIPU_MEM_TYPE_SRAM \<Rightarrow> aipu_remap_region_nocache e base bytes
    | AIPU_MEM_TYPE_CMA \<Rightarrow> aipu_alloc_cma_region_nocache e base bytes
    | AIPU_MEM_TYPE_RESERVED \<Rightarrow> aipu_remap_region_nocache e base bytes)"
  note res = assms(1) [unfolded aipu_mm_add_region_def, folded va_def, unfolded Let_def]
  show ?thesis
  proof (cases "bytes = 0 \<or> \<not> kz_misc e \<or> va = 0")
    case True
    with res show ?thesis by (auto simp: errno_defs split: if_splits)
  next
    case False
    with res obtain r where
      i: "aipu_init_region e (sram_cnt mm + ddr_cnt mm) base bytes type va = Some r" by (auto simp: bind_eq_Some_conv)
    show ?thesis
    proof (cases r)
      case (Inl err)
      then have "err \<noteq> 0" using i False
        by (auto simp: aipu_init_region_def errno_defs bind_eq_Some_conv)
      with Inl i res False show ?thesis by simp
    next
      case (Inr region)
      show ?thesis
      proof (cases "ddr_head mm")
        case None
        then have "ret \<noteq> 0" "mm' = mm\<lparr>ddr_head := ddr_head mm\<rparr>"
          using Inr i res False assms(2) by (auto simp: aipu_update_mm_regions_def errno_defs)
        then show ?thesis by simp
      next
        case (Some rs)
        with Inr i res False assms(2) show ?thesis
          by (simp add: aipu_update_mm_regions_def) blast
      qed
    qed
  qed
qed

text \<open>Adding a DDR region that is apart from the regions present to a well-formed manager keeps
  it well-formed: on success the new bytes are free, no allocated range appears, and the
  region is found at the front of the list under the id that counts the regions; on failure
  nothing changes.\<close>

theorem mm_add_region_wf:
  assumes "mm_wf mm" "type \<noteq> AIPU_MEM_TYPE_SRAM"
    and "unat base + unat bytes \<le> 2 ^ 62" "unat bytes \<le> unat base"
    and "\<forall>x \<in> set (extents (ddr_regions mm)). apart (unat base, unat bytes) x"
    and "aipu_mm_add_region e mm base bytes type = Some (ret, mm')"
  shows "mm_wf mm' \<and> mm_live mm' = mm_live mm \<and>
    (if ret = 0 then mm_free_bytes mm' = mm_free_bytes mm + unat bytes \<and> ddr_cnt mm' = ddr_cnt mm + 1 \<and>
       (\<exists>r. ddr_head mm' = Some (r # ddr_regions mm) \<and> rg_id r = sram_cnt mm + ddr_cnt mm)
     else mm' = mm)"
proof (cases "mm' = mm \<and> ret \<noteq> 0")
  case True
  with assms show ?thesis by simp
next
  case False
  obtain rs r va where r: "ddr_head mm = Some rs" "ret = 0"
      "mm' = mm\<lparr>ddr_head := Some (r # rs), ddr_cnt := ddr_cnt mm + 1\<rparr>"
      and i: "aipu_init_region e (sram_cnt mm + ddr_cnt mm) base bytes type va = Some (Inr r)"
    using add_region_cases [OF assms(6,2)] False by blast
  note ir = init_region_SomeD [OF i]
  have "region_wf r" "region_live r = {}"
    using ir assms(3,4) by (auto simp: region_wf_def coalesced_def free_bytes_def is_free_def live_def
        unat_gt_0)
  then show ?thesis
    using r ir assms(1,5)
    by (auto simp: mm_wf_def ddr_regions_def regions_wf_def mm_live_def mm_free_bytes_def)
qed

lemma mm_add_region_wf_witness:
  "\<exists>mm'. aipu_mm_add_region (env_ok 7) (aipu_init_mm (env_ok 7) 2) 0x40000000 0x20000000 AIPU_MEM_TYPE_CMA = Some (0, mm') \<and>
     mm_wf mm' \<and> mm_free_bytes mm' = 0x20000000"
proof -
  let ?mm = "aipu_init_mm (env_ok 7) 2"
  have i: "mm_wf ?mm" "ddr_regions ?mm = []" "mm_free_bytes ?mm = 0"
    by (simp_all add: aipu_init_mm_def create_region_list_head_def env_ok_def mm_wf_def ddr_regions_def
        regions_wf_def mm_free_bytes_def)
  obtain mm' where a: "aipu_mm_add_region (env_ok 7) ?mm 0x40000000 0x20000000 AIPU_MEM_TYPE_CMA = Some (0, mm')"
    by (simp add: aipu_mm_add_region_def aipu_init_mm_def create_region_list_head_def env_ok_def
      aipu_alloc_cma_region_nocache_def aipu_init_region_def create_block_list_head_def create_block_def
      aipu_update_mm_regions_def)
  from mm_add_region_wf [OF i(1) _ _ _ _ a] a i show ?thesis by auto
qed


subsection \<open>Every reachable manager\<close>

lemma reach_extents:
  "alloc_reach mm_al mm_fr mm_live (\<lambda>q. sane_request (snd q)) mm0 mm \<Longrightarrow> mm_wf mm0 \<Longrightarrow>
   extents (ddr_regions mm) = extents (ddr_regions mm0)"
proof (induction rule: alloc_reach.induct)
  case reach_refl
  then show ?case by simp
next
  case (reach_alloc s q s' d)
  have wf: "mm_wf s" using mma.reach_inv [OF reach_alloc.hyps(1) reach_alloc.prems] .
  from reach_alloc.hyps(3) obtain q' b where
    c: "aipu_mm_alloc (fst q) s (snd q) zero_buffer = Some (0, s', q', b)" by (rule mm_al_SomeD)
  obtain pre r post r' where "ddr_regions s = pre @ r # post" "s' = s\<lparr>ddr_head := Some (pre @ r' # post)\<rparr>"
    and o: "alloc_outcome (r :: aipu_mem_region) (snd q) r' q' b"
    using mm_alloc_effect [OF wf reach_alloc.hyps(2) c] by blast
  moreover have "rg_pa r' = rg_pa r" "rg_tot_bytes r' = rg_tot_bytes r"
    using o by (auto simp: alloc_outcome_def region_grant_def)
  ultimately show ?case using reach_alloc.IH reach_alloc.prems by (simp add: ddr_regions_def)
next
  case (reach_free s d)
  have wf: "mm_wf s" using mma.reach_inv [OF reach_free.hyps(1) reach_free.prems] .
  obtain ret s' where f: "aipu_mm_free s (desc_of d) = (ret, s')" by fastforce
  have l: "(unat (bd_pa (desc_of d)), unat (bd_bytes (desc_of d))) \<in> mm_live s"
    using mm_live_words [OF reach_free.hyps(2)] reach_free.hyps(2) by simp
  obtain pre r post r' where e: "ddr_regions s = pre @ r # post" "s' = s\<lparr>ddr_head := Some (pre @ r' # post)\<rparr>"
    and lr: "(unat (bd_pa (desc_of d)), unat (bd_bytes (desc_of d))) \<in> region_live r"
    and fr: "aipu_mm_free_in_region r (desc_of d) = (0, r')"
    using mm_free_effect [OF wf l f] by blast
  have "region_wf r" using wf e by (simp add: mm_wf_def regions_wf_def)
  from free_in_region_effect(2) [OF this lr fr] have "rg_pa r' = rg_pa r" "rg_tot_bytes r' = rg_tot_bytes r" by auto
  with e reach_free.IH reach_free.prems f show ?case by (simp add: mm_fr_def ddr_regions_def)
qed

lemma init_mm_wf:
  "mm_wf (aipu_init_mm e v)" "ddr_regions (aipu_init_mm e v) = []" "mm_live (aipu_init_mm e v) = {}"
  "mm_free_bytes (aipu_init_mm e v) = 0"
  by (auto simp: aipu_init_mm_def create_region_list_head_def mm_wf_def ddr_regions_def
      regions_wf_def mm_free_bytes_def mm_live_def)

lemma live_in_extent:
  assumes "mm_wf mm" "(p, n) \<in> mm_live mm"
  shows "\<exists>x \<in> set (extents (ddr_regions mm)). fst x \<le> p \<and> 0 < n \<and> p + n \<le> fst x + snd x"
  using assms region_live_inside
  by (fastforce simp: mm_wf_def regions_wf_def mm_live_def regions_live_def extents_def)

lemma add_first_region:
  assumes "aipu_mm_add_region e (aipu_init_mm e v) base bytes type = Some (0, mm0)"
    and "type \<noteq> AIPU_MEM_TYPE_SRAM" "unat base + unat bytes \<le> 2 ^ 62" "unat bytes \<le> unat base"
  shows "mm_wf mm0" "mm_live mm0 = {}" "mm_free_bytes mm0 = unat bytes"
    and "extents (ddr_regions mm0) = [(unat base, unat bytes)]"
proof -
  from add_region_cases [OF assms(1,2)] obtain r va where
    m0: "mm0 = (aipu_init_mm e v)\<lparr>ddr_head := Some [r], ddr_cnt := 1\<rparr>"
    and i: "aipu_init_region e 0 base bytes type va = Some (Inr r)"
    by (auto simp: aipu_init_mm_def create_region_list_head_def split: if_splits)
  note ir = init_region_SomeD [OF i]
  show "mm_wf mm0" "mm_live mm0 = {}" "mm_free_bytes mm0 = unat bytes"
    "extents (ddr_regions mm0) = [(unat base, unat bytes)]"
    using ir assms(3,4) init_mm_wf
    by (auto simp: m0 mm_wf_def ddr_regions_def regions_wf_def region_wf_def mm_live_def mm_free_bytes_def
        coalesced_def free_bytes_def is_free_def live_def unat_gt_0 aipu_init_mm_def create_region_list_head_def)
qed

text \<open>Any sequence of allocations and releases of owned ranges, on a manager with one DDR region
  as the driver sets it up: ranges handed out and not returned never overlap, lie in the
  region, and together with the free bytes add up to the size of the region.\<close>

theorem mm_reachable_disjoint:
  assumes "aipu_mm_add_region e (aipu_init_mm e v) base bytes type = Some (0, mm0)"
    and "type \<noteq> AIPU_MEM_TYPE_SRAM" "unat base + unat bytes \<le> 2 ^ 62" "unat bytes \<le> unat base"
    and "alloc_reach mm_al mm_fr mm_live (\<lambda>q. sane_request (snd q)) mm0 mm"
  shows "mm_wf mm \<and> pairwise apart (mm_live mm) \<and>
    (\<forall>x \<in> mm_live mm. unat base \<le> fst x \<and> 0 < snd x \<and> fst x + snd x \<le> unat base + unat bytes) \<and>
    mm_free_bytes mm + owned_bytes (mm_live mm) = unat bytes"
proof -
  note wf0 = add_first_region(1) [OF assms(1-4)] and l0 = add_first_region(2) [OF assms(1-4)]
    and f0 = add_first_region(3) [OF assms(1-4)] and x0 = add_first_region(4) [OF assms(1-4)]
  have wf: "mm_wf mm" by (rule mma.reach_inv [OF assms(5) wf0])
  have "pairwise apart (mm_live mm)" by (rule mma.reach_apart [OF assms(5) wf0]) (simp add: l0)
  moreover have "mm_free_bytes mm + owned_bytes (mm_live mm) = unat bytes"
    using mma.reach_conserves [OF assms(5) wf0] by (simp add: l0 f0 owned_bytes_def)
  moreover have "\<forall>x \<in> mm_live mm. unat base \<le> fst x \<and> 0 < snd x \<and> fst x + snd x \<le> unat base + unat bytes"
    using live_in_extent [OF wf] reach_extents [OF assms(5) wf0] x0 by fastforce
  ultimately show ?thesis using wf by blast
qed

lemma mm_reachable_disjoint_witness:
  "\<exists>mm. alloc_reach mm_al mm_fr mm_live (\<lambda>q. sane_request (snd q)) (demo_mm 1) mm \<and>
     mm_live mm \<noteq> {} \<and> mm_free_bytes mm + owned_bytes (mm_live mm) = 0x20000000"
proof -
  have "\<exists>x. aipu_mm_add_region (env_ok 7) (aipu_init_mm (env_ok 7) 1) 0xA0000000 0x20000000 AIPU_MEM_TYPE_RESERVED = Some (0, x)"
    by (simp add: aipu_mm_add_region_def aipu_init_mm_def create_region_list_head_def env_ok_def
      aipu_remap_region_nocache_def aipu_init_region_def create_block_list_head_def create_block_def
      aipu_update_mm_regions_def)
  then have a: "aipu_mm_add_region (env_ok 7) (aipu_init_mm (env_ok 7) 1) 0xA0000000 0x20000000 AIPU_MEM_TYPE_RESERVED =
      Some (0, demo_mm 1)"
    unfolding demo_mm_def by auto
  have "sane_request (demo_request 100 1 3) (demo_mm 1)"
    by (simp add: sane_request_def demo_mm_eq version_defs)
  note sane = this
  obtain mm where al: "mm_al (env_ok 7, demo_request 100 1 3) (demo_mm 1) = Some (mm, 0xBFFFF000, 0x1000)"
    by (simp add: mm_al_def demo_run_simps)
  have r: "alloc_reach mm_al mm_fr mm_live (\<lambda>q. sane_request (snd q)) (demo_mm 1) mm"
    using sane al by (intro reach_alloc [OF reach_refl, of _ "(env_ok 7, demo_request 100 1 3)"]) simp_all
  have ne: "mm_live mm \<noteq> {}"
    using mma.alloc_own [OF demo_mm_wf _ al] sane by simp
  show ?thesis using mm_reachable_disjoint [OF a _ _ _ r] r ne by auto
qed


subsection \<open>Sizes\<close>

lemma roundup_pow2_bounds:
  assumes "1 < unat n" "unat n \<le> 2 ^ 63"
  shows "\<exists>k \<le> 63. roundup_pow_of_two n = 2 ^ k \<and> unat n \<le> 2 ^ k \<and> 2 ^ k < 2 * unat n"
proof -
  let ?m = "unat n - 1" and ?k = "floorlog 2 (unat n - 1)"
  have m: "unat (n - 1) = ?m" using assms(1) by (subst unat_sub_nowrap) simp_all
  have pos: "0 < ?m" using assms(1) by simp
  have b: "2 ^ (?k - 1) \<le> ?m" "?m < 2 ^ ?k" "0 < ?k"
    using floorlog_bounds [OF pos, of 2] pos by (auto simp: floorlog_eq_zero_iff intro!: gr0I)
  have "2 ^ (?k - 1) < (2 :: nat) ^ 63" using b(1) assms by linarith
  then have "?k - 1 < 63" by (rule power_less_imp_less_exp [rotated]) simp
  then have k: "?k \<le> 63" by simp
  have "(2 :: nat) ^ ?k = 2 * 2 ^ (?k - 1)" using b(3) by (cases ?k) simp_all
  then have "2 ^ ?k < 2 * unat n" "unat n \<le> 2 ^ ?k" using b assms(1) by linarith+
  moreover have "roundup_pow_of_two n = 2 ^ ?k"
    using k by (simp add: roundup_pow_of_two_def fls64_def m push_bit_eq_mult)
  ultimately show ?thesis using k by blast
qed

text \<open>Sizes of allocations. A non-zero request of at most \<open>2 ^ 63\<close> bytes is rounded up, under
  the compact policy to the next multiple of a page, under the strict policy to a power of
  two of at least a page, less than twice the request; it is never rounded down.\<close>

theorem get_alloc_size_bounds:
  assumes "0 < unat n" "unat n \<le> 2 ^ 63"
  shows "(rg_flag r = AIPU_ALLOC_FLAG_COMPACT \<longrightarrow>
      4096 dvd unat (get_alloc_size r n) \<and> unat n \<le> unat (get_alloc_size r n) \<and>
      unat (get_alloc_size r n) < unat n + 4096) \<and>
    (rg_flag r = AIPU_ALLOC_FLAG_STRICT \<longrightarrow>
      (\<exists>k. 12 \<le> k \<and> k \<le> 63 \<and> unat (get_alloc_size r n) = 2 ^ k) \<and> unat n \<le> unat (get_alloc_size r n) \<and>
      (4096 < unat n \<longrightarrow> unat (get_alloc_size r n) < 2 * unat n))"
proof (intro conjI impI)
  have nz: "n \<noteq> 0" using assms by auto
  { assume c: "rg_flag r = AIPU_ALLOC_FLAG_COMPACT"
    have sz: "get_alloc_size r n = ALIGN n PAGE_SIZE" using c nz by (simp add: get_alloc_size_def)
    have p: "PAGE_SIZE = 2 ^ 12" by (simp add: PAGE_SIZE_def)
    show "4096 dvd unat (get_alloc_size r n)" using ALIGN_pow2_dvd [of 12 n] unfolding sz p by simp
    have nw: "unat n + unat (PAGE_SIZE - 1) < 2 ^ 64" using assms by (simp add: PAGE_SIZE_def)
    show "unat n \<le> unat (get_alloc_size r n)" "unat (get_alloc_size r n) < unat n + 4096"
      using ALIGN_bounds [OF nw] unfolding sz by (simp_all add: PAGE_SIZE_def) }
  assume s: "rg_flag r = AIPU_ALLOC_FLAG_STRICT"
  have sz: "get_alloc_size r n = max 4096 (roundup_pow_of_two n)" using s nz by (simp add: get_alloc_size_def)
  have u4096: "unat (4096 :: u64) = 2 ^ 12" by simp
  have "(\<exists>k. 12 \<le> k \<and> k \<le> 63 \<and> unat (get_alloc_size r n) = 2 ^ k) \<and> unat n \<le> unat (get_alloc_size r n) \<and>
      (4096 < unat n \<longrightarrow> unat (get_alloc_size r n) < 2 * unat n)"
  proof (cases "unat n = 1")
    case True
    then have "n = 1" by (simp add: word_eq_unat)
    then have "get_alloc_size r n = 4096"
      using sz by (simp add: roundup_pow_of_two_def fls64_def max_def word_le_nat_alt floorlog_def)
    then show ?thesis using True u4096 by (intro conjI exI [of _ 12]) simp_all
  next
    case False
    then obtain k where k: "k \<le> 63" "roundup_pow_of_two n = 2 ^ k" "unat n \<le> 2 ^ k" "2 ^ k < 2 * unat n"
      using roundup_pow2_bounds [of n] assms by fastforce
    have uk: "unat (2 ^ k :: u64) = 2 ^ k" using k(1) by (intro unat_exp_u64) simp
    show ?thesis
    proof (cases "k < 12")
      case True
      then have lt: "(2 :: nat) ^ k < 2 ^ 12" by (rule power_strict_increasing) simp
      then have "get_alloc_size r n = 4096"
        unfolding sz k(2) by (simp add: max_def word_le_nat_alt uk)
      then show ?thesis using k lt u4096 by (intro conjI exI [of _ 12]) simp_all
    next
      case False
      then have "(2 :: nat) ^ 12 \<le> 2 ^ k" by (intro power_increasing) simp_all
      then have "get_alloc_size r n = 2 ^ k"
        unfolding sz k(2) by (simp add: max_def word_le_nat_alt uk)
      then show ?thesis using k False uk by (intro conjI exI [of _ k]) simp_all
    qed
  qed
  then show "\<exists>k. 12 \<le> k \<and> k \<le> 63 \<and> unat (get_alloc_size r n) = 2 ^ k" "unat n \<le> unat (get_alloc_size r n)"
    "4096 < unat n \<Longrightarrow> unat (get_alloc_size r n) < 2 * unat n" by blast+
qed

definition demo_strict_region :: aipu_mem_region where
  "demo_strict_region = \<lparr>rg_id = 0, rg_blks = [], rg_pa = 0, rg_va = 0, rg_tot_bytes = 0, rg_tot_free_bytes = 0,
     rg_flag = AIPU_ALLOC_FLAG_STRICT, rg_type = AIPU_MEM_TYPE_RESERVED, rg_alloc_in_region = Strict_no_lock\<rparr>"

lemma get_alloc_size_bounds_witness:
  "5000 \<le> unat (get_alloc_size demo_strict_region 5000) \<and> unat (get_alloc_size demo_strict_region 5000) < 10000"
  using get_alloc_size_bounds [of 5000 demo_strict_region] by (simp add: demo_strict_region_def)

subsection \<open>Where the code falls short\<close>

text \<open>The requested alignment is not always met. With \<open>align_in_page = 0x100001\<close> the product
  \<open>align_in_page * 4 * 1024\<close> wraps in 32 bits to one page; and a forward search with an
  alignment of three pages masks with \<open>NOT (0x3000 - 1)\<close> and returns an address that is
  not a multiple of it. Both requests succeed.\<close>

theorem mm_alloc_misaligned:
  "(\<exists>mm' q' buf. aipu_mm_alloc (env_ok 7) (demo_mm 1) (demo_request 100 0x100001 3) zero_buffer =
      Some (0, mm', q', buf) \<and> \<not> 0x100001 * 4096 dvd unat (ab_pa buf)) \<and>
   (\<exists>mm' q' buf. aipu_mm_alloc (env_ok 7) (demo_mm 1) (demo_request 100 3 1) zero_buffer =
      Some (0, mm', q', buf) \<and> \<not> 3 * 4096 dvd unat (ab_pa buf))"
  by (simp add: demo_run_simps)

text \<open>C0. The read-only/stack path of version 2 checks neither the size of the region nor overflow:
  on the region from \<open>0xA0000000\<close> to \<open>0xC0000000\<close> a request of \<open>2 ^ 64 - 0x50000000\<close>
  bytes with an alignment of 2 GB wraps around, succeeds, and hands out an address outside
  the region; the block list no longer tiles it.\<close>

theorem mm_alloc_ro_stack_overflow:
  "\<exists>mm' q' buf. aipu_mm_alloc (env_ok 7) (demo_mm 2) (demo_request (- 0x50000000) 0x80000 2) zero_buffer =
     Some (0, mm', q', buf) \<and> ab_pa buf = 0x100000000 \<and> \<not> mm_wf mm'"
  by (simp add: demo_run_simps mm_wf_def regions_wf_def region_wf_def)

end
