(* ===== verification/JobManagerSpec.thy ===== *)
theory JobManagerSpec
  imports JobQueue Fifo SessionSpec MmSpec
begin

text \<open>
  The properties of the job manager: what each operation does to the two queues, the
  manager as a first-in first-out service (the interpretation of \<open>fifo_service\<close>), the
  progress of the jobs, and the sequences of calls that reach a freed session job.
\<close>

subsection \<open>The operations as one service\<close>

datatype jm_op =
    Submit user_job ptr ptr
  | Interrupt int
  | Bottom_half
  | Cancel ptr
  | Timeout u32

text \<open>One call into the job manager by a thread or an interrupt, in its environment.\<close>

fun jm_step :: "kenv \<times> jm_op \<Rightarrow> sys \<Rightarrow> sys option" where
  "jm_step (e, Submit uj jp sp) s = map_option (fst \<circ> snd) (aipu_job_manager_schedule_new_job e s uj jp sp)"
| "jm_step (e, Interrupt x) s = aipu_job_manager_update_job_state_irq e s x"
| "jm_step (e, Bottom_half) s = aipu_job_manager_update_job_queue_done_irq s"
| "jm_step (e, Cancel sp) s = map_option snd (aipu_job_manager_cancel_session_jobs e s sp)"
| "jm_step (e, Timeout jid) s = map_option snd (aipu_invalidate_timeout_job e s jid)"

text \<open>What joins the queue: the new job object, when there is memory for it.\<close>

fun jm_arrivals :: "kenv \<times> jm_op \<Rightarrow> sys \<Rightarrow> ptr list" where
  "jm_arrivals (e, Submit uj jp sp) s = (if kz_ajob e then [h_next (hp s)] else [])"
| "jm_arrivals _ s = []"

text \<open>
  What the callers guarantee. A submitted session job is in the list of its session, has
  not ended and is not in the manager yet; at an interrupt the running job's session job
  has not been freed; a session is cancelled when none of its jobs waits for the bottom half.
\<close>

definition fresh_job :: "sys \<Rightarrow> ptr \<Rightarrow> ptr \<Rightarrow> bool" where
  "fresh_job s jp sp \<longleftrightarrow>
     (\<exists>st sj. h_sess (hp s) sp = Some st \<and> jp \<in> set (job_list st) \<and> h_sjob (hp s) jp = Some sj \<and>
        sj_state sj = AIPU_JOB_STATE_IDLE) \<and>
     jp \<notin> aj_session_job ` {j \<in> set (all_jobs (jm_of s)). valid_job j}"

definition first_live :: "sys \<Rightarrow> bool" where
  "first_live s \<longleftrightarrow> running (jm_of s) = [] \<or> job_live (hp s) (hd (running (jm_of s)))"

definition cancelable :: "sys \<Rightarrow> ptr \<Rightarrow> bool" where
  "cancelable s sp \<longleftrightarrow>
     h_sess (hp s) sp \<noteq> None \<and> (\<forall>j \<in> set (all_jobs (jm_of s)). h_sess (hp s) (aj_session j) \<noteq> None) \<and>
     (\<forall>j \<in> set (ended (jm_of s)). valid_job j \<longrightarrow> aj_session j \<noteq> sp)"

fun jm_adm :: "kenv \<times> jm_op \<Rightarrow> sys \<Rightarrow> bool" where
  "jm_adm (e, Submit uj jp sp) s = fresh_job s jp sp"
| "jm_adm (e, Interrupt x) s = first_live s"
| "jm_adm (e, Cancel sp) s = cancelable s sp"
| "jm_adm _ s = True"

abbreviation jobs_order :: "sys \<Rightarrow> ptr list" where
  "jobs_order s \<equiv> order_of (jm_of s)"

definition serves :: "sys option \<Rightarrow> sys \<Rightarrow> ptr list \<Rightarrow> bool" where
  "serves r s ids \<longleftrightarrow> (\<exists>s'. r = Some s' \<and> jobs_ok s' \<and> subseq (jobs_order s') (jobs_order s @ ids))"

lemma servesI: "r = Some s' \<Longrightarrow> jobs_ok s' \<Longrightarrow> subseq (jobs_order s') (jobs_order s @ ids) \<Longrightarrow> serves r s ids"
  by (auto simp: serves_def)

text \<open>Submission: the result, the queue and the device, exactly.\<close>

definition new_job :: "sys \<Rightarrow> user_job \<Rightarrow> ptr \<Rightarrow> ptr \<Rightarrow> aipu_job" where
  "new_job s uj jp sp = \<lparr>aj_ptr = h_next (hp s),
     aj_uthread_id = sj_uthread_id (the (h_sjob (hp s) jp)), aj_desc = uj_desc uj,
     aj_session = sp, aj_session_job = jp, aj_state = AIPU_JOB_STATE_PENDING,
     aj_exception_flag = AIPU_EXCEP_NO_EXCEPTION, aj_valid_flag = AIPU_JOB_FLAG_VALID\<rparr>"

lemma submit_service:
  assumes ok: "jobs_ok s" and f: "fresh_job s jp sp" and kz: "kz_ajob e"
  shows "\<exists>s'. aipu_job_manager_schedule_new_job e s uj jp sp =
      Some (0, s', uj\<lparr>uj_errcode := AIPU_ERRCODE_NO_ERROR\<rparr>) \<and> jobs_ok s' \<and>
    map job_key (all_jobs (jm_of s')) = map job_key (all_jobs (jm_of s) @ [new_job s uj jp sp]) \<and>
    jobs_order s' = jobs_order s @ [h_next (hp s)] \<and> dev_step s s' \<and>
    h_sess (hp s') = h_sess (hp s) \<and> priv s' = (priv s)\<lparr>job_manager := jm_of s'\<rparr>"
proof -
  obtain st sj where st: "h_sess (hp s) sp = Some st" "jp \<in> set (job_list st)"
    "h_sjob (hp s) jp = Some sj" "sj_state sj = AIPU_JOB_STATE_IDLE"
    "jp \<notin> aj_session_job ` {j \<in> set (all_jobs (jm_of s)). valid_job j}"
    using f by (auto simp: fresh_job_def)
  let ?j = "new_job s uj jp sp"
  let ?s1 = "put_jm ((jm_of s)\<lparr>pending_queue := Some (pending_jobs (jm_of s) @ [?j])\<rparr>)
           (put_hp ((hp s)\<lparr>h_next := h_next (hp s) + 1\<rparr>) s)"
  have j: "?j = \<lparr>aj_ptr = h_next (hp s), aj_uthread_id = sj_uthread_id sj, aj_desc = uj_desc uj,
           aj_session = sp, aj_session_job = jp, aj_state = AIPU_JOB_STATE_PENDING,
           aj_exception_flag = AIPU_EXCEP_NO_EXCEPTION, aj_valid_flag = AIPU_JOB_FLAG_VALID\<rparr>"
    by (simp add: new_job_def st)
  note sub = submit_effect [OF ok st kz j refl]
  obtain s' where s': "aipu_schedule_pending_job_no_lock e ?s1 = Some s'" "jobs_ok s'" "sched_frame ?s1 s'"
    "map job_key (all_jobs (jm_of s')) = map job_key (all_jobs (jm_of ?s1))" "same_jobs (hp ?s1) (hp s')"
    using schedule_pending_effect [OF sub(1), of e] by blast
  have fr: "h_sess (hp s') = h_sess (hp s)" "priv s' = (priv s)\<lparr>job_manager := jm_of s'\<rparr>"
    using s'(3,5) by (simp_all add: sched_frame_def same_jobs_def)
  have a: "all_jobs (jm_of ?s1) = all_jobs (jm_of s) @ [?j]" by (simp add: all_jobs_def)
  have "dev_step s s'"
    using schedule_dev_step [OF s'(1)] by (rule dev_step_trans [rotated]) (simp add: dev_step_def)
  then show ?thesis using s'(1,2,4) fr sub(2) a order_cong [OF s'(4)]
    by (intro exI [of _ s']) (simp add: errcode_defs order_of_def new_job_def)
qed

lemma interrupt_service:
  assumes ok: "jobs_ok s" and live: "first_live s"
  shows "\<exists>s'. aipu_job_manager_update_job_state_irq e s x = Some s' \<and> jobs_ok s' \<and>
    map job_key (all_jobs (jm_of s')) = map job_key (all_jobs (jm_of s)) \<and> same_jobs (hp s) (hp s') \<and>
    work_queued s' = work_queued s"
proof -
  have "\<exists>s1. aipu_job_manager_update_job_state_irq e s x = aipu_schedule_pending_job_no_lock e s1 \<and> jobs_ok s1 \<and>
    map job_key (all_jobs (jm_of s1)) = map job_key (all_jobs (jm_of s)) \<and> same_jobs (hp s) (hp s1) \<and>
    work_queued s1 = work_queued s"
  proof (cases "running (jm_of s) = []")
    case True
    then show ?thesis using state_irq_idle [OF ok True] ok by (intro exI [of _ s]) simp
  next
    case False
    then have "job_live (hp s) (hd (running (jm_of s)))" using live by (simp add: first_live_def)
    from state_irq_effect [OF ok False this] obtain s1 where
      s1: "aipu_job_manager_update_job_state_irq e s x = aipu_schedule_pending_job_no_lock e s1" "jobs_ok s1"
        "same_jobs (hp s) (hp s1)" "priv s1 = (priv s)\<lparr>job_manager := completed_first x (jm_of s)\<rparr>"
        "work_queued s1 = work_queued s" by blast
    have "map job_key (all_jobs (jm_of s1)) = map job_key (all_jobs (jm_of s))"
      using completed_first_keys [OF jobs_okD(2) [OF ok] False] s1(4) by simp
    then show ?thesis using s1 by blast
  qed
  then obtain s1 where s1: "aipu_job_manager_update_job_state_irq e s x = aipu_schedule_pending_job_no_lock e s1" "jobs_ok s1"
    "map job_key (all_jobs (jm_of s1)) = map job_key (all_jobs (jm_of s))" "same_jobs (hp s) (hp s1)"
    "work_queued s1 = work_queued s" by blast
  obtain s' where s': "aipu_schedule_pending_job_no_lock e s1 = Some s'" "jobs_ok s'" "sched_frame s1 s'"
    "same_jobs (hp s1) (hp s')" "map job_key (all_jobs (jm_of s')) = map job_key (all_jobs (jm_of s1))"
    using schedule_pending_effect [OF s1(2), of e] by blast
  then show ?thesis using s1 same_jobs_trans [OF s1(4) s'(4)] by (intro exI [of _ s']) (simp add: sched_frame_def)
qed

lemma bottom_half_service:
  assumes ok: "jobs_ok s"
  shows "serves (aipu_job_manager_update_job_queue_done_irq s) s []"
proof -
  obtain s' where s': "aipu_job_manager_update_job_queue_done_irq s = Some s'" "jobs_ok s'"
    "priv s' = (priv s)\<lparr>job_manager := reaped (jm_of s)\<rparr>"
    using bottom_half_effect [OF ok] by blast
  have "jobs_order s = map aj_ptr (ended (jm_of s)) @ jobs_order s'"
    using s'(3) ended_running(1) [OF jobs_okD(2) [OF ok]] by (simp add: order_of_def all_jobs_def)
  then have "subseq (jobs_order s') (jobs_order s)" by (metis subseq_order.order_refl list_emb_append2)
  then show ?thesis using s' by (intro servesI [of _ s']) simp_all
qed

lemma timeout_service:
  assumes ok: "jobs_ok s"
  shows "serves (map_option snd (aipu_invalidate_timeout_job e s jid)) s []"
proof -
  have wf: "jm_wf (jm_of s)" by (rule jobs_okD(2) [OF ok])
  note t = timeout_effect [OF wf, of e jid]
  have "\<exists>ret s'. aipu_invalidate_timeout_job e s jid = Some (ret, s') \<and> subseq (jobs_order s') (jobs_order s)"
  proof (cases "find (timeout_target e jid) (pending_jobs (jm_of s))")
    case (Some j)
    with t(1) obtain ys xs where "pending_jobs (jm_of s) = ys @ j # xs"
      "aipu_invalidate_timeout_job e s jid = Some (0, put_jm (with_queues (ys @ xs) (scheduled_jobs (jm_of s)) (jm_of s)) s)"
      by blast
    then show ?thesis
      by (simp add: order_of_def all_jobs_def subseq_append' list_emb_append_mono list_emb_Cons)
  next
    case None
    show ?thesis
    proof (cases "find (timeout_target e jid) (scheduled_jobs (jm_of s))")
      case (Some j)
      with t(2) None obtain ys xs where "scheduled_jobs (jm_of s) = ys @ j # xs"
        "aipu_invalidate_timeout_job e s jid =
           Some (if aj_state j = AIPU_JOB_STATE_SCHED then 0 else - EINVAL,
             put_jm (with_queues (pending_jobs (jm_of s)) (ys @ cancel_running j # xs) (jm_of s)) s)"
        by blast
      then show ?thesis by (simp add: order_of_def all_jobs_def)
    next
      case n: None
      then show ?thesis using t(3) None by simp
    qed
  qed
  then obtain ret s' where r: "aipu_invalidate_timeout_job e s jid = Some (ret, s')"
    "subseq (jobs_order s') (jobs_order s)" by blast
  with timeout_jobs_ok(1) [OF ok r(1)] show ?thesis by (intro servesI) simp_all
qed

lemma cancel_service:
  assumes ok: "jobs_ok s" and c: "cancelable s sp"
  shows "serves (map_option snd (aipu_job_manager_cancel_session_jobs e s sp)) s []"
proof -
  obtain st where st: "h_sess (hp s) sp = Some st" using c by (auto simp: cancelable_def)
  obtain h' where h: "aipu_job_manager_cancel_session_jobs e s sp =
      Some (0, put_hp h' (put_jm (canceled (hp s) (user_pid st) (jm_of s)) s))"
    "aipu_session_delete_jobs (hp s) sp = Some (0, h')"
    using cancel_effect [OF ok st, of e] c unfolding cancelable_def by blast
  have ok': "jobs_ok (put_hp h' (put_jm (canceled (hp s) (user_pid st) (jm_of s)) s))"
    using cancel_jobs_ok(1) [OF ok st _ h(2)] c by (simp add: cancelable_def)
  let ?f = "\<lambda>j. if job_pid (hp s) j = user_pid st then cancel_running j else j"
  have "aj_ptr \<circ> ?f = aj_ptr" by (auto simp: fun_eq_iff)
  then have o: "jobs_order (put_hp h' (put_jm (canceled (hp s) (user_pid st) (jm_of s)) s)) =
      map aj_ptr (scheduled_jobs (jm_of s)) @
      map aj_ptr (filter (\<lambda>j. job_pid (hp s) j \<noteq> user_pid st) (pending_jobs (jm_of s)))"
    by (simp add: order_of_def all_jobs_def canceled_def)
  have "subseq (map aj_ptr (filter (\<lambda>j. job_pid (hp s) j \<noteq> user_pid st) (pending_jobs (jm_of s))))
      (map aj_ptr (pending_jobs (jm_of s)))"
    by (intro subseq_map subseq_filter_left)
  with o show ?thesis using h ok'
    by (intro servesI [OF _ ok']) (simp_all only: option.map snd_conv o order_of_def all_jobs_def map_append append_Nil2 subseq_append')
qed

subsection \<open>A concrete driver\<close>

text \<open>
  Session 8 with the session jobs 2 and 3, session 4 of the same process with job 5,
  session 6 of another process without jobs; a version 1 core whose status register
  always reports idle.
\<close>

definition demo_jobs_heap :: heap where
  "demo_jobs_heap = \<lparr>
     h_sess = [8 \<mapsto> demo_session [] [3, 2], 4 \<mapsto> demo_session [] [5], 6 \<mapsto> (demo_session [] [])\<lparr>user_pid := 200\<rparr>],
     h_sjob = [2 \<mapsto> demo_job 11 AIPU_JOB_STATE_IDLE, 3 \<mapsto> demo_job 12 AIPU_JOB_STATE_IDLE,
               5 \<mapsto> demo_job 13 AIPU_JOB_STATE_IDLE],
     h_next = 20\<rparr>"

definition demo_ajob :: "ptr \<Rightarrow> u32 \<Rightarrow> ptr \<Rightarrow> ptr \<Rightarrow> job_state \<Rightarrow> aipu_job" where
  "demo_ajob addr jid sp jp st = \<lparr>aj_ptr = addr, aj_uthread_id = 7, aj_desc = zero_job_desc\<lparr>job_id := jid\<rparr>,
     aj_session = sp, aj_session_job = jp, aj_state = st,
     aj_exception_flag = AIPU_EXCEP_NO_EXCEPTION, aj_valid_flag = AIPU_JOB_FLAG_VALID\<rparr>"

definition demo_core :: aipu_core where
  "demo_core = \<lparr>core_version = 1, freq_in_MHz = 0, max_sched = 1,
     core_base0 = Some \<lparr>ir_phys = 0x60000000, ir_kern = 0x60000000, ir_size = 0x100\<rparr>, core_irq_obj = None\<rparr>"

definition demo_sys :: "aipu_job list \<Rightarrow> aipu_job list \<Rightarrow> aipu_job list \<Rightarrow> sys" where
  "demo_sys es rs ps = \<lparr>
     priv = \<lparr>board = 0, version = 1, core0 = Some demo_core, soc = None, core_ctrl = Zhouyi_v1_ops,
       soc_ctrl = Default_soc_ops, host_to_aipu_map = 0, misc = True,
       job_manager = \<lparr>scheduled_queue = Some (es @ rs), pending_queue = Some ps, sched_num = int (length rs),
         max_sched_num = 1, init_done = 1\<rparr>,
       mm = demo_mm 1, is_suspend = 0, is_reset = 0\<rparr>,
     hp = demo_jobs_heap, dev_io = \<lparr>io_dev = (\<lambda>_ _. 0x70000), io_log = []\<rparr>, work_queued = False\<rparr>"

abbreviation demo_running :: "aipu_job" where
  "demo_running \<equiv> demo_ajob 10 11 8 2 AIPU_JOB_STATE_SCHED"

abbreviation demo_ended :: "aipu_job" where
  "demo_ended \<equiv> demo_ajob 10 11 8 2 AIPU_JOB_STATE_END"

abbreviation demo_pending :: "aipu_job" where
  "demo_pending \<equiv> demo_ajob 11 13 4 5 AIPU_JOB_STATE_PENDING"

lemma demo_session_wf:
  "session_wf (h_sjob demo_jobs_heap) (demo_session [] [3, 2])" "session_wf (h_sjob demo_jobs_heap) (demo_session [] [5])"
  "session_wf (h_sjob demo_jobs_heap) ((demo_session [] [])\<lparr>user_pid := 200\<rparr>)"
  by (simp_all add: demo_jobs_heap_def demo_session_def session_wf_def waitqs_wf_def demo_job_def)

lemma demo_sess_cases:
  "h_sess demo_jobs_heap p = Some s \<Longrightarrow>
   p = 8 \<and> s = demo_session [] [3, 2] \<or> p = 4 \<and> s = demo_session [] [5] \<or>
   p = 6 \<and> s = (demo_session [] [])\<lparr>user_pid := 200\<rparr>"
  by (auto simp: demo_jobs_heap_def split: if_splits)

lemma demo_jobs_heap_wf: "heap_wf demo_jobs_heap"
  unfolding heap_wf_def
proof (intro conjI allI impI)
  show "0 < h_next demo_jobs_heap" by (simp add: demo_jobs_heap_def)
  show "0 < p" "p < h_next demo_jobs_heap"
    if "h_sess demo_jobs_heap p \<noteq> None \<or> h_sjob demo_jobs_heap p \<noteq> None" for p
    using that by (simp_all add: demo_jobs_heap_def split: if_splits)
  show "session_wf (h_sjob demo_jobs_heap) s" if "h_sess demo_jobs_heap sp = Some s" for sp s
    using demo_sess_cases [OF that] demo_session_wf by blast
  show "set (job_list s) \<inter> set (job_list t) = {}"
    if "h_sess demo_jobs_heap sp = Some s" "h_sess demo_jobs_heap tp = Some t" "sp \<noteq> tp" for sp tp s t
    using demo_sess_cases [OF that(1)] demo_sess_cases [OF that(2)] that(3)
    by (elim disjE conjE) (simp_all add: demo_session_def)
  show "\<exists>sp s. h_sess demo_jobs_heap sp = Some s \<and> p \<in> set (job_list s)" if "h_sjob demo_jobs_heap p \<noteq> None" for p
  proof -
    have "p \<in> {2, 3} \<or> p = 5" using that by (auto simp: demo_jobs_heap_def split: if_splits)
    then show ?thesis
    proof
      assume "p \<in> {2, 3}"
      then show ?thesis by (intro exI [of _ 8] exI [of _ "demo_session [] [3, 2]"]) (auto simp: demo_jobs_heap_def demo_session_def)
    next
      assume "p = 5"
      then show ?thesis by (intro exI [of _ 4] exI [of _ "demo_session [] [5]"]) (simp add: demo_jobs_heap_def demo_session_def)
    qed
  qed
qed

lemma demo_jobs_simps [simp]:
  "scheduled_jobs (jm_of (demo_sys es rs ps)) = es @ rs" "pending_jobs (jm_of (demo_sys es rs ps)) = ps"
  "hp (demo_sys es rs ps) = demo_jobs_heap" "max_sched_num (jm_of (demo_sys es rs ps)) = 1"
  "sched_num (jm_of (demo_sys es rs ps)) = int (length rs)"
  "pending_queue (jm_of (demo_sys es rs ps)) = Some ps" "scheduled_queue (jm_of (demo_sys es rs ps)) = Some (es @ rs)"
  by (simp_all add: demo_sys_def scheduled_jobs_def pending_jobs_def)

lemma demo_ajob_simps [simp]:
  "aj_ptr (demo_ajob a i s j st) = a" "aj_session (demo_ajob a i s j st) = s"
  "aj_session_job (demo_ajob a i s j st) = j" "aj_state (demo_ajob a i s j st) = st"
  "aj_uthread_id (demo_ajob a i s j st) = 7" "job_id (aj_desc (demo_ajob a i s j st)) = i"
  "valid_job (demo_ajob a i s j st)"
  by (simp_all add: demo_ajob_def valid_job_def)

lemma demo_job_live [simp]:
  "job_live demo_jobs_heap (demo_ajob a i 8 2 st)" "job_live demo_jobs_heap (demo_ajob a i 8 3 st)"
  "job_live demo_jobs_heap (demo_ajob a i 4 5 st)"
  by (simp_all add: job_live_def demo_jobs_heap_def demo_session_def demo_job_def)

lemma demo_heap_simps [simp]:
  "h_next demo_jobs_heap = 20"
  "h_sess demo_jobs_heap 8 = Some (demo_session [] [3, 2])" "h_sess demo_jobs_heap 4 = Some (demo_session [] [5])"
  "h_sess demo_jobs_heap 6 = Some ((demo_session [] [])\<lparr>user_pid := 200\<rparr>)"
  "h_sjob demo_jobs_heap 3 = Some (demo_job 12 AIPU_JOB_STATE_IDLE)"
  by (simp_all add: demo_jobs_heap_def)

lemma demo_okI:
  assumes "\<forall>j \<in> set ps. aj_state j = AIPU_JOB_STATE_PENDING \<and> valid_job j"
    and "\<forall>j \<in> set es. aj_state j = AIPU_JOB_STATE_END" "\<forall>j \<in> set rs. aj_state j = AIPU_JOB_STATE_SCHED"
    and "length rs \<le> 1" "distinct (map aj_ptr (es @ rs @ ps))"
    and "\<forall>j \<in> set (es @ rs @ ps). aj_ptr j < 20 \<and> (valid_job j \<longrightarrow> job_live demo_jobs_heap j)"
    and "distinct (map aj_session_job (filter valid_job (es @ rs @ ps)))"
  shows "jobs_ok (demo_sys es rs ps)"
  unfolding jobs_ok_def jobs_live_def
proof (intro conjI)
  show "jm_wf (jm_of (demo_sys es rs ps))"
    by (rule jm_wfI [of _ ps es rs]) (use assms in simp_all)
qed (use assms in \<open>simp_all add: demo_jobs_heap_wf all_jobs_def\<close>)

lemma demo_ok:
  "jobs_ok (demo_sys [] [] [])"
  "jobs_ok (demo_sys [] [demo_running] [demo_pending])"
  "jobs_ok (demo_sys [demo_ended] [] [demo_pending])"
  "jobs_ok (demo_sys [demo_ended] [] [])"
  "jobs_ok (demo_sys [] [demo_running] [])"
  "jobs_ok (demo_sys [] [] [demo_pending])"
  by (rule demo_okI, simp_all)+

lemma demo_queues [simp]:
  "running (jm_of (demo_sys [] [demo_running] ps)) = [demo_running]"
  "running (jm_of (demo_sys [demo_ended] [] ps)) = []" "running (jm_of (demo_sys [] [] ps)) = []"
  "ended (jm_of (demo_sys [] [demo_running] ps)) = []"
  "ended (jm_of (demo_sys [demo_ended] [] ps)) = [demo_ended]" "ended (jm_of (demo_sys [] [] ps)) = []"
  by (simp_all add: running_def ended_def)

subsection \<open>The queues\<close>

lemma schedule_running:
  assumes "jm_wf jm" "pending_jobs jm \<noteq> []"
  shows "running (scheduled_first jm) = running jm @ [(hd (pending_jobs jm))\<lparr>aj_state := AIPU_JOB_STATE_SCHED\<rparr>]"
    and "ended (scheduled_first jm) = ended jm"
proof -
  note er = ended_running [OF assms(1)]
  have "scheduled_jobs (scheduled_first jm) =
      ended jm @ running jm @ [(hd (pending_jobs jm))\<lparr>aj_state := AIPU_JOB_STATE_SCHED\<rparr>]"
    using er(1) by simp
  then show "running (scheduled_first jm) = running jm @ [(hd (pending_jobs jm))\<lparr>aj_state := AIPU_JOB_STATE_SCHED\<rparr>]"
    "ended (scheduled_first jm) = ended jm"
    using er(2,3) unfolding running_def [of "scheduled_first jm"] ended_def [of "scheduled_first jm"]
    by (cases "running jm"; simp add: dropWhile_append takeWhile_append)+
qed

lemma completed_running:
  assumes "jm_wf jm" "running jm \<noteq> []"
  shows "running (completed_first x jm) = tl (running jm)"
    and "ended (completed_first x jm) = ended jm @ [completed x (hd (running jm))]"
proof -
  note er = ended_running [OF assms(1)]
  have "scheduled_jobs (completed_first x jm) = (ended jm @ [completed x (hd (running jm))]) @ tl (running jm)" by simp
  then show "running (completed_first x jm) = tl (running jm)"
    "ended (completed_first x jm) = ended jm @ [completed x (hd (running jm))]"
    using er(2,3) assms(2) unfolding running_def [of "completed_first x jm"] ended_def [of "completed_first x jm"]
    by (cases "running jm"; cases "tl (running jm)"; simp add: dropWhile_append takeWhile_append)+
qed

text \<open>C14. Submission is first in, first out. A new job of a session is appended behind all jobs of
  the manager (and may start at once); the call reports success, and the invariant holds
  again. Without memory nothing changes and the error code says so.\<close>

theorem schedule_new_job_fifo:
  assumes "jobs_ok s" "fresh_job s jp sp"
  shows "(kz_ajob e \<longrightarrow>
      (\<exists>s'. aipu_job_manager_schedule_new_job e s uj jp sp = Some (0, s', uj\<lparr>uj_errcode := AIPU_ERRCODE_NO_ERROR\<rparr>) \<and>
        jobs_ok s' \<and> map job_key (all_jobs (jm_of s')) = map job_key (all_jobs (jm_of s) @ [new_job s uj jp sp]) \<and>
        order_of (jm_of s') = order_of (jm_of s) @ [h_next (hp s)])) \<and>
    (\<not> kz_ajob e \<longrightarrow>
      aipu_job_manager_schedule_new_job e s uj jp sp =
        Some (map_errcode AIPU_ERRCODE_CREATE_KOBJ_ERR, s, uj\<lparr>uj_errcode := AIPU_ERRCODE_CREATE_KOBJ_ERR\<rparr>))"
proof (intro conjI impI)
  assume "kz_ajob e"
  from submit_service [OF assms this] show "\<exists>s'. aipu_job_manager_schedule_new_job e s uj jp sp =
      Some (0, s', uj\<lparr>uj_errcode := AIPU_ERRCODE_NO_ERROR\<rparr>) \<and>
    jobs_ok s' \<and> map job_key (all_jobs (jm_of s')) = map job_key (all_jobs (jm_of s) @ [new_job s uj jp sp]) \<and>
    order_of (jm_of s') = order_of (jm_of s) @ [h_next (hp s)]" by blast
next
  assume "\<not> kz_ajob e"
  moreover have "sp \<noteq> 0" "jp \<noteq> 0"
    using assms heap_wf_null [OF jobs_okD(1) [OF assms(1)]] by (auto simp: fresh_job_def)
  ultimately show "aipu_job_manager_schedule_new_job e s uj jp sp =
      Some (map_errcode AIPU_ERRCODE_CREATE_KOBJ_ERR, s, uj\<lparr>uj_errcode := AIPU_ERRCODE_CREATE_KOBJ_ERR\<rparr>)"
    by (intro submit_no_memory)
qed

lemma demo_fresh: "fresh_job (demo_sys [] [demo_running] [demo_pending]) 3 8"
  by (auto simp: fresh_job_def all_jobs_def demo_session_def demo_job_def)

lemma schedule_new_job_fifo_witness:
  "\<exists>s'. aipu_job_manager_schedule_new_job (env_ok 7) (demo_sys [] [demo_running] [demo_pending])
      \<lparr>uj_desc = zero_job_desc, uj_errcode = 0\<rparr> 3 8 = Some (0, s', \<lparr>uj_desc = zero_job_desc, uj_errcode = 0\<rparr>) \<and>
    order_of (jm_of s') = [10, 11, 20]"
  using schedule_new_job_fifo [OF demo_ok(2) demo_fresh, of "env_ok 7" "\<lparr>uj_desc = zero_job_desc, uj_errcode = 0\<rparr>"]
  by (auto simp: env_ok_def order_of_def all_jobs_def errcode_defs)

text \<open>The interrupt without the scheduler's part.\<close>

lemma interrupt_completes:
  assumes "jobs_ok s" "first_live s"
  shows "\<exists>s1. aipu_job_manager_update_job_state_irq e s x = aipu_schedule_pending_job_no_lock e s1 \<and> jobs_ok s1 \<and>
    same_jobs (hp s) (hp s1) \<and> pending_jobs (jm_of s1) = pending_jobs (jm_of s) \<and>
    max_sched_num (jm_of s1) = max_sched_num (jm_of s) \<and>
    priv s1 = (priv s)\<lparr>job_manager := jm_of s1\<rparr> \<and> work_queued s1 = work_queued s \<and>
    map job_key (all_jobs (jm_of s1)) = map job_key (all_jobs (jm_of s)) \<and>
    ended (jm_of s1) = ended (jm_of s) @ map (completed x) (take 1 (running (jm_of s))) \<and>
    running (jm_of s1) = drop 1 (running (jm_of s))"
proof (cases "running (jm_of s)")
  case Nil
  then show ?thesis using state_irq_idle [OF assms(1) Nil] assms(1) by (intro exI [of _ s]) simp
next
  case (Cons r rs)
  then have ne: "running (jm_of s) \<noteq> []" and l: "job_live (hp s) (hd (running (jm_of s)))"
    using assms(2) by (simp_all add: first_live_def)
  note wf = jobs_okD(2) [OF assms(1)]
  obtain s1 where s1: "aipu_job_manager_update_job_state_irq e s x = aipu_schedule_pending_job_no_lock e s1"
    "jobs_ok s1" "same_jobs (hp s) (hp s1)" "priv s1 = (priv s)\<lparr>job_manager := completed_first x (jm_of s)\<rparr>"
    "work_queued s1 = work_queued s"
    using state_irq_effect [OF assms(1) ne l, of e x] by blast
  then show ?thesis using completed_running [OF wf ne, of x] completed_first_keys [OF wf ne, of x] Cons
    by (intro exI [of _ s1]) simp
qed

text \<open>C16. The interrupt. Exactly the first running job ends, with the exception flag of the interrupt,
  behind the jobs that ended before; the others keep their order and at most the first
  pending job is started. Without a running job no job ends.\<close>

theorem update_job_state_irq_spec:
  assumes "jobs_ok s" "first_live s"
  shows "\<exists>s'. aipu_job_manager_update_job_state_irq e s x = Some s' \<and> jobs_ok s' \<and> same_jobs (hp s) (hp s') \<and>
    ended (jm_of s') = ended (jm_of s) @ map (completed x) (take 1 (running (jm_of s))) \<and>
    (\<exists>ps. length ps \<le> 1 \<and> pending_jobs (jm_of s) = ps @ pending_jobs (jm_of s') \<and>
       running (jm_of s') = drop 1 (running (jm_of s)) @ map (\<lambda>j. j\<lparr>aj_state := AIPU_JOB_STATE_SCHED\<rparr>) ps)"
proof -
  obtain s1 where s1: "aipu_job_manager_update_job_state_irq e s x = aipu_schedule_pending_job_no_lock e s1"
    "jobs_ok s1" "same_jobs (hp s) (hp s1)" "pending_jobs (jm_of s1) = pending_jobs (jm_of s)"
    "ended (jm_of s1) = ended (jm_of s) @ map (completed x) (take 1 (running (jm_of s)))"
    "running (jm_of s1) = drop 1 (running (jm_of s))"
    using interrupt_completes [OF assms, of e x] by blast
  obtain s' where s': "aipu_schedule_pending_job_no_lock e s1 = Some s'" "jobs_ok s'" "same_jobs (hp s1) (hp s')"
    "jm_of s' = (if will_schedule s1 then scheduled_first (jm_of s1) else jm_of s1)"
    using schedule_pending_effect [OF s1(2), of e] by blast
  have "\<exists>ps. length ps \<le> 1 \<and> pending_jobs (jm_of s1) = ps @ pending_jobs (jm_of s') \<and>
       running (jm_of s') = running (jm_of s1) @ map (\<lambda>j. j\<lparr>aj_state := AIPU_JOB_STATE_SCHED\<rparr>) ps"
  proof (cases "will_schedule s1")
    case True
    then have ne: "pending_jobs (jm_of s1) \<noteq> []" by (simp add: will_schedule_def)
    then show ?thesis using True s'(4) schedule_running(1) [OF jobs_okD(2) [OF s1(2)] ne]
      by (intro exI [of _ "[hd (pending_jobs (jm_of s1))]"]) simp
  next
    case False
    then show ?thesis using s'(4) by (intro exI [of _ "[]"]) simp
  qed
  moreover have "ended (jm_of s') = ended (jm_of s1)"
    using s'(4) schedule_running(2) [OF jobs_okD(2) [OF s1(2)]] by (simp add: will_schedule_def)
  ultimately show ?thesis using s1 s' same_jobs_trans [OF s1(3) s'(3)]
    by (intro exI [of _ s'] conjI) simp_all
qed

lemma demo_first_live:
  "first_live (demo_sys [] [demo_running] ps)" "first_live (demo_sys [demo_ended] [] ps)"
  by (simp_all add: first_live_def)

lemma update_job_state_irq_spec_witness:
  "\<exists>s'. aipu_job_manager_update_job_state_irq (env_ok 0) (demo_sys [] [demo_running] [demo_pending]) 3 = Some s' \<and>
    ended (jm_of s') = [completed 3 demo_running]"
  using update_job_state_irq_spec [OF demo_ok(2) demo_first_live(1), of "env_ok 0" 3] by auto

text \<open>What waking a session for the threads \<open>ts\<close>, one wake-up per entry, does to it.\<close>

definition wakes :: "int list \<Rightarrow> aipu_session \<Rightarrow> aipu_session" where
  "wakes ts s =
     (if single_thread_poll s = 0
      then s\<lparr>com_wait := (com_wait s)\<lparr>wq_wakeups := wq_wakeups (com_wait s) + length ts\<rparr>\<rparr>
      else s\<lparr>wait_queue_head := map_option (map (\<lambda>q. q\<lparr>wq_p_wait := (wq_p_wait q)
             \<lparr>wq_wakeups := wq_wakeups (wq_p_wait q) + count_list ts (wq_uthread_id q)\<rparr>\<rparr>)) (wait_queue_head s)\<rparr>)"

lemma wakes_Nil: "wakes [] s = s"
  by (cases "wait_queue_head s") (simp_all add: wakes_def)

lemma wakes_Cons: "wakes ts (wakes [t] s) = wakes (t # ts) s"
  by (cases "wait_queue_head s") (auto simp: wakes_def)

lemma woken_wakes:
  assumes "woken t s s'" "session_wf m s"
  shows "s' = wakes [t] s"
proof (cases "single_thread_poll s = 0")
  case True
  then show ?thesis using assms(1) by (simp add: woken_def wakes_def wake_up_interruptible_def)
next
  case False
  then obtain qs i where q: "wait_queue_head s = Some qs" "i < length qs" "wq_uthread_id (qs ! i) = t"
    "s' = s\<lparr>wait_queue_head := Some (qs[i := (qs ! i)\<lparr>wq_p_wait := wake_up_interruptible (wq_p_wait (qs ! i))\<rparr>])\<rparr>"
    using assms(1) by (auto simp: woken_def)
  have "distinct (map wq_uthread_id qs)" using assms(2) q(1) by (simp add: session_wf_def waitqs_wf_def)
  then have "wq_uthread_id (qs ! k) = t \<longleftrightarrow> k = i" if "k < length qs" for k
    using that q(2,3) nth_eq_iff_index_eq [of "map wq_uthread_id qs" k i] by auto
  then have k: "wq_uthread_id (qs ! k) = t \<longleftrightarrow> k = i" if "k < length qs" for k using that .
  have "qs[i := (qs ! i)\<lparr>wq_p_wait := wake_up_interruptible (wq_p_wait (qs ! i))\<rparr>] ! k =
      map (\<lambda>q. q\<lparr>wq_p_wait := (wq_p_wait q)\<lparr>wq_wakeups := wq_wakeups (wq_p_wait q) + count_list [t] (wq_uthread_id q)\<rparr>\<rparr>) qs ! k"
    if "k < length qs" for k
    using that k [OF that] q(2) by (cases "k = i") (simp_all add: wake_up_interruptible_def eq_commute)
  then have "qs[i := (qs ! i)\<lparr>wq_p_wait := wake_up_interruptible (wq_p_wait (qs ! i))\<rparr>] =
      map (\<lambda>q. q\<lparr>wq_p_wait := (wq_p_wait q)\<lparr>wq_wakeups := wq_wakeups (wq_p_wait q) + count_list [t] (wq_uthread_id q)\<rparr>\<rparr>) qs"
    by (intro nth_equalityI) simp_all
  then show ?thesis using False q(1,4) by (simp add: wakes_def)
qed

definition threads_of :: "aipu_job list \<Rightarrow> ptr \<Rightarrow> int list" where
  "threads_of js sp = map aj_uthread_id (filter (\<lambda>j. valid_job j \<and> aj_session j = sp) js)"

lemma queue_done_wakes:
  assumes "heap_wf h" "\<forall>j \<in> set es. aj_state j = AIPU_JOB_STATE_END"
    and "\<forall>j \<in> set rs. aj_state j \<noteq> AIPU_JOB_STATE_END"
    and "\<forall>j \<in> set es. valid_job j \<longrightarrow> job_live h j" "distinct (map aj_session_job (filter valid_job es))"
    and "queue_done_loop h (es @ rs) = Some (h', rs')"
  shows "h_sess h' sp = map_option (wakes (threads_of es sp)) (h_sess h sp)"
  using assms
proof (induction es arbitrary: h)
  case Nil
  then show ?case using queue_done_running [of rs h] by (simp add: threads_of_def wakes_Nil [abs_def] option.map_ident)
next
  case (Cons j es)
  show ?case
  proof (cases "valid_job j")
    case False
    have "queue_done_loop h ((j # es) @ rs) = queue_done_loop h (es @ rs)"
      using False Cons.prems(2) by (simp add: valid_job_def)
    moreover have "threads_of (j # es) sp = threads_of es sp" using False by (simp add: threads_of_def)
    ultimately show ?thesis using Cons.IH [OF Cons.prems(1)] Cons.prems False by simp
  next
    case True
    then have live: "job_live h j" using Cons.prems(4) by simp
    then obtain s sj where s: "h_sess h (aj_session j) = Some s" "aj_session_job j \<in> set (job_list s)"
      "h_sjob h (aj_session_job j) = Some sj" "sj_uthread_id sj = aj_uthread_id j" by (auto simp: job_live_def)
    obtain h1 s1 where h1: "aipu_session_job_done h (aj_session j) (aj_session_job j) (aj_exception_flag j) = Some h1"
      "heap_wf h1" "h_sess h1 = (h_sess h)(aj_session j \<mapsto> s1)" "woken (aj_uthread_id j) s s1"
      using job_done_effect [OF Cons.prems(1) s(1,3,2), of "aj_exception_flag j"] s(4) by auto
    have f: "finishes {aj_session_job j} h h1"
      using job_done_finishes [OF Cons.prems(1) live, of "aj_exception_flag j"] h1(1) by auto
    have w: "s1 = wakes [aj_uthread_id j] s" by (rule woken_wakes [OF h1(4) heap_wfD(4) [OF Cons.prems(1) s(1)]])
    have ne: "aj_session_job k \<noteq> aj_session_job j" if "k \<in> set es" "valid_job k" for k
      using Cons.prems(5) True that by (auto simp: image_iff)
    have "job_live h1 k" if "k \<in> set es" "valid_job k" for k
      using finishes_live [OF f, of k] Cons.prems(4) ne [OF that] that by auto
    moreover have "queue_done_loop h1 (es @ rs) = Some (h', rs')"
      using True Cons.prems(2,6) h1(1) by (simp add: valid_job_def)
    ultimately have "h_sess h' sp = map_option (wakes (threads_of es sp)) (h_sess h1 sp)"
      using Cons.IH [OF h1(2)] Cons.prems True by simp
    then show ?thesis using True s(1) h1(3) by (auto simp: threads_of_def w wakes_Cons)
  qed
qed

text \<open>C17. The bottom half. Every ended job leaves the queue and exactly the session jobs of the valid
  ones are marked as done. Each session is woken once for every such job of its own, on the
  queue of the job's thread or on the common one as it polls; nothing else of the driver
  changes.\<close>

theorem update_job_queue_done_spec:
  assumes "jobs_ok s"
  shows "\<exists>s'. aipu_job_manager_update_job_queue_done_irq s = Some s' \<and> jobs_ok s' \<and>
    s' = s\<lparr>priv := (priv s)\<lparr>job_manager := (jm_of s)\<lparr>scheduled_queue := Some (running (jm_of s))\<rparr>\<rparr>, hp := hp s'\<rparr> \<and>
    ended (jm_of s') = [] \<and> running (jm_of s') = running (jm_of s) \<and>
    h_next (hp s') = h_next (hp s) \<and>
    (\<forall>p. h_sjob (hp s') p =
      (if p \<in> aj_session_job ` {j \<in> set (ended (jm_of s)). valid_job j}
       then map_option (\<lambda>j. j\<lparr>sj_state := AIPU_JOB_STATE_END, sj_exception_type := AIPU_EXCEP_NO_EXCEPTION\<rparr>)
         (h_sjob (hp s) p)
       else h_sjob (hp s) p)) \<and>
    (\<forall>sp. h_sess (hp s') sp = map_option (wakes (threads_of (ended (jm_of s)) sp)) (h_sess (hp s) sp))"
proof -
  obtain s' where s': "aipu_job_manager_update_job_queue_done_irq s = Some s'" "jobs_ok s'"
    "priv s' = (priv s)\<lparr>job_manager := reaped (jm_of s)\<rparr>" "work_queued s' = work_queued s" "dev_io s' = dev_io s"
    "finishes (aj_session_job ` {j \<in> set (ended (jm_of s)). valid_job j}) (hp s) (hp s')"
    using bottom_half_effect [OF assms] by blast
  note wf = jobs_okD [OF assms]
  note er = ended_running [OF wf(2)]
  have aj: "all_jobs (jm_of s) = ended (jm_of s) @ running (jm_of s) @ pending_jobs (jm_of s)"
    by (simp add: all_jobs_def er(1))
  have l: "\<forall>j \<in> set (ended (jm_of s)). valid_job j \<longrightarrow> job_live (hp s) j"
    using jobs_liveD(2) [OF wf(3)] by (auto simp: aj)
  have d: "distinct (map aj_session_job (filter valid_job (ended (jm_of s))))"
    using wf(3) by (simp add: jobs_live_def aj)
  have r: "\<forall>j \<in> set (running (jm_of s)). aj_state j \<noteq> AIPU_JOB_STATE_END" using er(3) by simp
  obtain q where "queue_done_loop (hp s) (ended (jm_of s) @ running (jm_of s)) = Some (hp s', q)"
    using s'(1) by (auto simp: aipu_job_manager_update_job_queue_done_irq_def jm_wf_heads [OF wf(2)] er(1) [symmetric]
        bind_eq_Some_conv)
  then have w: "h_sess (hp s') sp = map_option (wakes (threads_of (ended (jm_of s)) sp)) (h_sess (hp s) sp)" for sp
    by (rule queue_done_wakes [OF wf(1) er(2) r l d])
  have "ended (jm_of s') = []" "running (jm_of s') = running (jm_of s)"
    using r s'(3) unfolding ended_def [of "jm_of s'"] running_def [of "jm_of s'"]
    by (cases "running (jm_of s)"; simp)+
  then show ?thesis using s' w unfolding finishes_def finished_def [abs_def]
    by (intro exI [of _ s']) (simp add: fun_eq_iff reaped_def)
qed

lemma update_job_queue_done_spec_witness:
  "\<exists>s'. aipu_job_manager_update_job_queue_done_irq (demo_sys [demo_ended] [] [demo_pending]) = Some s' \<and>
    order_of (jm_of s') = [11] \<and> map_option sj_state (h_sjob (hp s') 2) = Some AIPU_JOB_STATE_END"
proof -
  let ?s = "demo_sys [demo_ended] [] [demo_pending]"
  obtain s' where s': "aipu_job_manager_update_job_queue_done_irq ?s = Some s'" "jobs_ok s'"
    "s' = ?s\<lparr>priv := (priv ?s)\<lparr>job_manager := (jm_of ?s)\<lparr>scheduled_queue := Some (running (jm_of ?s))\<rparr>\<rparr>, hp := hp s'\<rparr>"
    "ended (jm_of s') = []" "running (jm_of s') = running (jm_of ?s)"
    and j: "h_sjob (hp s') 2 = (if 2 \<in> aj_session_job ` {j \<in> set (ended (jm_of ?s)). valid_job j}
       then map_option (\<lambda>j. j\<lparr>sj_state := AIPU_JOB_STATE_END, sj_exception_type := AIPU_EXCEP_NO_EXCEPTION\<rparr>)
         (h_sjob (hp ?s) 2) else h_sjob (hp ?s) 2)"
    using update_job_queue_done_spec [OF demo_ok(3)] by blast
  have "2 \<in> aj_session_job ` {j \<in> set (ended (jm_of ?s)). valid_job j}"
    by (rule image_eqI [of _ _ demo_ended]) simp_all
  then have j2: "map_option sj_state (h_sjob (hp s') 2) = Some AIPU_JOB_STATE_END"
    using j by (simp add: demo_jobs_heap_def)
  have "pending_queue (jm_of s') = pending_queue (jm_of ?s)" by (subst s'(3)) simp
  then have "pending_jobs (jm_of s') = [demo_pending]" by (simp add: pending_jobs_def)
  moreover have "scheduled_jobs (jm_of s') = []" using ended_running(1) [OF jobs_okD(2) [OF s'(2)]] s'(4,5) by simp
  ultimately show ?thesis using s'(1) j2 by (simp add: order_of_def all_jobs_def)
qed

lemma cancel_result:
  assumes "jobs_ok s" "h_sess (hp s) sp = Some st"
    and "\<forall>j \<in> set (all_jobs (jm_of s)). h_sess (hp s) (aj_session j) \<noteq> None"
  shows "\<exists>s'. aipu_job_manager_cancel_session_jobs e s sp = Some (0, s') \<and>
    jm_of s' = canceled (hp s) (user_pid st) (jm_of s) \<and> priv s' = (priv s)\<lparr>job_manager := jm_of s'\<rparr> \<and>
    ((\<forall>j \<in> set (ended (jm_of s)). valid_job j \<longrightarrow> aj_session j \<noteq> sp) \<longrightarrow>
      jobs_ok s' \<and> (\<forall>j \<in> set (all_jobs (jm_of s')). valid_job j \<longrightarrow> aj_session j \<noteq> sp)) \<and>
    h_sess (hp s') = (h_sess (hp s))(sp \<mapsto> st\<lparr>job_list := []\<rparr>) \<and>
    h_sjob (hp s') = (\<lambda>p. if p \<in> set (job_list st) then None else h_sjob (hp s) p)"
proof -
  obtain h' where h: "aipu_job_manager_cancel_session_jobs e s sp =
      Some (0, put_hp h' (put_jm (canceled (hp s) (user_pid st) (jm_of s)) s))"
    "aipu_session_delete_jobs (hp s) sp = Some (0, h')"
    using cancel_effect [OF assms, of e] by blast
  have d: "h_sess h' = (h_sess (hp s))(sp \<mapsto> st\<lparr>job_list := []\<rparr>)"
    "h_sjob h' = (\<lambda>p. if p \<in> set (job_list st) then None else h_sjob (hp s) p)"
    using delete_jobs_effect [OF jobs_okD(1) [OF assms(1)] assms(2)] h(2) by auto
  show ?thesis using h d cancel_jobs_ok [OF assms(1,2) _ h(2)]
    by (intro exI [of _ "put_hp h' (put_jm (canceled (hp s) (user_pid st) (jm_of s)) s)"]) simp
qed

text \<open>C18. Cancellation on close. Pending jobs of the process leave the queue, running ones stay with
  their validity taken away, all others keep their place; the session's jobs are freed, and
  no valid job of the manager belongs to the session any more.\<close>

theorem cancel_session_jobs_spec:
  assumes "jobs_ok s" "cancelable s sp" "h_sess (hp s) sp = Some st"
  shows "\<exists>s'. aipu_job_manager_cancel_session_jobs e s sp = Some (0, s') \<and> jobs_ok s' \<and>
    pending_jobs (jm_of s') = filter (\<lambda>j. job_pid (hp s) j \<noteq> user_pid st) (pending_jobs (jm_of s)) \<and>
    scheduled_jobs (jm_of s') =
      map (\<lambda>j. if job_pid (hp s) j = user_pid st \<and> aj_state j = AIPU_JOB_STATE_SCHED then j\<lparr>aj_valid_flag := 0\<rparr> else j)
        (scheduled_jobs (jm_of s)) \<and>
    (\<forall>j \<in> set (all_jobs (jm_of s')). valid_job j \<longrightarrow> aj_session j \<noteq> sp) \<and>
    h_sess (hp s') = (h_sess (hp s))(sp \<mapsto> st\<lparr>job_list := []\<rparr>) \<and>
    (\<forall>p. h_sjob (hp s') p = (if p \<in> set (job_list st) then None else h_sjob (hp s) p))"
proof -
  have "\<forall>j \<in> set (all_jobs (jm_of s)). h_sess (hp s) (aj_session j) \<noteq> None"
    "\<forall>j \<in> set (ended (jm_of s)). valid_job j \<longrightarrow> aj_session j \<noteq> sp"
    using assms(2) by (simp_all add: cancelable_def)
  with cancel_result [OF assms(1,3), of e] obtain s' where
    s': "aipu_job_manager_cancel_session_jobs e s sp = Some (0, s')" "jobs_ok s'"
    "\<forall>j \<in> set (all_jobs (jm_of s')). valid_job j \<longrightarrow> aj_session j \<noteq> sp"
    and jm: "jm_of s' = canceled (hp s) (user_pid st) (jm_of s)"
    and hp: "h_sess (hp s') = (h_sess (hp s))(sp \<mapsto> st\<lparr>job_list := []\<rparr>)"
    "h_sjob (hp s') = (\<lambda>p. if p \<in> set (job_list st) then None else h_sjob (hp s) p)" by blast
  have "pending_jobs (jm_of s') = filter (\<lambda>j. job_pid (hp s) j \<noteq> user_pid st) (pending_jobs (jm_of s))"
    "scheduled_jobs (jm_of s') =
      map (\<lambda>j. if job_pid (hp s) j = user_pid st \<and> aj_state j = AIPU_JOB_STATE_SCHED then j\<lparr>aj_valid_flag := 0\<rparr> else j)
        (scheduled_jobs (jm_of s))"
    by (simp_all add: jm canceled_def cancel_running_def)
  then show ?thesis using s' hp by (intro exI [of _ s']) simp
qed

lemma demo_cancelable:
  "cancelable (demo_sys [] [demo_running] [demo_pending]) 8" "cancelable (demo_sys [] [demo_running] []) 8"
  by (simp_all add: cancelable_def all_jobs_def)

lemma cancel_session_jobs_spec_witness:
  "\<exists>s'. aipu_job_manager_cancel_session_jobs (env_ok 7) (demo_sys [] [demo_running] [demo_pending]) 8 = Some (0, s') \<and>
    scheduled_jobs (jm_of s') = [demo_running\<lparr>aj_valid_flag := 0\<rparr>] \<and> pending_jobs (jm_of s') = []"
proof -
  have "job_pid demo_jobs_heap demo_running = 100" "job_pid demo_jobs_heap demo_pending = 100"
    "user_pid (demo_session [] [3, 2]) = 100"
    by (simp_all add: job_pid_def) (simp_all add: demo_session_def)
  then show ?thesis
    using cancel_session_jobs_spec [OF demo_ok(2) demo_cancelable(1), of "demo_session [] [3, 2]" "env_ok 7"] by auto
qed

text \<open>The kill of a timed-out job. It takes the calling thread's first job with the identifier:
  a pending one leaves the queue, a running one loses its validity and stays until it ends,
  an ended one is refused with \<open>-EINVAL\<close>, as is an identifier the manager does not hold.
  Session jobs are not touched and the invariant holds again.\<close>

theorem invalidate_timeout_job_spec:
  assumes "jobs_ok s"
  shows "\<exists>ret s'. aipu_invalidate_timeout_job e s jid = Some (ret, s') \<and> jobs_ok s' \<and> hp s' = hp s \<and>
    (case find (timeout_target e jid) (pending_jobs (jm_of s)) of
       Some j \<Rightarrow> ret = 0 \<and> scheduled_jobs (jm_of s') = scheduled_jobs (jm_of s) \<and>
         pending_jobs (jm_of s') = remove1 j (pending_jobs (jm_of s))
     | None \<Rightarrow> pending_jobs (jm_of s') = pending_jobs (jm_of s) \<and>
         (case find (timeout_target e jid) (scheduled_jobs (jm_of s)) of
            Some j \<Rightarrow> (if aj_state j = AIPU_JOB_STATE_SCHED
              then ret = 0 \<and> scheduled_jobs (jm_of s') =
                map (\<lambda>k. if k = j then j\<lparr>aj_valid_flag := 0\<rparr> else k) (scheduled_jobs (jm_of s))
              else ret = - EINVAL \<and> scheduled_jobs (jm_of s') = scheduled_jobs (jm_of s))
          | None \<Rightarrow> ret = - EINVAL \<and> s' = s))"
proof -
  note wf = jobs_okD(2) [OF assms]
  note t = timeout_effect [OF wf, of e jid]
  have dis: "distinct (map aj_ptr (scheduled_jobs (jm_of s)))" "distinct (map aj_ptr (pending_jobs (jm_of s)))"
    using wf by (auto simp: jm_wf_def order_of_def all_jobs_def)
  show ?thesis
  proof (cases "find (timeout_target e jid) (pending_jobs (jm_of s))")
    case (Some j)
    with t(1) obtain ys xs where p: "pending_jobs (jm_of s) = ys @ j # xs"
      "aipu_invalidate_timeout_job e s jid = Some (0, put_jm (with_queues (ys @ xs) (scheduled_jobs (jm_of s)) (jm_of s)) s)"
      by blast
    have "j \<notin> set ys" using dis(2) p(1) by auto
    then show ?thesis using p Some timeout_jobs_ok [OF assms p(2)] by (simp add: remove1_append)
  next
    case None
    show ?thesis
    proof (cases "find (timeout_target e jid) (scheduled_jobs (jm_of s))")
      case (Some j)
      with t(2) None obtain ys xs where p: "scheduled_jobs (jm_of s) = ys @ j # xs"
        "aipu_invalidate_timeout_job e s jid =
           Some (if aj_state j = AIPU_JOB_STATE_SCHED then 0 else - EINVAL,
             put_jm (with_queues (pending_jobs (jm_of s)) (ys @ cancel_running j # xs) (jm_of s)) s)"
        by blast
      have "j \<notin> set ys" "j \<notin> set xs" using dis(1) p(1) by auto
      then have "map (\<lambda>k. if k = j then j' else k) (ys @ j # xs) = ys @ j' # xs" for j'
        by (auto intro!: map_idI)
      then show ?thesis using p None Some timeout_jobs_ok [OF assms p(2)] by (simp add: cancel_running_def)
    next
      case n: None
      then show ?thesis using t(3) None assms by simp
    qed
  qed
qed

lemma invalidate_timeout_job_spec_witness:
  "\<exists>s'. aipu_invalidate_timeout_job (env_ok 7) (demo_sys [] [demo_running] [demo_pending]) 13 = Some (0, s') \<and>
    pending_jobs (jm_of s') = [] \<and> scheduled_jobs (jm_of s') = [demo_running]"
  using invalidate_timeout_job_spec [OF demo_ok(2), of "env_ok 7" 13]
  by (auto simp: timeout_target_def env_ok_def)

subsection \<open>The job manager as a first-in first-out service\<close>

lemma submit_serves:
  assumes "jobs_ok s" "fresh_job s jp sp"
  shows "serves (jm_step (e, Submit uj jp sp) s) s (jm_arrivals (e, Submit uj jp sp) s)"
proof (cases "kz_ajob e")
  case True
  then obtain s' where "aipu_job_manager_schedule_new_job e s uj jp sp = Some (0, s', uj\<lparr>uj_errcode := AIPU_ERRCODE_NO_ERROR\<rparr>)"
    "jobs_ok s'" "jobs_order s' = jobs_order s @ [h_next (hp s)]"
    using submit_service [OF assms True, of uj] by blast
  then show ?thesis using True by (intro servesI [of _ s']) simp_all
next
  case False
  have "sp \<noteq> 0" "jp \<noteq> 0"
    using assms heap_wf_null [OF jobs_okD(1) [OF assms(1)]] by (auto simp: fresh_job_def)
  then show ?thesis using submit_no_memory [OF _ _ False] assms(1) False
    by (intro servesI [of _ s]) simp_all
qed

lemma interrupt_serves:
  assumes "jobs_ok s" "first_live s"
  shows "serves (jm_step (e, Interrupt x) s) s []"
proof -
  obtain s' where "aipu_job_manager_update_job_state_irq e s x = Some s'" "jobs_ok s'"
    "jobs_order s' = jobs_order s"
    using interrupt_service [OF assms, of e x] order_cong by blast
  then show ?thesis by (intro servesI [of _ s']) simp_all
qed

lemma jm_step_serves:
  assumes "jobs_ok s" "jm_adm a s"
  shows "serves (jm_step a s) s (jm_arrivals a s)"
proof -
  obtain e oper where a: "a = (e, oper)" by (cases a)
  note adm = assms(2) [unfolded a]
  show ?thesis
  proof (cases oper)
    case (Submit uj jp sp)
    show ?thesis unfolding a Submit
      by (rule submit_serves [OF assms(1) adm [unfolded Submit jm_adm.simps]])
  next
    case (Interrupt x)
    show ?thesis unfolding a Interrupt jm_arrivals.simps
      by (rule interrupt_serves [OF assms(1) adm [unfolded Interrupt jm_adm.simps]])
  next
    case Bottom_half
    show ?thesis unfolding a Bottom_half jm_arrivals.simps jm_step.simps
      by (rule bottom_half_service [OF assms(1)])
  next
    case (Cancel sp)
    show ?thesis unfolding a Cancel jm_arrivals.simps jm_step.simps
      by (rule cancel_service [OF assms(1) adm [unfolded Cancel jm_adm.simps]])
  next
    case (Timeout jid)
    show ?thesis unfolding a Timeout jm_arrivals.simps jm_step.simps
      by (rule timeout_service [OF assms(1)])
  qed
qed

interpretation jmq: fifo_service jobs_ok jobs_order jm_step jm_arrivals jm_adm
proof unfold_locales
  fix s :: sys and a :: "kenv \<times> jm_op" and s' :: sys
  assume s: "jobs_ok s" "jm_adm a s"
  from jm_step_serves [OF s] show "\<exists>s'. jm_step a s = Some s'" by (auto simp: serves_def)
  assume "jm_step a s = Some s'"
  with jm_step_serves [OF s] show "jobs_ok s'" "subseq (jobs_order s') (jobs_order s @ jm_arrivals a s)"
    by (auto simp: serves_def)
qed

text \<open>C20. No overtaking and no fault. In every sequence of submissions, interrupts, bottom halves,
  cancellations and timeouts that the callers may perform, the next operation succeeds, the
  invariant holds, and the jobs that are still in the manager stand in the order in which
  they were submitted.\<close>

theorem job_manager_fifo:
  assumes "fifo_run jm_step jm_arrivals jm_adm s ids t" "jobs_ok s"
  shows "jobs_ok t \<and> subseq (order_of (jm_of t)) (order_of (jm_of s) @ ids) \<and>
    (\<forall>a. jm_adm a t \<longrightarrow> (\<exists>u. jm_step a t = Some u))"
  using jmq.run_inv [OF assms] jmq.run_order [OF assms] jmq.run_not_stuck [OF assms] by blast

lemma job_manager_fifo_witness:
  "\<exists>t. fifo_run jm_step jm_arrivals jm_adm (demo_sys [] [demo_running] [demo_pending]) [20] t \<and>
    jobs_ok t \<and> subseq (order_of (jm_of t)) [10, 11, 20]"
proof -
  let ?s = "demo_sys [] [demo_running] [demo_pending]" and ?uj = "\<lparr>uj_desc = zero_job_desc, uj_errcode = 0\<rparr>"
  obtain t where t: "jm_step (env_ok 7, Submit ?uj 3 8) ?s = Some t"
    using jmq.step_total [OF demo_ok(2), of "(env_ok 7, Submit ?uj 3 8)"] demo_fresh by auto
  have adm: "jm_adm (env_ok 7, Submit ?uj 3 8) ?s" using demo_fresh by simp
  have "fifo_run jm_step jm_arrivals jm_adm ?s ([] @ jm_arrivals (env_ok 7, Submit ?uj 3 8) ?s) t"
    by (rule run_step) (rule run_refl, rule adm, rule t)
  then have r: "fifo_run jm_step jm_arrivals jm_adm ?s [20] t" by (simp add: env_ok_def)
  then show ?thesis using job_manager_fifo [OF r demo_ok(2)] by (auto simp: order_of_def all_jobs_def)
qed

subsection \<open>Progress\<close>

text \<open>The status register of the core answers idle to every read.\<close>

definition device_idle :: "sys \<Rightarrow> bool" where
  "device_idle s \<longleftrightarrow> (case core0 (priv s) of None \<Rightarrow> False | Some c \<Rightarrow>
     io_valid (core_base0 c) ZHOUYI_STAT_REG_OFFSET \<and>
     (\<forall>n. let v = io_dev (dev_io s) n (io_addr (core_base0 c) ZHOUYI_STAT_REG_OFFSET)
          in bit v 16 \<and> bit v 17 \<and> bit v 18))"

lemma device_idle_is_idle:
  assumes "device_idle s"
  shows "fst (run_io (aipu_priv_is_idle (priv s)) s)"
proof -
  obtain c where c: "core0 (priv s) = Some c" "io_valid (core_base0 c) ZHOUYI_STAT_REG_OFFSET"
    "\<And>n. bit (io_dev (dev_io s) n (io_addr (core_base0 c) ZHOUYI_STAT_REG_OFFSET)) 16"
    "\<And>n. bit (io_dev (dev_io s) n (io_addr (core_base0 c) ZHOUYI_STAT_REG_OFFSET)) 17"
    "\<And>n. bit (io_dev (dev_io s) n (io_addr (core_base0 c) ZHOUYI_STAT_REG_OFFSET)) 18"
    using assms by (auto simp: device_idle_def Let_def split: option.splits)
  show ?thesis
    by (cases "core_ctrl (priv s)")
       (simp_all add: aipu_priv_is_idle_def zhouyi_v1_is_idle_def zhouyi_v2_is_idle_def run_io_def c run_read32 AIPU_BIT_iff)
qed

lemma device_idle_cong:
  "core0 (priv t) = core0 (priv s) \<Longrightarrow> io_dev (dev_io t) = io_dev (dev_io s) \<Longrightarrow> device_idle t \<longleftrightarrow> device_idle s"
  by (simp only: device_idle_def)

lemma device_idle_dev_step:
  assumes "dev_step s t"
  shows "device_idle t \<longleftrightarrow> device_idle s"
proof (rule device_idle_cong)
  show "core0 (priv t) = core0 (priv s)" using assms by (simp add: dev_step_def)
  have "dev_extends s t" using assms by (simp add: dev_step_def)
  then show "io_dev (dev_io t) = io_dev (dev_io s)" by (rule dev_extends_io)
qed

text \<open>One interrupt, handled to the end, and a number of them.\<close>

definition irq_round :: "kenv \<Rightarrow> int \<Rightarrow> sys \<Rightarrow> sys option" where
  "irq_round e x s = Option.bind (aipu_job_manager_update_job_state_irq e s x) aipu_job_manager_update_job_queue_done_irq"

fun irq_rounds :: "kenv \<Rightarrow> int \<Rightarrow> nat \<Rightarrow> sys \<Rightarrow> sys option" where
  "irq_rounds e x 0 s = Some s"
| "irq_rounds e x (Suc n) s = Option.bind (irq_round e x s) (irq_rounds e x n)"

definition job_ended :: "heap \<Rightarrow> ptr \<Rightarrow> bool" where
  "job_ended h p \<longleftrightarrow> (\<exists>sj. h_sjob h p = Some sj \<and> sj_state sj = AIPU_JOB_STATE_END)"

lemma job_ended_same:
  assumes "same_jobs h h'" "job_ended h p"
  shows "job_ended h' p"
proof -
  obtain sj where sj: "h_sjob h p = Some sj" "sj_state sj = AIPU_JOB_STATE_END"
    using assms(2) by (auto simp: job_ended_def)
  obtain sj' where "h_sjob h' p = Some sj'" "sj_core sj' = sj_core sj" by (rule same_jobs_get [OF assms(1) sj(1)])
  then show ?thesis using sj(2) by (simp add: job_ended_def sj_core_def)
qed

lemma job_ended_finishes:
  assumes "finishes A h h'"
  shows "job_ended h p \<Longrightarrow> job_ended h' p" and "p \<in> A \<Longrightarrow> h_sjob h p \<noteq> None \<Longrightarrow> job_ended h' p"
  using assms by (auto simp: job_ended_def finishes_def finished_def)

text \<open>The manager can take any interrupt: the session jobs of all running jobs exist.\<close>

definition irq_ready :: "sys \<Rightarrow> bool" where
  "irq_ready s \<longleftrightarrow> jobs_ok s \<and> (\<forall>j \<in> set (running (jm_of s)). job_live (hp s) j)"

lemma irq_ready_first_live: "irq_ready s \<Longrightarrow> first_live s"
  by (cases "running (jm_of s)") (simp_all add: irq_ready_def first_live_def)

lemma irq_ready_valid:
  assumes "jobs_ok s" "\<forall>j \<in> set (all_jobs (jm_of s)). valid_job j"
  shows "irq_ready s"
  unfolding irq_ready_def
proof (intro conjI ballI)
  fix j assume "j \<in> set (running (jm_of s))"
  then have "j \<in> set (all_jobs (jm_of s))" using ended_running(1) [OF jobs_okD(2) [OF assms(1)]] by (simp add: all_jobs_def)
  then show "job_live (hp s) j" using assms(2) jobs_liveD(2) [OF jobs_okD(3) [OF assms(1)]] by blast
qed (rule assms(1))

lemma interrupt_ready:
  assumes "irq_ready s"
  shows "\<exists>s'. aipu_job_manager_update_job_state_irq e s x = Some s' \<and> irq_ready s' \<and> same_jobs (hp s) (hp s') \<and>
    priv s' = (priv s)\<lparr>job_manager := jm_of s'\<rparr> \<and> work_queued s' = work_queued s \<and>
    map job_key (all_jobs (jm_of s')) = map job_key (all_jobs (jm_of s))"
proof -
  have ok: "jobs_ok s" and live: "\<forall>j \<in> set (running (jm_of s)). job_live (hp s) j"
    using assms by (simp_all add: irq_ready_def)
  obtain s1 where s1: "aipu_job_manager_update_job_state_irq e s x = aipu_schedule_pending_job_no_lock e s1" "jobs_ok s1"
    "same_jobs (hp s) (hp s1)" "pending_jobs (jm_of s1) = pending_jobs (jm_of s)"
    "priv s1 = (priv s)\<lparr>job_manager := jm_of s1\<rparr>" "work_queued s1 = work_queued s"
    "map job_key (all_jobs (jm_of s1)) = map job_key (all_jobs (jm_of s))"
    "running (jm_of s1) = drop 1 (running (jm_of s))"
    using interrupt_completes [OF ok irq_ready_first_live [OF assms], of e x] by blast
  obtain s' where s': "aipu_schedule_pending_job_no_lock e s1 = Some s'" "jobs_ok s'" "sched_frame s1 s'"
    "same_jobs (hp s1) (hp s')" "map job_key (all_jobs (jm_of s')) = map job_key (all_jobs (jm_of s1))"
    "jm_of s' = (if will_schedule s1 then scheduled_first (jm_of s1) else jm_of s1)"
    using schedule_pending_effect [OF s1(2), of e] by blast
  have live1: "job_live (hp s1) j" if "j \<in> set (running (jm_of s1))" for j
    using that s1(8) live same_jobs_live [OF s1(3)] by (auto dest: in_set_dropD)
  have "job_live (hp s1) j" if "j \<in> set (running (jm_of s'))" for j
  proof (cases "will_schedule s1")
    case True
    then have ne: "pending_jobs (jm_of s1) \<noteq> []" by (simp add: will_schedule_def)
    let ?n = "hd (pending_jobs (jm_of s1))"
    have "?n \<in> set (all_jobs (jm_of s1))" "valid_job ?n"
      using ne jobs_okD(2) [OF s1(2)] by (simp_all add: all_jobs_def jm_wf_def)
    then have "job_live (hp s1) ?n" using jobs_liveD(2) [OF jobs_okD(3) [OF s1(2)]] by blast
    then have "job_live (hp s1) (?n\<lparr>aj_state := AIPU_JOB_STATE_SCHED\<rparr>)" by (simp add: job_live_def)
    then show ?thesis using that True s'(6) schedule_running(1) [OF jobs_okD(2) [OF s1(2)] ne] live1 by auto
  next
    case False
    then show ?thesis using that s'(6) live1 by simp
  qed
  then have "irq_ready s'" using s'(2) same_jobs_live [OF s'(4)] by (simp add: irq_ready_def)
  moreover have "priv s' = (priv s)\<lparr>job_manager := jm_of s'\<rparr>"
  proof -
    have "priv s' = (priv s1)\<lparr>job_manager := jm_of s'\<rparr>" using s'(3) by (simp add: sched_frame_def)
    also have "\<dots> = (priv s)\<lparr>job_manager := jm_of s'\<rparr>" by (subst s1(5)) simp
    finally show ?thesis .
  qed
  moreover have "work_queued s' = work_queued s" using s'(3) s1(6) by (simp add: sched_frame_def)
  ultimately show ?thesis using s1(1,7) s'(1,5) same_jobs_trans [OF s1(3) s'(4)]
    by (intro exI [of _ s']) simp
qed

text \<open>What a round keeps, and what it achieves.\<close>

definition serving :: "sys \<Rightarrow> bool" where
  "serving s \<longleftrightarrow> jobs_ok s \<and> device_idle s \<and> 1 \<le> max_sched_num (jm_of s) \<and>
     (\<forall>j \<in> set (all_jobs (jm_of s)). valid_job j)"

definition rounds_left :: "sys \<Rightarrow> nat" where
  "rounds_left s = length (all_jobs (jm_of s)) + (if running (jm_of s) = [] \<and> pending_jobs (jm_of s) \<noteq> [] then 1 else 0)"

definition progress :: "sys \<Rightarrow> sys \<Rightarrow> bool" where
  "progress s s' \<longleftrightarrow> (\<forall>p. job_ended (hp s) p \<longrightarrow> job_ended (hp s') p) \<and>
     (\<forall>j \<in> set (all_jobs (jm_of s)). aj_session_job j \<in> aj_session_job ` set (all_jobs (jm_of s')) \<or>
        job_ended (hp s') (aj_session_job j))"

lemma progress_trans:
  assumes "progress s t" "progress t u"
  shows "progress s u"
  unfolding progress_def
proof (intro conjI allI ballI impI)
  show "job_ended (hp u) p" if "job_ended (hp s) p" for p using assms that unfolding progress_def by blast
next
  fix j assume "j \<in> set (all_jobs (jm_of s))"
  with assms(1) consider (q) k where "k \<in> set (all_jobs (jm_of t))" "aj_session_job j = aj_session_job k"
    | (e) "job_ended (hp t) (aj_session_job j)"
    unfolding progress_def by (auto simp: image_iff)
  then show "aj_session_job j \<in> aj_session_job ` set (all_jobs (jm_of u)) \<or> job_ended (hp u) (aj_session_job j)"
  proof cases
    case q
    then show ?thesis using assms(2) unfolding progress_def by metis
  next
    case e
    then show ?thesis using assms(2) unfolding progress_def by blast
  qed
qed

lemma key_image:
  "map job_key xs = map job_key ys \<Longrightarrow> aj_session_job ` set xs = aj_session_job ` set ys"
proof -
  assume "map job_key xs = map job_key ys"
  then have "(\<lambda>k. fst (snd (snd (snd k)))) ` job_key ` set xs = (\<lambda>k. fst (snd (snd (snd k)))) ` job_key ` set ys"
    by (metis list.set_map)
  then show ?thesis by (simp add: job_key_def image_image)
qed

lemma key_all_valid:
  assumes "map job_key xs = map job_key ys" "\<forall>j \<in> set ys. valid_job j"
  shows "\<forall>j \<in> set xs. valid_job j"
proof
  fix j assume "j \<in> set xs"
  then have "job_key j \<in> set (map job_key ys)" unfolding assms(1) [symmetric] by simp
  then obtain k where "k \<in> set ys" "job_key j = job_key k" by auto
  then show "valid_job j" using assms(2) job_key_valid by blast
qed

lemma round_serves:
  assumes s: "serving s"
  shows "\<exists>s'. irq_round e x s = Some s' \<and> serving s' \<and> progress s s' \<and> ended (jm_of s') = [] \<and>
    rounds_left s' \<le> rounds_left s - 1"
proof -
  have ok: "jobs_ok s" and idle: "device_idle s" and mx: "1 \<le> max_sched_num (jm_of s)"
    and v: "\<forall>j \<in> set (all_jobs (jm_of s)). valid_job j" using s by (simp_all add: serving_def)
  have rdy: "irq_ready s" by (rule irq_ready_valid [OF ok v])
  note wf = jobs_okD(2) [OF ok]
  obtain s0 where s0: "aipu_job_manager_update_job_state_irq e s x = aipu_schedule_pending_job_no_lock e s0"
    "jobs_ok s0" "same_jobs (hp s) (hp s0)" "pending_jobs (jm_of s0) = pending_jobs (jm_of s)"
    "max_sched_num (jm_of s0) = max_sched_num (jm_of s)"
    "map job_key (all_jobs (jm_of s0)) = map job_key (all_jobs (jm_of s))"
    "running (jm_of s0) = drop 1 (running (jm_of s))"
    using interrupt_completes [OF ok irq_ready_first_live [OF rdy], of e x] by blast
  obtain s1 where s1: "aipu_schedule_pending_job_no_lock e s0 = Some s1" "jobs_ok s1" "sched_frame s0 s1"
    "same_jobs (hp s0) (hp s1)" "map job_key (all_jobs (jm_of s1)) = map job_key (all_jobs (jm_of s0))"
    "jm_of s1 = (if will_schedule s0 then scheduled_first (jm_of s0) else jm_of s0)"
    using schedule_pending_effect [OF s0(2), of e] by blast
  have irq: "aipu_job_manager_update_job_state_irq e s x = Some s1" using s0(1) s1(1) by simp
  have d1: "device_idle s1" using state_irq_dev_step [OF irq] idle by (simp add: device_idle_dev_step)
  then have d0: "device_idle s0" using schedule_dev_step [OF s1(1)] by (simp add: device_idle_dev_step)
  obtain s2 where s2: "aipu_job_manager_update_job_queue_done_irq s1 = Some s2" "jobs_ok s2"
    "priv s2 = (priv s1)\<lparr>job_manager := reaped (jm_of s1)\<rparr>" "dev_io s2 = dev_io s1"
    "finishes (aj_session_job ` {j \<in> set (ended (jm_of s1)). valid_job j}) (hp s1) (hp s2)"
    using bottom_half_effect [OF s1(2)] by blast
  note wf0 = jobs_okD(2) [OF s0(2)] and wf1 = jobs_okD(2) [OF s1(2)] and wf2 = jobs_okD(2) [OF s2(2)]
  have k: "map job_key (all_jobs (jm_of s1)) = map job_key (all_jobs (jm_of s))" using s0(6) s1(5) by simp
  have v1: "\<forall>j \<in> set (all_jobs (jm_of s1)). valid_job j" by (rule key_all_valid [OF k v])
  have all1: "all_jobs (jm_of s1) = ended (jm_of s1) @ all_jobs (jm_of s2)"
    using ended_running(1) [OF wf1] s2(3) by (simp add: all_jobs_def)
  have r2: "running (jm_of s2) = running (jm_of s1)" "ended (jm_of s2) = []"
    using ended_running(3) [OF wf1] s2(3) unfolding running_def [of "jm_of s2"] ended_def [of "jm_of s2"]
    by (cases "running (jm_of s1)"; simp)+
  have room: "will_schedule s0 \<longleftrightarrow> pending_jobs (jm_of s) \<noteq> []" if "drop 1 (running (jm_of s)) = []"
    using that s0 mx device_idle_is_idle [OF d0] ended_running(4) [OF wf0] by (simp add: will_schedule_def)
  have srv: "serving s2"
    unfolding serving_def
  proof (intro conjI)
    show "device_idle s2" using d1 device_idle_cong [of s2 s1] s2(3,4) by simp
    show "1 \<le> max_sched_num (jm_of s2)" using mx s0(5) s1(3) s2(3) by (simp add: sched_frame_def)
    show "\<forall>j \<in> set (all_jobs (jm_of s2)). valid_job j" using v1 all1 by simp
  qed (rule s2(2))
  have prog: "progress s s2"
    unfolding progress_def
  proof (intro conjI allI ballI impI)
    fix p assume "job_ended (hp s) p"
    then show "job_ended (hp s2) p"
      by (intro job_ended_finishes(1) [OF s2(5)] job_ended_same [OF s1(4)] job_ended_same [OF s0(3)])
  next
    fix j assume "j \<in> set (all_jobs (jm_of s))"
    then have "aj_session_job j \<in> aj_session_job ` set (all_jobs (jm_of s1))" unfolding key_image [OF k] by blast
    then obtain i where i: "i \<in> set (all_jobs (jm_of s1))" "aj_session_job i = aj_session_job j" by auto
    show "aj_session_job j \<in> aj_session_job ` set (all_jobs (jm_of s2)) \<or> job_ended (hp s2) (aj_session_job j)"
    proof (cases "i \<in> set (all_jobs (jm_of s2))")
      case True
      then show ?thesis unfolding i(2) [symmetric] by (intro disjI1 imageI)
    next
      case False
      then have "i \<in> set (ended (jm_of s1))" using i(1) all1 by auto
      then have "aj_session_job j \<in> aj_session_job ` {j \<in> set (ended (jm_of s1)). valid_job j}"
        unfolding i(2) [symmetric] using v1 i(1) by (intro imageI) simp
      moreover have "h_sjob (hp s1) (aj_session_job j) \<noteq> None"
        using jobs_liveD(2) [OF jobs_okD(3) [OF s1(2)] i(1)] v1 i by (auto simp: job_live_def)
      ultimately show ?thesis using job_ended_finishes(2) [OF s2(5)] by blast
    qed
  qed
  have len: "length (all_jobs (jm_of s2)) = length (running (jm_of s1)) + length (pending_jobs (jm_of s1))"
    using r2 ended_running(1) [OF wf2] s2(3) by (simp add: all_jobs_def)
  have len0: "length (running (jm_of s1)) + length (pending_jobs (jm_of s1)) =
      length (drop 1 (running (jm_of s))) + length (pending_jobs (jm_of s))"
    using s1(6) s0(4,7) schedule_running(1) [OF wf0] by (cases "pending_jobs (jm_of s0)") (auto simp: will_schedule_def)
  have lens: "length (all_jobs (jm_of s)) = length (ended (jm_of s)) + length (running (jm_of s)) + length (pending_jobs (jm_of s))"
    using ended_running(1) [OF wf] by (simp add: all_jobs_def)
  have "running (jm_of s2) \<noteq> []" if "pending_jobs (jm_of s2) \<noteq> []"
  proof (cases "drop 1 (running (jm_of s)) = []")
    case True
    show ?thesis
    proof (cases "pending_jobs (jm_of s) = []")
      case False
      then have "will_schedule s0" using room [OF True] by simp
      then show ?thesis using r2(1) s1(6) schedule_running(1) [OF wf0] by (simp add: will_schedule_def)
    next
      case p: True
      then have "\<not> will_schedule s0" using room [OF True] by simp
      then show ?thesis using that s2(3) s1(6) s0(4) p by simp
    qed
  next
    case False
    then show ?thesis using r2(1) s1(6) s0(7) schedule_running(1) [OF wf0] by (auto simp: will_schedule_def)
  qed
  then have "rounds_left s2 = length (all_jobs (jm_of s2))" by (auto simp: rounds_left_def)
  moreover have "length (all_jobs (jm_of s2)) \<le> rounds_left s - 1"
    unfolding len len0 rounds_left_def lens by (cases "running (jm_of s)") auto
  moreover have "irq_round e x s = Some s2" using irq s2(1) by (simp add: irq_round_def)
  ultimately show ?thesis using srv prog r2(2) by (intro exI [of _ s2]) simp
qed

lemma rounds_serve:
  assumes "serving s"
  shows "\<exists>s'. irq_rounds e x n s = Some s' \<and> serving s' \<and> progress s s' \<and>
    (rounds_left s \<le> n \<longrightarrow> rounds_left s' = 0)"
  using assms
proof (induction n arbitrary: s)
  case 0
  then show ?case by (simp add: progress_def)
next
  case (Suc n)
  obtain t where t: "irq_round e x s = Some t" "serving t" "progress s t" "rounds_left t \<le> rounds_left s - 1"
    using round_serves [OF Suc.prems, of e x] by blast
  obtain u where u: "irq_rounds e x n t = Some u" "serving u" "progress t u" "rounds_left t \<le> n \<longrightarrow> rounds_left u = 0"
    using Suc.IH [OF t(2)] by blast
  have "rounds_left t \<le> n" if "rounds_left s \<le> Suc n" using t(4) that by simp
  then show ?case using t u progress_trans [OF t(3) u(3)] by (intro exI [of _ u]) simp
qed

text \<open>C21. Every job is eventually done. With a core that always reports idle and no cancelled job in
  the queues, one interrupt and bottom half for each job in the manager, and one more to
  start the first, empty both queues, and the session job of every one of them has ended.\<close>

theorem interrupts_drain:
  assumes "jobs_ok s" "device_idle s" "1 \<le> max_sched_num (jm_of s)" "\<forall>j \<in> set (all_jobs (jm_of s)). valid_job j"
    and "Suc (length (all_jobs (jm_of s))) \<le> n"
  shows "\<exists>s'. irq_rounds e x n s = Some s' \<and> jobs_ok s' \<and>
    pending_queue (jm_of s') = Some [] \<and> scheduled_queue (jm_of s') = Some [] \<and>
    (\<forall>j \<in> set (all_jobs (jm_of s)). \<exists>sj. h_sjob (hp s') (aj_session_job j) = Some sj \<and> sj_state sj = AIPU_JOB_STATE_END)"
proof -
  have srv: "serving s" using assms by (simp add: serving_def)
  have "rounds_left s \<le> n" using assms(5) by (simp add: rounds_left_def)
  with rounds_serve [OF srv] obtain s' where s': "irq_rounds e x n s = Some s'" "serving s'" "progress s s'" "rounds_left s' = 0"
    by blast
  have ok: "jobs_ok s'" using s'(2) by (simp add: serving_def)
  have "all_jobs (jm_of s') = []" using s'(4) by (simp add: rounds_left_def)
  then have q: "pending_jobs (jm_of s') = []" "scheduled_jobs (jm_of s') = []" by (simp_all add: all_jobs_def)
  have "\<forall>j \<in> set (all_jobs (jm_of s)). job_ended (hp s') (aj_session_job j)"
    using s'(3) unfolding progress_def \<open>all_jobs (jm_of s') = []\<close> by simp
  then show ?thesis using s'(1) ok q jm_wf_heads [OF jobs_okD(2) [OF ok]] unfolding job_ended_def
    by (intro exI [of _ s']) simp
qed

lemma demo_idle: "device_idle (demo_sys es rs ps)"
  by (simp add: device_idle_def demo_sys_def demo_core_def io_valid_def ZHOUYI_STAT_REG_OFFSET_def Let_def bit_numeral_rec)

lemma interrupts_drain_witness:
  "\<exists>s'. irq_rounds (env_ok 0) 0 3 (demo_sys [] [demo_running] [demo_pending]) = Some s' \<and>
    pending_queue (jm_of s') = Some [] \<and> scheduled_queue (jm_of s') = Some []"
  using interrupts_drain [OF demo_ok(2) demo_idle, of 3 "env_ok 0" 0] by (auto simp: all_jobs_def)

subsection \<open>Sequences of calls that reach freed memory\<close>

text \<open>A dangling session of a scheduled job stops the cancellation loop.\<close>

lemma cancel_loop_dangling:
  assumes "jm_wf (jm_of s)" "scheduled_jobs (jm_of s) = ys @ xs" "\<exists>j \<in> set xs. h_sess (hp s) (aj_session j) = None"
  shows "invalidate_canceled_loop e pid s (map aj_ptr xs) = None"
  using assms
proof (induction xs arbitrary: ys s)
  case (Cons j xs)
  have lk: "lookup_aipu_job (aj_ptr j) (jm_of s) = Some j"
    using lookup_job [OF Cons.prems(1)] Cons.prems(2) by (simp add: all_jobs_def)
  show ?case
  proof (cases "h_sess (hp s) (aj_session j)")
    case None
    then show ?thesis using lk by simp
  next
    case (Some st)
    then have d: "\<exists>j \<in> set xs. h_sess (hp s) (aj_session j) = None" using Cons.prems(3) by auto
    let ?ss = "ys @ cancel_running j # xs"
    let ?s = "put_jm (with_queues (pending_jobs (jm_of s)) ?ss (jm_of s)) s"
    have "jm_wf (jm_of ?s)" using with_scheduled_wf [OF Cons.prems(1), of ?ss] Cons.prems(2) by simp
    moreover have "scheduled_jobs (jm_of ?s) = (ys @ [cancel_running j]) @ xs"
      "\<exists>j \<in> set xs. h_sess (hp ?s) (aj_session j) = None" using d by auto
    ultimately have "invalidate_canceled_loop e pid ?s (map aj_ptr xs) = None" by (rule Cons.IH)
    moreover have "invalidate_canceled_loop e pid s (map aj_ptr xs) = None"
      by (rule Cons.IH [OF Cons.prems(1) _ d, of "ys @ [j]"]) (simp add: Cons.prems(2))
    ultimately show ?thesis using lk Some invalidate_scheduled [OF Cons.prems(1,2)] by simp
  qed
qed simp

lemma canceled_split:
  assumes "jm_wf jm" "\<And>j. aj_state (f j) = aj_state j"
    and "scheduled_jobs jm' = map f (scheduled_jobs jm)"
  shows "ended jm' = map f (ended jm)" "running jm' = map f (running jm)"
  unfolding ended_def running_def assms(3) takeWhile_map dropWhile_map by (simp_all add: o_def assms(2))

lemma canceled_jobs:
  assumes "jm_wf jm"
  shows "scheduled_jobs (canceled h pid jm) = map (\<lambda>j. if job_pid h j = pid then cancel_running j else j) (ended jm @ running jm)"
    and "ended (canceled h pid jm) = ended jm"
    and "running (canceled h pid jm) = map (\<lambda>j. if job_pid h j = pid then cancel_running j else j) (running jm)"
proof -
  show "scheduled_jobs (canceled h pid jm) = map (\<lambda>j. if job_pid h j = pid then cancel_running j else j) (ended jm @ running jm)"
    unfolding ended_running(1) [OF assms, symmetric] by (simp add: canceled_def)
  have m: "scheduled_jobs (canceled h pid jm) = map (\<lambda>j. if job_pid h j = pid then cancel_running j else j) (scheduled_jobs jm)"
    by (simp add: canceled_def)
  note s = canceled_split [OF assms _ m]
  have "map (\<lambda>j. if job_pid h j = pid then cancel_running j else j) (ended jm) = ended jm"
    using ended_running(2) [OF assms] by (intro map_idI) (auto simp: cancel_running_def)
  with s show "ended (canceled h pid jm) = ended jm"
    "running (canceled h pid jm) = map (\<lambda>j. if job_pid h j = pid then cancel_running j else j) (running jm)" by simp_all
qed

lemma live_member:
  assumes "jobs_ok s" "j \<in> set (all_jobs (jm_of s))" "valid_job j" "h_sess (hp s) (aj_session j) = Some st"
  shows "aj_session_job j \<in> set (job_list st)" "aj_session_job j \<noteq> 0"
proof -
  have "job_live (hp s) j" using jobs_liveD(2) [OF jobs_okD(3) [OF assms(1)] assms(2,3)] .
  then show "aj_session_job j \<in> set (job_list st)" "aj_session_job j \<noteq> 0"
    using assms(4) heap_wf_null(2) [OF jobs_okD(1) [OF assms(1)]] by (auto simp: job_live_def intro!: gr0I)
qed

lemma running_member: "jm_wf jm \<Longrightarrow> running jm = j # rs \<Longrightarrow> j \<in> set (all_jobs jm)"
  using ended_running(1) [of jm] by (simp add: all_jobs_def)

lemma ended_member: "jm_wf jm \<Longrightarrow> ended jm = j # rs \<Longrightarrow> j \<in> set (all_jobs jm)"
  using ended_running(1) [of jm] by (simp add: all_jobs_def)

text \<open>C40. A close while the session's job runs. The cancellation succeeds and frees the session job,
  but the job stays in the scheduled queue, and the next interrupt asks the freed session
  job whether it is profiled before it looks at the validity flag: the model faults.\<close>

theorem canceled_running_job_faults:
  assumes "jobs_ok s" "cancelable s sp" "running (jm_of s) = j # rs" "valid_job j" "aj_session j = sp"
  shows "\<exists>s1. aipu_job_manager_cancel_session_jobs e s sp = Some (0, s1) \<and>
    aipu_job_manager_update_job_state_irq e' s1 x = None"
proof -
  note wf = jobs_okD(2) [OF assms(1)]
  obtain st where st: "h_sess (hp s) sp = Some st" using assms(2) by (auto simp: cancelable_def)
  have sess: "\<forall>j \<in> set (all_jobs (jm_of s)). h_sess (hp s) (aj_session j) \<noteq> None"
    using assms(2) by (simp add: cancelable_def)
  obtain s1 where s1: "aipu_job_manager_cancel_session_jobs e s sp = Some (0, s1)"
    "jm_of s1 = canceled (hp s) (user_pid st) (jm_of s)"
    "h_sjob (hp s1) = (\<lambda>p. if p \<in> set (job_list st) then None else h_sjob (hp s) p)"
    using cancel_result [OF assms(1) st sess, of e] by blast
  have m: "aj_session_job j \<in> set (job_list st)" "aj_session_job j \<noteq> 0"
    using live_member [OF assms(1) running_member [OF wf assms(3)] assms(4), of st] assms(5) st by simp_all
  let ?f = "\<lambda>j. if job_pid (hp s) j = user_pid st then cancel_running j else j"
  have wf1: "jm_wf (jm_of s1)" using canceled_wf [OF wf] s1(2) by simp
  have q: "scheduled_jobs (jm_of s1) = ended (jm_of s) @ ?f j # map ?f rs"
    using ended_running(1) [OF wf1] canceled_jobs(2,3) [OF wf] assms(3) s1(2) by simp
  have sched: "\<forall>k \<in> set (?f j # map ?f rs). aj_state k = AIPU_JOB_STATE_SCHED"
    using ended_running(3) [OF wf] assms(3) by (auto simp: cancel_running_def)
  have fs: "first_sched (scheduled_jobs (jm_of s1)) = Some (length (ended (jm_of s)))"
    unfolding q using first_sched_append [OF ended_running(2) [OF wf] sched] by simp
  have "is_session_job_prof_enabled (hp s1) (aj_session_job j) = None"
    using m s1(3) by (simp add: is_session_job_prof_enabled_def)
  then have "aipu_job_manager_update_job_state_irq e' s1 x = None"
    using jm_wf_heads(2) [OF wf1] fs
    by (simp add: aipu_job_manager_update_job_state_irq_def q nth_append Let_def cancel_running_def)
  then show ?thesis using s1(1) by blast
qed

lemma canceled_running_job_faults_witness:
  "\<exists>s1. aipu_job_manager_cancel_session_jobs (env_ok 7) (demo_sys [] [demo_running] []) 8 = Some (0, s1) \<and>
    aipu_job_manager_update_job_state_irq (env_ok 0) s1 0 = None"
  using canceled_running_job_faults [OF demo_ok(5) demo_cancelable(2)] by simp

text \<open>A close between the two halves of the interrupt. The job has ended in the upper half, so the
  cancellation leaves it valid and frees its session job; the bottom half then writes to it.\<close>

theorem closed_before_bottom_half_faults:
  assumes "jobs_ok s" "ended (jm_of s) = j # es" "valid_job j" "aj_session j = sp"
    and "\<forall>j \<in> set (all_jobs (jm_of s)). h_sess (hp s) (aj_session j) \<noteq> None"
  shows "\<exists>s1. aipu_job_manager_cancel_session_jobs e s sp = Some (0, s1) \<and>
    aipu_job_manager_update_job_queue_done_irq s1 = None"
proof -
  note wf = jobs_okD(2) [OF assms(1)]
  have jm: "j \<in> set (all_jobs (jm_of s))" by (rule ended_member [OF wf assms(2)])
  then obtain st where st: "h_sess (hp s) sp = Some st" using assms(4,5) by auto
  obtain s1 where s1: "aipu_job_manager_cancel_session_jobs e s sp = Some (0, s1)"
    "jm_of s1 = canceled (hp s) (user_pid st) (jm_of s)"
    "h_sjob (hp s1) = (\<lambda>p. if p \<in> set (job_list st) then None else h_sjob (hp s) p)"
    using cancel_result [OF assms(1) st assms(5), of e] by blast
  have m: "aj_session_job j \<in> set (job_list st)" "aj_session_job j \<noteq> 0" "sp \<noteq> 0"
    using live_member [OF assms(1) jm assms(3), of st] assms(4) st session_null [OF jobs_okD(1) [OF assms(1)] st]
    by simp_all
  have wf1: "jm_wf (jm_of s1)" using canceled_wf [OF wf] s1(2) by simp
  have q: "scheduled_jobs (jm_of s1) = j # es @ running (jm_of s1)"
    using ended_running(1) [OF wf1] canceled_jobs(2) [OF wf] assms(2) s1(2) by simp
  have "aj_state j = AIPU_JOB_STATE_END" using ended_running(2) [OF wf] assms(2) by simp
  moreover have "aipu_session_job_done (hp s1) sp (aj_session_job j) (aj_exception_flag j) = None"
    using m s1(3) by (cases "h_sess (hp s1) sp") (simp_all add: aipu_session_job_done_def)
  ultimately have "queue_done_loop (hp s1) (scheduled_jobs (jm_of s1)) = None"
    using assms(3,4) by (simp add: q valid_job_def)
  then have "aipu_job_manager_update_job_queue_done_irq s1 = None"
    using jm_wf_heads(2) [OF wf1] by (simp add: aipu_job_manager_update_job_queue_done_irq_def)
  then show ?thesis using s1(1) by blast
qed

lemma closed_before_bottom_half_faults_witness:
  "\<exists>s1. aipu_job_manager_cancel_session_jobs (env_ok 7) (demo_sys [demo_ended] [] []) 8 = Some (0, s1) \<and>
    aipu_job_manager_update_job_queue_done_irq s1 = None"
  by (rule closed_before_bottom_half_faults [OF demo_ok(4) demo_queues(5)]) (simp_all add: all_jobs_def)

text \<open>A second close. After a session without buffers was closed while its job ran, the job's
  session pointer dangles; the cancellation of any other session reads through it.\<close>

theorem second_close_faults:
  assumes "jobs_ok s" "cancelable s sp" "running (jm_of s) = j # rs" "aj_session j = sp"
    and "h_sess (hp s) sp = Some st" "sbuf_list st = []" "h_sess (hp s) sq = Some st'" "sq \<noteq> sp"
  shows "\<exists>s1 h. aipu_job_manager_cancel_session_jobs e s sp = Some (0, s1) \<and>
    aipu_destroy_session (hp s1) sp = Some (0, h) \<and>
    aipu_job_manager_cancel_session_jobs e' (put_hp h s1) sq = None"
proof -
  note wf = jobs_okD(2) [OF assms(1)] and hwf = jobs_okD(1) [OF assms(1)]
  have sess: "\<forall>j \<in> set (all_jobs (jm_of s)). h_sess (hp s) (aj_session j) \<noteq> None"
    using assms(2) by (simp add: cancelable_def)
  obtain s1 where s1: "aipu_job_manager_cancel_session_jobs e s sp = Some (0, s1)"
    "jm_of s1 = canceled (hp s) (user_pid st) (jm_of s)" "h_sess (hp s1) = (h_sess (hp s))(sp \<mapsto> st\<lparr>job_list := []\<rparr>)"
    using cancel_result [OF assms(1,5) sess, of e] by blast
  have nz: "sp \<noteq> 0" "sq \<noteq> 0" using session_null [OF hwf] assms(5,7) by simp_all
  define h where "h = (hp s1)\<lparr>h_sess := (h_sess (hp s1))(sp := None)\<rparr>"
  have d: "aipu_destroy_session (hp s1) sp = Some (0, h)"
    using nz s1(3) assms(6) by (simp add: h_def aipu_destroy_session_def is_session_all_jobs_end_def
        is_session_all_buffers_freed_def errcode_defs)
  let ?t = "put_hp h s1" and ?pid = "aipu_get_session_pid st'"
  have hs: "h_sess h p = (if p = sp then None else h_sess (hp s) p)" for p using s1(3) by (simp add: h_def)
  have wft: "jm_wf (jm_of ?t)" using canceled_wf [OF wf] s1(2) by simp
  have own: "job_pid (hp s) k = user_pid st" if "aj_session k = sp" for k using that assms(5) by (simp add: job_pid_def)
  have pq: "\<forall>k \<in> set (pending_jobs (jm_of ?t)). h_sess (hp ?t) (aj_session k) \<noteq> None"
    using sess own hs by (auto simp: s1(2) canceled_def all_jobs_def)
  let ?t' = "put_jm (with_queues ([] @ filter (\<lambda>j. job_pid (hp ?t) j \<noteq> ?pid) (pending_jobs (jm_of ?t))) (scheduled_jobs (jm_of ?t)) (jm_of ?t)) ?t"
  have l1: "invalidate_canceled_loop e' ?pid ?t (map aj_ptr (pending_jobs (jm_of ?t))) = Some ?t'"
    by (rule cancel_pending_loop [OF wft _ pq]) simp
  have "aj_session (if job_pid (hp s) j = user_pid st then cancel_running j else j) = sp" using assms(4) by simp
  then have "\<exists>k \<in> set (scheduled_jobs (jm_of ?t')). h_sess (hp ?t') (aj_session k) = None"
    using canceled_jobs(1) [OF wf, of "hp s" "user_pid st"] s1(2) assms(3) hs by simp
  moreover have "jm_wf (jm_of ?t')" using filter_pending_wf [OF wft] by simp
  ultimately have l2: "invalidate_canceled_loop e' ?pid ?t' (map aj_ptr (scheduled_jobs (jm_of ?t'))) = None"
    by (intro cancel_loop_dangling [where ys = "[]"]) simp_all
  have own2: "h_sess (hp ?t) sq = Some st'" "h_sess (hp ?t') sq = Some st'" using assms(7,8) hs by simp_all
  have i1: "aipu_invalidate_canceled_jobs_no_lock e' ?t (pending_queue (jm_of ?t)) sq = Some ?t'"
    using l1 own2 nz jm_wf_heads(1) [OF wft] put_jm_same [of ?t] with_queues_triv [OF wft]
    by (cases "pending_jobs (jm_of ?t)") (simp_all add: aipu_invalidate_canceled_jobs_no_lock_def)
  have "scheduled_jobs (jm_of ?t') \<noteq> []" using \<open>\<exists>k \<in> set (scheduled_jobs (jm_of ?t')). h_sess (hp ?t') (aj_session k) = None\<close> by auto
  then have i2: "aipu_invalidate_canceled_jobs_no_lock e' ?t' (scheduled_queue (jm_of ?t')) sq = None"
    using l2 own2 nz jm_wf_heads(2) [OF \<open>jm_wf (jm_of ?t')\<close>] by (simp add: aipu_invalidate_canceled_jobs_no_lock_def)
  have "aipu_job_manager_cancel_session_jobs e' ?t sq = None"
    unfolding aipu_job_manager_cancel_session_jobs_def i1 using nz i2 by simp
  then show ?thesis using s1(1) d by blast
qed

lemma second_close_faults_witness:
  "\<exists>s1 h. aipu_job_manager_cancel_session_jobs (env_ok 7) (demo_sys [] [demo_running] []) 8 = Some (0, s1) \<and>
    aipu_destroy_session (hp s1) 8 = Some (0, h) \<and>
    aipu_job_manager_cancel_session_jobs (env_ok 9) (put_hp h s1) 6 = None"
  using second_close_faults [OF demo_ok(5) demo_cancelable(2) demo_queues(1), of "demo_session [] [3, 2]" 6
      "(demo_session [] [])\<lparr>user_pid := 200\<rparr>" "env_ok 7" "env_ok 9"]
  by (simp add: demo_session_def)

text \<open>Sessions are compared by process. Closing one session removes a pending job of another session
  with the same process identifier; its session job stays idle and no job of the manager
  will end it.\<close>

theorem cancel_hits_sibling_session:
  assumes "jobs_ok s" "cancelable s sp" "h_sess (hp s) sp = Some st"
    and "j \<in> set (pending_jobs (jm_of s))" "aj_session j = sq" "sq \<noteq> sp" "h_sess (hp s) sq = Some st'"
    and "user_pid st' = user_pid st"
  shows "\<exists>s1 sj. aipu_job_manager_cancel_session_jobs e s sp = Some (0, s1) \<and> jobs_ok s1 \<and>
    h_sess (hp s1) sq = Some st' \<and> aj_session_job j \<in> set (job_list st') \<and>
    h_sjob (hp s1) (aj_session_job j) = Some sj \<and> sj_state sj = AIPU_JOB_STATE_IDLE \<and>
    aj_session_job j \<notin> aj_session_job ` {k \<in> set (all_jobs (jm_of s1)). valid_job k}"
proof -
  note wf = jobs_okD(2) [OF assms(1)]
  have sess: "\<forall>j \<in> set (all_jobs (jm_of s)). h_sess (hp s) (aj_session j) \<noteq> None"
    and fin: "\<forall>j \<in> set (ended (jm_of s)). valid_job j \<longrightarrow> aj_session j \<noteq> sp"
    using assms(2) by (simp_all add: cancelable_def)
  obtain s1 where s1: "aipu_job_manager_cancel_session_jobs e s sp = Some (0, s1)" "jobs_ok s1"
    "jm_of s1 = canceled (hp s) (user_pid st) (jm_of s)" "h_sess (hp s1) = (h_sess (hp s))(sp \<mapsto> st\<lparr>job_list := []\<rparr>)"
    "h_sjob (hp s1) = (\<lambda>p. if p \<in> set (job_list st) then None else h_sjob (hp s) p)"
    using cancel_result [OF assms(1,3) sess, of e] fin by blast
  have ja: "j \<in> set (all_jobs (jm_of s))" and jv: "valid_job j" and jp: "aj_state j = AIPU_JOB_STATE_PENDING"
    using assms(4) wf by (auto simp: all_jobs_def jm_wf_def)
  have live: "job_live (hp s) j" using jobs_liveD(2) [OF jobs_okD(3) [OF assms(1)] ja jv] .
  then obtain sj where sj: "h_sjob (hp s) (aj_session_job j) = Some sj" "sj_state sj = AIPU_JOB_STATE_IDLE"
    "aj_session_job j \<in> set (job_list st')"
    using assms(5,7) by (auto simp: job_live_def)
  have "set (job_list st) \<inter> set (job_list st') = {}"
    using heap_wfD(5) [OF jobs_okD(1) [OF assms(1)], of sp st sq st'] assms(3,6,7) by blast
  then have keep: "h_sjob (hp s1) (aj_session_job j) = Some sj" using s1(5) sj by auto
  have "aj_session_job j \<noteq> aj_session_job k" if k: "k \<in> set (all_jobs (jm_of s1))" "valid_job k" for k
  proof
    assume e: "aj_session_job j = aj_session_job k"
    obtain i where i: "i \<in> set (all_jobs (jm_of s))" "valid_job i" "aj_session_job i = aj_session_job k" "i \<noteq> j"
    proof (cases "k \<in> set (pending_jobs (jm_of s1))")
      case True
      then have "k \<in> set (pending_jobs (jm_of s))" "job_pid (hp s) k \<noteq> user_pid st" by (simp_all add: s1(3) canceled_def)
      moreover have "job_pid (hp s) j = user_pid st" using assms(5,7,8) by (simp add: job_pid_def)
      ultimately show ?thesis using that [of k] k(2) by (auto simp: all_jobs_def)
    next
      case False
      then obtain i where i: "i \<in> set (scheduled_jobs (jm_of s))" "k = i \<or> k = cancel_running i"
        using k(1) by (auto simp: s1(3) all_jobs_def canceled_def split: if_splits)
      have "aj_state i \<noteq> AIPU_JOB_STATE_PENDING"
        using i(1) ended_running(1-3) [OF wf] by auto
      then have "i \<noteq> j" using jp by auto
      moreover have "valid_job i" "aj_session_job i = aj_session_job k" using i(2) k(2) by auto
      ultimately show ?thesis using that [of i] i(1) by (simp add: all_jobs_def)
    qed
    moreover have "distinct (map aj_session_job (filter valid_job (all_jobs (jm_of s))))"
      using jobs_okD(3) [OF assms(1)] by (simp add: jobs_live_def)
    ultimately show False using ja jv e unfolding distinct_map by (auto simp: inj_on_def)
  qed
  then show ?thesis using s1 sj keep assms(6,7) by (intro exI [of _ s1] exI [of _ sj]) auto
qed

lemma cancel_hits_sibling_session_witness:
  "\<exists>s1 sj. aipu_job_manager_cancel_session_jobs (env_ok 7) (demo_sys [] [demo_running] [demo_pending]) 8 = Some (0, s1) \<and>
    h_sjob (hp s1) 5 = Some sj \<and> sj_state sj = AIPU_JOB_STATE_IDLE \<and> order_of (jm_of s1) = [10]"
proof -
  have "job_pid demo_jobs_heap demo_running = 100" "job_pid demo_jobs_heap demo_pending = 100"
    "user_pid (demo_session [] [3, 2]) = 100" "user_pid (demo_session [] [5]) = 100"
    by (simp_all add: job_pid_def) (simp_all add: demo_session_def)
  moreover obtain s1 sj where s1: "aipu_job_manager_cancel_session_jobs (env_ok 7) (demo_sys [] [demo_running] [demo_pending]) 8 = Some (0, s1)"
    "h_sjob (hp s1) 5 = Some sj" "sj_state sj = AIPU_JOB_STATE_IDLE"
    using cancel_hits_sibling_session [OF demo_ok(2) demo_cancelable(1), of "demo_session [] [3, 2]" demo_pending 4
        "demo_session [] [5]" "env_ok 7"] by (auto simp: demo_session_def)
  moreover have "\<exists>s'. aipu_job_manager_cancel_session_jobs (env_ok 7) (demo_sys [] [demo_running] [demo_pending]) 8 = Some (0, s') \<and>
      jm_of s' = canceled demo_jobs_heap 100 (jm_of (demo_sys [] [demo_running] [demo_pending]))"
    using cancel_result [OF demo_ok(2), of 8 "demo_session [] [3, 2]" "env_ok 7"] calculation(3) by (auto simp: all_jobs_def)
  ultimately show ?thesis by (auto simp: canceled_def order_of_def all_jobs_def)
qed

end
