(* ===== verification/Irq.thy ===== *)
theory Irq
  imports JobQueue
begin

text \<open>
  Interrupt handling: the two halves of each hardware version (\<open>z1.c\<close>, \<open>z2.c\<close>) and the
  handlers registered with the kernel (\<open>aipu_irq.c\<close>). The upper half runs with the
  spinlock's protection as one step; the bottom half runs later, from the work queue.
\<close>

definition schedule_work :: "aipu_core \<Rightarrow> sys \<Rightarrow> sys option" where
  "schedule_work core s =
     map_option (\<lambda>q. s\<lparr>work_queued := q\<rparr>) (aipu_irq_schedulework (core_irq_obj core) (work_queued s))"

subsection \<open>Version 1\<close>

text \<open>The interrupt cause register is read before the job manager's lock is taken.\<close>

definition zhouyi_v1_upper_half :: "kenv \<Rightarrow> sys \<Rightarrow> (int \<times> sys) option" where
  "zhouyi_v1_upper_half e s =
     (case core0 (priv s) of
        None \<Rightarrow> Some (AIPU_ERRCODE_INTERNAL_NULLPTR, s)
      | Some core \<Rightarrow> do {
          let s1 = exec_io (zhouyi_v1_disable_interrupt (Some core)) s;
          read_status \<leftarrow> zhouyi_v1_read_status_reg (Some core);
          let (ret, s2) = run_io read_status s1;
          let s3 = (if ret AND ZHOUYI_IRQ_QEMPTY \<noteq> 0
                    then exec_io (zhouyi_v1_clear_qempty_interrupt (Some core)) s2 else s2);
          s4 \<leftarrow> (if ret AND ZHOUYI_IRQ_DONE \<noteq> 0
                 then do {
                   s' \<leftarrow> aipu_job_manager_update_job_state_irq e
                          (exec_io (zhouyi_v1_clear_done_interrupt (Some core)) s3) 0;
                   schedule_work core s'
                 }
                 else Some s3);
          s5 \<leftarrow> (if ret AND ZHOUYI_IRQ_EXCEP \<noteq> 0
                 then do {
                   let (cause, s') = run_io (aipu_read32 (core_base0 core) ZHOUYI_INTR_CAUSE_REG_OFFSET)
                          (exec_io (zhouyi_v1_clear_excep_interrupt (Some core)) s4);
                   s'' \<leftarrow> aipu_job_manager_update_job_state_irq e s' (sint cause);
                   schedule_work core s''
                 }
                 else Some s4);
          Some (AIPU_ERRCODE_NO_ERROR, exec_io (zhouyi_v1_enable_interrupt (Some core)) s5)
        })"

definition zhouyi_v1_bottom_half :: "sys \<Rightarrow> sys option" where
  "zhouyi_v1_bottom_half s = aipu_job_manager_update_job_queue_done_irq s"

subsection \<open>Version 2\<close>

definition zhouyi_v2_upper_half :: "kenv \<Rightarrow> sys \<Rightarrow> (int \<times> sys) option" where
  "zhouyi_v2_upper_half e s =
     (case core0 (priv s) of
        None \<Rightarrow> Some (AIPU_ERRCODE_INTERNAL_NULLPTR, s)
      | Some core \<Rightarrow> do {
          let s1 = exec_io (zhouyi_v2_disable_interrupt (Some core)) s;
          let (ret, s2) = run_io (zhouyi_v2_read_status_reg (Some core)) s1;
          let s3 = (if ret AND ZHOUYI_IRQ_QEMPTY \<noteq> 0
                    then exec_io (zhouyi_v2_clear_qempty_interrupt (Some core)) s2 else s2);
          s4 \<leftarrow> (if ret AND ZHOUYI_IRQ_DONE \<noteq> 0
                 then do {
                   s' \<leftarrow> aipu_job_manager_update_job_state_irq e
                          (exec_io (zhouyi_v2_clear_done_interrupt (Some core)) s3) 0;
                   schedule_work core s'
                 }
                 else Some s3);
          s5 \<leftarrow> (if ret AND ZHOUYI_IRQ_EXCEP \<noteq> 0
                 then do {
                   s' \<leftarrow> aipu_job_manager_update_job_state_irq e
                          (exec_io (zhouyi_v2_clear_excep_interrupt (Some core)) s4) 1;
                   schedule_work core s'
                 }
                 else Some s4);
          let s6 = (if ret AND ZHOUYI_IRQ_FAULT \<noteq> 0
                    then exec_io (zhouyi_v2_clear_fault_interrupt (Some core)) s5 else s5);
          Some (AIPU_ERRCODE_NO_ERROR, exec_io (zhouyi_v2_enable_interrupt (Some core)) s6)
        })"

definition zhouyi_v2_bottom_half :: "sys \<Rightarrow> sys option" where
  "zhouyi_v2_bottom_half s = aipu_job_manager_update_job_queue_done_irq s"

subsection \<open>The registered handlers\<close>

datatype irqreturn_t = IRQ_NONE | IRQ_HANDLED

text \<open>
  The handlers are reached through the interrupt object of the core; a missing core, a
  missing object or a handler that is not stored yet is a memory fault.
\<close>

definition aipu_irq_handler_upper_half :: "kenv \<Rightarrow> sys \<Rightarrow> (irqreturn_t \<times> sys) option" where
  "aipu_irq_handler_upper_half e s = do {
     core \<leftarrow> core0 (priv s);
     irq_obj \<leftarrow> core_irq_obj core;
     uhandler \<leftarrow> oq_uhandler irq_obj;
     (ret, s') \<leftarrow> (case uhandler of
                     Zhouyi_v1_ops \<Rightarrow> zhouyi_v1_upper_half e s
                   | Zhouyi_v2_ops \<Rightarrow> zhouyi_v2_upper_half e s);
     Some (if ret \<noteq> AIPU_ERRCODE_NO_ERROR then IRQ_NONE else IRQ_HANDLED, s')
   }"

text \<open>The work item is taken off the queue, then its function runs.\<close>

definition aipu_irq_handler_bottom_half :: "sys \<Rightarrow> sys option" where
  "aipu_irq_handler_bottom_half s = do {
     core \<leftarrow> core0 (priv s);
     irq_obj \<leftarrow> core_irq_obj core;
     bhandler \<leftarrow> oq_uhandler irq_obj;
     let s1 = s\<lparr>work_queued := False\<rparr>;
     (case bhandler of
        Zhouyi_v1_ops \<Rightarrow> zhouyi_v1_bottom_half s1
      | Zhouyi_v2_ops \<Rightarrow> zhouyi_v2_bottom_half s1)
   }"

end
