(* ===== verification/Fops.thy ===== *)
theory Fops
  imports Irq
begin

text \<open>
  The file operations of the device node (\<open>aipu_fops.c\<close>): open, release, ioctl, mmap and
  poll. The private data of an open file is its session pointer; the user memory an
  ioctl reads and writes is its argument, returned as the call leaves it. A failed
  \<open>copy_to_user\<close> leaves it as it was in the model.
\<close>

definition aipu_open :: "kenv \<Rightarrow> sys \<Rightarrow> (int \<times> sys \<times> ptr) option" where
  "aipu_open e s = do {
     (ret, session, h) \<leftarrow> aipu_create_session e (hp s) (cur_tid e);
     if ret \<noteq> 0 then Some (ret, put_hp h s, NULL) else Some (ret, put_hp h s, session)
   }"

definition aipu_release :: "kenv \<Rightarrow> sys \<Rightarrow> ptr \<Rightarrow> (int \<times> sys) option" where
  "aipu_release e s session =
     (if session = NULL then Some (map_errcode AIPU_ERRCODE_INTERNAL_NULLPTR, s)
      else do {
        (ret, s1) \<leftarrow> aipu_job_manager_cancel_session_jobs e s session;
        if ret \<noteq> AIPU_ERRCODE_NO_ERROR then Some (ret, s1)
        else do {
          sess \<leftarrow> h_sess (hp s1) session;
          let (ret2, m, sess') = aipu_mm_free_session_buffers (mm (priv s1)) sess;
          let s2 = put_mm m (put_hp (put_session session sess' (hp s1)) s1);
          if ret2 \<noteq> AIPU_ERRCODE_NO_ERROR then Some (ret2, s2)
          else do {
            (ret3, h) \<leftarrow> aipu_destroy_session (hp s2) session;
            Some (ret3, put_hp h s2)
          }
        }
      })"

subsection \<open>The ioctl commands\<close>

datatype ioctl_arg =
    IPUIOC_QUERYCAP aipu_cap
  | IPUIOC_REQBUF buf_request
  | IPUIOC_RUNJOB user_job
  | IPUIOC_KILL_TIMEOUT_JOB u32
  | IPUIOC_FREEBUF buf_desc
  | IPUIOC_REQSHMMAP u64
  | IPUIOC_REQIO aipu_io_req
  | IPUIOC_QUERYSTATUS job_status_query
  | IPUIOC_UNKNOWN

text \<open>\<open>copy_to_user\<close> of a whole argument, and how its result joins the result so far.\<close>

definition to_user :: "kenv \<Rightarrow> ioctl_arg \<Rightarrow> ioctl_arg \<Rightarrow> ioctl_arg" where
  "to_user e old new = (if ctu_left e = 0 then new else old)"

definition merge_copy :: "kenv \<Rightarrow> int \<Rightarrow> int" where
  "merge_copy e ret = (if ret = AIPU_ERRCODE_NO_ERROR \<and> ctu_left e \<noteq> AIPU_ERRCODE_NO_ERROR then ctu_left e else ret)"

definition ioctl_querycap :: "kenv \<Rightarrow> sys \<Rightarrow> aipu_cap \<Rightarrow> (int \<times> sys \<times> ioctl_arg) option" where
  "ioctl_querycap e s ucap =
     (let ((_, cap), s1) = run_io (aipu_priv_query_capability (priv s) ucap) s
      in Some (merge_copy e 0, s1, to_user e (IPUIOC_QUERYCAP ucap) (IPUIOC_QUERYCAP cap)))"

definition ioctl_reqbuf :: "kenv \<Rightarrow> sys \<Rightarrow> ptr \<Rightarrow> buf_request \<Rightarrow> (int \<times> sys \<times> ioctl_arg) option" where
  "ioctl_reqbuf e s session ureq = do {
     (ret, m, req, buf) \<leftarrow> aipu_mm_alloc e (mm (priv s)) ureq zero_buffer;
     let s1 = put_mm m s;
     (ret', s2, req') \<leftarrow>
       (if ret = AIPU_ERRCODE_NO_ERROR then do {
          sess \<leftarrow> h_sess (hp s1) session;
          let (r, sess', q) = aipu_session_add_buf e sess req buf;
          Some (r, put_hp (put_session session sess' (hp s1)) s1, q)
        }
        else Some (ret, s1, req));
     Some (merge_copy e ret', s2, to_user e (IPUIOC_REQBUF ureq) (IPUIOC_REQBUF req'))
   }"

definition ioctl_runjob :: "kenv \<Rightarrow> sys \<Rightarrow> ptr \<Rightarrow> user_job \<Rightarrow> (int \<times> sys \<times> ioctl_arg) option" where
  "ioctl_runjob e s session ujob = do {
     (kern_job, h, ujob1) \<leftarrow> aipu_session_add_job e (hp s) session ujob;
     let s1 = put_hp h s;
     (ret, s2, ujob2) \<leftarrow>
       (if kern_job = NULL then Some (AIPU_ERRCODE_NO_ERROR, s1, ujob1)
        else aipu_job_manager_schedule_new_job e s1 ujob1 kern_job session);
     Some (merge_copy e ret, s2, to_user e (IPUIOC_RUNJOB ujob) (IPUIOC_RUNJOB ujob2))
   }"

definition ioctl_freebuf :: "sys \<Rightarrow> ptr \<Rightarrow> buf_desc \<Rightarrow> (int \<times> sys) option" where
  "ioctl_freebuf s session desc = do {
     sess \<leftarrow> h_sess (hp s) session;
     let (ret, sess') = aipu_session_detach_buf sess desc;
     let s1 = put_hp (put_session session sess' (hp s)) s;
     if ret \<noteq> AIPU_ERRCODE_NO_ERROR then Some (ret, s1)
     else (let (ret2, m) = aipu_mm_free (mm (priv s1)) desc in Some (ret2, put_mm m s1))
   }"

definition ioctl_reqio :: "kenv \<Rightarrow> sys \<Rightarrow> aipu_io_req \<Rightarrow> (int \<times> sys \<times> ioctl_arg) option" where
  "ioctl_reqio e s ureq = do {
     m \<leftarrow> aipu_priv_io_rw (priv s) ureq;
     let (io_req, s1) = run_io m s;
     Some (ctu_left e, s1, to_user e (IPUIOC_REQIO ureq) (IPUIOC_REQIO io_req))
   }"

text \<open>The entries of the status array are copied by the session, the query itself here.\<close>

definition ioctl_querystatus :: "kenv \<Rightarrow> sys \<Rightarrow> ptr \<Rightarrow> job_status_query \<Rightarrow> (int \<times> sys \<times> ioctl_arg) option" where
  "ioctl_querystatus e s session uq = do {
     (ret, h, q) \<leftarrow> aipu_session_get_job_status e (hp s) session uq;
     let s1 = put_hp h s;
     if ret = AIPU_ERRCODE_NO_ERROR
     then Some (ctu_left e, s1, to_user e (IPUIOC_QUERYSTATUS uq) (IPUIOC_QUERYSTATUS q))
     else Some (ret, s1, IPUIOC_QUERYSTATUS uq)
   }"

text \<open>
  Every command that reads its argument first copies it in; a failed copy is returned as
  the number of bytes left.
\<close>

definition aipu_ioctl :: "kenv \<Rightarrow> sys \<Rightarrow> ptr \<Rightarrow> ioctl_arg \<Rightarrow> (int \<times> sys \<times> ioctl_arg) option" where
  "aipu_ioctl e s session arg =
     (if session = NULL then Some (map_errcode AIPU_ERRCODE_INTERNAL_NULLPTR, s, arg)
      else
        (case arg of
           IPUIOC_REQSHMMAP _ \<Rightarrow> Some (ctu_left e, s, to_user e arg (IPUIOC_REQSHMMAP (host_to_aipu_map (priv s))))
         | IPUIOC_UNKNOWN \<Rightarrow> Some (- ENOTTY, s, arg)
         | _ \<Rightarrow>
             if cfu_left e \<noteq> AIPU_ERRCODE_NO_ERROR then Some (cfu_left e, s, arg)
             else
               (case arg of
                  IPUIOC_QUERYCAP cap \<Rightarrow> ioctl_querycap e s cap
                | IPUIOC_REQBUF req \<Rightarrow> ioctl_reqbuf e s session req
                | IPUIOC_RUNJOB ujob \<Rightarrow> ioctl_runjob e s session ujob
                | IPUIOC_KILL_TIMEOUT_JOB jid \<Rightarrow>
                    map_option (\<lambda>(ret, s'). (ret, s', arg)) (aipu_invalidate_timeout_job e s jid)
                | IPUIOC_FREEBUF desc \<Rightarrow> map_option (\<lambda>(ret, s'). (ret, s', arg)) (ioctl_freebuf s session desc)
                | IPUIOC_REQIO req \<Rightarrow> ioctl_reqio e s req
                | IPUIOC_QUERYSTATUS q \<Rightarrow> ioctl_querystatus e s session q
                | _ \<Rightarrow> Some (- ENOTTY, s, arg))))"

subsection \<open>Mapping and polling\<close>

definition aipu_mmap :: "kenv \<Rightarrow> sys \<Rightarrow> ptr \<Rightarrow> vm_area_struct \<Rightarrow> (int \<times> sys \<times> (u64 \<times> u64) option) option" where
  "aipu_mmap e s session vma =
     (if session = NULL then Some (map_errcode AIPU_ERRCODE_INTERNAL_NULLPTR, s, None)
      else do {
        sess \<leftarrow> h_sess (hp s) session;
        let (ret, sess', mapped) = aipu_session_mmap_buf e sess vma;
        Some (ret, put_hp (put_session session sess' (hp s)) s, mapped)
      })"

text \<open>The mask \<open>POLLIN | POLLRDNORM\<close>.\<close>

definition POLL_READY :: u32 where "POLL_READY = 0x41"

definition aipu_poll :: "kenv \<Rightarrow> sys \<Rightarrow> ptr \<Rightarrow> (u32 \<times> sys) option" where
  "aipu_poll e s session =
     (if session = NULL then Some (0, s)
      else do {
        h \<leftarrow> aipu_session_add_poll_wait_queue (hp s) session (cur_tid e);
        r \<leftarrow> aipu_session_thread_has_end_job h session (cur_tid e);
        Some (if r \<noteq> 0 then POLL_READY else 0, put_hp h s)
      })"

end
