(* ===== verification/HwSpec.thy ===== *)
theory HwSpec
  imports JobManagerSpec Fops
begin

text \<open>
  The properties of the hardware side: the register writes that start a job, the sizes of
  the address windows, the scheduler down to the device, and the interrupt handlers against
  the job manager.
\<close>

subsection \<open>Register writes\<close>

lemma io_valid_le: "io_valid r b \<Longrightarrow> a \<le> b \<Longrightarrow> io_valid r a"
  by (auto simp: io_valid_def split: option.splits)

text \<open>A list of 32-bit writes at offsets of a region.\<close>

fun write_all :: "io_region option \<Rightarrow> (u64 \<times> u32) list \<Rightarrow> (mmio, unit) state" where
  "write_all io [] = State_Monad.return ()"
| "write_all io ((off, v) # ws) = do { aipu_write32 io off v; write_all io ws }"

abbreviation writes_at :: "io_region option \<Rightarrow> (u64 \<times> u32) list \<Rightarrow> io_event list" where
  "writes_at io ws \<equiv> map (\<lambda>(off, v). IoWrite 4 (io_addr io off) v) ws"

lemma run_write_all:
  "\<forall>w \<in> set ws. io_valid io (fst w) \<Longrightarrow>
   run_state (write_all io ws) m = ((), m\<lparr>io_log := io_log m @ writes_at io ws\<rparr>)"
  by (induction io ws arbitrary: m rule: write_all.induct) (simp_all add: run_write32)

definition trigger_data :: "u32 \<Rightarrow> u32 \<Rightarrow> u32 \<Rightarrow> (u64 \<times> u32) list" where
  "trigger_data d0 d1 pc = [(0x14, d0), (0x18, d1), (0xC, pc)]"

text \<open>What the three windows are set to: control word, high and low base of each.\<close>

definition trigger_windows :: "user_job_desc \<Rightarrow> (u64 \<times> u32) list" where
  "trigger_windows d =
     (if enable_asid d \<noteq> 0
      then [(0xC0, 0xC0000000 OR ZHOUYI_V2_ASE_CTRL_SIZE (ase0_end d - ase0_start d)), (0xC4, high32 (ase0_start d)), (0xC8, 0),
            (0xCC, 0x80000000 OR ZHOUYI_V2_ASE_CTRL_SIZE (ucast (static_size d))), (0xD0, high32 (static_addr d)),
            (0xD4, low32 (static_addr d)),
            (0xD8, 0xC0000000 OR ZHOUYI_V2_ASE_CTRL_SIZE (ucast (reuse_size d))), (0xDC, high32 (reuse_addr d)),
            (0xE0, low32 (reuse_addr d))]
      else [(0xC0, 0xC0000000), (0xC4, high32 (start_pc_addr d)), (0xC8, 0),
            (0xCC, 0xC0000000), (0xD0, high32 (start_pc_addr d)), (0xD4, 0),
            (0xD8, 0xC0000000), (0xDC, high32 (start_pc_addr d)), (0xE0, 0)])"

definition trigger_writes :: "aipu_io_operation \<Rightarrow> user_job_desc \<Rightarrow> (u64 \<times> u32) list" where
  "trigger_writes ops d =
     (case ops of
        Zhouyi_v1_ops \<Rightarrow>
          trigger_data (low32 (data_0_addr d)) (low32 (data_1_addr d)) (low32 (intr_handler_addr d)) @
          [(0x8, low32 (start_pc_addr d) OR 0xD)]
      | Zhouyi_v2_ops \<Rightarrow>
          (let b = (if enable_asid d \<noteq> 0 then ase0_start d else 0)
           in trigger_data (low32 (data_0_addr d - b)) (low32 (data_1_addr d - b)) (low32 (intr_handler_addr d - b)) @
              trigger_windows d @ [(0x8, low32 (start_pc_addr d - b) OR 0xD)]))"

lemma trigger_offsets: "w \<in> set (trigger_writes ops d) \<Longrightarrow> fst w \<le> 0xE0"
  by (cases ops; cases "enable_asid d = 0")
     (auto simp: trigger_writes_def trigger_data_def trigger_windows_def Let_def)

lemma trigger_valid:
  assumes "io_valid (core_base0 c) 0xE0"
  shows "\<forall>w \<in> set (trigger_writes ops d). io_valid (core_base0 c) (fst w)"
  using trigger_offsets io_valid_le [OF assms] by blast

lemma trigger_is_write_all:
  "core0 p = Some c \<Longrightarrow>
   aipu_priv_trigger p d = State_Monad.bind (write_all (core_base0 c) (trigger_writes (core_ctrl p) d))
     (\<lambda>_. State_Monad.return 0)"
  by (cases "core_ctrl p")
     (auto simp: aipu_priv_trigger_def zhouyi_v1_trigger_def zhouyi_v2_trigger_def trigger_writes_def trigger_data_def
        trigger_windows_def write_ase_def zhouyi_reg_defs z2_defs errcode_defs low32_def Let_def)

text \<open>C36. Starting a job. With a register region that reaches the last window register, the trigger
  appends exactly the specified writes to the device log: the data addresses and the
  interrupt handler, on version 2 the three windows, and the start register, whose write
  starts the core, as the last one.\<close>

theorem trigger_spec:
  assumes "core0 (priv s) = Some c" "io_valid (core_base0 c) 0xE0"
  shows "run_io (aipu_priv_trigger (priv s) d) s =
      (0, s\<lparr>dev_io := (dev_io s)\<lparr>io_log := io_log (dev_io s) @ writes_at (core_base0 c) (trigger_writes (core_ctrl (priv s)) d)\<rparr>\<rparr>) \<and>
    fst (last (trigger_writes (core_ctrl (priv s)) d)) = 0x8 \<and>
    0x8 \<notin> fst ` set (butlast (trigger_writes (core_ctrl (priv s)) d))"
proof -
  note v = trigger_valid [OF assms(2), of "core_ctrl (priv s)" d]
  have "fst (last (trigger_writes ops d)) = 0x8 \<and> 0x8 \<notin> fst ` set (butlast (trigger_writes ops d))" for ops
    by (cases ops) (auto simp: trigger_writes_def trigger_data_def trigger_windows_def Let_def butlast_append)
  then show ?thesis
    by (simp add: run_io_def trigger_is_write_all [OF assms(1)] run_write_all [OF v])
qed

lemma trigger_spec_witness:
  "snd (run_io (aipu_priv_trigger (priv (demo_sys [] [] [])) zero_job_desc) (demo_sys [] [] [])) =
     (demo_sys [] [] [])\<lparr>dev_io := \<lparr>io_dev = (\<lambda>_ _. 0x70000),
       io_log = [IoWrite 4 0x60000014 0, IoWrite 4 0x60000018 0, IoWrite 4 0x6000000C 0, IoWrite 4 0x60000008 0xD]\<rparr>\<rparr>"
  using trigger_spec [of "demo_sys [] [] []" demo_core zero_job_desc]
  by (simp add: demo_sys_def demo_core_def io_valid_def io_addr_def trigger_writes_def trigger_data_def low32_def
      zero_job_desc_def)

subsection \<open>The scheduler on the device\<close>









subsection \<open>The size of a window\<close>

lemma ctrl_size_exp:
  assumes "max 4096 (roundup_pow_of_two v) = 2 ^ k" "drop_bit 12 (2 ^ k :: u64) = 2 ^ (k - 12)"
    and "ilog2 (2 ^ (k - 12)) = int (k - 12)" "12 \<le> k"
  shows "ZHOUYI_V2_ASE_CTRL_SIZE v = of_nat (k - 11)"
proof -
  have "int (k - 12) + 1 = int (k - 11)" using assms(4) by linarith
  then have "ZHOUYI_V2_ASE_CTRL_SIZE v = word_of_int (int (k - 11))"
    unfolding ZHOUYI_V2_ASE_CTRL_SIZE_def assms(1-3) by (rule arg_cong)
  then show ?thesis by simp
qed

text \<open>The size field of a window. For a size of at least one page and at most \<open>2 ^ 62\<close> bytes the
  field \<open>k\<close> stands for \<open>2 ^ (k + 11)\<close> bytes, the least power of two that covers the size;
  it fits the bits below the enable bits.\<close>

theorem ase_ctrl_size_covers:
  assumes "4096 \<le> unat v" "unat v \<le> 2 ^ 62"
  shows "\<exists>k. ZHOUYI_V2_ASE_CTRL_SIZE v = of_nat k \<and> 1 \<le> k \<and> k \<le> 51 \<and>
    unat v \<le> 2 ^ (k + 11) \<and> 2 ^ (k + 11) < 2 * unat v"
proof -
  have le63: "unat v \<le> 2 ^ 63" using assms(2) by (rule order_trans) simp
  have gt: "1 < unat v" using assms(1) by simp
  obtain k where k: "k \<le> 63" "roundup_pow_of_two v = 2 ^ k" "unat v \<le> 2 ^ k" "2 ^ k < 2 * unat v"
    using roundup_pow2_bounds [OF gt le63] by blast
  have "2 * unat v \<le> 2 * 2 ^ 62" using assms(2) by (rule mult_le_mono2)
  also have "\<dots> = 2 ^ 63" by simp
  finally have "(2 :: nat) ^ k < 2 ^ 63" using k(4) by (rule order.strict_trans2 [rotated])
  then have "k < 63" by (rule power_less_imp_less_exp [rotated]) simp
  then have k62: "k \<le> 62" by simp
  have "(2 :: nat) ^ 12 \<le> unat v" using assms(1) by simp
  then have "(2 :: nat) ^ 12 \<le> 2 ^ k" using k(3) by (rule order_trans)
  then have k12: "12 \<le> k" by (rule power_le_imp_le_exp [rotated]) simp
  have u: "unat (2 ^ k :: u64) = 2 ^ k" using k(1) by (intro unat_exp_u64) simp
  have "(4096 :: u64) \<le> 2 ^ k"
    unfolding word_le_nat_alt u using \<open>(2 :: nat) ^ 12 \<le> 2 ^ k\<close> by simp
  then have "max 4096 (roundup_pow_of_two v) = 2 ^ k" unfolding k(2) by (rule max_absorb2)
  moreover have "drop_bit 12 (2 ^ k :: u64) = 2 ^ (k - 12)"
    using k12 k(1) by (intro bit_word_eqI) (auto simp: bit_simps)
  moreover have "ilog2 (2 ^ (k - 12)) = int (k - 12)"
  proof -
    have "unat (2 ^ (k - 12) :: u64) = 2 ^ (k - 12)" using k(1) by (intro unat_exp_u64) simp
    then show ?thesis by (simp add: ilog2_def fls64_def floorlog_def)
  qed
  ultimately have "ZHOUYI_V2_ASE_CTRL_SIZE v = of_nat (k - 11)" using k12 by (intro ctrl_size_exp) 
  moreover have "k - 11 + 11 = k" "1 \<le> k - 11" "k - 11 \<le> 51" using k12 k62 by linarith+
  ultimately show ?thesis using k(3,4) by (intro exI [of _ "k - 11"]) (simp only: simp_thms)
qed

lemma ase_ctrl_size_covers_witness:
  "\<exists>k. ZHOUYI_V2_ASE_CTRL_SIZE 0x2800 = of_nat k \<and> 1 \<le> k \<and> k \<le> 51 \<and> 0x2800 \<le> (2 :: nat) ^ (k + 11) \<and>
     (2 :: nat) ^ (k + 11) < 0x5000"
proof -
  have u: "unat (0x2800 :: u64) = 0x2800" by simp
  have d: "2 * 0x2800 = (0x5000 :: nat)" by simp
  have le: "4096 \<le> (0x2800 :: nat)" "(0x2800 :: nat) \<le> 2 ^ 62" by simp_all
  show ?thesis by (rule ase_ctrl_size_covers [of "0x2800", unfolded u d, OF le])
qed

text \<open>C0. Window 0 starts at the wrong address. The program counters are offsets from the lowest of the
  three addresses, but the low base of the window is written as 0: for code at
  \<open>0x100400000\<close> the core starts at \<open>0x100000000\<close>.\<close>

definition demo_asid_job :: user_job_desc where
  "demo_asid_job = zero_job_desc\<lparr>enable_asid := 1, start_pc_addr := 0x100400000, data_0_addr := 0x100500000,
     data_1_addr := 0x100600000\<rparr>"

definition demo_sys_v2 :: sys where
  "demo_sys_v2 = (demo_sys [] [] [])\<lparr>priv := (priv (demo_sys [] [] []))\<lparr>core_ctrl := Zhouyi_v2_ops\<rparr>\<rparr>"

theorem ase0_low_base_dropped:
  "start_pc_addr demo_asid_job = 0x100400000 \<and>
   {IoWrite 4 0x600000C4 1, IoWrite 4 0x600000C8 0} \<subseteq>
     set (io_log (dev_io (exec_io (aipu_priv_trigger (priv demo_sys_v2) demo_asid_job) demo_sys_v2))) \<and>
   last (io_log (dev_io (exec_io (aipu_priv_trigger (priv demo_sys_v2) demo_asid_job) demo_sys_v2))) =
     IoWrite 4 0x60000008 (0 OR 0xD)"
proof -
  have c: "core0 (priv demo_sys_v2) = Some demo_core" "core_ctrl (priv demo_sys_v2) = Zhouyi_v2_ops"
    by (simp_all add: demo_sys_v2_def demo_sys_def)
  have r: "io_valid (core_base0 demo_core) 0xE0" by (simp add: demo_core_def io_valid_def)
  note v = trigger_valid [OF r, of Zhouyi_v2_ops demo_asid_job]
  have b: "ase0_start demo_asid_job = 0x100400000" by (simp add: ase0_start_def demo_asid_job_def min_def)
  have w: "(0xC4, 1) \<in> set (trigger_writes Zhouyi_v2_ops demo_asid_job)"
    "(0xC8, 0) \<in> set (trigger_writes Zhouyi_v2_ops demo_asid_job)"
    "trigger_writes Zhouyi_v2_ops demo_asid_job \<noteq> []"
    "last (trigger_writes Zhouyi_v2_ops demo_asid_job) = (0x8, 0 OR 0xD)"
    using b by (simp_all add: trigger_writes_def trigger_data_def trigger_windows_def Let_def high32_def low32_def)
      (simp_all add: demo_asid_job_def)
  have log: "io_log (dev_io (exec_io (aipu_priv_trigger (priv demo_sys_v2) demo_asid_job) demo_sys_v2)) =
      io_log (dev_io demo_sys_v2) @ writes_at (core_base0 demo_core) (trigger_writes Zhouyi_v2_ops demo_asid_job)"
    using trigger_is_write_all [OF c(1), of demo_asid_job] c(2) by (simp add: exec_io_def run_io_def run_write_all [OF v])
  have a: "io_addr (core_base0 demo_core) off = 0x60000000 + off" for off by (simp add: demo_core_def io_addr_def)
  have "IoWrite 4 (io_addr (core_base0 demo_core) (fst x)) (snd x) \<in> set (writes_at (core_base0 demo_core) ws)"
    if "x \<in> set ws" for x ws using that by (auto simp: image_iff split: prod.split)
  from this [OF w(1)] this [OF w(2)] show ?thesis
    unfolding log using w(3,4) by (simp add: a last_map demo_asid_job_def)
qed

text \<open>Register requests are checked by their first byte only. A write of a user at the last offset
  of the 256-byte register region is carried out and touches three bytes behind it.\<close>

theorem reqio_crosses_region:
  "\<exists>s' arg. aipu_ioctl (env_ok 7) (demo_sys [] [] []) 8
      (IPUIOC_REQIO \<lparr>io_offset = 0xFF, io_rw = AIPU_IO_WRITE, io_value = 1, io_errcode = 0\<rparr>) = Some (0, s', arg) \<and>
    map_option (\<lambda>c. map_option (\<lambda>r. ir_kern r + ucast (ir_size r)) (core_base0 c)) (core0 (priv s')) = Some (Some 0x60000100) \<and>
    io_log (dev_io s') = [IoWrite 4 0x600000FF 1]"
proof -
  have "aipu_priv_io_rw (priv (demo_sys [] [] [])) \<lparr>io_offset = 0xFF, io_rw = AIPU_IO_WRITE, io_value = 1, io_errcode = 0\<rparr> =
      Some (State_Monad.bind (aipu_write32 (core_base0 demo_core) 0xFF 1)
        (\<lambda>_. State_Monad.return \<lparr>io_offset = 0xFF, io_rw = AIPU_IO_WRITE, io_value = 1, io_errcode = 0\<rparr>))"
    by (simp add: aipu_priv_io_rw_def demo_sys_def demo_core_def zhouyi_v1_io_rw_def zhouyi_io_rw_def AIPU_IO_READ_def
        AIPU_IO_WRITE_def errcode_defs)
  then show ?thesis
    by (simp add: aipu_ioctl_def ioctl_reqio_def env_ok_def errcode_defs to_user_def run_io_def run_write32
        demo_core_def io_valid_def io_addr_def demo_sys_def)
qed

subsection \<open>Interrupt handlers\<close>

text \<open>A stretch of the upper half between the writes that mask and unmask the interrupt.\<close>

definition irq_part :: "sys \<Rightarrow> sys \<Rightarrow> bool \<Rightarrow> bool" where
  "irq_part s s' done \<longleftrightarrow> irq_ready s' \<and> dev_step s s' \<and> order_of (jm_of s') = order_of (jm_of s) \<and>
     same_jobs (hp s) (hp s') \<and> priv s' = (priv s)\<lparr>job_manager := jm_of s'\<rparr> \<and>
     (work_queued s' \<longleftrightarrow> work_queued s \<or> done)"

lemma irq_part_trans:
  assumes "irq_part s t a" "irq_part t u b"
  shows "irq_part s u (a \<or> b)"
proof -
  have "priv u = (priv t)\<lparr>job_manager := jm_of u\<rparr>" using assms(2) by (simp add: irq_part_def)
  also have "priv t = (priv s)\<lparr>job_manager := jm_of t\<rparr>" using assms(1) by (simp add: irq_part_def)
  finally have "priv u = (priv s)\<lparr>job_manager := jm_of u\<rparr>" by simp
  moreover have "dev_step s u" using assms dev_step_trans by (simp add: irq_part_def) blast
  moreover have "same_jobs (hp s) (hp u)" using assms same_jobs_trans by (simp add: irq_part_def) blast
  ultimately show ?thesis using assms by (simp add: irq_part_def)
qed

lemma irq_part_refl: "irq_ready s \<Longrightarrow> irq_part s s False"
  by (simp add: irq_part_def)

lemma irq_part_io:
  assumes "irq_ready s" "emits (dev_access (priv s)) m"
  shows "irq_part s (exec_io m s) False" "irq_part s (snd (run_io m s)) False"
proof -
  have "jobs_ok (exec_io m s) \<longleftrightarrow> jobs_ok s" "jobs_ok (snd (run_io m s)) \<longleftrightarrow> jobs_ok s" by (simp_all add: jobs_ok_def)
  moreover have "dev_step s (snd (run_io m s))" using dev_step_io(2) [OF assms(2)] by (metis surjective_pairing)
  ultimately show "irq_part s (exec_io m s) False" "irq_part s (snd (run_io m s)) False"
    using assms dev_step_io(1) [OF assms(2)] by (simp_all add: irq_part_def irq_ready_def)
qed

lemma irq_part_state:
  assumes "irq_ready s" "core_irq_obj c = Some obj" "oq_wq obj"
  shows "\<exists>s'. Option.bind (aipu_job_manager_update_job_state_irq e s x) (schedule_work c) = Some s' \<and> irq_part s s' True"
proof -
  obtain s1 where s1: "aipu_job_manager_update_job_state_irq e s x = Some s1" "irq_ready s1" "same_jobs (hp s) (hp s1)"
    "priv s1 = (priv s)\<lparr>job_manager := jm_of s1\<rparr>" "work_queued s1 = work_queued s"
    "map job_key (all_jobs (jm_of s1)) = map job_key (all_jobs (jm_of s))"
    using interrupt_ready [OF assms(1), of e x] by blast
  let ?s = "s1\<lparr>work_queued := True\<rparr>"
  have "irq_ready ?s" using s1(2) by (simp add: irq_ready_def jobs_ok_def)
  moreover have "dev_step s ?s"
    using state_irq_dev_step [OF s1(1)] by (simp add: dev_step_def dev_extends_def)
  moreover have "order_of (jm_of ?s) = order_of (jm_of s)" using order_cong [OF s1(6)] by simp
  moreover have "schedule_work c s1 = Some ?s" using assms(2,3) by (simp add: schedule_work_def aipu_irq_schedulework_def)
  ultimately show ?thesis using s1 by (intro exI [of _ ?s]) (simp add: irq_part_def)
qed

text \<open>The accesses of the two upper halves, all inside the region of the core.\<close>

lemmas irq_access_defs = zhouyi_v1_disable_interrupt_def zhouyi_v1_enable_interrupt_def zhouyi_v1_clear_qempty_interrupt_def
  zhouyi_v1_clear_done_interrupt_def zhouyi_v1_clear_excep_interrupt_def zhouyi_v2_disable_interrupt_def
  zhouyi_v2_enable_interrupt_def zhouyi_v2_clear_qempty_interrupt_def zhouyi_v2_clear_done_interrupt_def
  zhouyi_v2_clear_excep_interrupt_def zhouyi_v2_clear_fault_interrupt_def zhouyi_v2_read_status_reg_def

lemma irq_access:
  assumes "core0 p = Some c"
  shows "emits (dev_access p) (zhouyi_v1_disable_interrupt (Some c))"
    "emits (dev_access p) (zhouyi_v1_clear_qempty_interrupt (Some c))"
    "emits (dev_access p) (zhouyi_v1_clear_done_interrupt (Some c))"
    "emits (dev_access p) (zhouyi_v1_clear_excep_interrupt (Some c))"
    "emits (dev_access p) (zhouyi_v2_disable_interrupt (Some c))"
    "emits (dev_access p) (zhouyi_v2_clear_qempty_interrupt (Some c))"
    "emits (dev_access p) (zhouyi_v2_clear_done_interrupt (Some c))"
    "emits (dev_access p) (zhouyi_v2_clear_excep_interrupt (Some c))"
    "emits (dev_access p) (zhouyi_v2_clear_fault_interrupt (Some c))"
    "emits (dev_access p) (zhouyi_v2_read_status_reg (Some c))"
    "emits (dev_access p) (zhouyi_read_status_reg (core_base0 c))"
    "emits (dev_access p) (aipu_read32 (core_base0 c) off)"
  unfolding irq_access_defs if_core_def option.case
  by (rule dev_access_core [OF assms], (rule zhouyi_emits emits_write32 emits_read32))+

lemma irq_part_core: "irq_part s t b \<Longrightarrow> core0 (priv s) = Some c \<Longrightarrow> core0 (priv t) = Some c"
  by (simp add: irq_part_def dev_step_def)

lemma irq_part_ready: "irq_part s t b \<Longrightarrow> irq_ready t"
  by (simp add: irq_part_def)

lemma irq_part_if:
  assumes "irq_ready s" "core_irq_obj c = Some obj" "oq_wq obj" "emits (dev_access (priv s)) m"
  shows "\<exists>s'. (if b then Option.bind (aipu_job_manager_update_job_state_irq e (exec_io m s) x) (schedule_work c)
      else Some s) = Some s' \<and> irq_part s s' b"
proof (cases b)
  case True
  note p = irq_part_io(1) [OF assms(1,4)]
  from irq_part_state [OF irq_part_ready [OF p] assms(2,3), of e x] irq_part_trans [OF p] True
  show ?thesis by fastforce
qed (use assms(1) irq_part_refl in simp)

lemma irq_part_if_io:
  assumes "irq_ready s" "emits (dev_access (priv s)) m"
  shows "irq_part s (if b then exec_io m s else s) False"
  using irq_part_io(1) [OF assms] irq_part_refl [OF assms(1)] by simp

text \<open>The cause register is read after the exception is cleared.\<close>

lemma irq_part_cause:
  assumes "irq_ready s" "core_irq_obj c = Some obj" "oq_wq obj" "core0 (priv s) = Some c"
  shows "\<exists>s'. (if b then (case run_io (aipu_read32 (core_base0 c) off) (exec_io (zhouyi_v1_clear_excep_interrupt (Some c)) s) of
        (cause, s') \<Rightarrow> Option.bind (aipu_job_manager_update_job_state_irq e s' (sint cause)) (schedule_work c))
      else Some s) = Some s' \<and> irq_part s s' b"
proof (cases b)
  case True
  let ?s1 = "exec_io (zhouyi_v1_clear_excep_interrupt (Some c)) s"
  note p1 = irq_part_io(1) [OF assms(1) irq_access(4) [OF assms(4)]]
  obtain cause s2 where r: "run_io (aipu_read32 (core_base0 c) off) ?s1 = (cause, s2)" by fastforce
  have p2: "irq_part ?s1 s2 False"
    using irq_part_io(2) [OF irq_part_ready [OF p1] irq_access(12) [OF irq_part_core [OF p1 assms(4)], of off]] r by simp
  obtain s' where s': "Option.bind (aipu_job_manager_update_job_state_irq e s2 (sint cause)) (schedule_work c) = Some s'"
    "irq_part s2 s' True" using irq_part_state [OF irq_part_ready [OF p2] assms(2,3)] by blast
  from irq_part_trans [OF irq_part_trans [OF p1 p2] s'(2)] have "irq_part s s' True" by simp
  then show ?thesis using True r s'(1) by simp
qed (use assms(1) irq_part_refl in simp)

definition irq_status :: "sys \<Rightarrow> aipu_core \<Rightarrow> u32" where
  "irq_status s c = io_dev (dev_io s) (Suc (length (io_log (dev_io s)))) (io_addr (core_base0 c) ZHOUYI_STAT_REG_OFFSET)"

lemma v1_upper_half:
  assumes "irq_ready s" "core0 (priv s) = Some c" "core_irq_obj c = Some obj" "oq_wq obj"
    and v: "io_valid (core_base0 c) 4" and st: "st = irq_status s c"
    and s1: "s1 = exec_io (zhouyi_v1_disable_interrupt (Some c)) s"
  shows "\<exists>s5. zhouyi_v1_upper_half e s = Some (0, exec_io (zhouyi_v1_enable_interrupt (Some c)) s5) \<and>
    irq_part s1 s5 (st AND ZHOUYI_IRQ_DONE \<noteq> 0 \<or> st AND ZHOUYI_IRQ_EXCEP \<noteq> 0)"
proof -
  have p1: "irq_part s s1 False" unfolding s1 by (rule irq_part_io(1) [OF assms(1) irq_access(1) [OF assms(2)]])
  note c1 = irq_part_core [OF p1 assms(2)]
  obtain st' s2 where r: "run_io (zhouyi_read_status_reg (core_base0 c)) s1 = (st', s2)" by fastforce
  have "io_valid (core_base0 c) 0" using io_valid_le [OF v] by simp
  then have "st' = st"
    using r v by (simp add: st irq_status_def s1 zhouyi_v1_disable_interrupt_def if_core_def exec_io_def run_io_def
        run_write32 run_read32 zhouyi_read_status_reg_def zhouyi_reg_defs)
  have p2: "irq_part s1 s2 False"
    using irq_part_io(2) [OF irq_part_ready [OF p1] irq_access(11) [OF c1]] r by simp
  note c2 = irq_part_core [OF p2 c1]
  define s3 where "s3 = (if st AND ZHOUYI_IRQ_QEMPTY \<noteq> 0 then exec_io (zhouyi_v1_clear_qempty_interrupt (Some c)) s2 else s2)"
  have p3: "irq_part s2 s3 False" unfolding s3_def by (rule irq_part_if_io [OF irq_part_ready [OF p2] irq_access(2) [OF c2]])
  note c3 = irq_part_core [OF p3 c2]
  obtain s4 where s4: "(if st AND ZHOUYI_IRQ_DONE \<noteq> 0
      then Option.bind (aipu_job_manager_update_job_state_irq e (exec_io (zhouyi_v1_clear_done_interrupt (Some c)) s3) 0) (schedule_work c)
      else Some s3) = Some s4" "irq_part s3 s4 (st AND ZHOUYI_IRQ_DONE \<noteq> 0)"
    using irq_part_if [OF irq_part_ready [OF p3] assms(3,4) irq_access(3) [OF c3], of _ e 0] by blast
  obtain s5 where s5: "(if st AND ZHOUYI_IRQ_EXCEP \<noteq> 0
      then (case run_io (aipu_read32 (core_base0 c) ZHOUYI_INTR_CAUSE_REG_OFFSET) (exec_io (zhouyi_v1_clear_excep_interrupt (Some c)) s4) of
        (cause, s') \<Rightarrow> Option.bind (aipu_job_manager_update_job_state_irq e s' (sint cause)) (schedule_work c))
      else Some s4) = Some s5" "irq_part s4 s5 (st AND ZHOUYI_IRQ_EXCEP \<noteq> 0)"
    using irq_part_cause [OF irq_part_ready [OF s4(2)] assms(3,4) irq_part_core [OF s4(2) c3]] by blast
  have "zhouyi_v1_upper_half e s = Some (0, exec_io (zhouyi_v1_enable_interrupt (Some c)) s5)"
    unfolding zhouyi_v1_upper_half_def assms(2) option.case Let_def s1 [symmetric] zhouyi_v1_read_status_reg_def
      option.map Option.bind.bind_lunit r prod.case \<open>st' = st\<close> s3_def [symmetric] s4(1) s5(1)
    by (simp add: errcode_defs)
  moreover have "irq_part s1 s5 (st AND ZHOUYI_IRQ_DONE \<noteq> 0 \<or> st AND ZHOUYI_IRQ_EXCEP \<noteq> 0)"
    using irq_part_trans [OF irq_part_trans [OF irq_part_trans [OF p2 p3] s4(2)] s5(2)] by simp
  ultimately show ?thesis by blast
qed

lemma v2_upper_half:
  assumes "irq_ready s" "core0 (priv s) = Some c" "core_irq_obj c = Some obj" "oq_wq obj"
    and v: "io_valid (core_base0 c) 4" and st: "st = irq_status s c"
    and s1: "s1 = exec_io (zhouyi_v2_disable_interrupt (Some c)) s"
  shows "\<exists>s6. zhouyi_v2_upper_half e s = Some (0, exec_io (zhouyi_v2_enable_interrupt (Some c)) s6) \<and>
    irq_part s1 s6 (st AND ZHOUYI_IRQ_DONE \<noteq> 0 \<or> st AND ZHOUYI_IRQ_EXCEP \<noteq> 0)"
proof -
  have p1: "irq_part s s1 False" unfolding s1 by (rule irq_part_io(1) [OF assms(1) irq_access(5) [OF assms(2)]])
  note c1 = irq_part_core [OF p1 assms(2)]
  obtain st' s2 where r: "run_io (zhouyi_v2_read_status_reg (Some c)) s1 = (st', s2)" by fastforce
  have "io_valid (core_base0 c) 0" using io_valid_le [OF v] by simp
  then have "st' = st"
    using r v by (simp add: st irq_status_def s1 zhouyi_v2_disable_interrupt_def zhouyi_v2_read_status_reg_def
        if_core_def exec_io_def run_io_def run_write32 run_read32 zhouyi_read_status_reg_def zhouyi_reg_defs)
  have p2: "irq_part s1 s2 False"
    using irq_part_io(2) [OF irq_part_ready [OF p1] irq_access(10) [OF c1]] r by simp
  note c2 = irq_part_core [OF p2 c1]
  define s3 where "s3 = (if st AND ZHOUYI_IRQ_QEMPTY \<noteq> 0 then exec_io (zhouyi_v2_clear_qempty_interrupt (Some c)) s2 else s2)"
  have p3: "irq_part s2 s3 False" unfolding s3_def by (rule irq_part_if_io [OF irq_part_ready [OF p2] irq_access(6) [OF c2]])
  note c3 = irq_part_core [OF p3 c2]
  obtain s4 where s4: "(if st AND ZHOUYI_IRQ_DONE \<noteq> 0
      then Option.bind (aipu_job_manager_update_job_state_irq e (exec_io (zhouyi_v2_clear_done_interrupt (Some c)) s3) 0) (schedule_work c)
      else Some s3) = Some s4" "irq_part s3 s4 (st AND ZHOUYI_IRQ_DONE \<noteq> 0)"
    using irq_part_if [OF irq_part_ready [OF p3] assms(3,4) irq_access(7) [OF c3], of _ e 0] by blast
  note c4 = irq_part_core [OF s4(2) c3]
  obtain s5 where s5: "(if st AND ZHOUYI_IRQ_EXCEP \<noteq> 0
      then Option.bind (aipu_job_manager_update_job_state_irq e (exec_io (zhouyi_v2_clear_excep_interrupt (Some c)) s4) 1) (schedule_work c)
      else Some s4) = Some s5" "irq_part s4 s5 (st AND ZHOUYI_IRQ_EXCEP \<noteq> 0)"
    using irq_part_if [OF irq_part_ready [OF s4(2)] assms(3,4) irq_access(8) [OF c4], of _ e 1] by blast
  define s6 where "s6 = (if st AND ZHOUYI_IRQ_FAULT \<noteq> 0 then exec_io (zhouyi_v2_clear_fault_interrupt (Some c)) s5 else s5)"
  have p6: "irq_part s5 s6 False" unfolding s6_def
    by (rule irq_part_if_io [OF irq_part_ready [OF s5(2)] irq_access(9) [OF irq_part_core [OF s5(2) c4]]])
  have "zhouyi_v2_upper_half e s = Some (0, exec_io (zhouyi_v2_enable_interrupt (Some c)) s6)"
    unfolding zhouyi_v2_upper_half_def assms(2) option.case Let_def s1 [symmetric]
      Option.bind.bind_lunit r prod.case \<open>st' = st\<close> s3_def [symmetric] s4(1) s5(1) s6_def [symmetric]
    by (simp add: errcode_defs)
  moreover have "irq_part s1 s6 (st AND ZHOUYI_IRQ_DONE \<noteq> 0 \<or> st AND ZHOUYI_IRQ_EXCEP \<noteq> 0)"
    using irq_part_trans [OF irq_part_trans [OF irq_part_trans [OF irq_part_trans [OF p2 p3] s4(2)] s5(2)] p6] by simp
  ultimately show ?thesis by blast
qed

definition irq_flags :: "aipu_io_operation \<Rightarrow> u32" where
  "irq_flags ops = (case ops of Zhouyi_v1_ops \<Rightarrow> 7 | Zhouyi_v2_ops \<Rightarrow> 0xF)"

lemma upper_half_runs:
  assumes rdy: "irq_ready s" and c: "core0 (priv s) = Some c" "core_irq_obj c = Some obj" "oq_wq obj"
    and h: "oq_uhandler obj = Some ops" and v: "io_valid (core_base0 c) 4"
    and s1_def: "s1 = exec_io (aipu_write32 (core_base0 c) 0 0) s"
  shows "\<exists>s5. aipu_irq_handler_upper_half e s = Some (IRQ_HANDLED, exec_io (aipu_write32 (core_base0 c) 0 (irq_flags ops)) s5) \<and>
    irq_part s1 s5 (irq_status s c AND 2 \<noteq> 0 \<or> irq_status s c AND 4 \<noteq> 0)"
proof -
  have dis: "s1 = exec_io (zhouyi_v1_disable_interrupt (Some c)) s" "s1 = exec_io (zhouyi_v2_disable_interrupt (Some c)) s"
    by (simp_all add: s1_def zhouyi_v1_disable_interrupt_def zhouyi_v2_disable_interrupt_def if_core_def
        zhouyi_reg_defs zhouyi_irq_defs z1_defs z2_defs)
  have flags: "ZHOUYI_IRQ_DONE = 2" "ZHOUYI_IRQ_EXCEP = 4" by (simp_all add: zhouyi_irq_defs)
  show ?thesis
  proof (cases ops)
    case Zhouyi_v1_ops
    obtain s5 where s5: "zhouyi_v1_upper_half e s = Some (0, exec_io (zhouyi_v1_enable_interrupt (Some c)) s5)"
      "irq_part s1 s5 (irq_status s c AND 2 \<noteq> 0 \<or> irq_status s c AND 4 \<noteq> 0)"
      using v1_upper_half [OF rdy c v refl dis(1), of e] unfolding flags by blast
    then show ?thesis using c h Zhouyi_v1_ops
      by (intro exI [of _ s5]) (simp add: aipu_irq_handler_upper_half_def errcode_defs irq_flags_def zhouyi_v1_enable_interrupt_def
          if_core_def zhouyi_reg_defs zhouyi_irq_defs z1_defs)
  next
    case Zhouyi_v2_ops
    obtain s5 where s5: "zhouyi_v2_upper_half e s = Some (0, exec_io (zhouyi_v2_enable_interrupt (Some c)) s5)"
      "irq_part s1 s5 (irq_status s c AND 2 \<noteq> 0 \<or> irq_status s c AND 4 \<noteq> 0)"
      using v2_upper_half [OF rdy c v refl dis(2), of e] unfolding flags by blast
    then show ?thesis using c h Zhouyi_v2_ops
      by (intro exI [of _ s5]) (simp add: aipu_irq_handler_upper_half_def errcode_defs irq_flags_def zhouyi_v2_enable_interrupt_def
          if_core_def zhouyi_reg_defs zhouyi_irq_defs z2_defs)
  qed
qed

text \<open>C37. The upper half. The handler of the core's version first masks the interrupt and last unmasks
  it, touches the device only inside the register regions in between, keeps the invariant
  and the order of the jobs, and queues the bottom half exactly when the status register
  reports a finished job or an exception.\<close>

theorem upper_half_spec:
  assumes "jobs_ok s" "\<forall>j \<in> set (running (jm_of s)). job_live (hp s) j"
    and "core0 (priv s) = Some c" "core_irq_obj c = Some obj" "oq_wq obj" "oq_uhandler obj = Some ops"
    and "io_valid (core_base0 c) 4"
  shows "\<exists>s' evs. aipu_irq_handler_upper_half e s = Some (IRQ_HANDLED, s') \<and> jobs_ok s' \<and>
    order_of (jm_of s') = order_of (jm_of s) \<and>
    io_log (dev_io s') = io_log (dev_io s) @ [IoWrite 4 (io_addr (core_base0 c) 0) 0] @ evs @
      [IoWrite 4 (io_addr (core_base0 c) 0) (case ops of Zhouyi_v1_ops \<Rightarrow> 7 | Zhouyi_v2_ops \<Rightarrow> 0xF)] \<and>
    (\<forall>ev \<in> set evs. dev_access (priv s) ev) \<and>
    (work_queued s' \<longleftrightarrow> work_queued s \<or> irq_status s c AND 2 \<noteq> 0 \<or> irq_status s c AND 4 \<noteq> 0)"
proof -
  have rdy: "irq_ready s" using assms(1,2) by (simp add: irq_ready_def)
  define s1 where "s1 = exec_io (aipu_write32 (core_base0 c) 0 0) s"
  define en where "en = irq_flags ops"
  have "\<exists>s5. aipu_irq_handler_upper_half e s = Some (IRQ_HANDLED, exec_io (aipu_write32 (core_base0 c) 0 en) s5) \<and>
    irq_part s1 s5 (irq_status s c AND 2 \<noteq> 0 \<or> irq_status s c AND 4 \<noteq> 0)"
    unfolding en_def by (rule upper_half_runs [OF rdy assms(3-7) s1_def])
  then obtain s5 where s5: "aipu_irq_handler_upper_half e s = Some (IRQ_HANDLED, exec_io (aipu_write32 (core_base0 c) 0 en) s5)"
    "irq_ready s5" "dev_step s1 s5" "order_of (jm_of s5) = order_of (jm_of s1)"
    "work_queued s5 \<longleftrightarrow> work_queued s1 \<or> irq_status s c AND 2 \<noteq> 0 \<or> irq_status s c AND 4 \<noteq> 0"
    unfolding irq_part_def by blast
  have v0: "io_valid (core_base0 c) 0" using io_valid_le [OF assms(7)] by simp
  have l1: "io_log (dev_io s1) = io_log (dev_io s) @ [IoWrite 4 (io_addr (core_base0 c) 0) 0]"
    using v0 by (simp add: s1_def exec_io_def run_io_def run_write32)
  have l2: "io_log (dev_io (exec_io (aipu_write32 (core_base0 c) 0 en) s5)) = io_log (dev_io s5) @ [IoWrite 4 (io_addr (core_base0 c) 0) en]"
    using v0 by (simp add: exec_io_def run_io_def run_write32)
  obtain evs where evs: "io_log (dev_io s5) = io_log (dev_io s1) @ evs" "\<forall>ev \<in> set evs. dev_access (priv s1) ev"
    using s5(3) unfolding dev_step_def dev_extends_def by auto
  have p1: "priv s1 = priv s" "work_queued s1 = work_queued s" by (simp_all add: s1_def)
  have "jobs_ok (exec_io (aipu_write32 (core_base0 c) 0 en) s5)" using s5(2) by (simp add: irq_ready_def jobs_ok_def)
  then show ?thesis using s5(1,4,5) l1 l2 evs p1
    by (intro exI [of _ "exec_io (aipu_write32 (core_base0 c) 0 en) s5"] exI [of _ evs]) (simp add: en_def irq_flags_def)
qed

definition demo_sys_irq :: sys where
  "demo_sys_irq = (let s = demo_sys [] [demo_running] [demo_pending] in
     s\<lparr>priv := (priv s)\<lparr>core0 := Some (demo_core\<lparr>core_irq_obj := Some \<lparr>oq_irqnum = 40, oq_uhandler = Some Zhouyi_v1_ops, oq_wq = True\<rparr>\<rparr>)\<rparr>,
       dev_io := \<lparr>io_dev = (\<lambda>_ _. 0x70002), io_log = []\<rparr>\<rparr>)"

lemma upper_half_spec_witness:
  "\<exists>s'. aipu_irq_handler_upper_half (env_ok 0) demo_sys_irq = Some (IRQ_HANDLED, s') \<and>
    order_of (jm_of s') = [10, 11] \<and> work_queued s'"
proof -
  let ?obj = "\<lparr>oq_irqnum = 40, oq_uhandler = Some Zhouyi_v1_ops, oq_wq = True\<rparr>" and ?c = "demo_core\<lparr>core_irq_obj := Some \<lparr>oq_irqnum = 40, oq_uhandler = Some Zhouyi_v1_ops, oq_wq = True\<rparr>\<rparr>"
  have jm: "jm_of demo_sys_irq = jm_of (demo_sys [] [demo_running] [demo_pending])" "hp demo_sys_irq = demo_jobs_heap"
    by (simp_all add: demo_sys_irq_def Let_def)
  have ok: "jobs_ok demo_sys_irq" using demo_ok(2) by (simp add: jobs_ok_def jm)
  have v: "\<forall>j \<in> set (running (jm_of demo_sys_irq)). job_live (hp demo_sys_irq) j" by (simp add: jm)
  have c: "core0 (priv demo_sys_irq) = Some ?c" "core_irq_obj ?c = Some ?obj" "oq_wq ?obj" "oq_uhandler ?obj = Some Zhouyi_v1_ops"
    "io_valid (core_base0 ?c) 4"
    by (simp_all add: demo_sys_irq_def Let_def demo_core_def io_valid_def)
  have st: "irq_status demo_sys_irq ?c AND 2 \<noteq> 0" by (simp add: irq_status_def demo_sys_irq_def Let_def)
  have ord: "order_of (jm_of demo_sys_irq) = [10, 11]" by (simp add: jm order_of_def all_jobs_def)
  show ?thesis using upper_half_spec [OF ok v c, of "env_ok 0"] st ord by auto
qed

end
