(* ===== verification/Platform.thy ===== *)
theory Platform
  imports Fops
begin

text \<open>
  Bringing the driver up and down: the static private data per board and version, the
  set-up of the private data (\<open>aipu/aipu.c\<close>), and the probe and remove operations of the
  platform driver (\<open>aipu_platform_driver.c\<close>). What the device tree says is an argument.
\<close>

subsection \<open>Build configuration\<close>

datatype build_platform = BUILD_PLATFORM_DEFAULT | BUILD_PLATFORM_JUNO | BUILD_PLATFORM_6CG

text \<open>\<open>AIPU_ENABLE_SYSFS\<close> is defined by the debug build only.\<close>

record build =
  bd_platform :: build_platform
  BUILD_ZHOUYI_V1 :: bool
  BUILD_ZHOUYI_V2 :: bool
  BUILD_DEBUG_VERSION :: bool

definition PLATFORM_HAS_CLOCK_GATING :: "build \<Rightarrow> bool" where
  "PLATFORM_HAS_CLOCK_GATING b = (bd_platform b = BUILD_PLATFORM_JUNO)"

definition PLATFORM_HAS_RESET :: "build \<Rightarrow> bool" where
  "PLATFORM_HAS_RESET b = (bd_platform b \<in> {BUILD_PLATFORM_JUNO, BUILD_PLATFORM_6CG})"

subsection \<open>The static private data\<close>

definition zero_mm :: aipu_memory_manager where
  "zero_mm = \<lparr>sram_head = None, sram_cnt = 0, ddr_head = None, ddr_cnt = 0, sram_global = 0, mm_version = 0\<rparr>"

definition zero_jm :: aipu_job_manager where
  "zero_jm = \<lparr>scheduled_queue = None, pending_queue = None, sched_num = 0, max_sched_num = 0, init_done = 0\<rparr>"

definition static_priv :: "int \<Rightarrow> int \<Rightarrow> aipu_io_operation \<Rightarrow> soc_io_operation \<Rightarrow> aipu_priv" where
  "static_priv brand ver cops sops =
     \<lparr>board = brand, version = ver, core0 = None, soc = None, core_ctrl = cops, soc_ctrl = sops,
      host_to_aipu_map = 0, misc = False, job_manager = zero_jm, mm = zero_mm, is_suspend = 0, is_reset = 0\<rparr>"

text \<open>The version 1 data of the 6CG board names the Juno r2 brand.\<close>

definition z1_platform_priv :: "build_platform \<Rightarrow> aipu_priv" where
  "z1_platform_priv p =
     (case p of
        BUILD_PLATFORM_DEFAULT \<Rightarrow>
          static_priv AIPU_BOARD_BRAND_DEFAULT AIPU_VERSION_ZHOUYI_V1 Zhouyi_v1_ops Default_soc_ops
      | BUILD_PLATFORM_JUNO \<Rightarrow>
          static_priv AIPU_BOARD_BRAND_JUNOR2 AIPU_VERSION_ZHOUYI_V1 Zhouyi_v1_ops Junor2_soc_ops
      | BUILD_PLATFORM_6CG \<Rightarrow>
          static_priv AIPU_BOARD_BRAND_JUNOR2 AIPU_VERSION_ZHOUYI_V1 Zhouyi_v1_ops X6cg_soc_ops)"

definition z2_platform_priv :: "build_platform \<Rightarrow> aipu_priv" where
  "z2_platform_priv p =
     (case p of
        BUILD_PLATFORM_DEFAULT \<Rightarrow>
          static_priv AIPU_BOARD_BRAND_DEFAULT AIPU_VERSION_ZHOUYI_V2 Zhouyi_v2_ops Default_soc_ops
      | BUILD_PLATFORM_JUNO \<Rightarrow>
          static_priv AIPU_BOARD_BRAND_JUNOR2 AIPU_VERSION_ZHOUYI_V2 Zhouyi_v2_ops Junor2_soc_ops
      | BUILD_PLATFORM_6CG \<Rightarrow>
          static_priv AIPU_BOARD_BRAND_ZYNQ6CG AIPU_VERSION_ZHOUYI_V2 Zhouyi_v2_ops X6cg_soc_ops)"

text \<open>The match table in its order; the first entry with the compatible string is taken.\<close>

definition aipu_of_match :: "build \<Rightarrow> (string \<times> aipu_priv) list" where
  "aipu_of_match b =
     (if BUILD_ZHOUYI_V1 b
      then [(''armchina,zhouyi-v1-def'', z1_platform_priv (bd_platform b)),
            (''armchina,zhouyi-v1'', z1_platform_priv (bd_platform b))] else []) @
     (if BUILD_ZHOUYI_V2 b
      then [(''armchina,zhouyi-v2-def'', z2_platform_priv (bd_platform b)),
            (''armchina,zhouyi-v2'', z2_platform_priv (bd_platform b))] else [])"

subsection \<open>What the driver registers and gives back\<close>

datatype kernel_event =
    Ev_misc_register
  | Ev_misc_deregister
  | Ev_create_sysfs
  | Ev_remove_sysfs
  | Ev_res resource
  | Ev_unmap unmap_event

text \<open>The registration of the misc device; a failed one leaves \<open>misc\<close> set.\<close>

definition init_misc_dev :: "kenv \<Rightarrow> aipu_priv \<Rightarrow> int \<times> aipu_priv \<times> kernel_event list" where
  "init_misc_dev e aipu =
     (if \<not> kz_miscdev e then (- ENOMEM, aipu, [])
      else (misc_ret e, aipu\<lparr>misc := True\<rparr>, if misc_ret e = 0 then [Ev_misc_register] else []))"

definition deinit_misc_dev :: "aipu_priv \<Rightarrow> kernel_event list" where
  "deinit_misc_dev aipu = [Ev_misc_deregister]"

text \<open>The pointers to the destroyed objects stay in the private data.\<close>

definition deinit_aipu_priv :: "build \<Rightarrow> aipu_priv \<Rightarrow> aipu_priv \<times> kernel_event list" where
  "deinit_aipu_priv b aipu =
     (let (unmaps, m) = aipu_deinit_mm (mm aipu);
          aipu1 = aipu\<lparr>mm := m\<rparr>
      in (if core0 aipu \<noteq> None then aipu1\<lparr>job_manager := aipu_deinit_job_manager (job_manager aipu1)\<rparr> else aipu1,
          (if BUILD_DEBUG_VERSION b then [Ev_remove_sysfs] else []) @
          map Ev_unmap unmaps @
          (if misc aipu then deinit_misc_dev aipu else []) @
          map Ev_res (destroy_aipu_soc (soc aipu)) @
          map Ev_res (destroy_aipu_core (core0 aipu))))"

definition init_aipu_priv :: "kenv \<Rightarrow> build \<Rightarrow> aipu_priv \<Rightarrow> int \<times> aipu_priv \<times> kernel_event list" where
  "init_aipu_priv e b aipu =
     (let aipu1 = aipu\<lparr>core0 := None, soc := None, misc := False, is_suspend := 0, mm := aipu_init_mm e (version aipu)\<rparr>;
          (ret, aipu2, evs) = init_misc_dev e aipu1
      in if ret \<noteq> 0
         then (let (aipu3, evs') = deinit_aipu_priv b aipu2 in (ret, aipu3, evs @ evs'))
         else (ret, aipu2, evs @ (if BUILD_DEBUG_VERSION b then [Ev_create_sysfs] else [])))"

definition aipu_priv_init_core ::
  "kenv \<Rightarrow> aipu_priv \<Rightarrow> u32 \<Rightarrow> u64 \<Rightarrow> u64 \<Rightarrow> int \<times> aipu_priv \<times> kernel_event list" where
  "aipu_priv_init_core e aipu irqnum base sz =
     (let (ret, core, res) = create_aipu_core e (version aipu) irqnum base sz 0 (core_ctrl aipu)
      in if ret \<noteq> 0 then (ret, aipu, map Ev_res res)
         else
           let aipu1 = aipu\<lparr>core0 := core\<rparr>;
               (ret2, jm) = aipu_init_job_manager e (job_manager aipu1)
                              (case core of None \<Rightarrow> 0 | Some c \<Rightarrow> max_sched c)
           in (ret2, aipu1\<lparr>job_manager := jm\<rparr>, map Ev_res res))"

definition aipu_priv_init_soc ::
  "kenv \<Rightarrow> aipu_priv \<Rightarrow> u64 option \<Rightarrow> u64 \<Rightarrow> u64 \<Rightarrow> int \<times> aipu_priv \<times> kernel_event list" where
  "aipu_priv_init_soc e aipu host_offset base sz =
     (let aipu1 = aipu\<lparr>host_to_aipu_map := (case host_offset of None \<Rightarrow> 0 | Some v \<Rightarrow> v)\<rparr>
      in if sz \<noteq> 0
         then (let (ret, s, res) = create_aipu_soc e (board aipu) base sz
               in (ret, if ret = 0 then aipu1\<lparr>soc := s\<rparr> else aipu1, map Ev_res res))
         else (0, aipu1, []))"

subsection \<open>Probe and remove\<close>

text \<open>
  The device tree node: its compatible string, the register ranges (first and last
  address), the interrupt, the host offset, and the memory region: no phandle, a phandle
  that does not resolve, or a range.
\<close>

record device_node =
  dn_compatible :: string
  dn_mem0 :: "(u64 \<times> u64) option"
  dn_irq :: "u32 option"
  dn_mem1 :: "(u64 \<times> u64) option"
  dn_host_offset :: "u64 option"
  dn_memory_region :: "(u64 \<times> u64) option option"

definition resource_size :: "u64 \<times> u64 \<Rightarrow> u64" where
  "resource_size r = snd r - fst r + 1"

text \<open>
  The stages after \<open>init_aipu_priv\<close>, each a \<open>goto probe_fail\<close> on error, and what was
  claimed from the kernel so far. \<open>of_address_to_resource\<close> jumps with \<open>ret\<close> still 0.
\<close>

definition probe_memory ::
  "kenv \<Rightarrow> device_node \<Rightarrow> aipu_priv \<Rightarrow> (int \<times> bool \<times> aipu_priv) option" where
  "probe_memory e dn aipu =
     (case dn_memory_region dn of
        None \<Rightarrow> Some (- ENOMEM, True, aipu)
      | Some None \<Rightarrow> Some (0, True, aipu)
      | Some (Some r) \<Rightarrow> do {
          (ret, aipu1) \<leftarrow> aipu_priv_add_mem_region e aipu (fst r) (resource_size r) AIPU_MEM_TYPE_CMA;
          Some (ret, ret \<noteq> 0, aipu1)
        })"

definition probe_stages ::
  "kenv \<Rightarrow> device_node \<Rightarrow> aipu_priv \<Rightarrow> (int \<times> bool \<times> aipu_priv \<times> kernel_event list) option" where
  "probe_stages e dn aipu =
     (case (dn_mem0 dn, dn_irq dn) of
        (None, _) \<Rightarrow> Some (- EINVAL, True, aipu, [])
      | (_, None) \<Rightarrow> Some (- EINVAL, True, aipu, [])
      | (Some io, Some irqnum) \<Rightarrow>
          let (ret, aipu1, evs1) = aipu_priv_init_core e aipu irqnum (fst io) (resource_size io)
          in if ret \<noteq> 0 then Some (ret, True, aipu1, evs1)
             else
               let (base, sz) = (case dn_mem1 dn of None \<Rightarrow> (0, 0) | Some r \<Rightarrow> (fst r, resource_size r));
                   (ret, aipu2, evs2) = aipu_priv_init_soc e aipu1 (dn_host_offset dn) base sz
               in if ret \<noteq> 0 then Some (ret, True, aipu2, evs1 @ evs2)
                  else do {
                    (ret, failed, aipu3) \<leftarrow> probe_memory e dn aipu2;
                    Some (ret, failed, aipu3, evs1 @ evs2)
                  })"

text \<open>
  \<open>aipu_probe\<close> returns the result, whether the driver data was set, and the state with
  the private data it worked on.
\<close>

definition aipu_probe ::
  "kenv \<Rightarrow> build \<Rightarrow> device_node \<Rightarrow> mmio \<Rightarrow> (int \<times> bool \<times> sys option \<times> kernel_event list) option" where
  "aipu_probe e b dn io =
     (case map_of (aipu_of_match b) (dn_compatible dn) of
        None \<Rightarrow> Some (- EINVAL, False, None, [])
      | Some aipu0 \<Rightarrow>
          let (ret, aipu, evs) = init_aipu_priv e b aipu0;
              start = (\<lambda>p. \<lparr>priv = p, hp = empty_heap, dev_io = io, work_queued = False\<rparr>)
          in if ret \<noteq> 0 then Some (ret, False, Some (start aipu), evs)
             else do {
               (ret, failed, aipu1, evs1) \<leftarrow> probe_stages e dn aipu;
               if failed
               then (let (aipu2, evs2) = deinit_aipu_priv b aipu1
                     in Some (ret, False, Some (start aipu2), evs @ evs1 @ evs2))
               else (let s1 = exec_io (aipu_priv_enable_interrupt aipu1) (start aipu1);
                         s2 = exec_io (aipu_priv_print_hw_id_info aipu1) s1
                     in Some (ret, True, Some s2, evs @ evs1))
             })"

definition aipu_remove :: "build \<Rightarrow> sys \<Rightarrow> int \<times> sys \<times> kernel_event list" where
  "aipu_remove b s =
     (let s1 = exec_io (aipu_priv_disable_interrupt (priv s)) s;
          (p, evs) = deinit_aipu_priv b (priv s1)
      in (0, s1\<lparr>priv := p\<rparr>, evs))"

end
