(* ===== verification/Sysfs.thy ===== *)
theory Sysfs
  imports Platform "HOL-Library.Char_ord"
begin

text \<open>
  The debug files of the driver (\<open>aipu_sysfs.c\<close>) and the table of jobs
  (\<open>aipu_job_manager_sysfs_job_show\<close>). A show function appends its text to the buffer of
  the kernel; the model returns that text, and \<open>ret\<close> is its length. The pointer \<open>aipu\<close> of
  the file is set while the files exist, so its NULL checks are dropped.
\<close>

subsection \<open>\<open>snprintf\<close>\<close>

text \<open>\<open>%-*s\<close>: left-justified in a field of \<open>n\<close> characters.\<close>

definition left_pad :: "nat \<Rightarrow> string \<Rightarrow> string" where
  "left_pad n s = s @ replicate (n - length s) CHR '' ''"

definition hex_digit :: "nat \<Rightarrow> char" where
  "hex_digit d = char_of (if d < 10 then 48 + d else 87 + d)"

text \<open>Digits of a number in base \<open>b\<close>, most significant first, without leading zeros.\<close>

function digits :: "nat \<Rightarrow> nat \<Rightarrow> string" where
  "digits b n = (if n < b \<or> b < 2 then [hex_digit n] else digits b (n div b) @ [hex_digit (n mod b)])"
  by pat_completeness auto
termination
  by (relation "measure snd") (auto intro: div_less_dividend)

declare digits.simps [simp del]

definition hex_str :: "u32 \<Rightarrow> string" where "hex_str w = digits 16 (unat w)"

definition hex8_str :: "u32 \<Rightarrow> string" where
  "hex8_str w = replicate (8 - length (hex_str w)) CHR ''0'' @ hex_str w"

definition dec_str :: "int \<Rightarrow> string" where
  "dec_str i = (if i < 0 then CHR ''-'' # digits 10 (nat (- i)) else digits 10 (nat i))"

subsection \<open>The table of jobs\<close>

definition MAX_CHAR_SYSFS :: nat where "MAX_CHAR_SYSFS = 4096"

text \<open>A job in state IDLE would print an uninitialised string; no queued job is idle.\<close>

definition state_str :: "job_state \<Rightarrow> string" where
  "state_str st =
     (case st of AIPU_JOB_STATE_PENDING \<Rightarrow> ''Pending'' | AIPU_JOB_STATE_SCHED \<Rightarrow> ''Executing''
      | AIPU_JOB_STATE_END \<Rightarrow> ''Done'' | AIPU_JOB_STATE_IDLE \<Rightarrow> '''')"

definition print_job_info :: "aipu_job \<Rightarrow> string" where
  "print_job_info j =
     left_pad 12 (dec_str (aj_uthread_id j)) @ ''0x'' @ left_pad 10 (hex_str (job_id (aj_desc j))) @
     left_pad 10 (state_str (aj_state j)) @
     left_pad 5 (if aj_exception_flag j \<noteq> 0 then ''Y'' else ''N'') @ ''\<newline>''"

definition rule_line :: string where
  "rule_line = replicate 43 CHR ''-'' @ ''\<newline>''"

definition aipu_job_manager_sysfs_job_show :: "aipu_job_manager \<Rightarrow> string option" where
  "aipu_job_manager_sysfs_job_show jm = do {
     pending \<leftarrow> pending_queue jm;
     scheduled \<leftarrow> scheduled_queue jm;
     Some (rule_line @ left_pad 12 ''Thread ID'' @ left_pad 12 ''Job ID'' @ left_pad 10 ''State'' @
       left_pad 5 ''Exception'' @ ''\<newline>'' @ rule_line @
       concat (map print_job_info pending) @ concat (map print_job_info scheduled) @
       (if pending = [] \<and> scheduled = [] then ''No job.\<newline>'' else []) @ rule_line)
   }"

definition sysfs_aipu_job_show :: "sys \<Rightarrow> string option" where
  "sysfs_aipu_job_show s = aipu_job_manager_sysfs_job_show (jm_of s)"

subsection \<open>Registers\<close>

text \<open>One register read through \<open>aipu_priv_io_rw\<close>; the rest of the request is not initialised.\<close>

definition print_reg_info :: "aipu_io_req \<Rightarrow> sys \<Rightarrow> string \<Rightarrow> u32 \<Rightarrow> (string \<times> sys) option" where
  "print_reg_info junk s name offset = do {
     m \<leftarrow> aipu_priv_io_rw (priv s) (junk\<lparr>io_rw := AIPU_IO_READ, io_offset := offset\<rparr>);
     let (req, s') = run_io m s;
     Some (''0x'' @ left_pad 6 (hex_str offset) @ left_pad 22 name @ ''0x'' @ hex8_str (io_value req) @ ''\<newline>'', s')
   }"

fun print_regs :: "aipu_io_req \<Rightarrow> sys \<Rightarrow> (string \<times> u32) list \<Rightarrow> (string \<times> sys) option" where
  "print_regs junk s [] = Some ([], s)"
| "print_regs junk s ((name, offset) # rest) = do {
     (txt, s1) \<leftarrow> print_reg_info junk s name offset;
     (txts, s2) \<leftarrow> print_regs junk s1 rest;
     Some (txt @ txts, s2)
   }"

definition common_regs :: "(string \<times> u32) list" where
  "common_regs = [(''Ctrl Reg'', 0x0), (''Status Reg'', 0x4), (''Start PC Reg'', 0x8), (''Intr PC Reg'', 0xC),
     (''IPI Ctrl Reg'', 0x10), (''Data Addr 0 Reg'', 0x14), (''Data Addr 1 Reg'', 0x18)]"

definition v1_regs :: "(string \<times> u32) list" where
  "v1_regs = [(''Intr Cause Reg'', 0x1C), (''Intr Status Reg'', 0x20)]"

definition v2_regs :: "(string \<times> u32) list" where
  "v2_regs = [(''Data Addr 2 Reg'', 0x1C), (''Data Addr 3 Reg'', 0x20), (''ASE0 Ctrl Reg'', 0xC0),
     (''ASE0 High Base Reg'', 0xC4), (''ASE0 Low Base Reg'', 0xC8), (''ASE1 Ctrl Reg'', 0xCC),
     (''ASE1 High Base Reg'', 0xD0), (''ASE1 Low Base Reg'', 0xD4), (''ASE2 Ctrl Reg'', 0xD8),
     (''ASE2 High Base Reg'', 0xDC), (''ASE2 Low Base Reg'', 0xE0), (''ASE3 Ctrl Reg'', 0xE4),
     (''ASE3 High Base Reg'', 0xE8), (''ASE3 Low Base Reg'', 0xEC)]"

definition reg_rule :: string where
  "reg_rule = replicate 40 CHR ''-'' @ ''\<newline>''"

definition regs_of_version :: "int \<Rightarrow> (string \<times> u32) list" where
  "regs_of_version ver =
     common_regs @ (if ver = AIPU_VERSION_ZHOUYI_V1 then v1_regs
                    else if ver = AIPU_VERSION_ZHOUYI_V2 then v2_regs else [])"

text \<open>Only the register table touches the device.\<close>

definition sysfs_aipu_ext_register_show :: "aipu_io_req \<Rightarrow> sys \<Rightarrow> (string \<times> sys) option" where
  "sysfs_aipu_ext_register_show junk s =
     (if is_suspend (priv s) \<noteq> 0
      then Some (''AIPU is suspended and external registers cannot be read, 0x'' @
        digits 16 (nat (is_suspend (priv s) mod 2 ^ 32)) @ '', 0x'' @
        digits 16 (unat (host_to_aipu_map (priv s))) @ ''!\<newline>'', s)
      else if is_reset (priv s) \<noteq> 0
      then Some (''AIPU is reset and external registers cannot be read!\<newline>'', s)
      else do {
        ver \<leftarrow> aipu_priv_get_version (priv s);
        (txt, s') \<leftarrow> print_regs junk s (regs_of_version ver);
        Some (''   AIPU External Register Values\<newline>'' @ reg_rule @
          left_pad 8 ''Offset'' @ left_pad 22 ''Name'' @ left_pad 10 ''Value'' @ ''\<newline>'' @ reg_rule @ txt @ reg_rule, s')
      })"

text \<open>
  The store parses three numbers separated by \<open>-\<close>: offset, number of writes, value. The
  first device request is made before anything is initialised. \<open>kstrtouint\<close> is the
  kernel's parser: an error code or a number. The text of the user is the format of the
  \<open>snprintf\<close> that copies it: \<open>%%\<close> is one percent sign, and any other directive reads an
  argument that is not there, undefined behaviour and \<open>None\<close> here.
\<close>

fun snprintf_no_args :: "string \<Rightarrow> string option" where
  "snprintf_no_args [] = Some []"
| "snprintf_no_args (c # s) =
     (if c = CHR 0x00 then Some []
      else if c \<noteq> CHR ''%'' then map_option ((#) c) (snprintf_no_args s)
      else (case s of
              [] \<Rightarrow> None
            | d # s' \<Rightarrow> if d = CHR ''%'' then map_option ((#) CHR ''%'') (snprintf_no_args s') else None))"

definition strsep :: "string \<Rightarrow> string \<times> string option" where
  "strsep str =
     (let pre = takeWhile (\<lambda>c. c \<noteq> CHR ''-'') str
      in (pre, if length pre = length str then None else Some (drop (Suc (length pre)) str)))"

fun parse_fields :: "(string \<Rightarrow> int + u32) \<Rightarrow> nat \<Rightarrow> string option \<Rightarrow> u32 list option" where
  "parse_fields kstrtouint 0 buf = Some []"
| "parse_fields kstrtouint (Suc n) None = None"
| "parse_fields kstrtouint (Suc n) (Some buf) =
     (let (token, rest) = strsep buf
      in case kstrtouint token of
           Inl _ \<Rightarrow> None
         | Inr v \<Rightarrow> map_option (\<lambda>vs. v # vs) (parse_fields kstrtouint n rest))"

fun write_times :: "nat \<Rightarrow> aipu_io_req \<Rightarrow> sys \<Rightarrow> sys option" where
  "write_times 0 req s = Some s"
| "write_times (Suc n) req s = do {
     m \<leftarrow> aipu_priv_io_rw (priv s) req;
     let (req', s') = run_io m s;
     write_times n req' s'
   }"

text \<open>The offset limit and the loop bound are signed comparisons.\<close>

definition sysfs_aipu_ext_register_store ::
  "kenv \<Rightarrow> (string \<Rightarrow> int + u32) \<Rightarrow> aipu_io_req \<Rightarrow> sys \<Rightarrow> string \<Rightarrow> (nat \<times> sys) option" where
  "sysfs_aipu_ext_register_store e kstrtouint junk s buf = do {
     m \<leftarrow> aipu_priv_io_rw (priv s) junk;
     let (io_req, s1) = run_io m s;
     if is_suspend (priv s1) \<noteq> 0 \<or> is_reset (priv s1) \<noteq> 0 then Some (0, s1)
     else if \<not> kz_dup e then None
     else do {
       txt \<leftarrow> snprintf_no_args buf;
       case parse_fields kstrtouint 3 (Some (take 1023 txt)) of
         None \<Rightarrow> Some (length buf, s1)
       | Some vs \<Rightarrow> do {
           ver \<leftarrow> aipu_priv_get_version (priv s1);
           let max_offset = (if ver = AIPU_VERSION_ZHOUYI_V1 then 0x20
                             else if ver = AIPU_VERSION_ZHOUYI_V2 then 0xEC else 0);
           if sint (vs ! 0) > max_offset then Some (length buf, s1)
           else do {
             s2 \<leftarrow> write_times (nat (sint (vs ! 1)))
                     (io_req\<lparr>io_rw := AIPU_IO_WRITE, io_offset := vs ! 0, io_value := vs ! 2\<rparr>) s1;
             Some (length buf, s2)
           }
         }
     }
   }"

text \<open>A directive in the user's text is undefined behaviour.\<close>

theorem register_store_format_string:
  assumes "is_suspend (priv s) = 0" "is_reset (priv s) = 0"
  shows "sysfs_aipu_ext_register_store e kstrtouint junk s ''0x4-1-%x'' = None"
proof (cases "aipu_priv_io_rw (priv s) junk")
  case (Some m)
  obtain r s1 where r: "run_io m s = (r, s1)" by fastforce
  have "priv s1 = priv s" using run_ioE [OF r] by blast
  then show ?thesis using assms by (simp add: sysfs_aipu_ext_register_store_def Some r)
qed (simp add: sysfs_aipu_ext_register_store_def)

subsection \<open>Clock gating and reset\<close>

text \<open>Each operand of the condition is evaluated in order; only the second reads the device.\<close>

definition sysfs_aipu_clock_gating_store :: "sys \<Rightarrow> string \<Rightarrow> nat \<times> sys" where
  "sysfs_aipu_clock_gating_store s buf =
     (let do_suspend = (take 1 buf = ''1''); do_resume = (take 1 buf = ''0'');
          (idle, s1) = (if is_suspend (priv s) = 0 then run_io (aipu_priv_is_idle (priv s)) s else (False, s))
      in (length buf,
          if is_suspend (priv s1) = 0 \<and> idle \<and> do_suspend
          then (let s2 = exec_io (aipu_priv_enable_clk_gating (priv s1)) s1 in s2\<lparr>priv := (priv s2)\<lparr>is_suspend := 1\<rparr>\<rparr>)
          else if is_suspend (priv s1) \<noteq> 0 \<and> do_resume
          then (let s2 = exec_io (aipu_priv_disable_clk_gating (priv s1)) s1 in s2\<lparr>priv := (priv s2)\<lparr>is_suspend := 0\<rparr>\<rparr>)
          else s1))"

definition sysfs_aipu_clock_gating_show :: "sys \<Rightarrow> string" where
  "sysfs_aipu_clock_gating_show s =
     (if is_suspend (priv s) \<noteq> 0 then ''AIPU is in clock gating state and suspended.\<newline>''
      else if is_reset (priv s) \<noteq> 0 then ''AIPU is in reset state and suspended.\<newline>''
      else ''AIPU is in normal working state.\<newline>'')"

definition sysfs_aipu_reset_show :: "sys \<Rightarrow> string" where
  "sysfs_aipu_reset_show s =
     (if is_reset (priv s) \<noteq> 0 then ''AIPU is in reset state and suspended.\<newline>''
      else if is_suspend (priv s) \<noteq> 0 then ''AIPU is in clock gating state and suspended.\<newline>''
      else ''AIPU is in normal working state.\<newline>'')"

definition sysfs_aipu_reset_store :: "sys \<Rightarrow> string \<Rightarrow> nat \<times> sys" where
  "sysfs_aipu_reset_store s buf =
     (let do_release = (take 1 buf = ''1''); do_reset = (take 1 buf = ''0'')
      in (length buf,
          if is_reset (priv s) = 0 \<and> do_reset
          then (let s1 = exec_io (aipu_priv_logic_reset (priv s)) s in s1\<lparr>priv := (priv s1)\<lparr>is_reset := 1\<rparr>\<rparr>)
          else if is_reset (priv s) \<noteq> 0 \<and> do_release
          then (let s1 = exec_io (aipu_priv_logic_release (priv s)) s;
                    s2 = exec_io (aipu_priv_enable_interrupt (priv s1)) s1
                in s2\<lparr>priv := (priv s2)\<lparr>is_reset := 0\<rparr>\<rparr>)
          else s))"

subsection \<open>Creating and removing the files\<close>

definition sysfs_files :: "build \<Rightarrow> string list" where
  "sysfs_files b =
     [''kmd_version'', ''ext_register'', ''job''] @
     (if PLATFORM_HAS_CLOCK_GATING b then [''clock_gating''] else []) @
     (if PLATFORM_HAS_RESET b then [''reset''] else [])"

definition KMD_VERSION :: string where "KMD_VERSION = ''1.2.35''"

definition sysfs_kmd_version_show :: string where
  "sysfs_kmd_version_show = ''AIPU KMD Version: '' @ KMD_VERSION @ ''\<newline>''"

end
