(* ===== verification/DriverSpec.thy ===== *)
theory DriverSpec
  imports HwSpec Platform Sysfs
begin

text \<open>
  The driver as a whole: what every call from user land and every interrupt keeps of the
  memory manager, the sessions and the job manager together; the driver as a first-in
  first-out service; bringing the driver up.
\<close>

subsection \<open>The invariant of the driver\<close>

text \<open>The address ranges a session owns.\<close>

definition sbufs :: "heap \<Rightarrow> ptr \<Rightarrow> (nat \<times> nat) list" where
  "sbufs h sp = (case h_sess h sp of None \<Rightarrow> [] | Some st \<Rightarrow> map sbuf_range (sbuf_list st))"

text \<open>Every session owns different allocated ranges, and no range has two owners.\<close>

definition bufs_ok :: "heap \<Rightarrow> aipu_memory_manager \<Rightarrow> bool" where
  "bufs_ok h m \<longleftrightarrow>
     (\<forall>sp. distinct (sbufs h sp) \<and> set (sbufs h sp) \<subseteq> mm_live m) \<and>
     (\<forall>sp sq. sp \<noteq> sq \<longrightarrow> set (sbufs h sp) \<inter> set (sbufs h sq) = {})"

definition driver_ok :: "sys \<Rightarrow> bool" where
  "driver_ok s \<longleftrightarrow> jobs_ok s \<and> mm_wf (mm (priv s)) \<and> bufs_ok (hp s) (mm (priv s))"

lemma driver_okD:
  assumes "driver_ok s"
  shows "jobs_ok s" "mm_wf (mm (priv s))" "bufs_ok (hp s) (mm (priv s))" "heap_wf (hp s)" "jm_wf (jm_of s)"
    "jobs_live (hp s) (jm_of s)"
  using assms jobs_okD [of s] by (simp_all add: driver_ok_def)

lemma bufs_okD:
  assumes "bufs_ok h m"
  shows "distinct (sbufs h sp)" "set (sbufs h sp) \<subseteq> mm_live m"
    "sp \<noteq> sq \<Longrightarrow> set (sbufs h sp) \<inter> set (sbufs h sq) = {}"
  using assms by (simp_all add: bufs_ok_def)

lemma bufs_ok_cong:
  assumes "bufs_ok h m" "sbufs h' = sbufs h"
  shows "bufs_ok h' m"
  using assms by (simp add: bufs_ok_def)

lemma sbufs_sess: "h_sess h' = h_sess h \<Longrightarrow> sbufs h' = sbufs h"
  by (simp add: sbufs_def fun_eq_iff)

lemma sbufs_upd: "h_sess h' = (h_sess h)(sp \<mapsto> st) \<Longrightarrow> sbufs h' = (sbufs h)(sp := map sbuf_range (sbuf_list st))"
  by (simp add: sbufs_def fun_eq_iff)

lemma sbufs_upd_same:
  assumes "h_sess h' = (h_sess h)(sp \<mapsto> st')" "h_sess h sp = Some st" "map sbuf_range (sbuf_list st') = map sbuf_range (sbuf_list st)"
  shows "sbufs h' = sbufs h"
  using assms by (simp add: sbufs_def fun_eq_iff)

lemma sbufs_upd_empty:
  assumes "h_sess h' = (h_sess h)(sp \<mapsto> st')" "h_sess h sp = None" "sbuf_list st' = []"
  shows "sbufs h' = sbufs h"
  using assms by (simp add: sbufs_def fun_eq_iff)

text \<open>Ownership when one session's ranges and the allocated ranges change together.\<close>

lemma bufs_ok_grant:
  assumes ok: "bufs_ok h m" and h': "sbufs h' = (sbufs h)(sp := x # sbufs h sp)"
    and live: "mm_live m' = insert x (mm_live m)" and new: "x \<notin> mm_live m"
  shows "bufs_ok h' m'"
  unfolding bufs_ok_def
proof (intro conjI allI impI)
  note b = bufs_okD [OF ok]
  have nx: "x \<notin> set (sbufs h sq)" for sq using b(2) [of sq] new by blast
  fix tp show "distinct (sbufs h' tp)" using b(1) nx by (simp add: h')
  show "set (sbufs h' tp) \<subseteq> mm_live m'" using b(2) [of tp] b(2) [of sp] by (auto simp: h' live)
  fix sq assume "tp \<noteq> sq"
  then show "set (sbufs h' tp) \<inter> set (sbufs h' sq) = {}" using b(3) nx by (auto simp: h')
qed

lemma bufs_ok_drop:
  assumes ok: "bufs_ok h m" and h': "sbufs h' = (sbufs h)(sp := ys)"
    and ys: "distinct ys" "set ys \<subseteq> set (sbufs h sp)" and live: "mm_live m' = mm_live m - (set (sbufs h sp) - set ys)"
  shows "bufs_ok h' m'"
  unfolding bufs_ok_def
proof (intro conjI allI impI)
  note b = bufs_okD [OF ok]
  fix tp show "distinct (sbufs h' tp)" using b(1) ys by (simp add: h')
  show "set (sbufs h' tp) \<subseteq> mm_live m'"
  proof (cases "tp = sp")
    case True
    then show ?thesis using b(2) [of sp] ys by (auto simp: h' live)
  next
    case False
    then show ?thesis using b(2) [of tp] b(3) [OF False] by (auto simp: h' live)
  qed
  fix sq assume "tp \<noteq> sq"
  then have "set (sbufs h tp) \<inter> set (sbufs h sq) = {}" by (rule b(3))
  then show "set (sbufs h' tp) \<inter> set (sbufs h' sq) = {}" using ys(2) \<open>tp \<noteq> sq\<close> by (auto simp: h')
qed

text \<open>A change of the heap that keeps the jobs of the manager alive.\<close>

definition keeps_jobs :: "heap \<Rightarrow> heap \<Rightarrow> bool" where
  "keeps_jobs h h' \<longleftrightarrow> heap_wf h' \<and> h_next h \<le> h_next h' \<and> (\<forall>j. job_live h j \<longrightarrow> job_live h' j)"

lemma keeps_jobs_upd:
  assumes wf: "heap_wf h'" and n: "h_next h \<le> h_next h'" and st: "h_sess h sp = Some st"
    and h': "h_sess h' = (h_sess h)(sp \<mapsto> st')"
    and l: "\<And>p j. p \<in> set (job_list st) \<Longrightarrow> h_sjob h p = Some j \<Longrightarrow> sj_state j = AIPU_JOB_STATE_IDLE \<Longrightarrow> p \<in> set (job_list st')"
    and j: "\<And>p j. h_sjob h p = Some j \<Longrightarrow> sj_state j = AIPU_JOB_STATE_IDLE \<Longrightarrow> h_sjob h' p = Some j"
  shows "keeps_jobs h h'"
  unfolding keeps_jobs_def
proof (intro conjI allI impI)
  fix i assume "job_live h i"
  then obtain t sj where t: "h_sess h (aj_session i) = Some t" "aj_session_job i \<in> set (job_list t)"
    "h_sjob h (aj_session_job i) = Some sj" "sj_state sj = AIPU_JOB_STATE_IDLE" "sj_uthread_id sj = aj_uthread_id i"
    by (auto simp: job_live_def)
  then show "job_live h' i"
    using j [OF t(3,4)] l [of "aj_session_job i" sj] st h' by (cases "aj_session i = sp") (auto simp: job_live_def)
qed (rule wf n)+

lemma keeps_jobs_ok:
  assumes "jobs_ok s" "keeps_jobs (hp s) (hp s')" "jm_of s' = jm_of s"
  shows "jobs_ok s'"
  using assms unfolding jobs_ok_def jobs_live_def keeps_jobs_def by (auto intro: less_le_trans)

subsection \<open>What a call delivers\<close>

definition delivers :: "sys option \<Rightarrow> sys \<Rightarrow> ptr list \<Rightarrow> bool" where
  "delivers r s ids \<longleftrightarrow> (\<exists>s'. r = Some s' \<and> driver_ok s' \<and> subseq (jobs_order s') (jobs_order s @ ids))"

lemma deliversI:
  "r = Some s' \<Longrightarrow> driver_ok s' \<Longrightarrow> subseq (jobs_order s') (jobs_order s @ ids) \<Longrightarrow> delivers r s ids"
  by (auto simp: delivers_def)

text \<open>Calls that change only the heap, and only the job manager.\<close>

lemma delivers_heap:
  assumes "driver_ok s" "r = Some s'" "keeps_jobs (hp s) (hp s')" "priv s' = priv s" "sbufs (hp s') = sbufs (hp s)"
  shows "delivers r s []"
proof (rule deliversI [OF assms(2)])
  show "driver_ok s'"
    using driver_okD(1-3) [OF assms(1)] keeps_jobs_ok [of s s'] assms(3-5) bufs_ok_cong [OF _ assms(5)]
    by (simp add: driver_ok_def)
qed (use assms(4) in simp)

lemma delivers_same:
  assumes "driver_ok s" "r = Some s'" "hp s' = hp s" "priv s' = priv s"
  shows "delivers r s []"
proof (rule delivers_heap [OF assms(1,2)])
  show "keeps_jobs (hp s) (hp s')" using driver_okD(4) [OF assms(1)] assms(3) by (simp add: keeps_jobs_def)
qed (use assms in simp_all)

lemma delivers_jm:
  assumes "driver_ok s" "r = Some s'" "jobs_ok s'" "sbufs (hp s') = sbufs (hp s)" "mm (priv s') = mm (priv s)"
    and "subseq (jobs_order s') (jobs_order s @ ids)"
  shows "delivers r s ids"
  using driver_okD(1-3) [OF assms(1)] assms bufs_ok_cong [OF _ assms(4)]
  by (intro deliversI [OF assms(2)]) (simp_all add: driver_ok_def)

lemma finishes_sbufs: "finishes A h h' \<Longrightarrow> sbufs h' = sbufs h"
proof
  fix sp assume "finishes A h h'"
  then have "rel_option (\<lambda>s s'. job_list s' = job_list s \<and> user_pid s' = user_pid s \<and> sbuf_list s' = sbuf_list s)
      (h_sess h sp) (h_sess h' sp)" by (simp add: finishes_def)
  then show "sbufs h' sp = sbufs h sp" by (auto simp: sbufs_def split: option.splits)
qed

subsection \<open>The file operations\<close>

lemma open_delivers:
  assumes "driver_ok s" "kz_waitq e"
  shows "delivers (map_option (fst \<circ> snd) (aipu_open e s)) s []"
proof -
  have "\<exists>ret sp h. aipu_create_session e (hp s) (cur_tid e) = Some (ret, sp, h)"
    using assms(2) by (cases "kz_session e") (simp_all add: aipu_create_session_def create_thread_wait_queue_no_lock_def
        get_thread_wait_queue_no_lock_def do_create_thread_wait_queue_def Let_def)
  then obtain ret sp h where c: "aipu_create_session e (hp s) (cur_tid e) = Some (ret, sp, h)" by blast
  note eff = create_session_effect [OF driver_okD(4) [OF assms(1)] c]
  have k: "keeps_jobs (hp s) h \<and> sbufs h = sbufs (hp s)"
  proof (cases "ret = 0")
    case True
    then obtain st where st: "h_sess (hp s) sp = None" "h_sjob h = h_sjob (hp s)" "h_sess h = (h_sess (hp s))(sp \<mapsto> st)"
      "sbuf_list st = []" using eff(2) by blast
    have n: "h_next (hp s) \<le> h_next h"
      using c by (auto simp: aipu_create_session_def bind_eq_Some_conv Let_def split: if_splits)
    have "job_live h j" if "job_live (hp s) j" for j using that st by (auto simp: job_live_def)
    then show ?thesis using eff(1) n sbufs_upd_empty [OF st(3,1,4)] by (simp add: keeps_jobs_def)
  next
    case False
    then show ?thesis using eff by (simp add: keeps_jobs_def)
  qed
  show ?thesis
    by (rule delivers_heap [OF assms(1), of _ "put_hp h s"]) (use c k in \<open>auto simp: aipu_open_def\<close>)
qed

lemma mmap_ranges:
  assumes "aipu_session_mmap_buf e st vma = (ret, st', m)"
  shows "map sbuf_range (sbuf_list st') = map sbuf_range (sbuf_list st)" "job_list st' = job_list st"
    "wait_queue_head st' = wait_queue_head st" "\<forall>b \<in> set (sbuf_list st). sb_map_num b \<in> {0, 1} \<Longrightarrow> \<forall>b \<in> set (sbuf_list st'). sb_map_num b \<in> {0, 1}"
proof -
  have "st' = st \<or> (\<exists>i < length (sbuf_list st). sb_map_num (sbuf_list st ! i) = 0 \<and>
      st' = st\<lparr>sbuf_list := (sbuf_list st)[i := (sbuf_list st ! i)\<lparr>sb_map_num := sb_map_num (sbuf_list st ! i) + 1\<rparr>]\<rparr>)"
    using assms find_buffer_SomeD
    by (fastforce simp: aipu_session_mmap_buf_def find_buffer_byoffset_no_lock_def Let_def split: option.splits if_splits)
  moreover have "map sbuf_range ((sbuf_list st)[i := (sbuf_list st ! i)\<lparr>sb_map_num := n\<rparr>]) = map sbuf_range (sbuf_list st)"
    if "i < length (sbuf_list st)" for i n
  proof -
    have "sbuf_range ((sbuf_list st ! i)\<lparr>sb_map_num := n\<rparr>) = map sbuf_range (sbuf_list st) ! i"
      using that by (simp add: sbuf_range_def)
    then show ?thesis by (simp only: map_update list_update_id)
  qed
  ultimately show "map sbuf_range (sbuf_list st') = map sbuf_range (sbuf_list st)" "job_list st' = job_list st"
    "wait_queue_head st' = wait_queue_head st" "\<forall>b \<in> set (sbuf_list st). sb_map_num b \<in> {0, 1} \<Longrightarrow> \<forall>b \<in> set (sbuf_list st'). sb_map_num b \<in> {0, 1}"
    by (auto dest!: set_update_subset_insert [THEN subsetD])
qed

text \<open>A session replaced by one with the same jobs and ranges.\<close>

lemma put_session_delivers:
  assumes ok: "driver_ok s" and st: "h_sess (hp s) sp = Some st" and r: "r = Some (put_hp (put_session sp st' (hp s)) s)"
    and j: "job_list st' = job_list st" and b: "map sbuf_range (sbuf_list st') = map sbuf_range (sbuf_list st)"
    and wf': "session_wf (h_sjob (hp s)) st'"
  shows "delivers r s []"
proof (rule delivers_heap [OF ok r])
  show "keeps_jobs (hp s) (hp (put_hp (put_session sp st' (hp s)) s))"
    using put_session_wf [OF driver_okD(4) [OF ok] st j wf'] by (intro keeps_jobs_upd [where sp = sp and st' = st', OF _ _ st]) (simp_all add: j)
  show "sbufs (hp (put_hp (put_session sp st' (hp s)) s)) = sbufs (hp s)"
    by (rule sbufs_upd_same [OF _ st b]) simp
qed simp

lemma mmap_delivers:
  assumes ok: "driver_ok s" and st: "h_sess (hp s) sp = Some st"
  shows "delivers (map_option (fst \<circ> snd) (aipu_mmap e s sp vma)) s []"
proof -
  obtain ret st' m where r: "aipu_session_mmap_buf e st vma = (ret, st', m)" by (cases "aipu_session_mmap_buf e st vma")
  note mm = mmap_ranges [OF r]
  have "session_wf (h_sjob (hp s)) st" by (rule heap_wfD(4) [OF driver_okD(4) [OF ok] st])
  then have wf: "session_wf (h_sjob (hp s)) st'" using mm by (simp add: session_wf_def)
  show ?thesis
    by (rule put_session_delivers [OF ok st _ mm(2,1) wf])
       (use r st session_null [OF driver_okD(4) [OF ok] st] in \<open>simp add: aipu_mmap_def\<close>)
qed

lemma poll_delivers:
  assumes ok: "driver_ok s" and st: "h_sess (hp s) sp = Some st"
  shows "delivers (map_option snd (aipu_poll e s sp)) s []"
proof -
  note wf = driver_okD(4) [OF ok]
  obtain h st' where h: "aipu_session_add_poll_wait_queue (hp s) sp (cur_tid e) = Some h" "heap_wf h"
    "h_sess h = (h_sess (hp s))(sp \<mapsto> st')" "h_sjob h = h_sjob (hp s)" "h_next h = h_next (hp s)"
    "job_list st' = job_list st" "sbuf_list st' = sbuf_list st"
    using add_poll_effect [OF wf st, of "cur_tid e"] by blast
  have "lookup_jobs h (job_list st') = Some (map (job_at h) (job_list st'))"
    using session_jobs_live(2) [OF wf st] h(4,6) by (intro lookup_jobs_map) simp
  then obtain n where n: "aipu_session_thread_has_end_job h sp (cur_tid e) = Some n"
    using h(3) session_null [OF wf st] by (simp add: aipu_session_thread_has_end_job_def)
  show ?thesis
  proof (rule delivers_heap [OF ok, of _ "put_hp h s"])
    show "keeps_jobs (hp s) (hp (put_hp h s))"
      using h by (intro keeps_jobs_upd [where sp = sp and st' = st', OF _ _ st]) simp_all
    show "sbufs (hp (put_hp h s)) = sbufs (hp s)" using sbufs_upd_same [OF h(3) st] h(7) by simp
  qed (use h n session_null [OF wf st] in \<open>simp_all add: aipu_poll_def\<close>)
qed

subsection \<open>The ioctl commands\<close>

lemma io_delivers:
  assumes "driver_ok s"
  shows "delivers (Some (snd (run_io m s))) s []"
  by (rule delivers_same [OF assms refl]) simp_all

lemma querycap_delivers:
  assumes "driver_ok s"
  shows "delivers (map_option (fst \<circ> snd) (ioctl_querycap e s cap)) s []"
proof -
  have "map_option (fst \<circ> snd) (ioctl_querycap e s cap) = Some (snd (run_io (aipu_priv_query_capability (priv s) cap) s))"
    by (simp add: ioctl_querycap_def split: prod.split)
  then show ?thesis using io_delivers [OF assms] by (simp only:)
qed

lemma reqio_delivers:
  assumes "driver_ok s" "core0 (priv s) \<noteq> None"
  shows "delivers (map_option (fst \<circ> snd) (ioctl_reqio e s req)) s []"
proof -
  obtain m where m: "aipu_priv_io_rw (priv s) req = Some m"
    using assms(2) by (cases "core_ctrl (priv s)") (auto simp: aipu_priv_io_rw_def zhouyi_v1_io_rw_def)
  have "map_option (fst \<circ> snd) (ioctl_reqio e s req) = Some (snd (run_io m s))"
    by (simp add: ioctl_reqio_def m split: prod.split)
  then show ?thesis using io_delivers [OF assms(1)] by (simp only:)
qed

lemma alloc_regions_total:
  assumes "no_kzalloc_failure e"
  shows "\<exists>ret rs' q' b'. alloc_regions_loop el e r0 rs q b = Some (ret, rs', q', b')"
proof (induction rs arbitrary: r0 q b)
  case (Cons r rs)
  have kz: "kz_blk e (rg_id r)" "kz_back e (rg_id r)" using assms by (auto simp: no_kzalloc_failure_def)
  have "\<exists>x. aipu_mm_try_alloc_in_region e r q b = Some x"
  proof (cases "aipu_mm_find_block_candidate_no_lock (rg_blks r) (get_alloc_size r (br_bytes q)) (req_alignment q) (br_data_type q)")
    case (Inl err)
    then show ?thesis
      by (simp add: aipu_mm_try_alloc_in_region_def alloc_in_region_eq aipu_mm_alloc_in_region_compact_no_lock_def)
  next
    case (Inr c)
    obtain i pa where c: "c = (i, pa)" by (cases c)
    obtain ret bl where "aipu_mm_split_block_no_lock True True (cur_tid e) (rg_blks r) i pa
        (get_alloc_size r (br_bytes q)) (br_data_type q) = Some (ret, bl)" using split_block_total by blast
    then show ?thesis using Inr c kz
      by (simp add: aipu_mm_try_alloc_in_region_def alloc_in_region_eq aipu_mm_alloc_in_region_compact_no_lock_def Let_def)
  qed
  then obtain ret r' q' b' where t: "aipu_mm_try_alloc_in_region e r q b = Some (ret, r', q', b')" by (metis surj_pair)
  obtain x1 x2 x3 x4 where x: "alloc_regions_loop el e ret rs q' b' = Some (x1, x2, x3, x4)" using Cons.IH by blast
  obtain y1 y2 y3 y4 where y: "alloc_regions_loop el e r0 rs q b = Some (y1, y2, y3, y4)" using Cons.IH by blast
  show ?case by (simp add: t x y)
qed simp

lemma mm_alloc_total:
  assumes "no_kzalloc_failure e"
  shows "\<exists>ret m' q' b'. aipu_mm_alloc e m q b = Some (ret, m', q', b')"
proof -
  have scan: "\<exists>ret h' q' b'. aipu_mm_scan_regions_alloc e v hd q b = Some (ret, h', q', b')" for v hd q b
  proof (cases hd)
    case (Some rs)
    obtain x1 x2 x3 x4 where x: "alloc_regions_loop (\<lambda>region. br_region_id q = word_of_int (rg_id region)) e (- ENOMEM) rs q b =
        Some (x1, x2, x3, x4)" using alloc_regions_total [OF assms] by blast
    obtain y1 y2 y3 y4 where y: "alloc_regions_loop (\<lambda>region. get_alloc_size region (br_bytes q) \<le> rg_tot_free_bytes region)
        e (- ENOMEM) rs q b = Some (y1, y2, y3, y4)" using alloc_regions_total [OF assms] by blast
    show ?thesis by (simp add: aipu_mm_scan_regions_alloc_def Some x y)
  qed (simp add: aipu_mm_scan_regions_alloc_def)
  obtain x1 x2 x3 x4 where x: "aipu_mm_scan_regions_alloc e (mm_version m) (ddr_head m) q zero_buffer = Some (x1, x2, x3, x4)"
    using scan by blast
  show ?thesis by (simp add: aipu_mm_alloc_def Let_def AIPU_CONFIG_ENABLE_SRAM_def x)
qed

lemma session_buf_wf:
  assumes "session_wf m st" "job_list st' = job_list st" "wait_queue_head st' = wait_queue_head st"
    and "\<forall>b \<in> set (sbuf_list st'). sb_map_num b \<in> {0, 1}"
  shows "session_wf m st'"
  using assms by (simp add: session_wf_def)

text \<open>A session whose buffers change along with the memory manager.\<close>

lemma put_buffers_delivers:
  assumes ok: "driver_ok s" and st: "h_sess (hp s) sp = Some st"
    and s': "hp s' = put_session sp st' (hp s)" "jm_of s' = jm_of s"
    and st': "job_list st' = job_list st" "session_wf (h_sjob (hp s)) st'"
    and m: "mm_wf (mm (priv s'))" "bufs_ok (put_session sp st' (hp s)) (mm (priv s'))"
  shows "delivers (Some s') s []"
proof (rule deliversI [OF refl])
  have wf: "heap_wf (put_session sp st' (hp s))" by (rule put_session_wf [OF driver_okD(4) [OF ok] st st'])
  have "keeps_jobs (hp s) (hp s')"
    unfolding s'(1) using wf st'(1) by (intro keeps_jobs_upd [where sp = sp and st' = st', OF _ _ st]) simp_all
  then show "driver_ok s'" using keeps_jobs_ok [OF driver_okD(1) [OF ok]] s' m by (simp add: driver_ok_def)
qed (simp add: s'(2))

lemma reqbuf_delivers:
  assumes ok: "driver_ok s" and st: "h_sess (hp s) sp = Some st"
    and sane: "sane_request req (mm (priv s))" and kz: "no_kzalloc_failure e"
  shows "delivers (map_option (fst \<circ> snd) (ioctl_reqbuf e s sp req)) s []"
proof -
  obtain ret m q b where a: "aipu_mm_alloc e (mm (priv s)) req zero_buffer = Some (ret, m, q, b)"
    using mm_alloc_total [OF kz] by blast
  note eff = mm_alloc_effect [OF driver_okD(2) [OF ok] sane a]
  show ?thesis
  proof (cases "ret = 0")
    case False
    then have m: "m = mm (priv s)" using eff by simp
    have "map_option (fst \<circ> snd) (ioctl_reqbuf e s sp req) = Some (put_mm m s)"
      using False by (simp add: ioctl_reqbuf_def a errcode_defs Let_def)
    moreover have "delivers (Some (put_mm m s)) s []" by (rule delivers_same [OF ok refl]) (simp_all add: m)
    ultimately show ?thesis by (simp only:)
  next
    case True
    note al = mm_alloc_regions [OF driver_okD(2) [OF ok] sane a [unfolded True]]
    obtain r st' q' where ab: "aipu_session_add_buf e st q b = (r, st', q')" by (metis surj_pair)
    let ?x = "(unat (ab_pa b), unat (ab_bytes b))"
    have st': "job_list st' = job_list st" "wait_queue_head st' = wait_queue_head st"
      "\<forall>b \<in> set (sbuf_list st). sb_map_num b \<in> {0, 1} \<Longrightarrow> \<forall>b \<in> set (sbuf_list st'). sb_map_num b \<in> {0, 1}"
      "map sbuf_range (sbuf_list st') \<in> {map sbuf_range (sbuf_list st), ?x # map sbuf_range (sbuf_list st)}"
      using ab by (auto simp: aipu_session_add_buf_def create_session_buf_def init_session_buf_def sbuf_range_def
          split: option.splits if_splits)
    have swf: "session_wf (h_sjob (hp s)) st" by (rule heap_wfD(4) [OF driver_okD(4) [OF ok] st])
    have wf': "session_wf (h_sjob (hp s)) st'"
      by (rule session_buf_wf [OF swf st'(1,2)]) (use st'(3) swf in \<open>simp add: session_wf_def\<close>)
    have new: "?x \<notin> mm_live (mm (priv s))" using al(3,4) by (auto simp: apart_def)
    have upd: "sbufs (put_session sp st' (hp s)) = (sbufs (hp s))(sp := map sbuf_range (sbuf_list st'))"
      by (rule sbufs_upd) simp
    have cur: "sbufs (hp s) sp = map sbuf_range (sbuf_list st)" by (simp add: sbufs_def st)
    have bo: "bufs_ok (put_session sp st' (hp s)) m"
    proof (cases "map sbuf_range (sbuf_list st') = map sbuf_range (sbuf_list st)")
      case True
      then have "sbufs (put_session sp st' (hp s)) = sbufs (hp s)" using upd cur by (simp add: fun_upd_idem)
      moreover have "bufs_ok (hp s) m"
        using driver_okD(3) [OF ok] al(2) by (auto simp: bufs_ok_def)
      ultimately show ?thesis by (rule bufs_ok_cong [rotated])
    next
      case False
      then show ?thesis
        using st'(4) upd cur by (intro bufs_ok_grant [where sp = sp, OF driver_okD(3) [OF ok] _ al(2) new]) simp
    qed
    let ?s' = "put_hp (put_session sp st' (hp s)) (put_mm m s)"
    have "map_option (fst \<circ> snd) (ioctl_reqbuf e s sp req) = Some ?s'"
      using True by (simp add: ioctl_reqbuf_def a errcode_defs Let_def st ab)
    moreover have "delivers (Some ?s') s []"
      by (rule put_buffers_delivers [OF ok st _ _ st'(1) wf']) (use al(1) bo in simp_all)
    ultimately show ?thesis by (simp only:)
  qed
qed

lemma drop_one:
  "distinct (xs @ y # zs) \<Longrightarrow>
   distinct (xs @ zs) \<and> set (xs @ zs) \<subseteq> set (xs @ y # zs) \<and> set (xs @ y # zs) - set (xs @ zs) = {y}"
  by auto

lemma freebuf_delivers:
  assumes ok: "driver_ok s" and st: "h_sess (hp s) sp = Some st"
  shows "delivers (map_option snd (ioctl_freebuf s sp d)) s []"
proof (cases "find_buffer_bydesc_no_lock st d")
  case None
  have wf: "session_wf (h_sjob (hp s)) st" by (rule heap_wfD(4) [OF driver_okD(4) [OF ok] st])
  have "map_option snd (ioctl_freebuf s sp d) = Some (put_hp (put_session sp st (hp s)) s)"
    using None by (simp add: ioctl_freebuf_def st aipu_session_detach_buf_def map_errcode_def errcode_defs errno_defs Let_def)
  moreover have "delivers (Some (put_hp (put_session sp st (hp s)) s)) s []"
    by (rule put_session_delivers [OF ok st refl refl refl wf])
  ultimately show ?thesis by (simp only:)
next
  case (Some i)
  let ?b = "sbuf_list st ! i"
  have i: "i < length (sbuf_list st)" "ab_pa (sb_desc ?b) = bd_pa d" "ab_bytes (sb_desc ?b) = bd_bytes d"
    using find_buffer_SomeD [OF Some [unfolded find_buffer_bydesc_no_lock_def]] by auto
  define st' where "st' = st\<lparr>sbuf_list := take i (sbuf_list st) @ drop (Suc i) (sbuf_list st)\<rparr>"
  have split: "sbuf_list st = take i (sbuf_list st) @ ?b # drop (Suc i) (sbuf_list st)" by (rule nth_split [OF i(1)])
  have r: "sbuf_range ?b = (unat (bd_pa d), unat (bd_bytes d))" using i by (simp add: sbuf_range_def)
  have cur: "sbufs (hp s) sp = map sbuf_range (sbuf_list st)" by (simp add: sbufs_def st)
  note own = bufs_okD [OF driver_okD(3) [OF ok], of sp, unfolded cur]
  have live: "(unat (bd_pa d), unat (bd_bytes d)) \<in> mm_live (mm (priv s))"
    using own(2) i(1) r by (metis imageI list.set_map nth_mem subsetD)
  obtain m where m: "aipu_mm_free (mm (priv s)) d = (0, m)" "mm_wf m"
    "mm_live m = mm_live (mm (priv s)) - {(unat (bd_pa d), unat (bd_bytes d))}"
    using mm_free_effect [OF driver_okD(2) [OF ok] live] by (metis surj_pair)
  let ?ys = "map sbuf_range (sbuf_list st')"
  have ms: "map sbuf_range (sbuf_list st) =
      map sbuf_range (take i (sbuf_list st)) @ sbuf_range ?b # map sbuf_range (drop (Suc i) (sbuf_list st))"
    by (subst split) simp
  have ys: "?ys = map sbuf_range (take i (sbuf_list st)) @ map sbuf_range (drop (Suc i) (sbuf_list st))" by (simp add: st'_def)
  have d: "distinct ?ys" "set ?ys \<subseteq> set (sbufs (hp s) sp)" "set (sbufs (hp s) sp) - set ?ys = {sbuf_range ?b}"
    using drop_one [OF own(1) [unfolded ms]] unfolding cur ms ys by blast+
  have upd: "sbufs (put_session sp st' (hp s)) = (sbufs (hp s))(sp := ?ys)" by (rule sbufs_upd) simp
  have bo: "bufs_ok (put_session sp st' (hp s)) m"
    by (rule bufs_ok_drop [OF driver_okD(3) [OF ok] upd d(1,2)]) (use m(3) d(3) r in simp)
  have swf: "session_wf (h_sjob (hp s)) st" by (rule heap_wfD(4) [OF driver_okD(4) [OF ok] st])
  have wf': "session_wf (h_sjob (hp s)) st'"
    by (rule session_buf_wf [OF swf]) (use swf in \<open>auto simp: st'_def session_wf_def dest: in_set_takeD in_set_dropD\<close>)
  let ?s' = "put_mm m (put_hp (put_session sp st' (hp s)) s)"
  have "map_option snd (ioctl_freebuf s sp d) = Some ?s'"
    using Some m(1) by (simp add: ioctl_freebuf_def st aipu_session_detach_buf_def errcode_defs Let_def st'_def)
  moreover have "delivers (Some ?s') s []"
    by (rule put_buffers_delivers [OF ok st, where st' = st']) (use m(2) bo wf' in \<open>simp_all add: st'_def\<close>)
  ultimately show ?thesis by (simp only:)
qed

lemma add_job_total:
  assumes wf: "heap_wf h" and st: "h_sess h sp = Some st" and kz: "kz_waitq e"
  shows "\<exists>jp h' uj'. aipu_session_add_job e h sp uj = Some (jp, h', uj') \<and> (jp = 0 \<longleftrightarrow> \<not> kz_sjob e) \<and>
    (jp \<noteq> 0 \<longrightarrow> h_next h' = h_next h + 1)"
proof -
  obtain qs where qs: "wait_queue_head st = Some qs" using session_wf_qs [OF heap_wfD(4) [OF wf st]] by metis
  have n: "h_next h \<noteq> 0" using heap_wfD(1) [OF wf] by simp
  obtain q qs' where q: "create_thread_wait_queue_no_lock e (Some qs) (cur_tid e) = Some (q, Some qs')"
    using create_wait_queue_total [OF kz] by blast
  have sp: "sp \<noteq> 0" by (rule session_null [OF wf st])
  show ?thesis
    using n sp st qs q by (cases "kz_sjob e") (simp_all add: aipu_session_add_job_def create_session_job_def)
qed

definition runjob_arrivals :: "kenv \<Rightarrow> sys \<Rightarrow> ptr list" where
  "runjob_arrivals e s = (if kz_sjob e \<and> kz_ajob e then [h_next (hp s) + 1] else [])"

lemma runjob_delivers:
  assumes ok: "driver_ok s" and st: "h_sess (hp s) sp = Some st" and kz: "kz_waitq e"
  shows "delivers (map_option (fst \<circ> snd) (ioctl_runjob e s sp uj)) s (runjob_arrivals e s)"
proof -
  note wf = driver_okD(4) [OF ok]
  obtain jp h uj1 where a: "aipu_session_add_job e (hp s) sp uj = Some (jp, h, uj1)" "jp = 0 \<longleftrightarrow> \<not> kz_sjob e"
    "jp \<noteq> 0 \<longrightarrow> h_next h = h_next (hp s) + 1" using add_job_total [OF wf st kz] by blast
  note eff = add_job_effect [OF wf st a(1)]
  let ?s1 = "put_hp h s"
  show ?thesis
  proof (cases "jp = 0")
    case True
    have "map_option (fst \<circ> snd) (ioctl_runjob e s sp uj) = Some ?s1" using True by (simp add: ioctl_runjob_def a(1))
    moreover have "delivers (Some ?s1) s []" by (rule delivers_same [OF ok refl]) (use eff(2) True in simp_all)
    moreover have "runjob_arrivals e s = []" using True a(2) by (simp add: runjob_arrivals_def)
    ultimately show ?thesis by (simp only:)
  next
    case False
    from eff(3) [OF False] obtain qs where j: "h_sjob (hp s) jp = None"
      "h_sjob h = (h_sjob (hp s))(jp \<mapsto> init_session_job e (Some (uj_desc uj)))"
      "h_sess h = (h_sess (hp s))(sp \<mapsto> st\<lparr>job_list := jp # job_list st, wait_queue_head := Some qs\<rparr>)" by blast
    let ?st = "st\<lparr>job_list := jp # job_list st, wait_queue_head := Some qs\<rparr>"
    have kj: "keeps_jobs (hp s) h"
      using eff(1) a(3) False j by (intro keeps_jobs_upd [where sp = sp and st' = ?st, OF _ _ st]) auto
    have ok1: "jobs_ok ?s1" by (rule keeps_jobs_ok [OF driver_okD(1) [OF ok]]) (use kj in simp_all)
    have sb: "sbufs h = sbufs (hp s)" by (rule sbufs_upd_same [OF j(3) st]) simp
    have fresh: "fresh_job ?s1 jp sp"
    proof -
      have "jp \<noteq> aj_session_job i" if "i \<in> set (all_jobs (jm_of s))" "valid_job i" for i
        using jobs_liveD(2) [OF driver_okD(6) [OF ok] that] j(1) by (auto simp: job_live_def)
      then show ?thesis by (auto simp: fresh_job_def j init_session_job_def)
    qed
    have call: "map_option (fst \<circ> snd) (ioctl_runjob e s sp uj) =
        map_option (fst \<circ> snd) (aipu_job_manager_schedule_new_job e ?s1 uj1 jp sp)"
      using False by (cases "aipu_job_manager_schedule_new_job e ?s1 uj1 jp sp") (auto simp: ioctl_runjob_def a(1))
    show ?thesis
    proof (cases "kz_ajob e")
      case True
      obtain s' where s': "aipu_job_manager_schedule_new_job e ?s1 uj1 jp sp = Some (0, s', uj1\<lparr>uj_errcode := AIPU_ERRCODE_NO_ERROR\<rparr>)"
        "jobs_ok s'" "jobs_order s' = jobs_order ?s1 @ [h_next (hp ?s1)]" "h_sess (hp s') = h_sess (hp ?s1)"
        "priv s' = (priv ?s1)\<lparr>job_manager := jm_of s'\<rparr>"
        using submit_service [OF ok1 fresh True, of uj1] by blast
      have "delivers (Some s') s (runjob_arrivals e s)"
      proof (rule delivers_jm [OF ok refl s'(2)])
        show "sbufs (hp s') = sbufs (hp s)" using sbufs_sess [OF s'(4)] sb by simp
        show "mm (priv s') = mm (priv s)" by (subst s'(5)) simp
        show "subseq (jobs_order s') (jobs_order s @ runjob_arrivals e s)"
          using s'(3) a False True by (simp add: runjob_arrivals_def)
      qed
      then show ?thesis unfolding call s'(1) by simp
    next
      case no: False
      have "aipu_job_manager_schedule_new_job e ?s1 uj1 jp sp =
          Some (map_errcode AIPU_ERRCODE_CREATE_KOBJ_ERR, ?s1, uj1\<lparr>uj_errcode := AIPU_ERRCODE_CREATE_KOBJ_ERR\<rparr>)"
        by (rule submit_no_memory [OF session_null [OF wf st] False no])
      moreover have "delivers (Some ?s1) s (runjob_arrivals e s)"
        by (rule delivers_jm [OF ok refl ok1]) (use sb no in \<open>simp_all add: runjob_arrivals_def\<close>)
      ultimately show ?thesis unfolding call by simp
    qed
  qed
qed

lemma querystatus_delivers:
  assumes ok: "driver_ok s" and st: "h_sess (hp s) sp = Some st"
  shows "delivers (map_option (fst \<circ> snd) (ioctl_querystatus e s sp q)) s []"
proof -
  note wf = driver_okD(4) [OF ok]
  have "\<exists>ret h q'. aipu_session_get_job_status e (hp s) sp q = Some (ret, h, q') \<and> keeps_jobs (hp s) h \<and> sbufs h = sbufs (hp s)"
  proof (cases "1 \<le> jq_max_cnt q \<and> kz_status e \<and> (jq_get_single_job q \<noteq> 0 \<or> 0 \<le> sint (jq_max_cnt q))")
    case True
    define r where "r = reported q (hp s) (if jq_get_single_job q \<noteq> 0 then 1 else unat (jq_max_cnt q)) (job_list st)"
    let ?st = "st\<lparr>job_list := filter (\<lambda>p. p \<notin> set r) (job_list st)\<rparr>"
    let ?h = "put_session sp ?st (forget_jobs (set r) (hp s))"
    obtain ret q' where g: "aipu_session_get_job_status e (hp s) sp q = Some (ret, ?h, q')"
      using get_job_status_effect [OF wf st _ _ _ refl r_def] True by blast
    have sub: "set r \<subseteq> set (job_list st)" unfolding r_def reported_def by (auto dest: in_set_takeD)
    have ended: "sj_state (job_at (hp s) p) = AIPU_JOB_STATE_END" if "p \<in> set r" for p
      using that unfolding r_def reported_def by (auto dest!: in_set_takeD simp: job_selected_def)
    have idle: "p \<notin> set r" if "h_sjob (hp s) p = Some j" "sj_state j = AIPU_JOB_STATE_IDLE" for p j
      using ended [of p] that by (auto simp: job_at_def)
    have "keeps_jobs (hp s) ?h"
      using drop_jobs_wf [OF wf st sub] idle by (intro keeps_jobs_upd [where sp = sp and st' = ?st, OF _ _ st]) auto
    moreover have "sbufs ?h = sbufs (hp s)" by (rule sbufs_upd_same [OF _ st, where st' = ?st]) simp_all
    ultimately show ?thesis using g by blast
  next
    case False
    have le: "1 \<le> jq_max_cnt q \<longleftrightarrow> \<not> jq_max_cnt q < 1" by (rule linorder_not_less [symmetric])
    from False consider "jq_max_cnt q < 1" | "\<not> jq_max_cnt q < 1" "\<not> kz_status e"
      | "\<not> jq_max_cnt q < 1" "jq_get_single_job q = 0" "\<not> 0 \<le> sint (jq_max_cnt q)" unfolding le by blast
    then have "\<exists>ret q'. aipu_session_get_job_status e (hp s) sp q = Some (ret, hp s, q')"
    proof cases
      case 1
      then show ?thesis using session_null [OF wf st] by (simp only: aipu_session_get_job_status_def) simp
    next
      case 2
      then show ?thesis using session_null [OF wf st] by (simp only: aipu_session_get_job_status_def if_False Let_def) simp
    next
      case 3
      then show ?thesis using session_null [OF wf st] by (simp only: aipu_session_get_job_status_def if_False Let_def) simp
    qed
    moreover have "keeps_jobs (hp s) (hp s)" using wf by (simp add: keeps_jobs_def)
    ultimately show ?thesis by blast
  qed
  then obtain ret h q' where g: "aipu_session_get_job_status e (hp s) sp q = Some (ret, h, q')" "keeps_jobs (hp s) h"
    "sbufs h = sbufs (hp s)" by blast
  have "map_option (fst \<circ> snd) (ioctl_querystatus e s sp q) = Some (put_hp h s)"
    by (simp add: ioctl_querystatus_def g(1) Let_def)
  moreover have "delivers (Some (put_hp h s)) s []" by (rule delivers_heap [OF ok refl]) (use g in simp_all)
  ultimately show ?thesis by (simp only:)
qed

lemma timeout_frame:
  assumes "jm_wf (jm_of s)" "aipu_invalidate_timeout_job e s jid = Some (ret, s')"
  shows "mm (priv s') = mm (priv s)"
proof -
  note t = timeout_effect [OF assms(1), of e jid]
  show ?thesis
  proof (cases "find (timeout_target e jid) (pending_jobs (jm_of s))")
    case (Some j)
    then show ?thesis using t(1) [of j] assms(2) by auto
  next
    case None
    show ?thesis
    proof (cases "find (timeout_target e jid) (scheduled_jobs (jm_of s))")
      case (Some j)
      with t(2) None obtain ys xs where "aipu_invalidate_timeout_job e s jid =
        Some (if aj_state j = AIPU_JOB_STATE_SCHED then 0 else - EINVAL,
          put_jm (with_queues (pending_jobs (jm_of s)) (ys @ cancel_running j # xs) (jm_of s)) s)" by blast
      then show ?thesis using assms(2) by auto
    next
      case n: None
      then show ?thesis using t(3) None assms(2) by simp
    qed
  qed
qed

lemma kill_delivers:
  assumes ok: "driver_ok s"
  shows "delivers (map_option snd (aipu_invalidate_timeout_job e s jid)) s []"
proof -
  obtain s' where s': "map_option snd (aipu_invalidate_timeout_job e s jid) = Some s'" "subseq (jobs_order s') (jobs_order s @ [])"
    using timeout_service [OF driver_okD(1) [OF ok], of e jid] by (auto simp: serves_def)
  then obtain ret where r: "aipu_invalidate_timeout_job e s jid = Some (ret, s')" by auto
  note t = timeout_jobs_ok [OF driver_okD(1) [OF ok] r]
  show ?thesis
    by (rule delivers_jm [OF ok s'(1) t(1) _ timeout_frame [OF driver_okD(5) [OF ok] r] s'(2)]) (simp add: t(2))
qed

text \<open>
  What the callers guarantee per command: an environment that can hand out the objects the
  driver takes without a check, a register region, and no wrapping stack request.
\<close>

fun ioctl_adm :: "kenv \<Rightarrow> sys \<Rightarrow> ioctl_arg \<Rightarrow> bool" where
  "ioctl_adm e s (IPUIOC_REQBUF req) = (sane_request req (mm (priv s)) \<and> no_kzalloc_failure e)"
| "ioctl_adm e s (IPUIOC_RUNJOB uj) = kz_waitq e"
| "ioctl_adm e s (IPUIOC_REQIO req) = (core0 (priv s) \<noteq> None)"
| "ioctl_adm e s _ = True"

fun ioctl_arrivals :: "kenv \<Rightarrow> sys \<Rightarrow> ioctl_arg \<Rightarrow> ptr list" where
  "ioctl_arrivals e s (IPUIOC_RUNJOB uj) = (if cfu_left e = 0 then runjob_arrivals e s else [])"
| "ioctl_arrivals e s _ = []"

lemma delivers_id: "driver_ok s \<Longrightarrow> delivers (Some s) s []"
  by (rule delivers_same [OF _ refl]) simp_all

lemma ioctl_delivers:
  assumes ok: "driver_ok s" and st: "h_sess (hp s) sp = Some st" and adm: "ioctl_adm e s arg"
  shows "delivers (map_option (fst \<circ> snd) (aipu_ioctl e s sp arg)) s (ioctl_arrivals e s arg)"
proof -
  have sp: "sp \<noteq> 0" by (rule session_null [OF driver_okD(4) [OF ok] st])
  show ?thesis
  proof (cases "cfu_left e = 0")
    case False
    then have "map_option (fst \<circ> snd) (aipu_ioctl e s sp arg) = Some s" "ioctl_arrivals e s arg = []"
      using sp by (cases arg; simp add: aipu_ioctl_def errcode_defs)+
    then show ?thesis using delivers_id [OF ok] by (simp only:)
  next
    case True
    note run = aipu_ioctl_def errcode_defs
    show ?thesis
    proof (cases arg)
      case (IPUIOC_QUERYCAP cap)
      then have "aipu_ioctl e s sp arg = ioctl_querycap e s cap" using sp True by (simp add: run)
      then show ?thesis using querycap_delivers [OF ok] IPUIOC_QUERYCAP by (simp only: ioctl_arrivals.simps)
    next
      case (IPUIOC_REQBUF req)
      then have "aipu_ioctl e s sp arg = ioctl_reqbuf e s sp req" using sp True by (simp add: run)
      then show ?thesis using reqbuf_delivers [OF ok st] adm IPUIOC_REQBUF by (simp only: ioctl_arrivals.simps ioctl_adm.simps)
    next
      case (IPUIOC_RUNJOB uj)
      then have "aipu_ioctl e s sp arg = ioctl_runjob e s sp uj" using sp True by (simp add: run)
      then show ?thesis using runjob_delivers [OF ok st] adm IPUIOC_RUNJOB True
        by (simp only: ioctl_arrivals.simps ioctl_adm.simps refl if_True)
    next
      case (IPUIOC_KILL_TIMEOUT_JOB jid)
      then have "map_option (fst \<circ> snd) (aipu_ioctl e s sp arg) = map_option snd (aipu_invalidate_timeout_job e s jid)"
        using sp True by (cases "aipu_invalidate_timeout_job e s jid") (auto simp: run)
      then show ?thesis using kill_delivers [OF ok] IPUIOC_KILL_TIMEOUT_JOB by (simp only: ioctl_arrivals.simps)
    next
      case (IPUIOC_FREEBUF d)
      then have "map_option (fst \<circ> snd) (aipu_ioctl e s sp arg) = map_option snd (ioctl_freebuf s sp d)"
        using sp True by (cases "ioctl_freebuf s sp d") (auto simp: run)
      then show ?thesis using freebuf_delivers [OF ok st] IPUIOC_FREEBUF by (simp only: ioctl_arrivals.simps)
    next
      case (IPUIOC_REQSHMMAP v)
      then have "map_option (fst \<circ> snd) (aipu_ioctl e s sp arg) = Some s" using sp by (simp add: run)
      then show ?thesis using delivers_id [OF ok] IPUIOC_REQSHMMAP by (simp only: ioctl_arrivals.simps)
    next
      case (IPUIOC_REQIO req)
      then have "aipu_ioctl e s sp arg = ioctl_reqio e s req" using sp True by (simp add: run)
      then show ?thesis using reqio_delivers [OF ok] adm IPUIOC_REQIO
        by (simp only: ioctl_arrivals.simps ioctl_adm.simps simp_thms)
    next
      case (IPUIOC_QUERYSTATUS q)
      then have "aipu_ioctl e s sp arg = ioctl_querystatus e s sp q" using sp True by (simp add: run)
      then show ?thesis using querystatus_delivers [OF ok st] IPUIOC_QUERYSTATUS by (simp only: ioctl_arrivals.simps)
    next
      case IPUIOC_UNKNOWN
      then have "map_option (fst \<circ> snd) (aipu_ioctl e s sp arg) = Some s" using sp by (simp add: run)
      then show ?thesis using delivers_id [OF ok] IPUIOC_UNKNOWN by (simp only: ioctl_arrivals.simps)
    qed
  qed
qed

subsection \<open>Release and interrupts\<close>

lemma remove_session_wf:
  assumes "heap_wf h" "h_sess h sp = Some st" "job_list st = []"
  shows "heap_wf (h\<lparr>h_sess := (h_sess h)(sp := None)\<rparr>)"
proof -
  let ?t = "st\<lparr>sbuf_list := []\<rparr>" and ?h = "put_session sp (st\<lparr>sbuf_list := []\<rparr>) h"
  have "session_wf (h_sjob h) ?t" using heap_wfD(4) [OF assms(1,2)] by (simp add: session_wf_def)
  then have wf: "heap_wf ?h" by (intro put_session_wf [OF assms(1,2)]) simp_all
  have "aipu_destroy_session ?h sp = Some (0, ?h\<lparr>h_sess := (h_sess ?h)(sp := None)\<rparr>)"
    using session_null [OF assms(1,2)] assms(3)
    by (simp add: aipu_destroy_session_def is_session_all_jobs_end_def is_session_all_buffers_freed_def errcode_defs)
  from destroy_session_wf [OF wf this] show ?thesis by (simp add: put_session_def)
qed

lemma release_delivers:
  assumes ok: "driver_ok s" and c: "cancelable s sp"
  shows "delivers (map_option snd (aipu_release e s sp)) s []"
proof -
  obtain st where st: "h_sess (hp s) sp = Some st" using c by (auto simp: cancelable_def)
  have sess: "\<forall>j \<in> set (all_jobs (jm_of s)). h_sess (hp s) (aj_session j) \<noteq> None"
    and fin: "\<forall>j \<in> set (ended (jm_of s)). valid_job j \<longrightarrow> aj_session j \<noteq> sp"
    using c by (simp_all add: cancelable_def)
  obtain s1 where s1: "aipu_job_manager_cancel_session_jobs e s sp = Some (0, s1)" "jobs_ok s1"
    "\<forall>j \<in> set (all_jobs (jm_of s1)). valid_job j \<longrightarrow> aj_session j \<noteq> sp"
    "priv s1 = (priv s)\<lparr>job_manager := jm_of s1\<rparr>" "h_sess (hp s1) = (h_sess (hp s))(sp \<mapsto> st\<lparr>job_list := []\<rparr>)"
    using cancel_result [OF driver_okD(1) [OF ok] st sess, of e] fin by blast
  have ord: "subseq (jobs_order s1) (jobs_order s)"
    using cancel_service [OF driver_okD(1) [OF ok] c, of e] s1(1) by (simp add: serves_def)
  have mm1: "mm (priv s1) = mm (priv s)" by (subst s1(4)) simp
  let ?st = "st\<lparr>job_list := []\<rparr>"
  have cur: "sbufs (hp s) sp = map sbuf_range (sbuf_list st)" by (simp add: sbufs_def st)
  note own = bufs_okD [OF driver_okD(3) [OF ok], of sp, unfolded cur]
  have d: "distinct (map sbuf_range (sbuf_list ?st))" "sbuf_range ` set (sbuf_list ?st) \<subseteq> mm_live (mm (priv s))"
    using own(1,2) by simp_all
  obtain m where m: "aipu_mm_free_session_buffers (mm (priv s)) ?st = (0, m, ?st\<lparr>sbuf_list := []\<rparr>)" "mm_wf m"
    "mm_live m = mm_live (mm (priv s)) - sbuf_range ` set (sbuf_list st)"
    using free_session_buffers_effect [OF driver_okD(2) [OF ok] d] by auto
  let ?h = "(hp s1)\<lparr>h_sess := (h_sess (hp s1))(sp := None)\<rparr>"
  let ?s' = "put_hp ?h (put_mm m s1)"
  have nz: "sp \<noteq> 0" by (rule session_null [OF driver_okD(4) [OF ok] st])
  have call: "map_option snd (aipu_release e s sp) = Some ?s'"
    using nz by (simp add: aipu_release_def s1(1) errcode_defs s1(5) mm1 m(1) Let_def aipu_destroy_session_def
        is_session_all_jobs_end_def is_session_all_buffers_freed_def put_session_def put_mm_def put_hp_def)
  have wf: "heap_wf ?h" by (rule remove_session_wf [OF jobs_okD(1) [OF s1(2)], of sp ?st]) (simp_all add: s1(5))
  have live: "job_live ?h j" if "job_live (hp s1) j" "aj_session j \<noteq> sp" for j using that by (auto simp: job_live_def)
  have "jobs_ok ?s'"
    using wf jobs_okD [OF s1(2)] live s1(3) unfolding jobs_ok_def jobs_live_def by simp
  moreover have "bufs_ok ?h m"
  proof (rule bufs_ok_drop [OF driver_okD(3) [OF ok]])
    show "sbufs ?h = (sbufs (hp s))(sp := [])" by (simp add: sbufs_def s1(5) fun_eq_iff)
    show "mm_live m = mm_live (mm (priv s)) - (set (sbufs (hp s) sp) - set [])" by (simp add: m(3) cur)
  qed simp_all
  ultimately have "driver_ok ?s'" using m(2) by (simp add: driver_ok_def)
  then show ?thesis using ord by (intro deliversI [OF call]) simp_all
qed

text \<open>The core's interrupt is connected: an object with handlers and a work queue, and registers.\<close>

definition irq_wired :: "sys \<Rightarrow> bool" where
  "irq_wired s \<longleftrightarrow> (case core0 (priv s) of None \<Rightarrow> False | Some c \<Rightarrow> io_valid (core_base0 c) 4 \<and>
     (case core_irq_obj c of None \<Rightarrow> False | Some obj \<Rightarrow> oq_wq obj \<and> oq_uhandler obj \<noteq> None))"

lemma irq_wiredE:
  assumes "irq_wired s"
  obtains c obj ops where "core0 (priv s) = Some c" "core_irq_obj c = Some obj" "oq_wq obj" "oq_uhandler obj = Some ops"
    "io_valid (core_base0 c) 4"
  using assms by (auto simp: irq_wired_def split: option.splits)

lemma irq_delivers:
  assumes ok: "driver_ok s" and w: "irq_wired s" and l: "\<forall>j \<in> set (running (jm_of s)). job_live (hp s) j"
  shows "delivers (map_option snd (aipu_irq_handler_upper_half e s)) s []"
proof -
  from w obtain c obj ops where c: "core0 (priv s) = Some c" "core_irq_obj c = Some obj" "oq_wq obj" "oq_uhandler obj = Some ops"
    "io_valid (core_base0 c) 4" by (rule irq_wiredE)
  have rdy: "irq_ready s" using driver_okD(1) [OF ok] l by (simp add: irq_ready_def)
  define s1 where "s1 = exec_io (aipu_write32 (core_base0 c) 0 0) s"
  obtain s5 qd where s5: "aipu_irq_handler_upper_half e s = Some (IRQ_HANDLED, exec_io (aipu_write32 (core_base0 c) 0 (irq_flags ops)) s5)"
    "irq_part s1 s5 qd" using upper_half_runs [OF rdy c s1_def, of e] by blast
  let ?s' = "exec_io (aipu_write32 (core_base0 c) 0 (irq_flags ops)) s5"
  have p: "irq_ready s5" "order_of (jm_of s5) = order_of (jm_of s1)" "same_jobs (hp s1) (hp s5)"
    "priv s5 = (priv s1)\<lparr>job_manager := jm_of s5\<rparr>" using s5(2) by (simp_all add: irq_part_def)
  have s1: "priv s1 = priv s" "hp s1 = hp s" by (simp_all add: s1_def)
  show ?thesis
  proof (rule delivers_jm [OF ok])
    show "map_option snd (aipu_irq_handler_upper_half e s) = Some ?s'" by (simp add: s5(1))
    show "jobs_ok ?s'" using p(1) by (simp add: irq_ready_def jobs_ok_def)
    show "sbufs (hp ?s') = sbufs (hp s)" using p(3) s1(2) by (intro sbufs_sess) (simp add: same_jobs_def)
    have "mm (priv s5) = mm (priv s1)" by (subst p(4)) simp
    then show "mm (priv ?s') = mm (priv s)" using s1 by simp
    show "subseq (jobs_order ?s') (jobs_order s @ [])" using p(2) s1(1) by simp
  qed
qed

lemma bottom_half_delivers:
  assumes ok: "driver_ok s" and w: "irq_wired s"
  shows "delivers (aipu_irq_handler_bottom_half s) s []"
proof -
  from w obtain c obj ops where c: "core0 (priv s) = Some c" "core_irq_obj c = Some obj" "oq_uhandler obj = Some ops"
    by (rule irq_wiredE)
  let ?s = "s\<lparr>work_queued := False\<rparr>"
  have call: "aipu_irq_handler_bottom_half s = aipu_job_manager_update_job_queue_done_irq ?s"
    by (simp add: aipu_irq_handler_bottom_half_def c Let_def zhouyi_v1_bottom_half_def zhouyi_v2_bottom_half_def
        split: aipu_io_operation.split)
  have ok1: "jobs_ok ?s" using driver_okD(1) [OF ok] by (simp add: jobs_ok_def)
  obtain s' where s': "aipu_job_manager_update_job_queue_done_irq ?s = Some s'" "jobs_ok s'"
    "priv s' = (priv ?s)\<lparr>job_manager := reaped (jm_of ?s)\<rparr>"
    "finishes (aj_session_job ` {j \<in> set (ended (jm_of ?s)). valid_job j}) (hp ?s) (hp s')"
    using bottom_half_effect [OF ok1] by blast
  show ?thesis
  proof (rule delivers_jm [OF ok])
    show "aipu_irq_handler_bottom_half s = Some s'" using call s'(1) by simp
    show "sbufs (hp s') = sbufs (hp s)" using finishes_sbufs [OF s'(4)] by simp
    show "mm (priv s') = mm (priv s)" using s'(3) by simp
    show "subseq (jobs_order s') (jobs_order s @ [])"
      using bottom_half_service [OF ok1] s'(1) by (simp add: serves_def)
  qed (rule s'(2))
qed

subsection \<open>The driver as a first-in first-out service\<close>

text \<open>The calls from user land, per open file, and the two halves of an interrupt.\<close>

datatype driver_event =
    Ev_open
  | Ev_release ptr
  | Ev_ioctl ptr ioctl_arg
  | Ev_mmap ptr vm_area_struct
  | Ev_poll ptr
  | Ev_irq
  | Ev_bottom_half

fun driver_call :: "kenv \<times> driver_event \<Rightarrow> sys \<Rightarrow> sys option" where
  "driver_call (e, Ev_open) s = map_option (fst \<circ> snd) (aipu_open e s)"
| "driver_call (e, Ev_release sp) s = map_option snd (aipu_release e s sp)"
| "driver_call (e, Ev_ioctl sp arg) s = map_option (fst \<circ> snd) (aipu_ioctl e s sp arg)"
| "driver_call (e, Ev_mmap sp vma) s = map_option (fst \<circ> snd) (aipu_mmap e s sp vma)"
| "driver_call (e, Ev_poll sp) s = map_option snd (aipu_poll e s sp)"
| "driver_call (e, Ev_irq) s = map_option snd (aipu_irq_handler_upper_half e s)"
| "driver_call (e, Ev_bottom_half) s = aipu_irq_handler_bottom_half s"

text \<open>
  A file is used while its session exists; it is closed in an orderly way, with none of its
  jobs between the two halves and no job of a destroyed session in the queues; an interrupt
  finds the session jobs of the running jobs.
\<close>

fun driver_adm :: "kenv \<times> driver_event \<Rightarrow> sys \<Rightarrow> bool" where
  "driver_adm (e, Ev_open) s = kz_waitq e"
| "driver_adm (e, Ev_release sp) s = cancelable s sp"
| "driver_adm (e, Ev_ioctl sp arg) s = (h_sess (hp s) sp \<noteq> None \<and> ioctl_adm e s arg)"
| "driver_adm (e, Ev_mmap sp vma) s = (h_sess (hp s) sp \<noteq> None)"
| "driver_adm (e, Ev_poll sp) s = (h_sess (hp s) sp \<noteq> None)"
| "driver_adm (e, Ev_irq) s = (irq_wired s \<and> (\<forall>j \<in> set (running (jm_of s)). job_live (hp s) j))"
| "driver_adm (e, Ev_bottom_half) s = irq_wired s"

fun driver_arrivals :: "kenv \<times> driver_event \<Rightarrow> sys \<Rightarrow> ptr list" where
  "driver_arrivals (e, Ev_ioctl sp arg) s = ioctl_arrivals e s arg"
| "driver_arrivals _ s = []"

lemma driver_call_delivers:
  assumes ok: "driver_ok s" and adm: "driver_adm a s"
  shows "delivers (driver_call a s) s (driver_arrivals a s)"
proof -
  obtain e ev where a: "a = (e, ev)" by (cases a)
  note adm = adm [unfolded a]
  show ?thesis
  proof (cases ev)
    case Ev_open
    show ?thesis unfolding a Ev_open driver_call.simps driver_arrivals.simps
      by (rule open_delivers [OF ok adm [unfolded Ev_open driver_adm.simps]])
  next
    case (Ev_release sp)
    show ?thesis unfolding a Ev_release driver_call.simps driver_arrivals.simps
      by (rule release_delivers [OF ok adm [unfolded Ev_release driver_adm.simps]])
  next
    case (Ev_ioctl sp arg)
    then obtain st where st: "h_sess (hp s) sp = Some st" "ioctl_adm e s arg" using adm by auto
    show ?thesis unfolding a Ev_ioctl driver_call.simps driver_arrivals.simps by (rule ioctl_delivers [OF ok st])
  next
    case (Ev_mmap sp vma)
    then obtain st where st: "h_sess (hp s) sp = Some st" using adm by auto
    show ?thesis unfolding a Ev_mmap driver_call.simps driver_arrivals.simps by (rule mmap_delivers [OF ok st])
  next
    case (Ev_poll sp)
    then obtain st where st: "h_sess (hp s) sp = Some st" using adm by auto
    show ?thesis unfolding a Ev_poll driver_call.simps driver_arrivals.simps by (rule poll_delivers [OF ok st])
  next
    case Ev_irq
    then have "irq_wired s" "\<forall>j \<in> set (running (jm_of s)). job_live (hp s) j" using adm by simp_all
    then show ?thesis unfolding a Ev_irq driver_call.simps driver_arrivals.simps by (rule irq_delivers [OF ok])
  next
    case Ev_bottom_half
    show ?thesis unfolding a Ev_bottom_half driver_call.simps driver_arrivals.simps
      by (rule bottom_half_delivers [OF ok adm [unfolded Ev_bottom_half driver_adm.simps]])
  qed
qed

interpretation drv: fifo_service driver_ok jobs_order driver_call driver_arrivals driver_adm
proof unfold_locales
  fix s :: sys and a :: "kenv \<times> driver_event" and s' :: sys
  assume s: "driver_ok s" "driver_adm a s"
  from driver_call_delivers [OF s] show "\<exists>s'. driver_call a s = Some s'" by (auto simp: delivers_def)
  assume "driver_call a s = Some s'"
  with driver_call_delivers [OF s] show "driver_ok s'" "subseq (jobs_order s') (jobs_order s @ driver_arrivals a s)"
    by (auto simp: delivers_def)
qed

lemma demo_driver_ok: "driver_ok (demo_sys [] [demo_running] [demo_pending])"
proof -
  have "sbufs demo_jobs_heap sp = []" for sp
    by (auto simp: sbufs_def demo_jobs_heap_def demo_session_def)
  then have "bufs_ok demo_jobs_heap m" for m by (simp add: bufs_ok_def)
  moreover have "mm_wf (mm (priv (demo_sys [] [demo_running] [demo_pending])))" by (simp add: demo_sys_def demo_mm_wf)
  ultimately show ?thesis using demo_ok(2) by (simp add: driver_ok_def)
qed

text \<open>C1. The driver is safe. In every sequence of file operations and interrupt halves that the
  callers may perform, memory manager, sessions and job manager stay consistent with each
  other, no job overtakes another, and every next admissible call returns without touching
  freed memory.\<close>

theorem driver_run_safe:
  assumes "fifo_run driver_call driver_arrivals driver_adm s ids t" "driver_ok s"
  shows "driver_ok t \<and> subseq (order_of (jm_of t)) (order_of (jm_of s) @ ids) \<and>
    (\<forall>a. driver_adm a t \<longrightarrow> (\<exists>u. driver_call a t = Some u))"
  using drv.run_inv [OF assms] drv.run_order [OF assms] drv.run_not_stuck [OF assms] by blast

lemma driver_run_safe_witness:
  "\<exists>t. fifo_run driver_call driver_arrivals driver_adm (demo_sys [] [demo_running] [demo_pending]) [21] t \<and>
    driver_ok t \<and> subseq (order_of (jm_of t)) [10, 11, 21]"
proof -
  let ?s = "demo_sys [] [demo_running] [demo_pending]" and ?uj = "\<lparr>uj_desc = zero_job_desc, uj_errcode = 0\<rparr>"
  let ?a = "(env_ok 7, Ev_ioctl 8 (IPUIOC_RUNJOB ?uj))"
  have adm: "driver_adm ?a ?s" by (simp add: env_ok_def)
  obtain t where t: "driver_call ?a ?s = Some t" using drv.step_total [OF demo_driver_ok adm] by blast
  have "fifo_run driver_call driver_arrivals driver_adm ?s ([] @ driver_arrivals ?a ?s) t"
    by (rule run_step) (rule run_refl, rule adm, rule t)
  then have r: "fifo_run driver_call driver_arrivals driver_adm ?s [21] t" by (simp add: env_ok_def runjob_arrivals_def)
  then show ?thesis using driver_run_safe [OF r demo_driver_ok] by (auto simp: order_of_def all_jobs_def)
qed

text \<open>C2. Buffers of user land never overlap. After any such sequence two buffers, of one session or of
  two, are different ranges that lie apart, each allocated in the memory manager.\<close>

theorem session_buffers_apart:
  assumes "fifo_run driver_call driver_arrivals driver_adm s ids t" "driver_ok s"
    and "h_sess (hp t) sp = Some st" "h_sess (hp t) sq = Some st'" "i < length (sbuf_list st)" "k < length (sbuf_list st')"
    and "(sp, i) \<noteq> (sq, k)"
  shows "apart (sbuf_range (sbuf_list st ! i)) (sbuf_range (sbuf_list st' ! k)) \<and>
    sbuf_range (sbuf_list st ! i) \<in> mm_live (mm (priv t))"
proof -
  have ok: "driver_ok t" by (rule drv.run_inv [OF assms(1,2)])
  note b = bufs_okD [OF driver_okD(3) [OF ok]]
  have s: "sbufs (hp t) sp = map sbuf_range (sbuf_list st)" "sbufs (hp t) sq = map sbuf_range (sbuf_list st')"
    using assms(3,4) by (simp_all add: sbufs_def)
  have m: "sbuf_range (sbuf_list st ! i) \<in> set (sbufs (hp t) sp)" "sbuf_range (sbuf_list st' ! k) \<in> set (sbufs (hp t) sq)"
    using assms(5,6) by (simp_all add: s)
  then have l: "sbuf_range (sbuf_list st ! i) \<in> mm_live (mm (priv t))" "sbuf_range (sbuf_list st' ! k) \<in> mm_live (mm (priv t))"
    using b(2) by blast+
  have "sbuf_range (sbuf_list st ! i) \<noteq> sbuf_range (sbuf_list st' ! k)"
  proof (cases "sp = sq")
    case True
    then have "st' = st" "i \<noteq> k" using assms(3,4,7) by simp_all
    then show ?thesis using b(1) [of sp] assms(5,6) unfolding s(1) by (simp add: distinct_conv_nth)
  next
    case False
    then show ?thesis using b(3) [OF False] m by auto
  qed
  moreover have "regions_wf (ddr_regions (mm (priv t)))" using driver_okD(2) [OF ok] by (simp add: mm_wf_def)
  ultimately have "apart (sbuf_range (sbuf_list st ! i)) (sbuf_range (sbuf_list st' ! k))"
    using regions_live_apart l by (simp add: mm_live_def)
  then show ?thesis using l by simp
qed

text \<open>Two pages of a read-write type granted in turn by the driver's own allocator.\<close>

definition demo_page_mm :: aipu_memory_manager where
  "demo_page_mm = (case aipu_mm_alloc (env_ok 7) (demo_mm 1) (demo_request 100 1 1) zero_buffer of
     Some (_, m, _, _) \<Rightarrow> m | None \<Rightarrow> demo_mm 1)"

definition demo_two_pages :: aipu_memory_manager where
  "demo_two_pages = (case aipu_mm_alloc (env_ok 7) demo_page_mm (demo_request 100 1 1) zero_buffer of
     Some (_, m, _, _) \<Rightarrow> m | None \<Rightarrow> demo_mm 1)"

lemma demo_two_pages_wf: "mm_wf demo_two_pages"
  by (simp add: demo_two_pages_def demo_page_mm_def demo_run_simps mm_wf_def regions_wf_def region_wf_def coalesced_def free_bytes_def)

lemma demo_two_pages_live: "mm_live demo_two_pages = {(0xA0000000, 0x1000), (0xA0001000, 0x1000)}"
  by (auto simp: demo_two_pages_def demo_page_mm_def demo_run_simps mm_live_def conj_disj_distribL conj_disj_distribR ex_disj_distrib)

text \<open>Two sessions with one page each.\<close>

definition demo_buf :: "u64 \<Rightarrow> session_buf" where
  "demo_buf pa = \<lparr>sb_desc = \<lparr>ab_pa = pa, ab_va = 0, ab_bytes = 0x1000, ab_region_id = 0, ab_type = 1\<rparr>,
     sb_dev_offset = pa, sb_type = 1, sb_map_num = 0\<rparr>"

definition demo_two_bufs :: sys where
  "demo_two_bufs = put_hp
     (put_session 4 ((demo_session [] [5])\<lparr>sbuf_list := [demo_buf 0xA0001000]\<rparr>)
       (put_session 8 ((demo_session [] [3, 2])\<lparr>sbuf_list := [demo_buf 0xA0000000]\<rparr>) demo_jobs_heap))
     (put_mm demo_two_pages (demo_sys [] [] []))"

lemma demo_two_bufs_ok: "driver_ok demo_two_bufs"
proof -
  let ?h1 = "put_session 8 ((demo_session [] [3, 2])\<lparr>sbuf_list := [demo_buf 0xA0000000]\<rparr>) demo_jobs_heap"
  let ?h = "hp demo_two_bufs"
  have h1: "heap_wf ?h1"
    by (rule put_session_wf [OF demo_jobs_heap_wf])
       (use demo_session_wf(1) in \<open>simp_all add: session_wf_def demo_buf_def\<close>)
  have "?h = put_session 4 ((demo_session [] [5])\<lparr>sbuf_list := [demo_buf 0xA0001000]\<rparr>) ?h1"
    by (simp add: demo_two_bufs_def)
  moreover have "heap_wf \<dots>"
    by (rule put_session_wf [OF h1, of _ "demo_session [] [5]"])
       (use demo_session_wf(2) in \<open>simp_all add: session_wf_def demo_buf_def\<close>)
  ultimately have h: "heap_wf ?h" by simp
  have jm: "jm_of demo_two_bufs = jm_of (demo_sys [] [] [])" by (simp add: demo_two_bufs_def)
  have "jobs_ok demo_two_bufs"
    using demo_ok(1) h by (simp add: jobs_ok_def jm jobs_live_def all_jobs_def)
  moreover have "sbufs ?h = (\<lambda>_. [])(8 := [(0xA0000000, 0x1000)], 4 := [(0xA0001000, 0x1000)])"
    by (auto simp: sbufs_def demo_two_bufs_def fun_eq_iff demo_jobs_heap_def demo_session_def sbuf_range_def demo_buf_def)
  then have "bufs_ok ?h demo_two_pages" by (auto simp: bufs_ok_def demo_two_pages_live)
  ultimately show ?thesis using demo_two_pages_wf by (simp add: driver_ok_def demo_two_bufs_def)
qed

lemma session_buffers_apart_witness:
  "apart (0xA0000000, 0x1000) (0xA0001000, 0x1000) \<and> (0xA0000000, 0x1000) \<in> mm_live (mm (priv demo_two_bufs))"
proof -
  have r: "fifo_run driver_call driver_arrivals driver_adm demo_two_bufs [] demo_two_bufs" by (rule run_refl)
  have "h_sess (hp demo_two_bufs) 8 = Some ((demo_session [] [3, 2])\<lparr>sbuf_list := [demo_buf 0xA0000000]\<rparr>)"
    "h_sess (hp demo_two_bufs) 4 = Some ((demo_session [] [5])\<lparr>sbuf_list := [demo_buf 0xA0001000]\<rparr>)"
    by (simp_all add: demo_two_bufs_def)
  from session_buffers_apart [OF r demo_two_bufs_ok this, of 0 0] show ?thesis
    by (simp add: sbuf_range_def demo_buf_def)
qed

text \<open>A successful probe, stage by stage.\<close>

lemma probe_init:
  assumes "aipu_probe e b dn io = Some (ret, True, Some s, evs)"
  shows "\<exists>aipu0 aipu evs0 aipu1 evs1. map_of (aipu_of_match b) (dn_compatible dn) = Some aipu0 \<and>
    init_aipu_priv e b aipu0 = (0, aipu, evs0) \<and> probe_stages e dn aipu = Some (ret, False, aipu1, evs1) \<and>
    priv s = aipu1 \<and> hp s = empty_heap"
proof -
  obtain aipu0 where p0: "map_of (aipu_of_match b) (dn_compatible dn) = Some aipu0"
    using assms by (cases "map_of (aipu_of_match b) (dn_compatible dn)") (simp_all add: aipu_probe_def)
  obtain r0 aipu evs0 where i0: "init_aipu_priv e b aipu0 = (r0, aipu, evs0)" by (metis surj_pair)
  note pr = assms [unfolded aipu_probe_def p0 option.case i0 Let_def prod.case]
  have r0: "r0 = 0" using pr by (cases "r0 = 0") simp_all
  obtain ret1 failed aipu1 evs1 where st: "probe_stages e dn aipu = Some (ret1, failed, aipu1, evs1)"
    using pr r0 by (cases "probe_stages e dn aipu") auto
  note pr1 = pr [unfolded r0 simp_thms if_False st Option.bind.bind_lunit prod.case]
  have f: "\<not> failed" using pr1 by (cases failed) (simp_all split: prod.splits)
  have r: "ret1 = ret" "priv s = aipu1" "hp s = empty_heap" using pr1 f by auto
  show ?thesis
    by (rule exI [of _ aipu0], rule exI [of _ aipu], rule exI [of _ evs0], rule exI [of _ aipu1], rule exI [of _ evs1])
       (use p0 i0 r0 st f r in simp)
qed

lemma init_priv_fields:
  assumes "map_of (aipu_of_match b) name = Some aipu0" "init_aipu_priv e b aipu0 = (0, aipu, evs)"
  shows "job_manager aipu = zero_jm" "mm aipu = aipu_init_mm e (version aipu)"
proof -
  have "aipu0 \<in> snd ` set (aipu_of_match b)" using map_of_SomeD [OF assms(1)] by force
  then have z: "job_manager aipu0 = zero_jm"
    by (auto simp: aipu_of_match_def z1_platform_priv_def z2_platform_priv_def static_priv_def
        split: if_splits build_platform.splits)
  let ?a1 = "aipu0\<lparr>core0 := None, soc := None, misc := False, is_suspend := 0, mm := aipu_init_mm e (version aipu0)\<rparr>"
  obtain r a2 ev where i: "init_misc_dev e ?a1 = (r, a2, ev)" by (metis surj_pair)
  note ip = assms(2) [unfolded init_aipu_priv_def Let_def i prod.case]
  have r: "r = 0" using ip by (cases "r = 0") (simp_all split: prod.splits)
  have a2: "a2 = ?a1\<lparr>misc := True\<rparr>"
    using i by (cases "kz_miscdev e") (simp_all add: init_misc_dev_def r errno_defs)
  have "aipu = a2" using ip by (simp add: r)
  then show "job_manager aipu = zero_jm" "mm aipu = aipu_init_mm e (version aipu)" by (simp_all add: a2 z)
qed

lemma init_priv_version:
  assumes "map_of (aipu_of_match b) name = Some aipu0" "init_aipu_priv e b aipu0 = (0, aipu, evs)"
  shows "(version aipu, core_ctrl aipu) \<in> {(1, Zhouyi_v1_ops), (2, Zhouyi_v2_ops)}"
    and "name \<in> (if version aipu = 1 then {''armchina,zhouyi-v1-def'', ''armchina,zhouyi-v1''}
                else {''armchina,zhouyi-v2-def'', ''armchina,zhouyi-v2''})"
proof -
  have "(name, aipu0) \<in> set (aipu_of_match b)" by (rule map_of_SomeD [OF assms(1)])
  then have z: "(version aipu0, core_ctrl aipu0) \<in> {(1, Zhouyi_v1_ops), (2, Zhouyi_v2_ops)}"
    "name \<in> (if version aipu0 = 1 then {''armchina,zhouyi-v1-def'', ''armchina,zhouyi-v1''}
                else {''armchina,zhouyi-v2-def'', ''armchina,zhouyi-v2''})"
    by (auto simp: aipu_of_match_def z1_platform_priv_def z2_platform_priv_def static_priv_def version_defs
        split: if_splits build_platform.splits)
  let ?a1 = "aipu0\<lparr>core0 := None, soc := None, misc := False, is_suspend := 0, mm := aipu_init_mm e (version aipu0)\<rparr>"
  obtain r a2 ev where i: "init_misc_dev e ?a1 = (r, a2, ev)" by (metis surj_pair)
  note ip = assms(2) [unfolded init_aipu_priv_def Let_def i prod.case]
  have r: "r = 0" using ip by (cases "r = 0") (simp_all split: prod.splits)
  have "a2 = ?a1\<lparr>misc := True\<rparr>"
    using i by (cases "kz_miscdev e") (simp_all add: init_misc_dev_def r errno_defs)
  moreover have "aipu = a2" using ip by (simp add: r)
  ultimately have v: "version aipu = version aipu0" "core_ctrl aipu = core_ctrl aipu0" by simp_all
  show "(version aipu, core_ctrl aipu) \<in> {(1, Zhouyi_v1_ops), (2, Zhouyi_v2_ops)}"
    "name \<in> (if version aipu = 1 then {''armchina,zhouyi-v1-def'', ''armchina,zhouyi-v1''}
                else {''armchina,zhouyi-v2-def'', ''armchina,zhouyi-v2''})" unfolding v using z by blast+
qed

lemma probe_stages_ok:
  assumes "probe_stages e dn aipu = Some (ret, False, aipu', evs)"
  shows "\<exists>io0 irq aipu2 evs2 base sz aipu3 evs3. dn_mem0 dn = Some io0 \<and> dn_irq dn = Some irq \<and>
    (case dn_mem1 dn of None \<Rightarrow> (0, 0) | Some r \<Rightarrow> (fst r, resource_size r)) = (base, sz) \<and>
    aipu_priv_init_core e aipu irq (fst io0) (resource_size io0) = (0, aipu2, evs2) \<and>
    aipu_priv_init_soc e aipu2 (dn_host_offset dn) base sz = (0, aipu3, evs3) \<and>
    probe_memory e dn aipu3 = Some (ret, False, aipu')"
proof -
  have "dn_mem0 dn = None \<Longrightarrow> probe_stages e dn aipu = Some (- EINVAL, True, aipu, [])"
    "dn_irq dn = None \<Longrightarrow> probe_stages e dn aipu = Some (- EINVAL, True, aipu, [])"
    by (simp_all add: probe_stages_def split: option.split)
  then have "dn_mem0 dn \<noteq> None" "dn_irq dn \<noteq> None" using assms by - (rule notI, simp)+
  then obtain io0 irq where dn: "dn_mem0 dn = Some io0" "dn_irq dn = Some irq" by blast
  obtain r1 aipu2 evs2 where c1: "aipu_priv_init_core e aipu irq (fst io0) (resource_size io0) = (r1, aipu2, evs2)" by (metis surj_pair)
  obtain base sz where bs: "(case dn_mem1 dn of None \<Rightarrow> (0, 0) | Some r \<Rightarrow> (fst r, resource_size r)) = (base, sz)" by (rule prod.exhaust)
  obtain r2 aipu3 evs3 where c2: "aipu_priv_init_soc e aipu2 (dn_host_offset dn) base sz = (r2, aipu3, evs3)" by (metis surj_pair)
  note st = assms [unfolded probe_stages_def dn prod.case option.case Let_def c1 bs c2]
  have r1: "r1 = 0" by (rule ccontr) (use st in simp)
  have r2: "r2 = 0" by (rule ccontr) (use st r1 in simp)
  have "probe_memory e dn aipu3 = Some (ret, False, aipu')"
    using st by (cases "probe_memory e dn aipu3") (simp_all add: r1 r2 split: prod.splits)
  then show ?thesis using dn bs c1 c2 by (simp only: r1 r2) blast
qed

lemma init_core_ok:
  assumes "aipu_priv_init_core e aipu irq base sz = (0, aipu', evs)" "job_manager aipu = zero_jm"
  shows "\<exists>c jm. aipu' = aipu\<lparr>core0 := Some c, job_manager := jm\<rparr> \<and> core_version c = version aipu \<and>
    core_irq_obj c = Some \<lparr>oq_irqnum = irq, oq_uhandler = Some (core_ctrl aipu), oq_wq = True\<rparr> \<and>
    pending_queue jm = Some [] \<and> scheduled_queue jm = Some [] \<and> sched_num jm = 0 \<and> max_sched_num jm = 1"
proof -
  obtain rc core res where cc: "create_aipu_core e (version aipu) irq base sz 0 (core_ctrl aipu) = (rc, core, res)"
    by (metis surj_pair)
  note ic = assms(1) [unfolded aipu_priv_init_core_def cc Let_def prod.case]
  have rc: "rc = 0" using ic by (cases "rc = 0") simp_all
  obtain c where c: "core = Some c" "core_version c = version aipu" "max_sched c = 1"
    "core_irq_obj c = Some \<lparr>oq_irqnum = irq, oq_uhandler = Some (core_ctrl aipu), oq_wq = True\<rparr>"
    using core_create_cases [OF cc] rc by blast
  obtain r jm where jm: "aipu_init_job_manager e zero_jm 1 = (r, jm)" by (metis surj_pair)
  have "r = 0" "aipu' = aipu\<lparr>core0 := Some c, job_manager := jm\<rparr>"
    using ic rc c(1,3) jm assms(2) by simp_all
  moreover have "pending_queue jm = Some []" "scheduled_queue jm = Some []" "sched_num jm = 0" "max_sched_num jm = 1"
    using jm \<open>r = 0\<close> by (cases "kz_ajob e"; auto simp: aipu_init_job_manager_def zero_jm_def Let_def errno_defs)+
  ultimately show ?thesis using c by blast
qed

lemma init_soc_fields:
  assumes "aipu_priv_init_soc e aipu ho base sz = (r, aipu', evs)"
  shows "mm aipu' = mm aipu" "job_manager aipu' = job_manager aipu" "core0 aipu' = core0 aipu"
    "version aipu' = version aipu" "core_ctrl aipu' = core_ctrl aipu"
proof -
  obtain rc sc res where c: "create_aipu_soc e (board aipu) base sz = (rc, sc, res)" by (metis surj_pair)
  note i = assms [unfolded aipu_priv_init_soc_def Let_def c prod.case]
  show "mm aipu' = mm aipu" "job_manager aipu' = job_manager aipu" "core0 aipu' = core0 aipu"
    "version aipu' = version aipu" "core_ctrl aipu' = core_ctrl aipu"
    using i by (cases "sz = 0"; cases "rc = 0"; force)+
qed

text \<open>C38. Bringing the driver up. When the probe succeeds for a device whose reserved memory lies in the
  supported range, the driver it leaves is consistent: no job, no session, nothing
  allocated, all reserved bytes free, one job at a time, and an interrupt connected to the
  handlers the register operations are set to: version 1 and its operations for the two
  compatible strings of version 1, version 2 and its operations for those of version 2.\<close>

theorem probe_establishes:
  assumes "aipu_probe e b dn io = Some (ret, True, Some s, evs)"
    and "dn_memory_region dn = Some (Some (lo, hi))" "unat lo + unat (hi - lo + 1) \<le> 2 ^ 62" "unat (hi - lo + 1) \<le> unat lo"
  shows "ret = 0 \<and> driver_ok s \<and> order_of (jm_of s) = [] \<and> hp s = empty_heap \<and> max_sched_num (jm_of s) = 1 \<and>
    mm_live (mm (priv s)) = {} \<and> mm_free_bytes (mm (priv s)) = unat (hi - lo + 1) \<and>
    (\<exists>c irq. core0 (priv s) = Some c \<and> dn_irq dn = Some irq \<and> core_version c = version (priv s) \<and>
       core_irq_obj c = Some \<lparr>oq_irqnum = irq, oq_uhandler = Some (core_ctrl (priv s)), oq_wq = True\<rparr> \<and>
       (if dn_compatible dn \<in> {''armchina,zhouyi-v1-def'', ''armchina,zhouyi-v1''}
        then core_version c = 1 \<and> core_ctrl (priv s) = Zhouyi_v1_ops
        else dn_compatible dn \<in> {''armchina,zhouyi-v2-def'', ''armchina,zhouyi-v2''} \<and>
          core_version c = 2 \<and> core_ctrl (priv s) = Zhouyi_v2_ops))"
proof -
  obtain aipu0 aipu evs0 aipu1 evs1 where p: "map_of (aipu_of_match b) (dn_compatible dn) = Some aipu0"
    "init_aipu_priv e b aipu0 = (0, aipu, evs0)" "probe_stages e dn aipu = Some (ret, False, aipu1, evs1)"
    "priv s = aipu1" "hp s = empty_heap" using probe_init [OF assms(1)] by blast
  note a = init_priv_fields [OF p(1,2)] and ver = init_priv_version [OF p(1,2)]
  obtain io0 irq aipu2 evs2 base sz aipu3 evs3 where st: "dn_irq dn = Some irq"
    "aipu_priv_init_core e aipu irq (fst io0) (resource_size io0) = (0, aipu2, evs2)"
    "aipu_priv_init_soc e aipu2 (dn_host_offset dn) base sz = (0, aipu3, evs3)"
    "probe_memory e dn aipu3 = Some (ret, False, aipu1)" using probe_stages_ok [OF p(3)] by blast
  obtain c jm where c: "aipu2 = aipu\<lparr>core0 := Some c, job_manager := jm\<rparr>" "core_version c = version aipu"
    "core_irq_obj c = Some \<lparr>oq_irqnum = irq, oq_uhandler = Some (core_ctrl aipu), oq_wq = True\<rparr>"
    "pending_queue jm = Some []" "scheduled_queue jm = Some []" "sched_num jm = 0" "max_sched_num jm = 1"
    using init_core_ok [OF st(2) a(1)] by blast
  have a3: "mm aipu3 = aipu_init_mm e (version aipu)" "job_manager aipu3 = jm" "core0 aipu3 = Some c"
    "version aipu3 = version aipu" "core_ctrl aipu3 = core_ctrl aipu"
    using init_soc_fields [OF st(3)] a(2) by (simp_all add: c(1))
  obtain m where m: "ret = 0" "aipu_mm_add_region e (aipu_init_mm e (version aipu)) lo (hi - lo + 1) AIPU_MEM_TYPE_CMA = Some (0, m)"
    "aipu1 = aipu3\<lparr>mm := m\<rparr>"
    using st(4) by (auto simp: probe_memory_def assms(2) resource_size_def aipu_priv_add_mem_region_def a3(1) bind_eq_Some_conv)
  note reg = add_first_region [OF m(2) _ assms(3,4)]
  have jobs: "pending_jobs (jm_of s) = []" "scheduled_jobs (jm_of s) = []" "jm_of s = jm"
    using p(4) m(3) a3(2) c by (simp_all add: pending_jobs_def scheduled_jobs_def)
  have "jm_wf (jm_of s)" by (rule jm_wfI [of _ "[]" "[]" "[]"]) (use jobs c in simp_all)
  then have jok: "jobs_ok s" using jobs heap_wf_empty by (simp add: jobs_ok_def p(5) jobs_live_def all_jobs_def)
  have "bufs_ok (hp s) m" by (simp add: p(5) bufs_ok_def sbufs_def empty_heap_def)
  moreover have mm: "mm (priv s) = m" using p(4) m(3) by simp
  ultimately have ok: "driver_ok s" using jok reg(1) by (simp add: driver_ok_def)
  have "order_of (jm_of s) = []" using jobs by (simp add: order_of_def all_jobs_def)
  moreover have "core0 (priv s) = Some c" "version (priv s) = version aipu" "core_ctrl (priv s) = core_ctrl aipu"
    using p(4) m(3) a3 by simp_all
  ultimately show ?thesis using m(1) ok p(5) jobs(3) c(2,3,7) reg(2,3) st(1) ver by (auto simp: mm)
qed


text \<open>A version 1 device on the default board with the reserved memory of the juno device tree.\<close>

definition demo_build :: build where
  "demo_build = \<lparr>bd_platform = BUILD_PLATFORM_DEFAULT, BUILD_ZHOUYI_V1 = True, BUILD_ZHOUYI_V2 = False,
     BUILD_DEBUG_VERSION = False\<rparr>"

definition demo_node :: device_node where
  "demo_node = \<lparr>dn_compatible = ''armchina,zhouyi-v1'', dn_mem0 = Some (0x60000000, 0x6000FFFF), dn_irq = Some 168,
     dn_mem1 = None, dn_host_offset = None, dn_memory_region = Some (Some (0xA0000000, 0xBFFFFFFF))\<rparr>"

lemma demo_add_region:
  "\<exists>m. aipu_mm_add_region (env_ok 7) (aipu_init_mm (env_ok 7) v) 0xA0000000 0x20000000 AIPU_MEM_TYPE_CMA = Some (0, m)"
  by (simp add: aipu_mm_add_region_def aipu_init_mm_def create_region_list_head_def env_ok_def aipu_alloc_cma_region_nocache_def
      aipu_remap_region_nocache_def aipu_init_region_def create_block_list_head_def create_block_def
      aipu_update_mm_regions_def)

lemma demo_probe:
  "\<exists>s evs. aipu_probe (env_ok 7) demo_build demo_node io = Some (0, True, Some s, evs)"
proof -
  let ?a = "(static_priv AIPU_BOARD_BRAND_DEFAULT AIPU_VERSION_ZHOUYI_V1 Zhouyi_v1_ops Default_soc_ops)
    \<lparr>core0 := None, soc := None, misc := True, is_suspend := 0, mm := aipu_init_mm (env_ok 7) AIPU_VERSION_ZHOUYI_V1\<rparr>"
  have m: "map_of (aipu_of_match demo_build) (dn_compatible demo_node) =
      Some (static_priv AIPU_BOARD_BRAND_DEFAULT AIPU_VERSION_ZHOUYI_V1 Zhouyi_v1_ops Default_soc_ops)"
    by (simp add: demo_build_def demo_node_def aipu_of_match_def z1_platform_priv_def)
  have i: "init_aipu_priv (env_ok 7) demo_build
      (static_priv AIPU_BOARD_BRAND_DEFAULT AIPU_VERSION_ZHOUYI_V1 Zhouyi_v1_ops Default_soc_ops) = (0, ?a, [Ev_misc_register])"
    by (simp add: init_aipu_priv_def init_misc_dev_def static_priv_def demo_build_def) (simp add: env_ok_def)
  obtain a2 evs2 where c: "aipu_priv_init_core (env_ok 7) ?a 168 0x60000000 0x10000 = (0, a2, evs2)" "mm a2 = mm ?a"
    by (simp add: aipu_priv_init_core_def create_aipu_core_def aipu_create_ioregion_def aipu_create_irq_object_def
        aipu_init_job_manager_def static_priv_def env_ok_def Let_def version_defs zero_jm_def)
  have s: "aipu_priv_init_soc (env_ok 7) a2 None 0 0 = (0, a2\<lparr>host_to_aipu_map := 0\<rparr>, [])"
    by (simp add: aipu_priv_init_soc_def)
  obtain m where "aipu_mm_add_region (env_ok 7) (mm a2) 0xA0000000 0x20000000 AIPU_MEM_TYPE_CMA = Some (0, m)"
    using demo_add_region c(2) by auto
  then have "probe_memory (env_ok 7) demo_node (a2\<lparr>host_to_aipu_map := 0\<rparr>) = Some (0, False, a2\<lparr>host_to_aipu_map := 0, mm := m\<rparr>)"
    by (simp add: probe_memory_def demo_node_def resource_size_def aipu_priv_add_mem_region_def)
  then have "probe_stages (env_ok 7) demo_node ?a = Some (0, False, a2\<lparr>host_to_aipu_map := 0, mm := m\<rparr>, evs2)"
    using c(1) s by (simp add: probe_stages_def demo_node_def resource_size_def)
  then show ?thesis by (simp add: aipu_probe_def m i)
qed

lemma probe_establishes_witness:
  "\<exists>s evs. aipu_probe (env_ok 7) demo_build demo_node (dev_io (demo_sys [] [] [])) = Some (0, True, Some s, evs) \<and> driver_ok s \<and>
     mm_free_bytes (mm (priv s)) = 0x20000000"
proof -
  obtain s evs where p: "aipu_probe (env_ok 7) demo_build demo_node (dev_io (demo_sys [] [] [])) = Some (0, True, Some s, evs)"
    using demo_probe by blast
  have "dn_memory_region demo_node = Some (Some (0xA0000000, 0xBFFFFFFF))" by (simp add: demo_node_def)
  from probe_establishes [OF p this] p show ?thesis by simp
qed

text \<open>A memory region that does not resolve. Where a probe with a readable region succeeds, the same
  probe with an unreadable one still returns 0, although it has torn the driver down and
  set no driver data.\<close>

theorem probe_unresolved_region_returns_zero:
  assumes "aipu_probe e b (dn\<lparr>dn_memory_region := Some (Some r)\<rparr>) io = Some (ret, True, Some s, evs)"
  shows "\<exists>s' evs'. aipu_probe e b (dn\<lparr>dn_memory_region := Some None\<rparr>) io = Some (0, False, s', evs')"
proof -
  obtain aipu0 aipu evs0 aipu1 evs1 where p: "map_of (aipu_of_match b) (dn_compatible dn) = Some aipu0"
    "init_aipu_priv e b aipu0 = (0, aipu, evs0)"
    "probe_stages e (dn\<lparr>dn_memory_region := Some (Some r)\<rparr>) aipu = Some (ret, False, aipu1, evs1)"
    using probe_init [OF assms] by auto
  obtain io0 irq aipu2 evs2 base sz aipu3 evs3 where st: "dn_mem0 dn = Some io0" "dn_irq dn = Some irq"
    "(case dn_mem1 dn of None \<Rightarrow> (0, 0) | Some r \<Rightarrow> (fst r, resource_size r)) = (base, sz)"
    "aipu_priv_init_core e aipu irq (fst io0) (resource_size io0) = (0, aipu2, evs2)"
    "aipu_priv_init_soc e aipu2 (dn_host_offset dn) base sz = (0, aipu3, evs3)"
    using probe_stages_ok [OF p(3)] by auto
  have "probe_stages e (dn\<lparr>dn_memory_region := Some None\<rparr>) aipu = Some (0, True, aipu3, evs2 @ evs3)"
    by (simp add: probe_stages_def probe_memory_def st)
  then show ?thesis using p by (simp add: aipu_probe_def split: prod.split)
qed

lemma probe_unresolved_region_witness:
  "\<exists>s evs. aipu_probe (env_ok 7) demo_build (demo_node\<lparr>dn_memory_region := Some None\<rparr>) (dev_io (demo_sys [] [] [])) = Some (0, False, s, evs)"
proof -
  have "demo_node = demo_node\<lparr>dn_memory_region := Some (Some (0xA0000000, 0xBFFFFFFF))\<rparr>" by (simp add: demo_node_def)
  then obtain s evs where "aipu_probe (env_ok 7) demo_build (demo_node\<lparr>dn_memory_region := Some (Some (0xA0000000, 0xBFFFFFFF))\<rparr>) (dev_io (demo_sys [] [] [])) =
      Some (0, True, Some s, evs)" using demo_probe [of "dev_io (demo_sys [] [] [])"] by auto
  from probe_unresolved_region_returns_zero [OF this] show ?thesis .
qed

text \<open>The table of jobs overflows its page. With at least 98 jobs queued the text and its terminator
  need more than the 4096 bytes of the buffer the file is shown in.\<close>

theorem job_show_overflows_page:
  assumes "pending_queue (jm_of s) = Some ps" "scheduled_queue (jm_of s) = Some ss" "98 \<le> length ps + length ss"
  shows "\<exists>out. sysfs_aipu_job_show s = Some out \<and> MAX_CHAR_SYSFS < length out + 1"
proof -
  have row: "40 \<le> length (print_job_info j)" for j by (simp add: print_job_info_def left_pad_def)
  have rs: "40 * length js \<le> length (concat (map print_job_info js))" for js
    using row by (induction js) (auto intro: add_mono)
  from rs [of ps] rs [of ss] have rows: "40 * length ps \<le> length (concat (map print_job_info ps))"
    "40 * length ss \<le> length (concat (map print_job_info ss))" .
  obtain out where out: "sysfs_aipu_job_show s = Some out"
    "176 + length (concat (map print_job_info ps)) + length (concat (map print_job_info ss)) \<le> length out"
    using assms(1,2) by (simp add: sysfs_aipu_job_show_def aipu_job_manager_sysfs_job_show_def rule_line_def left_pad_def)
  then show ?thesis using rows assms(3) by (simp add: MAX_CHAR_SYSFS_def)
qed

lemma job_show_overflows_page_witness:
  "\<exists>out. sysfs_aipu_job_show (demo_sys [] [] (replicate 98 demo_pending)) = Some out \<and> 4096 < length out + 1"
  using job_show_overflows_page [of "demo_sys [] [] (replicate 98 demo_pending)" "replicate 98 demo_pending" "[]"]
  by (simp add: MAX_CHAR_SYSFS_def)

end
