(* ===== verification/UmdTypes.thy ===== *)
theory UmdTypes
  imports Interface
begin

text \<open>
  The vocabulary of the user-mode driver (\<open>src/Linux/driver/umd/src\<close>, the library that
  applications link): the status codes and descriptors of \<open>standard_api.h\<close>, what a graph
  binary is translated into (\<open>graph_info.h\<close>), and the alignment macros of
  \<open>utils/helper.h\<close>. Addresses are 64-bit values read as natural numbers; no address of a
  process is so large that an addition of the code wraps.
\<close>

datatype aipu_status =
    AIPU_STATUS_SUCCESS
  | AIPU_STATUS_ERROR_NULL_PTR
  | AIPU_STATUS_ERROR_INVALID_CTX
  | AIPU_STATUS_ERROR_OPEN_DEV_FAIL
  | AIPU_STATUS_ERROR_DEV_ABNORMAL
  | AIPU_STATUS_ERROR_DEINIT_FAIL
  | AIPU_STATUS_ERROR_INVALID_CONFIG
  | AIPU_STATUS_ERROR_GVERSION_UNSUPPORTED
  | AIPU_STATUS_ERROR_TARGET_NOT_FOUND
  | AIPU_STATUS_ERROR_INVALID_GBIN
  | AIPU_STATUS_ERROR_GRAPH_NOT_EXIST
  | AIPU_STATUS_ERROR_OPEN_FILE_FAIL
  | AIPU_STATUS_ERROR_MAP_FILE_FAIL
  | AIPU_STATUS_ERROR_READ_FILE_FAIL
  | AIPU_STATUS_ERROR_WRITE_FILE_FAIL
  | AIPU_STATUS_ERROR_JOB_NOT_EXIST
  | AIPU_STATUS_ERROR_JOB_NOT_SCHED
  | AIPU_STATUS_ERROR_JOB_SCHED
  | AIPU_STATUS_ERROR_JOB_NOT_END
  | AIPU_STATUS_ERROR_JOB_EXCEPTION
  | AIPU_STATUS_ERROR_JOB_TIMEOUT
  | AIPU_STATUS_ERROR_INVALID_OPTIONS
  | AIPU_STATUS_ERROR_INVALID_PATH
  | AIPU_STATUS_ERROR_OP_NOT_SUPPORTED
  | AIPU_STATUS_ERROR_INVALID_OP
  | AIPU_STATUS_ERROR_INVALID_SIZE
  | AIPU_STATUS_ERROR_INVALID_HANDLE
  | AIPU_STATUS_ERROR_BUSY_HANDLE
  | AIPU_STATUS_ERROR_BUF_ALLOC_FAIL
  | AIPU_STATUS_ERROR_BUF_FREE_FAIL

type_synonym addr = nat

subsection \<open>Alignment\<close>

definition ALIGN_PAGE :: "u32 \<Rightarrow> u32" where
  "ALIGN_PAGE bytes = (bytes + 4096 - 1) AND NOT (4096 - 1)"

definition ALIGN_ADDR :: "u32 \<Rightarrow> u32" where
  "ALIGN_ADDR bytes = ALIGN_PAGE bytes div 4096"

subsection \<open>Tensors\<close>

text \<open>Data type and layout are casts of unchecked words of the file.\<close>

record aipu_tensor_shape =
  shape_N :: u32
  shape_H :: u32
  shape_W :: u32
  shape_C :: u32

record aipu_tensor_fmt =
  fmt_layout :: u32
  fmt_shape :: aipu_tensor_shape
  fmt_data_type :: u32

record io_tensor_desc =
  io_id :: u32
  io_ref_section_iter :: u32
  io_offset_in_section :: u32
  io_size :: u32
  io_fmt :: aipu_tensor_fmt

subsection \<open>Sections\<close>

record sub_section_desc =
  ss_offset_in_section :: u32

record section_desc =
  sec_load_src :: "addr option"
  sec_size :: u32
  sec_align_in_page :: u32
  sec_sub_sections :: "sub_section_desc list"

definition init_section_desc :: section_desc where
  "init_section_desc = \<lparr>sec_load_src = None, sec_size = 0, sec_align_in_page = 1, sec_sub_sections = []\<rparr>"

definition PARAM_MAP_LOAD_TYPE_REUSE :: u32 where "PARAM_MAP_LOAD_TYPE_REUSE = 0"
definition PARAM_MAP_LOAD_TYPE_STATIC :: u32 where "PARAM_MAP_LOAD_TYPE_STATIC = 1"

record param_map_load_desc =
  pm_offset_in_map :: u32
  pm_load_type :: u32
  pm_ref_section_iter :: u32
  pm_ref_sub_section_iter :: u32
  pm_sub_section_offset :: u32
  pm_addr_mask :: u32

record list_node_desc =
  ln_type :: u32
  ln_next_addr_entry_offset :: u32
  ln_next_type :: u32
  ln_next_offset :: u32

record pbuf_alloc_templ =
  text_src :: addr
  text_size :: u32
  data_src :: addr
  data_size :: u32
  static_sections :: "section_desc list"

record tbuf_alloc_templ =
  rodata_src :: addr
  tbuf_rodata_size :: u32
  dcr_src :: "addr option"
  dcr_size :: u32
  tbuf_stack_size :: u32
  stack_align_in_page :: u32
  reuse_sections :: "section_desc list"

text \<open>\<open>graph_info_t\<close>; its field \<open>arch\<close> is never written nor read.\<close>

record graph_info =
  gi_gbin :: addr
  gi_gbin_size :: u32
  gi_device :: u32
  gi_version :: u32
  gi_build_version :: u32
  gi_entry :: u32
  gi_asid_flag :: u32
  gi_linked_list_flag :: u32
  gi_bss_src :: addr
  gi_pbuf_templ :: pbuf_alloc_templ
  gi_tbuf_templ :: tbuf_alloc_templ
  gi_inputs :: "io_tensor_desc list"
  gi_outputs :: "io_tensor_desc list"
  gi_inter_dumps :: "io_tensor_desc list"
  gi_pdata :: "io_tensor_desc list"
  gi_plog_data :: "io_tensor_desc list"
  gi_param_map :: "param_map_load_desc list"
  gi_dcr_map :: "list_node_desc list"

end
