(* ===== verification/GraphBin.thy ===== *)
theory GraphBin
  imports UmdTypes
begin

text \<open>
  The loader of graph binaries (\<open>context/context.cpp\<close>): the header, the descriptors of the
  bss section, the order of the tensors. The binary is the list of bytes behind the
  pointer the application passes, and an address is an offset into it. A read behind its
  last byte is outside of what the application owns and is kept apart from the errors the
  code reports.
\<close>

datatype 'a parsed = Overrun | Fail aipu_status | Ok 'a

fun pbind :: "'a parsed \<Rightarrow> ('a \<Rightarrow> 'b parsed) \<Rightarrow> 'b parsed" where
  "pbind Overrun f = Overrun"
| "pbind (Fail st) f = Fail st"
| "pbind (Ok x) f = f x"

subsection \<open>Reading words\<close>

definition word_at :: "u8 list \<Rightarrow> addr \<Rightarrow> u32" where
  "word_at bin p = ucast (bin ! p) OR push_bit 8 (ucast (bin ! (p + 1))) OR
     push_bit 16 (ucast (bin ! (p + 2))) OR push_bit 24 (ucast (bin ! (p + 3)))"

definition words_at :: "u8 list \<Rightarrow> addr \<Rightarrow> nat \<Rightarrow> u32 list" where
  "words_at bin p n = map (\<lambda>i. word_at bin (p + 4 * i)) [0..<n]"

definition umd_is_valid_ptr :: "addr \<Rightarrow> addr \<Rightarrow> addr \<Rightarrow> nat \<Rightarrow> bool" where
  "umd_is_valid_ptr lower_bound upper_bound p sz \<longleftrightarrow> lower_bound \<le> p \<and> p + sz < upper_bound"

text \<open>\<open>memcpy\<close> of a structure of \<open>n\<close> words.\<close>

definition memcpy_words :: "u8 list \<Rightarrow> addr \<Rightarrow> nat \<Rightarrow> u32 list parsed" where
  "memcpy_words bin p n = (if p + 4 * n \<le> length bin then Ok (words_at bin p n) else Overrun)"

record load_region =
  lr_bin :: "u8 list"
  load_lb :: addr
  load_ub :: addr

text \<open>A checked copy: the branch \<open>overflow\<close> of the code when the check fails.\<close>

definition load_desc :: "load_region \<Rightarrow> addr \<Rightarrow> nat \<Rightarrow> u32 list parsed" where
  "load_desc r p n =
     (if umd_is_valid_ptr (load_lb r) (load_ub r) p (4 * n) then memcpy_words (lr_bin r) p n
      else Fail AIPU_STATUS_ERROR_INVALID_GBIN)"

subsection \<open>The descriptors of the bss section (\<open>graph_v0_0_0_3.h\<close>)\<close>

record bss_hdr_v3 =
  bh_stack_size :: u32
  bh_stack_align_bytes :: u32
  bh_static_section_desc_cnt :: u32
  bh_reuse_section_desc_cnt :: u32

record sub_section_desc_v3 =
  sub_offset_in_section_exec :: u32
  sub_size :: u32
  sub_type :: u32
  sub_id :: u32
  sub_dtype :: u32
  sub_layout :: u32
  sub_shape :: "u32 list"
  sub_addr_mask :: u32
  sub_offset_in_ro_cnt :: u32

record static_section_desc_v3 =
  sta_offset_in_file :: u32
  sta_size :: u32
  sta_align_bytes :: u32
  sta_sub_section_cnt :: u32

record reuse_section_desc_v3 =
  reu_size :: u32
  reu_align_bytes :: u32
  reu_sub_section_cnt :: u32

definition bss_hdr_of :: "u32 list \<Rightarrow> bss_hdr_v3" where
  "bss_hdr_of ws = \<lparr>bh_stack_size = ws ! 0, bh_stack_align_bytes = ws ! 1,
     bh_static_section_desc_cnt = ws ! 2, bh_reuse_section_desc_cnt = ws ! 3\<rparr>"

definition sub_section_of :: "u32 list \<Rightarrow> sub_section_desc_v3" where
  "sub_section_of ws = \<lparr>sub_offset_in_section_exec = ws ! 0, sub_size = ws ! 1, sub_type = ws ! 2,
     sub_id = ws ! 3, sub_dtype = ws ! 4, sub_layout = ws ! 5, sub_shape = [ws ! 6, ws ! 7, ws ! 8, ws ! 9],
     sub_addr_mask = ws ! 10, sub_offset_in_ro_cnt = ws ! 11\<rparr>"

definition static_section_of :: "u32 list \<Rightarrow> static_section_desc_v3" where
  "static_section_of ws = \<lparr>sta_offset_in_file = ws ! 0, sta_size = ws ! 1, sta_align_bytes = ws ! 2,
     sta_sub_section_cnt = ws ! 3\<rparr>"

definition reuse_section_of :: "u32 list \<Rightarrow> reuse_section_desc_v3" where
  "reuse_section_of ws = \<lparr>reu_size = ws ! 0, reu_align_bytes = ws ! 1, reu_sub_section_cnt = ws ! 2\<rparr>"

definition list_node_of :: "u32 list \<Rightarrow> list_node_desc" where
  "list_node_of ws = \<lparr>ln_type = ws ! 0, ln_next_addr_entry_offset = ws ! 1, ln_next_type = ws ! 2,
     ln_next_offset = ws ! 3\<rparr>"

subsection \<open>Tensors\<close>

definition SECTION_TYPE_INPUT :: u32 where "SECTION_TYPE_INPUT = 0"
definition SECTION_TYPE_OUTPUT :: u32 where "SECTION_TYPE_OUTPUT = 1"
definition SECTION_TYPE_INTER_DUMP :: u32 where "SECTION_TYPE_INTER_DUMP = 2"
definition SECTION_TYPE_PROF_DATA :: u32 where "SECTION_TYPE_PROF_DATA = 10"
definition SECTION_TYPE_PLOG_DATA :: u32 where "SECTION_TYPE_PLOG_DATA = 12"

lemmas section_type_defs = SECTION_TYPE_INPUT_def SECTION_TYPE_OUTPUT_def SECTION_TYPE_INTER_DUMP_def
  SECTION_TYPE_PROF_DATA_def SECTION_TYPE_PLOG_DATA_def

definition fill_io_tensor_desc_inner :: "u32 \<Rightarrow> sub_section_desc_v3 \<Rightarrow> graph_info \<Rightarrow> graph_info" where
  "fill_io_tensor_desc_inner reuse_sec_iter sub info =
     (let io_desc = \<lparr>io_id = sub_id sub, io_ref_section_iter = reuse_sec_iter,
            io_offset_in_section = sub_offset_in_section_exec sub, io_size = sub_size sub,
            io_fmt = \<lparr>fmt_layout = sub_layout sub,
              fmt_shape = \<lparr>shape_N = sub_shape sub ! 0, shape_H = sub_shape sub ! 1,
                shape_W = sub_shape sub ! 2, shape_C = sub_shape sub ! 3\<rparr>,
              fmt_data_type = sub_dtype sub - 1\<rparr>\<rparr>
      in if sub_type sub = SECTION_TYPE_INPUT then info\<lparr>gi_inputs := gi_inputs info @ [io_desc]\<rparr>
         else if sub_type sub = SECTION_TYPE_OUTPUT then info\<lparr>gi_outputs := gi_outputs info @ [io_desc]\<rparr>
         else if sub_type sub = SECTION_TYPE_INTER_DUMP then info\<lparr>gi_inter_dumps := gi_inter_dumps info @ [io_desc]\<rparr>
         else if sub_type sub = SECTION_TYPE_PROF_DATA then info\<lparr>gi_pdata := gi_pdata info @ [io_desc]\<rparr>
         else if sub_type sub = SECTION_TYPE_PLOG_DATA then info\<lparr>gi_plog_data := gi_plog_data info @ [io_desc]\<rparr>
         else info)"

text \<open>
  The loop over the tensors: the tensor with identifier \<open>k\<close> is copied to position \<open>k\<close>;
  the first identifier that is too large ends it with an error.
\<close>

fun sort_io_loop :: "nat \<Rightarrow> io_tensor_desc list \<Rightarrow> nat \<Rightarrow> io_tensor_desc list \<Rightarrow> aipu_status \<times> io_tensor_desc list" where
  "sort_io_loop n [] i tensors = (AIPU_STATUS_SUCCESS, tensors)"
| "sort_io_loop n (t # ts) i tensors =
     (if n \<le> unat (io_id t) then (AIPU_STATUS_ERROR_INVALID_GBIN, tensors)
      else sort_io_loop n ts (Suc i)
             (if unat (io_id t) \<noteq> i then tensors[unat (io_id t) := t] else tensors))"

definition sort_io_tensor :: "io_tensor_desc list \<Rightarrow> aipu_status \<times> io_tensor_desc list" where
  "sort_io_tensor tensors = sort_io_loop (length tensors) tensors 0 tensors"

subsection \<open>Parsing the bss section\<close>

definition init_param :: "u32 \<Rightarrow> u32 \<Rightarrow> u32 \<Rightarrow> u32 \<Rightarrow> u32 \<Rightarrow> u32 \<Rightarrow> param_map_load_desc" where
  "init_param offset sec_type sec_iter sub_sec_iter sub_sec_offset addr_mask =
     \<lparr>pm_offset_in_map = offset, pm_load_type = sec_type, pm_ref_section_iter = sec_iter,
      pm_ref_sub_section_iter = sub_sec_iter, pm_sub_section_offset = sub_sec_offset, pm_addr_mask = addr_mask\<rparr>"

text \<open>
  The loops thread the address of the next descriptor and the graph information. A loop
  over \<open>cnt\<close> entries recurses on the number of entries left.
\<close>

fun parse_ro_entries ::
  "load_region \<Rightarrow> (u32 \<Rightarrow> param_map_load_desc) \<Rightarrow> nat \<Rightarrow> addr \<Rightarrow> graph_info \<Rightarrow> (addr \<times> graph_info) parsed" where
  "parse_ro_entries r param 0 p info = Ok (p, info)"
| "parse_ro_entries r param (Suc n) p info =
     pbind (load_desc r p 1) (\<lambda>ws.
       parse_ro_entries r param n (p + 4) (info\<lparr>gi_param_map := gi_param_map info @ [param (ws ! 0)]\<rparr>))"

fun parse_static_subs ::
  "load_region \<Rightarrow> u32 \<Rightarrow> nat \<Rightarrow> u32 \<Rightarrow> addr \<Rightarrow> section_desc \<Rightarrow> graph_info \<Rightarrow> (addr \<times> section_desc \<times> graph_info) parsed" where
  "parse_static_subs r sec_iter 0 sub_iter p section_ir info = Ok (p, section_ir, info)"
| "parse_static_subs r sec_iter (Suc n) sub_iter p section_ir info =
     pbind (load_desc r p 12) (\<lambda>ws.
       let sub = sub_section_of ws;
           off = sub_offset_in_section_exec sub;
           section_ir' = section_ir\<lparr>sec_sub_sections := sec_sub_sections section_ir @ [\<lparr>ss_offset_in_section = off\<rparr>]\<rparr>
       in pbind (parse_ro_entries r
                   (\<lambda>ro. init_param ro PARAM_MAP_LOAD_TYPE_STATIC sec_iter sub_iter off (sub_addr_mask sub))
                   (unat (sub_offset_in_ro_cnt sub)) (p + 48) info)
            (\<lambda>(p', info'). parse_static_subs r sec_iter n (sub_iter + 1) p' section_ir' info'))"

fun parse_static_sections ::
  "load_region \<Rightarrow> nat \<Rightarrow> u32 \<Rightarrow> addr \<Rightarrow> graph_info \<Rightarrow> (addr \<times> graph_info) parsed" where
  "parse_static_sections r 0 sec_iter p info = Ok (p, info)"
| "parse_static_sections r (Suc n) sec_iter p info =
     pbind (load_desc r p 4) (\<lambda>ws.
       let desc = static_section_of ws
       in pbind (parse_static_subs r sec_iter (unat (sta_sub_section_cnt desc)) 0 (p + 16) init_section_desc info)
            (\<lambda>(p', section_ir, info').
              let section_ir' = section_ir\<lparr>sec_size := sta_size desc, sec_align_in_page := ALIGN_ADDR (sta_align_bytes desc),
                    sec_load_src := Some (data_src (gi_pbuf_templ info') + unat (sta_offset_in_file desc))\<rparr>;
                  templ = gi_pbuf_templ info'
              in parse_static_sections r n (sec_iter + 1) p'
                   (info'\<lparr>gi_pbuf_templ := templ\<lparr>static_sections := static_sections templ @ [section_ir']\<rparr>\<rparr>)))"

fun parse_reuse_subs ::
  "load_region \<Rightarrow> u32 \<Rightarrow> nat \<Rightarrow> u32 \<Rightarrow> addr \<Rightarrow> section_desc \<Rightarrow> graph_info \<Rightarrow> (addr \<times> section_desc \<times> graph_info) parsed" where
  "parse_reuse_subs r sec_iter 0 sub_iter p section_ir info = Ok (p, section_ir, info)"
| "parse_reuse_subs r sec_iter (Suc n) sub_iter p section_ir info =
     pbind (load_desc r p 12) (\<lambda>ws.
       let sub = sub_section_of ws;
           off = sub_offset_in_section_exec sub;
           info1 = (if sub_type sub \<in> {SECTION_TYPE_INPUT, SECTION_TYPE_OUTPUT, SECTION_TYPE_INTER_DUMP,
                      SECTION_TYPE_PROF_DATA, SECTION_TYPE_PLOG_DATA}
                    then fill_io_tensor_desc_inner sec_iter sub info else info);
           section_ir' = section_ir\<lparr>sec_sub_sections := sec_sub_sections section_ir @ [\<lparr>ss_offset_in_section = off\<rparr>]\<rparr>
       in pbind (parse_ro_entries r
                   (\<lambda>ro. init_param ro PARAM_MAP_LOAD_TYPE_REUSE sec_iter sub_iter off (sub_addr_mask sub))
                   (unat (sub_offset_in_ro_cnt sub)) (p + 48) info1)
            (\<lambda>(p', info'). parse_reuse_subs r sec_iter n (sub_iter + 1) p' section_ir' info'))"

fun parse_reuse_sections ::
  "load_region \<Rightarrow> nat \<Rightarrow> u32 \<Rightarrow> addr \<Rightarrow> graph_info \<Rightarrow> (addr \<times> graph_info) parsed" where
  "parse_reuse_sections r 0 sec_iter p info = Ok (p, info)"
| "parse_reuse_sections r (Suc n) sec_iter p info =
     pbind (load_desc r p 3) (\<lambda>ws.
       let desc = reuse_section_of ws
       in pbind (parse_reuse_subs r sec_iter (unat (reu_sub_section_cnt desc)) 0 (p + 12) init_section_desc info)
            (\<lambda>(p', section_ir, info').
              let section_ir' = section_ir\<lparr>sec_load_src := None, sec_align_in_page := ALIGN_ADDR (reu_align_bytes desc),
                    sec_size := reu_size desc\<rparr>;
                  templ = gi_tbuf_templ info'
              in parse_reuse_sections r n (sec_iter + 1) p'
                   (info'\<lparr>gi_tbuf_templ := templ\<lparr>reuse_sections := reuse_sections templ @ [section_ir']\<rparr>\<rparr>)))"

text \<open>The nodes of the linked list are copied without a check.\<close>

fun parse_list_nodes :: "u8 list \<Rightarrow> nat \<Rightarrow> addr \<Rightarrow> graph_info \<Rightarrow> graph_info parsed" where
  "parse_list_nodes bin 0 p info = Ok info"
| "parse_list_nodes bin (Suc n) p info =
     pbind (memcpy_words bin p 4) (\<lambda>ws.
       parse_list_nodes bin n (p + 16) (info\<lparr>gi_dcr_map := gi_dcr_map info @ [list_node_of ws]\<rparr>))"

definition AIPU_LOADABLE_GRAPH_V0003 :: u32 where "AIPU_LOADABLE_GRAPH_V0003 = 3"
definition AIPU_LOADABLE_GRAPH_V0004 :: u32 where "AIPU_LOADABLE_GRAPH_V0004 = 4"

definition GVERSION_MINOR :: "u32 \<Rightarrow> u32" where "GVERSION_MINOR gversion = drop_bit 24 gversion"
definition GET_ASID_FLAG :: "u32 \<Rightarrow> u32" where "GET_ASID_FLAG flag = flag AND 0xF"
definition GET_LINKED_LIST_FLAG :: "u32 \<Rightarrow> u32" where "GET_LINKED_LIST_FLAG flag = drop_bit 4 flag AND 1"
definition AIPU_ARCH :: "u32 \<Rightarrow> u32" where "AIPU_ARCH device = drop_bit 20 device"
definition AIPU_VERSION :: "u32 \<Rightarrow> u32" where "AIPU_VERSION device = drop_bit 16 device AND 0xF"
definition AIPU_CONFIG :: "u32 \<Rightarrow> u32" where "AIPU_CONFIG device = device AND 0xFFFF"

definition parse_linked_list :: "load_region \<Rightarrow> addr \<Rightarrow> graph_info \<Rightarrow> graph_info parsed" where
  "parse_linked_list r p info =
     (if GVERSION_MINOR (gi_version info) = AIPU_LOADABLE_GRAPH_V0004 \<and> gi_linked_list_flag info \<noteq> 0
      then pbind (load_desc r p 1) (\<lambda>ws.
             if ws ! 0 = 0 then Fail AIPU_STATUS_ERROR_INVALID_GBIN
             else parse_list_nodes (lr_bin r) (unat (ws ! 0)) (p + 4) info)
      else Ok info)"

text \<open>
  The outputs are sorted first; the inputs only when that succeeds. A failure of either
  leaves the function with the status it has, which is success.
\<close>

definition sort_tensors :: "graph_info \<Rightarrow> graph_info" where
  "sort_tensors info =
     (let (st, outs) = sort_io_tensor (gi_outputs info);
          info1 = info\<lparr>gi_outputs := outs\<rparr>
      in if st \<noteq> AIPU_STATUS_SUCCESS then info1
         else info1\<lparr>gi_inputs := snd (sort_io_tensor (gi_inputs info1))\<rparr>)"

definition parse_bss_section :: "u8 list \<Rightarrow> u32 \<Rightarrow> graph_info \<Rightarrow> graph_info parsed" where
  "parse_bss_section bin bss_size info =
     (let r = \<lparr>lr_bin = bin, load_lb = gi_bss_src info, load_ub = gi_bss_src info + 16 + unat bss_size\<rparr>
      in pbind (memcpy_words bin (gi_bss_src info) 4) (\<lambda>ws.
           let hdr = bss_hdr_of ws
           in if bh_stack_size hdr = 0 \<or> bh_stack_align_bytes hdr = 0 \<or> bh_reuse_section_desc_cnt hdr = 0
              then Fail AIPU_STATUS_ERROR_INVALID_GBIN
              else
                let info1 = info\<lparr>gi_tbuf_templ := (gi_tbuf_templ info)\<lparr>tbuf_stack_size := bh_stack_size hdr,
                      stack_align_in_page := ALIGN_ADDR (bh_stack_align_bytes hdr)\<rparr>\<rparr>
                in pbind (parse_static_sections r (unat (bh_static_section_desc_cnt hdr)) 0 (gi_bss_src info + 16) info1)
                     (\<lambda>(p1, info2).
                       pbind (parse_reuse_sections r (unat (bh_reuse_section_desc_cnt hdr)) 0 p1 info2)
                         (\<lambda>(p2, info3). pbind (parse_linked_list r p2 info3) (\<lambda>info4. Ok (sort_tensors info4))))))"

subsection \<open>Parsing the header\<close>

record bin_hdr =
  ident :: "u8 list"
  hdr_device :: u32
  hdr_version :: u32
  hdr_build_version :: u32
  hdr_hdrsize :: u32
  hdr_filesize :: u32
  hdr_flag :: u32
  hdr_entry :: u32
  hdr_text_offset :: u32
  hdr_text_size :: u32
  hdr_rodata_offset :: u32
  hdr_rodata_size :: u32
  hdr_dcr_offset :: u32
  hdr_dcr_size :: u32
  hdr_data_offset :: u32
  hdr_data_size :: u32
  hdr_bss_offset :: u32
  hdr_bss_size :: u32

text \<open>16 bytes of identification, 20 words, 8 bytes of extra data; type, misc and extra data are not used.\<close>

definition BIN_HDR_SIZE :: nat where "BIN_HDR_SIZE = 104"

definition bin_hdr_of :: "u8 list \<Rightarrow> bin_hdr" where
  "bin_hdr_of bin =
     (let ws = words_at bin 16 20
      in \<lparr>ident = take 16 bin, hdr_device = ws ! 0, hdr_version = ws ! 1, hdr_build_version = ws ! 2,
          hdr_hdrsize = ws ! 3, hdr_filesize = ws ! 4, hdr_flag = ws ! 6, hdr_entry = ws ! 7,
          hdr_text_offset = ws ! 8, hdr_text_size = ws ! 9, hdr_rodata_offset = ws ! 10, hdr_rodata_size = ws ! 11,
          hdr_dcr_offset = ws ! 12, hdr_dcr_size = ws ! 13, hdr_data_offset = ws ! 14, hdr_data_size = ws ! 15,
          hdr_bss_offset = ws ! 16, hdr_bss_size = ws ! 17\<rparr>)"

text \<open>\<open>strcmp\<close> with the constant, whose terminator is its ninth character.\<close>

definition MAGIC :: "u8 list" where
  "MAGIC = [65, 73, 80, 85, 32, 66, 73, 78, 0]"

definition parse_graph_header :: "u8 list \<Rightarrow> u32 \<Rightarrow> graph_info \<Rightarrow> (graph_info \<times> u32) parsed" where
  "parse_graph_header bin gsize info =
     (if length bin < BIN_HDR_SIZE then Overrun
      else
        let h = bin_hdr_of bin
        in if take 9 (ident h) \<noteq> MAGIC then Fail AIPU_STATUS_ERROR_INVALID_GBIN
           else if gsize < hdr_filesize h then Fail AIPU_STATUS_ERROR_INVALID_GBIN
           else if GVERSION_MINOR (hdr_version h) \<noteq> AIPU_LOADABLE_GRAPH_V0003 \<and>
                   GVERSION_MINOR (hdr_version h) \<noteq> AIPU_LOADABLE_GRAPH_V0004
           then Fail AIPU_STATUS_ERROR_GVERSION_UNSUPPORTED
           else if hdr_hdrsize h \<noteq> of_nat BIN_HDR_SIZE then Fail AIPU_STATUS_ERROR_INVALID_GBIN
           else if hdr_text_size h \<le> hdr_entry h then Fail AIPU_STATUS_ERROR_INVALID_GBIN
           else if hdr_text_offset h < of_nat BIN_HDR_SIZE \<or>
                   hdr_rodata_offset h < hdr_text_offset h + hdr_text_size h \<or> hdr_text_size h = 0
           then Fail AIPU_STATUS_ERROR_INVALID_GBIN
           else if hdr_data_offset h < hdr_rodata_offset h + hdr_rodata_size h \<or> hdr_rodata_size h = 0
           then Fail AIPU_STATUS_ERROR_INVALID_GBIN
           else if hdr_bss_offset h < hdr_data_offset h + hdr_data_size h
           then Fail AIPU_STATUS_ERROR_INVALID_GBIN
           else if hdr_filesize h < hdr_bss_offset h + hdr_bss_size h \<or> hdr_bss_size h = 0
           then Fail AIPU_STATUS_ERROR_INVALID_GBIN
           else Ok (info\<lparr>gi_gbin := 0, gi_gbin_size := gsize, gi_device := hdr_device h,
               gi_version := hdr_version h, gi_build_version := hdr_build_version h, gi_entry := hdr_entry h,
               gi_asid_flag := GET_ASID_FLAG (hdr_flag h), gi_bss_src := unat (hdr_bss_offset h),
               gi_pbuf_templ := (gi_pbuf_templ info)\<lparr>text_src := unat (hdr_text_offset h), text_size := hdr_text_size h,
                 data_src := unat (hdr_data_offset h), data_size := hdr_data_size h\<rparr>,
               gi_tbuf_templ := (gi_tbuf_templ info)\<lparr>rodata_src := unat (hdr_rodata_offset h),
                 tbuf_rodata_size := hdr_rodata_size h,
                 dcr_src := (if hdr_dcr_size h \<noteq> 0 then Some (unat (hdr_dcr_offset h)) else None),
                 dcr_size := hdr_dcr_size h\<rparr>,
               gi_linked_list_flag := (if GVERSION_MINOR (hdr_version h) = AIPU_LOADABLE_GRAPH_V0004
                 then GET_LINKED_LIST_FLAG (hdr_flag h) else 0)\<rparr>, hdr_bss_size h))"

subsection \<open>Parsing a graph\<close>

text \<open>The device of the open context: what \<open>match_target_dev\<close> compares with.\<close>

record target_dev =
  aipu_arch :: u32
  aipu_version :: u32
  aipu_hw_config :: u32

definition match_target_dev :: "target_dev \<Rightarrow> u32 \<Rightarrow> u32 \<Rightarrow> u32 \<Rightarrow> bool" where
  "match_target_dev dev arch version hw_config \<longleftrightarrow>
     arch = aipu_arch dev \<and> version = aipu_version dev \<and> hw_config = aipu_hw_config dev"

text \<open>
  The graph information is a local of \<open>load_graph\<close> that an error discards, so an error
  carries its status only. A NULL graph is no list of bytes.
\<close>

definition parse_graph :: "target_dev \<Rightarrow> bool \<Rightarrow> u8 list option \<Rightarrow> u32 \<Rightarrow> graph_info \<Rightarrow> graph_info parsed" where
  "parse_graph dev bypass_version_check graph gsize info =
     (case graph of
        None \<Rightarrow> Fail AIPU_STATUS_ERROR_NULL_PTR
      | Some bin \<Rightarrow>
          if unat gsize < BIN_HDR_SIZE then Fail AIPU_STATUS_ERROR_INVALID_SIZE
          else pbind (parse_graph_header bin gsize info) (\<lambda>(info1, bss_size).
                 pbind (parse_bss_section bin bss_size info1) (\<lambda>info2.
                   if \<not> match_target_dev dev (AIPU_ARCH (gi_device info2)) (AIPU_VERSION (gi_device info2))
                        (AIPU_CONFIG (gi_device info2)) \<and> \<not> bypass_version_check
                   then Fail AIPU_STATUS_ERROR_TARGET_NOT_FOUND else Ok info2)))"

text \<open>The graph information before parsing: empty lists, the other fields as \<open>load_graph\<close> declares them.\<close>

definition empty_info :: graph_info where
  "empty_info = \<lparr>gi_gbin = 0, gi_gbin_size = 0, gi_device = 0, gi_version = 0, gi_build_version = 0, gi_entry = 0,
     gi_asid_flag = 0, gi_linked_list_flag = 0, gi_bss_src = 0,
     gi_pbuf_templ = \<lparr>text_src = 0, text_size = 0, data_src = 0, data_size = 0, static_sections = []\<rparr>,
     gi_tbuf_templ = \<lparr>rodata_src = 0, tbuf_rodata_size = 0, dcr_src = None, dcr_size = 0, tbuf_stack_size = 0,
       stack_align_in_page = 0, reuse_sections = []\<rparr>,
     gi_inputs = [], gi_outputs = [], gi_inter_dumps = [], gi_pdata = [], gi_plog_data = [], gi_param_map = [], gi_dcr_map = []\<rparr>"

end
