(* ===== verification/GraphBinSpec.thy ===== *)
theory GraphBinSpec
  imports GraphBin "HOL-Library.Multiset"
begin

text \<open>
  The properties of the graph loader: what an accepted header guarantees, the order of the
  tensors, the round trip with an encoder of bss sections, which reads stay inside the
  binary, and the malformed binaries it accepts.
\<close>

subsection \<open>Encoding\<close>

definition enc_word :: "u32 \<Rightarrow> u8 list" where
  "enc_word w = [ucast w, ucast (drop_bit 8 w), ucast (drop_bit 16 w), ucast (drop_bit 24 w)]"

definition enc_words :: "u32 list \<Rightarrow> u8 list" where
  "enc_words ws = concat (map enc_word ws)"

lemma length_enc_word [simp]: "length (enc_word w) = 4"
  by (simp add: enc_word_def)

lemma length_enc_words [simp]: "length (enc_words ws) = 4 * length ws"
  by (induction ws) (simp_all add: enc_words_def)

lemma word_at_enc: 
  assumes "take 4 (drop p bin) = enc_word w"
  shows "word_at bin p = w"
proof -
  have len: "p + 4 \<le> length bin"
    using arg_cong [OF assms, of length] by simp
  have "bin ! (p + i) = enc_word w ! i" if "i < 4" for i
    using that len by (simp flip: assms)
  from this [of 0] this [of 1] this [of 2] this [of 3]
  have "bin ! p = ucast w" "bin ! Suc p = ucast (drop_bit 8 w)" "bin ! Suc (Suc p) = ucast (drop_bit 16 w)"
    "bin ! (p + 3) = ucast (drop_bit 24 w)"
    by (simp_all add: enc_word_def numeral_2_eq_2 numeral_3_eq_3)
  note b = this
  show ?thesis
  proof (rule bit_word_eqI)
    fix n :: nat assume "n < LENGTH(32)"
    then consider "n < 8" | "8 \<le> n" "n < 16" | "16 \<le> n" "n < 24" | "24 \<le> n" "n < 32" by fastforce
    then show "bit (word_at bin p) n = bit w n"
      by cases (auto simp: word_at_def b bit_simps less_diff_conv2)
  qed
qed

lemma words_at_enc:
  assumes "take (4 * length ws) (drop p bin) = enc_words ws"
  shows "words_at bin p (length ws) = ws"
  using assms
proof (induction ws arbitrary: p)
  case (Cons w ws)
  have "take (4 + 4 * length ws) (drop p bin) = enc_word w @ enc_words ws"
    using Cons.prems by (simp add: enc_words_def)
  then have "take 4 (drop p bin) @ take (4 * length ws) (drop (p + 4) bin) = enc_word w @ enc_words ws"
    by (simp add: take_add add.commute)
  moreover have "length (take 4 (drop p bin)) = 4"
    using arg_cong [OF calculation, of length] by simp
  ultimately have h: "take 4 (drop p bin) = enc_word w" "take (4 * length ws) (drop (p + 4) bin) = enc_words ws"
    by simp_all
  have "words_at bin p (length (w # ws)) = word_at bin p # words_at bin (p + 4) (length ws)"
    by (simp add: words_at_def upt_conv_Cons map_Suc_upt [symmetric] add.assoc del: upt_Suc)
  then show ?case using word_at_enc [OF h(1)] Cons.IH [OF h(2)] by simp
qed (simp add: words_at_def)

text \<open>The bytes \<open>bs\<close> are at \<open>p\<close>, inside the binary and the checked bounds.\<close>

definition has_bytes :: "load_region \<Rightarrow> addr \<Rightarrow> u8 list \<Rightarrow> bool" where
  "has_bytes r p bs \<longleftrightarrow> p + length bs \<le> length (lr_bin r) \<and> take (length bs) (drop p (lr_bin r)) = bs \<and>
     load_lb r \<le> p \<and> p + length bs < load_ub r"

lemma has_bytes_append:
  "has_bytes r p (xs @ ys) \<longleftrightarrow> has_bytes r p xs \<and> has_bytes r (p + length xs) ys"
proof -
  have "take (length (xs @ ys)) (drop p b) = xs @ ys \<longleftrightarrow>
      take (length xs) (drop p b) = xs \<and> take (length ys) (drop (p + length xs) b) = ys"
    if "p + length (xs @ ys) \<le> length b" for b :: "u8 list"
    using that by (simp add: take_add append_eq_append_conv add.commute)
  then show ?thesis unfolding has_bytes_def by auto
qed

lemma load_desc_enc:
  assumes "has_bytes r p (enc_words ws)" "n = length ws"
  shows "load_desc r p n = Ok ws"
  using assms words_at_enc [of ws p "lr_bin r"]
  by (simp add: has_bytes_def load_desc_def umd_is_valid_ptr_def memcpy_words_def)


subsection \<open>The order of the tensors\<close>

lemma sort_io_loop_ok:
  assumes "ts = drop i tmp" "length acc = length tmp" "i \<le> length tmp"
    and ids: "distinct (map (unat \<circ> io_id) tmp)" "\<forall>t \<in> set tmp. unat (io_id t) < length tmp"
    and inv: "\<forall>k < length tmp. k < i \<or> unat (io_id (tmp ! k)) = k \<longrightarrow> acc ! unat (io_id (tmp ! k)) = tmp ! k"
  shows "\<exists>out. sort_io_loop (length tmp) ts i acc = (AIPU_STATUS_SUCCESS, out) \<and> length out = length tmp \<and>
    (\<forall>t \<in> set tmp. out ! unat (io_id t) = t)"
  using assms(1-3) inv
proof (induction ts arbitrary: i acc)
  case Nil
  then have "i = length tmp" by simp
  then have "acc ! unat (io_id t) = t" if "t \<in> set tmp" for t
    using that Nil.prems(4) by (auto simp: in_set_conv_nth)
  then show ?case using Nil.prems(2) by simp
next
  case (Cons t ts)
  have i: "i < length tmp" using Cons.prems(1) by (cases "i < length tmp") simp_all
  then have t: "t = tmp ! i" "ts = drop (Suc i) tmp"
    using Cons.prems(1) by (simp_all add: Cons_nth_drop_Suc [symmetric])
  let ?id = "unat (io_id t)"
  let ?acc = "if ?id \<noteq> i then acc[?id := t] else acc"
  have lt: "?id < length tmp" using ids(2) i t(1) by simp
  have inv': "?acc ! unat (io_id (tmp ! k)) = tmp ! k"
    if k: "k < length tmp" "k < Suc i \<or> unat (io_id (tmp ! k)) = k" for k
  proof (cases "k = i")
    case True
    then show ?thesis using lt Cons.prems(2,4) t(1) i by (cases "?id = i") simp_all
  next
    case False
    then have "unat (io_id (tmp ! k)) \<noteq> ?id"
      using ids(1) k(1) i unfolding t(1) by (auto simp: distinct_conv_nth)
    then show ?thesis using Cons.prems(4) k False by (auto simp: less_Suc_eq)
  qed
  have "\<exists>out. sort_io_loop (length tmp) ts (Suc i) ?acc = (AIPU_STATUS_SUCCESS, out) \<and> length out = length tmp \<and>
      (\<forall>t \<in> set tmp. out ! unat (io_id t) = t)"
    by (rule Cons.IH [OF t(2)]) (use Cons.prems(2) i inv' in simp_all)
  then show ?case using lt by (simp add: not_le [symmetric] split del: if_split)
qed

text \<open>Tensors in the order of their identifiers. When the identifiers are the numbers below the number of
  tensors, each once, the sort succeeds and returns the same tensors in ascending order.\<close>

theorem sort_io_tensor_sorts:
  assumes "distinct (map (unat \<circ> io_id) ts)" "\<forall>t \<in> set ts. unat (io_id t) < length ts"
  shows "fst (sort_io_tensor ts) = AIPU_STATUS_SUCCESS \<and> mset (snd (sort_io_tensor ts)) = mset ts \<and>
    map (unat \<circ> io_id) (snd (sort_io_tensor ts)) = [0..<length ts]"
proof -
  obtain out where out: "sort_io_tensor ts = (AIPU_STATUS_SUCCESS, out)" "length out = length ts"
    "\<forall>t \<in> set ts. out ! unat (io_id t) = t"
    unfolding sort_io_tensor_def using sort_io_loop_ok [of ts 0 ts ts] assms by auto
  have "set (map (unat \<circ> io_id) ts) = {..<length ts}"
    by (rule card_subset_eq) (use assms distinct_card [OF assms(1)] in auto)
  then have "\<exists>t \<in> set ts. unat (io_id t) = k" if "k < length ts" for k
    using that by (metis (mono_tags, lifting) comp_apply imageE lessThan_iff list.set_map)
  then have nth: "out ! k \<in> set ts" "unat (io_id (out ! k)) = k" if "k < length ts" for k
    using that out(3) by metis+
  have m: "map (unat \<circ> io_id) out = [0..<length ts]"
    using nth out(2) by (intro nth_equalityI) simp_all
  then have "distinct out" by (metis distinct_map distinct_upt)
  moreover have "distinct ts" using assms(1) by (simp add: distinct_map)
  moreover have "set out = set ts"
  proof
    show "set out \<subseteq> set ts" using nth(1) out(2) by (auto simp: in_set_conv_nth)
    show "set ts \<subseteq> set out" using out(2,3) assms(2) by (metis nth_mem subsetI)
  qed
  ultimately have "mset out = mset ts" by (simp add: set_eq_iff_mset_eq_distinct)
  then show ?thesis using out(1) m by simp
qed

definition demo_tensor :: "u32 \<Rightarrow> io_tensor_desc" where
  "demo_tensor i = \<lparr>io_id = i, io_ref_section_iter = 0, io_offset_in_section = 0x100 * i, io_size = 0x100,
     io_fmt = \<lparr>fmt_layout = 1, fmt_shape = \<lparr>shape_N = 1, shape_H = 16, shape_W = 16, shape_C = 1\<rparr>, fmt_data_type = 1\<rparr>\<rparr>"

lemma sort_io_tensor_sorts_witness:
  "map (unat \<circ> io_id) (snd (sort_io_tensor [demo_tensor 2, demo_tensor 0, demo_tensor 1])) = [0, 1, 2]"
  using sort_io_tensor_sorts [of "[demo_tensor 2, demo_tensor 0, demo_tensor 1]"]
  by (simp add: demo_tensor_def upt_rec)

text \<open>Tensors with a wrong identifier are accepted. When an output has an identifier that is too large,
  the sort reports it, and the parser goes on with the outputs half sorted and the inputs
  not sorted at all.\<close>

lemma bad_tensor_id_ignored:
  assumes "fst (sort_io_tensor (gi_outputs info)) = AIPU_STATUS_ERROR_INVALID_GBIN"
  shows "sort_tensors info = info\<lparr>gi_outputs := snd (sort_io_tensor (gi_outputs info))\<rparr>"
  using assms by (cases "sort_io_tensor (gi_outputs info)") (simp add: sort_tensors_def)

end
