(* ===== verification/GraphBinTrip.thy ===== *)
theory GraphBinTrip
  imports GraphBinSpec
begin

text \<open>
  An encoder for the bss section of a graph binary, as the offline tool lays it out, and the
  proof that \<open>parse_bss_section\<close> reads back exactly what was encoded; what the parser does at
  and beyond the end of the section; and what the checks of \<open>parse_graph_header\<close> establish.
\<close>

subsection \<open>The bss section of a graph, encoded\<close>

text \<open>
  A subsection with the places of the read-only data that refer to it, a section with its
  subsections.
\<close>

type_synonym gsub = "sub_section_desc_v3 \<times> u32 list"

definition sub_words :: "sub_section_desc_v3 \<Rightarrow> u32 list" where
  "sub_words s = [sub_offset_in_section_exec s, sub_size s, sub_type s, sub_id s, sub_dtype s, sub_layout s] @
     sub_shape s @ [sub_addr_mask s, sub_offset_in_ro_cnt s]"

definition sub_ok :: "gsub \<Rightarrow> bool" where
  "sub_ok x \<longleftrightarrow> length (sub_shape (fst x)) = 4 \<and> unat (sub_offset_in_ro_cnt (fst x)) = length (snd x)"

definition enc_sub :: "gsub \<Rightarrow> u8 list" where
  "enc_sub x = enc_words (sub_words (fst x)) @ enc_words (snd x)"

definition enc_subs :: "gsub list \<Rightarrow> u8 list" where
  "enc_subs xs = concat (map enc_sub xs)"

definition enc_static :: "static_section_desc_v3 \<times> gsub list \<Rightarrow> u8 list" where
  "enc_static x = enc_words [sta_offset_in_file (fst x), sta_size (fst x), sta_align_bytes (fst x),
     sta_sub_section_cnt (fst x)] @ enc_subs (snd x)"

definition enc_reuse :: "reuse_section_desc_v3 \<times> gsub list \<Rightarrow> u8 list" where
  "enc_reuse x = enc_words [reu_size (fst x), reu_align_bytes (fst x), reu_sub_section_cnt (fst x)] @ enc_subs (snd x)"

definition static_ok :: "static_section_desc_v3 \<times> gsub list \<Rightarrow> bool" where
  "static_ok x \<longleftrightarrow> unat (sta_sub_section_cnt (fst x)) = length (snd x) \<and> (\<forall>s \<in> set (snd x). sub_ok s)"

definition reuse_ok :: "reuse_section_desc_v3 \<times> gsub list \<Rightarrow> bool" where
  "reuse_ok x \<longleftrightarrow> unat (reu_sub_section_cnt (fst x)) = length (snd x) \<and> (\<forall>s \<in> set (snd x). sub_ok s)"

definition hdr_words :: "bss_hdr_v3 \<Rightarrow> u32 list" where
  "hdr_words h = [bh_stack_size h, bh_stack_align_bytes h, bh_static_section_desc_cnt h, bh_reuse_section_desc_cnt h]"

definition enc_bss :: "bss_hdr_v3 \<Rightarrow> (static_section_desc_v3 \<times> gsub list) list \<Rightarrow>
    (reuse_section_desc_v3 \<times> gsub list) list \<Rightarrow> u8 list" where
  "enc_bss h sts rus = enc_words (hdr_words h) @ concat (map enc_static sts) @ concat (map enc_reuse rus)"

subsection \<open>What the encoding stands for\<close>

definition ro_params :: "u32 \<Rightarrow> u32 \<Rightarrow> nat \<Rightarrow> gsub \<Rightarrow> param_map_load_desc list" where
  "ro_params ty k i x = map (\<lambda>ro. \<lparr>pm_offset_in_map = ro, pm_load_type = ty, pm_ref_section_iter = k,
     pm_ref_sub_section_iter = of_nat i, pm_sub_section_offset = sub_offset_in_section_exec (fst x),
     pm_addr_mask = sub_addr_mask (fst x)\<rparr>) (snd x)"

definition subs_params :: "u32 \<Rightarrow> u32 \<Rightarrow> nat \<Rightarrow> gsub list \<Rightarrow> param_map_load_desc list" where
  "subs_params ty k i xs = concat (map (\<lambda>(j, x). ro_params ty k j x) (enumerate i xs))"

definition secs_params :: "u32 \<Rightarrow> nat \<Rightarrow> ('d \<times> gsub list) list \<Rightarrow> param_map_load_desc list" where
  "secs_params ty i xs = concat (map (\<lambda>(j, x). subs_params ty (of_nat j) 0 (snd x)) (enumerate i xs))"

definition offsets_of :: "gsub list \<Rightarrow> sub_section_desc list" where
  "offsets_of xs = map (\<lambda>x. \<lparr>ss_offset_in_section = sub_offset_in_section_exec (fst x)\<rparr>) xs"

definition tensor_of :: "u32 \<Rightarrow> sub_section_desc_v3 \<Rightarrow> io_tensor_desc" where
  "tensor_of k s = \<lparr>io_id = sub_id s, io_ref_section_iter = k,
     io_offset_in_section = sub_offset_in_section_exec s, io_size = sub_size s,
     io_fmt = \<lparr>fmt_layout = sub_layout s,
       fmt_shape = \<lparr>shape_N = sub_shape s ! 0, shape_H = sub_shape s ! 1, shape_W = sub_shape s ! 2, shape_C = sub_shape s ! 3\<rparr>,
       fmt_data_type = sub_dtype s - 1\<rparr>\<rparr>"

definition subs_tensors :: "u32 \<Rightarrow> u32 \<Rightarrow> gsub list \<Rightarrow> io_tensor_desc list" where
  "subs_tensors ty k xs = map (tensor_of k) (filter (\<lambda>s. sub_type s = ty) (map fst xs))"

definition secs_tensors :: "u32 \<Rightarrow> nat \<Rightarrow> ('d \<times> gsub list) list \<Rightarrow> io_tensor_desc list" where
  "secs_tensors ty i xs = concat (map (\<lambda>(j, x). subs_tensors ty (of_nat j) (snd x)) (enumerate i xs))"

text \<open>An alignment in bytes as a number of pages, rounded up in 32 bits.\<close>

definition pages_of :: "u32 \<Rightarrow> u32" where
  "pages_of bytes = (bytes + 4095) div 4096"

lemma ALIGN_ADDR_pages: "ALIGN_ADDR bytes = pages_of bytes"
proof -
  have d: "x div 4096 = drop_bit 12 x" for x :: u32 by (simp add: drop_bit_eq_div)
  have m: "(4096 - 1 :: u32) = mask 12" by (simp add: mask_eq_exp_minus_1)
  have "drop_bit 12 (x AND NOT (mask 12)) = drop_bit 12 x" for x :: u32
    by (intro bit_word_eqI) (auto simp add: bit_simps simp del: mask_eq_exp_minus_1 dest: bit_imp_le_length)
  then have "ALIGN_ADDR bytes = drop_bit 12 (bytes + 4096 - 1)"
    unfolding ALIGN_ADDR_def ALIGN_PAGE_def m d .
  then show ?thesis by (simp add: pages_of_def d add.commute)
qed

definition static_section :: "addr \<Rightarrow> static_section_desc_v3 \<times> gsub list \<Rightarrow> section_desc" where
  "static_section base x = \<lparr>sec_load_src = Some (base + unat (sta_offset_in_file (fst x))), sec_size = sta_size (fst x),
     sec_align_in_page = pages_of (sta_align_bytes (fst x)), sec_sub_sections = offsets_of (snd x)\<rparr>"

definition reuse_section :: "reuse_section_desc_v3 \<times> gsub list \<Rightarrow> section_desc" where
  "reuse_section x = \<lparr>sec_load_src = None, sec_size = reu_size (fst x),
     sec_align_in_page = pages_of (reu_align_bytes (fst x)), sec_sub_sections = offsets_of (snd x)\<rparr>"

text \<open>The graph information with parameters, and with tensors of each kind, appended.\<close>

definition add_params :: "param_map_load_desc list \<Rightarrow> graph_info \<Rightarrow> graph_info" where
  "add_params ps info = info\<lparr>gi_param_map := gi_param_map info @ ps\<rparr>"

definition add_tensors :: "(u32 \<Rightarrow> io_tensor_desc list) \<Rightarrow> graph_info \<Rightarrow> graph_info" where
  "add_tensors f info = info\<lparr>gi_inputs := gi_inputs info @ f SECTION_TYPE_INPUT,
     gi_outputs := gi_outputs info @ f SECTION_TYPE_OUTPUT, gi_inter_dumps := gi_inter_dumps info @ f SECTION_TYPE_INTER_DUMP,
     gi_pdata := gi_pdata info @ f SECTION_TYPE_PROF_DATA, gi_plog_data := gi_plog_data info @ f SECTION_TYPE_PLOG_DATA\<rparr>"

definition add_statics :: "section_desc list \<Rightarrow> graph_info \<Rightarrow> graph_info" where
  "add_statics xs info = info\<lparr>gi_pbuf_templ := (gi_pbuf_templ info)\<lparr>static_sections := static_sections (gi_pbuf_templ info) @ xs\<rparr>\<rparr>"

definition add_reuses :: "section_desc list \<Rightarrow> graph_info \<Rightarrow> graph_info" where
  "add_reuses xs info = info\<lparr>gi_tbuf_templ := (gi_tbuf_templ info)\<lparr>reuse_sections := reuse_sections (gi_tbuf_templ info) @ xs\<rparr>\<rparr>"

lemma add_params_simps [simp]:
  "add_params ps (add_params qs info) = add_params (qs @ ps) info" "add_params [] info = info"
  "gi_pbuf_templ (add_params ps info) = gi_pbuf_templ info" "gi_tbuf_templ (add_params ps info) = gi_tbuf_templ info"
  by (simp_all add: add_params_def)

lemma add_tensors_simps [simp]:
  "add_tensors g (add_tensors f info) = add_tensors (\<lambda>x. f x @ g x) info" "add_tensors (\<lambda>x. []) info = info"
  "add_tensors f (add_params ps info) = add_params ps (add_tensors f info)"
  "gi_tbuf_templ (add_tensors f info) = gi_tbuf_templ info"
  by (simp_all add: add_tensors_def add_params_def)

lemma add_sections_simps [simp]:
  "add_params ps (add_statics xs info) = add_statics xs (add_params ps info)"
  "add_params ps (add_reuses xs info) = add_reuses xs (add_params ps info)"
  "add_tensors f (add_reuses xs info) = add_reuses xs (add_tensors f info)"
  "add_statics ys (add_statics xs info) = add_statics (xs @ ys) info" "add_statics [] info = info"
  "add_reuses ys (add_reuses xs info) = add_reuses (xs @ ys) info" "add_reuses [] info = info"
  "data_src (gi_pbuf_templ (add_statics xs info)) = data_src (gi_pbuf_templ info)"
  by (simp_all add: add_params_def add_tensors_def add_statics_def add_reuses_def)

lemma fill_io_add:
  "(if sub_type s \<in> {SECTION_TYPE_INPUT, SECTION_TYPE_OUTPUT, SECTION_TYPE_INTER_DUMP, SECTION_TYPE_PROF_DATA, SECTION_TYPE_PLOG_DATA}
    then fill_io_tensor_desc_inner k s info else info) = add_tensors (\<lambda>ty. subs_tensors ty k [(s, ros)]) info"
  by (simp add: fill_io_tensor_desc_inner_def add_tensors_def subs_tensors_def tensor_of_def section_type_defs Let_def)

lemma sub_section_of_words: "length (sub_shape s) = 4 \<Longrightarrow> sub_section_of (sub_words s) = s"
  by (cases s) (auto simp: sub_section_of_def sub_words_def numeral_eq_Suc length_Suc_conv)

lemma length_sub_words: "sub_ok x \<Longrightarrow> length (sub_words (fst x)) = 12"
  by (simp add: sub_words_def sub_ok_def)

subsection \<open>Every loop reads what was encoded\<close>

lemma parse_ro_enc:
  assumes "has_bytes r p (enc_words ros)"
  shows "parse_ro_entries r f (length ros) p info = Ok (p + 4 * length ros, add_params (map f ros) info)"
  using assms
proof (induction ros arbitrary: p info)
  case (Cons w ws)
  have h: "has_bytes r p (enc_words [w])" "has_bytes r (p + 4) (enc_words ws)"
    using Cons.prems has_bytes_append [of r p "enc_words [w]" "enc_words ws"] by (simp_all add: enc_words_def)
  have l: "load_desc r p 1 = Ok [w]" by (rule load_desc_enc [OF h(1)]) simp
  show ?case using Cons.IH [OF h(2)] l by (simp add: add_params_def)
qed simp

lemma enc_sub_bytes:
  assumes "has_bytes r p (enc_subs (x # xs))" "sub_ok x"
  shows "load_desc r p 12 = Ok (sub_words (fst x))" "has_bytes r (p + 48) (enc_words (snd x))"
    "has_bytes r (p + 48 + 4 * length (snd x)) (enc_subs xs)"
proof -
  have h: "has_bytes r p (enc_words (sub_words (fst x)) @ enc_words (snd x) @ enc_subs xs)"
    using assms(1) by (simp add: enc_subs_def enc_sub_def)
  note l = length_sub_words [OF assms(2)]
  have b: "has_bytes r p (enc_words (sub_words (fst x)))" using h by (simp add: has_bytes_append)
  show "load_desc r p 12 = Ok (sub_words (fst x))" by (rule load_desc_enc [OF b]) (simp add: l)
  show "has_bytes r (p + 48) (enc_words (snd x))" "has_bytes r (p + 48 + 4 * length (snd x)) (enc_subs xs)"
    using h by (simp_all add: has_bytes_append l)
qed

lemma length_enc_sub: "sub_ok x \<Longrightarrow> length (enc_sub x) = 48 + 4 * length (snd x)"
  by (simp add: enc_sub_def length_sub_words)

lemma parse_static_subs_enc:
  assumes "has_bytes r p (enc_subs xs)" "\<forall>x \<in> set xs. sub_ok x"
  shows "parse_static_subs r k (length xs) (of_nat i) p sec info =
    Ok (p + length (enc_subs xs), sec\<lparr>sec_sub_sections := sec_sub_sections sec @ offsets_of xs\<rparr>,
        add_params (subs_params PARAM_MAP_LOAD_TYPE_STATIC k i xs) info)"
  using assms
proof (induction xs arbitrary: p i sec info)
  case (Cons x xs)
  have ok: "sub_ok x" using Cons.prems(2) by simp
  note b = enc_sub_bytes [OF Cons.prems(1) ok]
  have s: "sub_section_of (sub_words (fst x)) = fst x" "unat (sub_offset_in_ro_cnt (fst x)) = length (snd x)"
    using ok sub_section_of_words by (simp_all add: sub_ok_def)
  have i: "(of_nat i :: u32) + 1 = of_nat (Suc i)" by simp
  have e: "length (enc_subs (x # xs)) = 48 + 4 * length (snd x) + length (enc_subs xs)"
    using length_enc_sub [OF ok] by (simp add: enc_subs_def)
  show ?case
    using Cons.IH [OF b(3), of "Suc i"] Cons.prems(2)
    by (simp add: b(1) s parse_ro_enc [OF b(2)] e offsets_of_def subs_params_def ro_params_def init_param_def Let_def add.assoc del: of_nat_Suc flip: i)
qed (simp add: enc_subs_def offsets_of_def subs_params_def)

lemma parse_reuse_subs_enc:
  assumes "has_bytes r p (enc_subs xs)" "\<forall>x \<in> set xs. sub_ok x"
  shows "parse_reuse_subs r k (length xs) (of_nat i) p sec info =
    Ok (p + length (enc_subs xs), sec\<lparr>sec_sub_sections := sec_sub_sections sec @ offsets_of xs\<rparr>,
        add_params (subs_params PARAM_MAP_LOAD_TYPE_REUSE k i xs) (add_tensors (\<lambda>ty. subs_tensors ty k xs) info))"
  using assms
proof (induction xs arbitrary: p i sec info)
  case (Cons x xs)
  have ok: "sub_ok x" using Cons.prems(2) by simp
  note b = enc_sub_bytes [OF Cons.prems(1) ok]
  have s: "sub_section_of (sub_words (fst x)) = fst x" "unat (sub_offset_in_ro_cnt (fst x)) = length (snd x)"
    using ok sub_section_of_words by (simp_all add: sub_ok_def)
  have i: "(of_nat i :: u32) + 1 = of_nat (Suc i)" by simp
  have e: "length (enc_subs (x # xs)) = 48 + 4 * length (snd x) + length (enc_subs xs)"
    using length_enc_sub [OF ok] by (simp add: enc_subs_def)
  have t: "subs_tensors ty k (x # xs) = subs_tensors ty k [(fst x, snd x)] @ subs_tensors ty k xs" for ty
    by (simp add: subs_tensors_def)
  show ?case
    using Cons.IH [OF b(3), of "Suc i"] Cons.prems(2)
    by (simp only: parse_reuse_subs.simps length_Cons b(1) pbind.simps Let_def s parse_ro_enc [OF b(2)] fill_io_add [where ros = "snd x"] prod.case i)
       (simp add: e t offsets_of_def subs_params_def ro_params_def init_param_def del: of_nat_Suc)
qed (simp add: enc_subs_def offsets_of_def subs_params_def subs_tensors_def)


lemma of_nat_Suc_u32: "(of_nat i :: u32) + 1 = of_nat (Suc i)"
  by simp

lemma parse_static_sections_enc:
  assumes "has_bytes r p (concat (map enc_static xs))" "\<forall>x \<in> set xs. static_ok x"
  shows "parse_static_sections r (length xs) (of_nat i) p info =
    Ok (p + length (concat (map enc_static xs)),
        add_statics (map (static_section (data_src (gi_pbuf_templ info))) xs)
          (add_params (secs_params PARAM_MAP_LOAD_TYPE_STATIC i xs) info))"
  using assms
proof (induction xs arbitrary: p i info)
  case (Cons x xs)
  have ok: "unat (sta_sub_section_cnt (fst x)) = length (snd x)" "\<forall>s \<in> set (snd x). sub_ok s"
    using Cons.prems(2) by (simp_all add: static_ok_def)
  let ?ws = "[sta_offset_in_file (fst x), sta_size (fst x), sta_align_bytes (fst x), sta_sub_section_cnt (fst x)]"
  have h: "has_bytes r p (enc_words ?ws)" "has_bytes r (p + 16) (enc_subs (snd x))"
    "has_bytes r (p + 16 + length (enc_subs (snd x))) (concat (map enc_static xs))"
    using Cons.prems(1) by (simp_all add: enc_static_def [of x] has_bytes_append add.assoc)
  have l: "load_desc r p 4 = Ok ?ws" "static_section_of ?ws = fst x"
    using load_desc_enc [OF h(1), of 4] by (simp_all add: static_section_of_def)
  note subs = parse_static_subs_enc [OF h(2) ok(2), of _ 0, unfolded semiring_1_class.of_nat_0]
  let ?sec = "static_section (data_src (gi_pbuf_templ info)) x"
  let ?info = "add_statics [?sec] (add_params (subs_params PARAM_MAP_LOAD_TYPE_STATIC (of_nat i) 0 (snd x)) info)"
  have "parse_static_sections r (length (x # xs)) (of_nat i) p info =
      parse_static_sections r (length xs) (of_nat (Suc i)) (p + 16 + length (enc_subs (snd x))) ?info"
    by (simp add: l subs ok(1) add_statics_def static_section_def ALIGN_ADDR_pages init_section_desc_def Let_def del: of_nat_Suc flip: of_nat_Suc_u32)
  also have "\<dots> = Ok (p + 16 + length (enc_subs (snd x)) + length (concat (map enc_static xs)),
      add_statics (map (static_section (data_src (gi_pbuf_templ ?info))) xs)
        (add_params (secs_params PARAM_MAP_LOAD_TYPE_STATIC (Suc i) xs) ?info))"
    by (rule Cons.IH [OF h(3)]) (use Cons.prems(2) in simp)
  finally show ?case by (simp add: secs_params_def enc_static_def [of x] add.assoc)
qed (simp add: secs_params_def)

lemma parse_reuse_sections_enc:
  assumes "has_bytes r p (concat (map enc_reuse xs))" "\<forall>x \<in> set xs. reuse_ok x"
  shows "parse_reuse_sections r (length xs) (of_nat i) p info =
    Ok (p + length (concat (map enc_reuse xs)),
        add_reuses (map reuse_section xs) (add_params (secs_params PARAM_MAP_LOAD_TYPE_REUSE i xs)
          (add_tensors (\<lambda>ty. secs_tensors ty i xs) info)))"
  using assms
proof (induction xs arbitrary: p i info)
  case (Cons x xs)
  have ok: "unat (reu_sub_section_cnt (fst x)) = length (snd x)" "\<forall>s \<in> set (snd x). sub_ok s"
    using Cons.prems(2) by (simp_all add: reuse_ok_def)
  let ?ws = "[reu_size (fst x), reu_align_bytes (fst x), reu_sub_section_cnt (fst x)]"
  have h: "has_bytes r p (enc_words ?ws)" "has_bytes r (p + 12) (enc_subs (snd x))"
    "has_bytes r (p + 12 + length (enc_subs (snd x))) (concat (map enc_reuse xs))"
    using Cons.prems(1) by (simp_all add: enc_reuse_def [of x] has_bytes_append add.assoc)
  have l: "load_desc r p 3 = Ok ?ws" "reuse_section_of ?ws = fst x"
    using load_desc_enc [OF h(1), of 3] by (simp_all add: reuse_section_of_def)
  note subs = parse_reuse_subs_enc [OF h(2) ok(2), of _ 0, unfolded semiring_1_class.of_nat_0]
  let ?info = "add_reuses [reuse_section x] (add_params (subs_params PARAM_MAP_LOAD_TYPE_REUSE (of_nat i) 0 (snd x))
    (add_tensors (\<lambda>ty. subs_tensors ty (of_nat i) (snd x)) info))"
  have "parse_reuse_sections r (length (x # xs)) (of_nat i) p info =
      parse_reuse_sections r (length xs) (of_nat (Suc i)) (p + 12 + length (enc_subs (snd x))) ?info"
    by (simp add: l subs ok(1) add_reuses_def reuse_section_def ALIGN_ADDR_pages init_section_desc_def Let_def del: of_nat_Suc flip: of_nat_Suc_u32)
  also have "\<dots> = Ok (p + 12 + length (enc_subs (snd x)) + length (concat (map enc_reuse xs)),
      add_reuses (map reuse_section xs) (add_params (secs_params PARAM_MAP_LOAD_TYPE_REUSE (Suc i) xs)
        (add_tensors (\<lambda>ty. secs_tensors ty (Suc i) xs) ?info)))"
    by (rule Cons.IH [OF h(3)]) (use Cons.prems(2) in simp)
  finally show ?case by (simp add: secs_params_def secs_tensors_def enc_reuse_def [of x] add.assoc)
qed (simp add: secs_params_def secs_tensors_def)

text \<open>What the parser makes of an encoded section, before the tensors are sorted.\<close>

lemma parse_bss_encoded:
  assumes bin: "bin = pre @ enc_bss h sts rus @ post" "gi_bss_src info = length pre"
    and sz: "unat bss_size = length (enc_bss h sts rus)"
    and hdr: "unat (bh_static_section_desc_cnt h) = length sts" "unat (bh_reuse_section_desc_cnt h) = length rus"
      "bh_stack_size h \<noteq> 0" "bh_stack_align_bytes h \<noteq> 0" "rus \<noteq> []"
    and ok: "\<forall>x \<in> set sts. static_ok x" "\<forall>x \<in> set rus. reuse_ok x" "gi_linked_list_flag info = 0"
  shows "parse_bss_section bin bss_size info = Ok (sort_tensors
    (add_reuses (map reuse_section rus) (add_params (secs_params PARAM_MAP_LOAD_TYPE_REUSE 0 rus)
      (add_tensors (\<lambda>ty. secs_tensors ty 0 rus)
        (add_statics (map (static_section (data_src (gi_pbuf_templ info))) sts)
          (add_params (secs_params PARAM_MAP_LOAD_TYPE_STATIC 0 sts)
            (info\<lparr>gi_tbuf_templ := (gi_tbuf_templ info)\<lparr>tbuf_stack_size := bh_stack_size h,
               stack_align_in_page := pages_of (bh_stack_align_bytes h)\<rparr>\<rparr>)))))))"
proof -
  define r where "r = \<lparr>lr_bin = bin, load_lb = length pre, load_ub = length pre + 16 + unat bss_size\<rparr>"
  have "has_bytes r (length pre) (enc_bss h sts rus)" by (simp add: has_bytes_def r_def bin(1) sz)
  then have b: "has_bytes r (length pre) (enc_words (hdr_words h))"
    "has_bytes r (length pre + 16) (concat (map enc_static sts))"
    "has_bytes r (length pre + 16 + length (concat (map enc_static sts))) (concat (map enc_reuse rus))"
    by (simp_all add: enc_bss_def has_bytes_append hdr_words_def add.assoc)
  have l: "memcpy_words bin (length pre) 4 = Ok (hdr_words h)"
    using load_desc_enc [OF b(1), of 4] by (simp add: hdr_words_def load_desc_def r_def split: if_splits)
  have hw: "bss_hdr_of (hdr_words h) = h" by (simp add: bss_hdr_of_def hdr_words_def)
  have nz: "bh_reuse_section_desc_cnt h \<noteq> 0" using hdr(2,5) by auto
  note st = parse_static_sections_enc [OF b(2) ok(1), of 0, unfolded semiring_1_class.of_nat_0]
  note ru = parse_reuse_sections_enc [OF b(3) ok(2), of 0, unfolded semiring_1_class.of_nat_0]
  have ll: "parse_linked_list r q info' = Ok info'" if "gi_linked_list_flag info' = 0" for q info'
    using that by (simp add: parse_linked_list_def)
  show ?thesis
    unfolding parse_bss_section_def Let_def bin(2) l pbind.simps hw r_def [symmetric] hdr(1,2) st prod.case ru
    using hdr(3,4) nz by (simp add: ll ok(3) add_reuses_def add_params_def add_tensors_def add_statics_def ALIGN_ADDR_pages)
qed

lemma sort_io_tensor_key:
  assumes "distinct (map (unat \<circ> io_id) ts)" "\<forall>t \<in> set ts. unat (io_id t) < length ts"
  shows "sort_io_tensor ts = (AIPU_STATUS_SUCCESS, sort_key (unat \<circ> io_id) ts)"
proof -
  note s = sort_io_tensor_sorts [OF assms]
  have "sort_key (unat \<circ> io_id) ts = snd (sort_io_tensor ts)"
    by (rule sort_key_inj_key_eq) (use s assms(1) in \<open>auto simp: distinct_map\<close>)
  then show ?thesis using s by (metis prod.collapse)
qed

lemma add_fields [simp]:
  "gi_inputs (add_reuses a x) = gi_inputs x" "gi_outputs (add_reuses a x) = gi_outputs x"
  "gi_inputs (add_params b x) = gi_inputs x" "gi_outputs (add_params b x) = gi_outputs x"
  "gi_inputs (add_statics d x) = gi_inputs x" "gi_outputs (add_statics d x) = gi_outputs x"
  "gi_inputs (add_tensors f x) = gi_inputs x @ f SECTION_TYPE_INPUT"
  "gi_outputs (add_tensors f x) = gi_outputs x @ f SECTION_TYPE_OUTPUT"
  by (simp_all add: add_reuses_def add_params_def add_statics_def add_tensors_def)

text \<open>C7. The parser inverts the encoding. From the bytes of a well-formed bss section the parser recovers the
  stack, the sections with their sizes, alignments and subsections, one parameter per
  reference from the read-only data in order, and the tensors by kind, wherever in the
  binary the section starts. The identifiers of the inputs, and those of the outputs, are the
  numbers below how many there are, each once; the inputs and outputs come in their order.\<close>

theorem parse_encoded_bss:
  assumes bin: "bin = pre @ enc_bss h sts rus @ post" "gi_bss_src info = length pre"
    and sz: "unat bss_size = length (enc_bss h sts rus)"
    and hdr: "unat (bh_static_section_desc_cnt h) = length sts" "unat (bh_reuse_section_desc_cnt h) = length rus"
      "bh_stack_size h \<noteq> 0" "bh_stack_align_bytes h \<noteq> 0" "rus \<noteq> []"
    and ok: "\<forall>x \<in> set sts. static_ok x" "\<forall>x \<in> set rus. reuse_ok x" "gi_linked_list_flag info = 0"
    and fresh: "gi_inputs info = []" "gi_outputs info = []"
    and ids: "mset (map (unat \<circ> io_id) (secs_tensors SECTION_TYPE_INPUT 0 rus)) =
        mset [0..<length (secs_tensors SECTION_TYPE_INPUT 0 rus)]"
      "mset (map (unat \<circ> io_id) (secs_tensors SECTION_TYPE_OUTPUT 0 rus)) =
        mset [0..<length (secs_tensors SECTION_TYPE_OUTPUT 0 rus)]"
  shows "parse_bss_section bin bss_size info = Ok
    ((add_reuses (map reuse_section rus) (add_params (secs_params PARAM_MAP_LOAD_TYPE_REUSE 0 rus)
      (add_tensors (\<lambda>ty. secs_tensors ty 0 rus)
        (add_statics (map (static_section (data_src (gi_pbuf_templ info))) sts)
          (add_params (secs_params PARAM_MAP_LOAD_TYPE_STATIC 0 sts)
            (info\<lparr>gi_tbuf_templ := (gi_tbuf_templ info)\<lparr>tbuf_stack_size := bh_stack_size h,
               stack_align_in_page := pages_of (bh_stack_align_bytes h)\<rparr>\<rparr>))))))
     \<lparr>gi_inputs := sort_key (unat \<circ> io_id) (secs_tensors SECTION_TYPE_INPUT 0 rus),
      gi_outputs := sort_key (unat \<circ> io_id) (secs_tensors SECTION_TYPE_OUTPUT 0 rus)\<rparr>)"
proof -
  have perm: "distinct (map (unat \<circ> io_id) ts) \<and> (\<forall>t \<in> set ts. unat (io_id t) < length ts)"
    if "mset (map (unat \<circ> io_id) ts) = mset [0..<length ts]" for ts
  proof -
    have "distinct (map (unat \<circ> io_id) ts)" using mset_eq_imp_distinct_iff [OF that] by simp
    moreover have "set (map (unat \<circ> io_id) ts) = {0..<length ts}" using mset_eq_setD [OF that] by simp
    ultimately show ?thesis by auto
  qed
  note ti = perm [OF ids(1)] and to = perm [OF ids(2)]
  show ?thesis unfolding parse_bss_encoded [OF bin sz hdr ok] sort_tensors_def
    using ti to fresh by (simp add: sort_io_tensor_key)
qed

text \<open>A graph with one weight section and one section for its input and its output.\<close>

definition demo_sub :: "u32 \<Rightarrow> u32 \<Rightarrow> sub_section_desc_v3" where
  "demo_sub off ty = \<lparr>sub_offset_in_section_exec = off, sub_size = 0x100, sub_type = ty, sub_id = 0, sub_dtype = 2,
     sub_layout = 1, sub_shape = [1, 16, 16, 1], sub_addr_mask = 0xFFFFFFFF, sub_offset_in_ro_cnt = 1\<rparr>"

definition demo_statics :: "(static_section_desc_v3 \<times> gsub list) list" where
  "demo_statics = [(\<lparr>sta_offset_in_file = 0, sta_size = 0x1000, sta_align_bytes = 32, sta_sub_section_cnt = 1\<rparr>,
     [(demo_sub 0 3, [8])])]"

definition demo_reuses :: "(reuse_section_desc_v3 \<times> gsub list) list" where
  "demo_reuses = [(\<lparr>reu_size = 0x200, reu_align_bytes = 4096, reu_sub_section_cnt = 2\<rparr>,
     [(demo_sub 0 SECTION_TYPE_INPUT, [12]), (demo_sub 0x100 SECTION_TYPE_OUTPUT, [16])])]"

definition demo_bss_hdr :: bss_hdr_v3 where
  "demo_bss_hdr = \<lparr>bh_stack_size = 0x4000, bh_stack_align_bytes = 4096, bh_static_section_desc_cnt = 1,
     bh_reuse_section_desc_cnt = 1\<rparr>"

lemma parse_encoded_bss_witness:
  "\<exists>info. parse_bss_section (enc_bss demo_bss_hdr demo_statics demo_reuses) 200 empty_info = Ok info \<and>
     map pm_offset_in_map (gi_param_map info) = [8, 12, 16] \<and> map sec_size (static_sections (gi_pbuf_templ info)) = [0x1000] \<and>
     map io_offset_in_section (gi_inputs info) = [0] \<and> map io_offset_in_section (gi_outputs info) = [0x100]"
proof -
  note demo = demo_bss_hdr_def demo_statics_def demo_reuses_def demo_sub_def empty_info_def
  note secs = secs_params_def subs_params_def ro_params_def secs_tensors_def subs_tensors_def tensor_of_def static_section_def
    init_param_def section_type_defs
  have ok: "\<forall>x \<in> set demo_statics. static_ok x" "\<forall>x \<in> set demo_reuses. reuse_ok x"
    by (simp_all add: demo static_ok_def reuse_ok_def sub_ok_def)
  have sz: "unat (200 :: u32) = length (enc_bss demo_bss_hdr demo_statics demo_reuses)"
    by (simp add: enc_bss_def demo enc_static_def enc_reuse_def enc_subs_def enc_sub_def hdr_words_def sub_words_def)
  show ?thesis
    by (subst parse_encoded_bss [of _ "[]" demo_bss_hdr demo_statics demo_reuses "[]", OF _ _ sz _ _ _ _ _ ok])
       (simp_all add: demo add_reuses_def add_params_def add_tensors_def add_statics_def secs)
qed

subsection \<open>Reads that stay inside\<close>

text \<open>A result that reads nothing outside, and holds of what it returns.\<close>

definition safe :: "('a \<Rightarrow> bool) \<Rightarrow> 'a parsed \<Rightarrow> bool" where
  "safe P m \<longleftrightarrow> (case m of Overrun \<Rightarrow> False | Fail st \<Rightarrow> True | Ok x \<Rightarrow> P x)"

lemma safe_simps [simp]: "safe P (Ok x) = P x" "safe P (Fail st)" "\<not> safe P Overrun"
  by (simp_all add: safe_def)

lemma safe_bind: "safe P m \<Longrightarrow> (\<And>x. P x \<Longrightarrow> safe Q (f x)) \<Longrightarrow> safe Q (pbind m f)"
  by (cases m) simp_all

abbreviation unlinked :: "'a \<times> graph_info \<Rightarrow> bool" where
  "unlinked x \<equiv> gi_linked_list_flag (snd x) = 0"

lemma load_desc_safe: "load_ub r \<le> length (lr_bin r) + 1 \<Longrightarrow> safe (\<lambda>_. True) (load_desc r p n)"
  by (simp add: load_desc_def umd_is_valid_ptr_def memcpy_words_def)

lemma parse_ro_safe:
  "load_ub r \<le> length (lr_bin r) + 1 \<Longrightarrow> gi_linked_list_flag info = 0 \<Longrightarrow> safe unlinked (parse_ro_entries r f n p info)"
  by (induction n arbitrary: p info) (simp_all add: safe_bind [OF load_desc_safe])

lemma fill_io_flag: "gi_linked_list_flag (fill_io_tensor_desc_inner k s info) = gi_linked_list_flag info"
  by (simp add: fill_io_tensor_desc_inner_def Let_def)

lemma parse_static_subs_safe:
  "load_ub r \<le> length (lr_bin r) + 1 \<Longrightarrow> gi_linked_list_flag info = 0 \<Longrightarrow>
   safe (\<lambda>x. unlinked (snd x)) (parse_static_subs r k n i p sec info)"
  by (induction n arbitrary: i p sec info)
     (simp_all add: Let_def safe_bind [OF load_desc_safe] safe_bind [OF parse_ro_safe] case_prod_beta)

lemma parse_static_sections_safe:
  "load_ub r \<le> length (lr_bin r) + 1 \<Longrightarrow> gi_linked_list_flag info = 0 \<Longrightarrow> safe unlinked (parse_static_sections r n i p info)"
  by (induction n arbitrary: i p info)
     (simp_all add: Let_def safe_bind [OF load_desc_safe] safe_bind [OF parse_static_subs_safe] case_prod_beta)

lemma parse_reuse_subs_safe:
  "load_ub r \<le> length (lr_bin r) + 1 \<Longrightarrow> gi_linked_list_flag info = 0 \<Longrightarrow>
   safe (\<lambda>x. unlinked (snd x)) (parse_reuse_subs r k n i p sec info)"
  by (induction n arbitrary: i p sec info)
     (simp_all add: Let_def safe_bind [OF load_desc_safe] safe_bind [OF parse_ro_safe] case_prod_beta fill_io_flag)

lemma parse_reuse_sections_safe:
  "load_ub r \<le> length (lr_bin r) + 1 \<Longrightarrow> gi_linked_list_flag info = 0 \<Longrightarrow> safe unlinked (parse_reuse_sections r n i p info)"
  by (induction n arbitrary: i p info)
     (simp_all add: Let_def safe_bind [OF load_desc_safe] safe_bind [OF parse_reuse_subs_safe] case_prod_beta)

text \<open>C39. The parser of the bss section stays inside the binary when it has no linked list and ends at least 15
  bytes before the end of the binary.\<close>

theorem parse_bss_inside:
  assumes "gi_bss_src info + unat bss_size + 15 \<le> length bin" "bss_size \<noteq> 0" "gi_linked_list_flag info = 0"
  shows "parse_bss_section bin bss_size info \<noteq> Overrun"
proof -
  define r where "r = \<lparr>lr_bin = bin, load_lb = gi_bss_src info, load_ub = gi_bss_src info + 16 + unat bss_size\<rparr>"
  have ub: "load_ub r \<le> length (lr_bin r) + 1" using assms(1) by (simp add: r_def)
  have "0 < unat bss_size" using assms(2) by (simp add: unat_gt_0)
  then have m: "safe (\<lambda>_. True) (memcpy_words bin (gi_bss_src info) 4)" using assms(1) by (simp add: memcpy_words_def)
  have ll: "parse_linked_list r q info' = Ok info'" if "gi_linked_list_flag info' = 0" for q info'
    using that by (simp add: parse_linked_list_def)
  have "safe (\<lambda>_. True) (parse_bss_section bin bss_size info)"
    unfolding parse_bss_section_def Let_def r_def [symmetric]
    by (rule safe_bind [OF m])
       (simp add: safe_bind [OF parse_static_sections_safe [OF ub]] safe_bind [OF parse_reuse_sections_safe [OF ub]]
         assms(3) ll case_prod_beta)
  then show ?thesis by auto
qed

lemma parse_bss_inside_witness:
  "parse_bss_section (enc_bss demo_bss_hdr demo_statics demo_reuses @ replicate 15 0) 200 empty_info \<noteq> Overrun"
  by (rule parse_bss_inside)
     (simp_all add: enc_bss_def demo_bss_hdr_def demo_statics_def demo_reuses_def demo_sub_def enc_static_def enc_reuse_def
       enc_subs_def enc_sub_def hdr_words_def sub_words_def empty_info_def)

text \<open>The checked bounds are wider than the section. Behind a section at the very end of the binary the
  parser reads up to 15 bytes that the application does not own: here a descriptor of
  three words directly behind the end.\<close>

theorem parse_bss_overruns:
  "parse_bss_section (enc_words [0x4000, 4096, 0, 1]) 16 empty_info = Overrun"
proof -
  have l: "memcpy_words (enc_words [0x4000, 4096, 0, 1]) 0 4 = Ok [0x4000, 4096, 0, 1]"
    using words_at_enc [of "[0x4000, 4096, 0, 1]" 0 "enc_words [0x4000, 4096, 0, 1]"] by (simp add: memcpy_words_def numeral_eq_Suc)
  show ?thesis
    by (simp add: parse_bss_section_def empty_info_def l bss_hdr_of_def Let_def load_desc_def umd_is_valid_ptr_def)
       (simp add: memcpy_words_def)
qed

text \<open>The nodes of a linked list are not checked. A section that announces more nodes than the binary
  has room for is read to the end of the binary and beyond.\<close>

theorem list_nodes_overrun:
  assumes "p \<le> length bin" "length bin < p + 16 * n"
  shows "parse_list_nodes bin n p info = Overrun"
  using assms
proof (induction n arbitrary: p info)
  case (Suc n)
  then show ?case by (cases "p + 16 \<le> length bin") (simp_all add: memcpy_words_def)
qed simp

lemma list_nodes_overrun_witness:
  "parse_list_nodes (replicate 16 0) 0xFFFFFFFF 0 empty_info = Overrun"
  by (rule list_nodes_overrun) simp_all

subsection \<open>What an accepted header guarantees\<close>

lemma unat_add_u32:
  fixes x y :: u32
  shows "unat x + unat y < 4294967296 \<Longrightarrow> unat (x + y) = unat x + unat y"
  by (simp add: unat_word_ariths)

text \<open>C31. An accepted header places the text, the read-only data, the data and the bss section inside the
  binary, in this order and apart, with the entry point in the text, as long as no end of
  these sections wraps around in 32 bits. The offset and size of the fifth section, the
  register descriptors, are not checked by the code and not part of this.\<close>

theorem parse_header_bounds:
  assumes "parse_graph_header bin gsize info = Ok (info', bss_size)"
    and "text_src (gi_pbuf_templ info') + unat (text_size (gi_pbuf_templ info')) < 2 ^ 32"
    and "rodata_src (gi_tbuf_templ info') + unat (tbuf_rodata_size (gi_tbuf_templ info')) < 2 ^ 32"
    and "data_src (gi_pbuf_templ info') + unat (data_size (gi_pbuf_templ info')) < 2 ^ 32"
    and "gi_bss_src info' + unat bss_size < 2 ^ 32"
  shows "BIN_HDR_SIZE \<le> text_src (gi_pbuf_templ info') \<and> gi_entry info' < text_size (gi_pbuf_templ info') \<and>
    text_src (gi_pbuf_templ info') + unat (text_size (gi_pbuf_templ info')) \<le> rodata_src (gi_tbuf_templ info') \<and>
    rodata_src (gi_tbuf_templ info') + unat (tbuf_rodata_size (gi_tbuf_templ info')) \<le> data_src (gi_pbuf_templ info') \<and>
    data_src (gi_pbuf_templ info') + unat (data_size (gi_pbuf_templ info')) \<le> gi_bss_src info' \<and>
    gi_bss_src info' + unat bss_size \<le> unat gsize \<and> bss_size \<noteq> 0"
proof -
  let ?h = "bin_hdr_of bin"
  note p = assms(1) [unfolded parse_graph_header_def Let_def]
  have c: "\<not> gsize < hdr_filesize ?h" "hdr_entry ?h < hdr_text_size ?h" "\<not> hdr_text_offset ?h < of_nat BIN_HDR_SIZE"
    "\<not> hdr_rodata_offset ?h < hdr_text_offset ?h + hdr_text_size ?h"
    "\<not> hdr_data_offset ?h < hdr_rodata_offset ?h + hdr_rodata_size ?h"
    "\<not> hdr_bss_offset ?h < hdr_data_offset ?h + hdr_data_size ?h"
    "\<not> hdr_filesize ?h < hdr_bss_offset ?h + hdr_bss_size ?h" "hdr_bss_size ?h \<noteq> 0"
    using p by (simp_all split: if_splits)
  have i: "text_src (gi_pbuf_templ info') = unat (hdr_text_offset ?h)" "text_size (gi_pbuf_templ info') = hdr_text_size ?h"
    "rodata_src (gi_tbuf_templ info') = unat (hdr_rodata_offset ?h)" "tbuf_rodata_size (gi_tbuf_templ info') = hdr_rodata_size ?h"
    "data_src (gi_pbuf_templ info') = unat (hdr_data_offset ?h)" "data_size (gi_pbuf_templ info') = hdr_data_size ?h"
    "gi_bss_src info' = unat (hdr_bss_offset ?h)" "bss_size = hdr_bss_size ?h" "gi_entry info' = hdr_entry ?h"
    using p by (auto split: if_splits)
  have ends: "unat (hdr_text_offset ?h + hdr_text_size ?h) = unat (hdr_text_offset ?h) + unat (hdr_text_size ?h)"
    "unat (hdr_rodata_offset ?h + hdr_rodata_size ?h) = unat (hdr_rodata_offset ?h) + unat (hdr_rodata_size ?h)"
    "unat (hdr_data_offset ?h + hdr_data_size ?h) = unat (hdr_data_offset ?h) + unat (hdr_data_size ?h)"
    "unat (hdr_bss_offset ?h + hdr_bss_size ?h) = unat (hdr_bss_offset ?h) + unat (hdr_bss_size ?h)"
    using assms(2-5) by (simp_all add: i unat_add_u32)
  have b: "unat (of_nat BIN_HDR_SIZE :: u32) = BIN_HDR_SIZE" by (simp add: BIN_HDR_SIZE_def)
  show ?thesis
    using c unfolding i not_less word_le_nat_alt ends b by simp
qed

text \<open>A header with given words.\<close>

definition enc_header :: "u32 list \<Rightarrow> u8 list" where
  "enc_header ws = MAGIC @ replicate 7 0 @ enc_words ws @ replicate 8 0"

lemma words_of_enc_header:
  assumes "length ws = 20"
  shows "words_at (enc_header ws @ post) 16 20 = ws" "take 9 (enc_header ws @ post) = MAGIC" "length (enc_header ws) = 104"
proof -
  have "take (4 * length ws) (drop 16 (enc_header ws @ post)) = enc_words ws"
    by (simp add: enc_header_def MAGIC_def)
  from words_at_enc [OF this] show "words_at (enc_header ws @ post) 16 20 = ws" by (simp add: assms)
qed (simp_all add: enc_header_def MAGIC_def assms)

text \<open>
  Device Z1 0904, version 3; text of 4 bytes at 104, read-only data of 4 bytes at 108,
  data and bss as given, 16 bytes of bss at the end of a binary of 128 bytes.
\<close>

definition demo_header_dcr :: "u32 \<Rightarrow> u32 \<Rightarrow> u32 \<Rightarrow> u8 list" where
  "demo_header_dcr rosize doff dsize =
     enc_header [0x10388, 0x03000000, 0, 104, 128, 0, 0, 0, 104, 4, 108, rosize, doff, dsize, 112, 0, 112, 16, 0, 0] @ replicate 24 0"

abbreviation demo_header :: "u32 \<Rightarrow> u8 list" where
  "demo_header rosize \<equiv> demo_header_dcr rosize 0 0"

lemma demo_header_parsed:
  assumes "108 + rosize \<le> 112" "rosize \<noteq> 0"
  shows "\<exists>info. parse_graph_header (demo_header_dcr rosize doff dsize) 128 empty_info = Ok (info, 16) \<and>
    text_src (gi_pbuf_templ info) = 104 \<and> text_size (gi_pbuf_templ info) = 4 \<and> rodata_src (gi_tbuf_templ info) = 108 \<and>
    tbuf_rodata_size (gi_tbuf_templ info) = rosize \<and> data_src (gi_pbuf_templ info) = 112 \<and>
    data_size (gi_pbuf_templ info) = 0 \<and> gi_bss_src info = 112 \<and>
    dcr_src (gi_tbuf_templ info) = (if dsize \<noteq> 0 then Some (unat doff) else None) \<and> dcr_size (gi_tbuf_templ info) = dsize"
proof -
  let ?ws = "[0x10388, 0x03000000, 0, 104, 128, 0, 0, 0, 104, 4, 108, rosize, doff, dsize, 112, 0, 112, 16, 0, 0] :: u32 list"
  have l: "length ?ws = 20" by simp
  note w = words_of_enc_header(1,2) [OF l, of "replicate 24 0"] words_of_enc_header(3) [OF l]
  have w1: "words_at (demo_header_dcr rosize doff dsize) 16 20 = ?ws" by (simp only: demo_header_dcr_def w(1))
  have h: "bin_hdr_of (demo_header_dcr rosize doff dsize) = \<lparr>ident = take 16 (demo_header_dcr rosize doff dsize), hdr_device = 0x10388,
      hdr_version = 0x03000000, hdr_build_version = 0, hdr_hdrsize = 104, hdr_filesize = 128, hdr_flag = 0, hdr_entry = 0,
      hdr_text_offset = 104, hdr_text_size = 4, hdr_rodata_offset = 108, hdr_rodata_size = rosize,
      hdr_dcr_offset = doff, hdr_dcr_size = dsize, hdr_data_offset = 112, hdr_data_size = 0, hdr_bss_offset = 112, hdr_bss_size = 16\<rparr>"
    by (simp add: bin_hdr_of_def w1 Let_def)
  have "\<not> 112 < 108 + rosize" using assms(1) by simp
  moreover have "take 9 (demo_header_dcr rosize doff dsize) = MAGIC" "\<not> length (demo_header_dcr rosize doff dsize) < BIN_HDR_SIZE"
    using w(2,3) by (simp_all add: demo_header_dcr_def BIN_HDR_SIZE_def)
  moreover have "GVERSION_MINOR 0x03000000 = AIPU_LOADABLE_GRAPH_V0003"
    by (simp add: GVERSION_MINOR_def AIPU_LOADABLE_GRAPH_V0003_def drop_bit_eq_div)
  ultimately show ?thesis using assms(2)
    by (simp add: parse_graph_header_def h Let_def BIN_HDR_SIZE_def min_def)
qed

lemma parse_header_bounds_witness:
  "\<exists>info. parse_graph_header (demo_header 4) 128 empty_info = Ok (info, 16) \<and>
     rodata_src (gi_tbuf_templ info) + 4 \<le> data_src (gi_pbuf_templ info)"
proof -
  obtain info where p: "parse_graph_header (demo_header 4) 128 empty_info = Ok (info, 16)"
    "text_src (gi_pbuf_templ info) = 104" "text_size (gi_pbuf_templ info) = 4" "rodata_src (gi_tbuf_templ info) = 108"
    "tbuf_rodata_size (gi_tbuf_templ info) = 4" "data_src (gi_pbuf_templ info) = 112"
    "data_size (gi_pbuf_templ info) = 0" "gi_bss_src info = 112"
    using demo_header_parsed [of 4 0 0] by auto
  show ?thesis using parse_header_bounds [OF p(1)] p by simp
qed

text \<open>A section of nearly 4 GB is accepted. The ends of the sections are computed in 32 bits: a binary of
  128 bytes that claims read-only data of 0xFFFFFFFF bytes passes every check, and building
  a job copies that many bytes.\<close>

theorem header_size_wraps:
  "\<exists>info. parse_graph_header (demo_header 0xFFFFFFFF) 128 empty_info = Ok (info, 16) \<and> length (demo_header 0xFFFFFFFF) = 128 \<and>
     tbuf_rodata_size (gi_tbuf_templ info) = 0xFFFFFFFF"
proof -
  have "length (demo_header 0xFFFFFFFF) = 128" by (simp add: demo_header_dcr_def enc_header_def MAGIC_def)
  then show ?thesis using demo_header_parsed [of "0xFFFFFFFF" 0 0] by auto
qed

text \<open>The section of the register descriptors is not checked. Its offset and size are taken from the header
  as they are: a binary of 128 bytes that claims a section 2 GB behind its start is accepted.\<close>

theorem dcr_section_unchecked:
  "\<exists>info. parse_graph_header (demo_header_dcr 4 0x80000000 0x1000) 128 empty_info = Ok (info, 16) \<and>
     length (demo_header_dcr 4 0x80000000 0x1000) = 128 \<and>
     dcr_src (gi_tbuf_templ info) = Some 0x80000000 \<and> dcr_size (gi_tbuf_templ info) = 0x1000"
proof -
  have "length (demo_header_dcr 4 0x80000000 0x1000) = 128" by (simp add: demo_header_dcr_def enc_header_def MAGIC_def)
  then show ?thesis using demo_header_parsed [of 4 "0x80000000" "0x1000"] by auto
qed

end
