(* ===== verification/UmdDev.thy ===== *)
theory UmdDev
  imports GraphBin Fops
begin

text \<open>
  The device layer of the user-mode driver: \<open>device/arm-linux/dev_op_wrapper.cpp\<close> and the
  \<open>ARM_LINUX\<close> build of \<open>context/device_ctrl.cpp\<close>, over the model of the kernel-mode driver.

  A process has open files, each with the session behind it, and maps of physical memory
  into its address space. A load or store through an address that is not mapped faults, and
  the function returns \<open>None\<close>; so does a call that never returns. What the system answers to
  its \<open>n\<close>-th call, and what a variable holds that was never written, is the environment of
  that call.
\<close>

subsection \<open>State\<close>

text \<open>\<open>buffer_desc_t\<close>; address 0 is the null pointer.\<close>

record buffer_desc =
  bu_va :: addr
  bu_pa :: u64
  bu_size :: u64
  bu_real_size :: u64
  bu_region_id :: u32

definition buffer_desc_init :: buffer_desc where
  "buffer_desc_init = \<lparr>bu_va = 0, bu_pa = 0, bu_size = 0, bu_real_size = 0, bu_region_id = 0\<rparr>"

record aipu_open_info =
  oi_fd :: int
  oi_shm_offset :: u64
  oi_cap :: aipu_cap

text \<open>
  \<open>ue_fd\<close>: the descriptor \<open>open\<close> chooses, negative when it fails before it reaches the driver;
  \<open>ue_map\<close>: the address \<open>mmap\<close> chooses; \<open>ue_while\<close>: what else happens to the driver while a
  poll sleeps, between one check and the next, until the time is over.
\<close>

record uenv =
  ue_kernel :: kenv
  ue_fd :: int
  ue_map :: "addr option"
  ue_while :: "(sys \<Rightarrow> sys option) list"
  ue_poll_fails :: bool
  ue_access :: int
  ue_uninit_buf :: buffer_desc
  ue_uninit_desc :: buf_desc
  ue_uninit_info :: aipu_open_info
  ue_uninit_status :: job_status_desc

record proc =
  px_sys :: sys
  px_files :: "int \<Rightarrow> ptr option"
  px_map :: "addr \<Rightarrow> nat option"
  px_phys :: "nat \<Rightarrow> u8"
  px_env :: "nat \<Rightarrow> uenv"
  px_calls :: nat

definition env_now :: "proc \<Rightarrow> uenv" where
  "env_now p = px_env p (px_calls p)"

definition next_call :: "proc \<Rightarrow> proc" where
  "next_call p = p\<lparr>px_calls := Suc (px_calls p)\<rparr>"

definition ux_load :: "proc \<Rightarrow> addr \<Rightarrow> u8 option" where
  "ux_load p a = map_option (px_phys p) (px_map p a)"

definition ux_store :: "addr \<Rightarrow> u8 \<Rightarrow> proc \<Rightarrow> proc option" where
  "ux_store a b p = map_option (\<lambda>pa. p\<lparr>px_phys := (px_phys p)(pa := b)\<rparr>) (px_map p a)"

subsection \<open>System calls\<close>

text \<open>A negative result of the driver becomes \<open>-1\<close> and an \<open>errno\<close>.\<close>

definition user_ret :: "int \<Rightarrow> int" where
  "user_ret r = (if r < 0 then -1 else r)"

definition sys_open :: "proc \<Rightarrow> (int \<times> proc) option" where
  "sys_open p =
     (let e = env_now p; p1 = next_call p
      in if ue_fd e < 0 then Some (-1, p1)
         else do {
           (ret, s, sp) \<leftarrow> aipu_open (ue_kernel e) (px_sys p);
           if ret \<noteq> 0 then Some (-1, p1\<lparr>px_sys := s\<rparr>)
           else Some (ue_fd e, p1\<lparr>px_sys := s, px_files := (px_files p)(ue_fd e \<mapsto> sp)\<rparr>)
         })"

definition sys_close :: "int \<Rightarrow> proc \<Rightarrow> (int \<times> proc) option" where
  "sys_close fd p =
     (let e = env_now p; p1 = next_call p
      in case px_files p fd of
           None \<Rightarrow> Some (-1, p1)
         | Some sp \<Rightarrow> do {
             (ret, s) \<leftarrow> aipu_release (ue_kernel e) (px_sys p) sp;
             Some (0, p1\<lparr>px_sys := s, px_files := (px_files p)(fd := None)\<rparr>)
           })"

definition sys_ioctl :: "int \<Rightarrow> ioctl_arg \<Rightarrow> proc \<Rightarrow> (int \<times> ioctl_arg \<times> proc) option" where
  "sys_ioctl fd arg p =
     (let e = env_now p; p1 = next_call p
      in case px_files p fd of
           None \<Rightarrow> Some (-1, arg, p1)
         | Some sp \<Rightarrow> do {
             (ret, s, arg') \<leftarrow> aipu_ioctl (ue_kernel e) (px_sys p) sp arg;
             Some (user_ret ret, arg', p1\<lparr>px_sys := s\<rparr>)
           })"

text \<open>
  \<open>mmap\<close> of \<open>len\<close> bytes at the file offset \<open>off\<close>, in whole pages; the result is the address or
  \<open>MAP_FAILED\<close>.
\<close>

definition map_range :: "addr \<Rightarrow> nat \<Rightarrow> nat \<Rightarrow> (addr \<Rightarrow> nat option) \<Rightarrow> addr \<Rightarrow> nat option" where
  "map_range a n pa m = (\<lambda>x. if a \<le> x \<and> x < a + n then Some (pa + (x - a)) else m x)"

definition unmap_range :: "addr \<Rightarrow> nat \<Rightarrow> (addr \<Rightarrow> nat option) \<Rightarrow> addr \<Rightarrow> nat option" where
  "unmap_range a n m = (\<lambda>x. if a \<le> x \<and> x < a + n then None else m x)"

definition page_up :: "u64 \<Rightarrow> u64" where
  "page_up n = (n + 4095) AND NOT 4095"

definition sys_mmap :: "int \<Rightarrow> u64 \<Rightarrow> u64 \<Rightarrow> proc \<Rightarrow> (addr option \<times> proc) option" where
  "sys_mmap fd len off p =
     (let e = env_now p; p1 = next_call p
      in case (px_files p fd, ue_map e) of
           (Some sp, Some a) \<Rightarrow>
             if len = 0 \<or> off AND 4095 \<noteq> 0 then Some (None, p1)
             else do {
               (ret, s, mapped) \<leftarrow> aipu_mmap (ue_kernel e) (px_sys p) sp
                  \<lparr>vm_start = of_nat a, vm_end = of_nat a + page_up len, vm_pgoff = off div PAGE_SIZE\<rparr>;
               if ret \<noteq> 0 then Some (None, p1\<lparr>px_sys := s\<rparr>)
               else Some (Some a, p1\<lparr>px_sys := s, px_map :=
                      (case mapped of None \<Rightarrow> px_map p
                       | Some (pa, n) \<Rightarrow> map_range a (unat n) (unat pa) (px_map p))\<rparr>)
             }
         | _ \<Rightarrow> Some (None, p1))"

definition sys_munmap :: "addr \<Rightarrow> u64 \<Rightarrow> proc \<Rightarrow> proc" where
  "sys_munmap a len p = next_call (p\<lparr>px_map := unmap_range a (unat (page_up len)) (px_map p)\<rparr>)"

text \<open>
  \<open>poll\<close> of one file for input: the driver is asked before every sleep and after the last.
  Without a timeout, a poll that is never answered does not return.
\<close>

fun poll_loop :: "kenv \<Rightarrow> ptr \<Rightarrow> bool \<Rightarrow> (sys \<Rightarrow> sys option) list \<Rightarrow> sys \<Rightarrow> (u32 \<times> sys) option" where
  "poll_loop e sp forever [] s = do {
     (m, s1) \<leftarrow> aipu_poll e s sp;
     if m = 0 \<and> forever then None else Some (m, s1)
   }"
| "poll_loop e sp forever (w # ws) s = do {
     (m, s1) \<leftarrow> aipu_poll e s sp;
     if m \<noteq> 0 then Some (m, s1) else do { s2 \<leftarrow> w s1; poll_loop e sp forever ws s2 }
   }"

definition POLLIN :: u32 where "POLLIN = 1"

definition sys_poll :: "int \<Rightarrow> int \<Rightarrow> proc \<Rightarrow> (int \<times> u32 \<times> proc) option" where
  "sys_poll fd time_out p =
     (let e = env_now p; p1 = next_call p
      in if ue_poll_fails e then Some (-1, 0, p1)
         else (case px_files p fd of
                 None \<Rightarrow> Some (1, 0x20, p1)
               | Some sp \<Rightarrow> do {
                   (m, s) \<leftarrow> poll_loop (ue_kernel e) sp (time_out < 0) (if time_out = 0 then [] else ue_while e) (px_sys p);
                   Some (if m = 0 then 0 else 1, m, p1\<lparr>px_sys := s\<rparr>)
                 }))"

subsection \<open>The wrappers (\<open>dev_op_wrapper.cpp\<close>)\<close>

text \<open>
  The parameters that are addresses of variables are never null, and the checks for it are
  dropped. A result that the function may leave unwritten is an option.
\<close>

definition dev_op_wrapper_open :: "proc \<Rightarrow> (int \<times> aipu_open_info option \<times> proc) option" where
  "dev_op_wrapper_open p = do {
     let cap0 = oi_cap (ue_uninit_info (env_now p));
     (fd, p1) \<leftarrow> sys_open p;
     if fd \<le> 0 then Some (0, None, p1)
     else do {
       (ret, a1, p2) \<leftarrow> sys_ioctl fd (IPUIOC_REQSHMMAP 0) p1;
       if ret \<noteq> 0 then do { (_, p3) \<leftarrow> sys_close fd p2; Some (ret, None, p3) }
       else do {
         (ret, a2, p3) \<leftarrow> sys_ioctl fd (IPUIOC_QUERYCAP cap0) p2;
         if ret \<noteq> 0 then do { (_, p4) \<leftarrow> sys_close fd p3; Some (ret, None, p4) }
         else Some (ret, Some \<lparr>oi_fd = fd,
                oi_shm_offset = (case a1 of IPUIOC_REQSHMMAP off \<Rightarrow> off | _ \<Rightarrow> 0),
                oi_cap = (case a2 of IPUIOC_QUERYCAP cap \<Rightarrow> cap | _ \<Rightarrow> cap0)\<rparr>, p3)
       }
     }
   }"

definition dev_op_wrapper_close :: "int \<Rightarrow> proc \<Rightarrow> (int \<times> proc) option" where
  "dev_op_wrapper_close handle p = sys_close handle p"

definition dev_op_wrapper_read32 :: "int \<Rightarrow> u32 \<Rightarrow> u32 \<Rightarrow> proc \<Rightarrow> (int \<times> u32 \<times> proc) option" where
  "dev_op_wrapper_read32 handle offset value p = do {
     let ioreq = \<lparr>io_offset = offset, io_rw = AIPU_IO_READ, io_value = ucast (bu_pa (ue_uninit_buf (env_now p))),
           io_errcode = uint (bu_size (ue_uninit_buf (env_now p)))\<rparr>;
     (ret, a, p1) \<leftarrow> sys_ioctl handle (IPUIOC_REQIO ioreq) p;
     let ioreq' = (case a of IPUIOC_REQIO q \<Rightarrow> q | _ \<Rightarrow> ioreq);
     if ret \<noteq> AIPU_ERRCODE_NO_ERROR \<or> io_errcode ioreq' \<noteq> AIPU_ERRCODE_NO_ERROR then Some (ret, value, p1)
     else Some (ret, io_value ioreq', p1)
   }"

definition dev_op_wrapper_write32 :: "int \<Rightarrow> u32 \<Rightarrow> u32 \<Rightarrow> proc \<Rightarrow> (int \<times> proc) option" where
  "dev_op_wrapper_write32 handle offset value p = do {
     (ret, a, p1) \<leftarrow> sys_ioctl handle (IPUIOC_REQIO \<lparr>io_offset = offset, io_rw = AIPU_IO_WRITE, io_value = value,
        io_errcode = uint (bu_size (ue_uninit_buf (env_now p)))\<rparr>) p;
     Some (ret, p1)
   }"

definition malloc_req :: "proc \<Rightarrow> u32 \<Rightarrow> u32 \<Rightarrow> u32 \<Rightarrow> u32 \<Rightarrow> buf_request" where
  "malloc_req p dtype sz align_in_page region_id =
     \<lparr>br_bytes = ucast sz, br_align_in_page = align_in_page, br_data_type = dtype, br_region_id = region_id,
      br_alloc_flag = 0, br_desc = ue_uninit_desc (env_now p), br_errcode = AIPU_ERRCODE_NO_ERROR\<rparr>"

definition dev_op_wrapper_malloc ::
  "int \<Rightarrow> u32 \<Rightarrow> u32 \<Rightarrow> u32 \<Rightarrow> buffer_desc \<Rightarrow> u32 \<Rightarrow> proc \<Rightarrow> (int \<times> buffer_desc \<times> proc) option" where
  "dev_op_wrapper_malloc handle dtype sz align_in_page buf region_id p =
     (if sz = 0 then Some (AIPU_ERRCODE_NO_MEMORY, buf, p)
      else do {
        let req = malloc_req p dtype sz align_in_page region_id;
        (ret, a, p1) \<leftarrow> sys_ioctl handle (IPUIOC_REQBUF req) p;
        let buf_req = (case a of IPUIOC_REQBUF q \<Rightarrow> q | _ \<Rightarrow> req);
        if ret \<noteq> 0 \<or> br_errcode buf_req \<noteq> AIPU_ERRCODE_NO_ERROR then Some (br_errcode buf_req, buf, p1)
        else do {
          (va, p2) \<leftarrow> sys_mmap handle (bd_bytes (br_desc buf_req)) (bd_dev_offset (br_desc buf_req)) p1;
          case va of
            None \<Rightarrow> Some (-1, buf, p2)
          | Some a \<Rightarrow> Some (ret, \<lparr>bu_va = a, bu_pa = bd_pa (br_desc buf_req), bu_size = bd_bytes (br_desc buf_req),
              bu_real_size = br_bytes buf_req, bu_region_id = bd_region_id (br_desc buf_req)\<rparr>, p2)
        }
      })"

definition dev_op_wrapper_free :: "int \<Rightarrow> buffer_desc \<Rightarrow> proc \<Rightarrow> (int \<times> proc) option" where
  "dev_op_wrapper_free handle buf p = do {
     let desc = (ue_uninit_desc (env_now p))\<lparr>bd_pa := bu_pa buf, bd_bytes := bu_size buf\<rparr>;
     let p1 = sys_munmap (bu_va buf) (bu_size buf) p;
     (ret, _, p2) \<leftarrow> sys_ioctl handle (IPUIOC_FREEBUF desc) p1;
     Some (ret, p2)
   }"

definition dev_op_wrapper_poll ::
  "int \<Rightarrow> u32 \<Rightarrow> int \<Rightarrow> bool \<Rightarrow> u32 \<Rightarrow> proc \<Rightarrow> (int \<times> job_status_desc list \<times> proc) option" where
  "dev_op_wrapper_poll handle max_cnt time_out poll_single_job jid p =
     (if max_cnt = 0 then Some (-2, [], p)
      else do {
        (ret, revents, p1) \<leftarrow> sys_poll handle time_out p;
        if ret < 0 then Some (ret, [], p1)
        else if revents AND POLLIN \<noteq> POLLIN then Some (ret, [], p1)
        else do {
          let q = \<lparr>jq_max_cnt = max_cnt, jq_get_single_job = (if poll_single_job then 1 else 0), jq_job_id = jid,
                jq_status = replicate (unat max_cnt) (ue_uninit_status (env_now p1)), jq_poll_cnt = 0,
                jq_errcode = AIPU_ERRCODE_NO_ERROR\<rparr>;
          (ret, a, p2) \<leftarrow> sys_ioctl handle (IPUIOC_QUERYSTATUS q) p1;
          let status_query = (case a of IPUIOC_QUERYSTATUS r \<Rightarrow> r | _ \<Rightarrow> q);
          if ret \<noteq> 0 \<or> jq_errcode status_query \<noteq> AIPU_ERRCODE_NO_ERROR then Some (ret, [], p2)
          else Some (ret, take (unat (jq_poll_cnt status_query)) (jq_status status_query), p2)
        }
      })"

subsection \<open>The device controller (\<open>device_ctrl.cpp\<close>)\<close>

record device_ctrl =
  dc_fd :: int
  host_aipu_shm_offset :: u64
  dc_target :: target_dev

definition new_device_ctrl :: device_ctrl where
  "new_device_ctrl = \<lparr>dc_fd = 0, host_aipu_shm_offset = 0,
     dc_target = \<lparr>aipu_arch = 0, aipu_version = 0, aipu_hw_config = 0\<rparr>\<rparr>"

definition AIPU_HW_ARCH_ZHOUYI :: u32 where "AIPU_HW_ARCH_ZHOUYI = 0"
definition AIPU_HW_VERSION_ZHOUYI_V1 :: u32 where "AIPU_HW_VERSION_ZHOUYI_V1 = 1"
definition AIPU_HW_VERSION_ZHOUYI_V2 :: u32 where "AIPU_HW_VERSION_ZHOUYI_V2 = 2"

definition get_aipu_hw_version :: "u32 \<Rightarrow> u32" where
  "get_aipu_hw_version isa =
     (if isa = 0 then AIPU_HW_VERSION_ZHOUYI_V1 else if isa = 1 then AIPU_HW_VERSION_ZHOUYI_V2 else 0)"

definition get_aipu_hw_config_version_number :: "u32 \<Rightarrow> u32 \<Rightarrow> u32 \<Rightarrow> u32" where
  "get_aipu_hw_config_version_number isa aiff tpc =
     (let high = (if isa = 0 then (aiff AND 0xF) + 6 else if isa = 1 then (aiff AND 0xF) + 8 else 0)
      in high * 100 + (tpc AND 0x1F))"

definition ctrl_init :: "device_ctrl \<Rightarrow> proc \<Rightarrow> (aipu_status \<times> device_ctrl \<times> proc) option" where
  "ctrl_init c p = do {
     let info0 = ue_uninit_info (env_now p);
     (kern_ret, info, p1) \<leftarrow> dev_op_wrapper_open p;
     if kern_ret \<noteq> 0 then Some (AIPU_STATUS_ERROR_OPEN_DEV_FAIL, c, p1)
     else (let i = (case info of None \<Rightarrow> info0 | Some j \<Rightarrow> j)
           in Some (AIPU_STATUS_SUCCESS, c\<lparr>dc_fd := oi_fd i, host_aipu_shm_offset := oi_shm_offset i,
                dc_target := \<lparr>aipu_arch = AIPU_HW_ARCH_ZHOUYI, aipu_version = get_aipu_hw_version (isa_version (oi_cap i)),
                  aipu_hw_config = get_aipu_hw_config_version_number (isa_version (oi_cap i)) (aiff_feature (oi_cap i))
                    (tpc_feature (oi_cap i))\<rparr>\<rparr>, p1))
   }"

definition ctrl_deinit :: "device_ctrl \<Rightarrow> proc \<Rightarrow> (device_ctrl \<times> proc) option" where
  "ctrl_deinit c p =
     (if 0 < dc_fd c then do {
        (_, p1) \<leftarrow> dev_op_wrapper_close (dc_fd c) p;
        Some (c\<lparr>dc_fd := 0, host_aipu_shm_offset := 0\<rparr>, p1)
      }
      else Some (c\<lparr>host_aipu_shm_offset := 0\<rparr>, p))"

text \<open>The loop over the multiples of the alignment, in 32 bits.\<close>

partial_function (option) aligned_addr_loop :: "u32 \<Rightarrow> u32 \<Rightarrow> u32 \<Rightarrow> u32 option" where
  "aligned_addr_loop base align_in_page n =
     (if n * align_in_page * 4096 < base then aligned_addr_loop base align_in_page (n + 1)
      else Some (n * align_in_page * 4096))"

definition get_aligned_addr :: "u32 \<Rightarrow> u32 \<Rightarrow> u32 option" where
  "get_aligned_addr base align_in_page = aligned_addr_loop base align_in_page 0"

definition malloc_buf ::
  "device_ctrl \<Rightarrow> u32 \<Rightarrow> u32 \<Rightarrow> u32 \<Rightarrow> buffer_desc \<Rightarrow> u32 \<Rightarrow> proc \<Rightarrow> (aipu_status \<times> buffer_desc \<times> proc) option" where
  "malloc_buf c dtype sz align buf region_id p =
     (if sz = 0 then Some (AIPU_STATUS_ERROR_INVALID_SIZE, buf, p)
      else do {
        (kern_ret, buf', p1) \<leftarrow> dev_op_wrapper_malloc (dc_fd c) dtype sz align buf region_id p;
        Some (if kern_ret \<noteq> AIPU_ERRCODE_NO_ERROR then AIPU_STATUS_ERROR_BUF_ALLOC_FAIL else AIPU_STATUS_SUCCESS,
              buf', p1)
      })"

definition free_buf :: "device_ctrl \<Rightarrow> buffer_desc \<Rightarrow> proc \<Rightarrow> (aipu_status \<times> proc) option" where
  "free_buf c buf p =
     (if bu_size buf = 0 then Some (AIPU_STATUS_ERROR_INVALID_SIZE, p)
      else do {
        (kern_ret, p1) \<leftarrow> dev_op_wrapper_free (dc_fd c) buf p;
        Some (if kern_ret \<noteq> 0 then AIPU_STATUS_ERROR_BUF_FREE_FAIL else AIPU_STATUS_SUCCESS, p1)
      })"

definition alloc_text_buffer ::
  "device_ctrl \<Rightarrow> pbuf_alloc_templ \<Rightarrow> buffer_desc \<Rightarrow> proc \<Rightarrow> (aipu_status \<times> buffer_desc \<times> proc) option" where
  "alloc_text_buffer c templ ibuf_desc p =
     (if text_size templ = 0 then Some (AIPU_STATUS_ERROR_INVALID_SIZE, ibuf_desc, p)
      else malloc_buf c AIPU_MM_DATA_TYPE_TEXT (text_size templ) 1 ibuf_desc 0 p)"

definition alloc_rodata_buffer ::
  "device_ctrl \<Rightarrow> u32 \<Rightarrow> tbuf_alloc_templ \<Rightarrow> buffer_desc \<Rightarrow> buffer_desc \<Rightarrow> proc \<Rightarrow>
   (aipu_status \<times> buffer_desc \<times> buffer_desc \<times> proc) option" where
  "alloc_rodata_buffer c region_id templ rodata descriptor p = do {
     (ret, rodata', p1) \<leftarrow>
       malloc_buf c AIPU_MM_DATA_TYPE_RO_STACK (tbuf_rodata_size templ + dcr_size templ) 1 rodata region_id p;
     if ret \<noteq> AIPU_STATUS_SUCCESS then Some (ret, rodata', descriptor, p1)
     else (let d = descriptor\<lparr>bu_size := ucast (dcr_size templ), bu_real_size := ucast (dcr_size templ)\<rparr>
           in Some (ret, rodata',
                (if bu_size d \<noteq> 0
                 then d\<lparr>bu_va := bu_va rodata' + unat (tbuf_rodata_size templ),
                        bu_pa := bu_pa rodata' + ucast (tbuf_rodata_size templ), bu_region_id := region_id\<rparr>
                 else d\<lparr>bu_va := 0, bu_pa := 0, bu_region_id := 0\<rparr>), p1))
   }"

text \<open>The loop over the bytes, from the source address in the graph binary on.\<close>

fun load_buffer :: "u8 list \<Rightarrow> addr \<Rightarrow> addr \<Rightarrow> nat \<Rightarrow> proc \<Rightarrow> proc option" where
  "load_buffer bin dest src 0 p = Some p"
| "load_buffer bin dest src (Suc n) p =
     (if src < length bin
      then do { p1 \<leftarrow> ux_store dest (bin ! src) p; load_buffer bin (dest + 1) (src + 1) n p1 }
      else None)"

definition load_text_buffer ::
  "u8 list \<Rightarrow> addr \<Rightarrow> u32 \<Rightarrow> buffer_desc \<Rightarrow> proc \<Rightarrow> (aipu_status \<times> proc) option" where
  "load_text_buffer bin src sz ibuf_desc p =
     (if bu_va ibuf_desc = 0 then Some (AIPU_STATUS_ERROR_NULL_PTR, p)
      else if sz = 0 \<or> bu_size ibuf_desc = 0 then Some (AIPU_STATUS_ERROR_INVALID_SIZE, p)
      else do { p1 \<leftarrow> load_buffer bin (bu_va ibuf_desc) src (unat sz) p; Some (AIPU_STATUS_SUCCESS, p1) })"

definition free_text_buffer :: "device_ctrl \<Rightarrow> buffer_desc \<Rightarrow> proc \<Rightarrow> (aipu_status \<times> proc) option" where
  "free_text_buffer c ibuf_desc p = free_buf c ibuf_desc p"

definition get_dev_status :: "device_ctrl \<Rightarrow> u32 \<Rightarrow> proc \<Rightarrow> (aipu_status \<times> u32 \<times> proc) option" where
  "get_dev_status c value p = do {
     (kern_ret, value', p1) \<leftarrow> dev_op_wrapper_read32 (dc_fd c) 4 value p;
     Some (if kern_ret \<noteq> 0 then AIPU_STATUS_ERROR_INVALID_CTX else AIPU_STATUS_SUCCESS, value', p1)
   }"

definition poll_status ::
  "device_ctrl \<Rightarrow> u32 \<Rightarrow> int \<Rightarrow> bool \<Rightarrow> u32 \<Rightarrow> proc \<Rightarrow> (aipu_status \<times> job_status_desc list \<times> proc) option" where
  "poll_status c max_cnt time_out poll_single_job jid p = do {
     (kern_ret, jobs_status, p1) \<leftarrow> dev_op_wrapper_poll (dc_fd c) max_cnt time_out poll_single_job jid p;
     Some (if kern_ret \<noteq> 0 then AIPU_STATUS_ERROR_NULL_PTR else AIPU_STATUS_SUCCESS, jobs_status, p1)
   }"

definition kill_timeout_job :: "device_ctrl \<Rightarrow> u32 \<Rightarrow> proc \<Rightarrow> (aipu_status \<times> proc) option" where
  "kill_timeout_job c jid p = do {
     (ret, _, p1) \<leftarrow> sys_ioctl (dc_fd c) (IPUIOC_KILL_TIMEOUT_JOB jid) p;
     Some (if ret \<noteq> 0 then AIPU_STATUS_ERROR_JOB_NOT_EXIST else AIPU_STATUS_SUCCESS, p1)
   }"

end
