(* ===== verification/UmdGraph.thy ===== *)
theory UmdGraph
  imports UmdDev
begin

text \<open>
  A loaded graph of the user-mode driver (\<open>context/graph/graph.cpp\<close>): its text and weight
  buffers, the buffers of its threads, its jobs. This is the \<open>ARM_LINUX\<close> build with buffers
  allocated in groups (\<open>CURRENT_AIPU_MALLOC_STRATEGY\<close>). Each operation is one step; the locks
  of the code are left out.
\<close>

subsection \<open>Ordered maps\<close>

text \<open>A \<open>std::map\<close> is its entries in ascending order of the keys; \<open>map_of\<close> finds an entry.\<close>

fun omap_insert :: "('k :: linorder) \<Rightarrow> 'a \<Rightarrow> ('k \<times> 'a) list \<Rightarrow> ('k \<times> 'a) list" where
  "omap_insert k v [] = [(k, v)]"
| "omap_insert k v ((k', v') # m) =
     (if k < k' then (k, v) # (k', v') # m
      else if k = k' then (k, v) # m
      else (k', v') # omap_insert k v m)"

definition omap_erase :: "'k \<Rightarrow> ('k \<times> 'a) list \<Rightarrow> ('k \<times> 'a) list" where
  "omap_erase k m = filter (\<lambda>e. fst e \<noteq> k) m"

definition omap_update :: "'k \<Rightarrow> ('a \<Rightarrow> 'a) \<Rightarrow> ('k \<times> 'a) list \<Rightarrow> ('k \<times> 'a) list" where
  "omap_update k f m = map (\<lambda>(k', v). (k', if k' = k then f v else v)) m"

subsection \<open>Buffers of a graph (\<open>buffer_desc.h\<close>)\<close>

record io_buffer =
  iob_id :: u32
  iob_size :: u32
  iob_va :: addr
  iob_pa :: u64

text \<open>The arrays of an empty list are null pointers, a list of buffers stands for both of them.\<close>

record iobuf_info =
  iob_inputs :: "io_buffer list"
  iob_outputs :: "io_buffer list"
  iob_inter_dumps :: "io_buffer list"
  iob_pdata :: "io_buffer list"
  iob_plog_data :: "io_buffer list"

record pbuf_info =
  pb_text :: buffer_desc
  pb_static_buf :: "buffer_desc list"
  pb_static_group :: buffer_desc

record tbuf_info =
  tb_handle :: u32
  tb_is_free :: bool
  tb_stack :: buffer_desc
  tb_rodata :: buffer_desc
  tb_descriptor :: buffer_desc
  tb_reuse_buf :: "buffer_desc list"
  tb_reuse_group :: buffer_desc
  tb_iobuf :: iobuf_info

subsection \<open>Jobs of a graph (\<open>job_desc.h\<close>)\<close>

text \<open>The state of a job may be a number that the kernel reports, unchecked.\<close>

definition JOB_STATE_NO_STATE :: u32 where "JOB_STATE_NO_STATE = 0"
definition JOB_STATE_DONE :: u32 where "JOB_STATE_DONE = 1"
definition JOB_STATE_EXCEPTION :: u32 where "JOB_STATE_EXCEPTION = 2"
definition JOB_STATE_BUILT :: u32 where "JOB_STATE_BUILT = 3"
definition JOB_STATE_SCHED :: u32 where "JOB_STATE_SCHED = 4"
definition JOB_STATE_TIMEOUT :: u32 where "JOB_STATE_TIMEOUT = 5"

lemmas job_state_defs = JOB_STATE_NO_STATE_def JOB_STATE_DONE_def JOB_STATE_EXCEPTION_def
  JOB_STATE_BUILT_def JOB_STATE_SCHED_def JOB_STATE_TIMEOUT_def

definition AIPU_JOB_STATUS_NO_STATUS :: u32 where "AIPU_JOB_STATUS_NO_STATUS = 0"
definition AIPU_JOB_STATUS_DONE :: u32 where "AIPU_JOB_STATUS_DONE = 1"
definition AIPU_JOB_STATUS_EXCEPTION :: u32 where "AIPU_JOB_STATUS_EXCEPTION = 2"

record dev_config =
  cf_arch :: u32
  cf_hw_version :: u32
  cf_hw_config :: u32
  cf_instruction_base_pa :: u64
  cf_start_pc_pa :: u64
  cf_interrupt_pc_pa :: u64
  cf_code_size :: u32
  cf_rodata_base :: u64
  cf_rodata_size :: u32
  cf_stack_base :: u64
  cf_stack_size :: u32
  cf_static_base :: u64
  cf_static_size :: u32
  cf_reuse_base :: u64
  cf_reuse_size :: u32
  cf_enable_prof :: u32
  cf_enable_asid :: u32

record job_desc =
  jd_id :: u32
  jd_buf_handle :: u32
  jd_state :: u32
  jd_config :: dev_config
  jd_dump_flag :: u32
  jd_dump_fname_suffix :: string
  jd_dump_dir :: string
  jd_pdata :: profiling_data

subsection \<open>The graph\<close>

record graph_desc =
  gd_id :: u32
  gd_graph_version :: u32
  gd_building_tool_major :: u8
  gd_building_tool_minor :: u8
  gd_build_version :: "16 word"
  gd_inputs :: "(u32 \<times> u32 \<times> aipu_tensor_fmt) list"
  gd_outputs :: "(u32 \<times> u32 \<times> aipu_tensor_fmt) list"
  gd_inter_dumps :: "(u32 \<times> u32 \<times> aipu_tensor_fmt) list"

text \<open>
  \<open>gr_gbin\<close> is the binary that the load sources of the templates point into, for as long as
  the application keeps it.
\<close>

record graph =
  gr_map_flag :: bool
  gr_gbin :: "u8 list"
  gr_entry :: u32
  gr_arch :: u32
  gr_hw_version :: u32
  gr_hw_config :: u32
  gr_asid_flag :: u32
  gr_linked_list_flag :: u32
  gr_gdesc :: graph_desc
  gr_tbuf_templ :: tbuf_alloc_templ
  gr_inputs :: "io_tensor_desc list"
  gr_outputs :: "io_tensor_desc list"
  gr_inter_dumps :: "io_tensor_desc list"
  gr_pdata :: "io_tensor_desc list"
  gr_plog_data :: "io_tensor_desc list"
  gr_param_map :: "param_map_load_desc list"
  gr_dcr_map :: "list_node_desc list"
  gr_pbuf :: pbuf_info
  gr_tbufs :: "(u32 \<times> tbuf_info) list"
  gr_jobs :: "(u32 \<times> job_desc) list"
  gr_sched :: "u32 list"

definition empty_gdesc :: "u32 \<Rightarrow> graph_desc" where
  "empty_gdesc i = \<lparr>gd_id = i, gd_graph_version = 0, gd_building_tool_major = 0, gd_building_tool_minor = 0,
     gd_build_version = 0, gd_inputs = [], gd_outputs = [], gd_inter_dumps = []\<rparr>"

text \<open>The constructor; the members it leaves unset are set by \<open>load\<close> before they are read.\<close>

definition new_graph :: "u32 \<Rightarrow> graph" where
  "new_graph i = \<lparr>gr_map_flag = False, gr_gbin = [], gr_entry = 0, gr_arch = 0, gr_hw_version = 0, gr_hw_config = 0,
     gr_asid_flag = 0, gr_linked_list_flag = 0, gr_gdesc = empty_gdesc i,
     gr_tbuf_templ = \<lparr>rodata_src = 0, tbuf_rodata_size = 0, dcr_src = None, dcr_size = 0, tbuf_stack_size = 0,
       stack_align_in_page = 0, reuse_sections = []\<rparr>,
     gr_inputs = [], gr_outputs = [], gr_inter_dumps = [], gr_pdata = [], gr_plog_data = [], gr_param_map = [], gr_dcr_map = [],
     gr_pbuf = \<lparr>pb_text = buffer_desc_init, pb_static_buf = [], pb_static_group = buffer_desc_init\<rparr>,
     gr_tbufs = [], gr_jobs = [], gr_sched = []\<rparr>"

subsection \<open>Lookups\<close>

definition handle2graph_id :: "u32 \<Rightarrow> u32" where
  "handle2graph_id buf_handle = drop_bit 16 buf_handle"

definition job_id2graph_id :: "u32 \<Rightarrow> u32" where
  "job_id2graph_id jid = drop_bit 16 jid"

definition get_tbuf_ptr :: "graph \<Rightarrow> u32 \<Rightarrow> tbuf_info option" where
  "get_tbuf_ptr g handle = map_of (gr_tbufs g) handle"

definition get_job_ptr :: "graph \<Rightarrow> u32 \<Rightarrow> job_desc option" where
  "get_job_ptr g jid = map_of (gr_jobs g) jid"

definition put_job :: "u32 \<Rightarrow> (job_desc \<Rightarrow> job_desc) \<Rightarrow> graph \<Rightarrow> graph" where
  "put_job jid f g = g\<lparr>gr_jobs := omap_update jid f (gr_jobs g)\<rparr>"

definition put_tbuf :: "u32 \<Rightarrow> (tbuf_info \<Rightarrow> tbuf_info) \<Rightarrow> graph \<Rightarrow> graph" where
  "put_tbuf handle f g = g\<lparr>gr_tbufs := omap_update handle f (gr_tbufs g)\<rparr>"

text \<open>The section types of a linked list; a null pointer is address 0.\<close>

definition SECTION_TYPE_RODATA :: u32 where "SECTION_TYPE_RODATA = 0"
definition SECTION_TYPE_DESCRIPTOR :: u32 where "SECTION_TYPE_DESCRIPTOR = 1"
definition SECTION_TYPE_TEXT :: u32 where "SECTION_TYPE_TEXT = 2"

definition get_base_va :: "graph \<Rightarrow> u32 \<Rightarrow> tbuf_info \<Rightarrow> addr" where
  "get_base_va g sec_type tbuf =
     (if sec_type = SECTION_TYPE_RODATA then bu_va (tb_rodata tbuf)
      else if sec_type = SECTION_TYPE_DESCRIPTOR then bu_va (tb_descriptor tbuf)
      else if sec_type = SECTION_TYPE_TEXT then bu_va (pb_text (gr_pbuf g))
      else 0)"

definition get_base_pa :: "graph \<Rightarrow> u32 \<Rightarrow> tbuf_info \<Rightarrow> u32" where
  "get_base_pa g sec_type tbuf =
     (if sec_type = SECTION_TYPE_RODATA then ucast (bu_pa (tb_rodata tbuf))
      else if sec_type = SECTION_TYPE_DESCRIPTOR then ucast (bu_pa (tb_descriptor tbuf))
      else if sec_type = SECTION_TYPE_TEXT then ucast (bu_pa (pb_text (gr_pbuf g)))
      else 0)"

definition dev2host :: "device_ctrl \<Rightarrow> u64 \<Rightarrow> u64" where
  "dev2host c pa = pa + host_aipu_shm_offset c"

definition host2dev :: "device_ctrl \<Rightarrow> u64 \<Rightarrow> u64" where
  "host2dev c pa = pa - host_aipu_shm_offset c"

text \<open>The first entry with the identifier is erased.\<close>

definition delete_from_sched_queue_inner :: "u32 \<Rightarrow> graph \<Rightarrow> graph" where
  "delete_from_sched_queue_inner jid g = g\<lparr>gr_sched := remove1 jid (gr_sched g)\<rparr>"

subsection \<open>What is known of a job\<close>

definition is_job_built_inner :: "graph \<Rightarrow> u32 \<Rightarrow> bool" where
  "is_job_built_inner g jid =
     (case get_job_ptr g jid of None \<Rightarrow> False | Some j \<Rightarrow> jd_state j = JOB_STATE_BUILT)"

definition is_job_scheduled_inner :: "graph \<Rightarrow> u32 \<Rightarrow> bool" where
  "is_job_scheduled_inner g jid =
     (case get_job_ptr g jid of None \<Rightarrow> False | Some j \<Rightarrow> jd_state j = JOB_STATE_SCHED)"

definition is_job_end_inner :: "graph \<Rightarrow> u32 \<Rightarrow> bool" where
  "is_job_end_inner g jid =
     (case get_job_ptr g jid of None \<Rightarrow> False
      | Some j \<Rightarrow> jd_state j = JOB_STATE_DONE \<or> jd_state j = JOB_STATE_EXCEPTION)"

definition is_job_exist_inner :: "graph \<Rightarrow> u32 \<Rightarrow> bool" where
  "is_job_exist_inner g jid \<longleftrightarrow> is_job_built_inner g jid \<or> is_job_scheduled_inner g jid \<or> is_job_end_inner g jid"

definition is_all_jobs_end_inner :: "graph \<Rightarrow> bool" where
  "is_all_jobs_end_inner g \<longleftrightarrow>
     list_all (\<lambda>(_, j). \<not> (jd_state j \<noteq> JOB_STATE_DONE \<and> jd_state j \<noteq> JOB_STATE_EXCEPTION)) (gr_jobs g)"

definition is_unload_ok :: "graph \<Rightarrow> bool" where
  "is_unload_ok g = is_all_jobs_end_inner g"

definition get_sched_job_cnt :: "graph \<Rightarrow> u32" where
  "get_sched_job_cnt g = of_nat (length (gr_sched g))"

definition is_job_sched :: "graph \<Rightarrow> u32 \<Rightarrow> aipu_status" where
  "is_job_sched g jid =
     (case get_job_ptr g jid of None \<Rightarrow> AIPU_STATUS_ERROR_JOB_NOT_EXIST
      | Some j \<Rightarrow> if jd_state j = JOB_STATE_BUILT then AIPU_STATUS_ERROR_JOB_NOT_SCHED else AIPU_STATUS_SUCCESS)"

definition is_job_end :: "graph \<Rightarrow> u32 \<Rightarrow> bool" where
  "is_job_end g jid =
     (case get_job_ptr g jid of None \<Rightarrow> False
      | Some j \<Rightarrow> jd_state j = JOB_STATE_DONE \<or> jd_state j = JOB_STATE_EXCEPTION \<or> jd_state j = JOB_STATE_TIMEOUT)"

text \<open>The identifiers: the first one from \<open>gdesc.id << 16\<close> on that is not in use, in 32 bits.\<close>

partial_function (option) first_free_id :: "(u32 \<Rightarrow> bool) \<Rightarrow> u32 \<Rightarrow> u32 option" where
  "first_free_id used id_candidate =
     (if used id_candidate then first_free_id used (id_candidate + 1) else Some id_candidate)"

definition create_buf_handle_inner :: "graph \<Rightarrow> u32 option" where
  "create_buf_handle_inner g =
     first_free_id (\<lambda>h. get_tbuf_ptr g h \<noteq> None) (push_bit 16 (gd_id (gr_gdesc g)))"

definition create_job_id_inner :: "graph \<Rightarrow> u32 option" where
  "create_job_id_inner g = first_free_id (is_job_exist_inner g) (push_bit 16 (gd_id (gr_gdesc g)))"

subsection \<open>Input and output buffers, descriptors\<close>

fun create_iobuf_info :: "buffer_desc list \<Rightarrow> io_tensor_desc list \<Rightarrow> io_buffer list option" where
  "create_iobuf_info reuse_buf [] = Some []"
| "create_iobuf_info reuse_buf (t # ts) =
     (let i = unat (io_ref_section_iter t)
      in if i < length reuse_buf
         then map_option ((#) \<lparr>iob_id = io_id t, iob_size = io_size t,
                iob_va = bu_va (reuse_buf ! i) + unat (io_offset_in_section t),
                iob_pa = bu_pa (reuse_buf ! i) + ucast (io_offset_in_section t)\<rparr>)
                (create_iobuf_info reuse_buf ts)
         else None)"

definition create_tensor_info :: "io_tensor_desc list \<Rightarrow> (u32 \<times> u32 \<times> aipu_tensor_fmt) list" where
  "create_tensor_info desc = map (\<lambda>t. (io_id t, io_size t, io_fmt t)) desc"

definition BUILD_MAJOR :: "u32 \<Rightarrow> u32" where "BUILD_MAJOR build_version = build_version AND 0xF"
definition BUILD_MINOR :: "u32 \<Rightarrow> u32" where "BUILD_MINOR build_version = drop_bit 8 build_version AND 0xF"
definition BUILD_NUMBER :: "u32 \<Rightarrow> u32" where "BUILD_NUMBER build_version = drop_bit 16 build_version"

definition create_graph_desc :: "graph_info \<Rightarrow> graph_desc \<Rightarrow> graph_desc" where
  "create_graph_desc info gd =
     gd\<lparr>gd_graph_version := gi_version info, gd_building_tool_major := ucast (BUILD_MAJOR (gi_build_version info)),
        gd_building_tool_minor := ucast (BUILD_MINOR (gi_build_version info)),
        gd_build_version := ucast (BUILD_NUMBER (gi_build_version info)),
        gd_inputs := create_tensor_info (gi_inputs info), gd_outputs := create_tensor_info (gi_outputs info),
        gd_inter_dumps := create_tensor_info (gi_inter_dumps info)\<rparr>"

definition destroy_graph_desc :: "graph_desc \<Rightarrow> graph_desc" where
  "destroy_graph_desc gd = empty_gdesc (gd_id gd)"

subsection \<open>Groups of buffers\<close>

text \<open>The offset of the next section is aligned behind the end of the previous one.\<close>

fun group_offsets :: "u32 \<Rightarrow> section_desc \<Rightarrow> section_desc list \<Rightarrow> u32 list option" where
  "group_offsets off prev [] = Some [off]"
| "group_offsets off prev (s # ss) = do {
     off' \<leftarrow> get_aligned_addr (off + sec_size prev) (sec_align_in_page s);
     offs \<leftarrow> group_offsets off' s ss;
     Some (off # offs)
   }"

definition child_buf :: "buffer_desc \<Rightarrow> u32 \<Rightarrow> section_desc \<Rightarrow> u32 \<Rightarrow> buffer_desc" where
  "child_buf grp off sec rid =
     \<lparr>bu_va = bu_va grp + unat off, bu_pa = bu_pa grp + ucast off, bu_size = ucast (sec_size sec),
      bu_real_size = ucast (sec_size sec), bu_region_id = rid\<rparr>"

definition alloc_group_buffers ::
  "device_ctrl \<Rightarrow> section_desc list \<Rightarrow> u32 \<Rightarrow> buffer_desc list \<Rightarrow> buffer_desc \<Rightarrow> proc \<Rightarrow>
   (aipu_status \<times> buffer_desc list \<times> buffer_desc \<times> proc) option" where
  "alloc_group_buffers c sections dtype buffers grp p =
     (case sections of
        [] \<Rightarrow> Some (AIPU_STATUS_SUCCESS, buffers, grp, p)
      | s0 # ss \<Rightarrow> do {
          offsets \<leftarrow> group_offsets 0 s0 ss;
          let tot_bytes = last offsets + sec_size (last sections);
          let uninit = ue_uninit_buf (env_now p);
          (ret, group_buf, p1) \<leftarrow> malloc_buf c dtype tot_bytes (sec_align_in_page s0) uninit 0 p;
          if ret \<noteq> AIPU_STATUS_SUCCESS then Some (ret, buffers, grp, p1)
          else Some (ret, buffers @ map (\<lambda>(off, sec). child_buf group_buf off sec (bu_region_id uninit)) (zip offsets sections),
                     group_buf, p1)
        })"

subsection \<open>Loading and unloading\<close>

fun load_statics :: "u8 list \<Rightarrow> section_desc list \<Rightarrow> buffer_desc list \<Rightarrow> proc \<Rightarrow> proc option" where
  "load_statics bin [] bufs p = Some p"
| "load_statics bin (s # ss) [] p = None"
| "load_statics bin (s # ss) (b # bs) p = do {
     src \<leftarrow> sec_load_src s;
     p1 \<leftarrow> load_buffer bin (bu_va b) src (unat (sec_size s)) p;
     load_statics bin ss bs p1
   }"

definition graph_load ::
  "device_ctrl \<Rightarrow> u8 list \<Rightarrow> graph_info \<Rightarrow> bool \<Rightarrow> graph \<Rightarrow> proc \<Rightarrow> (aipu_status \<times> graph \<times> proc) option" where
  "graph_load c bin info map_flag g p = do {
     let g1 = g\<lparr>gr_map_flag := map_flag, gr_gbin := bin, gr_arch := AIPU_ARCH (gi_device info),
           gr_hw_version := AIPU_VERSION (gi_device info), gr_hw_config := AIPU_CONFIG (gi_device info),
           gr_entry := gi_entry info, gr_asid_flag := gi_asid_flag info, gr_linked_list_flag := gi_linked_list_flag info,
           gr_tbuf_templ := gi_tbuf_templ info, gr_inputs := gi_inputs info, gr_outputs := gi_outputs info,
           gr_inter_dumps := gi_inter_dumps info, gr_pdata := gi_pdata info, gr_plog_data := gi_plog_data info,
           gr_param_map := gi_param_map info, gr_dcr_map := gi_dcr_map info,
           gr_gdesc := create_graph_desc info (gr_gdesc g)\<rparr>;
     (ret, text, p1) \<leftarrow> alloc_text_buffer c (gi_pbuf_templ info) (pb_text (gr_pbuf g1)) p;
     let g2 = g1\<lparr>gr_pbuf := (gr_pbuf g1)\<lparr>pb_text := text\<rparr>\<rparr>;
     if ret \<noteq> AIPU_STATUS_SUCCESS then Some (ret, g2, p1)
     else do {
       (ret, p2) \<leftarrow> load_text_buffer bin (text_src (gi_pbuf_templ info)) (text_size (gi_pbuf_templ info)) text p1;
       if ret \<noteq> AIPU_STATUS_SUCCESS then Some (ret, g2, p2)
       else do {
         (ret, bufs, grp, p3) \<leftarrow> alloc_group_buffers c (static_sections (gi_pbuf_templ info)) AIPU_MM_DATA_TYPE_STATIC
            (pb_static_buf (gr_pbuf g2)) (pb_static_group (gr_pbuf g2)) p2;
         let g3 = g2\<lparr>gr_pbuf := (gr_pbuf g2)\<lparr>pb_static_buf := bufs, pb_static_group := grp\<rparr>\<rparr>;
         if ret \<noteq> AIPU_STATUS_SUCCESS then Some (ret, g3, p3)
         else do {
           p4 \<leftarrow> load_statics bin (static_sections (gi_pbuf_templ info)) bufs p3;
           Some (ret, g3, p4)
         }
       }
     }
   }"

definition free_thread_buffer ::
  "device_ctrl \<Rightarrow> u32 \<Rightarrow> graph \<Rightarrow> proc \<Rightarrow> (aipu_status \<times> graph \<times> proc) option" where
  "free_thread_buffer c handle g p =
     (case get_tbuf_ptr g handle of
        None \<Rightarrow> Some (AIPU_STATUS_ERROR_INVALID_HANDLE, g, p)
      | Some tbuf \<Rightarrow>
          if \<not> tb_is_free tbuf then Some (AIPU_STATUS_ERROR_BUSY_HANDLE, g, p)
          else do {
            (ret, p1) \<leftarrow> free_buf c (tb_rodata tbuf) p;
            if ret \<noteq> AIPU_STATUS_SUCCESS then Some (ret, g, p1)
            else do {
              (ret, p2) \<leftarrow> free_buf c (tb_stack tbuf) p1;
              if ret \<noteq> AIPU_STATUS_SUCCESS then Some (ret, g, p2)
              else do {
                (ret, p3) \<leftarrow> free_buf c (tb_reuse_group tbuf) p2;
                if ret \<noteq> AIPU_STATUS_SUCCESS then Some (ret, g, p3)
                else Some (ret, g\<lparr>gr_tbufs := omap_erase handle (gr_tbufs g)\<rparr>, p3)
              }
            }
          })"

text \<open>
  The loop of \<open>unload\<close> over the thread buffers: a successful release erases the entry that
  the iterator stands on, and the iterator is then incremented.
\<close>

definition unload_tbufs :: "device_ctrl \<Rightarrow> graph \<Rightarrow> proc \<Rightarrow> (aipu_status \<times> graph \<times> proc) option" where
  "unload_tbufs c g p =
     (case gr_tbufs g of
        [] \<Rightarrow> Some (AIPU_STATUS_SUCCESS, g, p)
      | (handle, _) # _ \<Rightarrow> do {
          (ret, g1, p1) \<leftarrow> free_thread_buffer c handle g p;
          if ret \<noteq> AIPU_STATUS_SUCCESS then Some (ret, g1, p1) else None
        })"

definition graph_unload :: "device_ctrl \<Rightarrow> graph \<Rightarrow> proc \<Rightarrow> (aipu_status \<times> graph \<times> proc) option" where
  "graph_unload c g p =
     (if \<not> is_unload_ok g then Some (AIPU_STATUS_ERROR_INVALID_OP, g, p)
      else do {
        let g1 = g\<lparr>gr_jobs := [], gr_param_map := [], gr_inputs := [], gr_outputs := [], gr_inter_dumps := [],
              gr_plog_data := []\<rparr>;
        let text = pb_text (gr_pbuf g1);
        (ret, p1) \<leftarrow> (if bu_va text \<noteq> 0 then free_text_buffer c text p else Some (AIPU_STATUS_SUCCESS, p));
        if ret \<noteq> AIPU_STATUS_SUCCESS then Some (ret, g1, p1)
        else do {
          let g2 = (if bu_va text \<noteq> 0
                    then g1\<lparr>gr_pbuf := (gr_pbuf g1)\<lparr>pb_text := text\<lparr>bu_pa := 0, bu_va := 0, bu_size := 0\<rparr>\<rparr>\<rparr> else g1);
          let grp = pb_static_group (gr_pbuf g2);
          (ret, p2) \<leftarrow> (if bu_va grp \<noteq> 0 then free_buf c grp p1 else Some (AIPU_STATUS_SUCCESS, p1));
          if ret \<noteq> AIPU_STATUS_SUCCESS then Some (ret, g2, p2)
          else do {
            let g3 = g2\<lparr>gr_pbuf := (gr_pbuf g2)\<lparr>pb_static_buf := []\<rparr>\<rparr>;
            (ret, g4, p3) \<leftarrow> unload_tbufs c g3 p2;
            if ret \<noteq> AIPU_STATUS_SUCCESS then Some (ret, g4, p3)
            else Some (ret, g4\<lparr>gr_gbin := (if gr_map_flag g4 then [] else gr_gbin g4),
                               gr_gdesc := destroy_graph_desc (gr_gdesc g4)\<rparr>, p3)
          }
        }
      })"

subsection \<open>Buffers of a thread\<close>

text \<open>The first 8 characters of every printf buffer are cleared.\<close>

fun zero_bytes :: "nat \<Rightarrow> addr \<Rightarrow> proc \<Rightarrow> proc option" where
  "zero_bytes 0 a p = Some p"
| "zero_bytes (Suc n) a p = do { p1 \<leftarrow> ux_store a 0 p; zero_bytes n (a + 1) p1 }"

fun init_plog :: "io_buffer list \<Rightarrow> proc \<Rightarrow> proc option" where
  "init_plog [] p = Some p"
| "init_plog (b # bs) p = do { p1 \<leftarrow> zero_bytes 8 (iob_va b) p; init_plog bs p1 }"

definition create_iobufs :: "graph \<Rightarrow> buffer_desc list \<Rightarrow> iobuf_info option" where
  "create_iobufs g reuse_buf = do {
     ins \<leftarrow> create_iobuf_info reuse_buf (gr_inputs g);
     outs \<leftarrow> create_iobuf_info reuse_buf (gr_outputs g);
     dumps \<leftarrow> create_iobuf_info reuse_buf (gr_inter_dumps g);
     pdata \<leftarrow> create_iobuf_info reuse_buf (gr_pdata g);
     plog \<leftarrow> create_iobuf_info reuse_buf (gr_plog_data g);
     Some \<lparr>iob_inputs = ins, iob_outputs = outs, iob_inter_dumps = dumps, iob_pdata = pdata, iob_plog_data = plog\<rparr>
   }"

text \<open>
  The result is the handle and the buffers that the caller learns, when the call succeeds.
  The labels \<open>free_ro_reuse\<close> and \<open>free_stack\<close> are the releases on the error branches; no
  child buffer exists when a group could not be allocated.
\<close>

definition alloc_thread_buffer ::
  "device_ctrl \<Rightarrow> graph \<Rightarrow> proc \<Rightarrow> (aipu_status \<times> (u32 \<times> iobuf_info) option \<times> graph \<times> proc) option" where
  "alloc_thread_buffer c g p = do {
     let templ = gr_tbuf_templ g;
     let region = bu_region_id (pb_text (gr_pbuf g));
     let uninit = ue_uninit_buf (env_now p);
     (ret, stack, p1) \<leftarrow> malloc_buf c AIPU_MM_DATA_TYPE_RO_STACK (tbuf_stack_size templ) (stack_align_in_page templ)
        uninit region p;
     if ret \<noteq> AIPU_STATUS_SUCCESS then Some (ret, None, g, p1)
     else do {
       (ret, rodata, descriptor, p2) \<leftarrow> alloc_rodata_buffer c region templ uninit uninit p1;
       if ret \<noteq> AIPU_STATUS_SUCCESS then do { (_, p3) \<leftarrow> free_buf c stack p2; Some (ret, None, g, p3) }
       else do {
         (ret, reuse_buf, reuse_group, p3) \<leftarrow> alloc_group_buffers c (reuse_sections templ) AIPU_MM_DATA_TYPE_REUSE [] uninit p2;
         if ret \<noteq> AIPU_STATUS_SUCCESS then do {
           (_, p4) \<leftarrow> free_buf c rodata p3;
           (_, p5) \<leftarrow> free_buf c stack p4;
           Some (ret, None, g, p5)
         }
         else do {
           iobuf \<leftarrow> create_iobufs g reuse_buf;
           handle \<leftarrow> create_buf_handle_inner g;
           let tbuf = \<lparr>tb_handle = handle, tb_is_free = True, tb_stack = stack, tb_rodata = rodata,
                 tb_descriptor = descriptor, tb_reuse_buf = reuse_buf, tb_reuse_group = reuse_group, tb_iobuf = iobuf\<rparr>;
           p4 \<leftarrow> init_plog (iob_plog_data iobuf) p3;
           Some (AIPU_STATUS_SUCCESS, Some (handle, iobuf), g\<lparr>gr_tbufs := omap_insert handle tbuf (gr_tbufs g)\<rparr>, p4)
         }
       }
     }
   }"

subsection \<open>Building a job\<close>

definition is_asid_enabled :: "graph \<Rightarrow> bool" where
  "is_asid_enabled g \<longleftrightarrow> gr_hw_version g = AIPU_HW_VERSION_ZHOUYI_V2 \<and> gr_asid_flag g AND 0xF \<noteq> 0"

definition ux_load32 :: "proc \<Rightarrow> addr \<Rightarrow> u32 option" where
  "ux_load32 p a = do {
     b0 \<leftarrow> ux_load p a; b1 \<leftarrow> ux_load p (a + 1); b2 \<leftarrow> ux_load p (a + 2); b3 \<leftarrow> ux_load p (a + 3);
     Some (word_at [b0, b1, b2, b3] 0)
   }"

definition ux_store32 :: "addr \<Rightarrow> u32 \<Rightarrow> proc \<Rightarrow> proc option" where
  "ux_store32 a w p = do {
     p1 \<leftarrow> ux_store a (ucast w) p;
     p2 \<leftarrow> ux_store (a + 1) (ucast (drop_bit 8 w)) p1;
     p3 \<leftarrow> ux_store (a + 2) (ucast (drop_bit 16 w)) p2;
     ux_store (a + 3) (ucast (drop_bit 24 w)) p3
   }"

text \<open>The address a parameter stands for, or an error.\<close>

definition param_pa :: "device_ctrl \<Rightarrow> graph \<Rightarrow> tbuf_info \<Rightarrow> param_map_load_desc \<Rightarrow> aipu_status + u32" where
  "param_pa c g tbuf m =
     (let i = unat (pm_ref_section_iter m); off = ucast (pm_sub_section_offset m)
      in if pm_load_type m = PARAM_MAP_LOAD_TYPE_REUSE \<and> length (tb_reuse_buf tbuf) \<le> i \<or>
            pm_load_type m = PARAM_MAP_LOAD_TYPE_STATIC \<and> length (pb_static_buf (gr_pbuf g)) \<le> i
         then Inl AIPU_STATUS_ERROR_INVALID_SIZE
         else
           let pa = (if pm_load_type m = PARAM_MAP_LOAD_TYPE_REUSE then ucast (host2dev c (bu_pa (tb_reuse_buf tbuf ! i) + off))
                     else if pm_load_type m = PARAM_MAP_LOAD_TYPE_STATIC
                     then ucast (host2dev c (bu_pa (pb_static_buf (gr_pbuf g) ! i) + off)) else 0) :: u32
           in Inr (if \<not> is_asid_enabled g then pa
                   else if pm_load_type m = PARAM_MAP_LOAD_TYPE_REUSE then pa - ucast (bu_pa (tb_reuse_group tbuf))
                   else if pm_load_type m = PARAM_MAP_LOAD_TYPE_STATIC then pa - ucast (bu_pa (pb_static_group (gr_pbuf g)))
                   else pa))"

fun patch_rodata ::
  "device_ctrl \<Rightarrow> graph \<Rightarrow> tbuf_info \<Rightarrow> param_map_load_desc list \<Rightarrow> proc \<Rightarrow> (aipu_status \<times> proc) option" where
  "patch_rodata c g tbuf [] p = Some (AIPU_STATUS_SUCCESS, p)"
| "patch_rodata c g tbuf (m # ms) p =
     (if bu_size (tb_rodata tbuf) \<le> ucast (pm_offset_in_map m) then Some (AIPU_STATUS_ERROR_INVALID_SIZE, p)
      else
        (case param_pa c g tbuf m of
           Inl ret \<Rightarrow> Some (ret, p)
         | Inr sub_sec_pa \<Rightarrow> do {
             let dest = bu_va (tb_rodata tbuf) + unat (pm_offset_in_map m);
             old \<leftarrow> ux_load32 p dest;
             p1 \<leftarrow> ux_store32 dest ((sub_sec_pa AND pm_addr_mask m) OR (old AND NOT (pm_addr_mask m))) p;
             patch_rodata c g tbuf ms p1
           }))"

fun patch_descriptor :: "device_ctrl \<Rightarrow> graph \<Rightarrow> tbuf_info \<Rightarrow> list_node_desc list \<Rightarrow> proc \<Rightarrow> proc option" where
  "patch_descriptor c g tbuf [] p = Some p"
| "patch_descriptor c g tbuf (d # ds) p = do {
     let dest = get_base_va g (ln_type d) tbuf + unat (ln_next_addr_entry_offset d);
     let pa = ucast (host2dev c (ucast (get_base_pa g (ln_next_type d) tbuf + ln_next_offset d)));
     p1 \<leftarrow> ux_store32 dest pa p;
     patch_descriptor c g tbuf ds p1
   }"

definition job_config :: "device_ctrl \<Rightarrow> graph \<Rightarrow> tbuf_info \<Rightarrow> dev_config" where
  "job_config c g tbuf =
     (let text = pb_text (gr_pbuf g); base = host2dev c (bu_pa text); sg = pb_static_group (gr_pbuf g)
      in \<lparr>cf_arch = gr_arch g, cf_hw_version = gr_hw_version g, cf_hw_config = gr_hw_config g,
          cf_instruction_base_pa = base, cf_start_pc_pa = base + ucast (gr_entry g), cf_interrupt_pc_pa = base + 0x10,
          cf_code_size = ucast (bu_size text), cf_rodata_base = host2dev c (bu_pa (tb_rodata tbuf)),
          cf_rodata_size = ucast (bu_size (tb_rodata tbuf)), cf_stack_base = host2dev c (bu_pa (tb_stack tbuf)),
          cf_stack_size = ucast (bu_size (tb_stack tbuf)), cf_static_base = host2dev c (bu_pa sg),
          cf_static_size = ucast (bu_size sg), cf_reuse_base = host2dev c (bu_pa (tb_reuse_group tbuf)),
          cf_reuse_size = ucast (bu_size (tb_reuse_group tbuf)), cf_enable_prof = 0,
          cf_enable_asid = (if is_asid_enabled g then 1 else 0)\<rparr>)"

text \<open>The error branches leave the function with the buffer marked as used.\<close>

definition build_new_job ::
  "device_ctrl \<Rightarrow> u32 \<Rightarrow> graph \<Rightarrow> proc \<Rightarrow> (aipu_status \<times> u32 option \<times> graph \<times> proc) option" where
  "build_new_job c handle g p =
     (case get_tbuf_ptr g handle of
        None \<Rightarrow> Some (AIPU_STATUS_ERROR_INVALID_HANDLE, None, g, p)
      | Some tbuf \<Rightarrow>
          if \<not> tb_is_free tbuf then Some (AIPU_STATUS_ERROR_BUSY_HANDLE, None, g, p)
          else do {
            let g1 = put_tbuf handle (\<lambda>t. t\<lparr>tb_is_free := False\<rparr>) g;
            let templ = gr_tbuf_templ g1;
            p1 \<leftarrow> load_buffer (gr_gbin g1) (bu_va (tb_rodata tbuf)) (rodata_src templ) (unat (tbuf_rodata_size templ)) p;
            p2 \<leftarrow> (if gr_linked_list_flag g1 \<noteq> 0
                   then (case dcr_src templ of
                           None \<Rightarrow> if dcr_size templ = 0 then Some p1 else None
                         | Some src \<Rightarrow> load_buffer (gr_gbin g1) (bu_va (tb_descriptor tbuf)) src (unat (dcr_size templ)) p1)
                   else Some p1);
            (ret, p3) \<leftarrow> patch_rodata c g1 tbuf (gr_param_map g1) p2;
            if ret \<noteq> AIPU_STATUS_SUCCESS then Some (ret, None, g1, p3)
            else do {
              p4 \<leftarrow> (if gr_linked_list_flag g1 \<noteq> 0 then patch_descriptor c g1 tbuf (gr_dcr_map g1) p3 else Some p3);
              jid \<leftarrow> create_job_id_inner g1;
              let job = \<lparr>jd_id = jid, jd_buf_handle = handle, jd_state = JOB_STATE_BUILT,
                    jd_config = job_config c g1 tbuf, jd_dump_flag = 0, jd_dump_fname_suffix = [], jd_dump_dir = [],
                    jd_pdata = zero_pdata\<rparr>;
              Some (AIPU_STATUS_SUCCESS, Some jid, g1\<lparr>gr_jobs := omap_insert jid job (gr_jobs g1)\<rparr>, p4)
            }
          })"

subsection \<open>Running a job\<close>

definition job2kern :: "job_desc \<Rightarrow> user_job" where
  "job2kern job =
     (let cf = jd_config job
      in \<lparr>uj_desc = \<lparr>start_pc_addr = cf_start_pc_pa cf, intr_handler_addr = cf_interrupt_pc_pa cf,
            data_0_addr = cf_rodata_base cf, data_1_addr = cf_stack_base cf, static_addr = cf_static_base cf,
            reuse_addr = cf_reuse_base cf, job_id = jd_id job, code_size = cf_code_size cf,
            rodata_size = cf_rodata_size cf, stack_size = cf_stack_size cf, static_size = cf_static_size cf,
            reuse_size = cf_reuse_size cf, enable_prof = cf_enable_prof cf, enable_asid = cf_enable_asid cf\<rparr>,
          uj_errcode = AIPU_ERRCODE_NO_ERROR\<rparr>)"

text \<open>The job comes back with its state: a failed submission is no error of the call.\<close>

definition schedule_job_on_aipu :: "device_ctrl \<Rightarrow> job_desc \<Rightarrow> proc \<Rightarrow> (aipu_status \<times> job_desc \<times> proc) option" where
  "schedule_job_on_aipu c job p =
     (if dc_fd c \<le> 0 then Some (AIPU_STATUS_ERROR_OPEN_DEV_FAIL, job, p)
      else do {
        let uj = job2kern job;
        (kern_ret, a, p1) \<leftarrow> sys_ioctl (dc_fd c) (IPUIOC_RUNJOB uj) p;
        let uj' = (case a of IPUIOC_RUNJOB q \<Rightarrow> q | _ \<Rightarrow> uj);
        Some (AIPU_STATUS_SUCCESS,
              (if kern_ret \<noteq> 0 \<or> uj_errcode uj' \<noteq> AIPU_ERRCODE_NO_ERROR then job\<lparr>jd_state := JOB_STATE_NO_STATE\<rparr> else job), p1)
      })"

definition AIPU_DUMP_OUT_TENSOR :: u32 where "AIPU_DUMP_OUT_TENSOR = 0x20"
definition AIPU_DUMP_MEM_MAP :: u32 where "AIPU_DUMP_MEM_MAP = 0x80"
definition AIPU_DUMP_DRV_PROF_DATA :: u32 where "AIPU_DUMP_DRV_PROF_DATA = 0x100"
definition AIPU_DUMP_BEFORE_RUN :: u32 where "AIPU_DUMP_BEFORE_RUN = 0x200"
definition AIPU_DUMP_AFTER_RUN :: u32 where "AIPU_DUMP_AFTER_RUN = 0x400"
definition AIPU_DUMP_MAX :: u32 where "AIPU_DUMP_MAX = 0x800"

text \<open>The files that the dump options ask for are not part of the state.\<close>

definition flush_job :: "device_ctrl \<Rightarrow> u32 \<Rightarrow> graph \<Rightarrow> proc \<Rightarrow> (aipu_status \<times> graph \<times> proc) option" where
  "flush_job c jid g p =
     (case get_job_ptr g jid of
        None \<Rightarrow> Some (AIPU_STATUS_ERROR_JOB_NOT_EXIST, g, p)
      | Some job \<Rightarrow>
          if jd_state job \<noteq> JOB_STATE_BUILT then Some (AIPU_STATUS_ERROR_JOB_SCHED, g, p)
          else do {
            let job1 = (if jd_dump_flag job AND AIPU_DUMP_DRV_PROF_DATA \<noteq> 0
                        then job\<lparr>jd_config := (jd_config job)\<lparr>cf_enable_prof := 1\<rparr>\<rparr> else job);
            let job2 = job1\<lparr>jd_state := JOB_STATE_SCHED\<rparr>;
            (ret, job3, p1) \<leftarrow> schedule_job_on_aipu c job2 p;
            let g1 = put_job jid (\<lambda>_. job3) (g\<lparr>gr_sched := gr_sched g @ [jd_id job]\<rparr>);
            Some (ret, if ret \<noteq> AIPU_STATUS_SUCCESS then delete_from_sched_queue_inner jid g1 else g1, p1)
          })"

subsection \<open>The end of a job\<close>

definition update_job_status_desc :: "job_status_desc \<Rightarrow> graph \<Rightarrow> aipu_status \<times> graph" where
  "update_job_status_desc st g =
     (case get_job_ptr g (js_job_id st) of
        None \<Rightarrow> (AIPU_STATUS_ERROR_JOB_NOT_EXIST, g)
      | Some _ \<Rightarrow> (AIPU_STATUS_SUCCESS,
          put_job (js_job_id st) (\<lambda>j. j\<lparr>jd_state := js_state st, jd_pdata := js_pdata st\<rparr>) g))"

definition update_job_status :: "u32 \<Rightarrow> u32 \<Rightarrow> graph \<Rightarrow> aipu_status \<times> graph" where
  "update_job_status jid st g =
     (case get_job_ptr g jid of
        None \<Rightarrow> (AIPU_STATUS_ERROR_JOB_NOT_EXIST, g)
      | Some _ \<Rightarrow> (AIPU_STATUS_SUCCESS, put_job jid (\<lambda>j. j\<lparr>jd_state := st\<rparr>) g))"

text \<open>The status that the caller gets, when it is written.\<close>

definition get_job_status :: "graph \<Rightarrow> u32 \<Rightarrow> aipu_status \<times> u32 option" where
  "get_job_status g jid =
     (case get_job_ptr g jid of
        None \<Rightarrow> (AIPU_STATUS_ERROR_JOB_NOT_EXIST, None)
      | Some j \<Rightarrow>
          if jd_state j = JOB_STATE_DONE then (AIPU_STATUS_SUCCESS, Some (jd_state j))
          else if jd_state j = JOB_STATE_EXCEPTION then (AIPU_STATUS_ERROR_JOB_EXCEPTION, Some (jd_state j))
          else if jd_state j = JOB_STATE_TIMEOUT then (AIPU_STATUS_ERROR_JOB_TIMEOUT, Some AIPU_JOB_STATUS_NO_STATUS)
          else (AIPU_STATUS_SUCCESS, Some AIPU_JOB_STATUS_NO_STATUS))"

definition clean_job :: "u32 \<Rightarrow> graph \<Rightarrow> aipu_status \<times> graph" where
  "clean_job jid g =
     (case get_job_ptr g jid of
        None \<Rightarrow> (AIPU_STATUS_ERROR_JOB_NOT_EXIST, g)
      | Some job \<Rightarrow>
          if jd_state job = JOB_STATE_BUILT then (AIPU_STATUS_ERROR_JOB_NOT_SCHED, g)
          else if jd_state job = JOB_STATE_SCHED then (AIPU_STATUS_ERROR_JOB_NOT_END, g)
          else
            let g1 = put_tbuf (jd_buf_handle job) (\<lambda>t. t\<lparr>tb_is_free := True\<rparr>) g;
                g2 = delete_from_sched_queue_inner jid g1
            in (AIPU_STATUS_SUCCESS, g2\<lparr>gr_jobs := omap_erase (jd_id job) (gr_jobs g2)\<rparr>))"

record aipu_dump_option =
  do_dir :: "string option"
  do_flag :: u32
  do_fname_suffix :: "string option"

text \<open>\<open>ue_access\<close> is what \<open>access\<close> says of the directory.\<close>

definition set_dump_options :: "u32 \<Rightarrow> aipu_dump_option option \<Rightarrow> graph \<Rightarrow> proc \<Rightarrow> aipu_status \<times> graph \<times> proc" where
  "set_dump_options jid option g p =
     (case get_job_ptr g jid of
        None \<Rightarrow> (AIPU_STATUS_ERROR_JOB_NOT_EXIST, g, p)
      | Some job \<Rightarrow>
          (case option of
             None \<Rightarrow> (AIPU_STATUS_ERROR_NULL_PTR, g, p)
           | Some opt \<Rightarrow>
               if jd_state job \<noteq> JOB_STATE_BUILT then (AIPU_STATUS_ERROR_JOB_SCHED, g, p)
               else if AIPU_DUMP_MAX \<le> do_flag opt \<or>
                       do_flag opt AND (AIPU_DUMP_BEFORE_RUN OR AIPU_DUMP_AFTER_RUN OR AIPU_DUMP_MEM_MAP OR
                         AIPU_DUMP_DRV_PROF_DATA) = 0 \<or>
                       do_flag opt = AIPU_DUMP_BEFORE_RUN OR AIPU_DUMP_OUT_TENSOR \<or>
                       do_flag opt AND (AIPU_DUMP_BEFORE_RUN - 1) = 0
               then (AIPU_STATUS_ERROR_INVALID_OPTIONS, g, p)
               else
                 let g1 = put_job jid (\<lambda>j. j\<lparr>jd_dump_flag := do_flag opt,
                        jd_dump_fname_suffix := (case do_fname_suffix opt of None \<Rightarrow> ''Default'' | Some f \<Rightarrow> f),
                        jd_dump_dir := (case do_dir opt of None \<Rightarrow> ''.'' | Some d \<Rightarrow> d)\<rparr>) g
                 in if ue_access (env_now p) \<noteq> 0 then (AIPU_STATUS_ERROR_INVALID_PATH, g1, next_call p)
                    else (AIPU_STATUS_SUCCESS, g1, next_call p)))"

text \<open>Instruction base, start and interrupt addresses of a job as the host sees them.\<close>

definition get_debug_info :: "device_ctrl \<Rightarrow> graph \<Rightarrow> u32 \<Rightarrow> aipu_status \<times> (u64 \<times> u64 \<times> u64) option" where
  "get_debug_info c g jid =
     (case get_job_ptr g jid of
        None \<Rightarrow> (AIPU_STATUS_ERROR_JOB_NOT_EXIST, None)
      | Some job \<Rightarrow> (AIPU_STATUS_SUCCESS,
          Some (dev2host c (cf_instruction_base_pa (jd_config job)), dev2host c (cf_start_pc_pa (jd_config job)),
                dev2host c (cf_interrupt_pc_pa (jd_config job)))))"

end
