(* ===== verification/UmdContext.thy ===== *)
theory UmdContext
  imports UmdGraph
begin

text \<open>
  The context of the user-mode driver (\<open>context/context.cpp\<close>): the table of graphs, the
  dispatch of each call to the graph that its identifier names, waiting for jobs and polling.
  The checks of \<open>standard_api_impl.cpp\<close> for null pointers come before these functions, so the
  pointers they get are valid.
\<close>

subsection \<open>State\<close>

record aipu_runtime_config =
  poll_opt :: bool
  bypass_version_check :: bool

text \<open>The entry of a graph that is being loaded is a null pointer.\<close>

record main_context =
  mc_ctrl :: device_ctrl
  mc_graphs :: "(u32 \<times> graph option) list"
  mc_rt_cfg :: aipu_runtime_config

text \<open>The constructor sets one of the two options; the other is what the memory holds.\<close>

definition new_main_context :: "bool \<Rightarrow> main_context" where
  "new_main_context uninit = \<lparr>mc_ctrl = new_device_ctrl, mc_graphs = [],
     mc_rt_cfg = \<lparr>poll_opt = False, bypass_version_check = uninit\<rparr>\<rparr>"

definition put_graph :: "u32 \<Rightarrow> graph option \<Rightarrow> main_context \<Rightarrow> main_context" where
  "put_graph gid g m = m\<lparr>mc_graphs := omap_insert gid g (mc_graphs m)\<rparr>"

definition create_unique_graph_id_inner :: "main_context \<Rightarrow> u32 option" where
  "create_unique_graph_id_inner m = first_free_id (\<lambda>i. map_of (mc_graphs m) i \<noteq> None) 1"

definition get_graph_object :: "main_context \<Rightarrow> u32 \<Rightarrow> graph option" where
  "get_graph_object m gid = (case map_of (mc_graphs m) gid of None \<Rightarrow> None | Some g \<Rightarrow> g)"

definition context_init :: "main_context \<Rightarrow> proc \<Rightarrow> (aipu_status \<times> main_context \<times> proc) option" where
  "context_init m p = do {
     (ret, c, p1) \<leftarrow> ctrl_init (mc_ctrl m) p;
     Some (ret, m\<lparr>mc_ctrl := c\<rparr>, p1)
   }"

definition set_runtime_config :: "aipu_runtime_config \<Rightarrow> main_context \<Rightarrow> aipu_status \<times> main_context" where
  "set_runtime_config config m = (AIPU_STATUS_SUCCESS, m\<lparr>mc_rt_cfg := config\<rparr>)"

subsection \<open>Loading and unloading\<close>

text \<open>
  When the graph cannot be loaded it is unloaded again, and what is left of it when that
  fails too is forgotten by the caller.
\<close>

definition destroy_graph_object :: "device_ctrl \<Rightarrow> graph \<Rightarrow> proc \<Rightarrow> (aipu_status \<times> graph option \<times> proc) option" where
  "destroy_graph_object c g p = do {
     (ret, g1, p1) \<leftarrow> graph_unload c g p;
     Some (ret, if ret \<noteq> AIPU_STATUS_SUCCESS then Some g1 else None, p1)
   }"

definition create_graph_object ::
  "device_ctrl \<Rightarrow> u8 list \<Rightarrow> graph_info \<Rightarrow> bool \<Rightarrow> u32 \<Rightarrow> proc \<Rightarrow> (aipu_status \<times> graph option \<times> proc) option" where
  "create_graph_object c bin info map_flag gid p = do {
     (ret, g, p1) \<leftarrow> graph_load c bin info map_flag (new_graph gid) p;
     if ret \<noteq> AIPU_STATUS_SUCCESS
     then do { (_, g', p2) \<leftarrow> destroy_graph_object c g p1; Some (ret, g', p2) }
     else Some (ret, Some g, p1)
   }"

text \<open>The descriptor that the caller gets, when the graph is loaded.\<close>

definition load_graph ::
  "u8 list \<Rightarrow> u32 \<Rightarrow> bool \<Rightarrow> main_context \<Rightarrow> proc \<Rightarrow> (aipu_status \<times> graph_desc option \<times> main_context \<times> proc) option" where
  "load_graph bin gsize map_flag m p =
     (case parse_graph (dc_target (mc_ctrl m)) (bypass_version_check (mc_rt_cfg m)) (Some bin) gsize empty_info of
        Overrun \<Rightarrow> None
      | Fail st \<Rightarrow> Some (st, None, m, p)
      | Ok info \<Rightarrow> do {
          gid \<leftarrow> create_unique_graph_id_inner m;
          let m1 = put_graph gid None m;
          (ret, g, p1) \<leftarrow> create_graph_object (mc_ctrl m1) bin info map_flag gid p;
          if ret \<noteq> AIPU_STATUS_SUCCESS then Some (ret, None, m1\<lparr>mc_graphs := omap_erase gid (mc_graphs m1)\<rparr>, p1)
          else Some (ret, map_option gr_gdesc g, put_graph gid g m1, p1)
        })"

definition unload_graph :: "u32 \<Rightarrow> main_context \<Rightarrow> proc \<Rightarrow> (aipu_status \<times> main_context \<times> proc) option" where
  "unload_graph gid m p =
     (case get_graph_object m gid of
        None \<Rightarrow> Some (AIPU_STATUS_ERROR_GRAPH_NOT_EXIST, m, p)
      | Some g \<Rightarrow> do {
          (ret, g', p1) \<leftarrow> destroy_graph_object (mc_ctrl m) g p;
          if ret \<noteq> AIPU_STATUS_SUCCESS then Some (ret, put_graph gid g' m, p1)
          else Some (ret, m\<lparr>mc_graphs := omap_erase gid (mc_graphs m)\<rparr>, p1)
        })"

text \<open>A null pointer in the table is dereferenced.\<close>

fun is_deinit_ok_loop :: "(u32 \<times> graph option) list \<Rightarrow> bool option" where
  "is_deinit_ok_loop [] = Some True"
| "is_deinit_ok_loop ((_, None) # gs) = None"
| "is_deinit_ok_loop ((_, Some g) # gs) = (if is_unload_ok g then is_deinit_ok_loop gs else Some False)"

definition is_deinit_ok :: "main_context \<Rightarrow> bool option" where
  "is_deinit_ok m = is_deinit_ok_loop (mc_graphs m)"

fun unload_all :: "device_ctrl \<Rightarrow> (u32 \<times> graph option) list \<Rightarrow> proc \<Rightarrow> proc option" where
  "unload_all c [] p = Some p"
| "unload_all c ((_, None) # gs) p = None"
| "unload_all c ((_, Some g) # gs) p = do { (_, _, p1) \<leftarrow> graph_unload c g p; unload_all c gs p1 }"

definition force_deinit :: "main_context \<Rightarrow> proc \<Rightarrow> (main_context \<times> proc) option" where
  "force_deinit m p = do {
     p1 \<leftarrow> unload_all (mc_ctrl m) (mc_graphs m) p;
     (c, p2) \<leftarrow> ctrl_deinit (mc_ctrl m) p1;
     Some (m\<lparr>mc_graphs := [], mc_ctrl := c\<rparr>, p2)
   }"

definition context_deinit :: "main_context \<Rightarrow> proc \<Rightarrow> (aipu_status \<times> main_context \<times> proc) option" where
  "context_deinit m p = do {
     ok \<leftarrow> is_deinit_ok m;
     if \<not> ok then Some (AIPU_STATUS_ERROR_DEINIT_FAIL, m, p)
     else do { (m1, p1) \<leftarrow> force_deinit m p; Some (AIPU_STATUS_SUCCESS, m1, p1) }
   }"

subsection \<open>Buffers and jobs\<close>

definition alloc_tensor_buffers ::
  "u32 \<Rightarrow> main_context \<Rightarrow> proc \<Rightarrow> (aipu_status \<times> (u32 \<times> iobuf_info) option \<times> main_context \<times> proc) option" where
  "alloc_tensor_buffers gid m p =
     (case get_graph_object m gid of
        None \<Rightarrow> Some (AIPU_STATUS_ERROR_GRAPH_NOT_EXIST, None, m, p)
      | Some g \<Rightarrow> do {
          (ret, info, g1, p1) \<leftarrow> alloc_thread_buffer (mc_ctrl m) g p;
          Some (ret, info, put_graph gid (Some g1) m, p1)
        })"

definition free_tensor_buffers :: "u32 \<Rightarrow> main_context \<Rightarrow> proc \<Rightarrow> (aipu_status \<times> main_context \<times> proc) option" where
  "free_tensor_buffers handle m p =
     (case get_graph_object m (handle2graph_id handle) of
        None \<Rightarrow> Some (AIPU_STATUS_ERROR_INVALID_HANDLE, m, p)
      | Some g \<Rightarrow> do {
          (ret, g1, p1) \<leftarrow> free_thread_buffer (mc_ctrl m) handle g p;
          Some (ret, put_graph (handle2graph_id handle) (Some g1) m, p1)
        })"

definition create_new_job ::
  "u32 \<Rightarrow> u32 \<Rightarrow> main_context \<Rightarrow> proc \<Rightarrow> (aipu_status \<times> u32 option \<times> main_context \<times> proc) option" where
  "create_new_job gid handle m p =
     (case get_graph_object m gid of
        None \<Rightarrow> Some (AIPU_STATUS_ERROR_GRAPH_NOT_EXIST, None, m, p)
      | Some g \<Rightarrow> do {
          (ret, jid, g1, p1) \<leftarrow> build_new_job (mc_ctrl m) handle g p;
          Some (ret, jid, put_graph gid (Some g1) m, p1)
        })"

definition ctx_flush_job :: "u32 \<Rightarrow> main_context \<Rightarrow> proc \<Rightarrow> (aipu_status \<times> main_context \<times> proc) option" where
  "ctx_flush_job jid m p =
     (case get_graph_object m (job_id2graph_id jid) of
        None \<Rightarrow> Some (AIPU_STATUS_ERROR_JOB_NOT_EXIST, m, p)
      | Some g \<Rightarrow> do {
          (ret, g1, p1) \<leftarrow> flush_job (mc_ctrl m) jid g p;
          Some (ret, put_graph (job_id2graph_id jid) (Some g1) m, p1)
        })"

definition ctx_clean_job :: "u32 \<Rightarrow> main_context \<Rightarrow> aipu_status \<times> main_context" where
  "ctx_clean_job jid m =
     (case get_graph_object m (job_id2graph_id jid) of
        None \<Rightarrow> (AIPU_STATUS_ERROR_JOB_NOT_EXIST, m)
      | Some g \<Rightarrow> (let (ret, g1) = clean_job jid g in (ret, put_graph (job_id2graph_id jid) (Some g1) m)))"

definition ctx_set_dump_options ::
  "u32 \<Rightarrow> aipu_dump_option option \<Rightarrow> main_context \<Rightarrow> proc \<Rightarrow> aipu_status \<times> main_context \<times> proc" where
  "ctx_set_dump_options jid option m p =
     (case get_graph_object m (job_id2graph_id jid) of
        None \<Rightarrow> (AIPU_STATUS_ERROR_JOB_NOT_EXIST, m, p)
      | Some g \<Rightarrow> (let (ret, g1, p1) = set_dump_options jid option g p
                   in (ret, put_graph (job_id2graph_id jid) (Some g1) m, p1)))"

definition ctx_get_debug_info :: "u32 \<Rightarrow> main_context \<Rightarrow> aipu_status \<times> (u64 \<times> u64 \<times> u64) option" where
  "ctx_get_debug_info jid m =
     (case get_graph_object m (job_id2graph_id jid) of
        None \<Rightarrow> (AIPU_STATUS_ERROR_JOB_NOT_EXIST, None)
      | Some g \<Rightarrow> get_debug_info (mc_ctrl m) g jid)"

definition ctx_get_dev_status :: "main_context \<Rightarrow> u32 \<Rightarrow> proc \<Rightarrow> (aipu_status \<times> u32 \<times> proc) option" where
  "ctx_get_dev_status m value p = get_dev_status (mc_ctrl m) value p"

subsection \<open>Waiting for a job\<close>

text \<open>
  \<open>others\<close>: what the other threads do to the graph while this one sleeps on the condition of
  its job, from one wake-up to the next. Without a timeout the thread sleeps until the job
  has ended; with one it sleeps once.
\<close>

fun cond_wait :: "u32 \<Rightarrow> (graph \<Rightarrow> graph) list \<Rightarrow> graph \<Rightarrow> graph option" where
  "cond_wait jid [] g = (if is_job_end_inner g jid then Some g else None)"
| "cond_wait jid (w # ws) g = (if is_job_end_inner g jid then Some g else cond_wait jid ws (w g))"

definition wait_for_job_end_sleep ::
  "device_ctrl \<Rightarrow> (graph \<Rightarrow> graph) list \<Rightarrow> u32 \<Rightarrow> int \<Rightarrow> graph \<Rightarrow> proc \<Rightarrow> (aipu_status \<times> u32 \<times> graph \<times> proc) option" where
  "wait_for_job_end_sleep c others jid time_out g p =
     (case get_job_ptr g jid of
        None \<Rightarrow> Some (AIPU_STATUS_ERROR_JOB_NOT_EXIST, JOB_STATE_NO_STATE, g, p)
      | Some job \<Rightarrow>
          if jd_state job = JOB_STATE_BUILT \<or> jd_state job = JOB_STATE_TIMEOUT
          then Some (AIPU_STATUS_ERROR_JOB_NOT_SCHED, JOB_STATE_NO_STATE, g, p)
          else do {
            g1 \<leftarrow> (if time_out \<le> 0 then cond_wait jid others g
                   else Some (case others of [] \<Rightarrow> g | w # _ \<Rightarrow> w g));
            job1 \<leftarrow> get_job_ptr g1 jid;
            if jd_state job1 = JOB_STATE_DONE then Some (AIPU_STATUS_SUCCESS, jd_state job1, g1, p)
            else if jd_state job1 = JOB_STATE_EXCEPTION then Some (AIPU_STATUS_ERROR_JOB_EXCEPTION, jd_state job1, g1, p)
            else do {
              (_, p1) \<leftarrow> kill_timeout_job c jid p;
              Some (AIPU_STATUS_ERROR_JOB_TIMEOUT, JOB_STATE_TIMEOUT, put_job jid (\<lambda>j. j\<lparr>jd_state := JOB_STATE_TIMEOUT\<rparr>) g1, p1)
            }
          })"

text \<open>The second component is what the call leaves in \<open>*status\<close>.\<close>

definition wait_for_job_end ::
  "(graph \<Rightarrow> graph) list \<Rightarrow> u32 \<Rightarrow> int \<Rightarrow> u32 \<Rightarrow> main_context \<Rightarrow> proc \<Rightarrow> (aipu_status \<times> u32 \<times> main_context \<times> proc) option" where
  "wait_for_job_end others jid time_out0 status m p =
     (let time_out = (if time_out0 \<le> 0 then -1 else time_out0); gid = job_id2graph_id jid
      in case get_graph_object m gid of
           None \<Rightarrow> Some (AIPU_STATUS_ERROR_JOB_NOT_EXIST, AIPU_JOB_STATUS_NO_STATUS, m, p)
         | Some g \<Rightarrow>
             if is_job_sched g jid \<noteq> AIPU_STATUS_SUCCESS then Some (is_job_sched g jid, AIPU_JOB_STATUS_NO_STATUS, m, p)
             else if is_job_end g jid
             then (let (ret, st) = get_job_status g jid
                   in Some (ret, if ret \<noteq> AIPU_STATUS_SUCCESS then AIPU_JOB_STATUS_NO_STATUS
                                 else (case st of None \<Rightarrow> status | Some x \<Rightarrow> x), m, p))
             else if poll_opt (mc_rt_cfg m)
             then do {
               (ret, st, g1, p1) \<leftarrow> wait_for_job_end_sleep (mc_ctrl m) others jid time_out g p;
               Some (ret, if ret \<noteq> AIPU_STATUS_SUCCESS then AIPU_JOB_STATUS_NO_STATUS else st, put_graph gid (Some g1) m, p1)
             }
             else do {
               (ret, jobs_status, p1) \<leftarrow> poll_status (mc_ctrl m) 1 time_out True jid p;
               if ret \<noteq> AIPU_STATUS_SUCCESS then Some (ret, AIPU_JOB_STATUS_NO_STATUS, m, p1)
               else
                 (case jobs_status of
                    [] \<Rightarrow> do {
                      (_, p2) \<leftarrow> kill_timeout_job (mc_ctrl m) jid p1;
                      Some (AIPU_STATUS_ERROR_JOB_TIMEOUT, AIPU_JOB_STATUS_NO_STATUS,
                        put_graph gid (Some (snd (update_job_status jid JOB_STATE_TIMEOUT g))) m, p2)
                    }
                  | js # _ \<Rightarrow>
                      (let (ret, g1) = update_job_status_desc js g
                       in Some (ret, if ret \<noteq> AIPU_STATUS_SUCCESS then AIPU_JOB_STATUS_NO_STATUS else js_state js,
                            put_graph gid (Some g1) m, p1)))
             })"

subsection \<open>Polling\<close>

definition get_max_poll_job_cnt :: "main_context \<Rightarrow> u32" where
  "get_max_poll_job_cnt m =
     foldl (\<lambda>cnt (_, g). case g of None \<Rightarrow> cnt | Some gr \<Rightarrow> cnt + get_sched_job_cnt gr) 1 (mc_graphs m)"

fun update_jobs :: "job_status_desc list \<Rightarrow> main_context \<Rightarrow> aipu_status \<times> main_context" where
  "update_jobs [] m = (AIPU_STATUS_SUCCESS, m)"
| "update_jobs (js # jss) m =
     (case get_graph_object m (job_id2graph_id (js_job_id js)) of
        None \<Rightarrow> (AIPU_STATUS_ERROR_JOB_NOT_EXIST, m)
      | Some g \<Rightarrow>
          (let (ret, g1) = update_job_status_desc js g;
               m1 = put_graph (job_id2graph_id (js_job_id js)) (Some g1) m
           in if ret \<noteq> AIPU_STATUS_SUCCESS then (ret, m1) else update_jobs jss m1))"

text \<open>The number of ended jobs that the caller learns, when it does.\<close>

definition poll_job_status :: "int \<Rightarrow> main_context \<Rightarrow> proc \<Rightarrow> (aipu_status \<times> u32 option \<times> main_context \<times> proc) option" where
  "poll_job_status time_out0 m p = do {
     let time_out = (if time_out0 \<le> 0 then -1 else time_out0);
     (ret, jobs_status, p1) \<leftarrow> poll_status (mc_ctrl m) (get_max_poll_job_cnt m) time_out False 0 p;
     if ret \<noteq> AIPU_STATUS_SUCCESS then Some (ret, None, m, p1)
     else (let (ret, m1) = update_jobs jobs_status m
           in Some (ret, if ret = AIPU_STATUS_SUCCESS then Some (of_nat (length jobs_status)) else None, m1, p1))
   }"

end
