(* ===== verification/UmdDevSpec.thy ===== *)
theory UmdDevSpec
  imports UmdDev DriverSpec
begin

text \<open>
  The properties of the device layer: the address alignment loop, what allocation and
  release of device buffers mean for the kernel driver and the address space of the
  process, and which failures they report as success.
\<close>

subsection \<open>Aligned addresses\<close>

lemma aligned_addr_loop_sound:
  assumes "aligned_addr_loop base a n = Some r"
  shows "\<exists>m. r = m * a * 4096 \<and> \<not> m * a * 4096 < base"
  using assms
  by (rule aligned_addr_loop.raw_induct [where P = "\<lambda>base a n r. \<exists>m. r = m * a * 4096 \<and> \<not> m * a * 4096 < base", rotated])
     (auto split: if_splits)

text \<open>From \<open>n\<close> on, the first multiple that is large enough ends the loop.\<close>

lemma aligned_addr_loop_first:
  assumes "\<forall>i < k. (n + of_nat i) * a * 4096 < base" "\<not> (n + of_nat k) * a * 4096 < base"
  shows "aligned_addr_loop base a n = Some ((n + of_nat k) * a * 4096)"
  using assms
proof (induction k arbitrary: n)
  case 0
  then show ?case by (simp add: aligned_addr_loop.simps)
next
  case (Suc k)
  have "n * a * 4096 < base" using Suc.prems(1) by (metis add.right_neutral semiring_1_class.of_nat_0 zero_less_Suc)
  moreover have "aligned_addr_loop base a (n + 1) = Some ((n + 1 + of_nat k) * a * 4096)"
  proof (rule Suc.IH)
    show "\<forall>i < k. (n + 1 + of_nat i) * a * 4096 < base"
    proof (intro allI impI)
      fix i assume "i < k"
      then have "(n + of_nat (Suc i)) * a * 4096 < base" using Suc.prems(1) by blast
      then show "(n + 1 + of_nat i) * a * 4096 < base" by (simp add: add.assoc)
    qed
    show "\<not> (n + 1 + of_nat k) * a * 4096 < base" using Suc.prems(2) by (simp add: add.assoc)
  qed
  ultimately show ?case by (simp add: aligned_addr_loop.simps [of base a n] add.assoc)
qed

text \<open>When the alignment loop ends. It returns exactly when some 32-bit multiple of the alignment reaches
  the base address.\<close>

theorem get_aligned_addr_returns:
  "get_aligned_addr base a \<noteq> None \<longleftrightarrow> (\<exists>n. base \<le> n * a * 4096)"
proof
  assume "get_aligned_addr base a \<noteq> None"
  then obtain r where "aligned_addr_loop base a 0 = Some r" by (auto simp: get_aligned_addr_def)
  from aligned_addr_loop_sound [OF this] show "\<exists>n. base \<le> n * a * 4096" by (auto simp: not_less)
next
  assume "\<exists>n. base \<le> n * a * 4096"
  then obtain n where "base \<le> n * a * 4096" by blast
  then have ex: "\<exists>k. \<not> (0 + of_nat k) * a * 4096 < base" by (intro exI [of _ "unat n"]) (simp add: not_less)
  define k where "k = (LEAST k. \<not> (0 + of_nat k) * a * 4096 < base)"
  have "aligned_addr_loop base a 0 = Some ((0 + of_nat k) * a * 4096)"
  proof (rule aligned_addr_loop_first)
    show "\<forall>i < k. (0 + of_nat i) * a * 4096 < base" using not_less_Least k_def by blast
    show "\<not> (0 + of_nat k) * a * 4096 < base" unfolding k_def by (rule LeastI_ex [OF ex])
  qed
  then show "get_aligned_addr base a \<noteq> None" by (simp add: get_aligned_addr_def)
qed

lemma unat_mult_small:
  fixes n a :: u32
  assumes "unat n * (unat a * 4096) < 2 ^ 32"
  shows "unat (n * a * 4096) = unat n * (unat a * 4096)"
proof -
  define w where "w = unat n * unat a"
  have lt: "w * 4096 < 2 ^ 32" using assms by (simp only: w_def mult.assoc)
  then have "w < 2 ^ LENGTH(32)" by simp
  then have x: "unat (n * a) = w" by (simp only: unat_mult_lem w_def)
  have "unat (y * 4096) = unat y * 4096" if "unat y * 4096 < 2 ^ 32" for y :: u32
    using that by (simp add: unat_word_ariths)
  from this [of "n * a"] show ?thesis using lt by (simp only: x) (simp only: w_def mult.assoc)
qed

text \<open>The least multiple of \<open>A\<close> that is at least \<open>b\<close>.\<close>

definition align_up :: "nat \<Rightarrow> nat \<Rightarrow> nat" where
  "align_up b A = (b + A - 1) div A * A"

lemma align_up_bounds:
  assumes "0 < A"
  shows "b \<le> align_up b A" "align_up b A < b + A" "A dvd align_up b A"
proof -
  have "align_up b A + (b + A - 1) mod A = b + A - 1" unfolding align_up_def by (rule div_mult_mod_eq)
  moreover have "(b + A - 1) mod A < A" using assms by simp
  ultimately show "b \<le> align_up b A" "align_up b A < b + A" using assms by linarith+
qed (simp add: align_up_def)

lemma get_aligned_addr_least:
  assumes "a \<noteq> 0" "align_up (unat base) (unat a * 4096) < 2 ^ 32"
  shows "\<exists>r. get_aligned_addr base a = Some r \<and> unat r = align_up (unat base) (unat a * 4096)"
proof -
  let ?A = "unat a * 4096" and ?b = "unat base"
  have A: "0 < ?A" using assms(1) by (simp add: unat_gt_0)
  let ?k = "(?b + ?A - 1) div ?A"
  note up = align_up_bounds [OF A, of ?b, unfolded align_up_def]
  have "?k \<le> ?k * ?A" using A by simp
  then have k: "?k < 2 ^ 32" using assms(2) unfolding align_up_def by linarith
  have u: "unat (of_nat i :: u32) = i" if "i \<le> ?k" for i
  proof -
    have "i < 2 ^ LENGTH(32)" using that k by simp
    then show ?thesis by (simp add: unat_of_nat take_bit_nat_eq_self)
  qed
  have m: "unat (of_nat i * a * 4096) = i * ?A" if "i \<le> ?k" for i
  proof -
    have "i * ?A \<le> ?k * ?A" using that by (rule mult_le_mono1)
    then have "i * ?A < 2 ^ 32" using assms(2) unfolding align_up_def by linarith
    then show ?thesis using unat_mult_small [of "of_nat i" a] by (simp add: u [OF that])
  qed
  have "aligned_addr_loop base a 0 = Some ((0 + of_nat ?k) * a * 4096)"
  proof (rule aligned_addr_loop_first)
    show "\<forall>i < ?k. (0 + of_nat i) * a * 4096 < base"
    proof (intro allI impI)
      fix i assume i: "i < ?k"
      then have "(i + 1) * ?A \<le> ?k * ?A" by (intro mult_le_mono1) simp
      then have "i * ?A + ?A < ?b + ?A" using up(2) by (simp only: add_mult_distrib mult_1)
      then have "i * ?A < ?b" by simp
      then show "(0 + of_nat i) * a * 4096 < base" using m [of i] i by (simp add: word_less_nat_alt)
    qed
    show "\<not> (0 + of_nat ?k) * a * 4096 < base" using m [of ?k] up(1) by (simp add: word_less_nat_alt)
  qed
  moreover have "unat (of_nat ?k * a * 4096) = ?k * ?A" by (rule m) simp
  ultimately show ?thesis by (simp add: get_aligned_addr_def align_up_def)
qed

subsection \<open>What a request for a buffer does to the driver\<close>

lemma granted_size:
  assumes "0 < unat (get_alloc_size r n)" "0 < unat n" "unat n \<le> 2 ^ 62"
  shows "4096 dvd unat (get_alloc_size r n)" "unat n \<le> unat (get_alloc_size r n)"
    "unat (get_alloc_size r n) \<le> 2 * unat n + 4096"
proof -
  have n: "unat n \<le> 2 ^ 63" using assms(3) by simp
  note b = get_alloc_size_bounds [OF assms(2) n, of r]
  have nz: "n \<noteq> 0" using assms(2) by auto
  consider "rg_flag r = AIPU_ALLOC_FLAG_COMPACT" | "rg_flag r = AIPU_ALLOC_FLAG_STRICT"
    using assms(1) nz by (cases "rg_flag r") (auto simp: get_alloc_size_def)
  then have "4096 dvd unat (get_alloc_size r n) \<and> unat n \<le> unat (get_alloc_size r n) \<and>
      unat (get_alloc_size r n) \<le> 2 * unat n + 4096"
  proof cases
    case 1
    then show ?thesis using b by linarith
  next
    case 2
    then obtain k where k: "12 \<le> k" "unat (get_alloc_size r n) = 2 ^ k" using b by blast
    then have "(4096 :: nat) dvd 2 ^ k" using le_imp_power_dvd [of 12 k "2 :: nat"] by simp
    moreover have "unat (get_alloc_size r n) \<le> 2 * unat n + 4096"
    proof (cases "unat n = 1")
      case True
      then have "n = 1" by (simp add: word_eq_unat)
      then show ?thesis using 2
        by (simp add: get_alloc_size_def roundup_pow_of_two_def fls64_def max_def word_le_nat_alt floorlog_def)
    next
      case False
      then obtain i where i: "i \<le> 63" "roundup_pow_of_two n = 2 ^ i" "2 ^ i < 2 * unat n"
        using roundup_pow2_bounds [of n] assms(2) n by fastforce
      have "unat (2 ^ i :: u64) = 2 ^ i" using i(1) by (intro unat_exp_u64) simp
      then show ?thesis using i(2,3) 2 nz by (simp add: get_alloc_size_def max_def)
    qed
    ultimately show ?thesis using b 2 k(2) by simp
  qed
  then show "4096 dvd unat (get_alloc_size r n)" "unat n \<le> unat (get_alloc_size r n)"
    "unat (get_alloc_size r n) \<le> 2 * unat n + 4096" by blast+
qed

text \<open>What the kernel answers when none of its own services fails.\<close>

definition kernel_ok :: "kenv \<Rightarrow> bool" where
  "kernel_ok e \<longleftrightarrow> no_kzalloc_failure e \<and> cfu_left e = 0 \<and> ctu_left e = 0"

lemma ioctl_reqbuf_effect:
  assumes ok: "driver_ok s" and st: "h_sess (hp s) sp = Some st" and sane: "sane_request req (mm (priv s))"
    and e: "kernel_ok e" and req: "br_bytes req \<noteq> 0" "unat (br_bytes req) \<le> 2 ^ 62" "br_align_in_page req \<noteq> 0"
      "ddr_cnt (mm (priv s)) \<noteq> 0"
  shows "\<exists>ret s' req' st'. aipu_ioctl e s sp (IPUIOC_REQBUF req) = Some (ret, s', IPUIOC_REQBUF req') \<and> driver_ok s' \<and>
    h_sess (hp s') sp = Some st' \<and>
    (br_errcode req' \<noteq> 0 \<and> sbuf_list st' = sbuf_list st \<or>
     ret = 0 \<and> br_errcode req' = 0 \<and> br_bytes req' = br_bytes req \<and>
     (\<exists>b d. sbuf_list st' = b # sbuf_list st \<and> br_desc req' = d \<and> sb_map_num b = 0 \<and> sb_dev_offset b = bd_pa d \<and>
        bd_dev_offset d = bd_pa d \<and> ab_pa (sb_desc b) = bd_pa d \<and> ab_bytes (sb_desc b) = bd_bytes d \<and>
        sb_type b \<in> {0, 1, 2} \<and> 4096 dvd unat (bd_bytes d) \<and> unat (br_bytes req) \<le> unat (bd_bytes d) \<and>
        unat (bd_bytes d) \<le> 2 * unat (br_bytes req) + 4096 \<and>
        (\<forall>x \<in> mm_live (mm (priv s)). apart x (unat (bd_pa d), unat (bd_bytes d)))))"
proof -
  have sp: "sp \<noteq> 0" by (rule session_null [OF driver_okD(4) [OF ok] st])
  have kz: "no_kzalloc_failure e" "cfu_left e = 0" "ctu_left e = 0" using e by (simp_all add: kernel_ok_def)
  obtain s1 where d: "map_option (fst \<circ> snd) (ioctl_reqbuf e s sp req) = Some s1" "driver_ok s1"
    using reqbuf_delivers [OF ok st sane kz(1)] by (auto simp: delivers_def)
  have io: "aipu_ioctl e s sp (IPUIOC_REQBUF req) = ioctl_reqbuf e s sp req"
    using sp kz(2) by (simp add: aipu_ioctl_def errcode_defs)
  obtain ret m q b where a: "aipu_mm_alloc e (mm (priv s)) req zero_buffer = Some (ret, m, q, b)"
    using mm_alloc_total [OF kz(1)] by blast
  obtain ddr' q1 where q: "q = (if ret = 0 then q1 else q1\<lparr>br_errcode := AIPU_ERRCODE_NO_MEMORY\<rparr>)"
    by (rule mm_alloc_ddr [OF a req(1,3)]) (use req(4) in auto)
  show ?thesis
  proof (cases "ret = 0")
    case False
    then have "ioctl_reqbuf e s sp req = Some (ret, put_mm m s, IPUIOC_REQBUF q)"
      by (simp add: ioctl_reqbuf_def a errcode_defs merge_copy_def to_user_def kz(3))
    then show ?thesis using d st q False by (auto simp: io errcode_defs)
  next
    case True
    note a0 = a [unfolded True]
    note al = mm_alloc_regions [OF driver_okD(2) [OF ok] sane a0]
    obtain r r' where o: "alloc_outcome r req r' q b" using mm_alloc_effect [OF driver_okD(2) [OF ok] sane a0] by blast
    then have b: "ab_bytes b = get_alloc_size r (br_bytes req)" "ab_type b = mem_type_num (rg_type r)"
      "q = req\<lparr>br_errcode := AIPU_ERRCODE_NO_ERROR\<rparr>" by (simp_all add: alloc_outcome_def)
    have p: "0 < unat (get_alloc_size r (br_bytes req))" "0 < unat (br_bytes req)"
      using al(3) req(1) by (simp_all add: b(1) unat_gt_0)
    note sz = granted_size [OF p req(2), folded b(1)]
    have ty: "ab_type b \<in> {0, 1, 2}" by (cases "rg_type r") (simp_all add: b(2))
    obtain r1 st' q' where ab: "aipu_session_add_buf e st q b = (r1, st', q')" by (metis surj_pair)
    have res: "ioctl_reqbuf e s sp req = Some (merge_copy e r1, put_hp (put_session sp st' (hp s)) (put_mm m s), IPUIOC_REQBUF q')"
      using True by (simp add: ioctl_reqbuf_def a errcode_defs st ab to_user_def kz(3))
    have s1: "s1 = put_hp (put_session sp st' (hp s)) (put_mm m s)" using d(1) res by simp
    have "h_sess (hp s1) sp = Some st'" by (simp add: s1)
    moreover have "br_errcode q' \<noteq> 0 \<and> sbuf_list st' = sbuf_list st \<or> r1 = 0 \<and> br_errcode q' = 0 \<and> br_bytes q' = br_bytes req \<and>
        sbuf_list st' = init_session_buf (Some b) (ab_pa b) # sbuf_list st \<and> bd_pa (br_desc q') = ab_pa b \<and>
        bd_dev_offset (br_desc q') = ab_pa b \<and> bd_bytes (br_desc q') = ab_bytes b"
      using ab b(3) by (auto simp: aipu_session_add_buf_def create_session_buf_def errcode_defs split: if_splits)
    ultimately show ?thesis using d(2) res s1 sz ty al(4)
      by (auto simp: io merge_copy_def kz(3) errcode_defs init_session_buf_def)
  qed
qed

lemma page_up_id:
  assumes "4096 dvd unat n" "unat n < 2 ^ 63"
  shows "page_up n = n"
proof -
  have p: "PAGE_SIZE = 2 ^ 12" by (simp add: PAGE_SIZE_def)
  have e: "page_up n = ALIGN n PAGE_SIZE" by (simp add: page_up_def ALIGN_def PAGE_SIZE_def)
  have d: "4096 dvd unat (page_up n)" using ALIGN_pow2_dvd [of 12 n] unfolding e p by simp
  have nw: "unat n + unat (PAGE_SIZE - 1) < 2 ^ 64" using assms by (simp add: PAGE_SIZE_def)
  have b: "unat n \<le> unat (page_up n)" "unat (page_up n) < unat n + 4096"
    using ALIGN_bounds [OF nw] unfolding e by (simp_all add: PAGE_SIZE_def)
  obtain i k where "unat n = 4096 * i" "unat (page_up n) = 4096 * k" using assms(1) d by (auto elim!: dvdE)
  then show ?thesis using b by (simp add: word_eq_unat)
qed

lemma scast_ucast_small:
  fixes n :: u64
  assumes "unat n < 2 ^ 31"
  shows "(scast (ucast n :: 32 word) :: u64) = n"
proof -
  have "unat (take_bit 31 n) = unat n" using assms by (simp add: unsigned_take_bit_eq take_bit_nat_eq_self)
  then have t: "take_bit 31 n = n" by (simp add: word_eq_unat)
  have "\<not> bit n i" if "31 \<le> i" for i
    using that by (subst t [symmetric]) (simp add: bit_take_bit_iff)
  then show ?thesis
    by (intro bit_word_eqI) (auto simp: bit_simps min_def not_less)
qed

lemma page_aligned_id:
  fixes off :: u64
  assumes "off AND 4095 = 0"
  shows "push_bit PAGE_SHIFT (drop_bit PAGE_SHIFT off) = off" "off div PAGE_SIZE * PAGE_SIZE = off"
proof -
  have "take_bit 12 off = 0" using assms by (simp add: take_bit_eq_mask mask_numeral)
  then have d: "push_bit 12 (drop_bit 12 off) = off" using bits_ident [of 12 off] by simp
  then show "push_bit PAGE_SHIFT (drop_bit PAGE_SHIFT off) = off" by (simp add: PAGE_SHIFT_def)
  show "off div PAGE_SIZE * PAGE_SIZE = off"
    using d by (simp add: PAGE_SIZE_def drop_bit_eq_div push_bit_eq_mult)
qed

text \<open>A process with an open file: its session.\<close>

definition open_session :: "proc \<Rightarrow> int \<Rightarrow> ptr \<Rightarrow> aipu_session \<Rightarrow> bool" where
  "open_session p fd sp st \<longleftrightarrow> driver_ok (px_sys p) \<and> px_files p fd = Some sp \<and> h_sess (hp (px_sys p)) sp = Some st"

lemma open_session_next: "open_session (next_call p) fd sp st = open_session p fd sp st"
  by (simp add: open_session_def next_call_def)

text \<open>The buffer that was requested last can be mapped, and a map changes only the address space.\<close>

lemma sys_mmap_effect:
  assumes os: "open_session p fd sp st" and b: "sbuf_list st = b # bs" "sb_map_num b = 0" "sb_dev_offset b = off"
      "ab_pa (sb_desc b) = off" "ab_bytes (sb_desc b) = n" "sb_type b \<in> {0, 1, 2}"
    and n: "4096 dvd unat n" "0 < unat n" "unat n < 2 ^ 31"
  shows "\<exists>r p' st'. sys_mmap fd n off p = Some (r, p') \<and> open_session p' fd sp st' \<and>
    map sbuf_range (sbuf_list st') = map sbuf_range (sbuf_list st) \<and> mm (priv (px_sys p')) = mm (priv (px_sys p)) \<and>
    px_env p' = px_env p \<and> px_calls p' = Suc (px_calls p) \<and>
    (r = None \<and> px_map p' = px_map p \<or>
     (\<exists>a. r = Some a \<and> ue_map (env_now p) = Some a \<and> px_map p' = map_range a (unat n) (unat off) (px_map p)))"
proof (cases "ue_map (env_now p) = None \<or> off AND 4095 \<noteq> 0")
  case True
  then have "sys_mmap fd n off p = Some (None, next_call p)"
    using os by (auto simp: sys_mmap_def open_session_def Let_def split: option.splits)
  moreover have "open_session (next_call p) fd sp st" using os by (simp add: open_session_next)
  ultimately show ?thesis by (intro exI [of _ None] exI [of _ "next_call p"] exI [of _ st]) (simp add: next_call_def)
next
  case False
  then obtain a where a: "ue_map (env_now p) = Some a" and al: "off AND 4095 = 0" by auto
  note o = os [unfolded open_session_def]
  note pa = page_aligned_id [OF al]
  let ?e = "ue_kernel (env_now p)" and ?s = "px_sys p"
  let ?vma = "\<lparr>vm_start = of_nat a, vm_end = of_nat a + n, vm_pgoff = off div PAGE_SIZE\<rparr>"
  have up: "page_up n = n" by (rule page_up_id) (use n in simp_all)
  have nz: "n \<noteq> 0" using n(2) by auto
  have sp: "sp \<noteq> 0" using session_null driver_okD(4) o by blast
  have fi: "find_buffer_byoffset_no_lock st off (ucast n) = Some 0"
    by (simp add: find_buffer_byoffset_no_lock_def b scast_ucast_small [OF n(3)])
  obtain ret st' m where r: "aipu_session_mmap_buf ?e st ?vma = (ret, st', m)" by (metis surj_pair)
  have ty: "sb_type b = 0 \<or> sb_type b = 1 \<or> sb_type b = 2" using b(6) by simp
  have m: "ret = 0 \<Longrightarrow> m = Some (off, n)"
    using r ty by (auto simp: aipu_session_mmap_buf_def pa Let_def fi b split: if_splits)
  note mr = mmap_ranges [OF r]
  have am: "aipu_mmap ?e ?s sp ?vma = Some (ret, put_hp (put_session sp st' (hp ?s)) ?s, m)"
    using o sp by (simp add: aipu_mmap_def r)
  then obtain s' where s': "s' = put_hp (put_session sp st' (hp ?s)) ?s" "driver_ok s'"
    using mmap_delivers [of ?s sp st ?e ?vma] o by (auto simp: delivers_def)
  have st': "h_sess (hp s') sp = Some st'" "mm (priv s') = mm (priv ?s)" by (simp_all add: s'(1))
  let ?p1 = "(next_call p)\<lparr>px_sys := s'\<rparr>"
  have res: "sys_mmap fd n off p = Some (if ret \<noteq> 0 then (None, ?p1)
      else (Some a, ?p1\<lparr>px_map := map_range a (unat n) (unat off) (px_map p)\<rparr>))"
    using o a al nz m am unfolding sys_mmap_def by (simp add: up s'(1) Let_def split: option.splits)
  show ?thesis
  proof (cases "ret = 0")
    case True
    then show ?thesis using res o s'(2) st' mr(1) a
      by (intro exI [of _ "Some a"] exI [of _ "?p1\<lparr>px_map := map_range a (unat n) (unat off) (px_map p)\<rparr>"] exI [of _ st'])
        (simp add: open_session_def next_call_def)
  next
    case False
    then show ?thesis using res o s'(2) st' mr(1)
      by (intro exI [of _ None] exI [of _ ?p1] exI [of _ st']) (simp add: open_session_def next_call_def)
  qed
qed

subsection \<open>The buffers of a process\<close>

definition va_range :: "buffer_desc \<Rightarrow> nat \<times> nat" where
  "va_range b = (bu_va b, unat (bu_size b))"

definition pa_range :: "buffer_desc \<Rightarrow> nat \<times> nat" where
  "pa_range b = (unat (bu_pa b), unat (bu_size b))"

definition buf_apart :: "buffer_desc \<Rightarrow> buffer_desc \<Rightarrow> bool" where
  "buf_apart x y \<longleftrightarrow> apart (va_range x) (va_range y) \<and> apart (pa_range x) (pa_range y)"

text \<open>Every byte of the buffer is mapped to its physical address.\<close>

definition buf_mapped :: "proc \<Rightarrow> buffer_desc \<Rightarrow> bool" where
  "buf_mapped p b \<longleftrightarrow> bu_va b \<noteq> 0 \<and> 0 < unat (bu_size b) \<and> 4096 dvd unat (bu_size b) \<and> unat (bu_size b) < 2 ^ 31 \<and>
     (\<forall>i < unat (bu_size b). px_map p (bu_va b + i) = Some (unat (bu_pa b) + i))"

text \<open>
  What a service of device buffers is, without driver, addresses and maps: a set of buffers
  that lie apart; an allocation adds one that is new, large enough and apart from all
  others, or refuses; a release takes one away.
\<close>

definition spec_malloc :: "nat \<Rightarrow> buffer_desc set \<Rightarrow> aipu_status \<Rightarrow> buffer_desc \<Rightarrow> buffer_desc set \<Rightarrow> bool" where
  "spec_malloc n A st b A' \<longleftrightarrow>
     st = AIPU_STATUS_SUCCESS \<and> A' = insert b A \<and> n \<le> unat (bu_size b) \<and> (\<forall>x \<in> A. buf_apart x b) \<or>
     st \<noteq> AIPU_STATUS_SUCCESS \<and> A' = A"

definition spec_free :: "buffer_desc \<Rightarrow> buffer_desc set \<Rightarrow> aipu_status \<Rightarrow> buffer_desc set \<Rightarrow> bool" where
  "spec_free b A st A' \<longleftrightarrow> st = AIPU_STATUS_SUCCESS \<and> A' = A - {b}"

text \<open>
  The driver below is consistent, the session behind the file owns the physical ranges, and
  the buffers are mapped. The session may own more: a range that was granted but not mapped.
\<close>

definition dev_rel :: "int \<Rightarrow> proc \<Rightarrow> buffer_desc set \<Rightarrow> bool" where
  "dev_rel fd p A \<longleftrightarrow>
     (\<exists>sp st. open_session p fd sp st \<and> pa_range ` A \<subseteq> sbuf_range ` set (sbuf_list st)) \<and>
     pairwise buf_apart A \<and> (\<forall>b \<in> A. buf_mapped p b)"

lemma apart_commute: "apart x y = apart y x"
  by (auto simp: apart_def)

lemma buf_apart_commute: "buf_apart x y = buf_apart y x"
  by (simp add: buf_apart_def apart_commute)

lemma intervals_apart:
  assumes "0 < m" "0 < n" "\<forall>i < m. \<not> (b \<le> a + i \<and> a + i < b + n)"
  shows "apart (a, m) (b, n)"
proof (rule ccontr)
  assume "\<not> apart (a, m) (b, n)"
  then have lt: "b < a + m" "a < b + n" by (simp_all add: apart_def)
  show False
  proof (cases "b \<le> a")
    case True
    then show False using assms(1) assms(3) [THEN spec, of 0] lt by simp
  next
    case False
    then show False using assms(2) assms(3) [THEN spec, of "b - a"] lt by simp
  qed
qed

text \<open>
  What the system is relied upon to do: no service of the kernel fails during the request,
  and a new map goes where nothing is mapped.
\<close>

definition map_fresh :: "proc \<Rightarrow> bool" where
  "map_fresh p \<longleftrightarrow>
     (\<forall>a. ue_map (px_env p (Suc (px_calls p))) = Some a \<longrightarrow>
        a \<noteq> 0 \<and> (\<forall>x. a \<le> x \<and> x < a + 2 ^ 31 \<longrightarrow> px_map p x = None))"

lemma dev_malloc_effect:
  assumes rel: "dev_rel fd p A" and e: "kernel_ok (ue_kernel (env_now p))" "map_fresh p"
    and q: "sz \<noteq> 0" "unat sz \<le> 2 ^ 29" "align \<noteq> 0" "sane_request (malloc_req p dtype sz align region) (mm (priv (px_sys p)))"
      "ddr_cnt (mm (priv (px_sys p))) \<noteq> 0"
  shows "\<exists>ret b p'. dev_op_wrapper_malloc fd dtype sz align b0 region p = Some (ret, b, p') \<and>
    (ret = 0 \<and> dev_rel fd p' (insert b A) \<and> unat sz \<le> unat (bu_size b) \<and> (\<forall>x \<in> A. buf_apart x b) \<or>
     ret \<noteq> 0 \<and> dev_rel fd p' A)"
proof -
  obtain sp st where os: "open_session p fd sp st" and sub: "pa_range ` A \<subseteq> sbuf_range ` set (sbuf_list st)"
    using rel by (auto simp: dev_rel_def)
  note o = os [unfolded open_session_def]
  let ?req = "malloc_req p dtype sz align region"
  have rq: "br_bytes ?req = ucast sz" "br_align_in_page ?req = align" by (simp_all add: malloc_req_def)
  have u: "unat (ucast sz :: u64) = unat sz" using unsigned_less [of sz, where ?'a = nat] by (simp add: unsigned_ucast_eq take_bit_nat_eq_self)
  have c: "br_bytes ?req \<noteq> 0" "unat (br_bytes ?req) \<le> 2 ^ 62" "br_align_in_page ?req \<noteq> 0"
    using q(1-3) u by (simp_all add: rq) (metis unat_eq_zero)
  have sd: "driver_ok (px_sys p)" "h_sess (hp (px_sys p)) sp = Some st" using o by simp_all
  obtain ret s' req' st' where io: "aipu_ioctl (ue_kernel (env_now p)) (px_sys p) sp (IPUIOC_REQBUF ?req) =
      Some (ret, s', IPUIOC_REQBUF req')" "driver_ok s'" "h_sess (hp s') sp = Some st'"
    and alt: "br_errcode req' \<noteq> 0 \<and> sbuf_list st' = sbuf_list st \<or>
     ret = 0 \<and> br_errcode req' = 0 \<and> br_bytes req' = br_bytes ?req \<and>
     (\<exists>b d. sbuf_list st' = b # sbuf_list st \<and> br_desc req' = d \<and> sb_map_num b = 0 \<and> sb_dev_offset b = bd_pa d \<and>
        bd_dev_offset d = bd_pa d \<and> ab_pa (sb_desc b) = bd_pa d \<and> ab_bytes (sb_desc b) = bd_bytes d \<and>
        sb_type b \<in> {0, 1, 2} \<and> 4096 dvd unat (bd_bytes d) \<and> unat (br_bytes ?req) \<le> unat (bd_bytes d) \<and>
        unat (bd_bytes d) \<le> 2 * unat (br_bytes ?req) + 4096 \<and>
        (\<forall>x \<in> mm_live (mm (priv (px_sys p))). apart x (unat (bd_pa d), unat (bd_bytes d))))"
    using ioctl_reqbuf_effect [OF sd q(4) e(1) c q(5)] by blast
  let ?p1 = "(next_call p)\<lparr>px_sys := s'\<rparr>"
  have si: "sys_ioctl fd (IPUIOC_REQBUF ?req) p = Some (user_ret ret, IPUIOC_REQBUF req', ?p1)"
    using o io(1) by (simp add: sys_ioctl_def)
  have os1: "open_session ?p1 fd sp st'" using o io(2,3) by (simp add: open_session_def next_call_def)
  have map1: "px_map ?p1 = px_map p" by (simp add: next_call_def)
  have keep: "dev_rel fd p' A" if "open_session p' fd sp st''" "px_map p' = px_map p" "sbuf_range ` set (sbuf_list st) \<subseteq> sbuf_range ` set (sbuf_list st'')"
    for p' st''
  proof -
    have "pa_range ` A \<subseteq> sbuf_range ` set (sbuf_list st'')" using sub that(3) by blast
    then show ?thesis using rel that(1,2) by (auto simp: dev_rel_def buf_mapped_def)
  qed
  from alt show ?thesis
  proof (elim disjE)
    assume a: "br_errcode req' \<noteq> 0 \<and> sbuf_list st' = sbuf_list st"
    have "dev_op_wrapper_malloc fd dtype sz align b0 region p = Some (br_errcode req', b0, ?p1)"
      using q(1) a by (simp add: dev_op_wrapper_malloc_def si Let_def errcode_defs)
    moreover have "dev_rel fd ?p1 A" by (rule keep [OF os1 map1]) (use a in simp)
    ultimately show ?thesis using a by blast
  next
    assume "ret = 0 \<and> br_errcode req' = 0 \<and> br_bytes req' = br_bytes ?req \<and>
     (\<exists>b d. sbuf_list st' = b # sbuf_list st \<and> br_desc req' = d \<and> sb_map_num b = 0 \<and> sb_dev_offset b = bd_pa d \<and>
        bd_dev_offset d = bd_pa d \<and> ab_pa (sb_desc b) = bd_pa d \<and> ab_bytes (sb_desc b) = bd_bytes d \<and>
        sb_type b \<in> {0, 1, 2} \<and> 4096 dvd unat (bd_bytes d) \<and> unat (br_bytes ?req) \<le> unat (bd_bytes d) \<and>
        unat (bd_bytes d) \<le> 2 * unat (br_bytes ?req) + 4096 \<and>
        (\<forall>x \<in> mm_live (mm (priv (px_sys p))). apart x (unat (bd_pa d), unat (bd_bytes d))))"
    then obtain sb d where a: "ret = 0" "br_errcode req' = 0" "sbuf_list st' = sb # sbuf_list st" "br_desc req' = d"
      and sb: "sb_map_num sb = 0" "sb_dev_offset sb = bd_pa d" "ab_pa (sb_desc sb) = bd_pa d" "ab_bytes (sb_desc sb) = bd_bytes d"
        "sb_type sb \<in> {0, 1, 2}" and doff: "bd_dev_offset d = bd_pa d"
      and n: "4096 dvd unat (bd_bytes d)" "unat sz \<le> unat (bd_bytes d)" "unat (bd_bytes d) \<le> 2 * unat sz + 4096"
      and new: "\<forall>x \<in> mm_live (mm (priv (px_sys p))). apart x (unat (bd_pa d), unat (bd_bytes d))"
      unfolding rq u by blast
    have n': "0 < unat (bd_bytes d)" "unat (bd_bytes d) < 2 ^ 31" using n(2,3) q(1,2) by (simp_all add: unat_gt_0 [symmetric])
    obtain r p2 st2 where m: "sys_mmap fd (bd_bytes d) (bd_pa d) ?p1 = Some (r, p2)" "open_session p2 fd sp st2"
        "map sbuf_range (sbuf_list st2) = map sbuf_range (sbuf_list st')"
      and r: "r = None \<and> px_map p2 = px_map p \<or>
        (\<exists>a. r = Some a \<and> ue_map (env_now ?p1) = Some a \<and>
           px_map p2 = map_range a (unat (bd_bytes d)) (unat (bd_pa d)) (px_map p))"
      using sys_mmap_effect [OF os1 a(3) sb n(1) n'] unfolding map1 by blast
    have sets: "sbuf_range ` set (sbuf_list st2) = insert (sbuf_range sb) (sbuf_range ` set (sbuf_list st))"
      using arg_cong [OF m(3), of set] a(3) by simp
    from r show ?thesis
    proof (elim disjE conjE exE)
      assume "r = None" "px_map p2 = px_map p"
      then have "dev_op_wrapper_malloc fd dtype sz align b0 region p = Some (-1, b0, p2)"
        using q(1) a by (simp add: dev_op_wrapper_malloc_def si Let_def errcode_defs user_ret_def m(1) doff)
      moreover have "dev_rel fd p2 A"
        by (rule keep [OF m(2) \<open>px_map p2 = px_map p\<close>]) (use sets in blast)
      ultimately show ?thesis by (intro exI [of _ "-1"]) simp
    next
      fix va assume va: "r = Some va" "ue_map (env_now ?p1) = Some va"
        and mp: "px_map p2 = map_range va (unat (bd_bytes d)) (unat (bd_pa d)) (px_map p)"
      define b where "b = \<lparr>bu_va = va, bu_pa = bd_pa d, bu_size = bd_bytes d, bu_real_size = br_bytes req', bu_region_id = bd_region_id d\<rparr>"
      have res: "dev_op_wrapper_malloc fd dtype sz align b0 region p = Some (0, b, p2)"
        using q(1) a va(1) by (simp add: dev_op_wrapper_malloc_def si Let_def errcode_defs user_ret_def m(1) doff b_def)
      have fr: "va \<noteq> 0" "\<And>x. va \<le> x \<Longrightarrow> x < va + 2 ^ 31 \<Longrightarrow> px_map p x = None"
        using e(2) va(2) by (auto simp: map_fresh_def env_now_def next_call_def)
      have fr': "px_map p x = None" if "va \<le> x" "x < va + unat (bd_bytes d)" for x
        using that n'(2) by (intro fr(2)) linarith+
      have old: "\<not> (va \<le> bu_va x + i \<and> bu_va x + i < va + unat (bd_bytes d))" if "x \<in> A" "i < unat (bu_size x)" for x i
        using rel that fr' by (fastforce simp: dev_rel_def buf_mapped_def)
      have ap: "buf_apart x b" if x: "x \<in> A" for x
      proof -
        have "pa_range x \<in> sbuf_range ` set (sbuf_list st)" using sub x by blast
        then have "pa_range x \<in> mm_live (mm (priv (px_sys p)))"
          using bufs_okD(2) [OF driver_okD(3) [OF sd(1)], of sp] sd(2) by (auto simp: sbufs_def)
        then have "apart (pa_range x) (pa_range b)" using new by (simp add: pa_range_def b_def)
        moreover have "0 < unat (bu_size x)" using rel x by (simp add: dev_rel_def buf_mapped_def)
        then have "apart (va_range x) (va_range b)"
          using intervals_apart [OF _ n'(1), of "unat (bu_size x)" va "bu_va x"] old [OF x]
          by (simp add: va_range_def b_def)
        ultimately show ?thesis by (simp add: buf_apart_def)
      qed
      have mb: "buf_mapped p2 b" using fr(1) n(1) n' by (simp add: buf_mapped_def b_def mp map_range_def)
      have mo: "buf_mapped p2 x" if x: "x \<in> A" for x
        using rel x old [OF x] by (auto simp: dev_rel_def buf_mapped_def mp map_range_def)
      have "sbuf_range sb = pa_range b" by (simp add: sbuf_range_def pa_range_def b_def sb)
      then have "pa_range ` insert b A \<subseteq> sbuf_range ` set (sbuf_list st2)" using sub sets by auto
      moreover have "pairwise buf_apart (insert b A)"
        using rel ap by (auto simp: dev_rel_def pairwise_insert buf_apart_commute)
      ultimately have "dev_rel fd p2 (insert b A)" using m(2) mb mo by (auto simp: dev_rel_def)
      moreover have "unat sz \<le> unat (bu_size b)" using n(2) by (simp add: b_def)
      ultimately show ?thesis using res ap by (intro exI [of _ 0] exI [of _ b] exI [of _ p2]) simp
    qed
  qed
qed

lemma find_buffer_Some: "\<exists>b \<in> set bs. p b \<Longrightarrow> \<exists>i. find_buffer p bs = Some i"
  using find_buffer_None_iff [of p bs] by (cases "find_buffer p bs") auto

lemma ioctl_freebuf_effect:
  assumes ok: "driver_ok s" and st: "h_sess (hp s) sp = Some st"
    and x: "(unat (bd_pa d), unat (bd_bytes d)) \<in> sbuf_range ` set (sbuf_list st)"
  shows "\<exists>s' st'. ioctl_freebuf s sp d = Some (0, s') \<and> driver_ok s' \<and> h_sess (hp s') sp = Some st' \<and>
    sbuf_range ` set (sbuf_list st') = sbuf_range ` set (sbuf_list st) - {(unat (bd_pa d), unat (bd_bytes d))}"
proof -
  obtain b where b: "b \<in> set (sbuf_list st)" "sbuf_range b = (unat (bd_pa d), unat (bd_bytes d))" using x by auto
  then have "ab_pa (sb_desc b) = bd_pa d" "ab_bytes (sb_desc b) = bd_bytes d"
    by (simp_all add: sbuf_range_def word_eq_unat)
  then have "\<exists>b \<in> set (sbuf_list st). ab_pa (sb_desc b) = bd_pa d \<and> ab_bytes (sb_desc b) = bd_bytes d"
    using b(1) by (intro bexI [of _ b]) simp_all
  from find_buffer_Some [OF this] obtain i where i: "find_buffer_bydesc_no_lock st d = Some i"
    by (auto simp: find_buffer_bydesc_no_lock_def)
  note fd = find_buffer_SomeD [OF i [unfolded find_buffer_bydesc_no_lock_def]]
  let ?b = "sbuf_list st ! i" and ?x = "(unat (bd_pa d), unat (bd_bytes d))"
  have r: "sbuf_range ?b = ?x" using fd by (simp add: sbuf_range_def)
  note own = bufs_okD [OF driver_okD(3) [OF ok], of sp]
  have cur: "sbufs (hp s) sp = map sbuf_range (sbuf_list st)" by (simp add: sbufs_def st)
  have live: "?x \<in> mm_live (mm (priv s))" using own(2) x by (auto simp: cur)
  obtain m where m: "aipu_mm_free (mm (priv s)) d = (0, m)"
    using mm_free_effect [OF driver_okD(2) [OF ok] live] by (metis surj_pair)
  define st' where "st' = st\<lparr>sbuf_list := take i (sbuf_list st) @ drop (Suc i) (sbuf_list st)\<rparr>"
  have f: "ioctl_freebuf s sp d = Some (0, put_mm m (put_hp (put_session sp st' (hp s)) s))"
    using i m by (simp add: ioctl_freebuf_def st aipu_session_detach_buf_def errcode_defs Let_def st'_def)
  then have "driver_ok (put_mm m (put_hp (put_session sp st' (hp s)) s))"
    using freebuf_delivers [OF ok st, of d] by (auto simp: delivers_def)
  moreover have "sbuf_range ` set (sbuf_list st') = sbuf_range ` set (sbuf_list st) - {?x}"
  proof -
    have split: "sbuf_list st = take i (sbuf_list st) @ ?b # drop (Suc i) (sbuf_list st)" using fd by (intro nth_split) simp
    have "distinct (map sbuf_range (take i (sbuf_list st) @ ?b # drop (Suc i) (sbuf_list st)))"
      using own(1) unfolding cur by (subst (asm) split)
    then have "sbuf_range ?b \<notin> sbuf_range ` set (sbuf_list st')" by (auto simp: st'_def)
    moreover have "sbuf_range ` set (sbuf_list st) = insert (sbuf_range ?b) (sbuf_range ` set (sbuf_list st'))"
      by (subst split) (simp add: st'_def)
    ultimately show ?thesis using r by auto
  qed
  ultimately show ?thesis using f by (intro exI [of _ "put_mm m (put_hp (put_session sp st' (hp s)) s)"] exI [of _ st']) simp
qed

lemma dev_free_effect:
  assumes rel: "dev_rel fd p A" and b: "b \<in> A" and e: "kernel_ok (ue_kernel (px_env p (Suc (px_calls p))))"
  shows "\<exists>p'. dev_op_wrapper_free fd b p = Some (0, p') \<and> dev_rel fd p' (A - {b})"
proof -
  obtain sp st where os: "open_session p fd sp st" and sub: "pa_range ` A \<subseteq> sbuf_range ` set (sbuf_list st)"
    using rel by (auto simp: dev_rel_def)
  note o = os [unfolded open_session_def]
  define d where "d = (ue_uninit_desc (env_now p))\<lparr>bd_pa := bu_pa b, bd_bytes := bu_size b\<rparr>"
  have d: "(unat (bd_pa d), unat (bd_bytes d)) = pa_range b" by (simp add: d_def pa_range_def)
  have x: "(unat (bd_pa d), unat (bd_bytes d)) \<in> sbuf_range ` set (sbuf_list st)" unfolding d using b sub by blast
  have sd: "driver_ok (px_sys p)" "h_sess (hp (px_sys p)) sp = Some st" using o by simp_all
  obtain s' st' where f: "ioctl_freebuf (px_sys p) sp d = Some (0, s')" "driver_ok s'" "h_sess (hp s') sp = Some st'"
    "sbuf_range ` set (sbuf_list st') = sbuf_range ` set (sbuf_list st) - {pa_range b}"
    using ioctl_freebuf_effect [OF sd x] unfolding d by blast
  have sp: "sp \<noteq> 0" by (rule session_null [OF driver_okD(4) [OF sd(1)] sd(2)])
  have mb: "buf_mapped p b" "unat (bu_size b) < 2 ^ 63" using rel b by (auto simp: dev_rel_def buf_mapped_def)
  have up: "page_up (bu_size b) = bu_size b" by (rule page_up_id) (use mb in \<open>simp_all add: buf_mapped_def\<close>)
  let ?p2 = "(next_call (sys_munmap (bu_va b) (bu_size b) p))\<lparr>px_sys := s'\<rparr>"
  have res: "dev_op_wrapper_free fd b p = Some (0, ?p2)"
    using o f(1) sp e
    by (simp add: dev_op_wrapper_free_def sys_ioctl_def sys_munmap_def next_call_def env_now_def aipu_ioctl_def kernel_ok_def
        errcode_defs user_ret_def d_def [unfolded env_now_def, symmetric])
  have mp: "px_map ?p2 = unmap_range (bu_va b) (unat (bu_size b)) (px_map p)"
    by (simp add: sys_munmap_def next_call_def up)
  have os2: "open_session ?p2 fd sp st'" using o f by (simp add: open_session_def sys_munmap_def next_call_def)
  have ap: "buf_apart x b" if "x \<in> A - {b}" for x using rel that b by (auto simp: dev_rel_def pairwise_def)
  have "pa_range x \<noteq> pa_range b" if "x \<in> A - {b}" for x
    using ap [OF that] mb(1) by (auto simp: buf_apart_def apart_def pa_range_def buf_mapped_def)
  then have "pa_range ` (A - {b}) \<subseteq> sbuf_range ` set (sbuf_list st')" using sub f(4) by auto
  moreover have "buf_mapped ?p2 x" if "x \<in> A - {b}" for x
  proof -
    have "\<not> (bu_va b \<le> bu_va x + i \<and> bu_va x + i < bu_va b + unat (bu_size b))" if "i < unat (bu_size x)" for i
      using ap [OF \<open>x \<in> A - {b}\<close>] that by (auto simp: buf_apart_def apart_def va_range_def)
    moreover have "buf_mapped p x" using rel that by (simp add: dev_rel_def)
    ultimately show ?thesis unfolding buf_mapped_def mp unmap_range_def by auto
  qed
  moreover have "pairwise buf_apart (A - {b})" using rel by (auto simp: dev_rel_def intro: pairwise_subset)
  ultimately have "dev_rel fd ?p2 (A - {b})" using os2 by (auto simp: dev_rel_def)
  then show ?thesis using res by blast
qed

text \<open>C3. The device layer refines a set of buffers. Over the kernel driver, with its block lists, sessions
  and page tables, allocation and release of device buffers are those of a set of buffers:
  a successful allocation adds one that is large enough, mapped, and apart from all others
  in virtual and in physical memory, a refused one changes nothing, and a release always
  succeeds and takes the buffer away.\<close>

theorem device_buffers_refine:
  assumes "dev_rel (dc_fd c) p A" "\<forall>k. kernel_ok (ue_kernel (px_env p k))" "map_fresh p"
    and "unat sz \<le> 2 ^ 29" "align \<noteq> 0" "sane_request (malloc_req p dtype sz align region) (mm (priv (px_sys p)))"
    and "ddr_cnt (mm (priv (px_sys p))) \<noteq> 0"
  shows "(\<exists>st b p' A'. malloc_buf c dtype sz align b0 region p = Some (st, b, p') \<and>
      spec_malloc (unat sz) A st b A' \<and> dev_rel (dc_fd c) p' A') \<and>
    (\<forall>b \<in> A. \<exists>st p' A'. free_buf c b p = Some (st, p') \<and> spec_free b A st A' \<and> dev_rel (dc_fd c) p' A')"
proof (intro conjI ballI)
  show "\<exists>st b p' A'. malloc_buf c dtype sz align b0 region p = Some (st, b, p') \<and>
      spec_malloc (unat sz) A st b A' \<and> dev_rel (dc_fd c) p' A'"
  proof (cases "sz = 0")
    case True
    then show ?thesis using assms(1) by (simp add: malloc_buf_def spec_malloc_def)
  next
    case False
    have e: "kernel_ok (ue_kernel (env_now p))" using assms(2) by (simp add: env_now_def)
    from dev_malloc_effect [OF assms(1) e assms(3) False assms(4-7), of b0] False
    show ?thesis by (fastforce simp: malloc_buf_def spec_malloc_def errcode_defs)
  qed
next
  fix b assume b: "b \<in> A"
  then have "bu_size b \<noteq> 0" using assms(1) by (auto simp: dev_rel_def buf_mapped_def)
  with dev_free_effect [OF assms(1) b spec [OF assms(2)]]
  show "\<exists>st p' A'. free_buf c b p = Some (st, p') \<and> spec_free b A st A' \<and> dev_rel (dc_fd c) p' A'"
    by (auto simp: free_buf_def spec_free_def)
qed

text \<open>A process with the device open as file 3, over a driver with running and pending jobs.\<close>

definition demo_uenv :: uenv where
  "demo_uenv = \<lparr>ue_kernel = env_ok 7, ue_fd = 3, ue_map = Some 0x10000000, ue_while = [], ue_poll_fails = False,
     ue_access = 0, ue_uninit_buf = buffer_desc_init, ue_uninit_desc = zero_desc,
     ue_uninit_info = \<lparr>oi_fd = 0, oi_shm_offset = 0,
       oi_cap = \<lparr>isa_version = 0, tpc_feature = 0, aiff_feature = 0, cap_errcode = 0\<rparr>\<rparr>,
     ue_uninit_status = \<lparr>js_job_id = 0, js_thread_id = 0, js_state = 0, js_pdata = zero_pdata\<rparr>\<rparr>"

definition demo_proc :: proc where
  "demo_proc = \<lparr>px_sys = demo_sys [] [demo_running] [demo_pending], px_files = [3 \<mapsto> 8], px_map = (\<lambda>_. None),
     px_phys = (\<lambda>_. 0), px_env = (\<lambda>_. demo_uenv), px_calls = 0\<rparr>"

definition demo_ctrl :: device_ctrl where
  "demo_ctrl = \<lparr>dc_fd = 3, host_aipu_shm_offset = 0,
     dc_target = \<lparr>aipu_arch = 0, aipu_version = 1, aipu_hw_config = 904\<rparr>\<rparr>"

lemma demo_proc_rel: "dev_rel 3 demo_proc {}"
  using demo_driver_ok by (auto simp: dev_rel_def open_session_def demo_proc_def demo_sys_def demo_jobs_heap_def)

lemma demo_kernel_ok: "kernel_ok (ue_kernel (px_env demo_proc k))"
  by (simp add: demo_proc_def demo_uenv_def kernel_ok_def no_kzalloc_failure_def env_ok_def)

lemma device_buffers_refine_witness:
  "\<exists>st b p' A'. malloc_buf demo_ctrl AIPU_MM_DATA_TYPE_REUSE 100 1 buffer_desc_init 0 demo_proc = Some (st, b, p') \<and>
     spec_malloc 100 {} st b A' \<and> dev_rel 3 p' A'"
proof -
  have "dc_fd demo_ctrl = 3" by (simp add: demo_ctrl_def)
  moreover have "map_fresh demo_proc" by (simp add: map_fresh_def demo_proc_def demo_uenv_def)
  moreover have "sane_request (malloc_req demo_proc AIPU_MM_DATA_TYPE_REUSE 100 1 0) (mm (priv (px_sys demo_proc)))"
    by (simp add: sane_request_def malloc_req_def data_type_defs)
  moreover have "ddr_cnt (mm (priv (px_sys demo_proc))) \<noteq> 0" by (simp add: demo_proc_def demo_sys_def demo_mm_eq)
  ultimately show ?thesis
    using device_buffers_refine [of demo_ctrl demo_proc "{}" 100 1 AIPU_MM_DATA_TYPE_REUSE 0 buffer_desc_init]
      demo_proc_rel demo_kernel_ok by simp
qed

subsection \<open>Failures reported as success\<close>

text \<open>An allocation with alignment 0 is a success without a buffer. The kernel driver refuses it
  but leaves the error code as it was, and the device layer returns that error code:
  the caller is told of success, its descriptor holds what it held before, and nothing was
  allocated or mapped.\<close>

theorem malloc_align_zero_unbacked:
  assumes "px_files p (dc_fd c) = Some sp" "sp \<noteq> 0" "sz \<noteq> 0"
  shows "\<exists>p'. malloc_buf c dtype sz 0 buf region p = Some (AIPU_STATUS_SUCCESS, buf, p') \<and>
    px_sys p' = px_sys p \<and> px_map p' = px_map p"
proof -
  let ?e = "ue_kernel (env_now p)" and ?req = "malloc_req p dtype sz 0 region"
  have mm: "aipu_mm_alloc ?e m ?req zero_buffer = Some (- EINVAL, m, ?req, zero_buffer)" for m
    by (simp add: aipu_mm_alloc_def malloc_req_def)
  have pm: "put_mm (mm (priv (px_sys p))) (px_sys p) = px_sys p" by (simp add: put_mm_def)
  obtain ret where io: "aipu_ioctl ?e (px_sys p) sp (IPUIOC_REQBUF ?req) = Some (ret, px_sys p, IPUIOC_REQBUF ?req)" "ret \<noteq> 0"
    using assms(2) by (cases "cfu_left ?e = 0")
      (auto simp: aipu_ioctl_def errcode_defs errno_defs ioctl_reqbuf_def mm pm merge_copy_def to_user_def)
  then have "user_ret ret \<noteq> 0" by (simp add: user_ret_def)
  moreover have "br_errcode ?req = AIPU_ERRCODE_NO_ERROR" by (simp add: malloc_req_def)
  ultimately have "dev_op_wrapper_malloc (dc_fd c) dtype sz 0 buf region p = Some (0, buf, (next_call p)\<lparr>px_sys := px_sys p\<rparr>)"
    using assms(1,3) io(1) by (simp add: dev_op_wrapper_malloc_def sys_ioctl_def Let_def errcode_defs)
  then show ?thesis using assms(3) by (simp add: malloc_buf_def errcode_defs next_call_def)
qed

lemma malloc_align_zero_unbacked_witness:
  "\<exists>p'. malloc_buf demo_ctrl AIPU_MM_DATA_TYPE_STATIC 0x1000 0 buffer_desc_init 0 demo_proc =
     Some (AIPU_STATUS_SUCCESS, buffer_desc_init, p') \<and> px_sys p' = px_sys demo_proc \<and> px_map p' = px_map demo_proc"
  by (rule malloc_align_zero_unbacked [where sp = 8]) (simp_all add: demo_proc_def demo_ctrl_def)

text \<open>A context without a device. When the device node cannot be opened, the open wrapper returns 0
  and leaves its result unwritten; the controller is initialised with success and takes
  its file descriptor from memory that nothing has written.\<close>

theorem init_without_device_succeeds:
  assumes "ue_fd (env_now p) < 0"
  shows "\<exists>c' p'. ctrl_init c p = Some (AIPU_STATUS_SUCCESS, c', p') \<and> dc_fd c' = oi_fd (ue_uninit_info (env_now p))"
  using assms by (simp add: ctrl_init_def dev_op_wrapper_open_def sys_open_def Let_def)

lemma init_without_device_witness:
  "\<exists>c' p'. ctrl_init new_device_ctrl (demo_proc\<lparr>px_env := \<lambda>_. demo_uenv\<lparr>ue_fd := -1\<rparr>\<rparr>) = Some (AIPU_STATUS_SUCCESS, c', p') \<and>
     dc_fd c' = 0"
  using init_without_device_succeeds [of "demo_proc\<lparr>px_env := \<lambda>_. demo_uenv\<lparr>ue_fd := -1\<rparr>\<rparr>" new_device_ctrl]
  by (simp add: env_now_def demo_proc_def demo_uenv_def)

end
