(* ===== verification/UmdLayout.thy ===== *)
theory UmdLayout
  imports UmdContext UmdDevSpec
begin

text \<open>
  The layout of a group of buffers (\<open>alloc_group_buffers\<close> of \<open>graph.cpp\<close>): one device buffer
  that is cut into a child per section. The offsets computed in 32 bits are compared with the
  same layout over natural numbers, and the children lie inside the group, apart and aligned.
\<close>

subsection \<open>Layout of a group of buffers\<close>

text \<open>Offsets and end of the sections without wrap-around, from the end \<open>e\<close> of the previous one on.\<close>

fun ref_offsets :: "nat \<Rightarrow> section_desc list \<Rightarrow> nat list" where
  "ref_offsets e [] = []"
| "ref_offsets e (s # ss) =
     (let off = align_up e (unat (sec_align_in_page s) * 4096) in off # ref_offsets (off + unat (sec_size s)) ss)"

fun group_end :: "nat \<Rightarrow> section_desc list \<Rightarrow> nat" where
  "group_end e [] = e"
| "group_end e (s # ss) = group_end (align_up e (unat (sec_align_in_page s) * 4096) + unat (sec_size s)) ss"

definition aligned_sections :: "section_desc list \<Rightarrow> bool" where
  "aligned_sections ss \<longleftrightarrow> (\<forall>s \<in> set ss. sec_align_in_page s \<noteq> 0)"

lemma section_align_pos: "sec_align_in_page s \<noteq> 0 \<Longrightarrow> 0 < unat (sec_align_in_page s) * 4096"
  by (simp add: unat_gt_0)

lemma group_end_ge: "aligned_sections ss \<Longrightarrow> e \<le> group_end e ss"
proof (induction ss arbitrary: e)
  case (Cons s ss)
  have A: "0 < unat (sec_align_in_page s) * 4096" using Cons.prems by (intro section_align_pos) (simp add: aligned_sections_def)
  have "e \<le> align_up e (unat (sec_align_in_page s) * 4096)" by (rule align_up_bounds(1) [OF A])
  also have "\<dots> \<le> align_up e (unat (sec_align_in_page s) * 4096) + unat (sec_size s)" by simp
  also have "\<dots> \<le> group_end e (s # ss)" using Cons by (simp add: aligned_sections_def)
  finally show ?case .
qed simp

lemma group_offsets_ref:
  assumes "aligned_sections ss" "group_end (unat off + unat (sec_size prev)) ss < 2 ^ 32"
  shows "\<exists>offs. group_offsets off prev ss = Some (off # offs) \<and>
    map unat offs = ref_offsets (unat off + unat (sec_size prev)) ss"
  using assms
proof (induction ss arbitrary: off prev)
  case (Cons s ss)
  let ?e = "unat off + unat (sec_size prev)" and ?A = "unat (sec_align_in_page s) * 4096"
  let ?o = "align_up ?e ?A"
  have al: "aligned_sections ss" "sec_align_in_page s \<noteq> 0" using Cons.prems(1) by (simp_all add: aligned_sections_def)
  note A = section_align_pos [OF al(2)]
  have lt: "?o + unat (sec_size s) < 2 ^ 32"
    using group_end_ge [OF al(1), of "?o + unat (sec_size s)"] Cons.prems(2) by (simp add: Let_def)
  then have "?e < 2 ^ 32" using align_up_bounds(1) [OF A, of ?e] by linarith
  then have e: "unat (off + sec_size prev) = ?e" by (simp add: unat_word_ariths)
  obtain off' where off': "get_aligned_addr (off + sec_size prev) (sec_align_in_page s) = Some off'" "unat off' = ?o"
    using get_aligned_addr_least [OF al(2), of "off + sec_size prev"] lt unfolding e by auto
  obtain offs where "group_offsets off' s ss = Some (off' # offs)" "map unat offs = ref_offsets (?o + unat (sec_size s)) ss"
    using Cons.IH [OF al(1), of off' s] Cons.prems(2) by (auto simp: off'(2))
  then show ?case using off' by (simp add: Let_def)
qed simp

lemma length_ref_offsets [simp]: "length (ref_offsets e ss) = length ss"
  by (induction ss arbitrary: e) (simp_all add: Let_def)

lemma ref_offsets_ge:
  assumes "aligned_sections ss" "i < length ss"
  shows "e \<le> ref_offsets e ss ! i \<and> unat (sec_align_in_page (ss ! i)) * 4096 dvd ref_offsets e ss ! i \<and>
    ref_offsets e ss ! i + unat (sec_size (ss ! i)) \<le> group_end e ss"
  using assms
proof (induction ss arbitrary: e i)
  case (Cons s ss)
  have al: "aligned_sections ss" using Cons.prems(1) by (simp add: aligned_sections_def)
  have A: "0 < unat (sec_align_in_page s) * 4096" using Cons.prems(1) by (intro section_align_pos) (simp add: aligned_sections_def)
  note up = align_up_bounds [OF A, of e]
  show ?case
  proof (cases i)
    case 0
    then show ?thesis using up group_end_ge [OF al] by (simp add: Let_def)
  next
    case (Suc k)
    let ?e = "align_up e (unat (sec_align_in_page s) * 4096) + unat (sec_size s)"
    have "k < length ss" using Suc Cons.prems(2) by simp
    note ih = Cons.IH [OF al this, of ?e]
    then have "e \<le> ref_offsets ?e ss ! k" using up(1) by linarith
    then show ?thesis using ih by (simp add: Suc Let_def)
  qed
qed simp

lemma ref_offsets_apart:
  assumes "aligned_sections ss" "i < k" "k < length ss"
  shows "ref_offsets e ss ! i + unat (sec_size (ss ! i)) \<le> ref_offsets e ss ! k"
  using assms
proof (induction ss arbitrary: e i k)
  case (Cons s ss)
  have al: "aligned_sections ss" using Cons.prems(1) by (simp add: aligned_sections_def)
  obtain k' where k: "k = Suc k'" "k' < length ss" using Cons.prems(2,3) by (cases k) simp_all
  show ?case
  proof (cases i)
    case 0
    then show ?thesis using ref_offsets_ge [OF al k(2)] k by (simp add: Let_def)
  next
    case (Suc i')
    then show ?thesis using Cons.IH [OF al, of i' k'] Cons.prems(2) k by (simp add: Let_def)
  qed
qed simp

lemma group_end_snoc:
  "group_end e (ss @ [s]) = align_up (group_end e ss) (unat (sec_align_in_page s) * 4096) + unat (sec_size s)"
  by (induction ss arbitrary: e) simp_all

lemma last_ref_offset: "ss \<noteq> [] \<Longrightarrow> last (ref_offsets e ss) + unat (sec_size (last ss)) = group_end e ss"
proof (induction ss arbitrary: e)
  case (Cons s ss)
  then show ?case by (cases ss) (simp_all add: Let_def)
qed simp

text \<open>When the sections with their alignments fit into 32 bits, the
  offsets are computed without wrap-around: each is a multiple of its section's alignment,
  each section ends before the next one starts, and the request for the group is exactly
  the end of the last one.\<close>

lemma group_layout:
  assumes "aligned_sections (s0 # ss)" "group_end 0 (s0 # ss) < 2 ^ 32"
  shows "\<exists>offs. group_offsets 0 s0 ss = Some offs \<and> length offs = Suc (length ss) \<and>
    (\<forall>i < length offs. unat (sec_align_in_page ((s0 # ss) ! i)) * 4096 dvd unat (offs ! i) \<and>
       unat (offs ! i) + unat (sec_size ((s0 # ss) ! i)) \<le> group_end 0 (s0 # ss)) \<and>
    (\<forall>k < length offs. \<forall>i < k. unat (offs ! i) + unat (sec_size ((s0 # ss) ! i)) \<le> unat (offs ! k)) \<and>
    unat (last offs + sec_size (last (s0 # ss))) = group_end 0 (s0 # ss)"
proof -
  let ?ss = "s0 # ss"
  have A: "0 < unat (sec_align_in_page s0) * 4096" using assms(1) by (intro section_align_pos) (simp add: aligned_sections_def)
  have z: "align_up 0 (unat (sec_align_in_page s0) * 4096) = 0" using A by (simp add: align_up_def)
  have al: "aligned_sections ss" using assms(1) by (simp add: aligned_sections_def)
  obtain os where os: "group_offsets 0 s0 ss = Some (0 # os)" "map unat os = ref_offsets (unat (sec_size s0)) ss"
    using group_offsets_ref [OF al, of 0 s0] assms(2) by (auto simp: z)
  let ?offs = "0 # os"
  have m: "map unat ?offs = ref_offsets 0 ?ss" using os(2) by (simp add: z)
  have "length (map unat ?offs) = length (ref_offsets 0 ?ss)" by (simp only: m)
  then have len: "length ?offs = length ?ss" by (simp only: length_map length_ref_offsets)
  have nth: "unat (?offs ! i) = ref_offsets 0 ?ss ! i" if "i < length ?ss" for i
    using arg_cong [OF m, of "\<lambda>xs. xs ! i"] that len by (simp only: nth_map)
  have "last (map unat ?offs) + unat (sec_size (last ?ss)) = group_end 0 ?ss" unfolding m by (rule last_ref_offset) simp
  then have l: "unat (last ?offs) + unat (sec_size (last ?ss)) = group_end 0 ?ss" by (subst (asm) last_map) simp_all
  then have "unat (last ?offs + sec_size (last ?ss)) = group_end 0 ?ss"
    using assms(2) by (simp add: unat_word_ariths del: group_end.simps last.simps)
  moreover have "unat (sec_align_in_page (?ss ! i)) * 4096 dvd unat (?offs ! i) \<and>
      unat (?offs ! i) + unat (sec_size (?ss ! i)) \<le> group_end 0 ?ss" if "i < length ?offs" for i
    using that ref_offsets_ge [OF assms(1), of i 0] unfolding len by (simp only: nth)
  moreover have "unat (?offs ! i) + unat (sec_size (?ss ! i)) \<le> unat (?offs ! k)" if "k < length ?offs" "i < k" for i k
    using that ref_offsets_apart [OF assms(1) that(2), of 0] order.strict_trans [OF that(2)] unfolding len by (simp only: nth)
  moreover have "length ?offs = Suc (length ss)" using len by simp
  ultimately show ?thesis using os(1) by blast
qed

lemma unat_add_u64:
  fixes x :: u64 and y :: u32
  shows "unat x + unat y < 2 ^ 64 \<Longrightarrow> unat (x + ucast y) = unat x + unat y"
  using unsigned_less [of y, where ?'a = nat] by (simp add: unat_word_ariths unsigned_ucast_eq take_bit_nat_eq_self)

lemma unat_ucast_u64: "unat (ucast (y :: u32) :: u64) = unat y"
  using unsigned_less [of y, where ?'a = nat] by (simp add: unsigned_ucast_eq take_bit_nat_eq_self)

text \<open>C28. Buffers of a group do not overlap. When the sections with their alignments fit into 32 bits, a
  successful allocation asks the device for exactly the end of the last section and
  returns one buffer per section, of the section's size, inside the group, at the same
  distance in virtual and in physical memory, a multiple of the section's alignment from
  the start of the group, each ending before the next one starts.\<close>

theorem group_children:
  assumes "alloc_group_buffers c (s0 # ss) dtype [] g0 p = Some (AIPU_STATUS_SUCCESS, bufs, g, p')"
    and "aligned_sections (s0 # ss)" "group_end 0 (s0 # ss) < 2 ^ 32" "unat (bu_pa g) + group_end 0 (s0 # ss) < 2 ^ 64"
  shows "(\<exists>tot b0. unat tot = group_end 0 (s0 # ss) \<and>
      malloc_buf c dtype tot (sec_align_in_page s0) b0 0 p = Some (AIPU_STATUS_SUCCESS, g, p')) \<and>
    length bufs = Suc (length ss) \<and>
    (\<forall>i < length bufs. \<exists>off. unat (bu_pa (bufs ! i)) = unat (bu_pa g) + off \<and> bu_va (bufs ! i) = bu_va g + off \<and>
       unat (sec_align_in_page ((s0 # ss) ! i)) * 4096 dvd off \<and> off + unat (bu_size (bufs ! i)) \<le> group_end 0 (s0 # ss) \<and>
       unat (bu_size (bufs ! i)) = unat (sec_size ((s0 # ss) ! i))) \<and>
    (\<forall>k < length bufs. \<forall>i < k. unat (bu_pa (bufs ! i)) + unat (bu_size (bufs ! i)) \<le> unat (bu_pa (bufs ! k)))"
proof -
  let ?ss = "s0 # ss" and ?u = "ue_uninit_buf (env_now p)"
  from group_layout [OF assms(2,3)] obtain offs where offs: "group_offsets 0 s0 ss = Some offs" "length offs = Suc (length ss)"
    and al: "\<forall>i < length offs. unat (sec_align_in_page (?ss ! i)) * 4096 dvd unat (offs ! i) \<and>
       unat (offs ! i) + unat (sec_size (?ss ! i)) \<le> group_end 0 ?ss"
    and ap: "\<forall>k < length offs. \<forall>i < k. unat (offs ! i) + unat (sec_size (?ss ! i)) \<le> unat (offs ! k)"
    and tot: "unat (last offs + sec_size (last ?ss)) = group_end 0 ?ss" by (elim exE conjE)
  let ?tot = "last offs + sec_size (last ?ss)"
  have m: "malloc_buf c dtype ?tot (sec_align_in_page s0) ?u 0 p = Some (AIPU_STATUS_SUCCESS, g, p')"
    and b: "bufs = map (\<lambda>(off, sec). child_buf g off sec (bu_region_id ?u)) (zip offs ?ss)"
    using assms(1) by (auto simp: alloc_group_buffers_def offs(1) Let_def bind_eq_Some_conv split: if_splits)
  have len: "length bufs = length offs" using offs(2) by (simp add: b)
  have nth: "bufs ! i = child_buf g (offs ! i) (?ss ! i) (bu_region_id ?u)" if "i < length offs" for i
    using that offs(2) unfolding b by (simp del: group_end.simps nth_Cons_Suc)
  have pa: "unat (bu_pa (bufs ! i)) = unat (bu_pa g) + unat (offs ! i)" if i: "i < length offs" for i
  proof -
    have "unat (offs ! i) \<le> group_end 0 ?ss" using al i by (meson add_leD1)
    then have "unat (bu_pa g) + unat (offs ! i) < 2 ^ 64" using assms(4) by linarith
    then show ?thesis unfolding nth [OF i] child_buf_def buffer_desc.simps by (rule unat_add_u64)
  qed
  have sz: "unat (bu_size (bufs ! i)) = unat (sec_size (?ss ! i))" if "i < length offs" for i
    unfolding nth [OF that] child_buf_def buffer_desc.simps by (rule unat_ucast_u64)
  have va: "bu_va (bufs ! i) = bu_va g + unat (offs ! i)" if "i < length offs" for i
    unfolding nth [OF that] child_buf_def buffer_desc.simps by (rule refl)
  show ?thesis
  proof (intro conjI allI impI)
    show "\<exists>tot b0. unat tot = group_end 0 ?ss \<and> malloc_buf c dtype tot (sec_align_in_page s0) b0 0 p = Some (AIPU_STATUS_SUCCESS, g, p')"
      using m tot by blast
    show "length bufs = Suc (length ss)" using len offs(2) by simp
    show "\<exists>off. unat (bu_pa (bufs ! i)) = unat (bu_pa g) + off \<and> bu_va (bufs ! i) = bu_va g + off \<and>
       unat (sec_align_in_page (?ss ! i)) * 4096 dvd off \<and> off + unat (bu_size (bufs ! i)) \<le> group_end 0 ?ss \<and>
       unat (bu_size (bufs ! i)) = unat (sec_size (?ss ! i))" if "i < length bufs" for i
    proof -
      have i: "i < length offs" using that len by simp
      show ?thesis using pa [OF i] sz [OF i] va [OF i] al [rule_format, OF i] by (intro exI [of _ "unat (offs ! i)"]) (simp only: simp_thms)
    qed
    show "unat (bu_pa (bufs ! i)) + unat (bu_size (bufs ! i)) \<le> unat (bu_pa (bufs ! k))" if "k < length bufs" "i < k" for i k
    proof -
      have k: "k < length offs" "i < length offs" using that len by simp_all
      show ?thesis using ap [rule_format, OF k(1) that(2)] unfolding pa [OF k(1)] pa [OF k(2)] sz [OF k(2)] by simp
    qed
  qed
qed

definition demo_section :: "u32 \<Rightarrow> u32 \<Rightarrow> section_desc" where
  "demo_section sz pages = \<lparr>sec_load_src = None, sec_size = sz, sec_align_in_page = pages, sec_sub_sections = []\<rparr>"

lemma demo_malloc:
  "\<exists>g p'. malloc_buf demo_ctrl AIPU_MM_DATA_TYPE_REUSE 0x2800 1 buffer_desc_init 0 demo_proc = Some (AIPU_STATUS_SUCCESS, g, p') \<and>
     unat (bu_pa g) < 2 ^ 32"
  by (simp add: malloc_buf_def dev_op_wrapper_malloc_def sys_ioctl_def sys_mmap_def demo_ctrl_def demo_proc_def demo_uenv_def
    env_now_def next_call_def malloc_req_def aipu_ioctl_def errcode_defs ioctl_reqbuf_def demo_sys_def demo_run_simps
    Let_def aipu_session_add_buf_def create_session_buf_def init_session_buf_def merge_copy_def to_user_def user_ret_def
    aipu_mmap_def aipu_session_mmap_buf_def find_buffer_byoffset_no_lock_def page_up_def put_simps demo_session_def
    demo_jobs_heap_def PAGE_SHIFT_def AIPU_MM_DATA_TYPE_REUSE_def map_range_def)

lemma demo_group_offsets: "group_offsets 0 (demo_section 0x1800 1) [demo_section 0x800 2] = Some [0, 0x2000]"
proof -
  obtain a where a: "get_aligned_addr 0x1800 2 = Some a" "unat a = 0x2000"
    using get_aligned_addr_least [of 2 "0x1800"] by (auto simp: align_up_def)
  then have "a = 0x2000" by (simp add: word_unat_eq_iff)
  then show ?thesis using a(1) by (simp add: demo_section_def)
qed

theorem group_children_witness:
  "\<exists>bufs g p'. alloc_group_buffers demo_ctrl [demo_section 0x1800 1, demo_section 0x800 2] AIPU_MM_DATA_TYPE_REUSE []
       buffer_desc_init demo_proc = Some (AIPU_STATUS_SUCCESS, bufs, g, p') \<and> length bufs = 2 \<and>
     unat (bu_pa (bufs ! 0)) + unat (bu_size (bufs ! 0)) \<le> unat (bu_pa (bufs ! 1))"
proof -
  let ?s0 = "demo_section 0x1800 1" and ?s1 = "demo_section 0x800 2"
  obtain g p' where g: "malloc_buf demo_ctrl AIPU_MM_DATA_TYPE_REUSE 0x2800 1 buffer_desc_init 0 demo_proc = Some (AIPU_STATUS_SUCCESS, g, p')"
    "unat (bu_pa g) < 2 ^ 32" using demo_malloc by blast
  have u: "ue_uninit_buf (env_now demo_proc) = buffer_desc_init" by (simp add: env_now_def demo_proc_def demo_uenv_def)
  have e: "sec_size ?s1 = 0x800" "sec_align_in_page ?s0 = 1" by (simp_all add: demo_section_def)
  have "\<exists>bufs. alloc_group_buffers demo_ctrl [?s0, ?s1] AIPU_MM_DATA_TYPE_REUSE [] buffer_desc_init demo_proc =
      Some (AIPU_STATUS_SUCCESS, bufs, g, p')"
    by (simp add: alloc_group_buffers_def demo_group_offsets u e g Let_def del: group_offsets.simps)
  then obtain bufs where r: "alloc_group_buffers demo_ctrl [?s0, ?s1] AIPU_MM_DATA_TYPE_REUSE [] buffer_desc_init demo_proc =
      Some (AIPU_STATUS_SUCCESS, bufs, g, p')" ..
  have al: "aligned_sections [?s0, ?s1]" by (simp add: aligned_sections_def demo_section_def)
  have ge: "group_end 0 [?s0, ?s1] = 0x2800" by (simp add: demo_section_def align_up_def)
  have "group_end 0 [?s0, ?s1] < 2 ^ 32" "unat (bu_pa g) + group_end 0 [?s0, ?s1] < 2 ^ 64" using g(2) unfolding ge by simp_all
  note gc = group_children [OF r al this]
  have l: "length bufs = 2" using gc by simp
  have "unat (bu_pa (bufs ! 0)) + unat (bu_size (bufs ! 0)) \<le> unat (bu_pa (bufs ! 1))"
    by (rule gc [THEN conjunct2, THEN conjunct2, THEN conjunct2, rule_format]) (simp_all add: l)
  then show ?thesis using r l by blast
qed

end
