(* ===== verification/GraphTyped.thy ===== *)
theory GraphTyped
  imports UmdContext
begin

text \<open>
  The references inside a graph: the tensors and parameters that the loader extracts name
  sections that exist, and the buffers of a loaded graph and of its threads are indexed
  inside their bounds.
\<close>

subsection \<open>References to sections\<close>

definition all_tensors :: "graph_info \<Rightarrow> io_tensor_desc list" where
  "all_tensors info = gi_inputs info @ gi_outputs info @ gi_inter_dumps info @ gi_pdata info @ gi_plog_data info"

definition tensors_in :: "nat \<Rightarrow> io_tensor_desc list \<Rightarrow> bool" where
  "tensors_in nr ts \<longleftrightarrow> (\<forall>t \<in> set ts. unat (io_ref_section_iter t) < nr)"

definition params_in :: "nat \<Rightarrow> nat \<Rightarrow> param_map_load_desc list \<Rightarrow> bool" where
  "params_in nr ns ps \<longleftrightarrow> (\<forall>m \<in> set ps.
     (pm_load_type m = PARAM_MAP_LOAD_TYPE_REUSE \<longrightarrow> unat (pm_ref_section_iter m) < nr) \<and>
     (pm_load_type m = PARAM_MAP_LOAD_TYPE_STATIC \<longrightarrow> unat (pm_ref_section_iter m) < ns))"

definition refs_in :: "nat \<Rightarrow> nat \<Rightarrow> graph_info \<Rightarrow> bool" where
  "refs_in nr ns info \<longleftrightarrow> tensors_in nr (all_tensors info) \<and> params_in nr ns (gi_param_map info)"

abbreviation reuse_cnt :: "graph_info \<Rightarrow> nat" where
  "reuse_cnt info \<equiv> length (reuse_sections (gi_tbuf_templ info))"

abbreviation static_cnt :: "graph_info \<Rightarrow> nat" where
  "static_cnt info \<equiv> length (static_sections (gi_pbuf_templ info))"

definition info_typed :: "graph_info \<Rightarrow> bool" where
  "info_typed info \<longleftrightarrow> refs_in (reuse_cnt info) (static_cnt info) info"

lemma refs_in_mono: "refs_in nr ns info \<Longrightarrow> nr \<le> nr' \<Longrightarrow> ns \<le> ns' \<Longrightarrow> refs_in nr' ns' info"
  by (fastforce simp: refs_in_def tensors_in_def params_in_def)

lemma unat_of_nat_lt: "unat (of_nat i :: u32) < Suc i"
  by (simp add: unat_of_nat le_imp_less_Suc)

subsection \<open>What holds of a result\<close>

definition post :: "('a \<Rightarrow> bool) \<Rightarrow> 'a parsed \<Rightarrow> bool" where
  "post P m \<longleftrightarrow> (case m of Ok x \<Rightarrow> P x | _ \<Rightarrow> True)"

lemma post_simps [simp]: "post P (Ok x) = P x" "post P (Fail st)" "post P Overrun"
  by (simp_all add: post_def)

lemma post_bind: "post P m \<Longrightarrow> (\<And>x. P x \<Longrightarrow> post Q (f x)) \<Longrightarrow> post Q (pbind m f)"
  by (cases m) simp_all

lemma post_True: "post (\<lambda>_. True) m"
  by (cases m) simp_all

text \<open>References below \<open>nr\<close> and \<open>ns\<close>, while \<open>a\<close> and \<open>b\<close> sections are complete.\<close>

definition typed_at :: "nat \<Rightarrow> nat \<Rightarrow> nat \<Rightarrow> nat \<Rightarrow> graph_info \<Rightarrow> bool" where
  "typed_at nr ns a b info \<longleftrightarrow> refs_in nr ns info \<and> reuse_cnt info = a \<and> static_cnt info = b"

lemma parse_ro_typed:
  assumes "typed_at nr ns a b info" "\<And>w. params_in nr ns [param w]"
  shows "post (\<lambda>x. typed_at nr ns a b (snd x)) (parse_ro_entries r param n p info)"
  using assms(1)
proof (induction n arbitrary: p info)
  case (Suc n)
  have "typed_at nr ns a b (info\<lparr>gi_param_map := gi_param_map info @ [param w]\<rparr>)" for w
    using Suc.prems assms(2) by (auto simp: typed_at_def refs_in_def all_tensors_def params_in_def)
  then show ?case using Suc.IH by (auto intro!: post_bind [OF post_True])
qed simp

lemma fill_io_typed:
  assumes "typed_at nr ns a b info" "unat k < nr"
  shows "typed_at nr ns a b (fill_io_tensor_desc_inner k s info)"
  using assms by (auto simp: typed_at_def fill_io_tensor_desc_inner_def refs_in_def all_tensors_def tensors_in_def Let_def)

lemma parse_static_subs_typed:
  assumes "typed_at nr ns a b info" "unat k < ns"
  shows "post (\<lambda>x. typed_at nr ns a b (snd (snd x))) (parse_static_subs r k n i p sec info)"
  using assms(1)
proof (induction n arbitrary: i p sec info)
  case (Suc n)
  have P: "params_in nr ns [init_param w PARAM_MAP_LOAD_TYPE_STATIC k i off msk]" for w off msk
    using assms(2) by (simp add: params_in_def init_param_def PARAM_MAP_LOAD_TYPE_STATIC_def PARAM_MAP_LOAD_TYPE_REUSE_def)
  show ?case using Suc.IH
    by (auto simp: Let_def case_prod_beta intro!: post_bind [OF post_True] post_bind [OF parse_ro_typed [OF Suc.prems P]])
qed simp

lemma parse_reuse_subs_typed:
  assumes "typed_at nr ns a b info" "unat k < nr"
  shows "post (\<lambda>x. typed_at nr ns a b (snd (snd x))) (parse_reuse_subs r k n i p sec info)"
  using assms(1)
proof (induction n arbitrary: i p sec info)
  case (Suc n)
  have P: "params_in nr ns [init_param w PARAM_MAP_LOAD_TYPE_REUSE k i off msk]" for w off msk
    using assms(2) by (simp add: params_in_def init_param_def PARAM_MAP_LOAD_TYPE_STATIC_def PARAM_MAP_LOAD_TYPE_REUSE_def)
  have f: "typed_at nr ns a b (if c then fill_io_tensor_desc_inner k s info else info)" for c s
    using fill_io_typed [OF Suc.prems assms(2)] Suc.prems by simp
  show ?case unfolding parse_reuse_subs.simps Let_def
    by (intro post_bind [OF post_True] post_bind [OF parse_ro_typed [OF f P]])
       (use Suc.IH in \<open>simp add: case_prod_beta\<close>)
qed simp

lemma typed_at_templ:
  "typed_at nr ns a b (info\<lparr>gi_pbuf_templ := (gi_pbuf_templ info)\<lparr>static_sections := static_sections (gi_pbuf_templ info) @ [s]\<rparr>\<rparr>) =
    (0 < b \<and> typed_at nr ns a (b - 1) info)"
  "typed_at nr ns a b (info\<lparr>gi_tbuf_templ := (gi_tbuf_templ info)\<lparr>reuse_sections := reuse_sections (gi_tbuf_templ info) @ [s]\<rparr>\<rparr>) =
    (0 < a \<and> typed_at nr ns (a - 1) b info)"
  by (auto simp: typed_at_def refs_in_def all_tensors_def)

lemma typed_at_mono: "typed_at nr ns a b info \<Longrightarrow> nr \<le> nr' \<Longrightarrow> ns \<le> ns' \<Longrightarrow> typed_at nr' ns' a b info"
  using refs_in_mono by (auto simp: typed_at_def)

lemma parse_static_sections_typed:
  assumes "typed_at nr i a i info"
  shows "post (\<lambda>x. typed_at nr (i + n) a (i + n) (snd x)) (parse_static_sections r n (of_nat i) p info)"
  using assms
proof (induction n arbitrary: i p info)
  case (Suc n)
  have t: "typed_at nr (Suc i) a i info" by (rule typed_at_mono [OF Suc.prems]) simp_all
  have s: "(of_nat i :: u32) + 1 = of_nat (Suc i)" by simp
  show ?case unfolding parse_static_sections.simps Let_def s
    by (rule post_bind [OF post_True], rule post_bind [OF parse_static_subs_typed [OF t unat_of_nat_lt]])
       (use Suc.IH [of "Suc i"] in \<open>simp add: case_prod_beta typed_at_templ del: of_nat_Suc\<close>)
qed simp

lemma parse_reuse_sections_typed:
  assumes "typed_at i ns i b info"
  shows "post (\<lambda>x. typed_at (i + n) ns (i + n) b (snd x)) (parse_reuse_sections r n (of_nat i) p info)"
  using assms
proof (induction n arbitrary: i p info)
  case (Suc n)
  have t: "typed_at (Suc i) ns i b info" by (rule typed_at_mono [OF Suc.prems]) simp_all
  have s: "(of_nat i :: u32) + 1 = of_nat (Suc i)" by simp
  show ?case unfolding parse_reuse_sections.simps Let_def s
    by (rule post_bind [OF post_True], rule post_bind [OF parse_reuse_subs_typed [OF t unat_of_nat_lt]])
       (use Suc.IH [of "Suc i"] in \<open>simp add: case_prod_beta typed_at_templ del: of_nat_Suc\<close>)
qed simp

lemma parse_list_nodes_typed: "info_typed info \<Longrightarrow> post info_typed (parse_list_nodes bin n p info)"
proof (induction n arbitrary: p info)
  case (Suc n)
  have "info_typed (info\<lparr>gi_dcr_map := x\<rparr>)" for x using Suc.prems by (simp add: info_typed_def refs_in_def all_tensors_def)
  then show ?case using Suc.IH by (auto intro!: post_bind [OF post_True])
qed simp

lemma set_sort_io_loop: "set ts \<subseteq> A \<Longrightarrow> set acc \<subseteq> A \<Longrightarrow> set (snd (sort_io_loop n ts i acc)) \<subseteq> A"
proof (induction ts arbitrary: i acc)
  case (Cons t ts)
  have "set (acc[k := t]) \<subseteq> A" for k using set_update_subset_insert [of acc k t] Cons.prems by auto
  then show ?case using Cons by simp
qed simp

lemma set_sort_io_tensor: "t \<in> set (snd (sort_io_tensor ts)) \<Longrightarrow> t \<in> set ts"
  using set_sort_io_loop [of ts "set ts" ts] by (auto simp: sort_io_tensor_def)

lemma sort_tensors_typed: "info_typed info \<Longrightarrow> info_typed (sort_tensors info)"
  using set_sort_io_tensor [of _ "gi_outputs info"] set_sort_io_tensor [of _ "gi_inputs info"]
  by (cases "sort_io_tensor (gi_outputs info)")
     (auto simp: sort_tensors_def Let_def info_typed_def refs_in_def all_tensors_def tensors_in_def)

lemma parse_bss_typed:
  assumes "typed_at 0 0 0 0 info"
  shows "post info_typed (parse_bss_section bin bss_size info)"
proof -
  have t: "typed_at 0 0 0 0 (info\<lparr>gi_tbuf_templ := (gi_tbuf_templ info)\<lparr>tbuf_stack_size := x, stack_align_in_page := y\<rparr>\<rparr>)" for x y
    using assms by (simp add: typed_at_def refs_in_def all_tensors_def)
  have at: "info_typed i" if "typed_at nr ns nr ns i" for nr ns i using that by (auto simp: typed_at_def info_typed_def)
  have ll: "post info_typed (parse_linked_list r p i)" if "info_typed i" for r p i
    using that by (auto simp: parse_linked_list_def intro!: post_bind [OF post_True] parse_list_nodes_typed)
  note st = parse_static_sections_typed [of 0 0, OF t, simplified]
  note re = parse_reuse_sections_typed [of 0, simplified]
  show ?thesis unfolding parse_bss_section_def Let_def
    by (rule post_bind [OF post_True])
       (auto intro!: post_bind [OF st] post_bind [OF re] post_bind [OF ll] at sort_tensors_typed)
qed

lemma parse_graph_typed:
  "post info_typed (parse_graph dev bypass gr gsize empty_info)"
proof -
  have h: "post (\<lambda>x. typed_at 0 0 0 0 (fst x)) (parse_graph_header bin gsize empty_info)" for bin
    by (auto simp: parse_graph_header_def Let_def typed_at_def refs_in_def all_tensors_def tensors_in_def params_in_def empty_info_def)
  show ?thesis
    by (auto simp: parse_graph_def split: option.splits intro!: post_bind [OF h] post_bind [OF parse_bss_typed])
qed

subsection \<open>Buffers of a graph\<close>

lemma length_group_offsets: "group_offsets off prev ss = Some offs \<Longrightarrow> length offs = Suc (length ss)"
  by (induction ss arbitrary: off prev offs) (auto simp: bind_eq_Some_conv)

lemma alloc_group_length:
  assumes "alloc_group_buffers c ss dtype [] grp p = Some (AIPU_STATUS_SUCCESS, bufs, grp', p')"
  shows "length bufs = length ss"
  using assms
  by (cases ss) (auto simp: alloc_group_buffers_def Let_def bind_eq_Some_conv dest!: length_group_offsets split: if_splits)

lemma create_iobuf_info_ok:
  assumes "tensors_in (length bufs) ts"
  shows "\<exists>ios. create_iobuf_info bufs ts = Some ios \<and> map iob_id ios = map io_id ts"
  using assms by (induction ts) (auto simp: tensors_in_def Let_def)

text \<open>The references of a graph, with its number of static buffers.\<close>

definition graph_typed :: "graph \<Rightarrow> bool" where
  "graph_typed g \<longleftrightarrow>
     (let nr = length (reuse_sections (gr_tbuf_templ g))
      in tensors_in nr (gr_inputs g @ gr_outputs g @ gr_inter_dumps g @ gr_pdata g @ gr_plog_data g) \<and>
         params_in nr (length (pb_static_buf (gr_pbuf g))) (gr_param_map g))"

lemma create_iobufs_ok:
  assumes "graph_typed g" "length bufs = length (reuse_sections (gr_tbuf_templ g))"
  shows "\<exists>io. create_iobufs g bufs = Some io \<and> map iob_id (iob_inputs io) = map io_id (gr_inputs g) \<and>
    map iob_id (iob_outputs io) = map io_id (gr_outputs g)"
proof -
  have t: "tensors_in (length bufs) ts"
    if "set ts \<subseteq> set (gr_inputs g @ gr_outputs g @ gr_inter_dumps g @ gr_pdata g @ gr_plog_data g)" for ts
    using assms that by (auto simp: graph_typed_def Let_def tensors_in_def)
  have s: "set ts \<subseteq> set (gr_inputs g @ gr_outputs g @ gr_inter_dumps g @ gr_pdata g @ gr_plog_data g)"
    if "ts \<in> {gr_inputs g, gr_outputs g, gr_inter_dumps g, gr_pdata g, gr_plog_data g}" for ts using that by auto
  have ok: "\<exists>ios. create_iobuf_info bufs ts = Some ios \<and> map iob_id ios = map io_id ts"
    if "ts \<in> {gr_inputs g, gr_outputs g, gr_inter_dumps g, gr_pdata g, gr_plog_data g}" for ts
    by (rule create_iobuf_info_ok [OF t [OF s [OF that]]])
  show ?thesis using ok [of "gr_inputs g"] ok [of "gr_outputs g"] ok [of "gr_inter_dumps g"] ok [of "gr_pdata g"] ok [of "gr_plog_data g"]
    unfolding create_iobufs_def by auto
qed

lemma param_pa_ok:
  assumes "graph_typed g" "m \<in> set (gr_param_map g)" "length (tb_reuse_buf tbuf) = length (reuse_sections (gr_tbuf_templ g))"
  shows "\<exists>pa. param_pa c g tbuf m = Inr pa"
proof -
  have "params_in (length (tb_reuse_buf tbuf)) (length (pb_static_buf (gr_pbuf g))) (gr_param_map g)"
    using assms(1,3) by (simp add: graph_typed_def Let_def)
  then have "(pm_load_type m = PARAM_MAP_LOAD_TYPE_REUSE \<longrightarrow> unat (pm_ref_section_iter m) < length (tb_reuse_buf tbuf)) \<and>
      (pm_load_type m = PARAM_MAP_LOAD_TYPE_STATIC \<longrightarrow> unat (pm_ref_section_iter m) < length (pb_static_buf (gr_pbuf g)))"
    unfolding params_in_def using assms(2) by (rule bspec)
  then have "\<not> (pm_load_type m = PARAM_MAP_LOAD_TYPE_REUSE \<and> length (tb_reuse_buf tbuf) \<le> unat (pm_ref_section_iter m) \<or>
      pm_load_type m = PARAM_MAP_LOAD_TYPE_STATIC \<and> length (pb_static_buf (gr_pbuf g)) \<le> unat (pm_ref_section_iter m))" by auto
  then show ?thesis unfolding param_pa_def Let_def by (simp only: if_False) simp
qed

lemma graph_load_typed:
  assumes "graph_load c bin info mf (new_graph gid) p = Some (AIPU_STATUS_SUCCESS, g, p')" "info_typed info"
  shows "graph_typed g"
proof -
  have "gr_tbuf_templ g = gi_tbuf_templ info \<and> gr_inputs g = gi_inputs info \<and> gr_outputs g = gi_outputs info \<and>
      gr_inter_dumps g = gi_inter_dumps info \<and> gr_pdata g = gi_pdata info \<and> gr_plog_data g = gi_plog_data info \<and>
      gr_param_map g = gi_param_map info \<and> length (pb_static_buf (gr_pbuf g)) = static_cnt info"
    using assms(1)
    by (auto simp: graph_load_def Let_def bind_eq_Some_conv new_graph_def split: if_splits dest: alloc_group_length)
  then show ?thesis using assms(2) by (simp add: graph_typed_def Let_def info_typed_def refs_in_def all_tensors_def)
qed

end
