(* ===== verification/UmdGraphSpec.thy ===== *)
theory UmdGraphSpec
  imports GraphTyped
begin

text \<open>
  The properties of a loaded graph: what holds of its jobs and buffers in every state that
  the operations reach, the identifiers, building a job, and how jobs end.
\<close>

subsection \<open>Ordered maps\<close>

lemma bind_SomeE:
  assumes "Option.bind m f = Some y"
  obtains x where "m = Some x" "f x = Some y"
  using assms by (auto simp: bind_eq_Some_conv)

abbreviation keys :: "('k \<times> 'a) list \<Rightarrow> 'k list" where
  "keys m \<equiv> map fst m"

lemma map_of_omap [simp]:
  "map_of (omap_insert k v m) = (map_of m)(k \<mapsto> v)"
  "map_of (omap_erase k m) = (map_of m)(k := None)"
  "map_of (omap_update k f m) k' = map_option (if k' = k then f else id) (map_of m k')"
proof -
  show "map_of (omap_insert k v m) = (map_of m)(k \<mapsto> v)"
    by (induction k v m rule: omap_insert.induct) (auto simp: fun_eq_iff)
  show "map_of (omap_erase k m) = (map_of m)(k := None)"
    unfolding omap_erase_def by (induction m) (auto simp: fun_eq_iff)
  show "map_of (omap_update k f m) k' = map_option (if k' = k then f else id) (map_of m k')"
    unfolding omap_update_def by (induction m) auto
qed

lemma keys_omap:
  "set (keys (omap_insert k v m)) = insert k (set (keys m))"
  "keys (omap_update k f m) = keys m"
  by (induction k v m rule: omap_insert.induct) (auto simp: omap_update_def)

lemma sorted_omap [simp]:
  "sorted_wrt (<) (keys m) \<Longrightarrow> sorted_wrt (<) (keys (omap_insert k v m))"
  "sorted_wrt (<) (keys m) \<Longrightarrow> sorted_wrt (<) (keys (omap_erase k m))"
  "sorted_wrt (<) (keys (omap_update k f m)) = sorted_wrt (<) (keys m)"
proof -
  show "sorted_wrt (<) (keys m) \<Longrightarrow> sorted_wrt (<) (keys (omap_insert k v m))"
  proof (induction k v m rule: omap_insert.induct)
    case (2 k v k' v' m)
    then show ?case
      by (auto simp: keys_omap(1) [unfolded set_map] dest: order.strict_trans)
  qed simp
  show "sorted_wrt (<) (keys m) \<Longrightarrow> sorted_wrt (<) (keys (omap_erase k m))"
    by (induction m) (auto simp: omap_erase_def)
  show "sorted_wrt (<) (keys (omap_update k f m)) = sorted_wrt (<) (keys m)" by (simp add: keys_omap(2))
qed

subsection \<open>Free identifiers\<close>

lemma first_free_id_spec:
  assumes "\<not> used (base + of_nat k)" "\<And>i. i < k \<Longrightarrow> used (base + of_nat i)"
  shows "first_free_id used base = Some (base + of_nat k)"
  using assms
proof (induction k arbitrary: base)
  case 0
  then show ?case by (simp add: first_free_id.simps [of used base])
next
  case (Suc k)
  have "used base" using Suc.prems(2) [of 0] by simp
  moreover have "first_free_id used (base + 1) = Some (base + 1 + of_nat k)"
  proof (rule Suc.IH)
    show "\<not> used (base + 1 + of_nat k)" using Suc.prems(1) by (simp add: ac_simps)
    show "used (base + 1 + of_nat i)" if "i < k" for i using Suc.prems(2) [of "Suc i"] that by (simp add: ac_simps)
  qed
  ultimately show ?case by (subst first_free_id.simps) (simp add: ac_simps)
qed

lemma first_free_id_least:
  assumes "finite U" "card U < 2 ^ 32" "\<And>i. used i \<Longrightarrow> i \<in> U"
  obtains k where "first_free_id used base = Some (base + of_nat k)" "\<not> used (base + of_nat k)" "k \<le> card U"
    "\<And>i. i < k \<Longrightarrow> used (base + of_nat i)"
proof -
  have ex: "\<exists>k \<le> card U. \<not> used (base + of_nat k)"
  proof (rule ccontr)
    assume "\<not> ?thesis"
    then have sub: "(\<lambda>k. base + of_nat k) ` {..card U} \<subseteq> U" using assms(3) by auto
    have "inj_on (\<lambda>k. base + of_nat k :: u32) {..card U}"
    proof (rule inj_onI)
      fix x y assume h: "x \<in> {..card U}" "y \<in> {..card U}" "base + of_nat x = base + (of_nat y :: u32)"
      then have "(of_nat x :: u32) = of_nat y" by simp
      then show "x = y" using h(1,2) assms(2) by (simp add: of_nat_inverse [where 'a = 32] word_of_nat_eq_iff take_bit_nat_eq_self)
    qed
    then have "card {..card U} \<le> card U" using card_inj_on_le [OF _ sub assms(1)] by blast
    then show False by simp
  qed
  define k where "k = (LEAST k. \<not> used (base + of_nat k))"
  have k: "\<not> used (base + of_nat k)" using ex unfolding k_def by (metis (lifting) LeastI)
  have lt: "used (base + of_nat i)" if "i < k" for i using not_less_Least [OF that [unfolded k_def]] by simp
  have "k \<le> card U" using ex lt by (metis not_le order.strict_trans2)
  moreover have "first_free_id used base = Some (base + of_nat k)" using k lt by (rule first_free_id_spec)
  ultimately show thesis using that k lt by blast
qed

lemma id_names_graph:
  assumes "gid < 0x10000" "k < 0x10000"
  shows "drop_bit 16 (push_bit 16 gid + of_nat k) = (gid :: u32)"
proof -
  have g: "unat gid < 2 ^ 16" using assms(1) by (simp add: word_less_nat_alt)
  have "unat (push_bit 16 gid) = unat gid * 2 ^ 16"
    using g by (simp add: push_bit_eq_mult unat_word_ariths)
  then have "unat (push_bit 16 gid + of_nat k) = unat gid * 2 ^ 16 + k"
    using g assms(2) by (simp add: unat_word_ariths unat_of_nat)
  then have "unat (drop_bit 16 (push_bit 16 gid + of_nat k)) = unat gid"
    using assms(2) unfolding unat_drop_bit_eq by (simp add: drop_bit_eq_div)
  then show ?thesis by (simp add: word_unat_eq_iff)
qed

subsection \<open>The states of a graph\<close>

text \<open>
  Everything that the driver does with a graph after the load: the calls of the
  application, the updates of a poll and the timeout of a wait. Each may fail.
\<close>

inductive graph_step :: "device_ctrl \<Rightarrow> graph \<Rightarrow> graph \<Rightarrow> bool" for c :: device_ctrl where
  alloc_tb: "alloc_thread_buffer c g p = Some (st, r, g', p') \<Longrightarrow> graph_step c g g'"
| free_tb: "free_thread_buffer c h g p = Some (st, g', p') \<Longrightarrow> graph_step c g g'"
| build: "build_new_job c h g p = Some (st, r, g', p') \<Longrightarrow> graph_step c g g'"
| flush: "flush_job c jid g p = Some (st, g', p') \<Longrightarrow> graph_step c g g'"
| report: "update_job_status_desc js g = (st, g') \<Longrightarrow> graph_step c g g'"
| status: "update_job_status jid s g = (st, g') \<Longrightarrow> graph_step c g g'"
| timeout: "graph_step c g (put_job jid (\<lambda>j. j\<lparr>jd_state := JOB_STATE_TIMEOUT\<rparr>) g)"
| dump: "set_dump_options jid opt g p = (st, g', p') \<Longrightarrow> graph_step c g g'"
| clean: "clean_job jid g = (st, g') \<Longrightarrow> graph_step c g g'"
| unload: "graph_unload c g p = Some (st, g', p') \<Longrightarrow> graph_step c g g'"

inductive graph_reach :: "device_ctrl \<Rightarrow> u32 \<Rightarrow> graph \<Rightarrow> bool" for c :: device_ctrl and gid :: u32 where
  loaded: "parse_graph dev bypass (Some bin) gsize empty_info = Ok info \<Longrightarrow>
     graph_load c bin info mf (new_graph gid) p = Some (AIPU_STATUS_SUCCESS, g, p') \<Longrightarrow> graph_reach c gid g"
| step: "graph_reach c gid g \<Longrightarrow> graph_step c g g' \<Longrightarrow> graph_reach c gid g'"

text \<open>
  The buffers and jobs of a graph. A thread buffer carries its handle and has a buffer for
  every section. A job carries its identifier, and its buffer exists, is in use,
  and belongs to no other job.
\<close>

definition tbufs_ok :: "graph \<Rightarrow> bool" where
  "tbufs_ok g \<longleftrightarrow> sorted_wrt (<) (keys (gr_tbufs g)) \<and>
     (\<forall>h t. get_tbuf_ptr g h = Some t \<longrightarrow>
        tb_handle t = h \<and> length (tb_reuse_buf t) = length (reuse_sections (gr_tbuf_templ g)))"

definition job_table_ok :: "graph \<Rightarrow> bool" where
  "job_table_ok g \<longleftrightarrow> sorted_wrt (<) (keys (gr_jobs g)) \<and>
     (\<forall>i j. get_job_ptr g i = Some j \<longrightarrow>
        jd_id j = i \<and> (\<exists>t. get_tbuf_ptr g (jd_buf_handle j) = Some t \<and> \<not> tb_is_free t)) \<and>
     (\<forall>i j i' j'. get_job_ptr g i = Some j \<and> get_job_ptr g i' = Some j' \<and> jd_buf_handle j = jd_buf_handle j' \<longrightarrow> i = i')"

definition graph_ok :: "graph \<Rightarrow> bool" where
  "graph_ok g \<longleftrightarrow> graph_typed g \<and> tbufs_ok g \<and> job_table_ok g"

lemma get_ptr_put [simp]:
  "get_job_ptr (put_job i f g) k = map_option (if k = i then f else id) (get_job_ptr g k)"
  "get_tbuf_ptr (put_job i f g) h = get_tbuf_ptr g h"
  "get_tbuf_ptr (put_tbuf i f' g) k = map_option (if k = i then f' else id) (get_tbuf_ptr g k)"
  "get_job_ptr (put_tbuf i f' g) h = get_job_ptr g h"
  by (simp_all add: get_job_ptr_def get_tbuf_ptr_def put_job_def put_tbuf_def)

lemma graph_typed_put [simp]:
  "graph_typed (put_job i f g) = graph_typed g" "graph_typed (put_tbuf i f' g) = graph_typed g"
  "graph_typed (g\<lparr>gr_jobs := js\<rparr>) = graph_typed g" "graph_typed (g\<lparr>gr_sched := q\<rparr>) = graph_typed g"
  "graph_typed (g\<lparr>gr_tbufs := ts\<rparr>) = graph_typed g"
  by (simp_all add: graph_typed_def put_job_def put_tbuf_def)

text \<open>A change of a job that keeps its identifier and buffer keeps the graph in order.\<close>

lemma tbufs_ok_put_job [simp]: "tbufs_ok (put_job i f g) = tbufs_ok g"
  by (simp add: tbufs_ok_def get_tbuf_ptr_def put_job_def)

lemma job_table_okI:
  assumes "sorted_wrt (<) (keys (gr_jobs g))"
    and "\<And>i j. get_job_ptr g i = Some j \<Longrightarrow> jd_id j = i"
    and "\<And>i j. get_job_ptr g i = Some j \<Longrightarrow> \<exists>t. get_tbuf_ptr g (jd_buf_handle j) = Some t \<and> \<not> tb_is_free t"
    and "\<And>i j i' j'. get_job_ptr g i = Some j \<Longrightarrow> get_job_ptr g i' = Some j' \<Longrightarrow>
      jd_buf_handle j = jd_buf_handle j' \<Longrightarrow> i = i'"
  shows "job_table_ok g"
  using assms unfolding job_table_ok_def by blast

lemma job_table_okD:
  assumes "job_table_ok g"
  shows "sorted_wrt (<) (keys (gr_jobs g))"
    and "get_job_ptr g i = Some j \<Longrightarrow> jd_id j = i"
    and "get_job_ptr g i = Some j \<Longrightarrow> \<exists>t. get_tbuf_ptr g (jd_buf_handle j) = Some t \<and> \<not> tb_is_free t"
    and "get_job_ptr g i = Some j \<Longrightarrow> get_job_ptr g i' = Some j' \<Longrightarrow> jd_buf_handle j = jd_buf_handle j' \<Longrightarrow> i = i'"
  using assms unfolding job_table_ok_def by blast+

lemma graph_ok_put_job:
  assumes "graph_ok g" "\<And>j. get_job_ptr g i = Some j \<Longrightarrow> jd_id (f j) = jd_id j \<and> jd_buf_handle (f j) = jd_buf_handle j"
  shows "graph_ok (put_job i f g)"
proof -
  have J: "job_table_ok g" using assms(1) by (simp add: graph_ok_def)
  have get: "\<exists>j0. get_job_ptr g k = Some j0 \<and> jd_id j = jd_id j0 \<and> jd_buf_handle j = jd_buf_handle j0"
    if "get_job_ptr (put_job i f g) k = Some j" for k j
    using that assms(2) by (auto split: if_splits)
  have "job_table_ok (put_job i f g)"
  proof (rule job_table_okI)
    show "sorted_wrt (<) (keys (gr_jobs (put_job i f g)))" using job_table_okD(1) [OF J] by (simp add: put_job_def)
  next
    fix k j assume "get_job_ptr (put_job i f g) k = Some j"
    note j = get [OF this]
    show "jd_id j = k" using j job_table_okD(2) [OF J] by auto
    show "\<exists>t. get_tbuf_ptr (put_job i f g) (jd_buf_handle j) = Some t \<and> \<not> tb_is_free t"
      using j job_table_okD(3) [OF J] by auto
  next
    fix k j k' j'
    assume a: "get_job_ptr (put_job i f g) k = Some j" "get_job_ptr (put_job i f g) k' = Some j'" "jd_buf_handle j = jd_buf_handle j'"
    obtain j0 j0' where j0: "get_job_ptr g k = Some j0" "jd_buf_handle j = jd_buf_handle j0"
      "get_job_ptr g k' = Some j0'" "jd_buf_handle j' = jd_buf_handle j0'" using get [OF a(1)] get [OF a(2)] by auto
    show "k = k'" by (rule job_table_okD(4) [OF J j0(1,3)]) (use a(3) j0 in simp)
  qed
  then show ?thesis using assms(1) by (simp add: graph_ok_def)
qed

lemma graph_ok_sched [simp]: "graph_ok (g\<lparr>gr_sched := q\<rparr>) = graph_ok g"
  by (simp add: graph_ok_def tbufs_ok_def job_table_ok_def get_job_ptr_def get_tbuf_ptr_def)

subsection \<open>Every operation keeps a graph in order\<close>

lemma update_status_ok:
  "graph_ok g \<Longrightarrow> graph_ok (snd (update_job_status_desc js g))" "graph_ok g \<Longrightarrow> graph_ok (snd (update_job_status jid s g))"
  by (auto simp: update_job_status_desc_def update_job_status_def split: option.splits intro!: graph_ok_put_job)

lemma set_dump_ok: "graph_ok g \<Longrightarrow> set_dump_options jid opt g p = (st, g', p') \<Longrightarrow> graph_ok g'"
  by (auto simp: set_dump_options_def Let_def split: option.splits if_splits intro!: graph_ok_put_job)

lemma schedule_keeps:
  assumes "schedule_job_on_aipu c job p = Some (st, job', p')"
  shows "jd_id job' = jd_id job \<and> jd_buf_handle job' = jd_buf_handle job"
  using assms by (auto simp: schedule_job_on_aipu_def Let_def bind_eq_Some_conv split: if_splits)

lemma put_job_sched: "put_job i f (g\<lparr>gr_sched := q\<rparr>) = (put_job i f g)\<lparr>gr_sched := q\<rparr>"
  by (simp add: put_job_def)

lemma flush_job_ok:
  assumes "graph_ok g" "flush_job c jid g p = Some (st, g', p')"
  shows "graph_ok g'"
proof (cases "get_job_ptr g jid")
  case None
  then show ?thesis using assms by (simp add: flush_job_def)
next
  case (Some job)
  let ?j = "(if jd_dump_flag job AND AIPU_DUMP_DRV_PROF_DATA \<noteq> 0 then job\<lparr>jd_config := (jd_config job)\<lparr>cf_enable_prof := 1\<rparr>\<rparr> else job)
    \<lparr>jd_state := JOB_STATE_SCHED\<rparr>"
  show ?thesis
  proof (cases "jd_state job \<noteq> JOB_STATE_BUILT")
    case False
    then obtain job3 where s: "schedule_job_on_aipu c ?j p = Some (st, job3, p')"
      and g': "g' = (if st \<noteq> AIPU_STATUS_SUCCESS then delete_from_sched_queue_inner jid (put_job jid (\<lambda>_. job3) (g\<lparr>gr_sched := gr_sched g @ [jd_id job]\<rparr>))
        else put_job jid (\<lambda>_. job3) (g\<lparr>gr_sched := gr_sched g @ [jd_id job]\<rparr>))"
      using assms(2) Some by (auto simp: flush_job_def Let_def bind_eq_Some_conv)
    have "jd_id job3 = jd_id job \<and> jd_buf_handle job3 = jd_buf_handle job" using schedule_keeps [OF s] by simp
    then have "graph_ok (put_job jid (\<lambda>_. job3) g)" using Some by (intro graph_ok_put_job [OF assms(1)]) simp
    then show ?thesis by (simp add: g' put_job_sched delete_from_sched_queue_inner_def)
  qed (use assms Some in \<open>simp add: flush_job_def\<close>)
qed

lemma get_tbuf_ptr_update [simp]:
  "get_tbuf_ptr (g\<lparr>gr_jobs := js\<rparr>) h = get_tbuf_ptr g h" "get_job_ptr (g\<lparr>gr_tbufs := ts\<rparr>) h = get_job_ptr g h"
  "get_tbuf_ptr (g\<lparr>gr_sched := q\<rparr>) h = get_tbuf_ptr g h" "get_job_ptr (g\<lparr>gr_sched := q\<rparr>) h = get_job_ptr g h"
  "get_tbuf_ptr (g\<lparr>gr_tbufs := ts\<rparr>) h = map_of ts h" "get_job_ptr (g\<lparr>gr_jobs := js\<rparr>) h = map_of js h"
  by (simp_all add: get_tbuf_ptr_def get_job_ptr_def)

lemma tbufs_ok_others [simp]: "tbufs_ok (g\<lparr>gr_jobs := js\<rparr>) = tbufs_ok g" "tbufs_ok (g\<lparr>gr_sched := q\<rparr>) = tbufs_ok g"
  by (simp_all add: tbufs_ok_def)

lemma tbufs_ok_free [simp]: "tbufs_ok (put_tbuf h (\<lambda>t. t\<lparr>tb_is_free := b\<rparr>) g) = tbufs_ok g"
proof -
  have "sorted_wrt (<) (keys (gr_tbufs (put_tbuf h (\<lambda>t. t\<lparr>tb_is_free := b\<rparr>) g))) = sorted_wrt (<) (keys (gr_tbufs g))"
    "gr_tbuf_templ (put_tbuf h (\<lambda>t. t\<lparr>tb_is_free := b\<rparr>) g) = gr_tbuf_templ g" by (simp_all add: put_tbuf_def)
  moreover have "(\<forall>t. map_option f x = Some t \<longrightarrow> P t) \<longleftrightarrow> (\<forall>t. x = Some t \<longrightarrow> P (f t))" for f :: "tbuf_info \<Rightarrow> tbuf_info" and x P
    by (cases x) simp_all
  ultimately show ?thesis unfolding tbufs_ok_def by (simp del: map_option_eq_Some) metis
qed

lemma clean_job_ok:
  assumes "graph_ok g"
  shows "graph_ok (snd (clean_job jid g))"
proof -
  have J: "job_table_ok g" and T: "tbufs_ok g" "graph_typed g" using assms by (simp_all add: graph_ok_def)
  show ?thesis
  proof (cases "get_job_ptr g jid")
    case (Some job)
    have id: "jd_id job = jid" by (rule job_table_okD(2) [OF J Some])
    let ?g = "put_tbuf (jd_buf_handle job) (\<lambda>t. t\<lparr>tb_is_free := True\<rparr>) g"
    have jobs: "gr_jobs ?g = gr_jobs g" by (simp add: put_tbuf_def)
    let ?g' = "?g\<lparr>gr_sched := remove1 jid (gr_sched g), gr_jobs := omap_erase jid (gr_jobs g)\<rparr>"
    have g: "get_job_ptr g k = Some j \<and> k \<noteq> jid" if "get_job_ptr ?g' k = Some j" for k j
      using that by (simp add: get_job_ptr_def split: if_splits)
    have "job_table_ok ?g'"
    proof (rule job_table_okI)
      show "sorted_wrt (<) (keys (gr_jobs ?g'))" using job_table_okD(1) [OF J] by simp
    next
      fix k j assume "get_job_ptr ?g' k = Some j"
      note k = g [OF this]
      show "jd_id j = k" by (rule job_table_okD(2) [OF J]) (use k in simp)
      have "jd_buf_handle j \<noteq> jd_buf_handle job" using job_table_okD(4) [OF J, of k j jid job] k Some by auto
      then show "\<exists>t. get_tbuf_ptr ?g' (jd_buf_handle j) = Some t \<and> \<not> tb_is_free t"
        using job_table_okD(3) [OF J, of k j] k by simp
    next
      fix k j k' j' assume a: "get_job_ptr ?g' k = Some j" "get_job_ptr ?g' k' = Some j'" "jd_buf_handle j = jd_buf_handle j'"
      show "k = k'" by (rule job_table_okD(4) [OF J _ _ a(3)]) (use g [OF a(1)] g [OF a(2)] in simp_all)
    qed
    then have "graph_ok ?g'" using T by (simp add: graph_ok_def)
    moreover have "gr_sched ?g = gr_sched g" by (simp add: put_tbuf_def)
    ultimately show ?thesis using assms Some id jobs
      by (simp add: clean_job_def Let_def delete_from_sched_queue_inner_def)
  qed (use assms in \<open>simp add: clean_job_def\<close>)
qed

lemma job_table_ok_tbufs:
  assumes "job_table_ok g" "\<And>h t. get_tbuf_ptr g h = Some t \<Longrightarrow> \<not> tb_is_free t \<Longrightarrow> map_of ts h = Some t"
  shows "job_table_ok (g\<lparr>gr_tbufs := ts\<rparr>)"
proof -
  have "\<exists>t. map_of ts (jd_buf_handle j) = Some t \<and> \<not> tb_is_free t" if "get_job_ptr g i = Some j" for i j
    using job_table_okD(3) [OF assms(1) that] assms(2) by blast
  then show ?thesis using job_table_okD [OF assms(1)] by (intro job_table_okI) simp_all
qed

lemma free_thread_buffer_cases:
  assumes "free_thread_buffer c h g p = Some (st, g', p')"
  shows "st \<noteq> AIPU_STATUS_SUCCESS \<and> g' = g \<or>
    st = AIPU_STATUS_SUCCESS \<and> (\<exists>t. get_tbuf_ptr g h = Some t \<and> tb_is_free t \<and> g' = g\<lparr>gr_tbufs := omap_erase h (gr_tbufs g)\<rparr>)"
  using assms unfolding free_thread_buffer_def
  by (auto elim!: bind_SomeE split: if_splits option.splits)

lemma free_thread_buffer_ok:
  assumes "graph_ok g" "free_thread_buffer c h g p = Some (st, g', p')"
  shows "graph_ok g'"
proof -
  have J: "job_table_ok g" and T: "tbufs_ok g" "graph_typed g" using assms(1) by (simp_all add: graph_ok_def)
  have "graph_ok (g\<lparr>gr_tbufs := omap_erase h (gr_tbufs g)\<rparr>)" if t: "get_tbuf_ptr g h = Some t" "tb_is_free t" for t
  proof -
    have "job_table_ok (g\<lparr>gr_tbufs := omap_erase h (gr_tbufs g)\<rparr>)"
      by (rule job_table_ok_tbufs [OF J]) (use t in \<open>auto simp: get_tbuf_ptr_def\<close>)
    moreover have "tbufs_ok (g\<lparr>gr_tbufs := omap_erase h (gr_tbufs g)\<rparr>)"
      using T(1) by (auto simp: tbufs_ok_def get_tbuf_ptr_def)
    ultimately show ?thesis using T by (simp add: graph_ok_def)
  qed
  then show ?thesis using free_thread_buffer_cases [OF assms(2)] assms(1) by auto
qed

lemma first_free_id_unused: "first_free_id used base = Some r \<Longrightarrow> \<not> used r"
  by (rule first_free_id.raw_induct [of "\<lambda>used base r. \<not> used r"]) (auto split: if_splits)

lemma alloc_thread_buffer_fails:
  assumes "alloc_thread_buffer c g p = Some (st, r, g', p')" "st \<noteq> AIPU_STATUS_SUCCESS"
  shows "g' = g"
  using assms unfolding alloc_thread_buffer_def Let_def
  by (auto simp: bind_eq_Some_conv split: if_splits)

lemma alloc_thread_buffer_succeeds:
  assumes "alloc_thread_buffer c g p = Some (AIPU_STATUS_SUCCESS, r, g', p')"
  shows "\<exists>h t. create_buf_handle_inner g = Some h \<and> r = Some (h, tb_iobuf t) \<and> tb_handle t = h \<and> tb_is_free t \<and>
      length (tb_reuse_buf t) = length (reuse_sections (gr_tbuf_templ g)) \<and>
      create_iobufs g (tb_reuse_buf t) = Some (tb_iobuf t) \<and> g' = g\<lparr>gr_tbufs := omap_insert h t (gr_tbufs g)\<rparr>"
proof -
  have "\<exists>h stack rodata descriptor bufs grp io q q'.
      alloc_group_buffers c (reuse_sections (gr_tbuf_templ g)) AIPU_MM_DATA_TYPE_REUSE [] (ue_uninit_buf (env_now p)) q =
        Some (AIPU_STATUS_SUCCESS, bufs, grp, q') \<and> create_iobufs g bufs = Some io \<and>
      create_buf_handle_inner g = Some h \<and> r = Some (h, io) \<and>
      g' = g\<lparr>gr_tbufs := omap_insert h \<lparr>tb_handle = h, tb_is_free = True, tb_stack = stack, tb_rodata = rodata,
        tb_descriptor = descriptor, tb_reuse_buf = bufs, tb_reuse_group = grp, tb_iobuf = io\<rparr> (gr_tbufs g)\<rparr>"
    using assms unfolding alloc_thread_buffer_def Let_def
    by (clarsimp simp: bind_eq_Some_conv split: if_splits) blast
  then show ?thesis by (elim exE conjE) (intro exI conjI, auto dest: alloc_group_length)
qed

lemma alloc_thread_buffer_ok:
  assumes "graph_ok g" "alloc_thread_buffer c g p = Some (st, r, g', p')"
  shows "graph_ok g'"
proof -
  have J: "job_table_ok g" and T: "tbufs_ok g" "graph_typed g" using assms(1) by (simp_all add: graph_ok_def)
  have "graph_ok (g\<lparr>gr_tbufs := omap_insert h t (gr_tbufs g)\<rparr>)"
    if t: "create_buf_handle_inner g = Some h" "tb_handle t = h" "length (tb_reuse_buf t) = length (reuse_sections (gr_tbuf_templ g))" for h t
  proof -
    have new: "get_tbuf_ptr g h = None" using first_free_id_unused t(1) unfolding create_buf_handle_inner_def by fastforce
    have "job_table_ok (g\<lparr>gr_tbufs := omap_insert h t (gr_tbufs g)\<rparr>)"
      by (rule job_table_ok_tbufs [OF J]) (use new in \<open>auto simp: get_tbuf_ptr_def\<close>)
    moreover have "tbufs_ok (g\<lparr>gr_tbufs := omap_insert h t (gr_tbufs g)\<rparr>)"
      using T(1) t(2,3) by (auto simp: tbufs_ok_def get_tbuf_ptr_def)
    ultimately show ?thesis using T by (simp add: graph_ok_def)
  qed
  then show ?thesis
    using alloc_thread_buffer_fails [OF assms(2)] alloc_thread_buffer_succeeds [of c g p r g' p'] assms by (cases "st = AIPU_STATUS_SUCCESS") auto
qed

definition umd_job :: "device_ctrl \<Rightarrow> graph \<Rightarrow> tbuf_info \<Rightarrow> u32 \<Rightarrow> u32 \<Rightarrow> job_desc" where
  "umd_job c g tbuf jid handle = \<lparr>jd_id = jid, jd_buf_handle = handle, jd_state = JOB_STATE_BUILT,
     jd_config = job_config c g tbuf, jd_dump_flag = 0, jd_dump_fname_suffix = [], jd_dump_dir = [], jd_pdata = zero_pdata\<rparr>"

lemma put_tbuf_fields [simp]:
  "gr_jobs (put_tbuf h f g) = gr_jobs g" "gr_gdesc (put_tbuf h f g) = gr_gdesc g" "gr_param_map (put_tbuf h f g) = gr_param_map g"
  "gr_tbuf_templ (put_tbuf h f g) = gr_tbuf_templ g" "gr_pbuf (put_tbuf h f g) = gr_pbuf g" "gr_sched (put_tbuf h f g) = gr_sched g"
  by (simp_all add: put_tbuf_def)

lemma job_config_put_tbuf [simp]: "job_config c (put_tbuf h f g) = job_config c g"
  by (intro ext) (simp add: job_config_def is_asid_enabled_def put_tbuf_def)

lemma create_job_id_put_tbuf [simp]: "create_job_id_inner (put_tbuf h f g) = create_job_id_inner g"
proof -
  have "is_job_exist_inner (put_tbuf h f g) = is_job_exist_inner g"
    by (intro ext) (simp add: is_job_exist_inner_def is_job_built_inner_def is_job_scheduled_inner_def is_job_end_inner_def)
  then show ?thesis by (simp add: create_job_id_inner_def)
qed

lemma build_new_job_cases:
  assumes "build_new_job c h g p = Some (st, r, g', p')"
  shows "st \<noteq> AIPU_STATUS_SUCCESS \<and> r = None \<and> (g' = g \<or> (\<exists>t. get_tbuf_ptr g h = Some t \<and> tb_is_free t \<and>
       g' = put_tbuf h (\<lambda>t. t\<lparr>tb_is_free := False\<rparr>) g)) \<or>
    st = AIPU_STATUS_SUCCESS \<and> (\<exists>t jid. get_tbuf_ptr g h = Some t \<and> tb_is_free t \<and> create_job_id_inner g = Some jid \<and> r = Some jid \<and>
       g' = (put_tbuf h (\<lambda>t. t\<lparr>tb_is_free := False\<rparr>) g)\<lparr>gr_jobs := omap_insert jid (umd_job c g t jid h) (gr_jobs g)\<rparr>)"
  using assms by (auto simp: build_new_job_def umd_job_def Let_def bind_eq_Some_conv split: option.splits if_splits)

lemma job_table_ok_busy:
  assumes "job_table_ok g" "get_tbuf_ptr g h = Some t" "tb_is_free t"
  shows "job_table_ok (put_tbuf h (\<lambda>t. t\<lparr>tb_is_free := False\<rparr>) g)"
    and "get_job_ptr g i = Some j \<Longrightarrow> jd_buf_handle j \<noteq> h"
proof -
  show ne: "jd_buf_handle j \<noteq> h" if "get_job_ptr g i = Some j" for i j
    using job_table_okD(3) [OF assms(1) that] assms(2,3) by auto
  show "job_table_ok (put_tbuf h (\<lambda>t. t\<lparr>tb_is_free := False\<rparr>) g)"
  proof (rule job_table_okI)
    show "\<exists>t. get_tbuf_ptr (put_tbuf h (\<lambda>t. t\<lparr>tb_is_free := False\<rparr>) g) (jd_buf_handle j) = Some t \<and> \<not> tb_is_free t"
      if "get_job_ptr (put_tbuf h (\<lambda>t. t\<lparr>tb_is_free := False\<rparr>) g) i = Some j" for i j
      using that ne [of i j] job_table_okD(3) [OF assms(1), of i j] by simp
  qed (use job_table_okD(1,2,4) [OF assms(1)] in simp_all)
qed

lemma build_new_job_ok:
  assumes "graph_ok g" "build_new_job c h g p = Some (st, r, g', p')"
  shows "graph_ok g'"
proof -
  have J: "job_table_ok g" and T: "tbufs_ok g" "graph_typed g" using assms(1) by (simp_all add: graph_ok_def)
  let ?g = "put_tbuf h (\<lambda>t. t\<lparr>tb_is_free := False\<rparr>) g"
  have busy: "graph_ok ?g" if "get_tbuf_ptr g h = Some t" "tb_is_free t" for t
    using job_table_ok_busy(1) [OF J that] T by (simp add: graph_ok_def)
  have "graph_ok (?g\<lparr>gr_jobs := omap_insert jid (umd_job c g t jid h) (gr_jobs g)\<rparr>)"
    if t: "get_tbuf_ptr g h = Some t" "tb_is_free t" for t jid
  proof -
    let ?g' = "?g\<lparr>gr_jobs := omap_insert jid (umd_job c g t jid h) (gr_jobs g)\<rparr>"
    note ne = job_table_ok_busy(2) [OF J t]
    have get: "get_job_ptr ?g' k = (if k = jid then Some (umd_job c g t jid h) else get_job_ptr g k)" for k
      by (simp add: get_job_ptr_def)
    have "job_table_ok ?g'"
    proof (rule job_table_okI)
      show "sorted_wrt (<) (keys (gr_jobs ?g'))" using job_table_okD(1) [OF J] by simp
    next
      fix k j assume a: "get_job_ptr ?g' k = Some j"
      show "jd_id j = k" using a job_table_okD(2) [OF J, of k j] unfolding get by (auto simp: umd_job_def split: if_splits)
      show "\<exists>t. get_tbuf_ptr ?g' (jd_buf_handle j) = Some t \<and> \<not> tb_is_free t"
        using a ne [of k j] t job_table_okD(3) [OF J, of k j] unfolding get by (auto simp: umd_job_def split: if_splits)
    next
      fix k j k' j' assume a: "get_job_ptr ?g' k = Some j" "get_job_ptr ?g' k' = Some j'" "jd_buf_handle j = jd_buf_handle j'"
      show "k = k'" using a ne [of k j] ne [of k' j'] job_table_okD(4) [OF J _ _ a(3), of k k'] unfolding get
        by (auto simp: umd_job_def split: if_splits)
    qed
    then show ?thesis using T by (simp add: graph_ok_def)
  qed
  then show ?thesis using build_new_job_cases [OF assms(2)] assms(1) busy by auto
qed

text \<open>\<open>unload\<close> first forgets the jobs and the descriptions of the graph \<open>g\<close>.\<close>

definition cleared :: "graph \<Rightarrow> graph \<Rightarrow> bool" where
  "cleared g g1 \<longleftrightarrow> gr_jobs g1 = [] \<and> gr_param_map g1 = [] \<and> gr_inputs g1 = [] \<and> gr_outputs g1 = [] \<and>
     gr_inter_dumps g1 = [] \<and> gr_plog_data g1 = [] \<and> gr_pdata g1 = gr_pdata g \<and> gr_tbuf_templ g1 = gr_tbuf_templ g \<and>
     gr_tbufs g1 = gr_tbufs g"

lemma cleared_simps:
  "cleared g (x\<lparr>gr_pbuf := y\<rparr>) = cleared g x" "cleared g (x\<lparr>gr_gbin := b\<rparr>) = cleared g x" "cleared g (x\<lparr>gr_gdesc := d\<rparr>) = cleared g x"
  "cleared g (g\<lparr>gr_jobs := [], gr_param_map := [], gr_inputs := [], gr_outputs := [], gr_inter_dumps := [], gr_plog_data := []\<rparr>)"
  by (simp_all add: cleared_def)

lemma unload_tbufs_cases:
  assumes "unload_tbufs c g p = Some (st, g', p')"
  shows "g' = g \<and> (st = AIPU_STATUS_SUCCESS \<longrightarrow> gr_tbufs g = [])"
  using assms unfolding unload_tbufs_def
  by (auto elim!: bind_SomeE split: list.splits if_splits dest!: free_thread_buffer_cases)

lemma graph_unload_cases:
  assumes "graph_unload c g p = Some (st, g', p')"
  shows "g' = g \<and> st = AIPU_STATUS_ERROR_INVALID_OP \<or> cleared g g' \<and> (st = AIPU_STATUS_SUCCESS \<longrightarrow> gr_tbufs g = [])"
proof (cases "is_unload_ok g")
  case True
  define g1 where "g1 = g\<lparr>gr_jobs := [], gr_param_map := [], gr_inputs := [], gr_outputs := [], gr_inter_dumps := [], gr_plog_data := []\<rparr>"
  have c: "cleared g g1" unfolding g1_def by (rule cleared_simps)
  define g2 where "g2 = (if bu_va (pb_text (gr_pbuf g1)) \<noteq> 0
     then g1\<lparr>gr_pbuf := (gr_pbuf g1)\<lparr>pb_text := (pb_text (gr_pbuf g1))\<lparr>bu_pa := 0, bu_va := 0, bu_size := 0\<rparr>\<rparr>\<rparr> else g1)"
  have c2: "cleared g g2" using c by (simp add: g2_def cleared_simps)
  have t: "gr_tbufs g2 = gr_tbufs g" using c2 by (simp add: cleared_def)
  show ?thesis using assms True c c2 unfolding graph_unload_def Let_def g1_def [symmetric] g2_def [symmetric]
    by (auto elim!: bind_SomeE simp: cleared_simps(1-3) t split: if_split_asm dest!: unload_tbufs_cases)
qed (use assms in \<open>simp add: graph_unload_def\<close>)

lemma graph_unload_ok:
  assumes "graph_ok g" "graph_unload c g p = Some (st, g', p')"
  shows "graph_ok g'"
proof -
  have "graph_ok g1" if "cleared g g1" for g1
    using that assms(1)
    by (simp add: cleared_def graph_ok_def graph_typed_def tbufs_ok_def job_table_ok_def get_tbuf_ptr_def get_job_ptr_def
        Let_def tensors_in_def params_in_def)
  then show ?thesis using graph_unload_cases [OF assms(2)] assms(1) by auto
qed

lemma graph_step_ok: "graph_step c g g' \<Longrightarrow> graph_ok g \<Longrightarrow> graph_ok g'"
proof (induction rule: graph_step.induct)
  case (report js g st g')
  then show ?case using update_status_ok(1) [of g js] by simp
next
  case (status jid s g st g')
  then show ?case using update_status_ok(2) [of g jid s] by simp
next
  case (timeout g jid)
  then show ?case by (intro graph_ok_put_job) simp_all
next
  case (clean jid g st g')
  then show ?case using clean_job_ok [of g jid] by simp
qed (blast intro: alloc_thread_buffer_ok free_thread_buffer_ok build_new_job_ok flush_job_ok set_dump_ok graph_unload_ok)+

lemma graph_load_ok:
  assumes "graph_load c bin info mf (new_graph gid) p = Some (AIPU_STATUS_SUCCESS, g, p')" "info_typed info"
  shows "graph_ok g"
proof -
  have "gr_jobs g = [] \<and> gr_tbufs g = []"
    using assms(1) by (auto simp: graph_load_def Let_def bind_eq_Some_conv new_graph_def split: if_splits)
  then show ?thesis using graph_load_typed [OF assms]
    by (simp add: graph_ok_def tbufs_ok_def job_table_ok_def get_tbuf_ptr_def get_job_ptr_def)
qed

lemma graph_reach_ok: "graph_reach c gid g \<Longrightarrow> graph_ok g"
proof (induction rule: graph_reach.induct)
  case (loaded dev bypass bin gsize info mf g p p')
  then show ?case using parse_graph_typed [of dev bypass "Some bin" gsize] by (intro graph_load_ok) simp_all
qed (rule graph_step_ok)

end
