(* ===== verification/UmdBuild.thy ===== *)
theory UmdBuild
  imports UmdGraphSpec
begin

text \<open>
  Building a job: the bytes that a thread buffer holds for it, against a reference on lists
  of bytes, and when a build succeeds.
\<close>

subsection \<open>Bytes behind mapped addresses\<close>

text \<open>The addresses from \<open>a\<close> on are mapped one to one and hold the bytes \<open>bs\<close>.\<close>

definition holds_bytes :: "proc \<Rightarrow> addr \<Rightarrow> u8 list \<Rightarrow> bool" where
  "holds_bytes p a bs \<longleftrightarrow> (\<exists>pas. length pas = length bs \<and> distinct pas \<and>
     (\<forall>i < length bs. px_map p (a + i) = Some (pas ! i) \<and> px_phys p (pas ! i) = bs ! i))"

lemma holds_load: "holds_bytes p a bs \<Longrightarrow> i < length bs \<Longrightarrow> ux_load p (a + i) = Some (bs ! i)"
  by (auto simp: holds_bytes_def ux_load_def)

lemma holds_store:
  assumes "holds_bytes p a bs" "i < length bs"
  shows "\<exists>m. ux_store (a + i) b p = Some (p\<lparr>px_phys := m\<rparr>) \<and> holds_bytes (p\<lparr>px_phys := m\<rparr>) a (bs[i := b])"
proof -
  obtain pas where pas: "length pas = length bs" "distinct pas"
    "\<forall>k < length bs. px_map p (a + k) = Some (pas ! k) \<and> px_phys p (pas ! k) = bs ! k" using assms(1) by (auto simp: holds_bytes_def)
  let ?m = "(px_phys p)(pas ! i := b)"
  have "holds_bytes (p\<lparr>px_phys := ?m\<rparr>) a (bs[i := b])" unfolding holds_bytes_def
    by (rule exI [of _ pas]) (use pas assms(2) in \<open>auto simp: nth_list_update nth_eq_iff_index_eq\<close>)
  then show ?thesis using pas assms(2) by (auto simp: ux_store_def)
qed

definition put_word :: "nat \<Rightarrow> u32 \<Rightarrow> u8 list \<Rightarrow> u8 list" where
  "put_word i w bs = bs[i := ucast w, i + 1 := ucast (drop_bit 8 w), i + 2 := ucast (drop_bit 16 w), i + 3 := ucast (drop_bit 24 w)]"

lemma length_put_word [simp]: "length (put_word i w bs) = length bs"
  by (simp add: put_word_def)

lemma holds_load32:
  assumes "holds_bytes p a bs" "i + 4 \<le> length bs"
  shows "ux_load32 p (a + i) = Some (word_at bs i)"
  using holds_load [OF assms(1), of i] holds_load [OF assms(1), of "i + 1"] holds_load [OF assms(1), of "i + 2"]
    holds_load [OF assms(1), of "i + 3"] assms(2)
  by (simp add: ux_load32_def word_at_def add.assoc)

lemma holds_store32:
  assumes "holds_bytes p a bs" "i + 4 \<le> length bs"
  shows "\<exists>m. ux_store32 (a + i) w p = Some (p\<lparr>px_phys := m\<rparr>) \<and> holds_bytes (p\<lparr>px_phys := m\<rparr>) a (put_word i w bs)"
proof -
  obtain m1 where 1: "ux_store (a + i) (ucast w) p = Some (p\<lparr>px_phys := m1\<rparr>)" "holds_bytes (p\<lparr>px_phys := m1\<rparr>) a (bs[i := ucast w])"
    using holds_store [OF assms(1), of i] assms(2) by auto
  obtain m2 where 2: "ux_store (a + (i + 1)) (ucast (drop_bit 8 w)) (p\<lparr>px_phys := m1\<rparr>) = Some (p\<lparr>px_phys := m2\<rparr>)"
    "holds_bytes (p\<lparr>px_phys := m2\<rparr>) a (bs[i := ucast w, i + 1 := ucast (drop_bit 8 w)])"
    using holds_store [OF 1(2), of "i + 1"] assms(2) by auto
  obtain m3 where 3: "ux_store (a + (i + 2)) (ucast (drop_bit 16 w)) (p\<lparr>px_phys := m2\<rparr>) = Some (p\<lparr>px_phys := m3\<rparr>)"
    "holds_bytes (p\<lparr>px_phys := m3\<rparr>) a (bs[i := ucast w, i + 1 := ucast (drop_bit 8 w), i + 2 := ucast (drop_bit 16 w)])"
    using holds_store [OF 2(2), of "i + 2"] assms(2) by auto
  obtain m4 where 4: "ux_store (a + (i + 3)) (ucast (drop_bit 24 w)) (p\<lparr>px_phys := m3\<rparr>) = Some (p\<lparr>px_phys := m4\<rparr>)"
    "holds_bytes (p\<lparr>px_phys := m4\<rparr>) a (put_word i w bs)"
    using holds_store [OF 3(2), of "i + 3"] assms(2) by (auto simp: put_word_def)
  show ?thesis using 1(1) 2(1) 3(1) 4 by (auto simp: ux_store32_def add.assoc)
qed

text \<open>Copying bytes of the binary over mapped bytes.\<close>

lemma load_buffer_holds:
  assumes "holds_bytes p a bs" "i + n \<le> length bs" "src + n \<le> length bin"
  shows "\<exists>m. load_buffer bin (a + i) src n p = Some (p\<lparr>px_phys := m\<rparr>) \<and>
    holds_bytes (p\<lparr>px_phys := m\<rparr>) a (take i bs @ take n (drop src bin) @ drop (i + n) bs)"
  using assms
proof (induction n arbitrary: i src p bs)
  case 0
  have "p = p\<lparr>px_phys := px_phys p\<rparr>" by simp
  then show ?case using 0 by (intro exI [of _ "px_phys p"]) simp
next
  case (Suc n)
  obtain m1 where 1: "ux_store (a + i) (bin ! src) p = Some (p\<lparr>px_phys := m1\<rparr>)" "holds_bytes (p\<lparr>px_phys := m1\<rparr>) a (bs[i := bin ! src])"
    using holds_store [OF Suc.prems(1), of i] Suc.prems(2) by auto
  obtain m where m: "load_buffer bin (a + Suc i) (src + 1) n (p\<lparr>px_phys := m1\<rparr>) = Some (p\<lparr>px_phys := m\<rparr>)"
    "holds_bytes (p\<lparr>px_phys := m\<rparr>) a (take (Suc i) (bs[i := bin ! src]) @ take n (drop (src + 1) bin) @ drop (Suc i + n) (bs[i := bin ! src]))"
    using Suc.IH [OF 1(2), of "Suc i" "src + 1"] Suc.prems(2,3) by auto
  have "take (Suc i) (bs[i := bin ! src]) = take i bs @ [bin ! src]" using Suc.prems(2) by (simp add: take_Suc_conv_app_nth)
  moreover have "take (Suc n) (drop src bin) = bin ! src # take n (drop (src + 1) bin)"
    using Suc.prems(3) by (simp add: Cons_nth_drop_Suc [symmetric])
  ultimately show ?case using m 1(1) Suc.prems(3) by auto
qed

subsection \<open>The read-only data of a job\<close>

text \<open>Every parameter replaces the bits of its mask by the address it stands for.\<close>

fun patch_ref :: "(param_map_load_desc \<Rightarrow> u32) \<Rightarrow> param_map_load_desc list \<Rightarrow> u8 list \<Rightarrow> u8 list" where
  "patch_ref f [] bs = bs"
| "patch_ref f (m # ms) bs =
     (let i = unat (pm_offset_in_map m)
      in patch_ref f ms (put_word i ((f m AND pm_addr_mask m) OR (word_at bs i AND NOT (pm_addr_mask m))) bs))"

lemma length_patch_ref [simp]: "length (patch_ref f ms bs) = length bs"
  by (induction ms arbitrary: bs) (simp_all add: Let_def)

definition pa_of :: "device_ctrl \<Rightarrow> graph \<Rightarrow> tbuf_info \<Rightarrow> param_map_load_desc \<Rightarrow> u32" where
  "pa_of c g t m = (case param_pa c g t m of Inl _ \<Rightarrow> 0 | Inr pa \<Rightarrow> pa)"

lemma patch_rodata_holds:
  assumes "holds_bytes p (bu_va (tb_rodata t)) bs" "length bs \<le> unat (bu_size (tb_rodata t))"
    and "\<forall>m \<in> set ms. (\<exists>pa. param_pa c g t m = Inr pa) \<and> unat (pm_offset_in_map m) + 4 \<le> length bs"
  shows "\<exists>mm. patch_rodata c g t ms p = Some (AIPU_STATUS_SUCCESS, p\<lparr>px_phys := mm\<rparr>) \<and>
    holds_bytes (p\<lparr>px_phys := mm\<rparr>) (bu_va (tb_rodata t)) (patch_ref (pa_of c g t) ms bs)"
  using assms
proof (induction ms arbitrary: p bs)
  case Nil
  have "p = p\<lparr>px_phys := px_phys p\<rparr>" by simp
  then show ?case using Nil by (intro exI [of _ "px_phys p"]) simp
next
  case (Cons m ms)
  let ?a = "bu_va (tb_rodata t)" and ?i = "unat (pm_offset_in_map m)"
  obtain pa where pa: "param_pa c g t m = Inr pa" and i: "?i + 4 \<le> length bs" using Cons.prems(3) by auto
  have "unat (ucast (pm_offset_in_map m) :: u64) = ?i"
    using unsigned_less [of "pm_offset_in_map m", where ?'a = nat] by (simp add: unsigned_ucast_eq take_bit_nat_eq_self)
  then have lt: "\<not> bu_size (tb_rodata t) \<le> ucast (pm_offset_in_map m)"
    using i Cons.prems(2) by (simp add: word_le_nat_alt)
  let ?w = "(pa AND pm_addr_mask m) OR (word_at bs ?i AND NOT (pm_addr_mask m))"
  obtain m1 where m1: "ux_store32 (?a + ?i) ?w p = Some (p\<lparr>px_phys := m1\<rparr>)" "holds_bytes (p\<lparr>px_phys := m1\<rparr>) ?a (put_word ?i ?w bs)"
    using holds_store32 [OF Cons.prems(1) i] by blast
  obtain mm where "patch_rodata c g t ms (p\<lparr>px_phys := m1\<rparr>) = Some (AIPU_STATUS_SUCCESS, p\<lparr>px_phys := mm\<rparr>)"
    "holds_bytes (p\<lparr>px_phys := mm\<rparr>) ?a (patch_ref (pa_of c g t) ms (put_word ?i ?w bs))"
    using Cons.IH [OF m1(2)] Cons.prems(2,3) by auto
  moreover have "pa_of c g t m = pa" by (simp add: pa_of_def pa)
  ultimately show ?case using m1(1) lt pa holds_load32 [OF Cons.prems(1) i]
    by (intro exI [of _ mm]) (simp add: Let_def)
qed

lemma pa_of_put_tbuf [simp]:
  "gr_linked_list_flag (put_tbuf h f g) = gr_linked_list_flag g" "gr_gbin (put_tbuf h f g) = gr_gbin g"
  "is_asid_enabled (put_tbuf h f g) = is_asid_enabled g"
  "param_pa c (put_tbuf h f g) = param_pa c g" "pa_of c (put_tbuf h f g) = pa_of c g"
proof -
  show a: "is_asid_enabled (put_tbuf h f g) = is_asid_enabled g" by (simp add: is_asid_enabled_def put_tbuf_def)
  show b: "param_pa c (put_tbuf h f g) = param_pa c g" 
    by (intro ext) (unfold param_pa_def a put_tbuf_fields, rule refl)
  show "pa_of c (put_tbuf h f g) = pa_of c g" by (intro ext) (simp add: pa_of_def b)
qed (simp_all add: put_tbuf_def)

subsection \<open>The identifiers of a graph\<close>

lemma graph_step_id: "graph_step c g g' \<Longrightarrow> gd_id (gr_gdesc g') = gd_id (gr_gdesc g)"
proof (induction rule: graph_step.induct)
  case (alloc_tb g p st r g' p')
  then show ?case using alloc_thread_buffer_fails [of c g p st r g' p'] alloc_thread_buffer_succeeds [of c g p r g' p']
    by (cases "st = AIPU_STATUS_SUCCESS") auto
next
  case (build h g p st r g' p')
  then show ?case using build_new_job_cases by fastforce
next
  case (free_tb h g p st g' p')
  then show ?case using free_thread_buffer_cases by fastforce
next
  case (flush jid g p st g' p')
  then show ?case
    by (auto simp: flush_job_def Let_def put_job_def delete_from_sched_queue_inner_def elim!: bind_SomeE split: option.splits if_splits)
next
  case (unload g p st g' p')
  then show ?case
    by (auto simp: graph_unload_def Let_def destroy_graph_desc_def empty_gdesc_def elim!: bind_SomeE split: if_splits dest!: unload_tbufs_cases)
qed (auto simp: update_job_status_desc_def update_job_status_def put_job_def set_dump_options_def clean_job_def Let_def
    delete_from_sched_queue_inner_def put_tbuf_def split: option.splits if_splits)

lemma graph_reach_id: "graph_reach c gid g \<Longrightarrow> gd_id (gr_gdesc g) = gid"
proof (induction rule: graph_reach.induct)
  case (loaded dev bypass bin gsize info mf g p p')
  then show ?case
    by (auto simp: graph_load_def Let_def new_graph_def create_graph_desc_def empty_gdesc_def bind_eq_Some_conv split: if_splits)
qed (simp add: graph_step_id)

text \<open>With fewer than 65536 entries the first free identifier is found, and carries the graph's.\<close>

lemma fresh_id:
  assumes "length m < 0x10000" "gid < 0x10000" "\<And>i. used i \<Longrightarrow> map_of m i \<noteq> None"
  obtains r where "first_free_id used (push_bit 16 gid) = Some r" "\<not> used r" "drop_bit 16 r = gid"
proof -
  have c: "card (set (keys m)) < 0x10000" using card_length [of "keys m"] assms(1) by simp
  have u: "used i \<Longrightarrow> i \<in> set (keys m)" for i using assms(3) [of i] by (auto simp: map_of_eq_None_iff)
  obtain k where k: "first_free_id used (push_bit 16 gid) = Some (push_bit 16 gid + of_nat k)" "\<not> used (push_bit 16 gid + of_nat k)"
    "k \<le> card (set (keys m))" using first_free_id_least [of "set (keys m)" used "push_bit 16 gid", OF _ _ u] c by auto
  show thesis by (rule that [OF k(1,2) id_names_graph [OF assms(2)]]) (use k(3) c in simp)
qed

subsection \<open>A build that succeeds\<close>

lemma build_new_job_result:
  assumes reach: "graph_reach c gid g" and t: "get_tbuf_ptr g h = Some t" "tb_is_free t"
    and ids: "gid < 0x10000" "length (gr_jobs g) < 0x10000" and ll: "gr_linked_list_flag g = 0"
    and bytes: "holds_bytes p (bu_va (tb_rodata t)) bs" "unat (tbuf_rodata_size (gr_tbuf_templ g)) \<le> length bs"
      "length bs \<le> unat (bu_size (tb_rodata t))"
    and src: "rodata_src (gr_tbuf_templ g) + unat (tbuf_rodata_size (gr_tbuf_templ g)) \<le> length (gr_gbin g)"
    and params: "\<forall>m \<in> set (gr_param_map g). unat (pm_offset_in_map m) + 4 \<le> length bs"
  shows "\<exists>jid ph. build_new_job c h g p = Some (AIPU_STATUS_SUCCESS, Some jid,
      (put_tbuf h (\<lambda>t. t\<lparr>tb_is_free := False\<rparr>) g)\<lparr>gr_jobs := omap_insert jid (umd_job c g t jid h) (gr_jobs g)\<rparr>, p\<lparr>px_phys := ph\<rparr>) \<and>
    create_job_id_inner g = Some jid \<and> drop_bit 16 jid = gid \<and>
    holds_bytes (p\<lparr>px_phys := ph\<rparr>) (bu_va (tb_rodata t)) (patch_ref (pa_of c g t) (gr_param_map g)
      (take (unat (tbuf_rodata_size (gr_tbuf_templ g))) (drop (rodata_src (gr_tbuf_templ g)) (gr_gbin g)) @
       drop (unat (tbuf_rodata_size (gr_tbuf_templ g))) bs))"
proof -
  have ok: "graph_typed g" "tbufs_ok g" using graph_reach_ok [OF reach] by (simp_all add: graph_ok_def)
  have len: "length (tb_reuse_buf t) = length (reuse_sections (gr_tbuf_templ g))" using ok(2) t(1) by (simp add: tbufs_ok_def)
  let ?n = "unat (tbuf_rodata_size (gr_tbuf_templ g))" and ?s = "rodata_src (gr_tbuf_templ g)" and ?a = "bu_va (tb_rodata t)"
  let ?bs = "take ?n (drop ?s (gr_gbin g)) @ drop ?n bs"
  obtain m1 where m1: "load_buffer (gr_gbin g) ?a ?s ?n p = Some (p\<lparr>px_phys := m1\<rparr>)" "holds_bytes (p\<lparr>px_phys := m1\<rparr>) ?a ?bs"
    using load_buffer_holds [OF bytes(1), of 0 ?n ?s "gr_gbin g"] bytes(2) src by auto
  have lbs: "length ?bs = length bs" using bytes(2) src by simp
  have pm: "\<forall>m \<in> set (gr_param_map g). (\<exists>pa. param_pa c g t m = Inr pa) \<and> unat (pm_offset_in_map m) + 4 \<le> length ?bs"
    unfolding lbs using params param_pa_ok [OF ok(1) _ len] by blast
  let ?g = "put_tbuf h (\<lambda>t. t\<lparr>tb_is_free := False\<rparr>) g"
  obtain ph where ph: "patch_rodata c ?g t (gr_param_map g) (p\<lparr>px_phys := m1\<rparr>) = Some (AIPU_STATUS_SUCCESS, p\<lparr>px_phys := ph\<rparr>)"
    "holds_bytes (p\<lparr>px_phys := ph\<rparr>) ?a (patch_ref (pa_of c g t) (gr_param_map g) ?bs)"
    using patch_rodata_holds [OF m1(2), of "gr_param_map g" c ?g] pm lbs bytes(3) by auto
  obtain jid where jid: "create_job_id_inner g = Some jid" "\<not> is_job_exist_inner g jid" "drop_bit 16 jid = gid"
    using fresh_id [OF ids(2,1), of "is_job_exist_inner g"] unfolding create_job_id_inner_def graph_reach_id [OF reach]
    by (force simp: is_job_exist_inner_def is_job_built_inner_def is_job_scheduled_inner_def is_job_end_inner_def get_job_ptr_def
        split: option.splits)
  have "build_new_job c h g p = Some (AIPU_STATUS_SUCCESS, Some jid,
      ?g\<lparr>gr_jobs := omap_insert jid (umd_job c g t jid h) (gr_jobs g)\<rparr>, p\<lparr>px_phys := ph\<rparr>)"
    using t m1(1) ph(1) jid(1) ll by (simp add: build_new_job_def Let_def umd_job_def)
  then show ?thesis using jid(1,3) ph(2) by (intro exI [of _ jid] exI [of _ ph] conjI)
qed

end
