(* ===== verification/UmdDemo.thy ===== *)
theory UmdDemo
  imports UmdBuild UmdDevSpec GraphBinTrip
begin

text \<open>
  A run of the user-mode driver on a small graph, evaluated: a binary of 264 bytes with one
  input and one output is parsed and loaded, a thread buffer is allocated and a job is
  built. The witnesses of the properties of graphs rest on it.
\<close>

definition demo_graph_hdr :: bss_hdr_v3 where
  "demo_graph_hdr = \<lparr>bh_stack_size = 0x4000, bh_stack_align_bytes = 4096, bh_static_section_desc_cnt = 0,
     bh_reuse_section_desc_cnt = 1\<rparr>"

definition demo_graph_words :: "u32 list" where
  "demo_graph_words = [0x10388, 0x03000000, 0, 104, 264, 0, 0, 0, 104, 4, 108, 24, 0, 0, 132, 0, 132, 132, 0, 0]"

definition demo_bin :: "u8 list" where
  "demo_bin = enc_header demo_graph_words @ replicate 28 0 @ enc_bss demo_graph_hdr [] demo_reuses"

definition demo_info :: graph_info where
  "demo_info = \<lparr>gi_gbin = 0, gi_gbin_size = 264, gi_device = 0x10388, gi_version = 0x03000000, gi_build_version = 0,
     gi_entry = 0, gi_asid_flag = 0, gi_linked_list_flag = 0, gi_bss_src = 132,
     gi_pbuf_templ = \<lparr>text_src = 104, text_size = 4, data_src = 132, data_size = 0, static_sections = []\<rparr>,
     gi_tbuf_templ = \<lparr>rodata_src = 108, tbuf_rodata_size = 24, dcr_src = None, dcr_size = 0, tbuf_stack_size = 0x4000,
       stack_align_in_page = 1, reuse_sections = map reuse_section demo_reuses\<rparr>,
     gi_inputs = secs_tensors SECTION_TYPE_INPUT 0 demo_reuses, gi_outputs = secs_tensors SECTION_TYPE_OUTPUT 0 demo_reuses,
     gi_inter_dumps = [], gi_pdata = [], gi_plog_data = [],
     gi_param_map = secs_params PARAM_MAP_LOAD_TYPE_REUSE 0 demo_reuses, gi_dcr_map = []\<rparr>"

lemmas demo_reuses_simps = demo_reuses_def demo_sub_def secs_params_def subs_params_def ro_params_def secs_tensors_def
  subs_tensors_def tensor_of_def init_param_def section_type_defs reuse_section_def pages_of_def offsets_of_def

lemma length_demo_bss: "length (enc_bss demo_graph_hdr [] demo_reuses) = 132"
  by (simp add: enc_bss_def demo_graph_hdr_def demo_reuses_def demo_sub_def enc_reuse_def enc_subs_def enc_sub_def hdr_words_def sub_words_def)

lemma demo_parse: "parse_graph dev True (Some demo_bin) 264 empty_info = Ok demo_info"
proof -
  have l: "length demo_graph_words = 20" by (simp add: demo_graph_words_def)
  note w = words_of_enc_header(1,2) [OF l, of "replicate 28 0 @ enc_bss demo_graph_hdr [] demo_reuses", folded demo_bin_def]
    words_of_enc_header(3) [OF l]
  define info where "info = demo_info\<lparr>gi_inputs := [], gi_outputs := [], gi_param_map := [],
    gi_tbuf_templ := \<lparr>rodata_src = 108, tbuf_rodata_size = 24, dcr_src = None, dcr_size = 0, tbuf_stack_size = 0,
       stack_align_in_page = 0, reuse_sections = []\<rparr>\<rparr>"
  have len: "length demo_bin = 264" using w(3) by (simp add: demo_bin_def length_demo_bss)
  have v: "GVERSION_MINOR 0x03000000 = AIPU_LOADABLE_GRAPH_V0003"
    by (simp add: GVERSION_MINOR_def AIPU_LOADABLE_GRAPH_V0003_def drop_bit_eq_div)
  have m: "take 9 (ident (bin_hdr_of demo_bin)) = MAGIC" using w(2) by (simp add: bin_hdr_of_def Let_def min_def)
  have h: "parse_graph_header demo_bin 264 empty_info = Ok (info, 132)"
    using m by (simp add: parse_graph_header_def len BIN_HDR_SIZE_def bin_hdr_of_def w(1) Let_def demo_graph_words_def v info_def demo_info_def
      empty_info_def GET_ASID_FLAG_def AIPU_LOADABLE_GRAPH_V0003_def AIPU_LOADABLE_GRAPH_V0004_def)
  have ok: "\<forall>x \<in> set demo_reuses. reuse_ok x" by (simp add: demo_reuses_def demo_sub_def reuse_ok_def sub_ok_def)
  have sz: "unat (132 :: u32) = length (enc_bss demo_graph_hdr [] demo_reuses)" by (simp add: length_demo_bss)
  have b: "demo_bin = (enc_header demo_graph_words @ replicate 28 0) @ enc_bss demo_graph_hdr [] demo_reuses @ []"
    by (simp add: demo_bin_def)
  have "parse_bss_section demo_bin 132 info = Ok demo_info"
    by (subst parse_bss_encoded [OF b _ sz _ _ _ _ _ _ ok])
       (simp_all add: info_def demo_info_def demo_graph_hdr_def w(3) sort_tensors_def sort_io_tensor_def add_reuses_def
          add_params_def add_tensors_def add_statics_def demo_reuses_simps Let_def)
  then show ?thesis by (simp add: parse_graph_def h BIN_HDR_SIZE_def)
qed

text \<open>The process; every mapping gets addresses of its own.\<close>

definition demo_start :: proc where
  "demo_start = demo_proc\<lparr>px_env := \<lambda>k. demo_uenv\<lparr>ue_map := Some (0x10000000 + 0x100000 * k)\<rparr>\<rparr>"

lemmas demo_malloc_simps = malloc_buf_def dev_op_wrapper_malloc_def sys_ioctl_def sys_mmap_def demo_ctrl_def demo_proc_def
  demo_uenv_def env_now_def next_call_def malloc_req_def aipu_ioctl_def errcode_defs ioctl_reqbuf_def demo_sys_def demo_run_simps
  Let_def aipu_session_add_buf_def create_session_buf_def init_session_buf_def merge_copy_def to_user_def user_ret_def
  aipu_mmap_def aipu_session_mmap_buf_def find_buffer_byoffset_no_lock_def page_up_def put_simps demo_session_def
  demo_jobs_heap_def PAGE_SHIFT_def data_type_defs map_range_def demo_start_def

definition mapped_at :: "proc \<Rightarrow> addr \<Rightarrow> nat \<Rightarrow> bool" where
  "mapped_at p a n \<longleftrightarrow> (\<forall>i < n. px_map p (a + i) \<noteq> None)"

lemma load_buffer_ok:
  assumes "src + n \<le> length bin" "mapped_at p dest n"
  shows "\<exists>m. load_buffer bin dest src n p = Some (p\<lparr>px_phys := m\<rparr>)"
  using assms
proof (induction n arbitrary: dest src p)
  case 0
  have "p = p\<lparr>px_phys := px_phys p\<rparr>" by simp
  then show ?case by (metis load_buffer.simps(1))
next
  case (Suc n)
  obtain pa where pa: "px_map p dest = Some pa" using Suc.prems(2) by (force simp: mapped_at_def)
  let ?p = "p\<lparr>px_phys := (px_phys p)(pa := bin ! src)\<rparr>"
  have "mapped_at ?p (dest + 1) n" using Suc.prems(2) by (auto simp: mapped_at_def dest: spec [of _ "Suc _"])
  then obtain m where "load_buffer bin (dest + 1) (src + 1) n ?p = Some (?p\<lparr>px_phys := m\<rparr>)"
    using Suc.IH [of "src + 1" ?p "dest + 1"] Suc.prems(1) by auto
  then show ?case using Suc.prems(1) by (auto simp: ux_store_def pa)
qed

lemma demo_malloc_text:
  "\<exists>b p'. malloc_buf demo_ctrl AIPU_MM_DATA_TYPE_TEXT 4 1 buffer_desc_init 0 demo_start = Some (AIPU_STATUS_SUCCESS, b, p') \<and>
     bu_va b \<noteq> 0 \<and> bu_size b \<noteq> 0 \<and> mapped_at p' (bu_va b) 4"
  by (simp add: demo_malloc_simps mapped_at_def)

lemma demo_malloc_thread:
  "\<exists>b1 b2 b3 p1 p2 p3. malloc_buf demo_ctrl AIPU_MM_DATA_TYPE_RO_STACK 0x4000 1 buffer_desc_init r demo_start = Some (AIPU_STATUS_SUCCESS, b1, p1) \<and>
    malloc_buf demo_ctrl AIPU_MM_DATA_TYPE_RO_STACK 24 1 buffer_desc_init r p1 = Some (AIPU_STATUS_SUCCESS, b2, p2) \<and>
    malloc_buf demo_ctrl AIPU_MM_DATA_TYPE_REUSE 0x200 1 buffer_desc_init 0 p2 = Some (AIPU_STATUS_SUCCESS, b3, p3) \<and>
    ue_uninit_buf (env_now p1) = buffer_desc_init \<and> ue_uninit_buf (env_now p2) = buffer_desc_init \<and>
    bu_va b2 \<noteq> 0 \<and> bu_size b2 = 4096 \<and> (\<forall>i < 24. px_map p3 (bu_va b2 + i) = Some (unat (bu_pa b2) + i))"
  by (simp add: demo_malloc_simps mapped_at_def)

subsection \<open>The run\<close>

text \<open>The graph once it is loaded, with its text buffer.\<close>

definition demo_graph :: "buffer_desc \<Rightarrow> graph" where
  "demo_graph b = \<lparr>gr_map_flag = False, gr_gbin = demo_bin, gr_entry = 0, gr_arch = 0, gr_hw_version = 1, gr_hw_config = 904,
     gr_asid_flag = 0, gr_linked_list_flag = 0, gr_gdesc = create_graph_desc demo_info (empty_gdesc 1),
     gr_tbuf_templ = gi_tbuf_templ demo_info, gr_inputs = gi_inputs demo_info, gr_outputs = gi_outputs demo_info,
     gr_inter_dumps = [], gr_pdata = [], gr_plog_data = [], gr_param_map = gi_param_map demo_info, gr_dcr_map = [],
     gr_pbuf = \<lparr>pb_text = b, pb_static_buf = [], pb_static_group = buffer_desc_init\<rparr>,
     gr_tbufs = [], gr_jobs = [], gr_sched = []\<rparr>"

lemma length_demo_bin: "length demo_bin = 264"
proof -
  have "length demo_graph_words = 20" by (simp add: demo_graph_words_def)
  from words_of_enc_header(3) [OF this] show ?thesis by (simp add: demo_bin_def length_demo_bss)
qed

lemma demo_load:
  "\<exists>b p'. graph_load demo_ctrl demo_bin demo_info False (new_graph 1) demo_start = Some (AIPU_STATUS_SUCCESS, demo_graph b, p')"
proof -
  obtain b p1 where m: "malloc_buf demo_ctrl AIPU_MM_DATA_TYPE_TEXT 4 1 buffer_desc_init 0 demo_start = Some (AIPU_STATUS_SUCCESS, b, p1)"
    "bu_va b \<noteq> 0" "bu_size b \<noteq> 0" "mapped_at p1 (bu_va b) 4" using demo_malloc_text by blast
  obtain ph where l: "load_buffer demo_bin (bu_va b) 104 4 p1 = Some (p1\<lparr>px_phys := ph\<rparr>)"
    using load_buffer_ok [of 104 4 demo_bin p1 "bu_va b"] m(4) length_demo_bin by auto
  have "AIPU_ARCH 0x10388 = 0" "AIPU_VERSION 0x10388 = 1" "AIPU_CONFIG 0x10388 = 904"
    by (simp_all add: AIPU_ARCH_def AIPU_VERSION_def AIPU_CONFIG_def drop_bit_eq_div)
  then have "graph_load demo_ctrl demo_bin demo_info False (new_graph 1) demo_start = Some (AIPU_STATUS_SUCCESS, demo_graph b, p1\<lparr>px_phys := ph\<rparr>)"
    using m l by (simp add: graph_load_def Let_def new_graph_def demo_info_def alloc_text_buffer_def load_text_buffer_def alloc_group_buffers_def
      demo_graph_def del: load_buffer.simps)
  then show ?thesis by blast
qed

lemma demo_reach: "\<exists>b. graph_reach demo_ctrl 1 (demo_graph b)"
  using demo_load graph_reach.loaded [OF demo_parse] by blast

text \<open>What stays of the loaded graph while its buffers and jobs change.\<close>

definition demo_like :: "buffer_desc \<Rightarrow> graph \<Rightarrow> bool" where
  "demo_like b g \<longleftrightarrow> (\<exists>ts js q. g = (demo_graph b)\<lparr>gr_tbufs := ts, gr_jobs := js, gr_sched := q\<rparr>)"

lemma demo_like_fields:
  assumes "demo_like b g"
  shows "gr_tbuf_templ g = \<lparr>rodata_src = 108, tbuf_rodata_size = 24, dcr_src = None, dcr_size = 0, tbuf_stack_size = 0x4000,
       stack_align_in_page = 1, reuse_sections = map reuse_section demo_reuses\<rparr>" "pb_text (gr_pbuf g) = b" "graph_typed g"
    "gr_gbin g = demo_bin" "gr_linked_list_flag g = 0" "gr_plog_data g = []"
    "\<forall>m \<in> set (gr_param_map g). unat (pm_offset_in_map m) + 4 \<le> 24"
  using assms
  by (auto simp: demo_like_def demo_graph_def demo_info_def graph_typed_def Let_def tensors_in_def params_in_def demo_reuses_simps
      PARAM_MAP_LOAD_TYPE_REUSE_def PARAM_MAP_LOAD_TYPE_STATIC_def)

lemma demo_alloc:
  assumes d: "demo_like b g" and h: "create_buf_handle_inner g = Some h"
  shows "\<exists>t p'. alloc_thread_buffer demo_ctrl g demo_start =
      Some (AIPU_STATUS_SUCCESS, Some (h, tb_iobuf t), g\<lparr>gr_tbufs := omap_insert h t (gr_tbufs g)\<rparr>, p') \<and>
     tb_handle t = h \<and> tb_is_free t \<and> bu_size (tb_rodata t) = 4096 \<and>
     holds_bytes p' (bu_va (tb_rodata t)) (map (\<lambda>i. px_phys p' (unat (bu_pa (tb_rodata t)) + i)) [0..<24])"
proof -
  obtain b1 b2 b3 p1 p2 p3 where
    m: "malloc_buf demo_ctrl AIPU_MM_DATA_TYPE_RO_STACK 0x4000 1 buffer_desc_init (bu_region_id b) demo_start = Some (AIPU_STATUS_SUCCESS, b1, p1)"
    "malloc_buf demo_ctrl AIPU_MM_DATA_TYPE_RO_STACK 24 1 buffer_desc_init (bu_region_id b) p1 = Some (AIPU_STATUS_SUCCESS, b2, p2)"
    "malloc_buf demo_ctrl AIPU_MM_DATA_TYPE_REUSE 0x200 1 buffer_desc_init 0 p2 = Some (AIPU_STATUS_SUCCESS, b3, p3)"
    and u: "ue_uninit_buf (env_now p1) = buffer_desc_init" "ue_uninit_buf (env_now p2) = buffer_desc_init"
    and b2: "bu_va b2 \<noteq> 0" "bu_size b2 = 4096" "\<forall>i < 24. px_map p3 (bu_va b2 + i) = Some (unat (bu_pa b2) + i)"
    using demo_malloc_thread [of "bu_region_id b"] by (elim exE conjE)
  have u0: "ue_uninit_buf (env_now demo_start) = buffer_desc_init" by (simp add: demo_start_def env_now_def demo_uenv_def)
  have bytes: "holds_bytes p3 (bu_va b2) (map (\<lambda>i. px_phys p3 (unat (bu_pa b2) + i)) [0..<24])" unfolding holds_bytes_def
    by (rule exI [of _ "map (\<lambda>i. unat (bu_pa b2) + i) [0..<24]"]) (use b2(3) in \<open>simp add: distinct_map inj_on_def\<close>)
  note f = demo_like_fields [OF d]
  have "\<exists>bufs. alloc_group_buffers demo_ctrl (map reuse_section demo_reuses) AIPU_MM_DATA_TYPE_REUSE [] buffer_desc_init p2 =
      Some (AIPU_STATUS_SUCCESS, bufs, b3, p3) \<and> length bufs = 1"
    using m(3) by (simp add: alloc_group_buffers_def u Let_def demo_reuses_simps)
  then obtain bufs where g: "alloc_group_buffers demo_ctrl (map reuse_section demo_reuses) AIPU_MM_DATA_TYPE_REUSE [] buffer_desc_init p2 =
      Some (AIPU_STATUS_SUCCESS, bufs, b3, p3)" "length bufs = 1" by blast
  obtain io where io: "create_iobufs g bufs = Some io" using create_iobufs_ok [OF f(3), of bufs] g(2) f(1)
    by (auto simp: demo_reuses_def)
  have plog: "iob_plog_data io = []" using io f(6) by (auto simp: create_iobufs_def bind_eq_Some_conv)
  let ?t = "\<lparr>tb_handle = h, tb_is_free = True, tb_stack = b1, tb_rodata = b2, tb_descriptor = buffer_desc_init\<lparr>bu_size := 0, bu_real_size := 0\<rparr>
    \<lparr>bu_va := 0, bu_pa := 0, bu_region_id := 0\<rparr>, tb_reuse_buf = bufs, tb_reuse_group = b3, tb_iobuf = io\<rparr>"
  have "alloc_thread_buffer demo_ctrl g demo_start =
      Some (AIPU_STATUS_SUCCESS, Some (h, io), g\<lparr>gr_tbufs := omap_insert h ?t (gr_tbufs g)\<rparr>, p3)"
    using m g io h u u0 plog
    by (simp add: alloc_thread_buffer_def alloc_rodata_buffer_def f(1,2) Let_def)
  then show ?thesis using b2(1,2) bytes by (intro exI [of _ ?t] exI [of _ p3]) simp
qed

lemma demo_build:
  assumes d: "demo_like b g" and g: "graph_reach demo_ctrl 1 g" and t: "get_tbuf_ptr g h = Some t" "tb_is_free t"
    and b: "bu_size (tb_rodata t) = 4096" "holds_bytes p (bu_va (tb_rodata t)) (map f [0..<24])"
    and n: "length (gr_jobs g) < 0x10000"
  shows "\<exists>jid q. build_new_job demo_ctrl h g p = Some (AIPU_STATUS_SUCCESS, Some jid,
      (put_tbuf h (\<lambda>t. t\<lparr>tb_is_free := False\<rparr>) g)\<lparr>gr_jobs := omap_insert jid (umd_job demo_ctrl g t jid h) (gr_jobs g)\<rparr>, q) \<and>
    create_job_id_inner g = Some jid"
proof -
  note f = demo_like_fields [OF d]
  show ?thesis using build_new_job_result [OF g t _ n f(5) b(2)] f(7) b(1) by (simp add: f(1,4) length_demo_bin) blast
qed

text \<open>The graph with one job built on its thread buffer.\<close>

definition demo_built :: "buffer_desc \<Rightarrow> tbuf_info \<Rightarrow> graph" where
  "demo_built b t = (demo_graph b)\<lparr>gr_tbufs := [(0x10000, t\<lparr>tb_is_free := False\<rparr>)],
     gr_jobs := [(0x10000, umd_job demo_ctrl (demo_graph b) t 0x10000 0x10000)]\<rparr>"

lemma demo_steps:
  "\<exists>b t p q. graph_reach demo_ctrl 1 ((demo_graph b)\<lparr>gr_tbufs := [(0x10000, t)]\<rparr>) \<and> graph_reach demo_ctrl 1 (demo_built b t) \<and>
     tb_handle t = 0x10000 \<and> tb_is_free t \<and> bu_size (tb_rodata t) = 4096 \<and>
     holds_bytes p (bu_va (tb_rodata t)) (map (\<lambda>i. px_phys p (unat (bu_pa (tb_rodata t)) + i)) [0..<24]) \<and>
     build_new_job demo_ctrl 0x10000 ((demo_graph b)\<lparr>gr_tbufs := [(0x10000, t)]\<rparr>) p =
       Some (AIPU_STATUS_SUCCESS, Some 0x10000, demo_built b t, q)"
proof -
  obtain b where b: "graph_reach demo_ctrl 1 (demo_graph b)" using demo_reach by blast
  have like: "demo_like b (demo_graph b)" "demo_like b ((demo_graph b)\<lparr>gr_tbufs := [(0x10000, t)]\<rparr>)" for t
    by (auto simp: demo_like_def demo_graph_def)
  have h: "create_buf_handle_inner (demo_graph b) = Some 0x10000"
    by (simp add: create_buf_handle_inner_def first_free_id.simps demo_graph_def get_tbuf_ptr_def create_graph_desc_def empty_gdesc_def push_bit_eq_mult)
  have e: "gr_tbufs (demo_graph b) = []" "gr_jobs (demo_graph b) = []" by (simp_all add: demo_graph_def)
  obtain t p' where t: "alloc_thread_buffer demo_ctrl (demo_graph b) demo_start =
      Some (AIPU_STATUS_SUCCESS, Some (0x10000, tb_iobuf t), (demo_graph b)\<lparr>gr_tbufs := [(0x10000, t)]\<rparr>, p')"
    "tb_handle t = 0x10000" "tb_is_free t" "bu_size (tb_rodata t) = 4096"
    "holds_bytes p' (bu_va (tb_rodata t)) (map (\<lambda>i. px_phys p' (unat (bu_pa (tb_rodata t)) + i)) [0..<24])"
    using demo_alloc [OF like(1) h] by (auto simp: e)
  let ?g = "(demo_graph b)\<lparr>gr_tbufs := [(0x10000, t)]\<rparr>"
  have g: "graph_reach demo_ctrl 1 ?g" by (rule graph_reach.step [OF b graph_step.alloc_tb [OF t(1)]])
  have t1: "get_tbuf_ptr ?g 0x10000 = Some t" by (simp add: get_tbuf_ptr_def)
  have jid: "create_job_id_inner ?g = Some 0x10000"
    by (simp add: create_job_id_inner_def first_free_id.simps is_job_exist_inner_def is_job_built_inner_def is_job_scheduled_inner_def
      is_job_end_inner_def get_job_ptr_def demo_graph_def create_graph_desc_def empty_gdesc_def push_bit_eq_mult)
  have "(put_tbuf 0x10000 (\<lambda>t. t\<lparr>tb_is_free := False\<rparr>) ?g)\<lparr>gr_jobs := omap_insert 0x10000 (umd_job demo_ctrl ?g t 0x10000 0x10000) (gr_jobs ?g)\<rparr> =
      demo_built b t"
    by (simp add: demo_built_def put_tbuf_def omap_update_def demo_graph_def umd_job_def job_config_def is_asid_enabled_def)
  then obtain q where r: "build_new_job demo_ctrl 0x10000 ?g p' = Some (AIPU_STATUS_SUCCESS, Some 0x10000, demo_built b t, q)"
    using demo_build [OF like(2) g t1 t(3,4,5)] jid by (auto simp: e)
  have "graph_reach demo_ctrl 1 (demo_built b t)" by (rule graph_reach.step [OF g graph_step.build [OF r]])
  then show ?thesis using g t(2-5) r by blast
qed

lemma demo_run:
  "\<exists>b t. graph_reach demo_ctrl 1 ((demo_graph b)\<lparr>gr_tbufs := [(0x10000, t)]\<rparr>) \<and> graph_reach demo_ctrl 1 (demo_built b t)"
  using demo_steps by blast

text \<open>The job of the run has timed out, and a second thread buffer is built on.\<close>

definition demo_late :: "buffer_desc \<Rightarrow> tbuf_info \<Rightarrow> graph" where
  "demo_late b t = put_job 0x10000 (\<lambda>j. j\<lparr>jd_state := JOB_STATE_TIMEOUT\<rparr>) (demo_built b t)"

lemma demo_second_build:
  "\<exists>b t t2 g p r g' q. graph_reach demo_ctrl 1 g \<and> g = (demo_late b t)\<lparr>gr_tbufs := omap_insert 0x10001 t2 (gr_tbufs (demo_late b t))\<rparr> \<and>
     (\<exists>j. get_job_ptr g 0x10000 = Some j \<and> jd_state j = JOB_STATE_TIMEOUT \<and> jd_buf_handle j = 0x10000) \<and>
     build_new_job demo_ctrl 0x10001 g p = Some (AIPU_STATUS_SUCCESS, r, g', q)"
proof -
  obtain b t where r: "graph_reach demo_ctrl 1 (demo_built b t)" using demo_run by blast
  have r1: "graph_reach demo_ctrl 1 (demo_late b t)" unfolding demo_late_def by (rule graph_reach.step [OF r graph_step.timeout])
  have l: "demo_late b t = (demo_graph b)\<lparr>gr_tbufs := [(0x10000, t\<lparr>tb_is_free := False\<rparr>)],
     gr_jobs := [(0x10000, (umd_job demo_ctrl (demo_graph b) t 0x10000 0x10000)\<lparr>jd_state := JOB_STATE_TIMEOUT\<rparr>)]\<rparr>"
    by (simp add: demo_late_def demo_built_def put_job_def omap_update_def demo_graph_def)
  have like: "demo_like b (demo_late b t)" "demo_like b ((demo_late b t)\<lparr>gr_tbufs := ts\<rparr>)" for ts
    unfolding l by (auto simp: demo_like_def demo_graph_def)
  have id: "gd_id (gr_gdesc (demo_late b t)) = 1" by (rule graph_reach_id [OF r1])
  have t0: "get_tbuf_ptr (demo_late b t) h = (if h = 0x10000 then Some (t\<lparr>tb_is_free := False\<rparr>) else None)" for h
    by (simp add: l get_tbuf_ptr_def)
  have h: "create_buf_handle_inner (demo_late b t) = Some 0x10001"
    by (simp add: create_buf_handle_inner_def id t0 first_free_id.simps push_bit_eq_mult)
  obtain t2 p' where t2: "alloc_thread_buffer demo_ctrl (demo_late b t) demo_start =
      Some (AIPU_STATUS_SUCCESS, Some (0x10001, tb_iobuf t2), (demo_late b t)\<lparr>gr_tbufs := omap_insert 0x10001 t2 (gr_tbufs (demo_late b t))\<rparr>, p')"
    "tb_is_free t2" "bu_size (tb_rodata t2) = 4096"
    "holds_bytes p' (bu_va (tb_rodata t2)) (map (\<lambda>i. px_phys p' (unat (bu_pa (tb_rodata t2)) + i)) [0..<24])"
    using demo_alloc [OF like(1) h] by blast
  let ?g = "(demo_late b t)\<lparr>gr_tbufs := omap_insert 0x10001 t2 (gr_tbufs (demo_late b t))\<rparr>"
  have g: "graph_reach demo_ctrl 1 ?g" by (rule graph_reach.step [OF r1 graph_step.alloc_tb [OF t2(1)]])
  have tp: "get_tbuf_ptr ?g 0x10001 = Some t2" by (simp add: get_tbuf_ptr_def)
  have "length (gr_jobs ?g) < 0x10000" by (simp add: l)
  from demo_build [OF like(2) g tp t2(2-4) this] obtain jid q where
    r: "build_new_job demo_ctrl 0x10001 ?g p' = Some (AIPU_STATUS_SUCCESS, Some jid,
      (put_tbuf 0x10001 (\<lambda>t. t\<lparr>tb_is_free := False\<rparr>) ?g)\<lparr>gr_jobs := omap_insert jid (umd_job demo_ctrl ?g t2 jid 0x10001) (gr_jobs ?g)\<rparr>, q)"
    by (elim exE conjE)
  have j: "\<exists>j. get_job_ptr ?g 0x10000 = Some j \<and> jd_state j = JOB_STATE_TIMEOUT \<and> jd_buf_handle j = 0x10000"
    by (simp add: l get_job_ptr_def umd_job_def)
  show ?thesis by ((rule exI)+, intro conjI) (rule g, rule refl, rule j, rule r)
qed

end
