(* ===== verification/UmdProps.thy ===== *)
theory UmdProps
  imports UmdDemo
begin

text \<open>
  The properties of graphs and jobs in the user-mode driver, each with a state of the
  evaluated run in which it applies.
\<close>

subsection \<open>What holds in every state of a graph\<close>

text \<open>C11. References inside a loaded graph exist. In every state of a graph that was parsed and loaded, whatever
  the binary was, the buffers of the tensors are found whenever a thread has one buffer per
  section, and every parameter of every thread buffer stands for an address: the loader
  never creates a reference to a section that does not exist.\<close>

theorem reachable_graph_typed:
  assumes "graph_reach c gid g"
  shows "(\<forall>bufs. length bufs = length (reuse_sections (gr_tbuf_templ g)) \<longrightarrow>
      (\<exists>io. create_iobufs g bufs = Some io \<and> map iob_id (iob_inputs io) = map io_id (gr_inputs g) \<and>
         map iob_id (iob_outputs io) = map io_id (gr_outputs g))) \<and>
    (\<forall>h t. get_tbuf_ptr g h = Some t \<longrightarrow> (\<forall>m \<in> set (gr_param_map g). \<exists>pa. param_pa c g t m = Inr pa))"
proof -
  have ok: "graph_typed g" "tbufs_ok g" using graph_reach_ok [OF assms] by (simp_all add: graph_ok_def)
  have "\<exists>pa. param_pa c g t m = Inr pa" if "get_tbuf_ptr g h = Some t" "m \<in> set (gr_param_map g)" for h t m
    by (rule param_pa_ok [OF ok(1) that(2)]) (use ok(2) that(1) in \<open>simp add: tbufs_ok_def\<close>)
  then show ?thesis using create_iobufs_ok [OF ok(1)] by blast
qed

lemma reachable_graph_typed_witness:
  "\<exists>b t pa1 pa2. map (param_pa demo_ctrl ((demo_graph b)\<lparr>gr_tbufs := [(0x10000, t)]\<rparr>) t)
     (secs_params PARAM_MAP_LOAD_TYPE_REUSE 0 demo_reuses) = [Inr pa1, Inr pa2]"
proof -
  obtain b t where g: "graph_reach demo_ctrl 1 ((demo_graph b)\<lparr>gr_tbufs := [(0x10000, t)]\<rparr>)" using demo_run by blast
  let ?g = "(demo_graph b)\<lparr>gr_tbufs := [(0x10000, t)]\<rparr>"
  have "get_tbuf_ptr ?g 0x10000 = Some t" by (simp add: get_tbuf_ptr_def)
  then have p: "\<forall>m \<in> set (gr_param_map ?g). \<exists>pa. param_pa demo_ctrl ?g t m = Inr pa" using reachable_graph_typed [OF g] by blast
  obtain m1 m2 where m: "secs_params PARAM_MAP_LOAD_TYPE_REUSE 0 demo_reuses = [m1, m2]" by (simp add: demo_reuses_simps)
  have "gr_param_map ?g = [m1, m2]" by (simp add: demo_graph_def demo_info_def m)
  then show ?thesis using p unfolding m by (intro exI [of _ b] exI [of _ t]) auto
qed

text \<open>C10. A job owns its buffer. In every state of a graph, each job is found under its own identifier, its thread
  buffer exists and is marked as used, and two jobs never share one.\<close>

theorem jobs_own_buffers:
  assumes "graph_reach c gid g" "get_job_ptr g i = Some j"
  shows "jd_id j = i \<and> (\<exists>t. get_tbuf_ptr g (jd_buf_handle j) = Some t \<and> \<not> tb_is_free t) \<and>
    (\<forall>i' j'. get_job_ptr g i' = Some j' \<and> jd_buf_handle j' = jd_buf_handle j \<longrightarrow> i' = i)"
proof -
  have J: "job_table_ok g" using graph_reach_ok [OF assms(1)] by (simp add: graph_ok_def)
  show ?thesis using job_table_okD(2,3) [OF J assms(2)] job_table_okD(4) [OF J _ assms(2)] by blast
qed

lemma jobs_own_buffers_witness:
  "\<exists>b t. get_job_ptr (demo_built b t) 0x10000 \<noteq> None \<and>
     (\<exists>t'. get_tbuf_ptr (demo_built b t) 0x10000 = Some t' \<and> \<not> tb_is_free t')"
proof -
  obtain b t where g: "graph_reach demo_ctrl 1 (demo_built b t)" using demo_run by blast
  have j: "get_job_ptr (demo_built b t) 0x10000 = Some (umd_job demo_ctrl (demo_graph b) t 0x10000 0x10000)"
    by (simp add: demo_built_def get_job_ptr_def)
  show ?thesis using jobs_own_buffers [OF g j] j by (intro exI [of _ b] exI [of _ t]) (auto simp: umd_job_def)
qed

subsection \<open>Identifiers\<close>

text \<open>C30. A new job is found through its identifier. Below 65536 graphs, and jobs in a graph, building a job on a
  free buffer gives it an identifier that no live job of the graph has and whose upper half
  is the graph's: in the state after the build, the identifier leads to the graph and there
  to the new job. A later build may give the identifier away once the job has timed out.\<close>

theorem built_job_found:
  assumes "create_new_job gid h m p = Some (AIPU_STATUS_SUCCESS, r, m', p')"
    and "get_graph_object m gid = Some g" "graph_reach (mc_ctrl m) gid g" "gid < 0x10000" "length (gr_jobs g) < 0x10000"
  shows "\<exists>jid g' j. r = Some jid \<and> \<not> is_job_exist_inner g jid \<and>
    get_graph_object m' (job_id2graph_id jid) = Some g' \<and> get_job_ptr g' jid = Some j \<and> jd_state j = JOB_STATE_BUILT \<and> jd_buf_handle j = h"
proof -
  obtain g' where b: "build_new_job (mc_ctrl m) h g p = Some (AIPU_STATUS_SUCCESS, r, g', p')" "m' = put_graph gid (Some g') m"
    using assms(1,2) by (auto simp: create_new_job_def elim!: bind_SomeE)
  obtain t jid where t: "create_job_id_inner g = Some jid" "r = Some jid"
    "g' = (put_tbuf h (\<lambda>t. t\<lparr>tb_is_free := False\<rparr>) g)\<lparr>gr_jobs := omap_insert jid (umd_job (mc_ctrl m) g t jid h) (gr_jobs g)\<rparr>"
    using build_new_job_cases [OF b(1)] by auto
  obtain k where k: "create_job_id_inner g = Some k" "\<not> is_job_exist_inner g k" "drop_bit 16 k = gid"
    using fresh_id [OF assms(5,4), of "is_job_exist_inner g"] unfolding create_job_id_inner_def graph_reach_id [OF assms(3)]
    by (force simp: is_job_exist_inner_def is_job_built_inner_def is_job_scheduled_inner_def is_job_end_inner_def get_job_ptr_def
        split: option.splits)
  have "get_graph_object m' (job_id2graph_id jid) = Some g'"
    using k t(1) by (simp add: b(2) get_graph_object_def put_graph_def job_id2graph_id_def)
  moreover have "get_job_ptr g' jid = Some (umd_job (mc_ctrl m) g t jid h)" by (simp add: t(3) get_job_ptr_def)
  ultimately show ?thesis using t(1,2) k(1,2)
    by (intro exI [of _ jid] exI [of _ g'] exI [of _ "umd_job (mc_ctrl m) g t jid h"]) (simp add: umd_job_def)
qed

lemma built_job_found_witness:
  "\<exists>b t p q g'. create_new_job 1 0x10000 \<lparr>mc_ctrl = demo_ctrl, mc_graphs = [(1, Some ((demo_graph b)\<lparr>gr_tbufs := [(0x10000, t)]\<rparr>))],
       mc_rt_cfg = \<lparr>poll_opt = False, bypass_version_check = False\<rparr>\<rparr> p =
     Some (AIPU_STATUS_SUCCESS, Some 0x10000, \<lparr>mc_ctrl = demo_ctrl, mc_graphs = [(1, Some g')],
       mc_rt_cfg = \<lparr>poll_opt = False, bypass_version_check = False\<rparr>\<rparr>, q) \<and> get_job_ptr g' 0x10000 \<noteq> None"
proof -
  obtain b t p q where g: "graph_reach demo_ctrl 1 ((demo_graph b)\<lparr>gr_tbufs := [(0x10000, t)]\<rparr>)"
    and r: "build_new_job demo_ctrl 0x10000 ((demo_graph b)\<lparr>gr_tbufs := [(0x10000, t)]\<rparr>) p =
       Some (AIPU_STATUS_SUCCESS, Some 0x10000, demo_built b t, q)" using demo_steps by blast
  let ?g = "(demo_graph b)\<lparr>gr_tbufs := [(0x10000, t)]\<rparr>"
  let ?m = "\<lparr>mc_ctrl = demo_ctrl, mc_graphs = [(1, Some ?g)], mc_rt_cfg = \<lparr>poll_opt = False, bypass_version_check = False\<rparr>\<rparr>"
  have c: "create_new_job 1 0x10000 ?m p = Some (AIPU_STATUS_SUCCESS, Some 0x10000, put_graph 1 (Some (demo_built b t)) ?m, q)"
    using r by (simp add: create_new_job_def get_graph_object_def)
  have jobs: "gr_jobs ?g = []" by (simp add: demo_graph_def)
  have "\<exists>jid g' j. Some 0x10000 = Some jid \<and> \<not> is_job_exist_inner ?g jid \<and>
      get_graph_object (put_graph 1 (Some (demo_built b t)) ?m) (job_id2graph_id jid) = Some g' \<and> get_job_ptr g' jid = Some j \<and>
      jd_state j = JOB_STATE_BUILT \<and> jd_buf_handle j = 0x10000"
    by (rule built_job_found [OF c]) (use g jobs in \<open>simp_all add: get_graph_object_def\<close>)
  then have "get_job_ptr (demo_built b t) 0x10000 \<noteq> None"
    by (auto simp: get_graph_object_def put_graph_def job_id2graph_id_def drop_bit_eq_div)
  then show ?thesis using c by (intro exI [of _ b] exI [of _ t] exI [of _ p] exI [of _ q] exI [of _ "demo_built b t"]) (simp add: put_graph_def)
qed

subsection \<open>Building\<close>








subsection \<open>The end of a job\<close>

text \<open>C29. Cleaning gives a job's buffer back. In every state of a graph, a job that is neither waiting to be
  scheduled nor scheduled can be cleaned: its identifier names no job any more, its buffer
  is free for the next job or for release, and the other jobs and buffers are as before.\<close>

theorem clean_frees_buffer:
  assumes "graph_reach c gid g" "get_job_ptr g i = Some j" "jd_state j \<noteq> JOB_STATE_BUILT" "jd_state j \<noteq> JOB_STATE_SCHED"
  shows "\<exists>g' t. clean_job i g = (AIPU_STATUS_SUCCESS, g') \<and> get_job_ptr g' i = None \<and>
    get_tbuf_ptr g (jd_buf_handle j) = Some t \<and> get_tbuf_ptr g' (jd_buf_handle j) = Some (t\<lparr>tb_is_free := True\<rparr>) \<and>
    (\<forall>k. k \<noteq> i \<longrightarrow> get_job_ptr g' k = get_job_ptr g k) \<and> (\<forall>h. h \<noteq> jd_buf_handle j \<longrightarrow> get_tbuf_ptr g' h = get_tbuf_ptr g h)"
proof -
  have J: "job_table_ok g" using graph_reach_ok [OF assms(1)] by (simp add: graph_ok_def)
  have id: "jd_id j = i" by (rule job_table_okD(2) [OF J assms(2)])
  obtain t where t: "get_tbuf_ptr g (jd_buf_handle j) = Some t" using job_table_okD(3) [OF J assms(2)] by blast
  let ?g = "(put_tbuf (jd_buf_handle j) (\<lambda>t. t\<lparr>tb_is_free := True\<rparr>) g)\<lparr>gr_sched := remove1 i (gr_sched g)\<rparr>"
  have c: "clean_job i g = (AIPU_STATUS_SUCCESS, ?g\<lparr>gr_jobs := omap_erase i (gr_jobs g)\<rparr>)"
    using assms(2-4) id by (simp add: clean_job_def Let_def delete_from_sched_queue_inner_def)
  show ?thesis
    by (rule exI [of _ "?g\<lparr>gr_jobs := omap_erase i (gr_jobs g)\<rparr>"], rule exI [of _ t]) (use c t in \<open>simp add: get_job_ptr_def option.map_id\<close>)
qed

lemma demo_ended:
  "\<exists>b t g. graph_reach demo_ctrl 1 g \<and> g = put_job 0x10000 (\<lambda>j. j\<lparr>jd_state := JOB_STATE_DONE\<rparr>) (demo_built b t) \<and>
     get_job_ptr g 0x10000 = Some ((umd_job demo_ctrl (demo_graph b) t 0x10000 0x10000)\<lparr>jd_state := JOB_STATE_DONE\<rparr>) \<and>
     gd_id (gr_gdesc g) = 1"
proof -
  obtain b t where g: "graph_reach demo_ctrl 1 (demo_built b t)" using demo_run by blast
  have j: "get_job_ptr (demo_built b t) 0x10000 = Some (umd_job demo_ctrl (demo_graph b) t 0x10000 0x10000)"
    by (simp add: demo_built_def get_job_ptr_def)
  have "update_job_status 0x10000 JOB_STATE_DONE (demo_built b t) =
      (AIPU_STATUS_SUCCESS, put_job 0x10000 (\<lambda>j. j\<lparr>jd_state := JOB_STATE_DONE\<rparr>) (demo_built b t))"
    by (simp add: update_job_status_def j)
  from graph_reach.step [OF g graph_step.status [OF this]]
  have r: "graph_reach demo_ctrl 1 (put_job 0x10000 (\<lambda>j. j\<lparr>jd_state := JOB_STATE_DONE\<rparr>) (demo_built b t))" .
  then show ?thesis using graph_reach_id [OF r] j by (intro exI [of _ b] exI [of _ t]) simp
qed

lemma clean_frees_buffer_witness:
  "\<exists>g g' t. graph_reach demo_ctrl 1 g \<and> get_job_ptr g 0x10000 \<noteq> None \<and> clean_job 0x10000 g = (AIPU_STATUS_SUCCESS, g') \<and>
     get_job_ptr g' 0x10000 = None \<and> get_tbuf_ptr g' 0x10000 = Some t \<and> tb_is_free t"
proof -
  obtain b t g where g: "graph_reach demo_ctrl 1 g"
    "get_job_ptr g 0x10000 = Some ((umd_job demo_ctrl (demo_graph b) t 0x10000 0x10000)\<lparr>jd_state := JOB_STATE_DONE\<rparr>)"
    using demo_ended by blast
  obtain g' t' where c: "clean_job 0x10000 g = (AIPU_STATUS_SUCCESS, g')" "get_job_ptr g' 0x10000 = None"
    "get_tbuf_ptr g' 0x10000 = Some (t'\<lparr>tb_is_free := True\<rparr>)"
    using clean_frees_buffer [OF g] by (auto simp: job_state_defs umd_job_def)
  have "get_job_ptr g 0x10000 \<noteq> None" using g(2) by simp
  then show ?thesis using g(1) c by (intro exI [of _ g] exI [of _ g'] exI [of _ "t'\<lparr>tb_is_free := True\<rparr>"]) simp
qed

subsection \<open>Buffers that are lost\<close>

text \<open>A thread buffer is lost when it is marked as used but no job has it.\<close>

definition lost_buffer :: "u32 \<Rightarrow> graph \<Rightarrow> bool" where
  "lost_buffer h g \<longleftrightarrow> (\<exists>t. get_tbuf_ptr g h = Some t \<and> \<not> tb_is_free t) \<and>
     (\<forall>i j. get_job_ptr g i = Some j \<longrightarrow> jd_buf_handle j \<noteq> h)"

lemma lost_bufferD: "lost_buffer h g \<Longrightarrow> get_job_ptr g i = Some j \<Longrightarrow> jd_buf_handle j \<noteq> h"
  by (simp add: lost_buffer_def)

lemma lost_bufferI:
  assumes "lost_buffer h g" "get_tbuf_ptr g' h = get_tbuf_ptr g h"
    and "\<And>i j. get_job_ptr g' i = Some j \<Longrightarrow> jd_buf_handle j = h \<Longrightarrow> \<exists>k j'. get_job_ptr g k = Some j' \<and> jd_buf_handle j' = h"
  shows "lost_buffer h g'"
  using assms unfolding lost_buffer_def by metis

lemma lost_put_job:
  assumes "lost_buffer h g" "\<And>j. get_job_ptr g i = Some j \<Longrightarrow> jd_buf_handle (f j) = jd_buf_handle j"
  shows "lost_buffer h (put_job i f g)"
proof -
  have "jd_buf_handle j \<noteq> h" if "get_job_ptr (put_job i f g) k = Some j" for k j
    using that assms(2) by (cases "k = i") (auto dest: lost_bufferD [OF assms(1)])
  then show ?thesis using assms(1) by (simp add: lost_buffer_def)
qed

lemma lost_sched [simp]: "lost_buffer h (g\<lparr>gr_sched := q\<rparr>) = lost_buffer h g"
  by (simp add: lost_buffer_def)

lemma lost_status:
  "lost_buffer h g \<Longrightarrow> lost_buffer h (snd (update_job_status_desc js g))" "lost_buffer h g \<Longrightarrow> lost_buffer h (snd (update_job_status jid s g))"
  by (auto simp: update_job_status_desc_def update_job_status_def split: option.splits intro!: lost_put_job)

lemma lost_dump: "lost_buffer h g \<Longrightarrow> set_dump_options jid opt g p = (st, g', p') \<Longrightarrow> lost_buffer h g'"
  by (auto simp: set_dump_options_def Let_def split: option.splits if_splits intro!: lost_put_job)

lemma lost_clean:
  assumes "lost_buffer h g"
  shows "lost_buffer h (snd (clean_job jid g))"
proof (cases "get_job_ptr g jid")
  case (Some job)
  have "jd_buf_handle job \<noteq> h" using assms Some by (auto simp: lost_buffer_def)
  then show ?thesis using assms Some
    by (auto simp: clean_job_def Let_def delete_from_sched_queue_inner_def lost_buffer_def get_job_ptr_def split: if_splits)
qed (use assms in \<open>simp add: clean_job_def\<close>)

lemma lost_flush:
  assumes "lost_buffer h g" "flush_job c jid g p = Some (st, g', p')"
  shows "lost_buffer h g'"
proof -
  have "\<exists>f q. g' = (put_job jid f g)\<lparr>gr_sched := q\<rparr> \<and> (\<forall>j. get_job_ptr g jid = Some j \<longrightarrow> jd_buf_handle (f j) = jd_buf_handle j) \<or> g' = g"
    using assms(2) unfolding flush_job_def Let_def
    by (fastforce elim!: bind_SomeE simp: put_job_sched delete_from_sched_queue_inner_def dest: schedule_keeps split: option.splits if_splits)
  then show ?thesis using lost_put_job [OF assms(1)] assms(1) by auto
qed

lemma lost_tbufs:
  assumes "lost_buffer h g" "map_of ts h = map_of (gr_tbufs g) h"
  shows "lost_buffer h (g\<lparr>gr_tbufs := ts\<rparr>)"
  using assms by (simp add: lost_buffer_def get_tbuf_ptr_def)

lemma lost_alloc:
  assumes "lost_buffer h g" "alloc_thread_buffer c g p = Some (st, r, g', p')"
  shows "lost_buffer h g'"
proof (cases "st = AIPU_STATUS_SUCCESS")
  case True
  obtain k t where k: "create_buf_handle_inner g = Some k" "g' = g\<lparr>gr_tbufs := omap_insert k t (gr_tbufs g)\<rparr>"
    using alloc_thread_buffer_succeeds [OF assms(2) [unfolded True]] by blast
  have "get_tbuf_ptr g k = None" using first_free_id_unused k(1) unfolding create_buf_handle_inner_def by fastforce
  then have "k \<noteq> h" using assms(1) by (auto simp: lost_buffer_def)
  then show ?thesis unfolding k(2) by (intro lost_tbufs [OF assms(1)]) simp
qed (use alloc_thread_buffer_fails [OF assms(2)] assms(1) in simp)

lemma lost_not_free: "lost_buffer h g \<Longrightarrow> get_tbuf_ptr g k = Some t \<Longrightarrow> tb_is_free t \<Longrightarrow> k \<noteq> h"
  by (auto simp: lost_buffer_def)

lemma lost_free:
  assumes "lost_buffer h g" "free_thread_buffer c k g p = Some (st, g', p')"
  shows "lost_buffer h g'"
  using free_thread_buffer_cases [OF assms(2)]
proof (elim disjE conjE exE)
  fix t assume t: "get_tbuf_ptr g k = Some t" "tb_is_free t" and g': "g' = g\<lparr>gr_tbufs := omap_erase k (gr_tbufs g)\<rparr>"
  show ?thesis unfolding g' by (rule lost_tbufs [OF assms(1)]) (use lost_not_free [OF assms(1) t] in simp)
qed (use assms(1) in simp)

lemma lost_build:
  assumes "lost_buffer h g" "build_new_job c k g p = Some (st, r, g', p')"
  shows "lost_buffer h g'"
proof -
  have busy: "lost_buffer h (put_tbuf k (\<lambda>t. t\<lparr>tb_is_free := False\<rparr>) g)" if "k \<noteq> h"
    using assms(1) that by (simp add: lost_buffer_def)
  have job: "lost_buffer h (g1\<lparr>gr_jobs := omap_insert jid (umd_job c g t jid k) (gr_jobs g)\<rparr>)"
    if "k \<noteq> h" "lost_buffer h g1" "gr_jobs g1 = gr_jobs g" for g1 jid t
  proof (rule lost_bufferI [OF that(2)])
    fix i j assume a: "get_job_ptr (g1\<lparr>gr_jobs := omap_insert jid (umd_job c g t jid k) (gr_jobs g)\<rparr>) i = Some j" "jd_buf_handle j = h"
    have "i \<noteq> jid" using a that(1) by (auto simp: umd_job_def)
    then have "get_job_ptr g1 i = Some j" using a(1) by (simp add: get_job_ptr_def that(3))
    then show "\<exists>k j'. get_job_ptr g1 k = Some j' \<and> jd_buf_handle j' = h" using a(2) by blast
  qed simp
  show ?thesis using build_new_job_cases [OF assms(2)]
  proof (elim disjE conjE exE)
    fix t assume t: "get_tbuf_ptr g k = Some t" "tb_is_free t" and g': "g' = put_tbuf k (\<lambda>t. t\<lparr>tb_is_free := False\<rparr>) g"
    show ?thesis unfolding g' by (rule busy [OF lost_not_free [OF assms(1) t]])
  next
    fix t jid assume t: "get_tbuf_ptr g k = Some t" "tb_is_free t"
      and g': "g' = (put_tbuf k (\<lambda>t. t\<lparr>tb_is_free := False\<rparr>) g)\<lparr>gr_jobs := omap_insert jid (umd_job c g t jid k) (gr_jobs g)\<rparr>"
    note ne = lost_not_free [OF assms(1) t]
    show ?thesis unfolding g' by (rule job [OF ne busy [OF ne]]) simp
  qed (use assms(1) in simp)
qed

lemma lost_unload:
  assumes "lost_buffer h g" "graph_unload c g p = Some (st, g', p')"
  shows "lost_buffer h g'"
proof -
  have "lost_buffer h g1" if "cleared g g1" for g1
    using assms(1) that by (simp add: lost_buffer_def cleared_def get_job_ptr_def get_tbuf_ptr_def)
  then show ?thesis using graph_unload_cases [OF assms(2)] assms(1) by blast
qed

lemma lost_step:
  assumes "graph_step c g g'" "lost_buffer h g"
  shows "lost_buffer h g'"
  using assms
proof cases
  case (report js st)
  then show ?thesis using lost_status(1) [OF assms(2), of js] by simp
next
  case (status jid s st)
  then show ?thesis using lost_status(2) [OF assms(2), of jid s] by simp
next
  case (timeout jid)
  then show ?thesis using assms(2) by (simp add: lost_put_job)
next
  case (clean jid st)
  then show ?thesis using lost_clean [OF assms(2), of jid] by simp
qed (rule lost_alloc lost_free lost_build lost_flush lost_dump lost_unload, rule assms(2), assumption)+

text \<open>A lost buffer stays lost. Whatever is called on the graph afterwards, a thread buffer that is marked as
  used while no job has it keeps this mark: every release of it is refused as busy, and no
  attempt to unload the graph ever succeeds.\<close>

theorem lost_buffer_stays:
  assumes "lost_buffer h g" "(graph_step c)\<^sup>*\<^sup>* g g'"
  shows "lost_buffer h g' \<and> free_thread_buffer c h g' p = Some (AIPU_STATUS_ERROR_BUSY_HANDLE, g', p) \<and>
    (\<forall>p st g'' p''. graph_unload c g' p = Some (st, g'', p'') \<longrightarrow> st \<noteq> AIPU_STATUS_SUCCESS)"
proof -
  have l: "lost_buffer h g'" using assms(2,1) by (induction rule: rtranclp_induct) (auto intro: lost_step)
  then obtain t where t: "get_tbuf_ptr g' h = Some t" "\<not> tb_is_free t" by (auto simp: lost_buffer_def)
  then have "gr_tbufs g' \<noteq> []" by (auto simp: get_tbuf_ptr_def)
  then have "st \<noteq> AIPU_STATUS_SUCCESS" if "graph_unload c g' p = Some (st, g'', p'')" for p st g'' p''
    using graph_unload_cases [OF that] by auto
  then show ?thesis using l t by (simp add: free_thread_buffer_def)
qed

lemma lost_buffer_stays_witness:
  "\<exists>b t. free_thread_buffer demo_ctrl 0x10000 ((demo_built b t)\<lparr>gr_jobs := []\<rparr>) demo_start =
     Some (AIPU_STATUS_ERROR_BUSY_HANDLE, (demo_built b t)\<lparr>gr_jobs := []\<rparr>, demo_start)"
proof -
  obtain b t where "graph_reach demo_ctrl 1 (demo_built b t)" using demo_run by blast
  let ?g = "(demo_built b t)\<lparr>gr_jobs := []\<rparr>"
  have l: "lost_buffer 0x10000 ?g" by (simp add: lost_buffer_def get_tbuf_ptr_def get_job_ptr_def demo_built_def)
  have "clean_job 0x10000 ?g = (AIPU_STATUS_ERROR_JOB_NOT_EXIST, ?g)" by (simp add: clean_job_def get_job_ptr_def)
  then have "(graph_step demo_ctrl)\<^sup>*\<^sup>* ?g ?g" by (intro r_into_rtranclp graph_step.clean)
  from lost_buffer_stays [OF l this] show ?thesis by blast
qed

text \<open>A refused unload loses buffers. No graph with a job is ever unloaded. When all its jobs have ended it counts
  as ready, though: the unload forgets the jobs but not that their buffers are in
  use, is refused by the first of them, and leaves them lost.\<close>

theorem unload_loses_buffers:
  assumes "graph_reach c gid g" "get_job_ptr g i = Some j" "graph_unload c g p = Some (st, g', p')"
  shows "st \<noteq> AIPU_STATUS_SUCCESS \<and> (st \<noteq> AIPU_STATUS_ERROR_INVALID_OP \<longrightarrow> lost_buffer (jd_buf_handle j) g')"
proof -
  have J: "job_table_ok g" using graph_reach_ok [OF assms(1)] by (simp add: graph_ok_def)
  obtain t where t: "get_tbuf_ptr g (jd_buf_handle j) = Some t" "\<not> tb_is_free t" using job_table_okD(3) [OF J assms(2)] by blast
  then have "gr_tbufs g \<noteq> []" by (auto simp: get_tbuf_ptr_def)
  then show ?thesis using graph_unload_cases [OF assms(3)] t
    by (auto simp: cleared_def lost_buffer_def get_tbuf_ptr_def get_job_ptr_def)
qed

lemma unload_loses_buffers_witness:
  "\<exists>g st g' p'. graph_reach demo_ctrl 1 g \<and> is_unload_ok g \<and>
     graph_unload demo_ctrl g (demo_start\<lparr>px_files := \<lambda>_. None\<rparr>) = Some (st, g', p') \<and> lost_buffer 0x10000 g'"
proof -
  obtain b t g where g: "graph_reach demo_ctrl 1 g" "g = put_job 0x10000 (\<lambda>j. j\<lparr>jd_state := JOB_STATE_DONE\<rparr>) (demo_built b t)"
    and j: "get_job_ptr g 0x10000 = Some ((umd_job demo_ctrl (demo_graph b) t 0x10000 0x10000)\<lparr>jd_state := JOB_STATE_DONE\<rparr>)"
    using demo_ended by blast
  let ?p = "demo_start\<lparr>px_files := \<lambda>_. None\<rparr>"
  have f: "pb_text (gr_pbuf g) = b" "pb_static_group (gr_pbuf g) = buffer_desc_init" "gr_tbufs g = [(0x10000, t\<lparr>tb_is_free := False\<rparr>)]"
    by (simp_all add: g(2) put_job_def demo_built_def demo_graph_def)
  have ok: "is_unload_ok g"
    by (simp add: is_unload_ok_def is_all_jobs_end_inner_def g(2) put_job_def demo_built_def omap_update_def job_state_defs)
  have fr: "\<exists>st p'. free_text_buffer demo_ctrl b ?p = Some (st, p') \<and> st \<noteq> AIPU_STATUS_SUCCESS \<and> st \<noteq> AIPU_STATUS_ERROR_INVALID_OP"
    by (simp add: free_text_buffer_def free_buf_def dev_op_wrapper_free_def sys_ioctl_def sys_munmap_def next_call_def Let_def)
  have "\<exists>st g' p'. graph_unload demo_ctrl g ?p = Some (st, g', p') \<and> st \<noteq> AIPU_STATUS_ERROR_INVALID_OP"
    using fr by (cases "bu_va b = 0")
      (auto simp: graph_unload_def ok Let_def f buffer_desc_init_def unload_tbufs_def free_thread_buffer_def get_tbuf_ptr_def)
  then obtain st g' p' where u: "graph_unload demo_ctrl g ?p = Some (st, g', p')" "st \<noteq> AIPU_STATUS_ERROR_INVALID_OP" by blast
  have "lost_buffer 0x10000 g'" using unload_loses_buffers [OF g(1) j u(1)] u(2) by (simp add: umd_job_def)
  then show ?thesis using g(1) ok u(1) by blast
qed

text \<open>An unfinished job is replaced. The identifier of a job that timed out, or whose submission failed, is not
  seen as taken: when it is the graph's first, the next build gives it to the new job, the
  record of the old job is overwritten, and its buffer is lost.\<close>

theorem build_replaces_timed_out:
  assumes "graph_reach c gid g" "get_job_ptr g (push_bit 16 gid) = Some j"
    and "jd_state j = JOB_STATE_TIMEOUT \<or> jd_state j = JOB_STATE_NO_STATE"
    and "build_new_job c h g p = Some (AIPU_STATUS_SUCCESS, r, g', p')"
  shows "r = Some (push_bit 16 gid) \<and> (\<exists>j'. get_job_ptr g' (push_bit 16 gid) = Some j' \<and> jd_buf_handle j' = h \<and> h \<noteq> jd_buf_handle j) \<and>
    lost_buffer (jd_buf_handle j) g'"
proof -
  have J: "job_table_ok g" using graph_reach_ok [OF assms(1)] by (simp add: graph_ok_def)
  obtain tj where tj: "get_tbuf_ptr g (jd_buf_handle j) = Some tj" "\<not> tb_is_free tj" using job_table_okD(3) [OF J assms(2)] by blast
  obtain t jid where b: "get_tbuf_ptr g h = Some t" "tb_is_free t" "create_job_id_inner g = Some jid" "r = Some jid"
    "g' = (put_tbuf h (\<lambda>t. t\<lparr>tb_is_free := False\<rparr>) g)\<lparr>gr_jobs := omap_insert jid (umd_job c g t jid h) (gr_jobs g)\<rparr>"
    using build_new_job_cases [OF assms(4)] by auto
  have "\<not> is_job_exist_inner g (push_bit 16 gid)" using assms(2,3)
    by (auto simp: is_job_exist_inner_def is_job_built_inner_def is_job_scheduled_inner_def is_job_end_inner_def job_state_defs)
  then have jid: "jid = push_bit 16 gid" using b(3)
    by (simp add: create_job_id_inner_def graph_reach_id [OF assms(1)] first_free_id.simps)
  have ne: "h \<noteq> jd_buf_handle j" using tj b(1,2) by auto
  have "lost_buffer (jd_buf_handle j) g'" unfolding lost_buffer_def
  proof (intro conjI allI impI)
    show "\<exists>t. get_tbuf_ptr g' (jd_buf_handle j) = Some t \<and> \<not> tb_is_free t" using tj ne by (simp add: b(5))
    fix k j' assume k: "get_job_ptr g' k = Some j'"
    show "jd_buf_handle j' \<noteq> jd_buf_handle j"
    proof (cases "k = jid")
      case True
      then show ?thesis using k ne by (auto simp: b(5) umd_job_def get_job_ptr_def)
    next
      case False
      then have "get_job_ptr g k = Some j'" using k by (simp add: b(5) get_job_ptr_def)
      then show ?thesis using job_table_okD(4) [OF J _ assms(2), of k j'] False jid by auto
    qed
  qed
  then show ?thesis using b(4) jid ne by (auto simp: b(5) get_job_ptr_def umd_job_def)
qed

lemma build_replaces_timed_out_witness:
  "\<exists>g h g' p q r. build_new_job demo_ctrl h g p = Some (AIPU_STATUS_SUCCESS, r, g', q) \<and> r = Some 0x10000 \<and> lost_buffer 0x10000 g'"
proof -
  obtain g p r g' q j where g: "graph_reach demo_ctrl 1 g" "build_new_job demo_ctrl 0x10001 g p = Some (AIPU_STATUS_SUCCESS, r, g', q)"
    and j: "get_job_ptr g 0x10000 = Some j" "jd_state j = JOB_STATE_TIMEOUT" "jd_buf_handle j = 0x10000"
    using demo_second_build by (elim exE conjE)
  have e: "push_bit 16 1 = (0x10000 :: u32)" by (simp add: push_bit_eq_mult)
  have "r = Some 0x10000 \<and> lost_buffer 0x10000 g'" using build_replaces_timed_out [OF g(1) _ _ g(2), of j] j by (simp add: e)
  then show ?thesis using g(2) by blast
qed

text \<open>A failed build loses its buffer. When a parameter lies outside of the read-only data, the build is
  refused after the buffer was marked as used, and nothing takes the mark back.\<close>

theorem failed_build_loses_buffer:
  assumes "job_table_ok g" "get_tbuf_ptr g h = Some t" "tb_is_free t"
    and "build_new_job c h g p = Some (st, r, g', p')" "st \<noteq> AIPU_STATUS_SUCCESS"
  shows "r = None \<and> lost_buffer h g'"
proof -
  have g': "g' = put_tbuf h (\<lambda>t. t\<lparr>tb_is_free := False\<rparr>) g \<and> r = None"
    using assms(2-5) unfolding build_new_job_def Let_def by (auto elim!: bind_SomeE split: if_splits)
  then have "lost_buffer h g'" using job_table_ok_busy(2) [OF assms(1-3)] assms(2) by (auto simp: lost_buffer_def)
  then show ?thesis using g' by simp
qed

text \<open>The small graph with one parameter behind the end of the buffer.\<close>

lemma failed_build_loses_buffer_witness:
  "\<exists>b t p g' p'. build_new_job demo_ctrl 0x10000 ((demo_graph b)\<lparr>gr_tbufs := [(0x10000, t)],
       gr_param_map := [init_param 0x1000 PARAM_MAP_LOAD_TYPE_REUSE 0 0 0 0]\<rparr>) p = Some (AIPU_STATUS_ERROR_INVALID_SIZE, None, g', p') \<and>
     lost_buffer 0x10000 g'"
proof -
  obtain b t p where g: "tb_is_free t" "bu_size (tb_rodata t) = 4096" "graph_reach demo_ctrl 1 (demo_built b t)"
    and h: "holds_bytes p (bu_va (tb_rodata t)) (map (\<lambda>i. px_phys p (unat (bu_pa (tb_rodata t)) + i)) [0..<24])"
    using demo_steps by blast
  let ?g = "(demo_graph b)\<lparr>gr_tbufs := [(0x10000, t)], gr_param_map := [init_param 0x1000 PARAM_MAP_LOAD_TYPE_REUSE 0 0 0 0]\<rparr>"
  have f: "gr_jobs ?g = []" "gr_gbin ?g = demo_bin" "gr_linked_list_flag ?g = 0" "rodata_src (gr_tbuf_templ ?g) = 108"
    "tbuf_rodata_size (gr_tbuf_templ ?g) = 24" by (simp_all add: demo_graph_def demo_info_def)
  have t: "get_tbuf_ptr ?g 0x10000 = Some t" by (simp add: get_tbuf_ptr_def)
  have ok: "job_table_ok ?g" by (simp add: job_table_ok_def get_job_ptr_def f(1))
  obtain m where m: "load_buffer demo_bin (bu_va (tb_rodata t)) 108 24 p = Some (p\<lparr>px_phys := m\<rparr>)"
    using load_buffer_holds [OF h, of 0 24 108 demo_bin] by (auto simp: length_demo_bin)
  have "build_new_job demo_ctrl 0x10000 ?g p = Some (AIPU_STATUS_ERROR_INVALID_SIZE, None,
      put_tbuf 0x10000 (\<lambda>t. t\<lparr>tb_is_free := False\<rparr>) ?g, p\<lparr>px_phys := m\<rparr>)"
    using t g m f by (simp add: build_new_job_def Let_def init_param_def del: load_buffer.simps)
  then show ?thesis using failed_build_loses_buffer [OF ok t g(1)] by blast
qed

end
