(* ===== verification/UmdRun.thy ===== *)
theory UmdRun
  imports UmdDemo
begin

text \<open>Submitting a job through all layers: a built job keeps the configuration that its buffers
  give, and the user-mode driver hands it as a descriptor to the kernel driver, which queues
  it behind all other jobs.
\<close>

subsection \<open>The configuration of a job\<close>

text \<open>
  The configuration of every job is the one that its thread buffer and the graph give, but
  for the profiling switch, which a flush may set.
\<close>

definition configs_ok :: "device_ctrl \<Rightarrow> graph \<Rightarrow> bool" where
  "configs_ok c g \<longleftrightarrow> (\<forall>i j. get_job_ptr g i = Some j \<longrightarrow>
     (\<exists>t. get_tbuf_ptr g (jd_buf_handle j) = Some t \<and> (jd_config j)\<lparr>cf_enable_prof := 0\<rparr> = job_config c g t))"

text \<open>What the configuration reads of the graph.\<close>

definition config_frame :: "graph \<Rightarrow> graph \<Rightarrow> bool" where
  "config_frame g g' \<longleftrightarrow> gr_pbuf g' = gr_pbuf g \<and> gr_arch g' = gr_arch g \<and> gr_hw_version g' = gr_hw_version g \<and>
     gr_hw_config g' = gr_hw_config g \<and> gr_entry g' = gr_entry g \<and> gr_asid_flag g' = gr_asid_flag g"

lemma config_frame_eq: "config_frame g g' \<Longrightarrow> job_config c g' = job_config c g"
  by (intro ext) (simp add: config_frame_def job_config_def is_asid_enabled_def)

lemma config_frame_simps [simp]:
  "config_frame g g" "config_frame g (g\<lparr>gr_tbufs := ts\<rparr>)" "config_frame g (put_job i f g)" "config_frame g (put_tbuf h f' g)"
  "config_frame g (g'\<lparr>gr_jobs := js\<rparr>) = config_frame g g'" "config_frame g (g'\<lparr>gr_sched := q\<rparr>) = config_frame g g'"
  by (simp_all add: config_frame_def put_job_def put_tbuf_def)

lemma job_config_free [simp]: "job_config c g (t\<lparr>tb_is_free := x\<rparr>) = job_config c g t"
  by (simp add: job_config_def)

lemma configs_ok_keep:
  assumes "configs_ok c g" "config_frame g g'"
    and "\<And>i j. get_job_ptr g' i = Some j \<Longrightarrow> \<exists>i0 j0. get_job_ptr g i0 = Some j0 \<and> jd_buf_handle j = jd_buf_handle j0 \<and>
      (jd_config j)\<lparr>cf_enable_prof := 0\<rparr> = (jd_config j0)\<lparr>cf_enable_prof := 0\<rparr>"
    and "\<And>i j t. get_job_ptr g i = Some j \<Longrightarrow> get_tbuf_ptr g (jd_buf_handle j) = Some t \<Longrightarrow>
      \<exists>x. get_tbuf_ptr g' (jd_buf_handle j) = Some (t\<lparr>tb_is_free := x\<rparr>)"
  shows "configs_ok c g'"
  unfolding configs_ok_def
proof (intro allI impI)
  fix i j assume "get_job_ptr g' i = Some j"
  then obtain i0 j0 where j0: "get_job_ptr g i0 = Some j0" "jd_buf_handle j = jd_buf_handle j0"
    "(jd_config j)\<lparr>cf_enable_prof := 0\<rparr> = (jd_config j0)\<lparr>cf_enable_prof := 0\<rparr>" using assms(3) by blast
  then obtain t where t: "get_tbuf_ptr g (jd_buf_handle j0) = Some t" "(jd_config j0)\<lparr>cf_enable_prof := 0\<rparr> = job_config c g t"
    using assms(1) unfolding configs_ok_def by blast
  obtain x where "get_tbuf_ptr g' (jd_buf_handle j0) = Some (t\<lparr>tb_is_free := x\<rparr>)" using assms(4) [OF j0(1) t(1)] by blast
  then show "\<exists>t. get_tbuf_ptr g' (jd_buf_handle j) = Some t \<and> (jd_config j)\<lparr>cf_enable_prof := 0\<rparr> = job_config c g' t"
    using t(2) j0(2,3) by (simp add: config_frame_eq [OF assms(2)])
qed

lemma tbuf_same: "\<exists>x. t = t\<lparr>tb_is_free := x\<rparr>"
  by (rule exI [of _ "tb_is_free t"]) simp

lemma configs_ok_put_job:
  assumes "configs_ok c g" "\<And>j. get_job_ptr g i = Some j \<Longrightarrow> jd_buf_handle (f j) = jd_buf_handle j \<and>
      (jd_config (f j))\<lparr>cf_enable_prof := 0\<rparr> = (jd_config j)\<lparr>cf_enable_prof := 0\<rparr>"
  shows "configs_ok c (put_job i f g)"
proof (rule configs_ok_keep [OF assms(1)])
  fix k j assume "get_job_ptr (put_job i f g) k = Some j"
  then show "\<exists>i0 j0. get_job_ptr g i0 = Some j0 \<and> jd_buf_handle j = jd_buf_handle j0 \<and>
      (jd_config j)\<lparr>cf_enable_prof := 0\<rparr> = (jd_config j0)\<lparr>cf_enable_prof := 0\<rparr>" using assms(2) by (auto split: if_splits)
qed (use tbuf_same in auto)

lemma schedule_keeps_config:
  "schedule_job_on_aipu c job p = Some (st, job', p') \<Longrightarrow> jd_config job' = jd_config job"
  by (auto simp: schedule_job_on_aipu_def Let_def bind_eq_Some_conv split: if_splits)

lemma configs_ok_sched [simp]: "configs_ok c (g\<lparr>gr_sched := q\<rparr>) = configs_ok c g"
  by (simp add: configs_ok_def get_job_ptr_def get_tbuf_ptr_def config_frame_eq [of g "g\<lparr>gr_sched := q\<rparr>"])

lemma flush_job_configs:
  assumes "configs_ok c g" "flush_job c' jid g p = Some (st, g', p')"
  shows "configs_ok c g'"
proof (cases "get_job_ptr g jid")
  case None
  then show ?thesis using assms by (simp add: flush_job_def)
next
  case (Some job)
  let ?j = "(if jd_dump_flag job AND AIPU_DUMP_DRV_PROF_DATA \<noteq> 0 then job\<lparr>jd_config := (jd_config job)\<lparr>cf_enable_prof := 1\<rparr>\<rparr> else job)
    \<lparr>jd_state := JOB_STATE_SCHED\<rparr>"
  show ?thesis
  proof (cases "jd_state job \<noteq> JOB_STATE_BUILT")
    case False
    then obtain job3 where s: "schedule_job_on_aipu c' ?j p = Some (st, job3, p')"
      and g': "g' = (if st \<noteq> AIPU_STATUS_SUCCESS then delete_from_sched_queue_inner jid (put_job jid (\<lambda>_. job3) (g\<lparr>gr_sched := gr_sched g @ [jd_id job]\<rparr>))
        else put_job jid (\<lambda>_. job3) (g\<lparr>gr_sched := gr_sched g @ [jd_id job]\<rparr>))"
      using assms(2) Some by (auto simp: flush_job_def Let_def bind_eq_Some_conv)
    have "jd_buf_handle job3 = jd_buf_handle job \<and> (jd_config job3)\<lparr>cf_enable_prof := 0\<rparr> = (jd_config job)\<lparr>cf_enable_prof := 0\<rparr>"
      using schedule_keeps [OF s] schedule_keeps_config [OF s] by simp
    then have "configs_ok c (put_job jid (\<lambda>_. job3) g)" using Some by (intro configs_ok_put_job [OF assms(1)]) simp
    then show ?thesis by (simp add: g' put_job_sched delete_from_sched_queue_inner_def)
  qed (use assms Some in \<open>simp add: flush_job_def\<close>)
qed

lemma configs_ok_tbufs:
  assumes "configs_ok c g"
    and "\<And>i j t. get_job_ptr g i = Some j \<Longrightarrow> get_tbuf_ptr g (jd_buf_handle j) = Some t \<Longrightarrow>
      get_tbuf_ptr (g\<lparr>gr_tbufs := ts\<rparr>) (jd_buf_handle j) = Some t"
  shows "configs_ok c (g\<lparr>gr_tbufs := ts\<rparr>)"
proof (rule configs_ok_keep [OF assms(1)])
  show "\<exists>i0 j0. get_job_ptr g i0 = Some j0 \<and> jd_buf_handle j = jd_buf_handle j0 \<and>
      (jd_config j)\<lparr>cf_enable_prof := 0\<rparr> = (jd_config j0)\<lparr>cf_enable_prof := 0\<rparr>"
    if "get_job_ptr (g\<lparr>gr_tbufs := ts\<rparr>) k = Some j" for k j using that by (auto simp: get_job_ptr_def)
qed (use assms(2) tbuf_same in fastforce)+

lemma build_new_job_configs:
  assumes "configs_ok c g" "build_new_job c h g p = Some (st, r, g', p')"
  shows "configs_ok c g'"
proof -
  let ?g = "put_tbuf h (\<lambda>t. t\<lparr>tb_is_free := False\<rparr>) g"
  have busy: "configs_ok c ?g"
  proof (rule configs_ok_keep [OF assms(1)])
    show "\<exists>x. get_tbuf_ptr ?g (jd_buf_handle j) = Some (t\<lparr>tb_is_free := x\<rparr>)"
      if "get_tbuf_ptr g (jd_buf_handle j) = Some t" for j t using that tbuf_same by auto
  qed auto
  have "configs_ok c (?g\<lparr>gr_jobs := omap_insert jid (umd_job c g t jid h) (gr_jobs g)\<rparr>)" (is "configs_ok c ?g'")
    if t: "get_tbuf_ptr g h = Some t" for t jid
    unfolding configs_ok_def
  proof (intro allI impI)
    fix k j assume "get_job_ptr ?g' k = Some j"
    then have k: "k = jid \<and> j = umd_job c g t jid h \<or> get_job_ptr ?g k = Some j" by (auto simp: get_job_ptr_def split: if_splits)
    have "job_config c ?g' = job_config c ?g" by (rule config_frame_eq) simp
    then have e: "job_config c ?g' = job_config c ?g" "job_config c ?g = job_config c g" "get_tbuf_ptr ?g' = get_tbuf_ptr ?g"
      by (simp_all add: get_tbuf_ptr_def fun_eq_iff)
    show "\<exists>t. get_tbuf_ptr ?g' (jd_buf_handle j) = Some t \<and> (jd_config j)\<lparr>cf_enable_prof := 0\<rparr> = job_config c ?g' t"
    proof (cases "k = jid \<and> j = umd_job c g t jid h")
      case True
      then show ?thesis using t unfolding e by (simp add: umd_job_def) (simp add: job_config_def Let_def)
    next
      case False
      then have "\<exists>t. get_tbuf_ptr ?g (jd_buf_handle j) = Some t \<and> (jd_config j)\<lparr>cf_enable_prof := 0\<rparr> = job_config c ?g t"
        using k busy unfolding configs_ok_def by blast
      then show ?thesis unfolding e .
    qed
  qed
  then show ?thesis using build_new_job_cases [OF assms(2)] assms(1) busy by auto
qed

lemma clean_job_configs:
  assumes "configs_ok c g"
  shows "configs_ok c (snd (clean_job jid g))"
proof (cases "get_job_ptr g jid")
  case (Some job)
  let ?g = "put_tbuf (jd_buf_handle job) (\<lambda>t. t\<lparr>tb_is_free := True\<rparr>) g"
  have "configs_ok c (?g\<lparr>gr_sched := q, gr_jobs := omap_erase k (gr_jobs g)\<rparr>)" for q k
  proof (rule configs_ok_keep [OF assms])
    show "\<exists>x. get_tbuf_ptr (?g\<lparr>gr_sched := q, gr_jobs := omap_erase k (gr_jobs g)\<rparr>) (jd_buf_handle j) = Some (t\<lparr>tb_is_free := x\<rparr>)"
      if "get_tbuf_ptr g (jd_buf_handle j) = Some t" for j t using that tbuf_same by (auto simp: get_tbuf_ptr_def put_tbuf_def)
  qed (auto simp: get_job_ptr_def split: if_splits)
  then show ?thesis using Some assms by (simp add: clean_job_def Let_def delete_from_sched_queue_inner_def)
qed (use assms in \<open>simp add: clean_job_def\<close>)

lemma alloc_configs:
  assumes "configs_ok c g" "alloc_thread_buffer c' g p = Some (st, r, g', p')"
  shows "configs_ok c g'"
proof (cases "st = AIPU_STATUS_SUCCESS")
  case True
  then obtain h t where h: "create_buf_handle_inner g = Some h" "g' = g\<lparr>gr_tbufs := omap_insert h t (gr_tbufs g)\<rparr>"
    using alloc_thread_buffer_succeeds [of c' g p r g' p'] assms(2) by blast
  have "get_tbuf_ptr g h = None" using first_free_id_unused h(1) unfolding create_buf_handle_inner_def by blast
  then show ?thesis unfolding h(2) by (intro configs_ok_tbufs assms(1)) (auto simp: get_tbuf_ptr_def)
qed (use alloc_thread_buffer_fails [OF assms(2)] assms(1) in simp)

lemma free_configs:
  assumes "configs_ok c g" "graph_ok g" "free_thread_buffer c' h g p = Some (st, g', p')"
  shows "configs_ok c g'"
proof -
  have "configs_ok c (g\<lparr>gr_tbufs := omap_erase h (gr_tbufs g)\<rparr>)" if t: "get_tbuf_ptr g h = Some t" "tb_is_free t" for t
  proof (rule configs_ok_tbufs [OF assms(1)])
    fix i j t' assume j: "get_job_ptr g i = Some j" "get_tbuf_ptr g (jd_buf_handle j) = Some t'"
    have "job_table_ok g" using assms(2) by (simp add: graph_ok_def)
    from job_table_okD(3) [OF this j(1)] have "jd_buf_handle j \<noteq> h" using t by auto
    then show "get_tbuf_ptr (g\<lparr>gr_tbufs := omap_erase h (gr_tbufs g)\<rparr>) (jd_buf_handle j) = Some t'"
      using j(2) by (simp add: get_tbuf_ptr_def)
  qed
  then show ?thesis using free_thread_buffer_cases [OF assms(3)] assms(1) by auto
qed

lemma update_configs:
  "configs_ok c g \<Longrightarrow> configs_ok c (snd (update_job_status_desc js g))" "configs_ok c g \<Longrightarrow> configs_ok c (snd (update_job_status jid s g))"
  by (auto simp: update_job_status_desc_def update_job_status_def split: option.splits intro!: configs_ok_put_job)

lemma set_dump_configs:
  assumes "configs_ok c g" "set_dump_options jid opt g p = (st, g', p')"
  shows "configs_ok c g'"
proof -
  have "g' = g \<or> (\<exists>f. g' = put_job jid f g \<and> (\<forall>j. jd_buf_handle (f j) = jd_buf_handle j \<and> jd_config (f j) = jd_config j))"
    using assms(2) by (auto simp: set_dump_options_def Let_def split: option.splits if_splits)
  then show ?thesis using configs_ok_put_job [OF assms(1)] assms(1) by auto
qed

lemma graph_unload_configs:
  assumes "configs_ok c g" "graph_unload c' g p = Some (st, g', p')"
  shows "configs_ok c g'"
proof -
  have "configs_ok c g'" if "gr_jobs g' = []" using that by (simp add: configs_ok_def get_job_ptr_def)
  then show ?thesis using graph_unload_cases [OF assms(2)] assms(1) unfolding cleared_def by blast
qed

lemma graph_step_configs: "graph_step c g g' \<Longrightarrow> graph_ok g \<Longrightarrow> configs_ok c g \<Longrightarrow> configs_ok c g'"
proof (induction rule: graph_step.induct)
  case (report js g st g')
  then show ?case using update_configs(1) [of c g js] by simp
next
  case (status jid s g st g')
  then show ?case using update_configs(2) [of c g jid s] by simp
next
  case (timeout g jid)
  then show ?case by (intro configs_ok_put_job) simp_all
next
  case (clean jid g st g')
  then show ?case using clean_job_configs [of c g jid] by simp
qed (blast intro: alloc_configs free_configs build_new_job_configs flush_job_configs set_dump_configs graph_unload_configs)+

lemma graph_reach_configs: "graph_reach c gid g \<Longrightarrow> configs_ok c g"
proof (induction rule: graph_reach.induct)
  case (loaded dev bypass bin gsize info mf p g p')
  then have "gr_jobs g = []"
    by (auto simp: graph_load_def Let_def bind_eq_Some_conv new_graph_def split: if_splits)
  then show ?case by (simp add: configs_ok_def get_job_ptr_def)
qed (use graph_reach_ok graph_step_configs in blast)

subsection \<open>The submission\<close>

lemma scheduled_first_descs:
  "pending_jobs jm \<noteq> [] \<Longrightarrow> map (\<lambda>a. (job_key a, aj_desc a)) (all_jobs (scheduled_first jm)) =
     map (\<lambda>a. (job_key a, aj_desc a)) (all_jobs jm)"
  by (cases "pending_jobs jm") (simp_all add: all_jobs_def)

lemma add_job_desc: "aipu_session_add_job e h sp uj = Some (jp, h', uj') \<Longrightarrow> uj_desc uj' = uj_desc uj"
  by (auto simp: aipu_session_add_job_def Let_def bind_eq_Some_conv split: if_splits prod.splits option.splits)

lemma runjob_queues:
  assumes ok: "driver_ok s" and st: "h_sess (hp s) sp = Some st" and kz: "kz_waitq e" "kz_sjob e" "kz_ajob e"
  shows "\<exists>s' q jp j. ioctl_runjob e s sp uj = Some (merge_copy e 0, s', to_user e (IPUIOC_RUNJOB uj) (IPUIOC_RUNJOB q)) \<and>
    uj_errcode q = AIPU_ERRCODE_NO_ERROR \<and> driver_ok s' \<and>
    (\<exists>st'. h_sess (hp s') sp = Some st' \<and> job_list st' = jp # job_list st \<and> sbuf_list st' = sbuf_list st) \<and>
    h_sjob (hp s') jp = Some j \<and> sj_desc j = uj_desc uj \<and>
    map (\<lambda>a. (job_key a, aj_desc a)) (all_jobs (jm_of s')) = map (\<lambda>a. (job_key a, aj_desc a)) (all_jobs (jm_of s)) @
      [((h_next (hp s) + 1, cur_tid e, sp, jp, AIPU_JOB_FLAG_VALID), uj_desc uj)]"
proof -
  note wf = driver_okD(4) [OF ok]
  obtain jp h uj1 where a: "aipu_session_add_job e (hp s) sp uj = Some (jp, h, uj1)" "jp = 0 \<longleftrightarrow> \<not> kz_sjob e"
    "jp \<noteq> 0 \<longrightarrow> h_next h = h_next (hp s) + 1" using add_job_total [OF wf st kz(1)] by blast
  have jp: "jp \<noteq> 0" using a(2) kz(2) by simp
  note eff = add_job_effect [OF wf st a(1)]
  from eff(3) [OF jp] obtain qs where j: "h_sjob (hp s) jp = None"
    "h_sjob h = (h_sjob (hp s))(jp \<mapsto> init_session_job e (Some (uj_desc uj)))"
    "h_sess h = (h_sess (hp s))(sp \<mapsto> st\<lparr>job_list := jp # job_list st, wait_queue_head := Some qs\<rparr>)" by blast
  let ?st = "st\<lparr>job_list := jp # job_list st, wait_queue_head := Some qs\<rparr>" and ?s1 = "put_hp h s"
  have kj: "keeps_jobs (hp s) h"
    using eff(1) a(3) jp j by (intro keeps_jobs_upd [where sp = sp and st' = ?st, OF _ _ st]) auto
  have ok1: "jobs_ok ?s1" by (rule keeps_jobs_ok [OF driver_okD(1) [OF ok]]) (use kj in simp_all)
  have new: "jp \<notin> aj_session_job ` {i \<in> set (all_jobs (jm_of s)). valid_job i}"
    using jobs_liveD(2) [OF driver_okD(6) [OF ok]] j(1) by (fastforce simp: job_live_def)
  let ?j = "\<lparr>aj_ptr = h_next h, aj_uthread_id = cur_tid e, aj_desc = uj_desc uj1,
           aj_session = sp, aj_session_job = jp, aj_state = AIPU_JOB_STATE_PENDING,
           aj_exception_flag = AIPU_EXCEP_NO_EXCEPTION, aj_valid_flag = AIPU_JOB_FLAG_VALID\<rparr>"
  let ?s2 = "put_jm ((jm_of ?s1)\<lparr>pending_queue := Some (pending_jobs (jm_of ?s1) @ [?j])\<rparr>)
           (put_hp ((hp ?s1)\<lparr>h_next := h_next (hp ?s1) + 1\<rparr>) ?s1)"
  have sub: "jobs_ok ?s2" "aipu_job_manager_schedule_new_job e ?s1 uj1 jp sp =
      map_option (\<lambda>s2. (AIPU_ERRCODE_NO_ERROR, s2, uj1\<lparr>uj_errcode := AIPU_ERRCODE_NO_ERROR\<rparr>))
        (aipu_schedule_pending_job_no_lock e ?s2)"
    using submit_effect [OF ok1, where sp = sp and st = ?st and jp = jp and sj = "init_session_job e (Some (uj_desc uj))" and
        j = ?j and uj = uj1 and e = e and ?s1.0 = ?s2] j new kz(3)
    by (simp_all add: init_session_job_def)
  obtain s' where s': "aipu_schedule_pending_job_no_lock e ?s2 = Some s'" "same_jobs (hp ?s2) (hp s')"
    "jm_of s' = (if will_schedule ?s2 then scheduled_first (jm_of ?s2) else jm_of ?s2)"
    using schedule_pending_effect [OF sub(1), of e] by blast
  have q: "map (\<lambda>a. (job_key a, aj_desc a)) (all_jobs (jm_of s')) = map (\<lambda>a. (job_key a, aj_desc a)) (all_jobs (jm_of ?s2))"
    unfolding s'(3) by (auto simp: will_schedule_def intro: scheduled_first_descs)
  have uj: "uj_desc uj1 = uj_desc uj" using add_job_desc [OF a(1)] .
  have c: "aipu_job_manager_schedule_new_job e ?s1 uj1 jp sp = Some (0, s', uj1\<lparr>uj_errcode := AIPU_ERRCODE_NO_ERROR\<rparr>)"
    unfolding sub(2) s'(1) by (simp add: errcode_defs)
  have r: "ioctl_runjob e s sp uj = Some (merge_copy e 0, s', to_user e (IPUIOC_RUNJOB uj)
      (IPUIOC_RUNJOB (uj1\<lparr>uj_errcode := AIPU_ERRCODE_NO_ERROR\<rparr>)))"
    by (simp add: ioctl_runjob_def a(1) jp c)
  have d: "driver_ok s'" using runjob_delivers [OF ok st kz(1), of uj] by (simp add: r delivers_def)
  have k: "map (\<lambda>a. (job_key a, aj_desc a)) (all_jobs (jm_of s')) = map (\<lambda>a. (job_key a, aj_desc a)) (all_jobs (jm_of s)) @
      [((h_next (hp s) + 1, cur_tid e, sp, jp, AIPU_JOB_FLAG_VALID), uj_desc uj)]"
    unfolding q using a(3) jp by (simp add: all_jobs_def job_key_def uj)
  have "map_option sj_core (h_sjob (hp s') jp) = Some (sj_core (init_session_job e (Some (uj_desc uj))))"
    using s'(2) j(2) by (simp add: same_jobs_def)
  then obtain i where i: "h_sjob (hp s') jp = Some i" "sj_core i = sj_core (init_session_job e (Some (uj_desc uj)))" by auto
  have "h_sess (hp s') sp = Some ?st" using s'(2) j(3) by (simp add: same_jobs_def)
  then show ?thesis using r d k i 
    by (intro exI [of _ s'] exI [of _ "uj1\<lparr>uj_errcode := AIPU_ERRCODE_NO_ERROR\<rparr>"] exI [of _ jp] exI [of _ i])
      (simp add: sj_core_def init_session_job_def)
qed

text \<open>C5. A submitted job reaches the hardware queue. With the device open and memory for the driver's records,
  flushing a built job of a graph succeeds: the driver's invariant holds again, the session
  has one more job, and that job is queued behind all others. Its record and its queue entry
  carry the same descriptor, which is, field by field, what the buffers of the job say: code
  at the entry behind the text buffer, the handler 16 bytes behind its start, read-only data,
  stack, static and reuse group with their sizes, all as the device sees the addresses, the
  job's identifier, the address windows of the graph, and profiling where the dump options
  ask for it. The graph has the job as scheduled.\<close>

theorem flush_reaches_driver:
  assumes j: "graph_reach c gid g" "get_job_ptr g jid = Some j" "jd_state j = JOB_STATE_BUILT"
    and p: "open_session p (dc_fd c) sp st" "0 < dc_fd c" "kernel_ok (ue_kernel (env_now p))"
      "kz_waitq (ue_kernel (env_now p))" "kz_sjob (ue_kernel (env_now p))" "kz_ajob (ue_kernel (env_now p))"
  shows "\<exists>t g' p' st' jp k d. flush_job c jid g p = Some (AIPU_STATUS_SUCCESS, g', p') \<and>
    (\<exists>j'. get_job_ptr g' jid = Some j' \<and> jd_state j' = JOB_STATE_SCHED \<and> jd_buf_handle j' = jd_buf_handle j) \<and>
    open_session p' (dc_fd c) sp st' \<and> job_list st' = jp # job_list st \<and>
    h_sjob (hp (px_sys p')) jp = Some k \<and> sj_desc k = d \<and>
    map (\<lambda>a. (job_key a, aj_desc a)) (all_jobs (jm_of (px_sys p'))) =
      map (\<lambda>a. (job_key a, aj_desc a)) (all_jobs (jm_of (px_sys p))) @
      [((h_next (hp (px_sys p)) + 1, cur_tid (ue_kernel (env_now p)), sp, jp, AIPU_JOB_FLAG_VALID), d)] \<and>
    get_tbuf_ptr g (jd_buf_handle j) = Some t \<and>
    d = \<lparr>start_pc_addr = bu_pa (pb_text (gr_pbuf g)) - host_aipu_shm_offset c + ucast (gr_entry g),
         intr_handler_addr = bu_pa (pb_text (gr_pbuf g)) - host_aipu_shm_offset c + 16,
         data_0_addr = bu_pa (tb_rodata t) - host_aipu_shm_offset c,
         data_1_addr = bu_pa (tb_stack t) - host_aipu_shm_offset c,
         static_addr = bu_pa (pb_static_group (gr_pbuf g)) - host_aipu_shm_offset c,
         reuse_addr = bu_pa (tb_reuse_group t) - host_aipu_shm_offset c,
         job_id = jid, code_size = ucast (bu_size (pb_text (gr_pbuf g))),
         rodata_size = ucast (bu_size (tb_rodata t)), stack_size = ucast (bu_size (tb_stack t)),
         static_size = ucast (bu_size (pb_static_group (gr_pbuf g))), reuse_size = ucast (bu_size (tb_reuse_group t)),
         enable_prof = (if jd_dump_flag j AND AIPU_DUMP_DRV_PROF_DATA \<noteq> 0 then 1 else cf_enable_prof (jd_config j)),
         enable_asid = (if gr_hw_version g = AIPU_HW_VERSION_ZHOUYI_V2 \<and> gr_asid_flag g AND 0xF \<noteq> 0 then 1 else 0)\<rparr>"
proof -
  let ?e = "ue_kernel (env_now p)" and ?s = "px_sys p"
  define j2 where "j2 = (if jd_dump_flag j AND AIPU_DUMP_DRV_PROF_DATA \<noteq> 0
      then j\<lparr>jd_config := (jd_config j)\<lparr>cf_enable_prof := 1\<rparr>\<rparr> else j)\<lparr>jd_state := JOB_STATE_SCHED\<rparr>"
  have j2: "jd_state j2 = JOB_STATE_SCHED" "jd_buf_handle j2 = jd_buf_handle j" "jd_id j2 = jd_id j" by (simp_all add: j2_def)
  obtain t where t: "get_tbuf_ptr g (jd_buf_handle j) = Some t" "(jd_config j)\<lparr>cf_enable_prof := 0\<rparr> = job_config c g t"
    using graph_reach_configs [OF j(1)] j(2) unfolding configs_ok_def by blast
  have id: "jd_id j = jid" using graph_reach_ok [OF j(1)] job_table_okD(2) [OF _ j(2)] by (simp add: graph_ok_def)
  have "jd_config j = (job_config c g t)\<lparr>cf_enable_prof := cf_enable_prof (jd_config j)\<rparr>" unfolding t(2) [symmetric] by simp
  then obtain x where x: "jd_config j = (job_config c g t)\<lparr>cf_enable_prof := x\<rparr>" by blast
  have cf: "jd_config j2 = (job_config c g t)\<lparr>cf_enable_prof :=
      (if jd_dump_flag j AND AIPU_DUMP_DRV_PROF_DATA \<noteq> 0 then 1 else cf_enable_prof (jd_config j))\<rparr>"
    by (simp add: j2_def x)
  have os: "driver_ok ?s" "px_files p (dc_fd c) = Some sp" "h_sess (hp ?s) sp = Some st" using p(1) by (simp_all add: open_session_def)
  have sp: "sp \<noteq> 0" by (rule session_null [OF driver_okD(4) [OF os(1)] os(3)])
  have k0: "cfu_left ?e = 0" "ctu_left ?e = 0" using p(3) by (simp_all add: kernel_ok_def)
  obtain s' q jp k st' where r: "ioctl_runjob ?e ?s sp (job2kern j2) = Some (merge_copy ?e 0, s', to_user ?e (IPUIOC_RUNJOB (job2kern j2)) (IPUIOC_RUNJOB q))"
    "uj_errcode q = AIPU_ERRCODE_NO_ERROR" "driver_ok s'"
    "h_sjob (hp s') jp = Some k" "sj_desc k = uj_desc (job2kern j2)"
    "map (\<lambda>a. (job_key a, aj_desc a)) (all_jobs (jm_of s')) = map (\<lambda>a. (job_key a, aj_desc a)) (all_jobs (jm_of ?s)) @
      [((h_next (hp ?s) + 1, cur_tid ?e, sp, jp, AIPU_JOB_FLAG_VALID), uj_desc (job2kern j2))]"
    and st': "h_sess (hp s') sp = Some st'" "job_list st' = jp # job_list st"
    using runjob_queues [OF os(1,3) p(4-6), of "job2kern j2"] by (elim exE conjE)
  let ?p = "(next_call p)\<lparr>px_sys := s'\<rparr>"
  have io: "sys_ioctl (dc_fd c) (IPUIOC_RUNJOB (job2kern j2)) p = Some (0, IPUIOC_RUNJOB q, ?p)"
    by (simp add: sys_ioctl_def aipu_ioctl_def os(2) sp k0 r(1) merge_copy_def to_user_def user_ret_def errcode_defs Let_def)
  have sch: "schedule_job_on_aipu c j2 p = Some (AIPU_STATUS_SUCCESS, j2, ?p)"
    using p(2) io r(2) by (simp add: schedule_job_on_aipu_def Let_def errcode_defs)
  let ?g = "put_job jid (\<lambda>_. j2) (g\<lparr>gr_sched := gr_sched g @ [jd_id j]\<rparr>)"
  have "flush_job c jid g p = Some (AIPU_STATUS_SUCCESS, ?g, ?p)"
    using j(2,3) sch by (simp add: flush_job_def j2_def)
  moreover have "get_job_ptr ?g jid = Some j2" using j(2) by simp
  moreover have "open_session ?p (dc_fd c) sp st'" using os(2) r(3) st'(1) by (simp add: open_session_def next_call_def)
  moreover note t(1)
  moreover have "uj_desc (job2kern j2) = \<lparr>start_pc_addr = bu_pa (pb_text (gr_pbuf g)) - host_aipu_shm_offset c + ucast (gr_entry g),
         intr_handler_addr = bu_pa (pb_text (gr_pbuf g)) - host_aipu_shm_offset c + 16,
         data_0_addr = bu_pa (tb_rodata t) - host_aipu_shm_offset c,
         data_1_addr = bu_pa (tb_stack t) - host_aipu_shm_offset c,
         static_addr = bu_pa (pb_static_group (gr_pbuf g)) - host_aipu_shm_offset c,
         reuse_addr = bu_pa (tb_reuse_group t) - host_aipu_shm_offset c,
         job_id = jid, code_size = ucast (bu_size (pb_text (gr_pbuf g))),
         rodata_size = ucast (bu_size (tb_rodata t)), stack_size = ucast (bu_size (tb_stack t)),
         static_size = ucast (bu_size (pb_static_group (gr_pbuf g))), reuse_size = ucast (bu_size (tb_reuse_group t)),
         enable_prof = (if jd_dump_flag j AND AIPU_DUMP_DRV_PROF_DATA \<noteq> 0 then 1 else cf_enable_prof (jd_config j)),
         enable_asid = (if gr_hw_version g = AIPU_HW_VERSION_ZHOUYI_V2 \<and> gr_asid_flag g AND 0xF \<noteq> 0 then 1 else 0)\<rparr>"
    unfolding job2kern_def cf by (simp add: job_config_def Let_def host2dev_def is_asid_enabled_def j2(3) id)
  ultimately show ?thesis using j2(1,2) st'(2) r(4-6)
    by (intro exI [of _ t] exI [of _ ?g] exI [of _ ?p] exI [of _ st'] exI [of _ jp] exI [of _ k] exI [of _ "uj_desc (job2kern j2)"])
      (simp add: next_call_def)
qed

lemma flush_reaches_driver_witness:
  "\<exists>b t g' p' a. flush_job demo_ctrl 0x10000 (demo_built b t) demo_start = Some (AIPU_STATUS_SUCCESS, g', p') \<and> driver_ok (px_sys p') \<and>
     last (all_jobs (jm_of (px_sys p'))) = a \<and> start_pc_addr (aj_desc a) = bu_pa b \<and> data_1_addr (aj_desc a) = bu_pa (tb_stack t) \<and>
     enable_prof (aj_desc a) = 0"
proof -
  obtain b t where g: "graph_reach demo_ctrl 1 (demo_built b t)" using demo_run by blast
  have j: "get_job_ptr (demo_built b t) 0x10000 = Some (umd_job demo_ctrl (demo_graph b) t 0x10000 0x10000)"
    by (simp add: demo_built_def get_job_ptr_def)
  obtain st where os: "open_session demo_start 3 8 st"
    using demo_driver_ok by (auto simp: open_session_def demo_start_def demo_proc_def demo_sys_def demo_jobs_heap_def)
  have c: "dc_fd demo_ctrl = 3" "host_aipu_shm_offset demo_ctrl = 0" by (simp_all add: demo_ctrl_def)
  have k: "ue_kernel (env_now demo_start) = env_ok 7" by (simp add: env_now_def demo_start_def demo_uenv_def)
  let ?J = "umd_job demo_ctrl (demo_graph b) t 0x10000 0x10000"
  have J: "jd_state ?J = JOB_STATE_BUILT" "jd_dump_flag ?J = 0" "cf_enable_prof (jd_config ?J) = 0" "jd_buf_handle ?J = 0x10000"
    by (simp_all add: umd_job_def job_config_def Let_def)
  have b: "pb_text (gr_pbuf (demo_built b t)) = b" "gr_entry (demo_built b t) = 0"
    "get_tbuf_ptr (demo_built b t) 0x10000 = Some (t\<lparr>tb_is_free := False\<rparr>)"
    by (simp_all add: demo_built_def demo_graph_def get_tbuf_ptr_def)
  have os': "open_session demo_start (dc_fd demo_ctrl) 8 st" using os c by simp
  have ko: "0 < dc_fd demo_ctrl" "kernel_ok (ue_kernel (env_now demo_start))" "kz_waitq (ue_kernel (env_now demo_start))"
    "kz_sjob (ue_kernel (env_now demo_start))" "kz_ajob (ue_kernel (env_now demo_start))"
    by (simp_all add: c k kernel_ok_def no_kzalloc_failure_def env_ok_def)
  obtain g' p' st' q d where f: "flush_job demo_ctrl 0x10000 (demo_built b t) demo_start = Some (AIPU_STATUS_SUCCESS, g', p')"
    "open_session p' (dc_fd demo_ctrl) 8 st'"
    "map (\<lambda>a. (job_key a, aj_desc a)) (all_jobs (jm_of (px_sys p'))) = q @ [((h_next (hp (px_sys demo_start)) + 1,
       cur_tid (ue_kernel (env_now demo_start)), 8, hd (job_list st'), AIPU_JOB_FLAG_VALID), d)]"
    "start_pc_addr d = bu_pa b" "data_1_addr d = bu_pa (tb_stack t)" "enable_prof d = 0"
    using flush_reaches_driver [OF g j J(1) os' ko] by (auto simp: b J c(2))
  have "last (map (\<lambda>a. (job_key a, aj_desc a)) (all_jobs (jm_of (px_sys p')))) = (job_key (last (all_jobs (jm_of (px_sys p')))),
      aj_desc (last (all_jobs (jm_of (px_sys p')))))"
    using f(3) by (intro last_map) auto
  then have "aj_desc (last (all_jobs (jm_of (px_sys p')))) = d" unfolding f(3) by simp
  then show ?thesis using f(1,2,4-6) unfolding open_session_def by blast
qed

text \<open>A refused submission is reported as success. When the driver refuses the job, the flush succeeds all the
  same; the job is left without a state, counted as scheduled and never as ended, so the
  wait for its end goes to the device for a job the device does not have.\<close>

theorem flush_hides_refusal:
  assumes "get_job_ptr g jid = Some j" "jd_state j = JOB_STATE_BUILT" "0 < dc_fd c"
    and refused: "\<forall>uj. \<exists>r a. sys_ioctl (dc_fd c) (IPUIOC_RUNJOB uj) p = Some (r, a, p') \<and> r \<noteq> 0"
  shows "\<exists>g'. flush_job c jid g p = Some (AIPU_STATUS_SUCCESS, g', p') \<and>
    is_job_sched g' jid = AIPU_STATUS_SUCCESS \<and> \<not> is_job_end g' jid \<and> \<not> is_job_exist_inner g' jid \<and> jd_id j \<in> set (gr_sched g')"
proof -
  define j2 where "j2 = (if jd_dump_flag j AND AIPU_DUMP_DRV_PROF_DATA \<noteq> 0
      then j\<lparr>jd_config := (jd_config j)\<lparr>cf_enable_prof := 1\<rparr>\<rparr> else j)\<lparr>jd_state := JOB_STATE_SCHED\<rparr>"
  have sch: "schedule_job_on_aipu c j2 p = Some (AIPU_STATUS_SUCCESS, j2\<lparr>jd_state := JOB_STATE_NO_STATE\<rparr>, p')"
    using assms(3) refused [rule_format, of "job2kern j2"] by (auto simp: schedule_job_on_aipu_def Let_def)
  let ?g = "put_job jid (\<lambda>_. j2\<lparr>jd_state := JOB_STATE_NO_STATE\<rparr>) (g\<lparr>gr_sched := gr_sched g @ [jd_id j]\<rparr>)"
  have "flush_job c jid g p = Some (AIPU_STATUS_SUCCESS, ?g, p')"
    using assms(1,2) sch by (simp add: flush_job_def j2_def)
  moreover have "get_job_ptr ?g jid = Some (j2\<lparr>jd_state := JOB_STATE_NO_STATE\<rparr>)" using assms(1) by simp
  moreover have "gr_sched ?g = gr_sched g @ [jd_id j]" by (simp add: put_job_def)
  ultimately show ?thesis
    by (intro exI [of _ ?g])
       (simp add: assms(1) is_job_sched_def is_job_end_def is_job_exist_inner_def is_job_built_inner_def
         is_job_scheduled_inner_def is_job_end_inner_def job_state_defs)
qed

lemma flush_hides_refusal_witness:
  "\<exists>b t g'. flush_job demo_ctrl 0x10000 (demo_built b t) (demo_start\<lparr>px_files := \<lambda>_. None\<rparr>) =
     Some (AIPU_STATUS_SUCCESS, g', next_call (demo_start\<lparr>px_files := \<lambda>_. None\<rparr>)) \<and> \<not> is_job_end g' 0x10000"
proof -
  have j: "get_job_ptr (demo_built b t) 0x10000 = Some (umd_job demo_ctrl (demo_graph b) t 0x10000 0x10000)" for b t
    by (simp add: demo_built_def get_job_ptr_def)
  have "\<forall>uj. \<exists>r a. sys_ioctl (dc_fd demo_ctrl) (IPUIOC_RUNJOB uj) (demo_start\<lparr>px_files := \<lambda>_. None\<rparr>) =
      Some (r, a, next_call (demo_start\<lparr>px_files := \<lambda>_. None\<rparr>)) \<and> r \<noteq> 0" by (simp add: sys_ioctl_def Let_def)
  from flush_hides_refusal [OF j _ _ this] show ?thesis by (simp add: umd_job_def demo_ctrl_def) blast
qed

end
