(* ===== verification/UmdApi.thy ===== *)
theory UmdApi
  imports UmdContext
begin

text \<open>
  The standard API (\<open>standard_api/standard_api_impl.cpp\<close>) over the table of contexts
  (\<open>context/ctx_ref_map.cpp\<close>). An application holds a pointer to a handle object; the object names
  a context of the table, and the context answers the call. Handle objects are freed with
  their context, and a call through a freed one faults.
\<close>

subsection \<open>State\<close>

text \<open>
  \<open>um_ctxs\<close> is the table, \<open>um_handles\<close> the handle objects by address, \<open>um_next\<close> the address of the
  next one. A pointer argument is an address, 0 when it is null; a pointer to a result
  is only whether it is given; a pointer to data is the data behind it.
\<close>

record umd =
  um_ctxs :: "(u32 \<times> main_context) list"
  um_handles :: "ptr \<Rightarrow> u32 option"
  um_next :: ptr
  um_proc :: proc

definition umd_start :: "proc \<Rightarrow> umd" where
  "umd_start p = \<lparr>um_ctxs = [], um_handles = \<lambda>_. None, um_next = 1, um_proc = p\<rparr>"

subsection \<open>The table of contexts\<close>

definition get_ctx_ref :: "umd \<Rightarrow> u32 \<Rightarrow> main_context option" where
  "get_ctx_ref u handle = map_of (um_ctxs u) handle"

definition put_ctx :: "u32 \<Rightarrow> main_context \<Rightarrow> umd \<Rightarrow> umd" where
  "put_ctx handle m u = u\<lparr>um_ctxs := omap_insert handle m (um_ctxs u)\<rparr>"

text \<open>The search for a handle goes downwards from \<open>0xFFFFFFFF\<close>.\<close>

partial_function (option) last_free_handle :: "(u32 \<Rightarrow> bool) \<Rightarrow> u32 \<Rightarrow> u32 option" where
  "last_free_handle used handle = (if used handle then last_free_handle used (handle - 1) else Some handle)"

definition create_ctx_ref :: "bool \<Rightarrow> umd \<Rightarrow> (u32 \<times> umd) option" where
  "create_ctx_ref uninit u = do {
     handle \<leftarrow> last_free_handle (\<lambda>h. get_ctx_ref u h \<noteq> None) 0xFFFFFFFF;
     Some (handle, put_ctx handle (new_main_context uninit) u)
   }"

definition destroy_ctx_ref :: "u32 \<Rightarrow> umd \<Rightarrow> aipu_status \<times> umd" where
  "destroy_ctx_ref handle u =
     (if get_ctx_ref u handle \<noteq> None then (AIPU_STATUS_SUCCESS, u\<lparr>um_ctxs := omap_erase handle (um_ctxs u)\<rparr>)
      else (AIPU_STATUS_ERROR_INVALID_CTX, u))"

text \<open>The destructor of the table, at the end of the process.\<close>

fun deinit_contexts :: "(u32 \<times> main_context) list \<Rightarrow> proc \<Rightarrow> proc option" where
  "deinit_contexts [] p = Some p"
| "deinit_contexts ((_, m) # ms) p = do { (_, p1) \<leftarrow> force_deinit m p; deinit_contexts ms p1 }"

definition destroy_ctx_map :: "umd \<Rightarrow> umd option" where
  "destroy_ctx_map u = do { p \<leftarrow> deinit_contexts (um_ctxs u) (um_proc u); Some (u\<lparr>um_ctxs := [], um_proc := p\<rparr>) }"

subsection \<open>Status messages\<close>

primrec status_code :: "aipu_status \<Rightarrow> nat" where
  "status_code AIPU_STATUS_SUCCESS = 0"
| "status_code AIPU_STATUS_ERROR_NULL_PTR = 1"
| "status_code AIPU_STATUS_ERROR_INVALID_CTX = 2"
| "status_code AIPU_STATUS_ERROR_OPEN_DEV_FAIL = 3"
| "status_code AIPU_STATUS_ERROR_DEV_ABNORMAL = 4"
| "status_code AIPU_STATUS_ERROR_DEINIT_FAIL = 5"
| "status_code AIPU_STATUS_ERROR_INVALID_CONFIG = 6"
| "status_code AIPU_STATUS_ERROR_GVERSION_UNSUPPORTED = 7"
| "status_code AIPU_STATUS_ERROR_TARGET_NOT_FOUND = 8"
| "status_code AIPU_STATUS_ERROR_INVALID_GBIN = 9"
| "status_code AIPU_STATUS_ERROR_GRAPH_NOT_EXIST = 10"
| "status_code AIPU_STATUS_ERROR_OPEN_FILE_FAIL = 11"
| "status_code AIPU_STATUS_ERROR_MAP_FILE_FAIL = 12"
| "status_code AIPU_STATUS_ERROR_READ_FILE_FAIL = 13"
| "status_code AIPU_STATUS_ERROR_WRITE_FILE_FAIL = 14"
| "status_code AIPU_STATUS_ERROR_JOB_NOT_EXIST = 15"
| "status_code AIPU_STATUS_ERROR_JOB_NOT_SCHED = 16"
| "status_code AIPU_STATUS_ERROR_JOB_SCHED = 17"
| "status_code AIPU_STATUS_ERROR_JOB_NOT_END = 18"
| "status_code AIPU_STATUS_ERROR_JOB_EXCEPTION = 19"
| "status_code AIPU_STATUS_ERROR_JOB_TIMEOUT = 20"
| "status_code AIPU_STATUS_ERROR_INVALID_OPTIONS = 21"
| "status_code AIPU_STATUS_ERROR_INVALID_PATH = 22"
| "status_code AIPU_STATUS_ERROR_OP_NOT_SUPPORTED = 23"
| "status_code AIPU_STATUS_ERROR_INVALID_OP = 24"
| "status_code AIPU_STATUS_ERROR_INVALID_SIZE = 25"
| "status_code AIPU_STATUS_ERROR_INVALID_HANDLE = 26"
| "status_code AIPU_STATUS_ERROR_BUSY_HANDLE = 27"
| "status_code AIPU_STATUS_ERROR_BUF_ALLOC_FAIL = 28"
| "status_code AIPU_STATUS_ERROR_BUF_FREE_FAIL = 29"

text \<open>The messages of \<open>status_string.cpp\<close>; the last one is that of the end marker of the enumeration.\<close>

definition umd_status_string :: "string list" where
  "umd_status_string = [
     ''AIPU UMD API executes successfully.'',
     ''AIPU UMD API input argument(s) contain NULL pointer.'',
     ''AIPU UMD runtime context is invalid. Please init first'',
     ''AIPU device open operation failed. Please check kernel module insmod status or hardware status.'',
     ''AIPU device state is abnormal. Please check kernel module insmod status or hardware status.'',
     ''AIPU UMD runtime context de-initialization failed.'',
     ''AIPU UMD runtime configuration input(s) is/are invalid.'',
     ''The version of the loadable graph binary provided is not supported on UMD.'',
     ''The specified target device is not found at runtime. Please double check the binary target.'',
     ''Loadable graph binary is invalid which contains unrecognized or invalid items.'',
     ''Graph ID/descriptor provided is an invalid one has been unloaded or never existed.'',
     ''UMD fails in opening the specified file.'',
     ''UMD fails in maping the specified file.'',
     ''UMD fails in reading the specified file.'',
     ''UMD fails in writing the specified file.'',
     ''Job ID provided is an invalid one has been cleaned or never existed.'',
     ''Job ID provided is never scheduled therefore the operation is invalid.'',
     ''Job ID provided has been scheduled therefore the operation is invalid.'',
     ''There is/are unfinished job(s) in UMD therefore the operation is invalid.'',
     ''The flushed job encounters exception during execution.'',
     ''The flushed job execution timeout.'',
     ''The dump option provided is invalid.'',
     ''The simulator or other file system path provided is invalid.'',
     ''The desired operation is not supported on this platform.'',
     ''The desired operation is invalid.'',
     ''Job size provided is an invalid one'',
     ''Job buffer handle provided is an invalid one'',
     ''Job buffer handle provided is not a free one which is under using by another job. Please clean it or use another handle.'',
     ''UMD fails in allocating buffers.'',
     ''UMD fails in releasing buffers.'',
     ''Status Max value which should not be returned to application.'']"

definition ctx_get_status_msg :: "aipu_status \<Rightarrow> bool \<Rightarrow> aipu_status \<times> string option" where
  "ctx_get_status_msg status msg =
     (if \<not> msg then (AIPU_STATUS_ERROR_NULL_PTR, None)
      else (AIPU_STATUS_SUCCESS, Some (umd_status_string ! status_code status)))"

definition AIPU_get_status_msg :: "aipu_status \<Rightarrow> bool \<Rightarrow> aipu_status \<times> string option" where
  "AIPU_get_status_msg status msg =
     (if \<not> msg then (AIPU_STATUS_ERROR_NULL_PTR, None) else ctx_get_status_msg status msg)"

subsection \<open>Contexts\<close>

text \<open>
  The frame of every call: the context behind the handle object answers, if there is one.
  The checks of further pointers are \<open>ptrs\<close>.
\<close>

definition with_ctx ::
  "ptr \<Rightarrow> bool \<Rightarrow> 'a \<Rightarrow> (main_context \<Rightarrow> proc \<Rightarrow> (aipu_status \<times> 'a \<times> main_context \<times> proc) option) \<Rightarrow>
   umd \<Rightarrow> (aipu_status \<times> 'a \<times> umd) option" where
  "with_ctx ctx ptrs nothing call u =
     (if ctx = NULL \<or> \<not> ptrs then Some (AIPU_STATUS_ERROR_NULL_PTR, nothing, u)
      else do {
        handle \<leftarrow> um_handles u ctx;
        case get_ctx_ref u handle of
          None \<Rightarrow> Some (AIPU_STATUS_ERROR_INVALID_CTX, nothing, u)
        | Some p_ctx \<Rightarrow> do {
            (ret, r, p_ctx', p') \<leftarrow> call p_ctx (um_proc u);
            Some (ret, r, (put_ctx handle p_ctx' u)\<lparr>um_proc := p'\<rparr>)
          }
      })"

definition AIPU_init_ctx :: "bool \<Rightarrow> bool \<Rightarrow> umd \<Rightarrow> (aipu_status \<times> ptr option \<times> umd) option" where
  "AIPU_init_ctx uninit ctx u =
     (if \<not> ctx then Some (AIPU_STATUS_ERROR_NULL_PTR, None, u)
      else do {
        (handle, u1) \<leftarrow> create_ctx_ref uninit u;
        case get_ctx_ref u1 handle of
          None \<Rightarrow> Some (AIPU_STATUS_ERROR_INVALID_CTX, None, u1)
        | Some p_ctx \<Rightarrow> do {
            (ret, p_ctx', p') \<leftarrow> context_init p_ctx (um_proc u1);
            let u2 = (put_ctx handle p_ctx' u1)\<lparr>um_proc := p'\<rparr>;
            if ret \<noteq> AIPU_STATUS_SUCCESS then Some (ret, None, snd (destroy_ctx_ref handle u2))
            else Some (ret, Some (um_next u2),
                   u2\<lparr>um_handles := (um_handles u2)(um_next u2 \<mapsto> handle), um_next := um_next u2 + 1\<rparr>)
          }
      })"

definition AIPU_deinit_ctx :: "ptr \<Rightarrow> umd \<Rightarrow> (aipu_status \<times> umd) option" where
  "AIPU_deinit_ctx ctx u =
     (if ctx = NULL then Some (AIPU_STATUS_ERROR_NULL_PTR, u)
      else do {
        handle \<leftarrow> um_handles u ctx;
        case get_ctx_ref u handle of
          None \<Rightarrow> Some (AIPU_STATUS_ERROR_INVALID_CTX, u)
        | Some p_ctx \<Rightarrow> do {
            (ret, p_ctx', p') \<leftarrow> context_deinit p_ctx (um_proc u);
            let u1 = (put_ctx handle p_ctx' u)\<lparr>um_proc := p'\<rparr>;
            if ret = AIPU_STATUS_SUCCESS
            then Some (ret, (snd (destroy_ctx_ref handle u1))\<lparr>um_handles := (um_handles u1)(ctx := None)\<rparr>)
            else Some (ret, u1)
          }
      })"

text \<open>The device build of \<open>config_simulation\<close>.\<close>

definition config_simulation :: "main_context \<Rightarrow> aipu_status" where
  "config_simulation m = AIPU_STATUS_ERROR_OP_NOT_SUPPORTED"

definition AIPU_config_simulation :: "ptr \<Rightarrow> bool \<Rightarrow> umd \<Rightarrow> (aipu_status \<times> unit \<times> umd) option" where
  "AIPU_config_simulation ctx config = with_ctx ctx config () (\<lambda>m p. Some (config_simulation m, (), m, p))"

definition AIPU_set_runtime_config :: "ptr \<Rightarrow> aipu_runtime_config option \<Rightarrow> umd \<Rightarrow> (aipu_status \<times> unit \<times> umd) option" where
  "AIPU_set_runtime_config ctx config = with_ctx ctx (config \<noteq> None) ()
     (\<lambda>m p. let (ret, m') = set_runtime_config (the config) m in Some (ret, (), m', p))"

subsection \<open>Graphs\<close>

definition AIPU_load_graph ::
  "ptr \<Rightarrow> u8 list option \<Rightarrow> u32 \<Rightarrow> bool \<Rightarrow> umd \<Rightarrow> (aipu_status \<times> graph_desc option \<times> umd) option" where
  "AIPU_load_graph ctx bin gsize gdesc = with_ctx ctx (bin \<noteq> None \<and> gdesc) None (load_graph (the bin) gsize False)"

text \<open>
  What the system answers to the calls on a file: its size, the descriptor of the open file,
  and the bytes that are mapped.
\<close>

record file_env =
  fe_stat :: "u64 option"
  fe_open :: int
  fe_map :: "u8 list option"

definition umd_mmap_file_helper :: "file_env \<Rightarrow> aipu_status \<times> (u8 list \<times> u32) option" where
  "umd_mmap_file_helper f =
     (case fe_stat f of
        None \<Rightarrow> (AIPU_STATUS_ERROR_OPEN_FILE_FAIL, None)
      | Some st_size \<Rightarrow>
          if fe_open f \<le> 0 then (AIPU_STATUS_ERROR_OPEN_FILE_FAIL, None)
          else (case fe_map f of
                  None \<Rightarrow> (AIPU_STATUS_ERROR_MAP_FILE_FAIL, None)
                | Some bytes \<Rightarrow> (AIPU_STATUS_SUCCESS, Some (bytes, ucast st_size))))"

definition AIPU_load_graph_helper ::
  "ptr \<Rightarrow> file_env option \<Rightarrow> bool \<Rightarrow> umd \<Rightarrow> (aipu_status \<times> graph_desc option \<times> umd) option" where
  "AIPU_load_graph_helper ctx graph_file gdesc = with_ctx ctx (graph_file \<noteq> None \<and> gdesc) None
     (\<lambda>m p. case umd_mmap_file_helper (the graph_file) of
              (ret, None) \<Rightarrow> Some (ret, None, m, p)
            | (ret, Some (bin, gbin_size)) \<Rightarrow> load_graph bin gbin_size True m p)"

text \<open>Of a graph descriptor only the identifier is read.\<close>

definition AIPU_unload_graph :: "ptr \<Rightarrow> u32 option \<Rightarrow> umd \<Rightarrow> (aipu_status \<times> unit \<times> umd) option" where
  "AIPU_unload_graph ctx gdesc = with_ctx ctx (gdesc \<noteq> None) ()
     (\<lambda>m p. do { (ret, m', p') \<leftarrow> unload_graph (the gdesc) m p; Some (ret, (), m', p') })"

definition AIPU_alloc_tensor_buffers ::
  "ptr \<Rightarrow> u32 option \<Rightarrow> bool \<Rightarrow> umd \<Rightarrow> (aipu_status \<times> (u32 \<times> iobuf_info) option \<times> umd) option" where
  "AIPU_alloc_tensor_buffers ctx gdesc info = with_ctx ctx (info \<and> gdesc \<noteq> None) None (alloc_tensor_buffers (the gdesc))"

definition AIPU_free_tensor_buffers :: "ptr \<Rightarrow> u32 \<Rightarrow> umd \<Rightarrow> (aipu_status \<times> unit \<times> umd) option" where
  "AIPU_free_tensor_buffers ctx handle = with_ctx ctx True ()
     (\<lambda>m p. do { (ret, m', p') \<leftarrow> free_tensor_buffers handle m p; Some (ret, (), m', p') })"

subsection \<open>Jobs\<close>

definition AIPU_create_job ::
  "ptr \<Rightarrow> u32 option \<Rightarrow> u32 \<Rightarrow> bool \<Rightarrow> umd \<Rightarrow> (aipu_status \<times> u32 option \<times> umd) option" where
  "AIPU_create_job ctx gdesc buf_handle jid = with_ctx ctx (jid \<and> gdesc \<noteq> None) None (create_new_job (the gdesc) buf_handle)"

definition AIPU_flush_job :: "ptr \<Rightarrow> u32 \<Rightarrow> umd \<Rightarrow> (aipu_status \<times> unit \<times> umd) option" where
  "AIPU_flush_job ctx jid = with_ctx ctx True ()
     (\<lambda>m p. do { (ret, m', p') \<leftarrow> ctx_flush_job jid m p; Some (ret, (), m', p') })"

text \<open>\<open>others\<close>: what other threads do to the graph while this one waits; the status is what \<open>*status\<close> holds.\<close>

definition AIPU_get_job_status ::
  "(graph \<Rightarrow> graph) list \<Rightarrow> ptr \<Rightarrow> u32 \<Rightarrow> int \<Rightarrow> u32 option \<Rightarrow> umd \<Rightarrow> (aipu_status \<times> u32 option \<times> umd) option" where
  "AIPU_get_job_status others ctx jid time_out status = with_ctx ctx (status \<noteq> None) status
     (\<lambda>m p. do { (ret, st, m', p') \<leftarrow> wait_for_job_end others jid time_out (the status) m p; Some (ret, Some st, m', p') })"

definition AIPU_finish_job ::
  "(graph \<Rightarrow> graph) list \<Rightarrow> u32 \<Rightarrow> ptr \<Rightarrow> u32 \<Rightarrow> int \<Rightarrow> umd \<Rightarrow> (aipu_status \<times> unit \<times> umd) option" where
  "AIPU_finish_job others uninit ctx jid time_out = with_ctx ctx True ()
     (\<lambda>m p. do {
        (ret, m1, p1) \<leftarrow> ctx_flush_job jid m p;
        if ret \<noteq> AIPU_STATUS_SUCCESS then Some (ret, (), m1, p1)
        else do {
          (ret, status, m2, p2) \<leftarrow> wait_for_job_end others jid time_out uninit m1 p1;
          Some (if ret = AIPU_STATUS_SUCCESS \<and> status \<noteq> AIPU_JOB_STATUS_DONE then AIPU_STATUS_ERROR_JOB_EXCEPTION else ret,
                (), m2, p2)
        }
      })"

text \<open>The pointer to the number of jobs is checked by the context.\<close>

definition AIPU_poll_jobs_status :: "ptr \<Rightarrow> bool \<Rightarrow> int \<Rightarrow> umd \<Rightarrow> (aipu_status \<times> u32 option \<times> umd) option" where
  "AIPU_poll_jobs_status ctx job_cnt time_out = with_ctx ctx True None
     (\<lambda>m p. if \<not> job_cnt then Some (AIPU_STATUS_ERROR_NULL_PTR, None, m, p) else poll_job_status time_out m p)"

definition AIPU_clean_job :: "ptr \<Rightarrow> u32 \<Rightarrow> umd \<Rightarrow> (aipu_status \<times> unit \<times> umd) option" where
  "AIPU_clean_job ctx jid = with_ctx ctx True () (\<lambda>m p. let (ret, m') = ctx_clean_job jid m in Some (ret, (), m', p))"

definition AIPU_set_dump_options ::
  "ptr \<Rightarrow> u32 \<Rightarrow> aipu_dump_option option \<Rightarrow> umd \<Rightarrow> (aipu_status \<times> unit \<times> umd) option" where
  "AIPU_set_dump_options ctx jid option = with_ctx ctx True ()
     (\<lambda>m p. let (ret, m', p') = ctx_set_dump_options jid option m p in Some (ret, (), m', p'))"

definition AIPU_get_debug_info ::
  "ptr \<Rightarrow> u32 \<Rightarrow> bool \<Rightarrow> umd \<Rightarrow> (aipu_status \<times> (u64 \<times> u64 \<times> u64) option \<times> umd) option" where
  "AIPU_get_debug_info ctx jid info = with_ctx ctx info None
     (\<lambda>m p. let (ret, r) = ctx_get_debug_info jid m in Some (ret, r, m, p))"

definition AIPU_get_dev_status :: "ptr \<Rightarrow> u32 option \<Rightarrow> umd \<Rightarrow> (aipu_status \<times> u32 option \<times> umd) option" where
  "AIPU_get_dev_status ctx value = with_ctx ctx (value \<noteq> None) value
     (\<lambda>m p. do { (ret, v, p') \<leftarrow> ctx_get_dev_status m (the value) p; Some (ret, Some v, m, p') })"

end
