(* ===== verification/UmdApiSpec.thy ===== *)
theory UmdApiSpec
  imports UmdApi UmdBuild UmdDevSpec
begin

text \<open>
  The standard API over contexts and handles: the contract of a call that a context answers,
  every function of the API as an instance of it, and what holds in every state that a
  sequence of calls reaches.
\<close>

subsection \<open>Contexts in order\<close>

text \<open>Every entry of the table is a graph in a state that a loaded graph reaches.\<close>

definition ctx_ok :: "main_context \<Rightarrow> bool" where
  "ctx_ok m \<longleftrightarrow> (\<forall>e \<in> set (mc_graphs m). \<exists>g. snd e = Some g \<and> graph_reach (mc_ctrl m) (fst e) g) \<and>
     sorted_wrt (<) (keys (mc_graphs m))"

lemma set_omap_insert: "set (omap_insert k v m) \<subseteq> insert (k, v) (set m)"
  by (induction k v m rule: omap_insert.induct) auto

lemma set_omap_erase: "set (omap_erase k m) = {e \<in> set m. fst e \<noteq> k}"
  by (auto simp: omap_erase_def)

lemma ctx_okD: "ctx_ok m \<Longrightarrow> get_graph_object m gid = Some g \<Longrightarrow> graph_reach (mc_ctrl m) gid g"
  unfolding ctx_ok_def get_graph_object_def by (fastforce dest: map_of_SomeD split: option.splits)

lemma ctx_ok_put:
  assumes "ctx_ok m" "graph_reach (mc_ctrl m) gid g"
  shows "ctx_ok (put_graph gid (Some g) m)"
  using assms set_omap_insert [of gid "Some g" "mc_graphs m"] by (fastforce simp: ctx_ok_def put_graph_def)

lemma ctx_ok_erase: "ctx_ok m \<Longrightarrow> ctx_ok (m\<lparr>mc_graphs := omap_erase gid (mc_graphs m)\<rparr>)"
  by (auto simp: ctx_ok_def set_omap_erase)

lemma ctx_ok_step:
  "ctx_ok m \<Longrightarrow> get_graph_object m gid = Some g \<Longrightarrow> graph_step (mc_ctrl m) g g' \<Longrightarrow> ctx_ok (put_graph gid (Some g') m)"
  by (intro ctx_ok_put graph_reach.step [OF ctx_okD])

lemma ctx_ok_new: "ctx_ok (new_main_context b)" "ctx_ok m \<Longrightarrow> mc_graphs m = [] \<Longrightarrow> ctx_ok (m\<lparr>mc_ctrl := c\<rparr>)"
  by (simp_all add: ctx_ok_def new_main_context_def)

lemma ctrl_put [simp]: "mc_ctrl (put_graph gid g m) = mc_ctrl m"
  by (simp add: put_graph_def)

text \<open>The search for a graph that is not idle meets no null pointer.\<close>

lemma is_deinit_ok_loop_total: "\<forall>e \<in> set gs. \<exists>g. snd e = Some g \<Longrightarrow> is_deinit_ok_loop gs \<noteq> None"
  by (induction gs rule: is_deinit_ok_loop.induct) auto

lemma is_deinit_ok_total:
  assumes "ctx_ok m"
  shows "is_deinit_ok m \<noteq> None"
  unfolding is_deinit_ok_def by (rule is_deinit_ok_loop_total) (use assms in \<open>unfold ctx_ok_def, blast\<close>)

subsection \<open>The contract of a call\<close>

text \<open>
  Handle objects lie below the next address, name contexts of the table, and no two name
  the same.
\<close>

definition umd_ok :: "umd \<Rightarrow> bool" where
  "umd_ok u \<longleftrightarrow> (\<forall>h m. get_ctx_ref u h = Some m \<longrightarrow> ctx_ok m) \<and>
     (\<forall>x h. um_handles u x = Some h \<longrightarrow> 0 < x \<and> x < um_next u \<and> get_ctx_ref u h \<noteq> None) \<and>
     (\<forall>x y h. um_handles u x = Some h \<and> um_handles u y = Some h \<longrightarrow> x = y) \<and> 0 < um_next u"

lemma umd_okD:
  assumes "umd_ok u"
  shows "get_ctx_ref u h = Some m \<Longrightarrow> ctx_ok m"
    and "um_handles u x = Some h \<Longrightarrow> get_ctx_ref u h \<noteq> None" "um_handles u x = Some h \<Longrightarrow> 0 < x \<and> x < um_next u"
    and "um_handles u x = Some h \<Longrightarrow> um_handles u y = Some h \<Longrightarrow> x = y"
  using assms unfolding umd_ok_def by blast+

text \<open>A call through \<open>x\<close> leaves the contexts behind all other handles as they are.\<close>

definition others_untouched :: "ptr \<Rightarrow> umd \<Rightarrow> umd \<Rightarrow> bool" where
  "others_untouched x u u' \<longleftrightarrow> (\<forall>y h. y \<noteq> x \<and> um_handles u y = Some h \<longrightarrow>
     um_handles u' y = Some h \<and> get_ctx_ref u' h = get_ctx_ref u h)"

lemma get_ctx_put [simp]:
  "get_ctx_ref (put_ctx h m u) = (get_ctx_ref u)(h \<mapsto> m)" "um_handles (put_ctx h m u) = um_handles u"
  "um_next (put_ctx h m u) = um_next u" "get_ctx_ref (u\<lparr>um_proc := p\<rparr>) = get_ctx_ref u"
  "get_ctx_ref (u\<lparr>um_handles := hs\<rparr>) = get_ctx_ref u" "get_ctx_ref (u\<lparr>um_next := n\<rparr>) = get_ctx_ref u"
  "um_proc (put_ctx h m u) = um_proc u"
  by (simp_all add: get_ctx_ref_def put_ctx_def fun_eq_iff)

lemma get_ctx_destroy [simp]:
  "get_ctx_ref (snd (destroy_ctx_ref h u)) = (get_ctx_ref u)(h := None)" "um_handles (snd (destroy_ctx_ref h u)) = um_handles u"
  "um_next (snd (destroy_ctx_ref h u)) = um_next u"
  by (auto simp: destroy_ctx_ref_def get_ctx_ref_def fun_eq_iff)

locale ctx_call =
  fixes call :: "main_context \<Rightarrow> proc \<Rightarrow> (aipu_status \<times> 'a \<times> main_context \<times> proc) option"
  assumes call_keeps: "ctx_ok m \<Longrightarrow> call m p = Some (st, r, m', p') \<Longrightarrow> ctx_ok m'"
begin

lemma with_ctx_keeps:
  assumes u: "umd_ok u" and c: "with_ctx x ptrs r0 call u = Some (st, r, u')"
  shows "umd_ok u' \<and> others_untouched x u u'"
proof (cases "x = NULL \<or> \<not> ptrs")
  case True
  then show ?thesis using u c by (simp add: with_ctx_def others_untouched_def)
next
  case False
  then obtain h where h: "um_handles u x = Some h" using c by (auto simp: with_ctx_def elim!: bind_SomeE)
  obtain m where m: "get_ctx_ref u h = Some m" using umd_okD(2) [OF u h] by blast
  obtain m' p' where r: "call m (um_proc u) = Some (st, r, m', p')" "u' = (put_ctx h m' u)\<lparr>um_proc := p'\<rparr>"
    using c False h m by (auto simp: with_ctx_def elim!: bind_SomeE)
  have "ctx_ok m'" by (rule call_keeps [OF umd_okD(1) [OF u m] r(1)])
  then have "umd_ok u'" using u unfolding umd_ok_def r(2) by auto
  moreover have "others_untouched x u u'" using umd_okD(4) [OF u h] by (auto simp: others_untouched_def r(2))
  ultimately show ?thesis by blast
qed

text \<open>A call through a handle object is answered by its context.\<close>

lemma with_ctx_answers:
  assumes u: "umd_ok u" and h: "um_handles u x = Some h" and ptrs
  shows "\<exists>m. get_ctx_ref u h = Some m \<and> with_ctx x ptrs r0 call u =
    map_option (\<lambda>(st, r, m', p'). (st, r, (put_ctx h m' u)\<lparr>um_proc := p'\<rparr>)) (call m (um_proc u))"
proof -
  obtain m where m: "get_ctx_ref u h = Some m" using umd_okD(2) [OF u h] by blast
  show ?thesis using umd_okD(3) [OF u h] h m assms(3)
    by (intro exI [of _ m]) (auto simp: with_ctx_def split: bind_split)
qed

end

subsection \<open>The functions of the API keep the contract\<close>

lemma create_graph_reach:
  assumes "parse_graph dev b (Some bin) gsize empty_info = Ok info"
    and "create_graph_object c bin info mf gid p = Some (AIPU_STATUS_SUCCESS, g', p')"
  shows "\<exists>g. g' = Some g \<and> graph_reach c gid g"
proof -
  obtain ret g p1 where l: "graph_load c bin info mf (new_graph gid) p = Some (ret, g, p1)"
    using assms(2) by (auto simp: create_graph_object_def elim!: bind_SomeE)
  have "ret = AIPU_STATUS_SUCCESS" using assms(2) l by (auto simp: create_graph_object_def elim!: bind_SomeE split: if_splits)
  then show ?thesis using assms(2) l graph_reach.loaded [OF assms(1)] by (auto simp: create_graph_object_def)
qed

lemma omap_erase_insert: "omap_erase k (omap_insert k v m) = omap_erase k m"
  by (induction k v m rule: omap_insert.induct) (auto simp: omap_erase_def)

lemma omap_insert_twice: "omap_insert k v (omap_insert k v' m) = omap_insert k v m"
  by (induction k v m rule: omap_insert.induct) auto

lemma load_graph_keeps:
  assumes "ctx_ok m" "load_graph bin gsize mf m p = Some (st, r, m', p')"
  shows "ctx_ok m'"
proof (cases "parse_graph (dc_target (mc_ctrl m)) (bypass_version_check (mc_rt_cfg m)) (Some bin) gsize empty_info")
  case (Ok info)
  obtain gid where gid: "create_unique_graph_id_inner m = Some gid" using assms(2) Ok by (auto simp: load_graph_def elim!: bind_SomeE)
  obtain ret g p1 where g: "create_graph_object (mc_ctrl m) bin info mf gid p = Some (ret, g, p1)"
    using assms(2) Ok gid by (auto simp: load_graph_def Let_def elim!: bind_SomeE)
  show ?thesis
  proof (cases "ret = AIPU_STATUS_SUCCESS")
    case True
    obtain g1 where g1: "g = Some g1" "graph_reach (mc_ctrl m) gid g1" using create_graph_reach [OF Ok] g True by blast
    have "m' = put_graph gid (Some g1) m" using assms(2) Ok gid g True g1(1)
      by (simp add: load_graph_def put_graph_def omap_insert_twice)
    then show ?thesis using ctx_ok_put [OF assms(1) g1(2)] by simp
  next
    case False
    have "m' = m\<lparr>mc_graphs := omap_erase gid (mc_graphs m)\<rparr>" using assms(2) Ok gid g False
      by (simp add: load_graph_def put_graph_def omap_erase_insert)
    then show ?thesis using ctx_ok_erase [OF assms(1)] by simp
  qed
qed (use assms in \<open>simp_all add: load_graph_def\<close>)

lemma unload_graph_keeps:
  assumes "ctx_ok m" "unload_graph gid m p = Some (st, m', p')"
  shows "ctx_ok m'"
proof (cases "get_graph_object m gid")
  case (Some g)
  obtain ret g1 p1 where u: "graph_unload (mc_ctrl m) g p = Some (ret, g1, p1)"
    using assms(2) Some by (auto simp: unload_graph_def destroy_graph_object_def elim!: bind_SomeE)
  have "ctx_ok (put_graph gid (Some g1) m)" by (rule ctx_ok_step [OF assms(1) Some graph_step.unload [OF u]])
  then show ?thesis using assms(2) Some u ctx_ok_erase [OF assms(1), of gid]
    by (auto simp: unload_graph_def destroy_graph_object_def split: if_splits)
qed (use assms in \<open>simp add: unload_graph_def\<close>)

lemma alloc_keeps: "ctx_ok m \<Longrightarrow> alloc_tensor_buffers gid m p = Some (st, r, m', p') \<Longrightarrow> ctx_ok m'"
  by (auto simp: alloc_tensor_buffers_def elim!: bind_SomeE intro: ctx_ok_step graph_step.alloc_tb split: option.splits)

lemma free_keeps: "ctx_ok m \<Longrightarrow> free_tensor_buffers h m p = Some (st, m', p') \<Longrightarrow> ctx_ok m'"
  by (auto simp: free_tensor_buffers_def elim!: bind_SomeE intro: ctx_ok_step graph_step.free_tb split: option.splits)

lemma create_keeps: "ctx_ok m \<Longrightarrow> create_new_job gid h m p = Some (st, r, m', p') \<Longrightarrow> ctx_ok m'"
  by (auto simp: create_new_job_def elim!: bind_SomeE intro: ctx_ok_step graph_step.build split: option.splits)

lemma flush_keeps: "ctx_ok m \<Longrightarrow> ctx_flush_job jid m p = Some (st, m', p') \<Longrightarrow> ctx_ok m'"
  by (auto simp: ctx_flush_job_def elim!: bind_SomeE intro: ctx_ok_step graph_step.flush split: option.splits)

lemma clean_keeps: "ctx_ok m \<Longrightarrow> ctx_clean_job jid m = (st, m') \<Longrightarrow> ctx_ok m'"
  by (auto simp: ctx_clean_job_def intro: ctx_ok_step graph_step.clean split: option.splits prod.splits)

lemma dump_keeps: "ctx_ok m \<Longrightarrow> ctx_set_dump_options jid opt m p = (st, m', p') \<Longrightarrow> ctx_ok m'"
  by (auto simp: ctx_set_dump_options_def intro: ctx_ok_step graph_step.dump split: option.splits prod.splits)

lemma update_jobs_keeps: "ctx_ok m \<Longrightarrow> update_jobs jss m = (st, m') \<Longrightarrow> ctx_ok m'"
proof (induction jss arbitrary: m)
  case (Cons js jss)
  show ?case
  proof (cases "get_graph_object m (job_id2graph_id (js_job_id js))")
    case (Some g)
    obtain ret g1 where u: "update_job_status_desc js g = (ret, g1)" by fastforce
    have "ctx_ok (put_graph (job_id2graph_id (js_job_id js)) (Some g1) m)"
      by (rule ctx_ok_step [OF Cons.prems(1) Some graph_step.report [OF u]])
    then show ?thesis using Cons.prems(2) Cons.IH Some u by (auto simp: Let_def split: if_splits)
  qed (use Cons.prems in simp)
qed simp

lemma poll_keeps: "ctx_ok m \<Longrightarrow> poll_job_status t m p = Some (st, r, m', p') \<Longrightarrow> ctx_ok m'"
  by (auto simp: poll_job_status_def Let_def elim!: bind_SomeE dest: update_jobs_keeps split: if_splits prod.splits)

text \<open>What other threads do to a graph while one waits.\<close>

definition steps_of_others :: "(graph \<Rightarrow> graph) list \<Rightarrow> bool" where
  "steps_of_others ws \<longleftrightarrow> (\<forall>w \<in> set ws. \<forall>c g. (graph_step c)\<^sup>*\<^sup>* g (w g))"

lemma graph_reach_steps: "(graph_step c)\<^sup>*\<^sup>* g g' \<Longrightarrow> graph_reach c gid g \<Longrightarrow> graph_reach c gid g'"
  by (induction rule: rtranclp_induct) (auto intro: graph_reach.step)

lemma cond_wait_steps:
  "steps_of_others ws \<Longrightarrow> cond_wait jid ws g = Some g' \<Longrightarrow> graph_reach c gid g \<Longrightarrow> graph_reach c gid g'"
proof (induction jid ws g rule: cond_wait.induct)
  case (2 jid w ws g)
  have s: "steps_of_others ws" "(graph_step c)\<^sup>*\<^sup>* g (w g)" using "2.prems"(1) by (simp_all add: steps_of_others_def)
  then show ?case using 2 graph_reach_steps [OF s(2) "2.prems"(3)] by (auto split: if_splits)
qed (auto split: if_splits)

lemma wait_sleep_reach:
  assumes "steps_of_others ws" "graph_reach c gid g" "wait_for_job_end_sleep c ws jid t g p = Some (st, s, g', p')"
  shows "graph_reach c gid g'"
proof -
  have w: "graph_reach c gid g1" if "cond_wait jid ws g = Some g1" for g1
    by (rule cond_wait_steps [OF assms(1) that assms(2)])
  have v: "graph_reach c gid (case ws of [] \<Rightarrow> g | w # _ \<Rightarrow> w g)"
    using assms(1,2) graph_reach_steps [OF _ assms(2)] by (auto simp: steps_of_others_def split: list.splits)
  have t: "graph_reach c gid (put_job jid (\<lambda>j. j\<lparr>jd_state := JOB_STATE_TIMEOUT\<rparr>) g1)" if "graph_reach c gid g1" for g1
    by (rule graph_reach.step [OF that graph_step.timeout])
  show ?thesis using assms(2,3) w v t
    by (auto simp: wait_for_job_end_sleep_def elim!: bind_SomeE split: option.splits if_splits)
qed

lemma wait_keeps:
  assumes "steps_of_others ws" "ctx_ok m" "wait_for_job_end ws jid t s0 m p = Some (st, s, m', p')"
  shows "ctx_ok m'"
proof (cases "get_graph_object m (job_id2graph_id jid)")
  case (Some g)
  have st: "ctx_ok (put_graph (job_id2graph_id jid) (Some (snd (update_job_status jid x g))) m)"
    "ctx_ok (put_graph (job_id2graph_id jid) (Some (snd (update_job_status_desc js g))) m)" for x js
    using ctx_ok_step [OF assms(2) Some graph_step.status, of jid x] ctx_ok_step [OF assms(2) Some graph_step.report, of js]
    by (metis prod.collapse)+
  have sl: "ctx_ok (put_graph (job_id2graph_id jid) (Some g1) m)"
    if "wait_for_job_end_sleep (mc_ctrl m) ws jid t' g p = Some (a, b, g1, q)" for t' a b g1 q
    by (rule ctx_ok_put [OF assms(2) wait_sleep_reach [OF assms(1) ctx_okD [OF assms(2) Some] that]])
  show ?thesis using assms(2,3) Some st sl
    by (auto simp: wait_for_job_end_def Let_def elim!: bind_SomeE split: if_splits list.splits prod.splits)
       (metis snd_conv)+
qed (use assms(2,3) in \<open>simp add: wait_for_job_end_def Let_def\<close>)

text \<open>Every function of the API whose frame is \<open>with_ctx\<close> is an instance of the contract.\<close>

interpretation config_call: ctx_call "\<lambda>m p. Some (config_simulation m, (), m, p)"
  by unfold_locales simp

interpretation runtime_call: ctx_call "\<lambda>m p. let (ret, m') = set_runtime_config cfg m in Some (ret, (), m', p)" for cfg
  by unfold_locales (auto simp: set_runtime_config_def ctx_ok_def)

interpretation load_call: ctx_call "load_graph bin gsize mf" for bin gsize mf
  by unfold_locales (rule load_graph_keeps)

interpretation file_call: ctx_call "\<lambda>m p. case umd_mmap_file_helper f of (ret, None) \<Rightarrow> Some (ret, None, m, p)
    | (ret, Some (bin, gbin_size)) \<Rightarrow> load_graph bin gbin_size True m p" for f
  by unfold_locales (auto dest: load_graph_keeps split: prod.splits option.splits)

interpretation unload_call: ctx_call "\<lambda>m p. do { (ret, m', p') \<leftarrow> unload_graph gid m p; Some (ret, (), m', p') }" for gid
  by unfold_locales (auto elim!: bind_SomeE dest: unload_graph_keeps)

interpretation alloc_call: ctx_call "alloc_tensor_buffers gid" for gid
  by unfold_locales (rule alloc_keeps)

interpretation free_call: ctx_call "\<lambda>m p. do { (ret, m', p') \<leftarrow> free_tensor_buffers h m p; Some (ret, (), m', p') }" for h
  by unfold_locales (auto elim!: bind_SomeE dest: free_keeps)

interpretation create_call: ctx_call "create_new_job gid h" for gid h
  by unfold_locales (rule create_keeps)

interpretation flush_call: ctx_call "\<lambda>m p. do { (ret, m', p') \<leftarrow> ctx_flush_job jid m p; Some (ret, (), m', p') }" for jid
  by unfold_locales (auto elim!: bind_SomeE dest: flush_keeps)

interpretation poll_call: ctx_call "\<lambda>m p. if \<not> cnt then Some (AIPU_STATUS_ERROR_NULL_PTR, None, m, p) else poll_job_status t m p"
  for cnt t
  by unfold_locales (auto dest: poll_keeps split: if_splits)

interpretation clean_call: ctx_call "\<lambda>m p. let (ret, m') = ctx_clean_job jid m in Some (ret, (), m', p)" for jid
  by unfold_locales (auto dest: clean_keeps split: prod.splits)

interpretation dump_call: ctx_call
  "\<lambda>m p. let (ret, m', p') = ctx_set_dump_options jid opt m p in Some (ret, (), m', p')" for jid opt
  by unfold_locales (auto dest: dump_keeps split: prod.splits)

interpretation debug_call: ctx_call "\<lambda>m p. let (ret, r) = ctx_get_debug_info jid m in Some (ret, r, m, p)" for jid
  by unfold_locales (auto split: prod.splits)

interpretation devstat_call: ctx_call "\<lambda>m p. do { (ret, v, p') \<leftarrow> ctx_get_dev_status m x p; Some (ret, Some v, m, p') }" for x
  by unfold_locales (auto elim!: bind_SomeE)

text \<open>A wait is one when the other threads only do what the driver does with a graph.\<close>

lemma wait_call: "steps_of_others ws \<Longrightarrow> ctx_call (\<lambda>m p. do { (ret, st, m', p') \<leftarrow> wait_for_job_end ws jid t s0 m p; Some (ret, Some st, m', p') })"
  by unfold_locales (auto elim!: bind_SomeE dest: wait_keeps)

lemma finish_call: "steps_of_others ws \<Longrightarrow> ctx_call (\<lambda>m p. do {
        (ret, m1, p1) \<leftarrow> ctx_flush_job jid m p;
        if ret \<noteq> AIPU_STATUS_SUCCESS then Some (ret, (), m1, p1)
        else do {
          (ret, status, m2, p2) \<leftarrow> wait_for_job_end ws jid t s0 m1 p1;
          Some (if ret = AIPU_STATUS_SUCCESS \<and> status \<noteq> AIPU_JOB_STATUS_DONE then AIPU_STATUS_ERROR_JOB_EXCEPTION else ret,
                (), m2, p2)
        }
      })"
proof (unfold_locales, elim bind_SomeE, goal_cases)
  case (1 m p st r m' p' y)
  obtain ret m1 p1 where y: "y = (ret, m1, p1)" by (cases y)
  have m1: "ctx_ok m1" by (rule flush_keeps [OF 1(2)]) (use 1(3) y in simp)
  show ?case
  proof (cases "ret = AIPU_STATUS_SUCCESS")
    case True
    then obtain ret2 status m2 p2 where w: "wait_for_job_end ws jid t s0 m1 p1 = Some (ret2, status, m2, p2)" "m' = m2"
      using 1(4) y by (auto elim!: bind_SomeE)
    show ?thesis unfolding w(2) by (rule wait_keeps [OF 1(1) m1 w(1)])
  qed (use 1(4) y m1 in simp)
qed

subsection \<open>Handles\<close>

lemma last_free_handle_unused: "last_free_handle used h = Some r \<Longrightarrow> \<not> used r"
  by (rule last_free_handle.raw_induct [of "\<lambda>used h r. \<not> used r"]) (auto split: if_splits)

text \<open>The search upwards for the mirrored identifiers: a free handle is found as long as one is left.\<close>

lemma last_free_handle_mirror:
  assumes "\<not> used (h - of_nat k)" "\<And>i. i < k \<Longrightarrow> used (h - of_nat i)"
  shows "last_free_handle used h = Some (h - of_nat k)"
  using assms
proof (induction k arbitrary: h)
  case 0
  then show ?case by (simp add: last_free_handle.simps [of used h])
next
  case (Suc k)
  have "used h" using Suc.prems(2) [of 0] by simp
  moreover have "last_free_handle used (h - 1) = Some (h - 1 - of_nat k)"
  proof (rule Suc.IH)
    show "\<not> used (h - 1 - of_nat k)" using Suc.prems(1) by (simp add: algebra_simps)
    show "used (h - 1 - of_nat i)" if "i < k" for i using Suc.prems(2) [of "Suc i"] that by (simp add: algebra_simps)
  qed
  ultimately show ?case by (subst last_free_handle.simps) (simp add: algebra_simps)
qed

lemma last_free_handle_returns:
  assumes "\<not> used r"
  shows "last_free_handle used h \<noteq> None"
proof -
  let ?k = "LEAST k. \<not> used (h - of_nat k)"
  have "\<not> used (h - of_nat (unat (h - r)))" using assms by simp
  then have "\<not> used (h - of_nat ?k)" by (rule LeastI)
  moreover have "used (h - of_nat i)" if "i < ?k" for i using not_less_Least [OF that] by simp
  ultimately have "last_free_handle used h = Some (h - of_nat ?k)" by (rule last_free_handle_mirror)
  then show ?thesis by simp
qed

lemma init_ctx_keeps:
  assumes u: "umd_ok u" and c: "AIPU_init_ctx b ok u = Some (st, r, u')"
  shows "umd_ok u' \<and> others_untouched 0 u u' \<and> (\<forall>x. r = Some x \<longrightarrow> um_handles u x = None \<and> um_handles u' x \<noteq> None)"
proof (cases ok)
  case True
  obtain h u1 where h: "create_ctx_ref b u = Some (h, u1)" using c True by (auto simp: AIPU_init_ctx_def elim!: bind_SomeE)
  have h1: "get_ctx_ref u h = None" "u1 = put_ctx h (new_main_context b) u"
    using h last_free_handle_unused by (fastforce simp: create_ctx_ref_def elim!: bind_SomeE)+
  obtain ret m p where i: "context_init (new_main_context b) (um_proc u) = Some (ret, m, p)"
    using c True h by (auto simp: AIPU_init_ctx_def h1(2) elim!: bind_SomeE)
  have m: "ctx_ok m" using i by (auto simp: context_init_def ctx_ok_def new_main_context_def elim!: bind_SomeE)
  let ?u2 = "(put_ctx h m u1)\<lparr>um_proc := p\<rparr>"
  have no: "um_handles u x \<noteq> Some h" for x using umd_okD(2) [OF u] h1(1) by blast
  have nx: "um_handles u (um_next u) = None" using umd_okD(3) [OF u, of "um_next u"] by (cases "um_handles u (um_next u)") auto
  have r: "(st, r, u') = (if ret \<noteq> AIPU_STATUS_SUCCESS then (ret, None, snd (destroy_ctx_ref h ?u2))
      else (ret, Some (um_next u), ?u2\<lparr>um_handles := (um_handles u)(um_next u \<mapsto> h), um_next := um_next u + 1\<rparr>))"
    using c True h i by (auto simp: AIPU_init_ctx_def h1(2) Let_def split: if_splits)
  show ?thesis
  proof (cases "ret = AIPU_STATUS_SUCCESS")
    case True
    then have u': "u' = ?u2\<lparr>um_handles := (um_handles u)(um_next u \<mapsto> h), um_next := um_next u + 1\<rparr>" "r = Some (um_next u)"
      using r by simp_all
    have "umd_ok u'" using u m no unfolding umd_ok_def u' h1(2) by (auto simp: less_Suc_eq)
    moreover have "others_untouched 0 u u'" using nx no by (auto simp: others_untouched_def u' h1(2))
    ultimately show ?thesis using nx by (simp add: u')
  next
    case False
    then have u': "u' = snd (destroy_ctx_ref h ?u2)" "r = None" using r by simp_all
    have "umd_ok u'" using u no unfolding umd_ok_def u' h1(2) by auto
    moreover have "others_untouched 0 u u'" using no by (auto simp: others_untouched_def u' h1(2))
    ultimately show ?thesis by (simp add: u')
  qed
qed (use assms in \<open>simp add: AIPU_init_ctx_def others_untouched_def\<close>)

lemma deinit_keeps:
  assumes "ctx_ok m" "context_deinit m p = Some (st, m', p')" "st \<noteq> AIPU_STATUS_SUCCESS"
  shows "m' = m"
  using assms by (auto simp: context_deinit_def elim!: bind_SomeE split: if_splits)

lemma deinit_ctx_keeps:
  assumes u: "umd_ok u" and c: "AIPU_deinit_ctx x u = Some (st, u')"
  shows "umd_ok u' \<and> others_untouched x u u' \<and> (st = AIPU_STATUS_SUCCESS \<longrightarrow> um_handles u' x = None)"
proof (cases "x = NULL")
  case False
  obtain h where h: "um_handles u x = Some h" using c False by (auto simp: AIPU_deinit_ctx_def elim!: bind_SomeE)
  obtain m where m: "get_ctx_ref u h = Some m" using umd_okD(2) [OF u h] by blast
  obtain ret m' p where d: "context_deinit m (um_proc u) = Some (ret, m', p)"
    using c False h m by (auto simp: AIPU_deinit_ctx_def elim!: bind_SomeE)
  have one: "um_handles u y = Some h \<Longrightarrow> y = x" for y using umd_okD(4) [OF u h] by blast
  show ?thesis
  proof (cases "ret = AIPU_STATUS_SUCCESS")
    case True
    then have u': "u' = (snd (destroy_ctx_ref h ((put_ctx h m' u)\<lparr>um_proc := p\<rparr>)))\<lparr>um_handles := (um_handles u)(x := None)\<rparr>"
      using c False h m d by (simp add: AIPU_deinit_ctx_def)
    have "umd_ok u'" using u one unfolding umd_ok_def u' by (auto split: if_splits)
    moreover have "others_untouched x u u'" using one by (auto simp: others_untouched_def u')
    ultimately show ?thesis by (simp add: u')
  next
    case False
    have u': "u' = (put_ctx h m u)\<lparr>um_proc := p\<rparr>" "st = ret"
      using c \<open>x \<noteq> NULL\<close> h m d False deinit_keeps [OF umd_okD(1) [OF u m] d] by (auto simp: AIPU_deinit_ctx_def)
    have "umd_ok u'" using u umd_okD(1) [OF u m] unfolding umd_ok_def u' by auto
    moreover have "others_untouched x u u'" using one by (auto simp: others_untouched_def u')
    ultimately show ?thesis using False u'(2) by simp
  qed
qed (use assms in \<open>auto simp: AIPU_deinit_ctx_def others_untouched_def\<close>)


subsection \<open>Sequences of calls\<close>

text \<open>
  One call of the API through the handle at \<open>x\<close>, which is null for the call that makes a
  handle. The waiting calls yield to what the driver does with a graph. In between the application
  writes to its memory.
\<close>

inductive umd_step :: "ptr \<Rightarrow> umd \<Rightarrow> umd \<Rightarrow> bool" where
  init: "AIPU_init_ctx b ok u = Some (st, r, u') \<Longrightarrow> umd_step NULL u u'"
| deinit: "AIPU_deinit_ctx x u = Some (st, u') \<Longrightarrow> umd_step x u u'"
| config: "AIPU_config_simulation x ok u = Some (st, d, u') \<Longrightarrow> umd_step x u u'"
| runtime: "AIPU_set_runtime_config x cfg u = Some (st, d, u') \<Longrightarrow> umd_step x u u'"
| load: "AIPU_load_graph x bin gsize ok u = Some (st, gd, u') \<Longrightarrow> umd_step x u u'"
| load_file: "AIPU_load_graph_helper x f ok u = Some (st, gd, u') \<Longrightarrow> umd_step x u u'"
| unload: "AIPU_unload_graph x gid u = Some (st, d, u') \<Longrightarrow> umd_step x u u'"
| alloc: "AIPU_alloc_tensor_buffers x gid ok u = Some (st, io, u') \<Longrightarrow> umd_step x u u'"
| free: "AIPU_free_tensor_buffers x h u = Some (st, d, u') \<Longrightarrow> umd_step x u u'"
| create: "AIPU_create_job x gid h ok u = Some (st, j, u') \<Longrightarrow> umd_step x u u'"
| flush: "AIPU_flush_job x jid u = Some (st, d, u') \<Longrightarrow> umd_step x u u'"
| status: "AIPU_get_job_status ws x jid t s u = Some (st, v, u') \<Longrightarrow> steps_of_others ws \<Longrightarrow> umd_step x u u'"
| finish: "AIPU_finish_job ws s0 x jid t u = Some (st, d, u') \<Longrightarrow> steps_of_others ws \<Longrightarrow> umd_step x u u'"
| poll: "AIPU_poll_jobs_status x ok t u = Some (st, n, u') \<Longrightarrow> umd_step x u u'"
| clean: "AIPU_clean_job x jid u = Some (st, d, u') \<Longrightarrow> umd_step x u u'"
| dump: "AIPU_set_dump_options x jid opt u = Some (st, d, u') \<Longrightarrow> umd_step x u u'"
| debug: "AIPU_get_debug_info x jid ok u = Some (st, i, u') \<Longrightarrow> umd_step x u u'"
| devstat: "AIPU_get_dev_status x v u = Some (st, v', u') \<Longrightarrow> umd_step x u u'"
| app: "umd_step NULL u (u\<lparr>um_proc := (um_proc u)\<lparr>px_phys := mem\<rparr>\<rparr>)"

definition umd_reachable :: "proc \<Rightarrow> umd \<Rightarrow> bool" where
  "umd_reachable p u \<longleftrightarrow> (\<lambda>u u'. \<exists>x. umd_step x u u')\<^sup>*\<^sup>* (umd_start p) u"

lemmas api_defs = AIPU_config_simulation_def AIPU_set_runtime_config_def AIPU_load_graph_def AIPU_load_graph_helper_def
  AIPU_unload_graph_def AIPU_alloc_tensor_buffers_def AIPU_free_tensor_buffers_def AIPU_create_job_def AIPU_flush_job_def
  AIPU_get_job_status_def AIPU_finish_job_def AIPU_poll_jobs_status_def AIPU_clean_job_def AIPU_set_dump_options_def
  AIPU_get_debug_info_def AIPU_get_dev_status_def

lemma umd_step_ok: "umd_step x u u' \<Longrightarrow> umd_ok u \<Longrightarrow> umd_ok u' \<and> others_untouched x u u'"
proof (induction rule: umd_step.induct)
  case (init b ok u st r u')
  then show ?case using init_ctx_keeps by blast
next
  case (app u mem)
  then show ?case by (simp add: umd_ok_def others_untouched_def)
next
  case (deinit x u st u')
  then show ?case using deinit_ctx_keeps by blast
next
  case (status ws x jid t s u st v u')
  show ?case by (rule ctx_call.with_ctx_keeps [OF wait_call [OF status(2)] status(3) status(1) [unfolded api_defs]])
next
  case (finish ws s0 x jid t u st d u')
  show ?case by (rule ctx_call.with_ctx_keeps [OF finish_call [OF finish(2)] finish(3) finish(1) [unfolded api_defs]])
qed (unfold api_defs, (rule config_call.with_ctx_keeps runtime_call.with_ctx_keeps load_call.with_ctx_keeps
    file_call.with_ctx_keeps unload_call.with_ctx_keeps alloc_call.with_ctx_keeps free_call.with_ctx_keeps
    create_call.with_ctx_keeps flush_call.with_ctx_keeps poll_call.with_ctx_keeps clean_call.with_ctx_keeps
    dump_call.with_ctx_keeps debug_call.with_ctx_keeps devstat_call.with_ctx_keeps; assumption)+)

lemma umd_start_ok: "umd_ok (umd_start p)"
  by (simp add: umd_ok_def umd_start_def get_ctx_ref_def)

lemma umd_reachable_ok: "umd_reachable p u \<Longrightarrow> umd_ok u"
  unfolding umd_reachable_def by (induction rule: rtranclp_induct) (auto simp: umd_start_ok dest: umd_step_ok)

lemma umd_reachable_step: "umd_reachable p u \<Longrightarrow> umd_step x u u' \<Longrightarrow> umd_reachable p u'"
  unfolding umd_reachable_def by (rule rtranclp.rtrancl_into_rtrancl) auto


subsection \<open>Properties\<close>

text \<open>C8. In every state that a sequence of API calls reaches, whatever the order and the arguments of the
  calls, a handle object names a context of the table, the test whether that context can
  be closed meets no null pointer, and every graph of it carries the identifier it is filed
  under and satisfies the invariant of graphs.\<close>

theorem api_states_ok:
  assumes "umd_reachable p u" "um_handles u x = Some h"
  shows "\<exists>m. get_ctx_ref u h = Some m \<and> is_deinit_ok m \<noteq> None \<and>
    (\<forall>e \<in> set (mc_graphs m). \<exists>g. snd e = Some g \<and> gd_id (gr_gdesc g) = fst e \<and> graph_ok g)"
proof -
  have u: "umd_ok u" by (rule umd_reachable_ok [OF assms(1)])
  obtain m where m: "get_ctx_ref u h = Some m" using umd_okD(2) [OF u assms(2)] by blast
  have "\<exists>g. snd e = Some g \<and> gd_id (gr_gdesc g) = fst e \<and> graph_ok g" if e: "e \<in> set (mc_graphs m)" for e
    using umd_okD(1) [OF u m] e graph_reach_id graph_reach_ok unfolding ctx_ok_def by blast
  then show ?thesis using m is_deinit_ok_total [OF umd_okD(1) [OF u m]] by blast
qed

text \<open>C9. Contexts are apart: in every state that API calls reach, a further call through one handle
  leaves every other handle valid, and the context behind it, with its device,
  configuration, graphs, buffers and jobs, as it was.\<close>

theorem api_isolation:
  assumes "umd_reachable p u" "umd_step x u u'" "y \<noteq> x" "um_handles u y = Some h"
  shows "um_handles u' y = Some h \<and> get_ctx_ref u' h = get_ctx_ref u h"
  using umd_step_ok [OF assms(2) umd_reachable_ok [OF assms(1)]] assms(3,4) by (auto simp: others_untouched_def)

text \<open>The search for the handle of a new context ends exactly if a handle is free; with all 2 ^ 32
  handles in use it never does.\<close>

theorem create_ctx_ref_returns: "create_ctx_ref uninit u \<noteq> None \<longleftrightarrow> (\<exists>h. get_ctx_ref u h = None)"
proof
  assume "create_ctx_ref uninit u \<noteq> None"
  then obtain h where "last_free_handle (\<lambda>h. get_ctx_ref u h \<noteq> None) 0xFFFFFFFF = Some h"
    by (auto simp: create_ctx_ref_def elim!: bind_SomeE)
  then show "\<exists>h. get_ctx_ref u h = None" using last_free_handle_unused by blast
next
  assume "\<exists>h. get_ctx_ref u h = None"
  then obtain h where "\<not> get_ctx_ref u h \<noteq> None" by blast
  then have "last_free_handle (\<lambda>h. get_ctx_ref u h \<noteq> None) 0xFFFFFFFF \<noteq> None"
    by (rule last_free_handle_returns [where used = "\<lambda>h. get_ctx_ref u h \<noteq> None"])
  then show "create_ctx_ref uninit u \<noteq> None" by (auto simp: create_ctx_ref_def)
qed

subsection \<open>Two contexts\<close>

text \<open>A process opens two contexts on a machine without the device and configures the second.\<close>

definition two_proc :: proc where
  "two_proc = demo_proc\<lparr>px_env := \<lambda>_. demo_uenv\<lparr>ue_fd := -1\<rparr>\<rparr>"

definition no_device :: "proc \<Rightarrow> bool" where
  "no_device p \<longleftrightarrow> (\<forall>k. ue_fd (px_env p k) < 0)"

lemma ctrl_init_no_device: "no_device p \<Longrightarrow> \<exists>c' p'. ctrl_init c p = Some (AIPU_STATUS_SUCCESS, c', p') \<and> no_device p'"
  by (simp add: ctrl_init_def dev_op_wrapper_open_def sys_open_def Let_def no_device_def env_now_def next_call_def)

lemma init_no_device:
  assumes "no_device (um_proc u)" "last_free_handle (\<lambda>h. get_ctx_ref u h \<noteq> None) 0xFFFFFFFF = Some h"
  shows "\<exists>u' m. AIPU_init_ctx b True u = Some (AIPU_STATUS_SUCCESS, Some (um_next u), u') \<and> no_device (um_proc u') \<and>
    get_ctx_ref u' = (get_ctx_ref u)(h \<mapsto> m) \<and> um_handles u' = (um_handles u)(um_next u \<mapsto> h) \<and> um_next u' = um_next u + 1"
proof -
  obtain c' p' where c: "ctrl_init (mc_ctrl (new_main_context b)) (um_proc u) = Some (AIPU_STATUS_SUCCESS, c', p')" "no_device p'"
    using ctrl_init_no_device [OF assms(1)] by blast
  show ?thesis using assms(2) c by (simp add: AIPU_init_ctx_def create_ctx_ref_def context_init_def Let_def) (rule exI, rule refl)
qed

lemma two_contexts:
  "\<exists>u1 u2 u3. AIPU_init_ctx False True (umd_start two_proc) = Some (AIPU_STATUS_SUCCESS, Some 1, u1) \<and>
     AIPU_init_ctx False True u1 = Some (AIPU_STATUS_SUCCESS, Some 2, u2) \<and>
     AIPU_set_runtime_config 2 (Some cfg) u2 = Some (AIPU_STATUS_SUCCESS, (), u3) \<and>
     um_handles u2 1 = Some 0xFFFFFFFF"
proof -
  have p: "no_device (um_proc (umd_start two_proc))" by (simp add: no_device_def umd_start_def two_proc_def)
  have s: "get_ctx_ref (umd_start two_proc) = (\<lambda>_. None)" "um_next (umd_start two_proc) = 1" "um_handles (umd_start two_proc) = (\<lambda>_. None)"
    by (simp_all add: umd_start_def get_ctx_ref_def fun_eq_iff)
  obtain u1 m1 where 1: "AIPU_init_ctx False True (umd_start two_proc) = Some (AIPU_STATUS_SUCCESS, Some 1, u1)"
    "no_device (um_proc u1)" "get_ctx_ref u1 = [0xFFFFFFFF \<mapsto> m1]" "um_handles u1 = [1 \<mapsto> 0xFFFFFFFF]" "um_next u1 = 2"
    using init_no_device [OF p, of "0xFFFFFFFF" False] by (auto simp: s last_free_handle.simps [of _ "0xFFFFFFFF"])
  obtain u2 m2 where 2: "AIPU_init_ctx False True u1 = Some (AIPU_STATUS_SUCCESS, Some 2, u2)"
    "get_ctx_ref u2 = [0xFFFFFFFF \<mapsto> m1, 0xFFFFFFFE \<mapsto> m2]" "um_handles u2 = [1 \<mapsto> 0xFFFFFFFF, 2 \<mapsto> 0xFFFFFFFE]"
    using init_no_device [OF 1(2), of "0xFFFFFFFE" False]
    by (auto simp: 1 last_free_handle.simps [of _ "0xFFFFFFFF"] last_free_handle.simps [of _ "0xFFFFFFFE"])
  have "AIPU_set_runtime_config 2 (Some cfg) u2 \<noteq> None \<and> fst (the (AIPU_set_runtime_config 2 (Some cfg) u2)) = AIPU_STATUS_SUCCESS"
    by (simp add: AIPU_set_runtime_config_def with_ctx_def 2 set_runtime_config_def)
  then show ?thesis using 1(1) 2 by fastforce
qed

lemma api_states_ok_witness:
  "\<exists>u m. umd_reachable two_proc u \<and> um_handles u 1 = Some 0xFFFFFFFF \<and> get_ctx_ref u 0xFFFFFFFF = Some m \<and> is_deinit_ok m \<noteq> None"
proof -
  obtain u1 u2 where s: "AIPU_init_ctx False True (umd_start two_proc) = Some (AIPU_STATUS_SUCCESS, Some 1, u1)"
    "AIPU_init_ctx False True u1 = Some (AIPU_STATUS_SUCCESS, Some 2, u2)" "um_handles u2 1 = Some 0xFFFFFFFF"
    using two_contexts by blast
  have "umd_reachable two_proc u2"
    by (rule umd_reachable_step [OF umd_reachable_step [OF _ umd_step.init [OF s(1)]] umd_step.init [OF s(2)]])
       (simp add: umd_reachable_def)
  then show ?thesis using api_states_ok [of two_proc u2 1 "0xFFFFFFFF"] s(3) by blast
qed

lemma api_isolation_witness:
  "\<exists>u u'. umd_reachable two_proc u \<and> umd_step 2 u u' \<and> um_handles u' 1 = Some 0xFFFFFFFF \<and>
     get_ctx_ref u' 0xFFFFFFFF = get_ctx_ref u 0xFFFFFFFF"
proof -
  obtain u1 u2 u3 where s: "AIPU_init_ctx False True (umd_start two_proc) = Some (AIPU_STATUS_SUCCESS, Some 1, u1)"
    "AIPU_init_ctx False True u1 = Some (AIPU_STATUS_SUCCESS, Some 2, u2)"
    "AIPU_set_runtime_config 2 (Some \<lparr>poll_opt = True, bypass_version_check = True\<rparr>) u2 = Some (AIPU_STATUS_SUCCESS, (), u3)" "um_handles u2 1 = Some 0xFFFFFFFF"
    using two_contexts  by blast
  have r: "umd_reachable two_proc u2"
    by (rule umd_reachable_step [OF umd_reachable_step [OF _ umd_step.init [OF s(1)]] umd_step.init [OF s(2)]])
       (simp add: umd_reachable_def)
  then show ?thesis using api_isolation [OF r umd_step.runtime [OF s(3)], of 1 "0xFFFFFFFF"] s(4) umd_step.runtime [OF s(3)] by auto
qed

end
