(* ===== verification/UmdDump.thy ===== *)
theory UmdDump
  imports UmdGraph Sysfs
begin

text \<open>
  The files that the user-mode driver reads and writes (\<open>utils/helper.cpp\<close>) and the dumps of
  the buffers of a job, its memory map and its profiling data (\<open>context/graph/graph.cpp\<close>).
\<close>

subsection \<open>Files\<close>

text \<open>
  The contents of the files by name, and the number of operations so far. The system
  answers each operation: the descriptor, whether \<open>ftruncate\<close> succeeds, and how many bytes
  are written or read at most, negative for an error.
\<close>

record ufiles =
  uf_data :: "string \<Rightarrow> u8 list option"
  uf_ops :: nat

record file_answer =
  fa_open :: int
  fa_truncate :: bool
  fa_count :: int

definition put_file :: "string \<Rightarrow> u8 list \<Rightarrow> ufiles \<Rightarrow> ufiles" where
  "put_file fname bs s = s\<lparr>uf_data := (uf_data s)(fname \<mapsto> bs)\<rparr>"

definition next_op :: "ufiles \<Rightarrow> ufiles" where
  "next_op s = s\<lparr>uf_ops := Suc (uf_ops s)\<rparr>"

text \<open>The bytes of a range up to the first that is not mapped; the system reads no further.\<close>

fun mapped_bytes :: "proc \<Rightarrow> addr \<Rightarrow> nat \<Rightarrow> u8 list" where
  "mapped_bytes p a 0 = []"
| "mapped_bytes p a (Suc n) = (case ux_load p a of None \<Rightarrow> [] | Some b \<Rightarrow> b # mapped_bytes p (a + 1) n)"

definition umd_dump_file_helper ::
  "(nat \<Rightarrow> file_answer) \<Rightarrow> proc \<Rightarrow> string \<Rightarrow> addr \<Rightarrow> u32 \<Rightarrow> ufiles \<Rightarrow> aipu_status \<times> ufiles" where
  "umd_dump_file_helper e p fname src sz s =
     (if src = 0 then (AIPU_STATUS_ERROR_NULL_PTR, s)
      else if sz = 0 then (AIPU_STATUS_ERROR_INVALID_SIZE, s)
      else
        let a = e (uf_ops s); s1 = next_op s in
        if fa_open a = -1 then (AIPU_STATUS_ERROR_OPEN_FILE_FAIL, s1)
        else if \<not> fa_truncate a then (AIPU_STATUS_ERROR_OPEN_FILE_FAIL, put_file fname [] s1)
        else
          let bs = mapped_bytes p src (unat sz);
              w = (if fa_count a < 0 then [] else take (nat (fa_count a)) bs);
              wbytes = (if fa_count a < 0 \<or> bs = [] then -1 else int (length w));
              s2 = put_file fname (w @ replicate (unat sz - length w) 0) s1
          in (if wbytes \<noteq> sint sz then AIPU_STATUS_ERROR_WRITE_FILE_FAIL else AIPU_STATUS_SUCCESS, s2))"

text \<open>The bytes of a read arrive up to the first address that is not mapped.\<close>

fun store_bytes :: "addr \<Rightarrow> u8 list \<Rightarrow> proc \<Rightarrow> proc" where
  "store_bytes a [] p = p"
| "store_bytes a (b # bs) p = (case ux_store a b p of None \<Rightarrow> p | Some p1 \<Rightarrow> store_bytes (a + 1) bs p1)"

definition umd_load_file_helper ::
  "(nat \<Rightarrow> file_answer) \<Rightarrow> string \<Rightarrow> addr \<Rightarrow> u32 \<Rightarrow> proc \<Rightarrow> ufiles \<Rightarrow> aipu_status \<times> proc \<times> ufiles" where
  "umd_load_file_helper e fname dest sz p s =
     (if dest = 0 then (AIPU_STATUS_ERROR_NULL_PTR, p, s)
      else if sz = 0 then (AIPU_STATUS_ERROR_INVALID_SIZE, p, s)
      else
        let a = e (uf_ops s); s1 = next_op s in
        (case uf_data s fname of
           None \<Rightarrow> (AIPU_STATUS_ERROR_OPEN_FILE_FAIL, p, s1)
         | Some bs \<Rightarrow>
             if fa_open a \<le> 0 then (AIPU_STATUS_ERROR_OPEN_FILE_FAIL, p, s1)
             else if fa_count a < 0 then (AIPU_STATUS_ERROR_READ_FILE_FAIL, p, s1)
             else (AIPU_STATUS_SUCCESS, store_bytes dest (take (nat (fa_count a)) (take (unat sz) bs)) p, s1)))"

definition umd_draw_line_helper :: "char \<Rightarrow> nat \<Rightarrow> string" where
  "umd_draw_line_helper ch num = (if num < 4095 then replicate num ch else replicate 4094 ch) @ ''\<newline>''"

text \<open>A text file is opened for writing, which empties it; what cannot be written is lost silently.\<close>

definition text_bytes :: "string \<Rightarrow> u8 list" where
  "text_bytes t = map of_char t"

definition write_text :: "(nat \<Rightarrow> file_answer) \<Rightarrow> string \<Rightarrow> string \<Rightarrow> ufiles \<Rightarrow> ufiles" where
  "write_text e fname t s =
     (let a = e (uf_ops s); s1 = next_op s
      in if fa_open a = -1 then s1 else put_file fname (text_bytes t) s1)"

subsection \<open>Dumps of buffers\<close>

definition hex64_str :: "u64 \<Rightarrow> string" where "hex64_str w = digits 16 (unat w)"

definition nat_str :: "nat \<Rightarrow> string" where "nat_str n = digits 10 n"

definition snprintf_limit :: "nat \<Rightarrow> string \<Rightarrow> string" where
  "snprintf_limit n t = take (n - 1) t"

definition dump_fname :: "graph \<Rightarrow> job_desc \<Rightarrow> string \<Rightarrow> string \<Rightarrow> u64 \<Rightarrow> string \<Rightarrow> string" where
  "dump_fname g job interfix what base sz =
     snprintf_limit 4096 (jd_dump_dir job @ ''/Graph0x'' @ hex_str (gd_id (gr_gdesc g)) @ ''_Job0x'' @ hex_str (jd_id job) @
       ''_'' @ interfix @ ''_'' @ what @ ''_Base0x'' @ hex64_str base @ ''_Size0x'' @ sz @ ''_'' @
       jd_dump_fname_suffix job @ ''.bin'')"

definition tabs :: "nat \<Rightarrow> string" where "tabs n = replicate n (CHR 0x09)"

definition AIPU_DUMP_TEXT :: u32 where "AIPU_DUMP_TEXT = 0x1"
definition AIPU_DUMP_RO :: u32 where "AIPU_DUMP_RO = 0x2"
definition AIPU_DUMP_STACK :: u32 where "AIPU_DUMP_STACK = 0x4"
definition AIPU_DUMP_STATIC_TENSOR :: u32 where "AIPU_DUMP_STATIC_TENSOR = 0x8"
definition AIPU_DUMP_REUSE_TENSOR :: u32 where "AIPU_DUMP_REUSE_TENSOR = 0x10"
definition AIPU_DUMP_INTER_TENSOR :: u32 where "AIPU_DUMP_INTER_TENSOR = 0x40"

text \<open>A file to write: its name, where the bytes are, and how many.\<close>

definition dump_buf :: "device_ctrl \<Rightarrow> graph \<Rightarrow> job_desc \<Rightarrow> string \<Rightarrow> string \<Rightarrow> buffer_desc \<Rightarrow> string \<times> addr \<times> u32" where
  "dump_buf c g job interfix what b =
     (dump_fname g job interfix what (bu_pa b - host_aipu_shm_offset c) (hex64_str (bu_real_size b)),
      bu_va b, ucast (bu_real_size b))"

definition dump_tensor :: "device_ctrl \<Rightarrow> graph \<Rightarrow> job_desc \<Rightarrow> string \<Rightarrow> string \<Rightarrow> io_buffer \<Rightarrow> string \<times> addr \<times> u32" where
  "dump_tensor c g job interfix what b =
     (dump_fname g job interfix what (iob_pa b - host_aipu_shm_offset c) (hex_str (iob_size b)), iob_va b, iob_size b)"

definition dump_each :: "(string \<Rightarrow> 'a \<Rightarrow> string \<times> addr \<times> u32) \<Rightarrow> string \<Rightarrow> 'a list \<Rightarrow> (string \<times> addr \<times> u32) list" where
  "dump_each d what bs = map (\<lambda>(i, b). d (what @ nat_str i) b) (enumerate 0 bs)"

definition dump_list :: "device_ctrl \<Rightarrow> graph \<Rightarrow> job_desc \<Rightarrow> tbuf_info \<Rightarrow> string \<Rightarrow> (string \<times> addr \<times> u32) list" where
  "dump_list c g job tbuf interfix =
     (if jd_dump_flag job AND AIPU_DUMP_TEXT \<noteq> 0 then [dump_buf c g job interfix ''Text_Section'' (pb_text (gr_pbuf g))] else []) @
     (if jd_dump_flag job AND AIPU_DUMP_RO \<noteq> 0 then [dump_buf c g job interfix ''Rodata_Section'' (tb_rodata tbuf)] else []) @
     (if jd_dump_flag job AND AIPU_DUMP_STACK \<noteq> 0 then [dump_buf c g job interfix ''Stack_Section'' (tb_stack tbuf)] else []) @
     (if jd_dump_flag job AND AIPU_DUMP_STATIC_TENSOR \<noteq> 0
      then dump_each (dump_buf c g job interfix) ''Static_Section'' (pb_static_buf (gr_pbuf g)) else []) @
     (if jd_dump_flag job AND AIPU_DUMP_REUSE_TENSOR \<noteq> 0
      then dump_each (dump_buf c g job interfix) ''Reuse_Section'' (tb_reuse_buf tbuf) else []) @
     (if jd_dump_flag job AND AIPU_DUMP_OUT_TENSOR \<noteq> 0 \<and> hd interfix = CHR ''A''
      then dump_each (dump_tensor c g job interfix) ''OutTensor'' (iob_outputs (tb_iobuf tbuf)) else []) @
     (if jd_dump_flag job AND AIPU_DUMP_INTER_TENSOR \<noteq> 0 \<and> hd interfix = CHR ''A''
      then dump_each (dump_tensor c g job interfix) ''InterTensor'' (iob_inter_dumps (tb_iobuf tbuf)) else [])"

fun dump_files :: "(nat \<Rightarrow> file_answer) \<Rightarrow> proc \<Rightarrow> (string \<times> addr \<times> u32) list \<Rightarrow> ufiles \<Rightarrow> ufiles" where
  "dump_files e p [] s = s"
| "dump_files e p ((fname, va, sz) # ds) s = dump_files e p ds (snd (umd_dump_file_helper e p fname va sz s))"

definition dump_job_buffers ::
  "(nat \<Rightarrow> file_answer) \<Rightarrow> device_ctrl \<Rightarrow> graph \<Rightarrow> job_desc \<Rightarrow> tbuf_info \<Rightarrow> string \<Rightarrow> proc \<Rightarrow> ufiles \<Rightarrow> ufiles" where
  "dump_job_buffers e c g job tbuf interfix p s = dump_files e p (dump_list c g job tbuf interfix) s"

subsection \<open>The memory map\<close>

record mem_dump_buffer_desc =
  md_dev_pa :: u64
  md_req_size :: u32
  md_buf_size :: u32

definition mem_dump :: "device_ctrl \<Rightarrow> buffer_desc \<Rightarrow> mem_dump_buffer_desc" where
  "mem_dump c b = \<lparr>md_dev_pa = bu_pa b - host_aipu_shm_offset c, md_req_size = ucast (bu_real_size b), md_buf_size = ucast (bu_size b)\<rparr>"

definition hex16_str :: "u64 \<Rightarrow> string" where
  "hex16_str w = replicate (16 - length (hex64_str w)) CHR ''0'' @ hex64_str w"

definition map_total :: "string \<Rightarrow> u32 \<Rightarrow> u32 \<Rightarrow> string" where
  "map_total what req alloc = left_pad 8 what @ ''0x'' @ hex_str req @ ''/0x'' @ hex_str alloc @ ''\<newline>''"

definition map_line :: "nat \<Rightarrow> string \<Rightarrow> nat \<Rightarrow> mem_dump_buffer_desc \<Rightarrow> string" where
  "map_line no type i m = left_pad 4 (nat_str no) @ left_pad 8 type @ left_pad 4 (nat_str i) @
     ''[0x'' @ hex16_str (md_dev_pa m) @ '', 0x'' @ hex16_str (md_dev_pa m + ucast (md_req_size m) - 1) @ '']  0x'' @
     left_pad 10 (hex_str (md_req_size m)) @ ''0x'' @ left_pad 10 (hex_str (md_buf_size m)) @ ''\<newline>''"

text \<open>The text of the map; the group of the static and of the reuse buffers is one allocation.\<close>

definition mem_map_text :: "device_ctrl \<Rightarrow> graph \<Rightarrow> job_desc \<Rightarrow> tbuf_info \<Rightarrow> string" where
  "mem_map_text c g job tbuf =
     (let text_mem = mem_dump c (pb_text (gr_pbuf g)); rodata_mem = mem_dump c (tb_rodata tbuf);
          stack_mem = mem_dump c (tb_stack tbuf);
          weight_mem = map (mem_dump c) (pb_static_buf (gr_pbuf g)); reuse_mem = map (mem_dump c) (tb_reuse_buf tbuf);
          weight_req = sum_list (map md_req_size weight_mem); weight_buf = ucast (bu_size (pb_static_group (gr_pbuf g)));
          reuse_req = sum_list (map md_req_size reuse_mem); reuse_buf = ucast (bu_size (tb_reuse_group tbuf));
          req_mem = md_req_size text_mem + md_req_size rodata_mem + md_req_size stack_mem + weight_req + reuse_req;
          tot_mem = md_buf_size text_mem + md_buf_size rodata_mem + md_buf_size stack_mem + weight_buf + reuse_buf
      in tabs 3 @ ''AIPU UMD Memory Map Dump\<newline>'' @ umd_draw_line_helper CHR ''='' 80 @
         ''Graph ID: 0x'' @ hex_str (gd_id (gr_gdesc g)) @ ''\<newline>'' @ ''Job ID:   0x'' @ hex_str (jd_id job) @ ''\<newline>'' @
         ''\<newline>'' @ left_pad 8 ''Memory'' @ left_pad 30 ''Requested/Allocated (Bytes)'' @ ''\<newline>'' @
         umd_draw_line_helper CHR ''-'' 40 @ map_total ''Total'' req_mem tot_mem @
         map_total ''Text'' (md_req_size text_mem) (md_buf_size text_mem) @
         map_total ''Rodata'' (md_req_size rodata_mem) (md_buf_size rodata_mem) @
         map_total ''Stack'' (md_req_size stack_mem) (md_buf_size stack_mem) @
         map_total ''Static'' weight_req weight_buf @ map_total ''Reuse'' reuse_req reuse_buf @
         umd_draw_line_helper CHR ''-'' 40 @ ''\<newline>'' @ tabs 2 @ ''Detailed Buffer Allocation Information\<newline>'' @
         umd_draw_line_helper CHR ''-'' 80 @
         left_pad 4 ''No.'' @ left_pad 8 ''Type'' @ left_pad 4 ''ID'' @ left_pad 42 ''Valid Address Space'' @
         left_pad 12 ''Requested'' @ left_pad 10 ''Allocated'' @ ''\<newline>'' @ umd_draw_line_helper CHR ''-'' 80 @
         map_line 0 ''text'' 0 text_mem @ map_line 1 ''rodata'' 0 rodata_mem @ map_line 2 ''stack'' 0 stack_mem @
         concat (map (\<lambda>(i, m). map_line (3 + i) ''static'' i m) (enumerate 0 weight_mem)) @
         concat (map (\<lambda>(i, m). map_line (3 + length weight_mem + i) ''reuse'' i m) (enumerate 0 reuse_mem)) @
         umd_draw_line_helper CHR ''-'' 80 @ umd_draw_line_helper CHR ''='' 80)"

definition dump_job_mem_map ::
  "(nat \<Rightarrow> file_answer) \<Rightarrow> device_ctrl \<Rightarrow> graph \<Rightarrow> job_desc \<Rightarrow> tbuf_info \<Rightarrow> ufiles \<Rightarrow> ufiles" where
  "dump_job_mem_map e c g job tbuf s =
     write_text e (snprintf_limit 4096 (jd_dump_dir job @ ''/Graph0x'' @ hex_str (gd_id (gr_gdesc g)) @ ''_Job0x'' @
       hex_str (jd_id job) @ ''_Mem_Map_'' @ jd_dump_fname_suffix job @ ''.txt'')) (mem_map_text c g job tbuf) s"


text \<open>The dumps of \<open>flush_job\<close>, before the job is submitted. A job always has its buffer.\<close>

definition flush_dumps ::
  "(nat \<Rightarrow> file_answer) \<Rightarrow> device_ctrl \<Rightarrow> u32 \<Rightarrow> graph \<Rightarrow> proc \<Rightarrow> ufiles \<Rightarrow> ufiles option" where
  "flush_dumps e c jid g p s =
     (case get_job_ptr g jid of
        None \<Rightarrow> Some s
      | Some job \<Rightarrow>
          if jd_state job \<noteq> JOB_STATE_BUILT then Some s
          else do {
            s1 \<leftarrow> (if jd_dump_flag job AND AIPU_DUMP_BEFORE_RUN \<noteq> 0
                   then Some (case get_tbuf_ptr g (jd_buf_handle job) of
                          None \<Rightarrow> s | Some tbuf \<Rightarrow> dump_job_buffers e c g job tbuf ''Before_Run'' p s)
                   else Some s);
            if jd_dump_flag job AND AIPU_DUMP_MEM_MAP \<noteq> 0
            then do { tbuf \<leftarrow> get_tbuf_ptr g (jd_buf_handle job); Some (dump_job_mem_map e c g job tbuf s1) }
            else Some s1
          })"

subsection \<open>After the run\<close>

text \<open>\<open>ms\<close>: how a number of nanoseconds is printed in milliseconds with three decimals.\<close>

definition prof_text :: "(int \<Rightarrow> string) \<Rightarrow> graph \<Rightarrow> job_desc \<Rightarrow> string" where
  "prof_text ms g job =
     (let d = jd_pdata job; w64 = (\<lambda>msb lsb. push_bit 32 (ucast msb) + ucast lsb)
      in tabs 1 @ ''AIPU KMD Profiling Data Dump\<newline>'' @ umd_draw_line_helper CHR ''='' 40 @
         ''Graph ID: 0x'' @ hex_str (gd_id (gr_gdesc g)) @ ''\<newline>'' @ ''Job ID:   0x'' @ hex_str (jd_id job) @ ''\<newline>'' @
         ''Time Consuming: '' @ ms (execution_time_ns d) @ ''ms\<newline>'' @
         ''\<newline>'' @ tabs 1 @ ''Profiling Register Value(s)\<newline>'' @ umd_draw_line_helper CHR ''-'' 40 @
         ''TOT RDATA: 0x'' @ hex16_str (w64 (rdata_tot_msb d) (rdata_tot_lsb d)) @ ''\<newline>'' @
         ''TOT WDATA: 0x'' @ hex16_str (w64 (wdata_tot_msb d) (wdata_tot_lsb d)) @ ''\<newline>'' @
         ''TOT CYCLE: 0x'' @ hex16_str (w64 (tot_cycle_msb d) (tot_cycle_lsb d)) @ ''\<newline>'' @
         umd_draw_line_helper CHR ''-'' 40 @ umd_draw_line_helper CHR ''='' 40)"

text \<open>The directory is copied into an array of 1024 characters; a longer one runs over its end.\<close>

definition dump_end_job_buffers ::
  "(nat \<Rightarrow> file_answer) \<Rightarrow> (int \<Rightarrow> string) \<Rightarrow> device_ctrl \<Rightarrow> u32 \<Rightarrow> graph \<Rightarrow> proc \<Rightarrow> ufiles \<Rightarrow> ufiles option" where
  "dump_end_job_buffers e ms c jid g p s =
     (case get_job_ptr g jid of
        None \<Rightarrow> Some s
      | Some job \<Rightarrow>
          (case get_tbuf_ptr g (jd_buf_handle job) of
             None \<Rightarrow> Some s
           | Some tbuf \<Rightarrow>
               let s1 = (if jd_dump_flag job AND AIPU_DUMP_AFTER_RUN \<noteq> 0
                         then dump_job_buffers e c g job tbuf ''After_Run'' p s else s);
                   dump_dir = (if jd_dump_flag job = 0 then ''.'' else jd_dump_dir job)
               in if 1024 \<le> length dump_dir then None
                  else if jd_dump_flag job AND AIPU_DUMP_DRV_PROF_DATA \<noteq> 0
                  then Some (write_text e (snprintf_limit 4096 (dump_dir @ ''/Graph0x'' @ hex_str (gd_id (gr_gdesc g)) @
                         ''_Job0x'' @ hex_str (jd_id job) @ ''_DriverProfilingData_'' @ jd_dump_fname_suffix job @ ''.txt''))
                         (prof_text ms g job) s1)
                  else Some s1))"

end
