(* ===== verification/UmdPrintf.thy ===== *)
theory UmdPrintf
  imports UmdDump
begin

text \<open>
  The output of the log buffers that a job fills (\<open>printf/aipu_printf.cpp\<close>), and
  \<open>AIPU_printf\<close> (\<open>standard_api_impl.cpp\<close>) over a list of them. A log buffer is a header of
  8 bytes and a ring: when its end is reached the flag is set and writing starts again
  from the front. The log goes to the terminal or to a file.
\<close>

subsection \<open>State\<close>

text \<open>
  What the terminal got, the contents of the file, and the number of open descriptors for it.
  The system answers a call of \<open>open\<close>, and each \<open>write\<close> of a dump, with a number that is negative on
  failure; a write stores at most that many bytes.
\<close>

record pio =
  pi_proc :: proc
  pi_term :: "u8 list"
  pi_file :: "u8 list"
  pi_fds :: nat

record file_answers =
  pe_open :: int
  pe_write :: "nat \<Rightarrow> int"

definition LOG_HEADER_SZ :: nat where "LOG_HEADER_SZ = 8"
definition BUFFER_LEN :: nat where "BUFFER_LEN = 1024 * 1024"

text \<open>\<open>aipu_log_buffer_header_t\<close> holds two signed numbers.\<close>

definition overwrite_flag :: "addr \<Rightarrow> pio \<Rightarrow> int option" where
  "overwrite_flag header s = map_option sint (ux_load32 (pi_proc s) header)"

definition write_offset :: "addr \<Rightarrow> pio \<Rightarrow> int option" where
  "write_offset header s = map_option sint (ux_load32 (pi_proc s) (header + 4))"

text \<open>A pointer below address 0 is a fault.\<close>

definition ptr_add :: "addr \<Rightarrow> int \<Rightarrow> addr option" where
  "ptr_add a i = (if int a + i < 0 then None else Some (nat (int a + i)))"

subsection \<open>Output\<close>

text \<open>The string from an address up to the null character.\<close>

partial_function (option) c_string :: "proc \<Rightarrow> addr \<Rightarrow> u8 list option" where
  "c_string p a = Option.bind (ux_load p a)
     (\<lambda>b. if b = 0 then Some [] else Option.bind (c_string p (a + 1)) (\<lambda>s. Some (b # s)))"

definition put_term :: "u8 list \<Rightarrow> pio \<Rightarrow> pio" where
  "put_term bs s = s\<lparr>pi_term := pi_term s @ bs\<rparr>"

text \<open>Printing a range: the byte behind it is replaced by a null character and restored.\<close>

definition print_until :: "addr \<Rightarrow> addr \<Rightarrow> pio \<Rightarrow> (u8 \<times> pio) option" where
  "print_until start_log_base end_pos s = do {
     end_char \<leftarrow> ux_load (pi_proc s) end_pos;
     p1 \<leftarrow> ux_store end_pos 0 (pi_proc s);
     str \<leftarrow> c_string p1 start_log_base;
     p2 \<leftarrow> ux_store end_pos end_char p1;
     Some (end_char, put_term str (s\<lparr>pi_proc := p2\<rparr>))
   }"

definition overwrite_at :: "nat \<Rightarrow> u8 list \<Rightarrow> u8 list \<Rightarrow> u8 list" where
  "overwrite_at pos bs f = take pos f @ bs @ drop (pos + length bs) f"

text \<open>A count that is negative as an \<open>int\<close> is a huge \<open>size_t\<close>.\<close>

definition size_t_of :: "int \<Rightarrow> nat" where
  "size_t_of n = nat (n mod 2 ^ 64)"

definition sys_write :: "int \<Rightarrow> addr \<Rightarrow> nat \<Rightarrow> nat \<Rightarrow> pio \<Rightarrow> int \<times> nat \<times> pio" where
  "sys_write answer a count pos s =
     (let bs = mapped_bytes (pi_proc s) a count
      in if answer < 0 \<or> (bs = [] \<and> count \<noteq> 0) then (-1, pos, s)
         else let w = take (nat answer) bs
              in (int (length w), pos + length w, s\<lparr>pi_file := overwrite_at pos w (pi_file s)\<rparr>))"

definition close_file :: "pio \<Rightarrow> pio" where
  "close_file s = s\<lparr>pi_fds := pi_fds s - 1\<rparr>"

subsection \<open>The four dumps\<close>

definition term_linear :: "addr \<Rightarrow> pio \<Rightarrow> (int \<times> pio) option" where
  "term_linear base s = do {
     off \<leftarrow> write_offset base s;
     end_pos \<leftarrow> ptr_add (base + LOG_HEADER_SZ) off;
     (_, s1) \<leftarrow> print_until (base + LOG_HEADER_SZ) end_pos s;
     ret \<leftarrow> write_offset base s1;
     Some (ret, s1)
   }"

definition file_linear :: "file_answers \<Rightarrow> addr \<Rightarrow> pio \<Rightarrow> (int \<times> pio) option" where
  "file_linear e base s = do {
     off \<leftarrow> write_offset base s;
     let (ret, _, s1) = sys_write (pe_write e 0) (base + LOG_HEADER_SZ) (size_t_of off) 0 s;
     Some (if ret < 0 then ret else off, close_file s1)
   }"

definition term_ring :: "addr \<Rightarrow> pio \<Rightarrow> (int \<times> pio) option" where
  "term_ring base s = do {
     off \<leftarrow> write_offset base s;
     start_log_base \<leftarrow> ptr_add (base + LOG_HEADER_SZ) off;
     (end_char, s1) \<leftarrow> print_until start_log_base (base + BUFFER_LEN - 1) s;
     let s2 = put_term [end_char] s1;
     off2 \<leftarrow> write_offset base s2;
     s3 \<leftarrow> if off2 \<noteq> 0
           then do { end_pos \<leftarrow> ptr_add (base + LOG_HEADER_SZ) off2;
                     (_, s3) \<leftarrow> print_until (base + LOG_HEADER_SZ) end_pos s2;
                     Some s3 }
           else Some s2;
     Some (int (BUFFER_LEN - LOG_HEADER_SZ), s3)
   }"

definition file_ring :: "file_answers \<Rightarrow> addr \<Rightarrow> pio \<Rightarrow> (int \<times> pio) option" where
  "file_ring e base s = do {
     off \<leftarrow> write_offset base s;
     start_log_base \<leftarrow> ptr_add (base + LOG_HEADER_SZ) off;
     let (ret, pos, s1) = sys_write (pe_write e 0) start_log_base
           (size_t_of (int BUFFER_LEN - int LOG_HEADER_SZ - off)) 0 s;
     if ret < 0 then Some (ret, close_file s1)
     else if off \<noteq> 0
     then let (ret, _, s2) = sys_write (pe_write e 1) (base + LOG_HEADER_SZ) (size_t_of off) pos s1
          in Some (if ret < 0 then ret else int (BUFFER_LEN - LOG_HEADER_SZ), close_file s2)
     else Some (int (BUFFER_LEN - LOG_HEADER_SZ), close_file s1)
   }"

text \<open>\<open>redirect\<close>: a file is given. It is opened without truncation.\<close>

definition aipu_printf :: "file_answers \<Rightarrow> addr \<Rightarrow> bool \<Rightarrow> pio \<Rightarrow> (int \<times> pio) option" where
  "aipu_printf e base redirect s =
     (if redirect \<and> pe_open e < 0 then Some (0, s)
      else do {
        let s1 = (if redirect then s\<lparr>pi_fds := pi_fds s + 1\<rparr> else s);
        flag \<leftarrow> overwrite_flag base s1;
        off \<leftarrow> write_offset base s1;
        if flag = 0 \<and> off \<noteq> 0 then (if redirect then file_linear e base s1 else term_linear base s1)
        else if flag = 1 then (if redirect then file_ring e base s1 else term_ring base s1)
        else Some (0, s1)
      })"

text \<open>One dump for each tensor, each with its own answers of the system.\<close>

fun printf_loop :: "(nat \<Rightarrow> file_answers) \<Rightarrow> nat \<Rightarrow> io_buffer list \<Rightarrow> bool \<Rightarrow> pio \<Rightarrow> (aipu_status \<times> pio) option" where
  "printf_loop e i [] redirect s = Some (AIPU_STATUS_SUCCESS, s)"
| "printf_loop e i (t # ts) redirect s =
     (if iob_va t \<noteq> 0
      then do { (_, s1) \<leftarrow> aipu_printf (e i) (iob_va t) redirect s; printf_loop e (i + 1) ts redirect s1 }
      else Some (AIPU_STATUS_ERROR_NULL_PTR, s))"

definition AIPU_printf ::
  "(nat \<Rightarrow> file_answers) \<Rightarrow> io_buffer list option \<Rightarrow> bool \<Rightarrow> pio \<Rightarrow> (aipu_status \<times> pio) option" where
  "AIPU_printf e printf_dumps redirect s =
     (case printf_dumps of
        None \<Rightarrow> Some (AIPU_STATUS_ERROR_NULL_PTR, s)
      | Some ts \<Rightarrow> printf_loop e 0 ts redirect s)"

end
