(* ===== verification/UmdDumpSpec.thy ===== *)
theory UmdDumpSpec
  imports UmdDump UmdBuild UmdDevSpec
begin

text \<open>
  The dumps of the buffers of a job: what the bits of its flags ask for, that every file has a
  name of its own, and that it holds exactly the bytes of its buffer.
\<close>

subsection \<open>Numbers in names\<close>

fun digit_val :: "char \<Rightarrow> nat" where
  "digit_val c = (let n = of_char c in if n < 58 then n - 48 else n - 87)"

definition digits_val :: "nat \<Rightarrow> string \<Rightarrow> nat" where
  "digits_val b s = foldl (\<lambda>n c. b * n + digit_val c) 0 s"

lemma hex_digit_val: "d < 16 \<Longrightarrow> digit_val (hex_digit d) = d"
  by (auto simp: hex_digit_def Let_def)

lemma digits_val_digits: "2 \<le> b \<Longrightarrow> b \<le> 16 \<Longrightarrow> digits_val b (digits b n) = n"
proof (induction b n rule: digits.induct)
  case (1 b n)
  show ?case
  proof (cases "n < b")
    case True
    then show ?thesis using 1(3) by (subst digits.simps) (simp add: digits_val_def hex_digit_val del: digit_val.simps)
  next
    case False
    have d: "digit_val (hex_digit (n mod b)) = n mod b" by (rule hex_digit_val) (use 1(2,3) mod_less_divisor [of b n] in linarith)
    have "digits_val b (digits b (n div b)) = n div b" using "1.IH" False 1(2,3) by simp
    then show ?thesis using False 1(2) d by (subst digits.simps) (simp add: digits_val_def del: digit_val.simps)
  qed
qed

lemma nat_str_inj: "nat_str i = nat_str j \<Longrightarrow> i = j"
  unfolding nat_str_def proof -
  assume e: "digits 10 i = digits 10 j"
  have "digits_val 10 (digits 10 k) = k" for k by (rule digits_val_digits) simp_all
  then show "i = j" using e by metis
qed

lemma hex_digit_no_bar: "d < 16 \<Longrightarrow> hex_digit d \<noteq> CHR ''_''"
proof
  assume d: "d < 16" "hex_digit d = CHR ''_''"
  have "of_char (hex_digit d) = (if d < 10 then 48 + d else 87 + d)" using d(1) by (simp add: hex_digit_def)
  then have "(if d < 10 then 48 + d else 87 + d) = 95" using d(2) by simp
  then show False using d(1) by (auto split: if_splits)
qed

lemma digits_no_bar: "2 \<le> b \<Longrightarrow> b \<le> 16 \<Longrightarrow> CHR ''_'' \<notin> set (digits b n)"
proof (induction b n rule: digits.induct)
  case (1 b n)
  have d: "k < b \<Longrightarrow> hex_digit k \<noteq> CHR ''_''" for k using 1(3) hex_digit_no_bar by simp
  show ?case using "1.IH" 1(2,3) d [of n] d [of "n mod b"] by (subst digits.simps) auto
qed

lemma nat_str_no_bar: "CHR ''_'' \<notin> set (nat_str n)"
  by (simp add: nat_str_def digits_no_bar)

text \<open>A number and a bar determine the number.\<close>

lemma nat_str_bar: "nat_str i @ CHR ''_'' # x = nat_str j @ CHR ''_'' # y \<Longrightarrow> i = j"
proof (rule nat_str_inj)
  assume e: "nat_str i @ CHR ''_'' # x = nat_str j @ CHR ''_'' # y"
  have "takeWhile (\<lambda>c. c \<noteq> CHR ''_'') (nat_str k @ CHR ''_'' # z) = nat_str k" for k z
    using nat_str_no_bar [of k] by (subst takeWhile_append2) auto
  then show "nat_str i = nat_str j" using arg_cong [OF e, of "takeWhile (\<lambda>c. c \<noteq> CHR ''_'')"] by simp
qed


subsection \<open>Names of dumps\<close>

text \<open>A name is a common front, what is dumped, a bar, and a rest, cut to the size of the array.\<close>

definition named_as :: "string \<Rightarrow> string \<Rightarrow> string \<Rightarrow> bool" where
  "named_as front what n \<longleftrightarrow> (\<exists>rest. n = take 4095 (front @ what @ CHR ''_'' # rest))"

lemma named_asD: "named_as front what n \<Longrightarrow> length n < 4095 \<Longrightarrow> \<exists>rest. n = front @ what @ CHR ''_'' # rest"
  by (auto simp: named_as_def)

lemma named_as_inj:
  assumes "named_as front (w @ nat_str i) n" "named_as front (w @ nat_str j) n" "length n < 4095"
  shows "i = j"
proof -
  obtain x y where "n = front @ (w @ nat_str i) @ CHR ''_'' # x" "n = front @ (w @ nat_str j) @ CHR ''_'' # y"
    using named_asD [OF assms(1,3)] named_asD [OF assms(2,3)] by blast
  then have "nat_str i @ CHR ''_'' # x = nat_str j @ CHR ''_'' # y" by simp
  then show ?thesis by (rule nat_str_bar)
qed

text \<open>Which kind of dump a name stands for.\<close>

definition dump_kind :: "string \<Rightarrow> string \<Rightarrow> nat" where
  "dump_kind front n = (let s = drop (length front) n in
     if take 1 s = ''T'' then 0 else if take 2 s = ''Ro'' then 1 else if take 4 s = ''Stac'' then 2
     else if take 4 s = ''Stat'' then 3 else if take 2 s = ''Re'' then 4 else if take 1 s = ''O'' then 5 else 6)"

definition dump_whats :: "string list" where
  "dump_whats = [''Text_Section'', ''Rodata_Section'', ''Stack_Section'', ''Static_Section'', ''Reuse_Section'', ''OutTensor'', ''InterTensor'']"

lemma dump_kind_front: "dump_kind front (front @ s) =
    (if take 1 s = ''T'' then 0 else if take 2 s = ''Ro'' then 1 else if take 4 s = ''Stac'' then 2
     else if take 4 s = ''Stat'' then 3 else if take 2 s = ''Re'' then 4 else if take 1 s = ''O'' then 5 else 6)"
proof -
  have "drop (length front) (front @ s) = s" by simp
  then show ?thesis unfolding dump_kind_def Let_def by (simp only:)
qed

lemma dump_kinds:
  "dump_kind front (front @ ''Text_Section'' @ w) = 0" "dump_kind front (front @ ''Rodata_Section'' @ w) = 1"
  "dump_kind front (front @ ''Stack_Section'' @ w) = 2" "dump_kind front (front @ ''Static_Section'' @ w) = 3"
  "dump_kind front (front @ ''Reuse_Section'' @ w) = 4" "dump_kind front (front @ ''OutTensor'' @ w) = 5"
  "dump_kind front (front @ ''InterTensor'' @ w) = 6"
  unfolding dump_kind_front by simp_all

lemma dump_whats_nth:
  "dump_whats ! 0 = ''Text_Section''" "dump_whats ! 1 = ''Rodata_Section''" "dump_whats ! 2 = ''Stack_Section''"
  "dump_whats ! 3 = ''Static_Section''" "dump_whats ! 4 = ''Reuse_Section''" "dump_whats ! 5 = ''OutTensor''"
  "dump_whats ! 6 = ''InterTensor''"
  by (simp_all add: dump_whats_def)

lemma dump_kind_of:
  assumes "k < length dump_whats" "named_as front (dump_whats ! k @ w) n" "length n < 4095"
  shows "dump_kind front n = k"
proof -
  obtain rest where n: "n = front @ dump_whats ! k @ w @ CHR ''_'' # rest" using named_asD [OF assms(2,3)] by auto
  have "k \<in> {0, 1, 2, 3, 4, 5, 6}" using assms(1) by (auto simp: dump_whats_def)
  then show ?thesis unfolding n by (elim insertE emptyE; hypsubst_thin; simp only: dump_whats_nth dump_kinds)
qed

lemma distinct_segments:
  assumes "\<And>k. k < length xss \<Longrightarrow> distinct (xss ! k) \<and> (\<forall>x \<in> set (xss ! k). kind x = k)"
  shows "distinct (concat xss)"
  using assms
proof (induction xss rule: rev_induct)
  case (snoc xs xss)
  have k: "k < length xss \<Longrightarrow> distinct (xss ! k) \<and> (\<forall>x \<in> set (xss ! k). kind x = k)" for k
    using snoc.prems [of k] by (simp add: nth_append)
  have l: "distinct xs" "\<forall>x \<in> set xs. kind x = length xss" using snoc.prems [of "length xss"] by simp_all
  have "x \<notin> set xs" if x: "x \<in> set (concat xss)" for x
  proof -
    obtain ys where "ys \<in> set xss" "x \<in> set ys" using x by auto
    then obtain i where "i < length xss" "x \<in> set (xss ! i)" by (auto simp: in_set_conv_nth [of ys])
    then show ?thesis using k [of i] l(2) by auto
  qed
  then show ?case using snoc.IH [OF k] l(1) by auto
qed simp

definition dump_front :: "graph \<Rightarrow> job_desc \<Rightarrow> string \<Rightarrow> string" where
  "dump_front g job interfix = jd_dump_dir job @ ''/Graph0x'' @ hex_str (gd_id (gr_gdesc g)) @ ''_Job0x'' @ hex_str (jd_id job) @
     ''_'' @ interfix @ ''_''"

lemma dump_fname_named: "named_as (dump_front g job interfix) what (dump_fname g job interfix what base sz)"
  unfolding named_as_def dump_fname_def dump_front_def snprintf_limit_def
  by (rule exI [of _ "''Base0x'' @ hex64_str base @ ''_Size0x'' @ sz @ ''_'' @ jd_dump_fname_suffix job @ ''.bin''"]) simp

lemma dump_named:
  "named_as (dump_front g job interfix) what (fst (dump_buf c g job interfix what b))"
  "named_as (dump_front g job interfix) what (fst (dump_tensor c g job interfix what t))"
  by (simp_all add: dump_buf_def dump_tensor_def dump_fname_named)

lemma dump_each_named:
  assumes "\<And>w b. named_as front w (fst (d w b))" "\<forall>x \<in> set (dump_each d what bs). length (fst x) < 4095"
  shows "distinct (map fst (dump_each d what bs))" "x \<in> set (dump_each d what bs) \<Longrightarrow> \<exists>w. named_as front (what @ w) (fst x)"
proof -
  have "inj_on (\<lambda>(i, b). fst (d (what @ nat_str i) b)) (set (enumerate 0 bs))"
  proof (rule inj_onI, clarify)
    fix i a j b assume m: "(i, a) \<in> set (enumerate 0 bs)" "(j, b) \<in> set (enumerate 0 bs)"
      and e: "fst (d (what @ nat_str i) a) = fst (d (what @ nat_str j) b)"
    have "d (what @ nat_str i) a \<in> set (dump_each d what bs)" using m(1) by (force simp: dump_each_def)
    then have l: "length (fst (d (what @ nat_str i) a)) < 4095" using assms(2) by blast
    have "i = j" by (rule named_as_inj [OF assms(1) _ l]) (simp add: e assms(1))
    then show "i = j \<and> a = b" using m by (auto simp: in_set_enumerate_eq)
  qed
  then show "distinct (map fst (dump_each d what bs))"
    by (simp add: dump_each_def distinct_map o_def split_def distinct_enumerate)
  show "\<exists>w. named_as front (what @ w) (fst x)" if "x \<in> set (dump_each d what bs)"
    using that assms(1) by (auto simp: dump_each_def)
qed

text \<open>The dumps by kind.\<close>

definition segment :: "bool \<Rightarrow> 'a list \<Rightarrow> 'a list" where
  "segment b xs = (if b then xs else [])"

definition dump_segments :: "device_ctrl \<Rightarrow> graph \<Rightarrow> job_desc \<Rightarrow> tbuf_info \<Rightarrow> string \<Rightarrow> (string \<times> addr \<times> u32) list list" where
  "dump_segments c g job tbuf interfix =
     [segment (jd_dump_flag job AND AIPU_DUMP_TEXT \<noteq> 0) [dump_buf c g job interfix ''Text_Section'' (pb_text (gr_pbuf g))],
      segment (jd_dump_flag job AND AIPU_DUMP_RO \<noteq> 0) [dump_buf c g job interfix ''Rodata_Section'' (tb_rodata tbuf)],
      segment (jd_dump_flag job AND AIPU_DUMP_STACK \<noteq> 0) [dump_buf c g job interfix ''Stack_Section'' (tb_stack tbuf)],
      segment (jd_dump_flag job AND AIPU_DUMP_STATIC_TENSOR \<noteq> 0)
        (dump_each (dump_buf c g job interfix) ''Static_Section'' (pb_static_buf (gr_pbuf g))),
      segment (jd_dump_flag job AND AIPU_DUMP_REUSE_TENSOR \<noteq> 0)
        (dump_each (dump_buf c g job interfix) ''Reuse_Section'' (tb_reuse_buf tbuf)),
      segment (jd_dump_flag job AND AIPU_DUMP_OUT_TENSOR \<noteq> 0 \<and> hd interfix = CHR ''A'')
        (dump_each (dump_tensor c g job interfix) ''OutTensor'' (iob_outputs (tb_iobuf tbuf))),
      segment (jd_dump_flag job AND AIPU_DUMP_INTER_TENSOR \<noteq> 0 \<and> hd interfix = CHR ''A'')
        (dump_each (dump_tensor c g job interfix) ''InterTensor'' (iob_inter_dumps (tb_iobuf tbuf)))]"

lemma dump_list_segments: "dump_list c g job tbuf interfix = concat (dump_segments c g job tbuf interfix)"
  by (simp only: dump_list_def dump_segments_def segment_def concat.simps append_Nil2)

text \<open>A segment of its kind: different names, all of that kind.\<close>

definition kind_ok :: "string \<Rightarrow> string \<Rightarrow> (string \<times> addr \<times> u32) list \<Rightarrow> bool" where
  "kind_ok front what xs \<longleftrightarrow> (\<forall>x \<in> set xs. length (fst x) < 4095) \<longrightarrow>
     distinct (map fst xs) \<and> (\<forall>x \<in> set xs. \<exists>w. named_as front (what @ w) (fst x))"

lemma kind_ok_one: "kind_ok (dump_front g job interfix) what (segment b [dump_buf c g job interfix what x])"
  using dump_named(1) [of g job interfix "what @ []"] by (auto simp: kind_ok_def segment_def intro!: exI [of _ "[]"])

lemma kind_ok_each:
  assumes "\<And>w z. named_as front w (fst (d w z))"
  shows "kind_ok front what (segment b (dump_each d what bs))"
proof (cases b)
  case True
  have "distinct (map fst (dump_each d what bs)) \<and> (\<forall>x \<in> set (dump_each d what bs). \<exists>w. named_as front (what @ w) (fst x))"
    if "\<forall>x \<in> set (dump_each d what bs). length (fst x) < 4095"
    using dump_each_named [where front = front and d = d and what = what and bs = bs, OF assms that] by blast
  then show ?thesis using True by (simp add: kind_ok_def segment_def)
qed (simp add: kind_ok_def segment_def)

lemma dump_segments_kinds: "\<forall>k < 7. kind_ok (dump_front g job interfix) (dump_whats ! k) (dump_segments c g job tbuf interfix ! k)"
proof (intro allI impI)
  fix k :: nat assume "k < 7"
  then have "k \<in> {0, 1, 2, 3, 4, 5, 6}" by auto
  then show "kind_ok (dump_front g job interfix) (dump_whats ! k) (dump_segments c g job tbuf interfix ! k)"
    unfolding dump_segments_def
    by (elim insertE emptyE) (simp_all add: dump_whats_nth dump_whats_nth(2) [unfolded One_nat_def] kind_ok_one kind_ok_each dump_named)
qed

text \<open>No dump of a job goes to the file of another, if no name had to be cut.\<close>

lemma dump_list_distinct:
  assumes "\<forall>x \<in> set (dump_list c g job tbuf interfix). length (fst x) < 4095"
  shows "distinct (map fst (dump_list c g job tbuf interfix))"
proof -
  let ?front = "dump_front g job interfix" and ?xss = "dump_segments c g job tbuf interfix"
  have len: "length ?xss = 7" "length dump_whats = 7" by (simp_all add: dump_segments_def dump_whats_def)
  have short: "\<forall>x \<in> set (?xss ! k). length (fst x) < 4095" if "k < 7" for k
    using assms that len(1) unfolding dump_list_segments by (metis UN_I nth_mem set_concat)
  have seg: "distinct (map fst (?xss ! k)) \<and> (\<forall>x \<in> set (?xss ! k). dump_kind ?front (fst x) = k)" if k: "k < 7" for k
  proof -
    have n: "distinct (map fst (?xss ! k)) \<and> (\<forall>x \<in> set (?xss ! k). \<exists>w. named_as ?front (dump_whats ! k @ w) (fst x))"
      using dump_segments_kinds [of g job interfix c tbuf] k short [OF k] unfolding kind_ok_def by blast
    then show ?thesis using dump_kind_of [of k ?front] len(2) k short [OF k] by metis
  qed
  have "distinct (concat (map (map fst) ?xss))"
    by (rule distinct_segments [where kind = "dump_kind ?front"]) (use seg len(1) in simp)
  then show ?thesis by (simp add: dump_list_segments map_concat)
qed

subsection \<open>Contents of dumps\<close>

lemma mapped_bytes_holds:
  "holds_bytes p a bs \<Longrightarrow> i + n \<le> length bs \<Longrightarrow> mapped_bytes p (a + i) n = take n (drop i bs)"
proof (induction n arbitrary: i)
  case (Suc n)
  have "drop i bs = bs ! i # drop (Suc i) bs" using Suc.prems(2) by (simp add: Cons_nth_drop_Suc)
  then show ?case using Suc.IH [of "Suc i"] Suc.prems holds_load [OF Suc.prems(1), of i] by simp
qed simp


text \<open>The system does what it is asked to.\<close>

definition files_work :: "(nat \<Rightarrow> file_answer) \<Rightarrow> bool" where
  "files_work e \<longleftrightarrow> (\<forall>k. 0 < fa_open (e k) \<and> fa_truncate (e k) \<and> 2 ^ 32 \<le> fa_count (e k))"

text \<open>A range of mapped bytes whose size a signed number holds.\<close>

definition dumpable :: "proc \<Rightarrow> addr \<Rightarrow> u32 \<Rightarrow> u8 list \<Rightarrow> bool" where
  "dumpable p va sz bs \<longleftrightarrow> va \<noteq> 0 \<and> sz \<noteq> 0 \<and> unat sz < 2 ^ 31 \<and> length bs = unat sz \<and> holds_bytes p va bs"

lemma sint_small: "n < 2 ^ 31 \<Longrightarrow> sint (of_nat n :: u32) = int n"
  by (simp add: signed_of_nat signed_take_bit_int_eq_self)

lemma dump_file_writes:
  assumes "files_work e" "dumpable p va sz bs"
  shows "umd_dump_file_helper e p fname va sz s = (AIPU_STATUS_SUCCESS, put_file fname bs (next_op s))"
proof -
  have f: "fa_open (e (uf_ops s)) \<noteq> -1" "fa_truncate (e (uf_ops s))" "2 ^ 32 \<le> fa_count (e (uf_ops s))"
    using assms(1) [unfolded files_work_def, THEN spec, of "uf_ops s"] by simp_all
  have b: "mapped_bytes p va (unat sz) = bs" "bs \<noteq> []"
    using mapped_bytes_holds [of p va bs 0 "unat sz"] assms(2) by (auto simp: dumpable_def unat_eq_zero)
  have c: "nat (fa_count (e (uf_ops s))) \<ge> length bs" using f(3) assms(2) by (auto simp: dumpable_def)
  have "sint sz = int (unat sz)" using sint_small [of "unat sz"] assms(2) by (simp add: dumpable_def)
  then show ?thesis using f b c assms(2) by (simp add: umd_dump_file_helper_def Let_def dumpable_def)
qed


lemma dump_files_content:
  assumes "files_work e" "distinct (map fst ds)" "\<forall>(n, va, sz) \<in> set ds. \<exists>bs. dumpable p va sz bs"
  shows "(\<forall>(n, va, sz) \<in> set ds. \<forall>bs. dumpable p va sz bs \<longrightarrow> uf_data (dump_files e p ds s) n = Some bs) \<and>
    (\<forall>n. n \<notin> fst ` set ds \<longrightarrow> uf_data (dump_files e p ds s) n = uf_data s n)"
  using assms(2,3)
proof (induction ds arbitrary: s)
  case (Cons d ds)
  obtain n va sz where d: "d = (n, va, sz)" by (cases d)
  obtain bs where bs: "dumpable p va sz bs" using Cons.prems(2) d by auto
  let ?s1 = "put_file n bs (next_op s)"
  have s1: "dump_files e p (d # ds) s = dump_files e p ds ?s1" using dump_file_writes [OF assms(1) bs] d by simp
  have uniq: "bs' = bs" if "dumpable p va sz bs'" for bs'
    using bs that mapped_bytes_holds [of p va bs 0 "unat sz"] mapped_bytes_holds [of p va bs' 0 "unat sz"] by (simp add: dumpable_def)
  have IH: "(\<forall>(n, va, sz) \<in> set ds. \<forall>bs. dumpable p va sz bs \<longrightarrow> uf_data (dump_files e p ds ?s1) n = Some bs) \<and>
    (\<forall>n. n \<notin> fst ` set ds \<longrightarrow> uf_data (dump_files e p ds ?s1) n = uf_data ?s1 n)"
    by (rule Cons.IH) (use Cons.prems in auto)
  have "uf_data (dump_files e p ds ?s1) n = Some bs" using IH Cons.prems(1) d by (simp add: put_file_def)
  then show ?case using IH uniq d unfolding s1 by (auto simp: put_file_def next_op_def)
qed simp

subsection \<open>What is asked for\<close>

text \<open>
  What the flags of a job ask for, bit by bit: what it is, its device address, its size
  and its host address. The tensors are dumped after the run only.
\<close>

type_synonym asked_dump = "string \<times> u64 \<times> nat \<times> addr"

definition asked_section :: "string \<Rightarrow> buffer_desc \<Rightarrow> asked_dump" where
  "asked_section what b = (what, bu_pa b, unat (bu_real_size b), bu_va b)"

definition asked_tensor :: "string \<Rightarrow> io_buffer \<Rightarrow> asked_dump" where
  "asked_tensor what b = (what, iob_pa b, unat (iob_size b), iob_va b)"

definition asked_each :: "(string \<Rightarrow> 'a \<Rightarrow> asked_dump) \<Rightarrow> string \<Rightarrow> 'a list \<Rightarrow> asked_dump list" where
  "asked_each d what bs = map (\<lambda>i. d (what @ digits 10 i) (bs ! i)) [0..<length bs]"

definition asked_dumps :: "bool \<Rightarrow> graph \<Rightarrow> job_desc \<Rightarrow> tbuf_info \<Rightarrow> asked_dump list" where
  "asked_dumps after_run g job tbuf = concat (map snd (filter (\<lambda>(k, _). bit (jd_dump_flag job) k)
     [(0, [asked_section ''Text_Section'' (pb_text (gr_pbuf g))]),
      (1, [asked_section ''Rodata_Section'' (tb_rodata tbuf)]),
      (2, [asked_section ''Stack_Section'' (tb_stack tbuf)]),
      (3, asked_each asked_section ''Static_Section'' (pb_static_buf (gr_pbuf g))),
      (4, asked_each asked_section ''Reuse_Section'' (tb_reuse_buf tbuf)),
      (5, if after_run then asked_each asked_tensor ''OutTensor'' (iob_outputs (tb_iobuf tbuf)) else []),
      (6, if after_run then asked_each asked_tensor ''InterTensor'' (iob_inter_dumps (tb_iobuf tbuf)) else [])]))"

definition run_tag :: "bool \<Rightarrow> string" where
  "run_tag after_run = (if after_run then ''After_Run'' else ''Before_Run'')"

text \<open>The name that tells all of it, with the address as the device sees it; \<open>shm\<close> is its offset.\<close>

definition dump_file :: "u64 \<Rightarrow> bool \<Rightarrow> graph \<Rightarrow> job_desc \<Rightarrow> asked_dump \<Rightarrow> string" where
  "dump_file shm after_run g job = (\<lambda>(what, pa, sz, va).
     jd_dump_dir job @ ''/Graph0x'' @ digits 16 (unat (gd_id (gr_gdesc g))) @ ''_Job0x'' @ digits 16 (unat (jd_id job)) @ ''_'' @
     run_tag after_run @ ''_'' @ what @ ''_Base0x'' @ digits 16 (unat (pa - shm)) @ ''_Size0x'' @ digits 16 sz @ ''_'' @
     jd_dump_fname_suffix job @ ''.bin'')"

definition dump_entry :: "u64 \<Rightarrow> bool \<Rightarrow> graph \<Rightarrow> job_desc \<Rightarrow> asked_dump \<Rightarrow> string \<times> addr \<times> u32" where
  "dump_entry shm after_run g job x = (take 4095 (dump_file shm after_run g job x), snd (snd (snd x)), of_nat (fst (snd (snd x))))"

lemma dump_entry_of:
  "dump_buf c g job (run_tag r) what b = dump_entry (host_aipu_shm_offset c) r g job (asked_section what b)"
  "dump_tensor c g job (run_tag r) what t = dump_entry (host_aipu_shm_offset c) r g job (asked_tensor what t)"
  by (simp_all add: dump_buf_def dump_tensor_def dump_entry_def asked_section_def asked_tensor_def dump_fname_def dump_file_def
      snprintf_limit_def hex_str_def hex64_str_def)

lemma dump_each_entries:
  assumes "\<And>w b. d w b = f (q w b)"
  shows "dump_each d what bs = map f (asked_each q what bs)"
  by (auto simp: dump_each_def asked_each_def nat_str_def enumerate_eq_zip assms intro!: nth_equalityI)

lemma flag_bits:
  fixes w :: u32
  shows "(w AND 0x1 \<noteq> 0) = bit w 0" "(w AND 0x2 \<noteq> 0) = bit w 1" "(w AND 0x4 \<noteq> 0) = bit w 2" "(w AND 0x8 \<noteq> 0) = bit w 3"
    "(w AND 0x10 \<noteq> 0) = bit w 4" "(w AND 0x20 \<noteq> 0) = bit w 5" "(w AND 0x40 \<noteq> 0) = bit w 6"
proof -
  have m: "(w AND 2 ^ n \<noteq> 0) = bit w n" if "n < 32" for n
    using that by (simp add: and_exp_eq_0_iff_not_bit)
  show "(w AND 0x1 \<noteq> 0) = bit w 0" "(w AND 0x2 \<noteq> 0) = bit w 1" "(w AND 0x4 \<noteq> 0) = bit w 2" "(w AND 0x8 \<noteq> 0) = bit w 3"
    "(w AND 0x10 \<noteq> 0) = bit w 4" "(w AND 0x20 \<noteq> 0) = bit w 5" "(w AND 0x40 \<noteq> 0) = bit w 6"
    using m [of 0] m [of 1] m [of 2] m [of 3] m [of 4] m [of 5] m [of 6] by simp_all
qed

lemma map_if_list: "map f (if b then xs else []) = (if b then map f xs else [])" by simp

lemma run_tag_A: "hd (run_tag r) = CHR ''A'' \<longleftrightarrow> r" by (simp add: run_tag_def)

lemma segments_concat:
  "concat (map snd (filter (\<lambda>(k, _). P k) ((k, xs) # ts))) = (if P k then xs else []) @ concat (map snd (filter (\<lambda>(k, _). P k) ts))"
  "concat (map snd (filter (\<lambda>(k, _). P k) [])) = []"
  by simp_all

lemma if_conj_list: "(if a \<and> b then xs else []) = (if a then if b then xs else [] else [])" by simp

text \<open>The list of the code is what is asked for, entry by entry.\<close>

lemma dump_list_asked:
  "dump_list c g job tbuf (run_tag r) = map (dump_entry (host_aipu_shm_offset c) r g job) (asked_dumps r g job tbuf)"
proof -
  note e = dump_each_entries [where f = "dump_entry (host_aipu_shm_offset c) r g job" and q = asked_section, OF dump_entry_of(1)]
    dump_each_entries [where f = "dump_entry (host_aipu_shm_offset c) r g job" and q = asked_tensor, OF dump_entry_of(2)]
  show ?thesis
    by (simp only: dump_list_def asked_dumps_def segments_concat list.map append_Nil2 map_append map_if_list
        e dump_entry_of run_tag_A if_conj_list AIPU_DUMP_TEXT_def AIPU_DUMP_RO_def AIPU_DUMP_STACK_def AIPU_DUMP_STATIC_TENSOR_def
        AIPU_DUMP_REUSE_TENSOR_def AIPU_DUMP_OUT_TENSOR_def AIPU_DUMP_INTER_TENSOR_def flag_bits)
qed

text \<open>A buffer that can be dumped: mapped, with a size that a signed number holds and a name that fits.\<close>

definition can_dump :: "proc \<Rightarrow> u64 \<Rightarrow> bool \<Rightarrow> graph \<Rightarrow> job_desc \<Rightarrow> asked_dump \<Rightarrow> bool" where
  "can_dump p shm after_run g job x \<longleftrightarrow> length (dump_file shm after_run g job x) < 4095 \<and>
     (case x of (what, pa, sz, va) \<Rightarrow> va \<noteq> 0 \<and> 0 < sz \<and> sz < 2 ^ 31 \<and> (\<exists>bs. length bs = sz \<and> holds_bytes p va bs))"

lemma can_dump_entry:
  assumes "can_dump p shm r g job (what, pa, sz, va)"
  shows "dump_entry shm r g job (what, pa, sz, va) = (dump_file shm r g job (what, pa, sz, va), va, of_nat sz)"
    "dumpable p va (of_nat sz) bs \<longleftrightarrow> length bs = sz \<and> holds_bytes p va bs"
proof -
  have u: "unat (of_nat sz :: u32) = sz" using assms by (simp add: can_dump_def unat_of_nat)
  then have "(of_nat sz :: u32) \<noteq> 0" using assms by (auto simp: can_dump_def)
  then show "dumpable p va (of_nat sz) bs \<longleftrightarrow> length bs = sz \<and> holds_bytes p va bs"
    using assms u by (auto simp: dumpable_def can_dump_def)
  show "dump_entry shm r g job (what, pa, sz, va) = (dump_file shm r g job (what, pa, sz, va), va, of_nat sz)"
    using assms by (simp add: dump_entry_def can_dump_def)
qed

text \<open>C27. The dump of a job is exact. The flags of the job ask, bit by bit, for the text, the
  read-only data, the stack, every static and every reused section and, after the run, for
  every output and every intermediate tensor. With a system that opens, truncates and writes
  files in full, and buffers that are mapped, not larger than a signed 32-bit number holds and
  with file names that fit, each of them ends up in a file that holds exactly its bytes and
  whose name says the graph, the job, whether it is from before or after the run, what it is
  with its number, its device address and its size. No two dumps go to the same file, and no other
  file changes.\<close>

theorem dump_job_buffers_exact:
  fixes s :: ufiles
  assumes "files_work e" "\<forall>x \<in> set (asked_dumps after_run g job tbuf). can_dump p (host_aipu_shm_offset c) after_run g job x"
  defines "file \<equiv> dump_file (host_aipu_shm_offset c) after_run g job"
    and "left \<equiv> uf_data (dump_job_buffers e c g job tbuf (run_tag after_run) p s)"
  shows "distinct (map file (asked_dumps after_run g job tbuf)) \<and>
    (\<forall>(what, pa, sz, va) \<in> set (asked_dumps after_run g job tbuf). \<forall>bs. length bs = sz \<and> holds_bytes p va bs \<longrightarrow>
       left (file (what, pa, sz, va)) = Some bs) \<and>
    (\<forall>n. n \<notin> file ` set (asked_dumps after_run g job tbuf) \<longrightarrow> left n = uf_data s n)"
proof -
  let ?l = "dump_list c g job tbuf (run_tag after_run)" and ?entry = "dump_entry (host_aipu_shm_offset c) after_run g job"
  have names: "map fst ?l = map file (asked_dumps after_run g job tbuf)"
    using assms(2) by (auto simp: dump_list_asked dump_entry_def file_def can_dump_def)
  have short: "\<forall>x \<in> set ?l. length (fst x) < 4095"
    using assms(2) by (auto simp: dump_list_asked dump_entry_def can_dump_def)
  have d: "distinct (map fst ?l)" by (rule dump_list_distinct [OF short])
  have mapped: "\<forall>(n, va, sz) \<in> set ?l. \<exists>bs. dumpable p va sz bs"
  proof
    fix y assume "y \<in> set ?l"
    then obtain what pa sz va where x: "(what, pa, sz, va) \<in> set (asked_dumps after_run g job tbuf)" "y = ?entry (what, pa, sz, va)"
      by (auto simp: dump_list_asked)
    show "case y of (n, va, sz) \<Rightarrow> \<exists>bs. dumpable p va sz bs"
    proof -
      have "\<exists>bs. length bs = sz \<and> holds_bytes p va bs" using assms(2) x(1) by (auto simp: can_dump_def)
      then show ?thesis using can_dump_entry [OF assms(2) [rule_format, OF x(1)]] x(2) by auto
    qed
  qed
  note content = dump_files_content [OF assms(1) d mapped, of s]
  have "left (file (what, pa, sz, va)) = Some bs"
    if x: "(what, pa, sz, va) \<in> set (asked_dumps after_run g job tbuf)" and bs: "length bs = sz" "holds_bytes p va bs" for what pa sz va bs
  proof -
    note e = can_dump_entry [OF assms(2) [rule_format, OF x]]
    have "?entry (what, pa, sz, va) \<in> set ?l" using x unfolding dump_list_asked set_map by (rule imageI)
    then show ?thesis using content bs e unfolding left_def file_def dump_job_buffers_def by fastforce
  qed
  moreover have "left n = uf_data s n" if "n \<notin> file ` set (asked_dumps after_run g job tbuf)" for n
    using content that arg_cong [OF names, of set] unfolding left_def dump_job_buffers_def by (simp add: image_image)
  ultimately show ?thesis using d names by auto
qed


subsection \<open>A dump of the text, the read-only data and the reused sections\<close>

definition dump_demo_job :: job_desc where
  "dump_demo_job = \<lparr>jd_id = 0x10000, jd_buf_handle = 0x10000, jd_state = JOB_STATE_BUILT,
     jd_config = \<lparr>cf_arch = 0, cf_hw_version = 1, cf_hw_config = 904, cf_instruction_base_pa = 0, cf_start_pc_pa = 0,
       cf_interrupt_pc_pa = 0, cf_code_size = 2, cf_rodata_base = 0, cf_rodata_size = 0, cf_stack_base = 0, cf_stack_size = 0,
       cf_static_base = 0, cf_static_size = 0, cf_reuse_base = 0, cf_reuse_size = 0, cf_enable_prof = 0, cf_enable_asid = 0\<rparr>,
     jd_dump_flag = 0x213, jd_dump_fname_suffix = ''Default'', jd_dump_dir = ''.'', jd_pdata = zero_pdata\<rparr>"

definition dump_demo_section :: "nat \<Rightarrow> u64 \<Rightarrow> buffer_desc" where
  "dump_demo_section a n = \<lparr>bu_va = a, bu_pa = of_nat a, bu_size = 4096, bu_real_size = n, bu_region_id = 0\<rparr>"

definition dump_demo_graph :: graph where
  "dump_demo_graph = (new_graph 1)\<lparr>gr_pbuf := \<lparr>pb_text = dump_demo_section 4096 2, pb_static_buf = [], pb_static_group = buffer_desc_init\<rparr>\<rparr>"

definition dump_demo_tbuf :: "tbuf_info \<Rightarrow> tbuf_info" where
  "dump_demo_tbuf t = t\<lparr>tb_rodata := dump_demo_section 4098 1, tb_reuse_buf := [dump_demo_section 4099 1, dump_demo_section 4100 2]\<rparr>"

lemma dump_demo_asked: "asked_dumps False dump_demo_graph dump_demo_job (dump_demo_tbuf t) =
    [(''Text_Section'', 0x1000, 2, 4096), (''Rodata_Section'', 0x1002, 1, 4098),
     (''Reuse_Section0'', 0x1003, 1, 4099), (''Reuse_Section1'', 0x1004, 2, 4100)]"
  by (simp add: asked_dumps_def dump_demo_job_def dump_demo_graph_def dump_demo_tbuf_def dump_demo_section_def new_graph_def
      asked_section_def asked_each_def digits.simps hex_digit_def char_of_def bit_0 upt_rec bit_numeral_rec)

lemma dump_demo_files:
  "dump_file 0 False dump_demo_graph dump_demo_job (''Text_Section'', 0x1000, 2, 4096) =
     ''./Graph0x1_Job0x10000_Before_Run_Text_Section_Base0x1000_Size0x2_Default.bin''"
  "dump_file 0 False dump_demo_graph dump_demo_job (''Rodata_Section'', 0x1002, 1, 4098) =
     ''./Graph0x1_Job0x10000_Before_Run_Rodata_Section_Base0x1002_Size0x1_Default.bin''"
  "dump_file 0 False dump_demo_graph dump_demo_job (''Reuse_Section0'', 0x1003, 1, 4099) =
     ''./Graph0x1_Job0x10000_Before_Run_Reuse_Section0_Base0x1003_Size0x1_Default.bin''"
  "dump_file 0 False dump_demo_graph dump_demo_job (''Reuse_Section1'', 0x1004, 2, 4100) =
     ''./Graph0x1_Job0x10000_Before_Run_Reuse_Section1_Base0x1004_Size0x2_Default.bin''"
  by (simp_all add: dump_file_def dump_demo_job_def dump_demo_graph_def new_graph_def empty_gdesc_def run_tag_def digits.simps
      hex_digit_def char_of_def bit_0)

definition dump_demo_proc :: proc where
  "dump_demo_proc = demo_proc\<lparr>px_map := Some, px_phys := \<lambda>a. of_nat (a - 4096)\<rparr>"

lemma dump_demo_bytes:
  "holds_bytes dump_demo_proc 4096 [0, 1]" "holds_bytes dump_demo_proc 4098 [2]" "holds_bytes dump_demo_proc 4099 [3]"
  "holds_bytes dump_demo_proc 4100 [4, 5]"
  unfolding holds_bytes_def dump_demo_proc_def
  by (rule exI [of _ "[4096, 4097]"] exI [of _ "[4098]"] exI [of _ "[4099]"] exI [of _ "[4100, 4101]"];
      auto simp: less_Suc_eq numeral_2_eq_2)+

lemma dump_demo_can:
  "\<forall>x \<in> set (asked_dumps False dump_demo_graph dump_demo_job (dump_demo_tbuf t)). can_dump dump_demo_proc 0 False dump_demo_graph dump_demo_job x"
proof -
  have b: "\<exists>bs. length bs = Suc 0 \<and> holds_bytes dump_demo_proc 4098 bs" "\<exists>bs. length bs = Suc 0 \<and> holds_bytes dump_demo_proc 4099 bs"
    "\<exists>bs. length bs = 2 \<and> holds_bytes dump_demo_proc 4096 bs" "\<exists>bs. length bs = 2 \<and> holds_bytes dump_demo_proc 4100 bs"
    using dump_demo_bytes by force+
  then show ?thesis by (simp add: dump_demo_asked can_dump_def dump_demo_files dump_demo_files [unfolded One_nat_def])
qed

lemma dump_job_buffers_exact_witness:
  "\<exists>t. let left = uf_data (dump_job_buffers (\<lambda>_. \<lparr>fa_open = 3, fa_truncate = True, fa_count = 2 ^ 32\<rparr>) demo_ctrl dump_demo_graph
       dump_demo_job (dump_demo_tbuf t) ''Before_Run'' dump_demo_proc \<lparr>uf_data = \<lambda>_. None, uf_ops = 0\<rparr>) in
     left ''./Graph0x1_Job0x10000_Before_Run_Rodata_Section_Base0x1002_Size0x1_Default.bin'' = Some [2] \<and>
     left ''./Graph0x1_Job0x10000_Before_Run_Reuse_Section1_Base0x1004_Size0x2_Default.bin'' = Some [4, 5] \<and>
     left ''./Graph0x1_Job0x10000_Before_Run_Stack_Section_Base0x0_Size0x0_Default.bin'' = None"
proof -
  let ?e = "\<lambda>_ :: nat. \<lparr>fa_open = 3, fa_truncate = True, fa_count = 2 ^ 32\<rparr>"
  have e: "files_work ?e" by (simp add: files_work_def)
  have c: "host_aipu_shm_offset demo_ctrl = 0" by (simp add: demo_ctrl_def)
  note x = dump_job_buffers_exact [OF e, of False dump_demo_graph dump_demo_job "dump_demo_tbuf undefined" dump_demo_proc demo_ctrl
      "\<lparr>uf_data = \<lambda>_. None, uf_ops = 0\<rparr>", unfolded c run_tag_def if_False, OF dump_demo_can, unfolded dump_demo_asked]
  show ?thesis unfolding Let_def
    by (rule exI [of _ undefined]) (use x dump_demo_bytes in \<open>simp add: dump_demo_files dump_demo_files [unfolded One_nat_def]\<close>)
qed

end
