(* ===== verification/UmdPrintfSpec.thy ===== *)
theory UmdPrintfSpec
  imports UmdPrintf UmdDumpSpec UmdBuild GraphBinSpec UmdDevSpec
begin

text \<open>
  A log buffer as a ring: what a core has written into it one character after the other is
  what a dump puts out, in order, as far as the ring still holds it.
\<close>

subsection \<open>The ring\<close>

text \<open>
  The contract of the writer, by the comments of the dump: a character goes to the write
  offset, and at the end of the buffer the flag is set and the offset starts again from 0.
\<close>

record log_ring =
  lr_full :: bool
  lr_off :: nat
  lr_data :: "u8 list"

definition LOG_LEN :: nat where "LOG_LEN = BUFFER_LEN - LOG_HEADER_SZ"

definition ring_put :: "u8 \<Rightarrow> log_ring \<Rightarrow> log_ring" where
  "ring_put ch r = \<lparr>lr_full = lr_full r \<or> Suc (lr_off r) = LOG_LEN,
     lr_off = (if Suc (lr_off r) = LOG_LEN then 0 else Suc (lr_off r)), lr_data = (lr_data r)[lr_off r := ch]\<rparr>"

definition ring_start :: "u8 list \<Rightarrow> log_ring" where
  "ring_start junk = \<lparr>lr_full = False, lr_off = 0, lr_data = junk\<rparr>"

definition ring_of :: "u8 list \<Rightarrow> u8 list \<Rightarrow> log_ring" where
  "ring_of junk cs = fold ring_put cs (ring_start junk)"

definition ring_text :: "log_ring \<Rightarrow> u8 list" where
  "ring_text r = (if lr_full r then drop (lr_off r) (lr_data r) else []) @ take (lr_off r) (lr_data r)"

definition last_n :: "nat \<Rightarrow> 'a list \<Rightarrow> 'a list" where
  "last_n n xs = drop (length xs - n) xs"

lemma LOG_LEN_pos [simp]: "0 < LOG_LEN" "LOG_LEN \<noteq> 0" "8 + LOG_LEN = BUFFER_LEN" "LOG_LEN < 2 ^ 31"
  by (simp_all add: LOG_LEN_def BUFFER_LEN_def LOG_HEADER_SZ_def)

lemma last_n_snoc: "0 < n \<Longrightarrow> last_n n (xs @ [x]) = (if length xs < n then last_n n xs else tl (last_n n xs)) @ [x]"
  by (auto simp: last_n_def Suc_diff_le drop_Suc tl_drop)

lemma take_put: "i < length xs \<Longrightarrow> take (Suc i) (xs[i := x]) = take i xs @ [x]"
  by (simp add: take_Suc_conv_app_nth)

lemma ring_of_snoc: "ring_of junk (cs @ [ch]) = ring_put ch (ring_of junk cs)"
  by (simp add: ring_of_def)

text \<open>The invariant of the ring and the text it holds.\<close>

lemma ring_of_inv:
  assumes "length junk = LOG_LEN"
  shows "length (lr_data (ring_of junk cs)) = LOG_LEN \<and> lr_off (ring_of junk cs) < LOG_LEN \<and>
    (lr_full (ring_of junk cs) \<longleftrightarrow> LOG_LEN \<le> length cs) \<and>
    (\<not> lr_full (ring_of junk cs) \<longrightarrow> lr_off (ring_of junk cs) = length cs) \<and>
    ring_text (ring_of junk cs) = last_n LOG_LEN cs"
proof (induction cs rule: rev_induct)
  case Nil
  then show ?case using assms by (simp add: ring_of_def ring_start_def ring_text_def last_n_def)
next
  case (snoc ch cs)
  define r where "r = ring_of junk cs"
  have r: "length (lr_data r) = LOG_LEN" "lr_off r < LOG_LEN" "lr_full r \<longleftrightarrow> LOG_LEN \<le> length cs"
    "\<not> lr_full r \<Longrightarrow> lr_off r = length cs" "ring_text r = last_n LOG_LEN cs" using snoc by (simp_all add: r_def)
  have t: "take (Suc (lr_off r)) ((lr_data r)[lr_off r := ch]) = take (lr_off r) (lr_data r) @ [ch]"
    by (rule take_put) (use r in simp)
  have d: "drop (Suc (lr_off r)) ((lr_data r)[lr_off r := ch]) = tl (drop (lr_off r) (lr_data r))"
    by (simp only: drop_update_cancel [OF lessI]) (simp add: drop_Suc tl_drop)
  have ne: "drop (lr_off r) (lr_data r) \<noteq> []" using r by simp
  have tx: "ring_text (ring_put ch r) = (if lr_full r then tl (ring_text r) else ring_text r) @ [ch]"
  proof (cases "Suc (lr_off r) = LOG_LEN")
    case True
    have "(lr_data r)[lr_off r := ch] = take (lr_off r) (lr_data r) @ [ch]" using t r(1) True by (metis length_list_update order_refl take_all)
    moreover have "drop (Suc (lr_off r)) (lr_data r) = []" using True r(1) by simp
    then have "tl (drop (lr_off r) (lr_data r)) = []" by (simp add: drop_Suc tl_drop)
    ultimately show ?thesis using True ne by (simp add: ring_text_def ring_put_def tl_append2)
  next
    case False
    then show ?thesis using t d ne by (simp add: ring_text_def ring_put_def tl_append2)
  qed
  have "ring_text (ring_put ch r) = last_n LOG_LEN (cs @ [ch])"
    using tx r by (simp add: last_n_snoc)
  moreover have "lr_full (ring_put ch r) \<longleftrightarrow> LOG_LEN \<le> length (cs @ [ch])"
    using r by (cases "lr_full r") (auto simp: ring_put_def)
  moreover have "\<not> lr_full (ring_put ch r) \<longrightarrow> lr_off (ring_put ch r) = length (cs @ [ch])"
    using r by (auto simp: ring_put_def)
  moreover have "lr_off (ring_put ch r) < LOG_LEN" "length (lr_data (ring_put ch r)) = LOG_LEN"
    using r by (auto simp: ring_put_def)
  ultimately show ?case by (simp only: ring_of_snoc flip: r_def)
qed

subsection \<open>The ring in memory\<close>

definition enc_ring :: "log_ring \<Rightarrow> u8 list" where
  "enc_ring r = enc_word (of_bool (lr_full r)) @ enc_word (of_nat (lr_off r)) @ lr_data r"

definition ring_ok :: "log_ring \<Rightarrow> bool" where
  "ring_ok r \<longleftrightarrow> length (lr_data r) = LOG_LEN \<and> lr_off r < LOG_LEN"

lemma length_enc_ring: "ring_ok r \<Longrightarrow> length (enc_ring r) = BUFFER_LEN"
  by (simp add: enc_ring_def ring_ok_def)

lemma nth_enc_ring: "enc_ring r ! (8 + i) = lr_data r ! i"
  by (simp add: enc_ring_def nth_append)

lemma ring_header:
  assumes "ring_ok r" "holds_bytes (pi_proc s) base (enc_ring r)"
  shows "overwrite_flag base s = Some (of_bool (lr_full r))" "write_offset base s = Some (int (lr_off r))"
proof -
  have l: "8 \<le> length (enc_ring r)" by (simp add: enc_ring_def)
  have f: "ux_load32 (pi_proc s) (base + 0) = Some (of_bool (lr_full r))"
    using holds_load32 [OF assms(2), of 0] l word_at_enc [of 0 "enc_ring r" "of_bool (lr_full r)"] by (simp add: enc_ring_def)
  have o: "ux_load32 (pi_proc s) (base + 4) = Some (of_nat (lr_off r))"
    using holds_load32 [OF assms(2), of 4] l word_at_enc [of 4 "enc_ring r" "of_nat (lr_off r)"] by (simp add: enc_ring_def)
  have "lr_off r < 2 ^ 31" using assms(1) LOG_LEN_pos(4) by (simp add: ring_ok_def)
  then show "overwrite_flag base s = Some (of_bool (lr_full r))" "write_offset base s = Some (int (lr_off r))"
    using f o by (simp_all add: overwrite_flag_def write_offset_def sint_small)
qed


subsection \<open>Reading and printing\<close>

lemma c_string_holds:
  "holds_bytes p a bs \<Longrightarrow> 0 \<in> set (drop i bs) \<Longrightarrow> c_string p (a + i) = Some (takeWhile (\<lambda>b. b \<noteq> 0) (drop i bs))"
proof (induction "length bs - i" arbitrary: i)
  case 0
  then show ?case by simp
next
  case (Suc n)
  have i: "i < length bs" using Suc.hyps(2) by simp
  have d: "drop i bs = bs ! i # drop (Suc i) bs" using i by (simp add: Cons_nth_drop_Suc)
  show ?case
  proof (cases "bs ! i = 0")
    case True
    then show ?thesis using holds_load [OF Suc.prems(1) i] by (subst c_string.simps) (simp add: d)
  next
    case False
    have "c_string p (a + Suc i) = Some (takeWhile (\<lambda>b. b \<noteq> 0) (drop (Suc i) bs))"
      by (rule Suc.hyps(1)) (use Suc.hyps(2) Suc.prems d False in auto)
    then show ?thesis using holds_load [OF Suc.prems(1) i] False by (subst c_string.simps) (simp add: d)
  qed
qed

text \<open>A range is printed up to its first null character, and the memory is as it was before.\<close>

lemma print_until_holds:
  assumes "holds_bytes (pi_proc s) a bs" "i \<le> j" "j < length bs"
  shows "print_until (a + i) (a + j) s = Some (bs ! j, put_term (takeWhile (\<lambda>b. b \<noteq> 0) (take (j - i) (drop i bs))) s)"
proof -
  obtain m where m: "ux_store (a + j) 0 (pi_proc s) = Some ((pi_proc s)\<lparr>px_phys := m\<rparr>)"
    "holds_bytes ((pi_proc s)\<lparr>px_phys := m\<rparr>) a (bs[j := 0])" using holds_store [OF assms(1,3)] by blast
  have l: "ux_load (pi_proc s) (a + j) = Some (bs ! j)" by (rule holds_load [OF assms(1,3)])
  have r: "ux_store (a + j) (bs ! j) ((pi_proc s)\<lparr>px_phys := m\<rparr>) = Some (pi_proc s)"
  proof -
    obtain z where z: "px_map (pi_proc s) (a + j) = Some z" "px_phys (pi_proc s) z = bs ! j" using l by (auto simp: ux_load_def)
    have "m = (px_phys (pi_proc s))(z := 0)" using m(1) z(1) by (auto simp: ux_store_def dest: arg_cong [of _ _ px_phys])
    then show ?thesis using z fun_upd_triv [of "px_phys (pi_proc s)" z] by (simp add: ux_store_def)
  qed
  have d: "drop i (bs[j := 0]) = take (j - i) (drop i bs) @ 0 # drop (Suc j) bs"
    using assms(2,3) by (simp add: upd_conv_take_nth_drop drop_take)
  have "c_string ((pi_proc s)\<lparr>px_phys := m\<rparr>) (a + i) = Some (takeWhile (\<lambda>b. b \<noteq> 0) (take (j - i) (drop i bs)))"
    using c_string_holds [OF m(2), of i] by (simp add: d takeWhile_tail)
  then show ?thesis using l m(1) r by (simp add: print_until_def put_term_def)
qed

lemma takeWhile_no_null: "0 \<notin> set bs \<Longrightarrow> takeWhile (\<lambda>b. b \<noteq> (0 :: u8)) bs = bs"
  by (subst takeWhile_eq_all_conv) auto

lemma put_term_proc [simp]: "pi_proc (put_term bs s) = pi_proc s"
  by (simp add: put_term_def)

lemma put_term_twice [simp]: "put_term b (put_term a s) = put_term (a @ b) s"
  by (simp add: put_term_def)

lemma ptr_add_nat [simp]: "ptr_add a (int n) = Some (a + n)"
  by (simp add: ptr_add_def nat_int_add)


subsection \<open>Properties\<close>

text \<open>The pieces of the ring.\<close>

lemma ring_pieces:
  assumes "ring_ok r"
  shows "take (lr_off r) (drop 8 (enc_ring r)) = take (lr_off r) (lr_data r)"
    and "take (LOG_LEN - lr_off r) (drop (8 + lr_off r) (enc_ring r)) = drop (lr_off r) (lr_data r)"
    and "take (LOG_LEN - lr_off r - 1) (drop (8 + lr_off r) (enc_ring r)) @ [enc_ring r ! (BUFFER_LEN - 1)] = drop (lr_off r) (lr_data r)"
proof -
  have d: "drop (8 + n) (enc_ring r) = drop n (lr_data r)" for n by (simp add: enc_ring_def)
  show "take (lr_off r) (drop 8 (enc_ring r)) = take (lr_off r) (lr_data r)" using d [of 0] by simp
  have l: "length (drop (lr_off r) (lr_data r)) = LOG_LEN - lr_off r" using assms by (simp add: ring_ok_def)
  then show "take (LOG_LEN - lr_off r) (drop (8 + lr_off r) (enc_ring r)) = drop (lr_off r) (lr_data r)" by (simp add: d)
  have ne: "drop (lr_off r) (lr_data r) \<noteq> []" using assms by (simp add: ring_ok_def)
  have "BUFFER_LEN - 1 = 8 + (LOG_LEN - 1)" using LOG_LEN_pos(1,3) by linarith
  then have "enc_ring r ! (BUFFER_LEN - 1) = lr_data r ! (LOG_LEN - 1)" using nth_enc_ring [of r "LOG_LEN - 1"] by simp
  also have "\<dots> = last (drop (lr_off r) (lr_data r))" using assms ne by (simp add: ring_ok_def last_conv_nth)
  finally show "take (LOG_LEN - lr_off r - 1) (drop (8 + lr_off r) (enc_ring r)) @ [enc_ring r ! (BUFFER_LEN - 1)] = drop (lr_off r) (lr_data r)"
    using append_butlast_last_id [OF ne] assms by (simp add: d butlast_conv_take ring_ok_def)
qed

lemma print_log:
  assumes "ring_ok r" "holds_bytes (pi_proc s) base (enc_ring r)" "0 \<notin> set (ring_text r)" "lr_full r \<or> lr_off r \<noteq> 0"
  shows "aipu_printf e base False s = Some (int (length (ring_text r)), put_term (ring_text r) s)"
proof -
  note h = ring_header [OF assms(1)]
  have len: "length (enc_ring r) = BUFFER_LEN" by (rule length_enc_ring [OF assms(1)])
  have off: "lr_off r < LOG_LEN" "8 + lr_off r < BUFFER_LEN" using assms(1) LOG_LEN_pos(3) unfolding ring_ok_def by linarith+
  have nz: "0 \<notin> set (take (lr_off r) (lr_data r))" "lr_full r \<Longrightarrow> 0 \<notin> set (drop (lr_off r) (lr_data r))"
    using assms(3) by (auto simp: ring_text_def split: if_splits)
  have front: "print_until (base + 8) (base + 8 + lr_off r) t = Some (enc_ring r ! (8 + lr_off r), put_term (take (lr_off r) (lr_data r)) t)"
    if "pi_proc t = pi_proc s" for t
    using print_until_holds [of t base "enc_ring r" 8 "8 + lr_off r"] that assms(2) off(2) nz(1) ring_pieces(1) [OF assms(1)]
    by (simp add: len takeWhile_no_null add.assoc)
  show ?thesis
  proof (cases "lr_full r")
    case False
    have "term_linear base s = Some (int (lr_off r), put_term (take (lr_off r) (lr_data r)) s)"
      using h [of s base] h [of "put_term (take (lr_off r) (lr_data r)) s" base] assms(2) front [of s]
      by (simp add: term_linear_def LOG_HEADER_SZ_def)
    then show ?thesis using h [of s base] assms(2,4) False off(1) assms(1) by (simp add: aipu_printf_def ring_text_def ring_ok_def)
  next
    case True
    define bk where "bk = take (LOG_LEN - lr_off r - 1) (drop (8 + lr_off r) (enc_ring r))"
    define c where "c = enc_ring r ! (BUFFER_LEN - 1)"
    have bc: "bk @ [c] = drop (lr_off r) (lr_data r)" using ring_pieces(3) [OF assms(1)] by (simp add: bk_def c_def)
    have bl: "BUFFER_LEN - (9 + lr_off r) = LOG_LEN - Suc (lr_off r)" using LOG_LEN_pos(3) by linarith
    have "0 \<notin> set bk" using nz(2) [OF True] bc by (metis Un_iff set_append)
    then have b: "print_until (base + (8 + lr_off r)) (base + (BUFFER_LEN - 1)) s = Some (c, put_term bk s)"
      using print_until_holds [OF assms(2), of "8 + lr_off r" "BUFFER_LEN - 1"] off len bl
      by (simp add: bk_def c_def takeWhile_no_null)
    have e: "base + BUFFER_LEN - 1 = base + (BUFFER_LEN - 1)" using LOG_LEN_pos(3) by linarith
    have tx: "ring_text r = bk @ [c] @ take (lr_off r) (lr_data r)" using bc True by (simp add: ring_text_def)
    have l: "length (ring_text r) = LOG_LEN" using assms(1) True by (simp add: ring_text_def ring_ok_def)
    let ?s2 = "put_term (bk @ [c]) s"
    have "term_ring base s = Some (int LOG_LEN, put_term (ring_text r) s)"
      using h [of s base] h [of ?s2 base] assms(2) b e front [of ?s2] tx
      by (simp add: term_ring_def LOG_HEADER_SZ_def LOG_LEN_def add.assoc Let_def)
    then show ?thesis using h [of s base] assms(2) True l by (simp add: aipu_printf_def)
  qed
qed


lemma size_t_small: "n < 2 ^ 31 \<Longrightarrow> size_t_of (int n) = n"
  by (simp add: size_t_of_def nat_mod_as_int flip: of_nat_mod)

text \<open>A write that the system does in full.\<close>

lemma sys_write_full:
  assumes "holds_bytes (pi_proc s) base bs" "i + n \<le> length bs" "int n \<le> answer"
  shows "sys_write answer (base + i) n pos s =
    (int n, pos + n, s\<lparr>pi_file := overwrite_at pos (take n (drop i bs)) (pi_file s)\<rparr>)"
  using assms by (auto simp: sys_write_def mapped_bytes_holds Let_def)

lemma overwrite_two: "overwrite_at (length a) b (overwrite_at 0 a f) = overwrite_at 0 (a @ b) f"
  by (simp add: overwrite_at_def add.commute)

lemma file_log:
  assumes "ring_ok r" "holds_bytes (pi_proc s) base (enc_ring r)" "lr_full r \<or> lr_off r \<noteq> 0"
    and "0 \<le> pe_open e" "\<forall>k. int BUFFER_LEN \<le> pe_write e k"
  shows "aipu_printf e base True s =
    Some (int (length (ring_text r)), s\<lparr>pi_file := overwrite_at 0 (ring_text r) (pi_file s)\<rparr>)"
proof -
  let ?s1 = "s\<lparr>pi_fds := pi_fds s + 1\<rparr>"
  note h = ring_header [OF assms(1), of _ base]
  have len: "length (enc_ring r) = BUFFER_LEN" by (rule length_enc_ring [OF assms(1)])
  have off: "lr_off r < LOG_LEN" "8 + lr_off r < BUFFER_LEN" "lr_off r < 2 ^ 31" "LOG_LEN - lr_off r < 2 ^ 31"
    using assms(1) LOG_LEN_pos(3,4) unfolding ring_ok_def by linarith+
  have ans: "int n \<le> pe_write e k" if "n \<le> BUFFER_LEN" for n k using assms(5) that by (meson of_nat_mono order_trans)
  have front: "sys_write (pe_write e k) (base + 8) (lr_off r) pos t =
      (int (lr_off r), pos + lr_off r, t\<lparr>pi_file := overwrite_at pos (take (lr_off r) (lr_data r)) (pi_file t)\<rparr>)"
    if "pi_proc t = pi_proc s" for t pos k
    using sys_write_full [of t base "enc_ring r" 8 "lr_off r" "pe_write e k" pos] that assms(2) off(2) ans [of "lr_off r" k]
      ring_pieces(1) [OF assms(1)] by (simp add: len)
  show ?thesis
  proof (cases "lr_full r")
    case False
    then show ?thesis using h [of ?s1] assms front [of ?s1] off
      by (simp add: aipu_printf_def file_linear_def LOG_HEADER_SZ_def size_t_small ring_text_def close_file_def ring_ok_def)
  next
    case True
    let ?d = "drop (lr_off r) (lr_data r)" and ?f = "take (lr_off r) (lr_data r)"
    have c: "int BUFFER_LEN - 8 - int (lr_off r) = int (LOG_LEN - lr_off r)" using off(1) LOG_LEN_pos(3) by linarith
    have l: "length ?d = LOG_LEN - lr_off r" using assms(1) by (simp add: ring_ok_def)
    have bk: "sys_write (pe_write e 0) (base + (8 + lr_off r)) (LOG_LEN - lr_off r) 0 ?s1 =
        (int (LOG_LEN - lr_off r), LOG_LEN - lr_off r, ?s1\<lparr>pi_file := overwrite_at 0 ?d (pi_file s)\<rparr>)"
    proof (subst sys_write_full [of ?s1 base "enc_ring r"])
      show "8 + lr_off r + (LOG_LEN - lr_off r) \<le> length (enc_ring r)" using off(1) LOG_LEN_pos(3) len by linarith
      show "int (LOG_LEN - lr_off r) \<le> pe_write e 0" by (rule ans) (use LOG_LEN_pos(3) in linarith)
    qed (use assms(2) ring_pieces(2) [OF assms(1)] in simp_all)
    let ?s2 = "?s1\<lparr>pi_file := overwrite_at 0 ?d (pi_file s)\<rparr>"
    have two: "overwrite_at (LOG_LEN - lr_off r) ?f (overwrite_at 0 ?d (pi_file s)) = overwrite_at 0 (?d @ ?f) (pi_file s)"
      using overwrite_two [of ?d ?f] l by simp
    have "length (ring_text r) = LOG_LEN" "ring_text r = ?d @ ?f" using assms(1) True by (simp_all add: ring_text_def ring_ok_def)
    moreover have "size_t_of (int LOG_LEN - int (lr_off r)) = LOG_LEN - lr_off r"
      using size_t_small [OF off(4)] off(1) by simp
    moreover have "int BUFFER_LEN - 8 = int LOG_LEN" using LOG_LEN_pos(3) by linarith
    moreover have "length (lr_data r) = LOG_LEN" using assms(1) by (simp add: ring_ok_def)
    ultimately have "file_ring e base ?s1 = Some (int (length (ring_text r)), s\<lparr>pi_file := overwrite_at 0 (ring_text r) (pi_file s)\<rparr>)"
      using h [of ?s1] assms(2) bk front [of ?s2] two off
      by (auto simp: file_ring_def LOG_HEADER_SZ_def LOG_LEN_def [symmetric] c size_t_small close_file_def add.assoc)
    then show ?thesis using h [of ?s1] assms True by (simp add: aipu_printf_def)
  qed
qed


text \<open>C22. The dump of a log buffer puts out exactly what the ring still holds of the log, in the order
  in which it was written, whether the writer wrapped around or not. On a terminal, a log
  without null characters is appended to the output; in a file, with a system that opens it and
  writes every range in full, the log replaces the first bytes of the old contents. The result
  is the number of characters, the memory is as it was, and no descriptor stays open.\<close>

theorem printf_dumps_log:
  assumes "length junk = LOG_LEN" "cs \<noteq> []" "holds_bytes (pi_proc s) base (enc_ring (ring_of junk cs))"
  shows "(0 \<notin> set cs \<longrightarrow> aipu_printf e base False s =
      Some (int (min LOG_LEN (length cs)), put_term (last_n LOG_LEN cs) s)) \<and>
    (0 \<le> pe_open e \<and> (\<forall>k. int BUFFER_LEN \<le> pe_write e k) \<longrightarrow> aipu_printf e base True s =
      Some (int (min LOG_LEN (length cs)), s\<lparr>pi_file := last_n LOG_LEN cs @ drop (length (last_n LOG_LEN cs)) (pi_file s)\<rparr>))"
proof -
  note r = ring_of_inv [OF assms(1), of cs]
  have ok: "ring_ok (ring_of junk cs)" using r by (simp add: ring_ok_def)
  have some: "lr_full (ring_of junk cs) \<or> lr_off (ring_of junk cs) \<noteq> 0" using r assms(2) by auto
  have len: "length (last_n LOG_LEN cs) = min LOG_LEN (length cs)" by (simp add: last_n_def)
  have "0 \<notin> set cs \<Longrightarrow> 0 \<notin> set (last_n LOG_LEN cs)" by (auto simp: last_n_def dest: in_set_dropD)
  then show ?thesis using print_log [OF ok assms(3) _ some] file_log [OF ok assms(3) some] r len by (simp add: overwrite_at_def)
qed

subsection \<open>A log of three characters\<close>

definition three_io :: pio where
  "three_io = \<lparr>pi_proc = demo_proc\<lparr>px_map := Some, px_phys := \<lambda>a. enc_ring (ring_of (replicate LOG_LEN 0) [65, 66, 67]) ! (a - 4096)\<rparr>,
     pi_term = [], pi_file = [1, 2, 3, 4], pi_fds = 0\<rparr>"

lemma printf_dumps_log_witness:
  "aipu_printf \<lparr>pe_open = 5, pe_write = \<lambda>_. 2 ^ 20\<rparr> 4096 False three_io = Some (3, three_io\<lparr>pi_term := [65, 66, 67]\<rparr>) \<and>
   aipu_printf \<lparr>pe_open = 5, pe_write = \<lambda>_. 2 ^ 20\<rparr> 4096 True three_io = Some (3, three_io\<lparr>pi_file := [65, 66, 67, 4]\<rparr>)"
proof -
  let ?r = "ring_of (replicate LOG_LEN 0) [65, 66, 67]"
  have h: "holds_bytes (pi_proc three_io) 4096 (enc_ring ?r)" unfolding holds_bytes_def
    by (rule exI [of _ "[4096 ..< 4096 + length (enc_ring ?r)]"]) (simp add: three_io_def)
  have l: "last_n LOG_LEN [65, 66, 67 :: u8] = [65, 66, 67]" "min LOG_LEN 3 = 3"
    by (simp_all add: last_n_def LOG_LEN_def BUFFER_LEN_def LOG_HEADER_SZ_def)
  show ?thesis
    using printf_dumps_log [OF length_replicate _ h, of "\<lparr>pe_open = 5, pe_write = \<lambda>_. 2 ^ 20\<rparr>"] l
    by (simp add: three_io_def put_term_def BUFFER_LEN_def)
qed


subsection \<open>Faults\<close>

text \<open>When the log is empty the file that was opened for it is not closed.\<close>

theorem printf_empty_log_leaks:
  assumes "length junk = LOG_LEN" "holds_bytes (pi_proc s) base (enc_ring (ring_of junk []))" "0 \<le> pe_open e"
  shows "aipu_printf e base True s = Some (0, s\<lparr>pi_fds := pi_fds s + 1\<rparr>)"
proof -
  have ok: "ring_ok (ring_of junk [])" using ring_of_inv [OF assms(1), of "[]"] by (simp add: ring_ok_def)
  show ?thesis using ring_header [OF ok, of "s\<lparr>pi_fds := pi_fds s + 1\<rparr>" base] assms
    by (simp add: aipu_printf_def ring_of_def ring_start_def)
qed

text \<open>Every dump opens the file again and writes from its start: of the logs of two tensors the
  second overwrites the first.
\<close>

theorem printf_dumps_overwrite:
  assumes "ring_ok r1" "ring_ok r2" "lr_full r1 \<or> lr_off r1 \<noteq> 0" "lr_full r2 \<or> lr_off r2 \<noteq> 0"
    and "holds_bytes (pi_proc s) (iob_va t1) (enc_ring r1)" "holds_bytes (pi_proc s) (iob_va t2) (enc_ring r2)"
    and "iob_va t1 \<noteq> 0" "iob_va t2 \<noteq> 0" "\<forall>i. 0 \<le> pe_open (e i) \<and> (\<forall>k. int BUFFER_LEN \<le> pe_write (e i) k)"
    and "length (ring_text r1) = length (ring_text r2)"
  shows "AIPU_printf e (Some [t1, t2]) True s =
    Some (AIPU_STATUS_SUCCESS, s\<lparr>pi_file := ring_text r2 @ drop (length (ring_text r2)) (pi_file s)\<rparr>)"
proof -
  let ?s1 = "s\<lparr>pi_file := overwrite_at 0 (ring_text r1) (pi_file s)\<rparr>"
  have 1: "aipu_printf (e 0) (iob_va t1) True s = Some (int (length (ring_text r1)), ?s1)"
    using file_log [OF assms(1,5,3)] assms(9) by simp
  have "aipu_printf (e 1) (iob_va t2) True ?s1 =
      Some (int (length (ring_text r2)), ?s1\<lparr>pi_file := overwrite_at 0 (ring_text r2) (pi_file ?s1)\<rparr>)"
    by (rule file_log [OF assms(2) _ assms(4)]) (use assms(6,9) in simp_all)
  then show ?thesis using 1 assms(7,8,10) by (simp add: AIPU_printf_def overwrite_at_def)
qed

end
