(* ===== verification/UmdLow.thy ===== *)
theory UmdLow
  imports UmdDev
begin

text \<open>
  The low-level API (\<open>low_level_api/low_level_api_impl.cpp\<close>): registers and buffers of the
  device over the device wrappers. One static structure remembers the device that was
  opened last.
\<close>

datatype aipu_ll_status =
  AIPU_LL_STATUS_SUCCESS | AIPU_LL_STATUS_ERROR_OPEN_FAILED | AIPU_LL_STATUS_ERROR_INVALID_PTR
| AIPU_LL_STATUS_ERROR_INVALID_HANDLE | AIPU_LL_STATUS_ERROR_INVALID_OFFSET | AIPU_LL_STATUS_ERROR_INVALID_OP
| AIPU_LL_STATUS_ERROR_INVALID_SIZE | AIPU_LL_STATUS_ERROR_INVALID_PA | AIPU_LL_STATUS_ERROR_READ_REG_FAIL
| AIPU_LL_STATUS_ERROR_WRITE_REG_FAIL | AIPU_LL_STATUS_ERROR_MALLOC_FAIL | AIPU_LL_STATUS_ERROR_FREE_FAIL

record ll_buffer =
  lb_pa :: u64
  lb_va :: addr
  lb_size :: u64

text \<open>The static structure and the process. Before the first call all of the structure is 0.\<close>

record ll_ctx =
  ll_info :: aipu_open_info
  ll_proc :: proc

definition ll_start :: "proc \<Rightarrow> ll_ctx" where
  "ll_start p = \<lparr>ll_info = \<lparr>oi_fd = 0, oi_shm_offset = 0,
     oi_cap = \<lparr>isa_version = 0, tpc_feature = 0, aiff_feature = 0, cap_errcode = 0\<rparr>\<rparr>, ll_proc = p\<rparr>"

text \<open>
  A pointer to a result is whether it is given, with the result in the answer. The wrapper
  of \<open>open\<close> leaves the structure as it is when the node cannot be opened.
\<close>

definition AIPU_LL_open :: "bool \<Rightarrow> ll_ctx \<Rightarrow> (aipu_ll_status \<times> int option \<times> ll_ctx) option" where
  "AIPU_LL_open handle s =
     (if \<not> handle then Some (AIPU_LL_STATUS_ERROR_INVALID_PTR, None, s)
      else do {
        (ret, info, p) \<leftarrow> dev_op_wrapper_open (ll_proc s);
        let s1 = s\<lparr>ll_info := (case info of Some i \<Rightarrow> i | None \<Rightarrow> ll_info s), ll_proc := p\<rparr>;
        if ret \<noteq> 0 then Some (AIPU_LL_STATUS_ERROR_OPEN_FAILED, None, s1)
        else Some (AIPU_LL_STATUS_SUCCESS, Some (oi_fd (ll_info s1)), s1)
      })"

definition AIPU_LL_close :: "int \<Rightarrow> ll_ctx \<Rightarrow> (aipu_ll_status \<times> ll_ctx) option" where
  "AIPU_LL_close handle s = do {
     (ret, p) \<leftarrow> dev_op_wrapper_close handle (ll_proc s);
     let s1 = s\<lparr>ll_proc := p\<rparr>;
     if ret \<noteq> 0 then Some (AIPU_LL_STATUS_ERROR_INVALID_HANDLE, s1)
     else Some (AIPU_LL_STATUS_SUCCESS, s1\<lparr>ll_info := (ll_info s1)\<lparr>oi_fd := 0\<rparr>\<rparr>)
   }"

definition AIPU_LL_get_hw_version :: "int \<Rightarrow> bool \<Rightarrow> ll_ctx \<Rightarrow> aipu_ll_status \<times> u32 option" where
  "AIPU_LL_get_hw_version handle ver s =
     (if \<not> ver then (AIPU_LL_STATUS_ERROR_INVALID_PTR, None)
      else if handle = 0 \<or> oi_fd (ll_info s) \<noteq> handle then (AIPU_LL_STATUS_ERROR_INVALID_HANDLE, None)
      else (AIPU_LL_STATUS_SUCCESS, Some (isa_version (oi_cap (ll_info s)))))"

text \<open>\<open>value\<close>: what the memory behind the pointer holds before and after.\<close>

definition AIPU_LL_read_reg32 :: "int \<Rightarrow> u32 \<Rightarrow> u32 option \<Rightarrow> ll_ctx \<Rightarrow> (aipu_ll_status \<times> u32 option \<times> ll_ctx) option" where
  "AIPU_LL_read_reg32 handle offset value s =
     (case value of
        None \<Rightarrow> Some (AIPU_LL_STATUS_ERROR_INVALID_PTR, None, s)
      | Some old \<Rightarrow>
          if handle = 0 \<or> oi_fd (ll_info s) \<noteq> handle then Some (AIPU_LL_STATUS_ERROR_INVALID_HANDLE, value, s)
          else do {
            (kern_ret, v, p) \<leftarrow> dev_op_wrapper_read32 handle offset old (ll_proc s);
            Some (if kern_ret \<noteq> AIPU_ERRCODE_NO_ERROR then AIPU_LL_STATUS_ERROR_READ_REG_FAIL else AIPU_LL_STATUS_SUCCESS,
                  Some v, s\<lparr>ll_proc := p\<rparr>)
          })"

definition AIPU_LL_write_reg32 :: "int \<Rightarrow> u32 \<Rightarrow> u32 \<Rightarrow> ll_ctx \<Rightarrow> (aipu_ll_status \<times> ll_ctx) option" where
  "AIPU_LL_write_reg32 handle offset value s =
     (if handle = 0 \<or> oi_fd (ll_info s) \<noteq> handle then Some (AIPU_LL_STATUS_ERROR_INVALID_HANDLE, s)
      else do {
        (kern_ret, p) \<leftarrow> dev_op_wrapper_write32 handle offset value (ll_proc s);
        Some (if kern_ret \<noteq> AIPU_ERRCODE_NO_ERROR then AIPU_LL_STATUS_ERROR_WRITE_REG_FAIL else AIPU_LL_STATUS_SUCCESS,
              s\<lparr>ll_proc := p\<rparr>)
      })"

text \<open>The descriptor on the stack is not initialised before the wrapper fills it.\<close>

definition AIPU_LL_malloc ::
  "int \<Rightarrow> u32 \<Rightarrow> u32 \<Rightarrow> bool \<Rightarrow> ll_ctx \<Rightarrow> (aipu_ll_status \<times> ll_buffer option \<times> ll_ctx) option" where
  "AIPU_LL_malloc handle sz align buf s =
     (if sz = 0 then Some (AIPU_LL_STATUS_ERROR_INVALID_SIZE, None, s)
      else if \<not> buf then Some (AIPU_LL_STATUS_ERROR_INVALID_PTR, None, s)
      else if handle = 0 \<or> oi_fd (ll_info s) \<noteq> handle then Some (AIPU_LL_STATUS_ERROR_INVALID_HANDLE, None, s)
      else do {
        let desc0 = ue_uninit_buf (env_now (ll_proc s));
        (ret, desc, p) \<leftarrow> dev_op_wrapper_malloc handle AIPU_MM_DATA_TYPE_NONE sz align desc0 0 (ll_proc s);
        if ret \<noteq> 0 then Some (AIPU_LL_STATUS_ERROR_MALLOC_FAIL, None, s\<lparr>ll_proc := p\<rparr>)
        else Some (AIPU_LL_STATUS_SUCCESS,
               Some \<lparr>lb_pa = bu_pa desc - oi_shm_offset (ll_info s), lb_va = bu_va desc, lb_size = bu_size desc\<rparr>,
               s\<lparr>ll_proc := p\<rparr>)
      })"

definition AIPU_LL_free :: "int \<Rightarrow> ll_buffer option \<Rightarrow> ll_ctx \<Rightarrow> (aipu_ll_status \<times> ll_ctx) option" where
  "AIPU_LL_free handle buf s =
     (case buf of
        None \<Rightarrow> Some (AIPU_LL_STATUS_ERROR_INVALID_PTR, s)
      | Some b \<Rightarrow>
          if lb_size b = 0 \<or> lb_va b = 0 then Some (AIPU_LL_STATUS_ERROR_INVALID_PA, s)
          else if handle = 0 \<or> oi_fd (ll_info s) \<noteq> handle then Some (AIPU_LL_STATUS_ERROR_INVALID_HANDLE, s)
          else do {
            let desc = (ue_uninit_buf (env_now (ll_proc s)))\<lparr>bu_pa := lb_pa b + oi_shm_offset (ll_info s),
                  bu_va := lb_va b, bu_size := lb_size b\<rparr>;
            (ret, p) \<leftarrow> dev_op_wrapper_free handle desc (ll_proc s);
            Some (if ret \<noteq> 0 then AIPU_LL_STATUS_ERROR_FREE_FAIL else AIPU_LL_STATUS_SUCCESS, s\<lparr>ll_proc := p\<rparr>)
          })"

end
