(* ===== verification/UmdLowSpec.thy ===== *)
theory UmdLowSpec
  imports UmdLow UmdDevSpec
begin

text \<open>
  The buffers of the low-level API implement the set of buffers of the device layer, seen
  through the offset between device and host addresses.
\<close>

definition ll_buf :: "u64 \<Rightarrow> buffer_desc \<Rightarrow> ll_buffer" where
  "ll_buf off b = \<lparr>lb_pa = bu_pa b - off, lb_va = bu_va b, lb_size = bu_size b\<rparr>"

text \<open>The handle is open, and the buffers that the application holds are those of the device layer.\<close>

definition ll_rel :: "int \<Rightarrow> ll_ctx \<Rightarrow> ll_buffer set \<Rightarrow> bool" where
  "ll_rel handle s A \<longleftrightarrow> handle \<noteq> 0 \<and> oi_fd (ll_info s) = handle \<and>
     (\<exists>B. A = ll_buf (oi_shm_offset (ll_info s)) ` B \<and> dev_rel handle (ll_proc s) B)"

definition lb_range :: "ll_buffer \<Rightarrow> nat \<times> nat" where
  "lb_range b = (lb_va b, unat (lb_size b))"

lemma ll_buf_inj:
  assumes "dev_rel fd p B"
  shows "inj_on (ll_buf off) B"
proof (rule inj_onI, rule ccontr)
  fix x y assume xy: "x \<in> B" "y \<in> B" "ll_buf off x = ll_buf off y" "x \<noteq> y"
  have "buf_apart x y" using assms xy(1,2,4) by (auto simp: dev_rel_def pairwise_def)
  moreover have "0 < unat (bu_size x)" using assms xy(1) by (auto simp: dev_rel_def buf_mapped_def)
  ultimately show False using xy(3) by (auto simp: buf_apart_def apart_def ll_buf_def va_range_def)
qed


lemma lb_range_ll: "lb_range (ll_buf off b) = va_range b"
  by (simp add: lb_range_def ll_buf_def va_range_def)

text \<open>The free of the wrapper reads no more of a descriptor than the application keeps.\<close>

lemma dev_free_of_desc:
  "dev_op_wrapper_free fd (b\<lparr>bu_real_size := x, bu_region_id := y\<rparr>) p = dev_op_wrapper_free fd b p"
  by (simp add: dev_op_wrapper_free_def)

lemma ll_malloc_step:
  assumes rel: "ll_rel h s A" and k: "kernel_ok (ue_kernel (env_now (ll_proc s)))" "map_fresh (ll_proc s)"
    and q: "sz \<noteq> 0" "unat sz \<le> 2 ^ 29" "align \<noteq> 0" "sane_request (malloc_req (ll_proc s) AIPU_MM_DATA_TYPE_NONE sz align 0) (mm (priv (px_sys (ll_proc s))))"
      "ddr_cnt (mm (priv (px_sys (ll_proc s)))) \<noteq> 0"
  shows "\<exists>st r s'. AIPU_LL_malloc h sz align True s = Some (st, r, s') \<and>
    (st = AIPU_LL_STATUS_SUCCESS \<and> (\<exists>b. r = Some b \<and> unat sz \<le> unat (lb_size b) \<and>
        (\<forall>x \<in> A. apart (lb_range x) (lb_range b)) \<and> ll_rel h s' (insert b A)) \<or>
     st = AIPU_LL_STATUS_ERROR_MALLOC_FAIL \<and> r = None \<and> ll_rel h s' A)"
proof -
  let ?off = "oi_shm_offset (ll_info s)"
  obtain B where B: "A = ll_buf ?off ` B" "dev_rel h (ll_proc s) B" "h \<noteq> 0" "oi_fd (ll_info s) = h"
    using rel by (auto simp: ll_rel_def)
  obtain ret b p where m: "dev_op_wrapper_malloc h AIPU_MM_DATA_TYPE_NONE sz align (ue_uninit_buf (env_now (ll_proc s))) 0 (ll_proc s) =
      Some (ret, b, p)"
    and alt: "ret = 0 \<and> dev_rel h p (insert b B) \<and> unat sz \<le> unat (bu_size b) \<and> (\<forall>x \<in> B. buf_apart x b) \<or>
      ret \<noteq> 0 \<and> dev_rel h p B"
    using dev_malloc_effect [OF B(2) k q] by blast
  show ?thesis
  proof (cases "ret = 0")
    case True
    have "ll_rel h (s\<lparr>ll_proc := p\<rparr>) (insert (ll_buf ?off b) A)" unfolding ll_rel_def
      by (intro conjI exI [of _ "insert b B"]) (use B alt True in simp_all)
    moreover have "\<forall>x \<in> A. apart (lb_range x) (lb_range (ll_buf ?off b))"
      using alt True by (auto simp: B(1) lb_range_ll buf_apart_def)
    ultimately show ?thesis using B(3,4) q(1) m True alt by (simp add: AIPU_LL_malloc_def ll_buf_def)
  next
    case False
    then show ?thesis using B q(1) m alt by (auto simp: AIPU_LL_malloc_def ll_rel_def)
  qed
qed

lemma ll_free_step:
  assumes rel: "ll_rel h s A" and b: "b \<in> A" and k: "kernel_ok (ue_kernel (px_env (ll_proc s) (Suc (px_calls (ll_proc s)))))"
  shows "\<exists>s'. AIPU_LL_free h (Some b) s = Some (AIPU_LL_STATUS_SUCCESS, s') \<and> ll_rel h s' (A - {b})"
proof -
  let ?off = "oi_shm_offset (ll_info s)"
  obtain B where B: "A = ll_buf ?off ` B" "dev_rel h (ll_proc s) B" "h \<noteq> 0" "oi_fd (ll_info s) = h"
    using rel by (auto simp: ll_rel_def)
  obtain d where d: "d \<in> B" "b = ll_buf ?off d" using b B(1) by blast
  have mapped: "lb_size b \<noteq> 0" "lb_va b \<noteq> 0" using B(2) d by (auto simp: dev_rel_def buf_mapped_def ll_buf_def)
  obtain p where p: "dev_op_wrapper_free h d (ll_proc s) = Some (0, p)" "dev_rel h p (B - {d})"
    using dev_free_effect [OF B(2) d(1) k] by blast
  let ?u = "ue_uninit_buf (env_now (ll_proc s))"
  have "?u\<lparr>bu_pa := lb_pa b + ?off, bu_va := lb_va b, bu_size := lb_size b\<rparr> =
      d\<lparr>bu_real_size := bu_real_size ?u, bu_region_id := bu_region_id ?u\<rparr>" by (simp add: d(2) ll_buf_def)
  then have "AIPU_LL_free h (Some b) s = Some (AIPU_LL_STATUS_SUCCESS, s\<lparr>ll_proc := p\<rparr>)"
    using p(1) mapped B(3,4) by (simp add: AIPU_LL_free_def Let_def dev_free_of_desc)
  moreover have "A - {b} = ll_buf ?off ` (B - {d})"
    using inj_on_image_set_diff [OF ll_buf_inj [OF B(2), of ?off], of B "{d}"] d by (simp add: B(1))
  then have "ll_rel h (s\<lparr>ll_proc := p\<rparr>) (A - {b})" using p(2) B(3,4) by (auto simp: ll_rel_def)
  ultimately show ?thesis by blast
qed

text \<open>C23. Buffers of the low-level API refine a set of buffers. Over a driver that finds memory, an
  allocation either adds one buffer that is large enough and apart in memory from all that the application
  holds, or fails and changes nothing; a release of any buffer held succeeds and takes exactly
  that buffer away. The application sees device addresses, and the offset of the shared
  memory is taken off and put back.\<close>

theorem ll_buffers_refine:
  assumes "ll_rel h s A" "\<forall>k. kernel_ok (ue_kernel (px_env (ll_proc s) k))" "map_fresh (ll_proc s)"
    and "sz \<noteq> 0" "unat sz \<le> 2 ^ 29" "align \<noteq> 0" "ddr_cnt (mm (priv (px_sys (ll_proc s)))) \<noteq> 0"
      "sane_request (malloc_req (ll_proc s) AIPU_MM_DATA_TYPE_NONE sz align 0) (mm (priv (px_sys (ll_proc s))))"
  shows "(\<exists>st r s'. AIPU_LL_malloc h sz align True s = Some (st, r, s') \<and>
      (st = AIPU_LL_STATUS_SUCCESS \<and> (\<exists>b. r = Some b \<and> unat sz \<le> unat (lb_size b) \<and>
          (\<forall>x \<in> A. apart (lb_range x) (lb_range b)) \<and> ll_rel h s' (insert b A)) \<or>
       st = AIPU_LL_STATUS_ERROR_MALLOC_FAIL \<and> r = None \<and> ll_rel h s' A)) \<and>
    (\<forall>b \<in> A. \<exists>s'. AIPU_LL_free h (Some b) s = Some (AIPU_LL_STATUS_SUCCESS, s') \<and> ll_rel h s' (A - {b}))"
  using ll_malloc_step [OF assms(1) _ assms(3-6,8,7)] ll_free_step [OF assms(1)] assms(2) by (simp add: env_now_def)

definition demo_ll :: ll_ctx where
  "demo_ll = \<lparr>ll_info = \<lparr>oi_fd = 3, oi_shm_offset = 0x1000,
     oi_cap = \<lparr>isa_version = 0, tpc_feature = 0, aiff_feature = 0, cap_errcode = 0\<rparr>\<rparr>, ll_proc = demo_proc\<rparr>"

lemma ll_buffers_refine_witness:
  "\<exists>st r s'. AIPU_LL_malloc 3 100 1 True demo_ll = Some (st, r, s') \<and> (\<exists>A. ll_rel 3 s' A)"
proof -
  have "ll_rel 3 demo_ll {}" using demo_proc_rel by (simp add: ll_rel_def demo_ll_def)
  moreover have "map_fresh demo_proc" by (simp add: map_fresh_def demo_proc_def demo_uenv_def)
  moreover have "sane_request (malloc_req demo_proc AIPU_MM_DATA_TYPE_NONE 100 1 0) (mm (priv (px_sys demo_proc)))"
    by (simp add: sane_request_def malloc_req_def data_type_defs)
  moreover have "ddr_cnt (mm (priv (px_sys demo_proc))) \<noteq> 0" by (simp add: demo_proc_def demo_sys_def demo_mm_eq)
  ultimately show ?thesis
    using ll_buffers_refine [of 3 demo_ll "{}" 100 1] demo_kernel_ok by (auto simp: demo_ll_def)
qed

text \<open>An open of a missing device succeeds: the wrapper returns 0, and the handle is what the
  static structure holds, 0 at first and the handle of an older open later.
\<close>

theorem ll_open_without_device:
  assumes "ue_fd (env_now (ll_proc s)) < 0"
  shows "\<exists>s'. AIPU_LL_open True s = Some (AIPU_LL_STATUS_SUCCESS, Some (oi_fd (ll_info s)), s')"
  using assms by (simp add: AIPU_LL_open_def dev_op_wrapper_open_def sys_open_def Let_def)

end
