(* ===== verification/UmdHigh.thy ===== *)
theory UmdHigh
  imports UmdApi
begin

text \<open>
  The high-level API (\<open>high_level_api.h\<close>, \<open>high_level_api/high_level_api_impl.cpp\<close>): two classes over
  the standard API, the device and a graph that is run with one call. The arrays behind the descriptors
  of a graph and of its buffers belong to the standard API and are freed with them; the model
  keeps copies. Messages are left out.
\<close>

subsection \<open>State\<close>

text \<open>
  The object of a graph. The constructor sets neither \<open>info\<close> nor \<open>job_id\<close>: what they hold
  at first is an argument.
\<close>

record hl_graph =
  hg_ctx :: ptr
  hg_gdesc :: graph_desc
  hg_info :: "u32 \<times> iobuf_info"
  hg_job_id :: u32
  hg_is_buf_alloc :: bool

definition new_hl_graph :: "u32 \<times> iobuf_info \<Rightarrow> u32 \<Rightarrow> ptr \<Rightarrow> graph_desc \<Rightarrow> hl_graph" where
  "new_hl_graph uninit_info uninit_job ctx gdesc =
     \<lparr>hg_ctx = ctx, hg_gdesc = gdesc, hg_info = uninit_info, hg_job_id = uninit_job, hg_is_buf_alloc = False\<rparr>"

text \<open>The object of the device is the pointer to its context, null when it could not be opened.\<close>

definition hl_open :: "bool \<Rightarrow> umd \<Rightarrow> (ptr \<times> umd) option" where
  "hl_open uninit u = do {
     (ret, ctx, u1) \<leftarrow> AIPU_init_ctx uninit True u;
     Some (if ret \<noteq> AIPU_STATUS_SUCCESS then NULL else the ctx, u1)
   }"

definition hl_CloseDevice :: "ptr \<Rightarrow> umd \<Rightarrow> (ptr \<times> umd) option" where
  "hl_CloseDevice ctx u =
     (if ctx \<noteq> NULL then do { (_, u1) \<leftarrow> AIPU_deinit_ctx ctx u; Some (NULL, u1) } else Some (ctx, u))"

definition hl_LoadGraph ::
  "u32 \<times> iobuf_info \<Rightarrow> u32 \<Rightarrow> ptr \<Rightarrow> file_env option \<Rightarrow> umd \<Rightarrow> (hl_graph option \<times> umd) option" where
  "hl_LoadGraph uninit_info uninit_job ctx filename u = do {
     (ret, gdesc, u1) \<leftarrow> AIPU_load_graph_helper ctx filename True u;
     if ret \<noteq> AIPU_STATUS_SUCCESS then Some (None, u1)
     else Some (map_option (new_hl_graph uninit_info uninit_job ctx) gdesc, u1)
   }"

subsection \<open>Tensors\<close>

definition GetInputTensorNumber :: "hl_graph \<Rightarrow> nat" where
  "GetInputTensorNumber g = length (gd_inputs (hg_gdesc g))"

definition GetOutputTensorNumber :: "hl_graph \<Rightarrow> nat" where
  "GetOutputTensorNumber g = length (gd_outputs (hg_gdesc g))"

definition hl_inputs :: "hl_graph \<Rightarrow> io_buffer list" where
  "hl_inputs g = iob_inputs (snd (hg_info g))"

definition hl_outputs :: "hl_graph \<Rightarrow> io_buffer list" where
  "hl_outputs g = iob_outputs (snd (hg_info g))"

definition tensor_size :: "u32 \<times> u32 \<times> aipu_tensor_fmt \<Rightarrow> nat" where
  "tensor_size d = unat (fst (snd d))"

text \<open>The buffers are allocated before the first load.\<close>

definition alloc_once :: "hl_graph \<Rightarrow> umd \<Rightarrow> (aipu_status \<times> hl_graph \<times> umd) option" where
  "alloc_once g u =
     (if \<not> hg_is_buf_alloc g
      then do {
        (ret, info, u1) \<leftarrow> AIPU_alloc_tensor_buffers (hg_ctx g) (Some (gd_id (hg_gdesc g))) True u;
        if ret \<noteq> AIPU_STATUS_SUCCESS then Some (ret, g, u1)
        else Some (ret, g\<lparr>hg_info := (case info of Some b \<Rightarrow> b | None \<Rightarrow> hg_info g), hg_is_buf_alloc := True\<rparr>, u1)
      }
      else Some (AIPU_STATUS_SUCCESS, g, u))"

text \<open>A negative index is a large unsigned one. The data is copied in the size of the tensor, however long it is.\<close>

definition LoadInputTensor :: "int \<Rightarrow> u8 list option \<Rightarrow> hl_graph \<Rightarrow> umd \<Rightarrow> (int \<times> hl_graph \<times> umd) option" where
  "LoadInputTensor i data g u =
     (let n = unat (word_of_int i :: u32) in
      if length (gd_inputs (hg_gdesc g)) \<le> n then Some (-2, g, u)
      else (case data of
        None \<Rightarrow> Some (-3, g, u)
      | Some bytes \<Rightarrow> do {
          (ret, g1, u1) \<leftarrow> alloc_once g u;
          if ret \<noteq> AIPU_STATUS_SUCCESS then Some (int (status_code ret), g1, u1)
          else if n < length (hl_inputs g1)
          then do {
            p \<leftarrow> load_buffer bytes (iob_va (hl_inputs g1 ! n)) 0 (tensor_size (gd_inputs (hg_gdesc g1) ! n)) (um_proc u1);
            Some (0, g1, u1\<lparr>um_proc := p\<rparr>)
          }
          else None
        }))"

definition LoadInputTensor_file :: "int \<Rightarrow> file_env \<Rightarrow> hl_graph \<Rightarrow> umd \<Rightarrow> (int \<times> hl_graph \<times> umd) option" where
  "LoadInputTensor_file i filename g u =
     (case umd_mmap_file_helper filename of
        (ret, None) \<Rightarrow> Some (int (status_code ret), g, u)
      | (ret, Some (data, file_size)) \<Rightarrow> LoadInputTensor i (Some data) g u)"

text \<open>Characters are unsigned in the build for ARM.\<close>

fun load_chars :: "proc \<Rightarrow> addr \<Rightarrow> nat \<Rightarrow> int list option" where
  "load_chars p a 0 = Some []"
| "load_chars p a (Suc n) = do { b \<leftarrow> ux_load p a; bs \<leftarrow> load_chars p (a + 1) n; Some (uint b # bs) }"

definition GetOutputTensor :: "int \<Rightarrow> hl_graph \<Rightarrow> umd \<Rightarrow> int list option" where
  "GetOutputTensor i g u =
     (let n = unat (word_of_int i :: u32) in
      if length (hl_outputs g) \<le> n then Some []
      else if n < length (gd_outputs (hg_gdesc g))
      then load_chars (um_proc u) (iob_va (hl_outputs g ! n)) (tensor_size (gd_outputs (hg_gdesc g) ! n))
      else None)"

subsection \<open>Runs\<close>

text \<open>\<open>others\<close> and \<open>uninit\<close>: the arguments of the wait for the job.\<close>

definition hl_Run :: "(graph \<Rightarrow> graph) list \<Rightarrow> u32 \<Rightarrow> hl_graph \<Rightarrow> umd \<Rightarrow> (aipu_status \<times> hl_graph \<times> umd) option" where
  "hl_Run others uninit g u = do {
     (g1, u1) \<leftarrow> if hg_job_id g \<noteq> 0
       then do { (_, _, u1) \<leftarrow> AIPU_clean_job (hg_ctx g) (hg_job_id g) u; Some (g\<lparr>hg_job_id := 0\<rparr>, u1) }
       else Some (g, u);
     (ret, jid, u2) \<leftarrow> AIPU_create_job (hg_ctx g1) (Some (gd_id (hg_gdesc g1))) (fst (hg_info g1)) True u1;
     if ret \<noteq> AIPU_STATUS_SUCCESS then Some (ret, g1, u2)
     else do {
       let g2 = g1\<lparr>hg_job_id := (case jid of Some j \<Rightarrow> j | None \<Rightarrow> hg_job_id g1)\<rparr>;
       (ret, _, u3) \<leftarrow> AIPU_finish_job others uninit (hg_ctx g2) (hg_job_id g2) (-1) u2;
       Some (ret, g2, u3)
     }
   }"

fun get_outputs :: "nat list \<Rightarrow> hl_graph \<Rightarrow> umd \<Rightarrow> int list list option" where
  "get_outputs [] g u = Some []"
| "get_outputs (i # is) g u = do { d \<leftarrow> GetOutputTensor (int i) g u; ds \<leftarrow> get_outputs is g u; Some (d # ds) }"

text \<open>The number of inputs is read again before each turn of the loop.\<close>

fun load_files :: "nat \<Rightarrow> file_env list \<Rightarrow> hl_graph \<Rightarrow> umd \<Rightarrow> (hl_graph \<times> umd) option" where
  "load_files i [] g u = Some (g, u)"
| "load_files i (f # fs) g u =
     (if i < length (hl_inputs g)
      then do { (_, g1, u1) \<leftarrow> LoadInputTensor_file (int i) f g u; load_files (i + 1) fs g1 u1 }
      else Some (g, u))"

definition hl_Run_files ::
  "(graph \<Rightarrow> graph) list \<Rightarrow> u32 \<Rightarrow> file_env list \<Rightarrow> hl_graph \<Rightarrow> umd \<Rightarrow> (int list list \<times> hl_graph \<times> umd) option" where
  "hl_Run_files others uninit input_files g u = do {
     (g1, u1) \<leftarrow> load_files 0 input_files g u;
     (_, g2, u2) \<leftarrow> hl_Run others uninit g1 u1;
     results \<leftarrow> get_outputs [0..<length (hl_outputs g2)] g2 u2;
     Some (results, g2, u2)
   }"

text \<open>
  The loop over vectors compares \<open>i\<close> with the truth value of its condition, which is 0 or 1.
  A vector is an array of 32-bit numbers; the address of the first element of an empty one
  is not defined.
\<close>

definition int_bytes :: "u32 list \<Rightarrow> u8 list" where
  "int_bytes v = concat (map (\<lambda>w. [ucast w, ucast (drop_bit 8 w), ucast (drop_bit 16 w), ucast (drop_bit 24 w)]) v)"

function load_vectors :: "nat \<Rightarrow> u32 list list \<Rightarrow> hl_graph \<Rightarrow> umd \<Rightarrow> (hl_graph \<times> umd) option" where
  "load_vectors i inputs g u =
     (if i < of_bool (i < length (hl_inputs g) \<and> i < length inputs)
      then (if inputs ! i = [] then None
            else do {
              (_, g1, u1) \<leftarrow> LoadInputTensor (int i) (Some (int_bytes (inputs ! i))) g u;
              load_vectors (i + 1) inputs g1 u1
            })
      else Some (g, u))"
  by pat_completeness auto

termination
  by (relation "measure (\<lambda>(i, _). 2 - i)") (auto split: if_splits simp: of_bool_def)

declare load_vectors.simps [simp del]

definition hl_Run_vectors ::
  "(graph \<Rightarrow> graph) list \<Rightarrow> u32 \<Rightarrow> u32 list list \<Rightarrow> hl_graph \<Rightarrow> umd \<Rightarrow> (int list list \<times> hl_graph \<times> umd) option" where
  "hl_Run_vectors others uninit inputs g u = do {
     (g1, u1) \<leftarrow> load_vectors 0 inputs g u;
     (_, g2, u2) \<leftarrow> hl_Run others uninit g1 u1;
     results \<leftarrow> get_outputs [0..<length (hl_outputs g2)] g2 u2;
     Some (results, g2, u2)
   }"

definition hl_UnloadGraph :: "hl_graph \<Rightarrow> umd \<Rightarrow> (aipu_status \<times> hl_graph \<times> umd) option" where
  "hl_UnloadGraph g u = do {
     (g1, u1) \<leftarrow> if hg_job_id g \<noteq> 0
       then do {
         (_, _, u1) \<leftarrow> AIPU_clean_job (hg_ctx g) (hg_job_id g) u;
         (_, _, u2) \<leftarrow> AIPU_free_tensor_buffers (hg_ctx g) (fst (hg_info g)) u1;
         Some (g\<lparr>hg_job_id := 0\<rparr>, u2)
       }
       else Some (g, u);
     (ret, _, u2) \<leftarrow> AIPU_unload_graph (hg_ctx g1) (Some (gd_id (hg_gdesc g1))) u1;
     Some (ret, g1, u2)
   }"

end
