(* ===== verification/UmdHighSpec.thy ===== *)
theory UmdHighSpec
  imports UmdHigh UmdApiSpec
begin

text \<open>
  The high-level API does nothing that an application could not do with the standard API,
  and what the loading of inputs does, one tensor or a list of files.
\<close>

subsection \<open>Sequences of calls\<close>

definition api_steps :: "umd \<Rightarrow> umd \<Rightarrow> bool" where
  "api_steps = (\<lambda>u u'. \<exists>x. umd_step x u u')\<^sup>*\<^sup>*"

lemma api_steps_refl [simp]: "api_steps u u"
  by (simp add: api_steps_def)

lemma api_steps_trans: "api_steps u v \<Longrightarrow> api_steps v w \<Longrightarrow> api_steps u w"
  by (simp add: api_steps_def)

lemma api_step: "umd_step x u u' \<Longrightarrow> api_steps u u'"
  unfolding api_steps_def by (rule r_into_rtranclp) blast

lemma load_buffer_phys: "load_buffer bin a src n p = Some p' \<Longrightarrow> \<exists>m. p' = p\<lparr>px_phys := m\<rparr>"
proof (induction n arbitrary: a src p)
  case 0
  then have "p' = p\<lparr>px_phys := px_phys p\<rparr>" by simp
  then show ?case by blast
next
  case (Suc n)
  then obtain p1 where "ux_store a (bin ! src) p = Some p1" "load_buffer bin (a + 1) (src + 1) n p1 = Some p'"
    by (auto split: if_splits elim!: bind_SomeE)
  then show ?case using Suc.IH [of "a + 1" "src + 1" p1] by (auto simp: ux_store_def)
qed

lemma api_steps_app: "load_buffer bin a src n (um_proc u) = Some p \<Longrightarrow> api_steps u (u\<lparr>um_proc := p\<rparr>)"
  using load_buffer_phys [of bin a src n "um_proc u" p] api_step [OF umd_step.app] by blast

lemma open_steps: "hl_open b u = Some (x, u') \<Longrightarrow> api_steps u u'"
  by (auto simp: hl_open_def elim!: bind_SomeE dest: api_step [OF umd_step.init])

lemma close_steps: "hl_CloseDevice x u = Some (x', u') \<Longrightarrow> api_steps u u'"
  by (auto simp: hl_CloseDevice_def elim!: bind_SomeE dest: api_step [OF umd_step.deinit] split: if_splits)

lemma load_graph_steps: "hl_LoadGraph ui uj x f u = Some (g, u') \<Longrightarrow> api_steps u u'"
  by (auto simp: hl_LoadGraph_def elim!: bind_SomeE dest: api_step [OF umd_step.load_file] split: if_splits)

lemma alloc_once_steps: "alloc_once g u = Some (ret, g1, u1) \<Longrightarrow> api_steps u u1"
  by (auto simp: alloc_once_def elim!: bind_SomeE dest: api_step [OF umd_step.alloc] split: if_splits)

lemma load_input_steps:
  assumes "LoadInputTensor i data g u = Some (r, g', u')"
  shows "api_steps u u'"
proof (cases "u' = u")
  case False
  then obtain bytes where b: "data = Some bytes" "\<not> length (gd_inputs (hg_gdesc g)) \<le> unat (word_of_int i :: u32)"
    using assms by (cases data) (auto simp: LoadInputTensor_def Let_def split: if_splits)
  then obtain ret g1 u1 where 1: "alloc_once g u = Some (ret, g1, u1)" using assms
    by (auto simp: LoadInputTensor_def Let_def elim!: bind_SomeE)
  have "u' = u1 \<or> (\<exists>a n p. load_buffer bytes a 0 n (um_proc u1) = Some p \<and> u' = u1\<lparr>um_proc := p\<rparr>)"
    using assms b 1 by (auto simp: LoadInputTensor_def Let_def simp del: load_buffer.simps elim!: bind_SomeE split: if_splits)
  then show ?thesis using alloc_once_steps [OF 1] api_steps_app api_steps_trans by blast
qed simp

lemma load_input_file_steps: "LoadInputTensor_file i f g u = Some (r, g', u') \<Longrightarrow> api_steps u u'"
  by (auto simp: LoadInputTensor_file_def split: prod.splits option.splits dest: load_input_steps)

lemma load_files_steps: "load_files i fs g u = Some (g', u') \<Longrightarrow> api_steps u u'"
proof (induction i fs g u rule: load_files.induct)
  case (2 i f fs g u)
  show ?case
  proof (cases "i < length (hl_inputs g)")
    case True
    then obtain r g1 u1 where s: "LoadInputTensor_file (int i) f g u = Some (r, g1, u1)" "load_files (i + 1) fs g1 u1 = Some (g', u')"
      using "2.prems" by (auto elim!: bind_SomeE)
    have "api_steps u1 u'" using "2.IH" [OF True s(1) refl refl s(2)] .
    then show ?thesis by (rule api_steps_trans [OF load_input_file_steps [OF s(1)]])
  qed (use "2.prems" in simp)
qed simp

lemma load_vectors_steps: "load_vectors i vs g u = Some (g', u') \<Longrightarrow> api_steps u u'"
proof (induction i vs g u rule: load_vectors.induct)
  case (1 i vs g u)
  show ?case
  proof (cases "i < of_bool (i < length (hl_inputs g) \<and> i < length vs)")
    case True
    then obtain r g1 u1 where s: "LoadInputTensor (int i) (Some (int_bytes (vs ! i))) g u = Some (r, g1, u1)" "vs ! i \<noteq> []"
      "load_vectors (i + 1) vs g1 u1 = Some (g', u')"
      using "1.prems" by (subst (asm) load_vectors.simps) (auto elim!: bind_SomeE split: if_splits)
    have "api_steps u1 u'" using "1.IH" [OF True s(2,1) refl refl s(3)] .
    then show ?thesis by (rule api_steps_trans [OF load_input_steps [OF s(1)]])
  next
    case False
    then have "u' = u" using "1.prems" by (subst (asm) load_vectors.simps) (simp split: if_splits)
    then show ?thesis by simp
  qed
qed

text \<open>A run cleans, creates and finishes a job, whatever the steps return.\<close>

lemma run_steps:
  assumes "steps_of_others ws" "hl_Run ws s0 g u = Some (st, g', u')"
  shows "api_steps u u'"
proof -
  obtain g1 u1 where 1: "(if hg_job_id g \<noteq> 0
       then do { (_, _, u1) \<leftarrow> AIPU_clean_job (hg_ctx g) (hg_job_id g) u; Some (g\<lparr>hg_job_id := 0\<rparr>, u1) }
       else Some (g, u)) = Some (g1, u1)"
    using assms(2) unfolding hl_Run_def by (auto elim!: bind_SomeE split: if_splits)
  have s1: "api_steps u u1" using 1 by (auto elim!: bind_SomeE dest: api_step [OF umd_step.clean] split: if_splits)
  obtain ret jid u2 where 2: "AIPU_create_job (hg_ctx g1) (Some (gd_id (hg_gdesc g1))) (fst (hg_info g1)) True u1 = Some (ret, jid, u2)"
    using assms(2) 1 unfolding hl_Run_def by (auto elim!: bind_SomeE)
  have s2: "api_steps u1 u2" by (rule api_step [OF umd_step.create [OF 2]])
  have "u' = u2 \<or> (\<exists>x j ret d. AIPU_finish_job ws s0 x j (-1) u2 = Some (ret, d, u'))"
    using assms(2) 1 2 unfolding hl_Run_def by (auto simp: Let_def elim!: bind_SomeE split: if_splits)
  then have "api_steps u2 u'" using api_step [OF umd_step.finish [OF _ assms(1)]] by auto
  then show ?thesis using s1 s2 api_steps_trans by blast
qed

lemma unload_steps:
  assumes "hl_UnloadGraph g u = Some (st, g', u')"
  shows "api_steps u u'"
proof -
  obtain g1 u1 where 1: "(if hg_job_id g \<noteq> 0
       then do {
         (_, _, u1) \<leftarrow> AIPU_clean_job (hg_ctx g) (hg_job_id g) u;
         (_, _, u2) \<leftarrow> AIPU_free_tensor_buffers (hg_ctx g) (fst (hg_info g)) u1;
         Some (g\<lparr>hg_job_id := 0\<rparr>, u2)
       }
       else Some (g, u)) = Some (g1, u1)"
    using assms unfolding hl_UnloadGraph_def by (auto elim!: bind_SomeE split: if_splits)
  have "u1 = u \<or> (\<exists>v a b c d e f h i. AIPU_clean_job a b u = Some (c, d, v) \<and> AIPU_free_tensor_buffers e f v = Some (h, i, u1))"
    using 1 by (auto elim!: bind_SomeE split: if_splits)
  then have s1: "api_steps u u1" using api_step [OF umd_step.clean] api_step [OF umd_step.free] api_steps_trans
    by (metis api_steps_refl)
  have "\<exists>a b c d. AIPU_unload_graph a b u1 = Some (c, d, u')"
    using assms 1 unfolding hl_UnloadGraph_def by (auto elim!: bind_SomeE)
  then have "api_steps u1 u'" using api_step [OF umd_step.unload] by blast
  then show ?thesis by (rule api_steps_trans [OF s1])
qed


subsection \<open>Properties\<close>

text \<open>One call of the high-level API.\<close>

inductive hl_step :: "umd \<Rightarrow> umd \<Rightarrow> bool" where
  open_dev: "hl_open b u = Some (x, u') \<Longrightarrow> hl_step u u'"
| close_dev: "hl_CloseDevice x u = Some (x', u') \<Longrightarrow> hl_step u u'"
| load_graph: "hl_LoadGraph ui uj x f u = Some (g, u') \<Longrightarrow> hl_step u u'"
| load_tensor: "LoadInputTensor i data g u = Some (r, g', u') \<Longrightarrow> hl_step u u'"
| load_tensor_file: "LoadInputTensor_file i f g u = Some (r, g', u') \<Longrightarrow> hl_step u u'"
| run: "hl_Run ws s0 g u = Some (st, g', u') \<Longrightarrow> steps_of_others ws \<Longrightarrow> hl_step u u'"
| run_files: "hl_Run_files ws s0 fs g u = Some (ds, g', u') \<Longrightarrow> steps_of_others ws \<Longrightarrow> hl_step u u'"
| run_vectors: "hl_Run_vectors ws s0 vs g u = Some (ds, g', u') \<Longrightarrow> steps_of_others ws \<Longrightarrow> hl_step u u'"
| unload: "hl_UnloadGraph g u = Some (st, g', u') \<Longrightarrow> hl_step u u'"

lemma hl_step_api: "hl_step u u' \<Longrightarrow> api_steps u u'"
proof (induction rule: hl_step.induct)
  case (run_files ws s0 fs g u ds g' u')
  then obtain g1 u1 st g2 where "load_files 0 fs g u = Some (g1, u1)" "hl_Run ws s0 g1 u1 = Some (st, g2, u')"
    by (auto simp: hl_Run_files_def elim!: bind_SomeE)
  then show ?case using load_files_steps run_steps [OF run_files(2)] api_steps_trans by blast
next
  case (run_vectors ws s0 vs g u ds g' u')
  then obtain g1 u1 st g2 where "load_vectors 0 vs g u = Some (g1, u1)" "hl_Run ws s0 g1 u1 = Some (st, g2, u')"
    by (auto simp: hl_Run_vectors_def elim!: bind_SomeE)
  then show ?case using load_vectors_steps run_steps [OF run_vectors(2)] api_steps_trans by blast
qed (rule open_steps close_steps load_graph_steps load_input_steps load_input_file_steps run_steps unload_steps; assumption)+

text \<open>The high-level API refines the standard API: whatever sequence of its calls a program makes, with
  whatever results and whatever the uninitialised fields of its objects hold, the state is one that
  calls of the standard API reach, so its invariants hold in it.\<close>

theorem hl_refines_api:
  assumes "umd_reachable p u" "hl_step\<^sup>*\<^sup>* u u'"
  shows "umd_reachable p u'"
proof -
  have "api_steps u u'" using assms(2)
    by (induction rule: rtranclp_induct) (auto intro: api_steps_trans hl_step_api)
  then show ?thesis using assms(1) by (simp add: umd_reachable_def api_steps_def)
qed

lemma hl_refines_api_witness:
  "\<exists>u. hl_step\<^sup>*\<^sup>* (umd_start two_proc) u \<and> um_handles u 1 \<noteq> None \<and> umd_reachable two_proc u"
proof -
  obtain u1 u2 where s: "AIPU_init_ctx False True (umd_start two_proc) = Some (AIPU_STATUS_SUCCESS, Some 1, u1)"
    "AIPU_init_ctx False True u1 = Some (AIPU_STATUS_SUCCESS, Some 2, u2)" "um_handles u2 1 \<noteq> None" using two_contexts by blast
  have "hl_open False (umd_start two_proc) = Some (1, u1)" "hl_open False u1 = Some (2, u2)"
    using s by (simp_all add: hl_open_def)
  then have "hl_step\<^sup>*\<^sup>* (umd_start two_proc) u2"
    by (meson hl_step.open_dev rtranclp.rtrancl_into_rtrancl rtranclp.rtrancl_refl)
  moreover have "umd_reachable two_proc (umd_start two_proc)" by (simp add: umd_reachable_def)
  ultimately show ?thesis using hl_refines_api [of two_proc "umd_start two_proc" u2] s(3) by blast
qed

text \<open>C33. Loading an input of a graph whose buffers are allocated copies the data of the tensor, and no
  more, to the place of that input, returns 0, and allocates nothing.\<close>

theorem hl_load_input_copies:
  assumes "hg_is_buf_alloc g" "n < 2 ^ 32" "n < length (gd_inputs (hg_gdesc g))" "n < length (hl_inputs g)"
    and "tensor_size (gd_inputs (hg_gdesc g) ! n) = sz" "sz \<le> length bytes" "sz \<le> length old"
    and "holds_bytes (um_proc u) (iob_va (hl_inputs g ! n)) old"
  shows "\<exists>mem. LoadInputTensor (int n) (Some bytes) g u = Some (0, g, u\<lparr>um_proc := (um_proc u)\<lparr>px_phys := mem\<rparr>\<rparr>) \<and>
    holds_bytes ((um_proc u)\<lparr>px_phys := mem\<rparr>) (iob_va (hl_inputs g ! n)) (take sz bytes @ drop sz old)"
proof -
  have n: "unat (word_of_int (int n) :: u32) = n" using assms(2) by (simp add: unsigned_of_nat take_bit_nat_eq_self)
  obtain m where m: "load_buffer bytes (iob_va (hl_inputs g ! n)) 0 sz (um_proc u) = Some ((um_proc u)\<lparr>px_phys := m\<rparr>)"
    "holds_bytes ((um_proc u)\<lparr>px_phys := m\<rparr>) (iob_va (hl_inputs g ! n)) (take sz bytes @ drop sz old)"
    using load_buffer_holds [OF assms(8), of 0 sz 0 bytes] assms(6,7) by auto
  then show ?thesis using assms(1,3-5) n
    by (intro exI [of _ m]) (simp add: LoadInputTensor_def alloc_once_def Let_def)
qed

definition hl_demo :: hl_graph where
  "hl_demo = \<lparr>hg_ctx = 1, hg_gdesc = (empty_gdesc 1)\<lparr>gd_inputs := [(0, 2, \<lparr>fmt_layout = 0, fmt_shape = \<lparr>shape_N = 1, shape_H = 1, shape_W = 1, shape_C = 2\<rparr>, fmt_data_type = 1\<rparr>)]\<rparr>,
     hg_info = (1, \<lparr>iob_inputs = [\<lparr>iob_id = 0, iob_size = 2, iob_va = 4096, iob_pa = 0\<rparr>], iob_outputs = [], iob_inter_dumps = [],
       iob_pdata = [], iob_plog_data = []\<rparr>), hg_job_id = 0, hg_is_buf_alloc = True\<rparr>"

lemma hl_load_input_copies_witness:
  "\<exists>u'. LoadInputTensor 0 (Some [7, 8, 9]) hl_demo (umd_start (demo_proc\<lparr>px_map := Some, px_phys := \<lambda>_. 0\<rparr>)) = Some (0, hl_demo, u') \<and>
     holds_bytes (um_proc u') 4096 [7, 8, 0]"
proof -
  let ?u = "umd_start (demo_proc\<lparr>px_map := Some, px_phys := \<lambda>_. 0\<rparr>)"
  have h: "holds_bytes (um_proc ?u) 4096 [0, 0, 0]" unfolding holds_bytes_def
    by (rule exI [of _ "[4096, 4097, 4098]"]) (auto simp: umd_start_def less_Suc_eq numeral_3_eq_3)
  have d: "hg_is_buf_alloc hl_demo" "length (gd_inputs (hg_gdesc hl_demo)) = 1" "length (hl_inputs hl_demo) = 1"
    "tensor_size (gd_inputs (hg_gdesc hl_demo) ! 0) = 2" "iob_va (hl_inputs hl_demo ! 0) = 4096"
    by (simp_all add: hl_demo_def hl_inputs_def tensor_size_def)
  show ?thesis using hl_load_input_copies [of hl_demo 0 2 "[7, 8, 9]" "[0, 0, 0]" ?u] d h by auto
qed

subsection \<open>Inputs from files\<close>

text \<open>Where byte \<open>x\<close> of input \<open>i\<close> of a graph is, and the physical byte behind it.\<close>

definition input_byte :: "proc \<Rightarrow> hl_graph \<Rightarrow> nat \<Rightarrow> nat \<Rightarrow> nat option" where
  "input_byte p g i x = px_map p (iob_va (hl_inputs g ! i) + x)"

definition input_size :: "hl_graph \<Rightarrow> nat \<Rightarrow> nat" where
  "input_size g i = unat (fst (snd (gd_inputs (hg_gdesc g) ! i)))"

lemma input_byte_phys [simp]: "input_byte (p\<lparr>px_phys := m\<rparr>) g i x = input_byte p g i x"
  by (simp add: input_byte_def)

text \<open>The inputs are mapped, and no two of their bytes are the same.\<close>

definition inputs_apart :: "proc \<Rightarrow> hl_graph \<Rightarrow> bool" where
  "inputs_apart p g \<longleftrightarrow> (\<forall>i < length (hl_inputs g). \<forall>x < input_size g i. input_byte p g i x \<noteq> None \<and>
     (\<forall>j < length (hl_inputs g). \<forall>y < input_size g j. input_byte p g i x = input_byte p g j y \<longrightarrow> i = j \<and> x = y))"

definition file_holds :: "file_env \<Rightarrow> u8 list \<Rightarrow> bool" where
  "file_holds f bs \<longleftrightarrow> fe_stat f \<noteq> None \<and> 0 < fe_open f \<and> fe_map f = Some bs"

lemma load_buffer_mem:
  assumes "\<forall>x < n. px_map p (a + x) \<noteq> None" "\<forall>x < n. \<forall>y < n. px_map p (a + x) = px_map p (a + y) \<longrightarrow> x = y" "src + n \<le> length bin"
  shows "\<exists>m. load_buffer bin a src n p = Some (p\<lparr>px_phys := m\<rparr>) \<and> (\<forall>x < n. \<forall>pa. px_map p (a + x) = Some pa \<longrightarrow> m pa = bin ! (src + x)) \<and>
    (\<forall>pa. (\<forall>x < n. px_map p (a + x) \<noteq> Some pa) \<longrightarrow> m pa = px_phys p pa)"
  using assms
proof (induction n arbitrary: a src p)
  case 0
  have "p = p\<lparr>px_phys := px_phys p\<rparr>" by simp
  then show ?case by (metis less_nat_zero_code load_buffer.simps(1))
next
  case (Suc n)
  obtain pa0 where pa0: "px_map p a = Some pa0" using Suc.prems(1) by force
  let ?p = "p\<lparr>px_phys := (px_phys p)(pa0 := bin ! src)\<rparr>"
  have st: "ux_store a (bin ! src) p = Some ?p" using pa0 by (simp add: ux_store_def)
  have "\<forall>x < n. px_map ?p (a + 1 + x) \<noteq> None"
    "\<forall>x < n. \<forall>y < n. px_map ?p (a + 1 + x) = px_map ?p (a + 1 + y) \<longrightarrow> x = y" "src + 1 + n \<le> length bin"
    using Suc.prems(1) [rule_format, of "Suc _"] Suc.prems(2) [rule_format, of "Suc _" "Suc _"] Suc.prems(3) by auto
  from Suc.IH [OF this] obtain m where m: "load_buffer bin (a + 1) (src + 1) n ?p = Some (?p\<lparr>px_phys := m\<rparr>)"
    "\<forall>x < n. \<forall>pa. px_map p (a + 1 + x) = Some pa \<longrightarrow> m pa = bin ! (src + 1 + x)"
    "\<forall>pa. (\<forall>x < n. px_map p (a + 1 + x) \<noteq> Some pa) \<longrightarrow> m pa = px_phys ?p pa" by auto
  have o: "\<forall>x < n. px_map p (a + 1 + x) \<noteq> Some pa0" using Suc.prems(2) [rule_format, of 0 "Suc _"] pa0 by force
  have "load_buffer bin a src (Suc n) p = Some (p\<lparr>px_phys := m\<rparr>)" using m(1) st Suc.prems(3) by simp
  moreover have "m pa = bin ! (src + x)" if "x < Suc n" "px_map p (a + x) = Some pa" for x pa
    using that m(2,3) o pa0 by (cases x) auto
  moreover have "m pa = px_phys p pa" if "\<forall>x < Suc n. px_map p (a + x) \<noteq> Some pa" for pa
  proof -
    have "\<forall>x < n. px_map p (a + 1 + x) \<noteq> Some pa" using that [rule_format, of "Suc _"] by simp
    moreover have "pa \<noteq> pa0" using that [rule_format, of 0] pa0 by auto
    ultimately show ?thesis using m(3) by simp
  qed
  ultimately show ?case by blast
qed

text \<open>One file, loaded as input \<open>i\<close>.\<close>

lemma load_input_file_mem:
  assumes "hg_is_buf_alloc g" "i < length (hl_inputs g)" "length (gd_inputs (hg_gdesc g)) = length (hl_inputs g)" "length (hl_inputs g) \<le> 2 ^ 32"
    and "inputs_apart (um_proc u) g" "file_holds f bs" "input_size g i \<le> length bs"
  shows "\<exists>m. LoadInputTensor_file (int i) f g u = Some (0, g, u\<lparr>um_proc := (um_proc u)\<lparr>px_phys := m\<rparr>\<rparr>) \<and>
    (\<forall>x < input_size g i. \<forall>pa. input_byte (um_proc u) g i x = Some pa \<longrightarrow> m pa = bs ! x) \<and>
    (\<forall>pa. (\<forall>x < input_size g i. input_byte (um_proc u) g i x \<noteq> Some pa) \<longrightarrow> m pa = px_phys (um_proc u) pa)"
proof -
  have n: "unat (word_of_int (int i) :: u32) = i" using assms(2,4) by (simp add: unsigned_of_nat take_bit_nat_eq_self)
  obtain m where m: "load_buffer bs (iob_va (hl_inputs g ! i)) 0 (input_size g i) (um_proc u) = Some ((um_proc u)\<lparr>px_phys := m\<rparr>)"
    "\<forall>x < input_size g i. \<forall>pa. input_byte (um_proc u) g i x = Some pa \<longrightarrow> m pa = bs ! x"
    "\<forall>pa. (\<forall>x < input_size g i. input_byte (um_proc u) g i x \<noteq> Some pa) \<longrightarrow> m pa = px_phys (um_proc u) pa"
    using load_buffer_mem [of "input_size g i" "um_proc u" "iob_va (hl_inputs g ! i)" 0 bs] assms(2,5,7)
    by (auto simp: inputs_apart_def input_byte_def)
  have "LoadInputTensor_file (int i) f g u = Some (0, g, u\<lparr>um_proc := (um_proc u)\<lparr>px_phys := m\<rparr>\<rparr>)"
    using m(1) assms(1-3,6) n
    by (auto simp: LoadInputTensor_file_def umd_mmap_file_helper_def file_holds_def LoadInputTensor_def alloc_once_def Let_def
        tensor_size_def input_size_def)
  then show ?thesis using m(2,3) by blast
qed

definition input_loaded :: "proc \<Rightarrow> hl_graph \<Rightarrow> (nat \<Rightarrow> u8) \<Rightarrow> nat \<Rightarrow> u8 list \<Rightarrow> bool" where
  "input_loaded p g mem i bs \<longleftrightarrow> (\<forall>x < input_size g i. \<forall>pa. input_byte p g i x = Some pa \<longrightarrow> mem pa = bs ! x)"

lemma load_files_mem:
  assumes "hg_is_buf_alloc g" "length (gd_inputs (hg_gdesc g)) = length (hl_inputs g)" "length (hl_inputs g) \<le> 2 ^ 32"
    and "inputs_apart (um_proc u) g" "list_all2 file_holds fs bss"
    and "\<forall>j < length fs. k + j < length (hl_inputs g) \<longrightarrow> input_size g (k + j) \<le> length (bss ! j)"
  shows "\<exists>m. load_files k fs g u = Some (g, u\<lparr>um_proc := (um_proc u)\<lparr>px_phys := m\<rparr>\<rparr>) \<and>
    (\<forall>j < length fs. k + j < length (hl_inputs g) \<longrightarrow> input_loaded (um_proc u) g m (k + j) (bss ! j)) \<and>
    (\<forall>pa. (\<forall>j < length fs. k + j < length (hl_inputs g) \<longrightarrow> (\<forall>x < input_size g (k + j). input_byte (um_proc u) g (k + j) x \<noteq> Some pa))
       \<longrightarrow> m pa = px_phys (um_proc u) pa)"
  using assms(4-6)
proof (induction fs arbitrary: k u bss)
  case Nil
  have "u = u\<lparr>um_proc := (um_proc u)\<lparr>px_phys := px_phys (um_proc u)\<rparr>\<rparr>" by simp
  then show ?case by (metis list.size(3) load_files.simps(1) not_less_zero)
next
  case (Cons f fs)
  show ?case
  proof (cases "k < length (hl_inputs g)")
    case False
    have "u = u\<lparr>um_proc := (um_proc u)\<lparr>px_phys := px_phys (um_proc u)\<rparr>\<rparr>" by simp
    then have "load_files k (f # fs) g u = Some (g, u\<lparr>um_proc := (um_proc u)\<lparr>px_phys := px_phys (um_proc u)\<rparr>\<rparr>)" using False by simp
    then show ?thesis using False by (intro exI [of _ "px_phys (um_proc u)"]) auto
  next
    case True
    obtain bs bss' where b: "bss = bs # bss'" "file_holds f bs" "list_all2 file_holds fs bss'"
      using Cons.prems(2) by (auto simp: list_all2_Cons1)
    have "input_size g k \<le> length bs" using Cons.prems(3) [rule_format, of 0] True b(1) by simp
    from load_input_file_mem [OF assms(1) True assms(2,3) Cons.prems(1) b(2) this]
    obtain m0 where m0: "LoadInputTensor_file (int k) f g u = Some (0, g, u\<lparr>um_proc := (um_proc u)\<lparr>px_phys := m0\<rparr>\<rparr>)"
      "input_loaded (um_proc u) g m0 k bs"
      "\<forall>pa. (\<forall>x < input_size g k. input_byte (um_proc u) g k x \<noteq> Some pa) \<longrightarrow> m0 pa = px_phys (um_proc u) pa"
      unfolding input_loaded_def by blast
    let ?u = "u\<lparr>um_proc := (um_proc u)\<lparr>px_phys := m0\<rparr>\<rparr>"
    have "inputs_apart (um_proc ?u) g" using Cons.prems(1) by (simp add: inputs_apart_def)
    moreover have "\<forall>j < length fs. Suc k + j < length (hl_inputs g) \<longrightarrow> input_size g (Suc k + j) \<le> length (bss' ! j)"
      using Cons.prems(3) [rule_format, of "Suc _"] b(1) by simp
    ultimately obtain m where m: "load_files (Suc k) fs g ?u = Some (g, ?u\<lparr>um_proc := (um_proc ?u)\<lparr>px_phys := m\<rparr>\<rparr>)"
      "\<forall>j < length fs. Suc k + j < length (hl_inputs g) \<longrightarrow> input_loaded (um_proc u) g m (Suc k + j) (bss' ! j)"
      "\<forall>pa. (\<forall>j < length fs. Suc k + j < length (hl_inputs g) \<longrightarrow>
        (\<forall>x < input_size g (Suc k + j). input_byte (um_proc u) g (Suc k + j) x \<noteq> Some pa)) \<longrightarrow> m pa = m0 pa"
      using Cons.IH [of ?u bss' "Suc k"] b(3) by (auto simp: input_loaded_def)
    have call: "load_files k (f # fs) g u = Some (g, u\<lparr>um_proc := (um_proc u)\<lparr>px_phys := m\<rparr>\<rparr>)" using True m0(1) m(1) by simp
    have keep: "input_loaded (um_proc u) g m k bs" unfolding input_loaded_def
    proof (intro allI impI)
      fix x pa assume x: "x < input_size g k" "input_byte (um_proc u) g k x = Some pa"
      have "input_byte (um_proc u) g (Suc k + j) y \<noteq> Some pa" if "Suc k + j < length (hl_inputs g)" "y < input_size g (Suc k + j)" for j y
        using Cons.prems(1) x that True unfolding inputs_apart_def by (metis add_Suc less_add_Suc1 nat_neq_iff)
      then have "m pa = m0 pa" using m(3) by blast
      then show "m pa = bs ! x" using m0(2) x by (simp add: input_loaded_def)
    qed
    have "input_loaded (um_proc u) g m (k + j) (bss ! j)" if "j < length (f # fs)" "k + j < length (hl_inputs g)" for j
      using that keep m(2) b(1) by (cases j) simp_all
    moreover have "m pa = px_phys (um_proc u) pa"
      if o: "\<forall>j < length (f # fs). k + j < length (hl_inputs g) \<longrightarrow> (\<forall>x < input_size g (k + j). input_byte (um_proc u) g (k + j) x \<noteq> Some pa)" for pa
    proof -
      have "m pa = m0 pa" using m(3) o [rule_format, of "Suc _"] by simp
      also have "m0 pa = px_phys (um_proc u) pa" using m0(3) o [rule_format, of 0] True by simp
      finally show ?thesis .
    qed
    ultimately show ?thesis using call by blast
  qed
qed

text \<open>C32. A run on files loads every input from its file. For a graph whose buffers are allocated and
  mapped apart, and files that can be read and are as long as their inputs, the loading of a list
  of files succeeds and changes nothing but the memory: byte \<open>x\<close> of input \<open>i\<close>, for all bytes of the
  input's size, is byte \<open>x\<close> of file \<open>i\<close>, files beyond the number of inputs are ignored, and
  no other byte of memory changes.\<close>

theorem hl_files_loaded:
  assumes "hg_is_buf_alloc g" "length (gd_inputs (hg_gdesc g)) = length (hl_inputs g)" "length (hl_inputs g) \<le> 2 ^ 32"
    and "inputs_apart (um_proc u) g" "list_all2 file_holds fs bss"
    and "\<forall>i < min (length fs) (length (hl_inputs g)). input_size g i \<le> length (bss ! i)"
  shows "\<exists>mem. load_files 0 fs g u = Some (g, u\<lparr>um_proc := (um_proc u)\<lparr>px_phys := mem\<rparr>\<rparr>) \<and>
    (\<forall>i < min (length fs) (length (hl_inputs g)). \<forall>x < input_size g i. \<exists>pa.
       px_map (um_proc u) (iob_va (hl_inputs g ! i) + x) = Some pa \<and> mem pa = bss ! i ! x) \<and>
    (\<forall>pa. (\<forall>i < min (length fs) (length (hl_inputs g)). \<forall>x < input_size g i. px_map (um_proc u) (iob_va (hl_inputs g ! i) + x) \<noteq> Some pa)
       \<longrightarrow> mem pa = px_phys (um_proc u) pa)"
proof -
  obtain m where m: "load_files 0 fs g u = Some (g, u\<lparr>um_proc := (um_proc u)\<lparr>px_phys := m\<rparr>\<rparr>)"
    "\<forall>j < length fs. j < length (hl_inputs g) \<longrightarrow> input_loaded (um_proc u) g m j (bss ! j)"
    "\<forall>pa. (\<forall>j < length fs. j < length (hl_inputs g) \<longrightarrow> (\<forall>x < input_size g j. input_byte (um_proc u) g j x \<noteq> Some pa))
       \<longrightarrow> m pa = px_phys (um_proc u) pa"
    using load_files_mem [OF assms(1-5), of 0] assms(6) by auto
  have "\<exists>pa. input_byte (um_proc u) g i x = Some pa" if "i < length (hl_inputs g)" "x < input_size g i" for i x
    using assms(4) that by (auto simp: inputs_apart_def)
  then show ?thesis using m unfolding input_loaded_def input_byte_def by (intro exI [of _ m]) fastforce
qed

definition hl_files_demo :: hl_graph where
  "hl_files_demo = hl_demo\<lparr>
     hg_gdesc := (empty_gdesc 1)\<lparr>gd_inputs := replicate 2 (0, 2, \<lparr>fmt_layout = 0, fmt_shape = \<lparr>shape_N = 1, shape_H = 1, shape_W = 1, shape_C = 2\<rparr>, fmt_data_type = 1\<rparr>)\<rparr>,
     hg_info := (1, \<lparr>iob_inputs = [\<lparr>iob_id = 0, iob_size = 2, iob_va = 4096, iob_pa = 0\<rparr>, \<lparr>iob_id = 1, iob_size = 2, iob_va = 8192, iob_pa = 4096\<rparr>],
       iob_outputs = [], iob_inter_dumps = [], iob_pdata = [], iob_plog_data = []\<rparr>)\<rparr>"

lemma hl_files_loaded_witness:
  "\<exists>mem. load_files 0 [\<lparr>fe_stat = Some 3, fe_open = 3, fe_map = Some [7, 8, 9]\<rparr>, \<lparr>fe_stat = Some 2, fe_open = 4, fe_map = Some [5, 6]\<rparr>] hl_files_demo
       (umd_start (demo_proc\<lparr>px_map := Some, px_phys := \<lambda>_. 0\<rparr>)) =
       Some (hl_files_demo, umd_start (demo_proc\<lparr>px_map := Some, px_phys := mem\<rparr>)) \<and>
     mem 4096 = 7 \<and> mem 4097 = 8 \<and> mem 4098 = 0 \<and> mem 8192 = 5 \<and> mem 8193 = 6"
proof -
  let ?u = "umd_start (demo_proc\<lparr>px_map := Some, px_phys := \<lambda>_. 0\<rparr>)"
  let ?fs = "[\<lparr>fe_stat = Some 3, fe_open = 3, fe_map = Some [7, 8, 9]\<rparr>, \<lparr>fe_stat = Some 2, fe_open = 4, fe_map = Some [5, 6]\<rparr>]"
  have d: "hg_is_buf_alloc hl_files_demo" "length (gd_inputs (hg_gdesc hl_files_demo)) = length (hl_inputs hl_files_demo)"
    "length (hl_inputs hl_files_demo) = 2" "length (hl_inputs hl_files_demo) \<le> 2 ^ 32"
    "iob_va (hl_inputs hl_files_demo ! 0) = 4096" "iob_va (hl_inputs hl_files_demo ! 1) = 8192"
    "input_size hl_files_demo 0 = 2" "input_size hl_files_demo 1 = 2"
    by (simp_all add: hl_files_demo_def hl_demo_def hl_inputs_def input_size_def)
  have u: "um_proc ?u = demo_proc\<lparr>px_map := Some, px_phys := \<lambda>_. 0\<rparr>" by (simp add: umd_start_def)
  have apart: "inputs_apart (um_proc ?u) hl_files_demo"
    unfolding inputs_apart_def input_byte_def u d(3) using d(5-8) by (auto simp: less_Suc_eq numeral_2_eq_2)
  have "list_all2 file_holds ?fs [[7, 8, 9], [5, 6]]" by (simp add: file_holds_def)
  from hl_files_loaded [OF d(1,2,4) apart this]
  obtain mem where mem: "load_files 0 ?fs hl_files_demo ?u = Some (hl_files_demo, ?u\<lparr>um_proc := (um_proc ?u)\<lparr>px_phys := mem\<rparr>\<rparr>)"
    "\<forall>i < 2. \<forall>x < input_size hl_files_demo i. \<exists>pa. px_map (um_proc ?u) (iob_va (hl_inputs hl_files_demo ! i) + x) = Some pa \<and> mem pa = [[7, 8, 9], [5, 6]] ! i ! x"
    "\<forall>pa. (\<forall>i < 2. \<forall>x < input_size hl_files_demo i. px_map (um_proc ?u) (iob_va (hl_inputs hl_files_demo ! i) + x) \<noteq> Some pa)
       \<longrightarrow> mem pa = px_phys (um_proc ?u) pa"
    using d(3,7,8) by (auto simp: less_Suc_eq numeral_2_eq_2)
  have "mem 4096 = 7" "mem 4097 = 8" "mem 8192 = 5" "mem 8193 = 6"
    using mem(2) [rule_format, of 0 0] mem(2) [rule_format, of 0 1] mem(2) [rule_format, of 1 0] mem(2) [rule_format, of 1 1] d(5-8)
    unfolding u by simp_all
  moreover have "\<forall>i < 2. \<forall>x < input_size hl_files_demo i. px_map (um_proc ?u) (iob_va (hl_inputs hl_files_demo ! i) + x) \<noteq> Some 4098"
    unfolding u using d(5-8) by (auto simp: less_Suc_eq numeral_2_eq_2)
  then have "mem 4098 = 0" using mem(3) unfolding u by simp
  ultimately show ?thesis using mem(1) by (intro exI [of _ mem]) (simp add: umd_start_def)
qed


subsection \<open>A fault of the code\<close>

text \<open>A run on vectors loads the first one only: the condition of the loop compares the index with
  the truth value of the rest of the condition.
\<close>

lemma load_vectors_end: "0 < i \<Longrightarrow> load_vectors i vs g u = Some (g, u)"
  by (subst load_vectors.simps) simp

theorem run_vectors_loads_first: "hl_Run_vectors ws s0 (v # vs) g u = hl_Run_vectors ws s0 [v] g u"
proof -
  have "load_vectors 0 (v # vs) g u = load_vectors 0 [v] g u"
    by (subst (1 2) load_vectors.simps) (simp add: load_vectors_end split_def)
  then show ?thesis by (simp add: hl_Run_vectors_def)
qed

end
