(* ===== verification/UmdSim.thy ===== *)
theory UmdSim
  imports UmdDump
begin

text \<open>
  The device layer of the build for a simulator (\<open>X86_LINUX\<close>, \<open>context/device_ctrl.cpp\<close>). Buffers are
  pieces of the heap with made-up device addresses; a job is run by writing its code and
  data to files, starting the simulator, and reading the files with the outputs back.
\<close>

subsection \<open>State\<close>

record output_file_desc =
  of_fname :: string
  of_id :: u32
  of_size :: u32
  of_va :: addr
  of_pa :: u32

record simulation_res =
  sr_graph_id :: u32
  sr_code_fname :: string
  sr_rodata_fname :: string
  sr_data_fname :: string
  sr_rodata :: buffer_desc
  sr_data :: buffer_desc
  sr_outputs :: "output_file_desc list"
  sr_odata_fname :: string
  sr_odata_whole_pa :: u32
  sr_odata_whole_va :: addr
  sr_odata_whole_size :: u32

definition FNAME_LEN :: nat where "FNAME_LEN = 2048"
definition OPT_LEN :: nat where "OPT_LEN = 2148"
definition CMD_MEN :: nat where "CMD_MEN = 8000"

record sim_ctrl =
  sc_simulator :: string
  sc_cfg_file_dir :: string
  sc_output_dir :: string
  sc_additional_opt :: string
  sc_has_additional_opt :: bool
  sc_malloc_top :: u32
  sc_cmd :: string
  sc_graphs :: "(u32 \<times> simulation_res) list"
  sc_use_new_arch_sim :: bool

text \<open>The table of the architectures (\<open>arch/aipu_arch.cpp\<close>).\<close>

record aipu_architecture =
  ar_sys_info :: string
  ar_vreg_num :: nat
  ar_lsram_size_kb :: nat
  ar_lsram_bank :: nat
  ar_gsram_size_kb :: nat
  ar_gsram_bank :: nat
  ar_dma_chan :: nat
  ar_has_iram :: string
  ar_has_dcache :: string
  ar_icache_size :: nat
  ar_hwa_mac :: nat
  ar_tec_num :: nat

definition arch_table :: "aipu_architecture list" where
  "arch_table =
     [\<lparr>ar_sys_info = ''ZHOUYI_Z1_SC000'', ar_vreg_num = 32, ar_lsram_size_kb = 32, ar_lsram_bank = 2, ar_gsram_size_kb = 128,
       ar_gsram_bank = 2, ar_dma_chan = 9, ar_has_iram = ''True'', ar_has_dcache = ''True'', ar_icache_size = 32, ar_hwa_mac = 256, ar_tec_num = 4\<rparr>,
      \<lparr>ar_sys_info = ''ZHOUYI_Z1_SC002'', ar_vreg_num = 32, ar_lsram_size_kb = 32, ar_lsram_bank = 2, ar_gsram_size_kb = 128,
       ar_gsram_bank = 2, ar_dma_chan = 9, ar_has_iram = ''True'', ar_has_dcache = ''True'', ar_icache_size = 32, ar_hwa_mac = 512, ar_tec_num = 2\<rparr>,
      \<lparr>ar_sys_info = ''ZHOUYI_Z1_SC003'', ar_vreg_num = 16, ar_lsram_size_kb = 32, ar_lsram_bank = 2, ar_gsram_size_kb = 1,
       ar_gsram_bank = 1, ar_dma_chan = 3, ar_has_iram = ''False'', ar_has_dcache = ''False'', ar_icache_size = 16, ar_hwa_mac = 64, ar_tec_num = 1\<rparr>]"

definition init_aipu_arch :: "u32 \<Rightarrow> aipu_architecture option" where
  "init_aipu_arch = [904 \<mapsto> arch_table ! 0, 1002 \<mapsto> arch_table ! 1, 701 \<mapsto> arch_table ! 2]"

text \<open>\<open>sim_version\<close>: the value of the environment variable \<open>AIPU_SIM_VERSION\<close>.\<close>

definition new_sim_ctrl :: "u32 \<Rightarrow> string \<Rightarrow> string option \<Rightarrow> sim_ctrl" where
  "new_sim_ctrl uninit_top uninit_cmd sim_version =
     \<lparr>sc_simulator = '''', sc_cfg_file_dir = '''', sc_output_dir = '''', sc_additional_opt = '''', sc_has_additional_opt = False,
      sc_malloc_top = uninit_top, sc_cmd = uninit_cmd, sc_graphs = [],
      sc_use_new_arch_sim = (sim_version \<noteq> Some ''ZHOUYI_V1_SIM_OLD_ARCH'')\<rparr>"

definition sim_init :: "sim_ctrl \<Rightarrow> aipu_status \<times> sim_ctrl" where
  "sim_init c = (AIPU_STATUS_SUCCESS, c\<lparr>sc_has_additional_opt := False, sc_malloc_top := 0\<rparr>)"

definition sim_deinit :: "sim_ctrl \<Rightarrow> aipu_status \<times> sim_ctrl" where
  "sim_deinit c = (AIPU_STATUS_SUCCESS, c\<lparr>sc_graphs := [], sc_cmd := '''', sc_malloc_top := 0\<rparr>)"

definition sim_unload_graph :: "u32 \<Rightarrow> sim_ctrl \<Rightarrow> sim_ctrl" where
  "sim_unload_graph gid c = c\<lparr>sc_graphs := omap_erase gid (sc_graphs c)\<rparr>"

record sim_config =
  sg_simulator :: "string option"
  sg_cfg_file_dir :: "string option"
  sg_output_dir :: "string option"
  sg_simulator_opt :: "string option"

text \<open>\<open>acc\<close>: the combined answers of the three calls of \<open>access\<close>.\<close>

definition sim_config_simulation :: "int \<Rightarrow> sim_config option \<Rightarrow> sim_ctrl \<Rightarrow> aipu_status \<times> sim_ctrl" where
  "sim_config_simulation acc config c =
     (case config of
        None \<Rightarrow> (AIPU_STATUS_ERROR_NULL_PTR, c)
      | Some g \<Rightarrow>
          (case (sg_simulator g, sg_cfg_file_dir g, sg_output_dir g) of
             (Some sim, Some cfg, Some out) \<Rightarrow>
               if acc \<noteq> 0 then (AIPU_STATUS_ERROR_INVALID_PATH, c)
               else (let c1 = c\<lparr>sc_simulator := sim, sc_cfg_file_dir := cfg, sc_output_dir := out\<rparr>
                     in (AIPU_STATUS_SUCCESS,
                         (case sg_simulator_opt g of
                            None \<Rightarrow> c1
                          | Some opt \<Rightarrow> c1\<lparr>sc_has_additional_opt := True, sc_additional_opt := opt\<rparr>)))
           | _ \<Rightarrow> (AIPU_STATUS_ERROR_NULL_PTR, c)))"

subsection \<open>Buffers\<close>

text \<open>\<open>new char[n]\<close>: the system chooses the address; without memory the program ends.\<close>

definition new_chars :: "nat \<Rightarrow> proc \<Rightarrow> (addr \<times> proc) option" where
  "new_chars n p = do {
     a \<leftarrow> ue_map (env_now p);
     Some (a, (next_call p)\<lparr>px_map := map_range a n a (px_map p)\<rparr>)
   }"

definition sim_malloc_buf ::
  "u32 \<Rightarrow> buffer_desc \<Rightarrow> sim_ctrl \<Rightarrow> proc \<Rightarrow> (aipu_status \<times> buffer_desc \<times> sim_ctrl \<times> proc) option" where
  "sim_malloc_buf sz buf c p =
     (if sz = 0 then Some (AIPU_STATUS_ERROR_INVALID_SIZE, buf, c, p)
      else do {
        (a, p1) \<leftarrow> new_chars (unat (ALIGN_PAGE sz)) p;
        let buf1 = buf\<lparr>bu_pa := ucast (sc_malloc_top c), bu_va := a, bu_size := ucast (ALIGN_PAGE sz), bu_real_size := ucast sz\<rparr>;
        Some (AIPU_STATUS_SUCCESS, buf1, c\<lparr>sc_malloc_top := sc_malloc_top c + ALIGN_PAGE sz\<rparr>, p1)
      })"

definition sim_free_buf :: "buffer_desc \<Rightarrow> proc \<Rightarrow> aipu_status \<times> proc" where
  "sim_free_buf buf p =
     (if bu_size buf = 0 then (AIPU_STATUS_ERROR_INVALID_SIZE, p)
      else (AIPU_STATUS_SUCCESS,
            if bu_va buf \<noteq> 0 then p\<lparr>px_map := unmap_range (bu_va buf) (unat (bu_size buf)) (px_map p)\<rparr> else p))"

definition sim_alloc_rodata_buffer ::
  "u32 \<Rightarrow> tbuf_alloc_templ \<Rightarrow> buffer_desc \<Rightarrow> buffer_desc \<Rightarrow> sim_ctrl \<Rightarrow> proc \<Rightarrow>
   (aipu_status \<times> buffer_desc \<times> buffer_desc \<times> sim_ctrl \<times> proc) option" where
  "sim_alloc_rodata_buffer region_id templ rodata descriptor c p = do {
     (ret, rodata', c1, p1) \<leftarrow> sim_malloc_buf (tbuf_rodata_size templ + dcr_size templ) rodata c p;
     if ret \<noteq> AIPU_STATUS_SUCCESS then Some (ret, rodata', descriptor, c1, p1)
     else (let d = descriptor\<lparr>bu_size := ucast (dcr_size templ), bu_real_size := ucast (dcr_size templ)\<rparr>
           in Some (ret, rodata',
                (if bu_size d \<noteq> 0
                 then d\<lparr>bu_va := bu_va rodata' + unat (tbuf_rodata_size templ),
                        bu_pa := bu_pa rodata' + ucast (tbuf_rodata_size templ), bu_region_id := region_id\<rparr>
                 else d\<lparr>bu_va := 0, bu_pa := 0, bu_region_id := 0\<rparr>), c1, p1))
   }"

text \<open>Device addresses for the sections, one after the other from the top on.\<close>

fun sim_place :: "buffer_desc \<Rightarrow> section_desc list \<Rightarrow> u32 \<Rightarrow> (buffer_desc list \<times> u32) option" where
  "sim_place buf [] mtop = Some ([], mtop)"
| "sim_place buf (s # ss) mtop = do {
     pa \<leftarrow> get_aligned_addr mtop (sec_align_in_page s);
     let b = buf\<lparr>bu_pa := ucast pa, bu_size := ucast (ALIGN_PAGE (sec_size s)), bu_real_size := ucast (sec_size s)\<rparr>;
     (bs, mtop') \<leftarrow> sim_place buf ss (pa + ALIGN_PAGE (sec_size s));
     Some (b # bs, mtop')
   }"

definition sim_group :: "buffer_desc \<Rightarrow> buffer_desc list \<Rightarrow> u32 \<Rightarrow> buffer_desc" where
  "sim_group g bs mtop =
     g\<lparr>bu_pa := bu_pa (hd bs), bu_va := bu_va (hd bs), bu_size := ucast mtop - bu_pa (hd bs),
           bu_real_size := ucast mtop - bu_pa (hd bs)\<rparr>"

definition sim_set_va :: "buffer_desc \<Rightarrow> u32 \<Rightarrow> buffer_desc \<Rightarrow> buffer_desc" where
  "sim_set_va data data_phys_base b = b\<lparr>bu_va := bu_va data + unat (ucast (bu_pa b) - data_phys_base :: u32)\<rparr>"

definition sim_set_vas :: "buffer_desc \<Rightarrow> u32 \<Rightarrow> nat \<Rightarrow> buffer_desc list \<Rightarrow> buffer_desc list" where
  "sim_set_vas data base n bs = map (sim_set_va data base) (take n bs) @ drop n bs"

text \<open>
  One heap block stands for stack, static and reuse data. The first reuse section is read
  without a check that there is one. \<open>b0\<close>: the descriptor on the stack, not initialised.
\<close>

definition simulation_alloc_data_buffer ::
  "buffer_desc \<Rightarrow> u32 \<Rightarrow> pbuf_alloc_templ \<Rightarrow> pbuf_info \<Rightarrow> tbuf_alloc_templ \<Rightarrow> tbuf_info \<Rightarrow> sim_ctrl \<Rightarrow> proc \<Rightarrow>
   (aipu_status \<times> pbuf_info \<times> tbuf_info \<times> sim_ctrl \<times> proc) option" where
  "simulation_alloc_data_buffer b0 gid ptempl pbuf ttempl tbuf c p =
     (case map_of (sc_graphs c) gid of
        None \<Rightarrow> Some (AIPU_STATUS_ERROR_GRAPH_NOT_EXIST, pbuf, tbuf, c, p)
      | Some sim \<Rightarrow> do {
          (ret, ro, desc, c1, p1) \<leftarrow> sim_alloc_rodata_buffer (bu_region_id (pb_text pbuf)) ttempl (tb_rodata tbuf) (tb_descriptor tbuf) c p;
          let tbuf1 = tbuf\<lparr>tb_rodata := ro, tb_descriptor := desc\<rparr>;
          if ret \<noteq> AIPU_STATUS_SUCCESS then Some (ret, pbuf, tbuf1, c1, p1)
          else do {
            let sim1 = sim\<lparr>sr_rodata := ro\<rparr>;
            stack_pa \<leftarrow> get_aligned_addr (sc_malloc_top c1) (stack_align_in_page ttempl);
            let stack = (tb_stack tbuf1)\<lparr>bu_pa := ucast stack_pa, bu_size := ucast (ALIGN_PAGE (tbuf_stack_size ttempl)),
                  bu_real_size := ucast (tbuf_stack_size ttempl)\<rparr>;
            (static, top1) \<leftarrow> sim_place b0 (static_sections ptempl) (stack_pa + ALIGN_PAGE (tbuf_stack_size ttempl));
            let static_buf = pb_static_buf pbuf @ static;
            let static_group = (if static_buf \<noteq> [] then sim_group (pb_static_group pbuf) static_buf top1
                  else (pb_static_group pbuf)\<lparr>bu_pa := 0, bu_va := 0, bu_size := 0, bu_real_size := 0\<rparr>);
            (reuse, top2) \<leftarrow> sim_place b0 (reuse_sections ttempl) top1;
            let reuse_buf = tb_reuse_buf tbuf1 @ reuse;
            if reuse_buf = [] then None
            else do {
              let reuse_group = sim_group (tb_reuse_group tbuf1) reuse_buf top2;
              (ret, data, c2, p2) \<leftarrow> sim_malloc_buf (top2 - stack_pa) (sr_data sim1) (c1\<lparr>sc_malloc_top := top2\<rparr>) p1;
              if ret \<noteq> AIPU_STATUS_SUCCESS
              then Some (ret, pbuf\<lparr>pb_static_buf := static_buf, pb_static_group := static_group\<rparr>,
                     tbuf1\<lparr>tb_stack := stack, tb_reuse_buf := reuse_buf, tb_reuse_group := reuse_group\<rparr>,
                     c2\<lparr>sc_graphs := omap_insert gid (sim1\<lparr>sr_data := data\<rparr>) (sc_graphs c2)\<rparr>, p2)
              else do {
                let data1 = data\<lparr>bu_pa := ucast stack_pa\<rparr>;
                Some (ret, pbuf\<lparr>pb_static_buf := sim_set_vas data1 stack_pa (length (static_sections ptempl)) static_buf, pb_static_group := static_group\<rparr>,
                  tbuf1\<lparr>tb_stack := stack\<lparr>bu_va := bu_va data1\<rparr>, tb_reuse_buf := sim_set_vas data1 stack_pa (length (reuse_sections ttempl)) reuse_buf,
                    tb_reuse_group := reuse_group\<rparr>,
                  c2\<lparr>sc_graphs := omap_insert gid (sim1\<lparr>sr_data := data1\<rparr>) (sc_graphs c2)\<rparr>, p2)
              }
            }
          }
        })"

definition simulation_free_data_buffer :: "u32 \<Rightarrow> sim_ctrl \<Rightarrow> proc \<Rightarrow> aipu_status \<times> sim_ctrl \<times> proc" where
  "simulation_free_data_buffer gid c p =
     (case map_of (sc_graphs c) gid of
        None \<Rightarrow> (AIPU_STATUS_ERROR_GRAPH_NOT_EXIST, c, p)
      | Some sim \<Rightarrow>
          if bu_va (sr_data sim) = 0 then (AIPU_STATUS_SUCCESS, c, p)
          else let (ret, p1) = sim_free_buf (sr_data sim) p
               in if ret \<noteq> AIPU_STATUS_SUCCESS then (ret, c, p1)
                  else (ret, c\<lparr>sc_graphs := omap_insert gid (sim\<lparr>sr_data := (sr_data sim)\<lparr>bu_va := 0, bu_pa := 0, bu_size := 0\<rparr>\<rparr>)
                               (sc_graphs c)\<rparr>, p1))"

text \<open>Counts the size of the data buffer another way; nothing calls it.\<close>

definition get_sim_data_size :: "pbuf_alloc_templ \<Rightarrow> tbuf_alloc_templ \<Rightarrow> u32" where
  "get_sim_data_size ptempl ttempl =
     foldl (\<lambda>tot s. tot + ALIGN_PAGE (sec_size s))
       (foldl (\<lambda>tot s. tot + ALIGN_PAGE (sec_size s)) (tbuf_stack_size ttempl) (static_sections ptempl))
       (reuse_sections ttempl)"

subsection \<open>Code and input files\<close>

text \<open>The code stays where the application has the graph binary.\<close>

definition sim_alloc_text_buffer ::
  "u32 \<Rightarrow> pbuf_alloc_templ \<Rightarrow> buffer_desc \<Rightarrow> sim_ctrl \<Rightarrow> aipu_status \<times> buffer_desc \<times> sim_ctrl" where
  "sim_alloc_text_buffer gid templ ibuf c =
     (if text_size templ = 0 then (AIPU_STATUS_ERROR_INVALID_SIZE, ibuf, c)
      else if map_of (sc_graphs c) gid \<noteq> None then (AIPU_STATUS_ERROR_INVALID_OP, ibuf, c)
      else (AIPU_STATUS_SUCCESS,
            ibuf\<lparr>bu_va := text_src templ, bu_pa := ucast (sc_malloc_top c),
                 bu_size := ucast (ALIGN_PAGE (text_size templ)), bu_real_size := ucast (text_size templ)\<rparr>,
            c\<lparr>sc_malloc_top := sc_malloc_top c + ALIGN_PAGE (text_size templ)\<rparr>))"

definition sim_free_text_buffer :: "buffer_desc \<Rightarrow> aipu_status" where
  "sim_free_text_buffer ibuf = AIPU_STATUS_SUCCESS"

text \<open>The name is left in a buffer of the caller also when the file cannot be written.\<close>

definition create_simulation_input_file ::
  "(nat \<Rightarrow> file_answer) \<Rightarrow> u32 \<Rightarrow> buffer_desc \<Rightarrow> string \<Rightarrow> u32 \<Rightarrow> sim_ctrl \<Rightarrow> proc \<Rightarrow> ufiles \<Rightarrow>
   aipu_status \<times> string \<times> ufiles" where
  "create_simulation_input_file e gid desc interfix load_size c p s =
     (let fname = snprintf_limit FNAME_LEN (sc_output_dir c @ ''/Simulation_Graph0x'' @ hex_str gid @ ''_'' @ interfix @
            ''_Base0x'' @ hex64_str (bu_pa desc) @ ''_Size0x'' @ hex_str load_size @ ''.bin'');
          (ret, s1) = umd_dump_file_helper e p fname (bu_va desc) load_size s
      in (ret, fname, s1))"

text \<open>\<open>sim0\<close>: the resources of the graph on the stack, of which only the list is initialised.\<close>

definition sim_load_text_buffer ::
  "(nat \<Rightarrow> file_answer) \<Rightarrow> simulation_res \<Rightarrow> u32 \<Rightarrow> addr \<Rightarrow> u32 \<Rightarrow> buffer_desc \<Rightarrow> sim_ctrl \<Rightarrow> proc \<Rightarrow> ufiles \<Rightarrow>
   aipu_status \<times> sim_ctrl \<times> ufiles" where
  "sim_load_text_buffer e sim0 gid src sz ibuf c p s =
     (if src = 0 \<or> bu_va ibuf = 0 then (AIPU_STATUS_ERROR_NULL_PTR, c, s)
      else if sz = 0 \<or> bu_size ibuf = 0 then (AIPU_STATUS_ERROR_INVALID_SIZE, c, s)
      else if map_of (sc_graphs c) gid \<noteq> None then (AIPU_STATUS_ERROR_INVALID_OP, c, s)
      else
        let (ret, fname, s1) = create_simulation_input_file e gid ibuf ''Bin'' sz c p s
        in if ret \<noteq> AIPU_STATUS_SUCCESS then (ret, c, s1)
           else (ret, c\<lparr>sc_graphs := omap_insert gid
                   (sim0\<lparr>sr_outputs := [], sr_code_fname := fname, sr_graph_id := gid\<rparr>) (sc_graphs c)\<rparr>, s1))"

subsection \<open>Outputs\<close>

definition sim_output :: "string \<Rightarrow> u32 \<Rightarrow> string \<Rightarrow> io_buffer \<Rightarrow> output_file_desc" where
  "sim_output dir gid kind b =
     \<lparr>of_fname = snprintf_limit FNAME_LEN (dir @ ''/Simulation_Graph0x'' @ hex_str gid @ ''_'' @ kind @
        nat_str (unat (iob_id b)) @ ''_Base0x'' @ hex_str (ucast (iob_pa b)) @ ''_Size0x'' @ hex_str (iob_size b) @ ''.bin''),
      of_id = iob_id b, of_size = iob_size b, of_va = iob_va b, of_pa = ucast (iob_pa b)\<rparr>"

definition simulation_set_io_info :: "u32 \<Rightarrow> iobuf_info \<Rightarrow> sim_ctrl \<Rightarrow> aipu_status \<times> sim_ctrl" where
  "simulation_set_io_info gid iobuf c =
     (case map_of (sc_graphs c) gid of
        None \<Rightarrow> (AIPU_STATUS_ERROR_GRAPH_NOT_EXIST, c)
      | Some sim \<Rightarrow>
          (AIPU_STATUS_SUCCESS, c\<lparr>sc_graphs := omap_insert gid
             (sim\<lparr>sr_outputs := sr_outputs sim @ map (sim_output (sc_output_dir c) gid ''Output'') (iob_outputs iobuf) @
                map (sim_output (sc_output_dir c) gid ''ProfilingData'') (iob_pdata iobuf) @
                map (sim_output (sc_output_dir c) gid ''PrintfData'') (iob_plog_data iobuf)\<rparr>) (sc_graphs c)\<rparr>))"

subsection \<open>The configuration of the simulator\<close>

definition nat_item :: "string \<Rightarrow> nat \<Rightarrow> string" where
  "nat_item key n = key @ ''='' @ nat_str n @ ''\<newline>''"

definition str_item :: "string \<Rightarrow> string \<Rightarrow> string" where
  "str_item key v = key @ ''='' @ v @ ''\<newline>''"

definition hex_item :: "string \<Rightarrow> u32 \<Rightarrow> string" where
  "hex_item key w = key @ ''=0x'' @ hex_str w @ ''\<newline>''"

text \<open>A file and the address it is loaded to or stored from.\<close>

definition at_item :: "string \<Rightarrow> string \<Rightarrow> u32 \<Rightarrow> string" where
  "at_item key fname w = key @ ''='' @ fname @ ''@0x'' @ hex_str w @ ''\<newline>''"

definition update_z1_simulation_sys_cfg :: "u32 \<Rightarrow> string option" where
  "update_z1_simulation_sys_cfg config = map_option (\<lambda>a.
     str_item ''SYS_INFO'' (ar_sys_info a) @ nat_item ''VREG_NUM'' (ar_vreg_num a) @
     nat_item ''LSRAM_SIZE'' (ar_lsram_size_kb a) @ nat_item ''LSRAM_BANK'' (ar_lsram_bank a) @
     nat_item ''GSRAM_SIZE'' (ar_gsram_size_kb a) @ nat_item ''GSRAM_BANK'' (ar_gsram_bank a) @
     nat_item ''DMA_CHAN'' (ar_dma_chan a) @ str_item ''HAS_IRAM'' (ar_has_iram a) @
     str_item ''HAS_DCACHE'' (ar_has_dcache a) @ nat_item ''ICACHE_SIZE'' (ar_icache_size a) @
     nat_item ''HWA_MAC'' (ar_hwa_mac a) @ nat_item ''TEC_NUM'' (ar_tec_num a)) (init_aipu_arch config)"

text \<open>The lowest output, and the highest with its size.\<close>

definition odata_min :: "output_file_desc list \<Rightarrow> u32 \<times> addr" where
  "odata_min outs = foldl (\<lambda>(pa, va) d. if of_pa d < pa then (of_pa d, of_va d) else (pa, va)) (0xFFFFFFFF, 0) outs"

definition odata_max :: "output_file_desc list \<Rightarrow> u32 \<times> u32" where
  "odata_max outs = foldl (\<lambda>(pa, sz) d. if pa < of_pa d then (of_pa d, of_size d) else (pa, sz)) (0, 0) outs"

definition set_odata :: "string \<Rightarrow> simulation_res \<Rightarrow> simulation_res" where
  "set_odata dir sim =
     (let (pa, va) = odata_min (sr_outputs sim); (mpa, msz) = odata_max (sr_outputs sim); sz = mpa + msz - pa
      in sim\<lparr>sr_odata_whole_pa := pa, sr_odata_whole_va := va, sr_odata_whole_size := sz,
             sr_odata_fname := snprintf_limit FNAME_LEN (dir @ ''/Simulation_Graph0x'' @ hex_str (sr_graph_id sim) @
               ''_Output_Base0x'' @ hex_str pa @ ''_Size0x'' @ hex_str sz @ ''.bin'')\<rparr>)"

text \<open>
  Of the old simulator: the resources, the text of the file and the command. The options of the
  user are appended to the array of the command without a check of its length.
\<close>

definition update_simulation_rtcfg_z1_old_arch ::
  "sim_ctrl \<Rightarrow> dev_config \<Rightarrow> string \<Rightarrow> simulation_res \<Rightarrow>
   (aipu_status \<times> simulation_res \<times> string \<times> string) option" where
  "update_simulation_rtcfg_z1_old_arch c config cfg_fname sim =
     (case update_z1_simulation_sys_cfg (cf_hw_config config) of
        None \<Rightarrow> Some (AIPU_STATUS_ERROR_TARGET_NOT_FOUND, sim, '''', sc_cmd c)
      | Some sys \<Rightarrow>
          let sim1 = set_odata (sc_output_dir c) sim;
              cfg = sys @ hex_item ''instr_base'' (ucast (cf_instruction_base_pa config)) @
                hex_item ''start_pc'' (ucast (cf_start_pc_pa config)) @
                at_item ''idata'' (sr_rodata_fname sim) (ucast (cf_rodata_base config)) @
                at_item ''idata2'' (sr_data_fname sim) (ucast (cf_stack_base config)) @
                at_item ''odata'' (sr_odata_fname sim1) (sr_odata_whole_pa sim1) @
                hex_item ''odata_size'' (sr_odata_whole_size sim1);
              cmd = snprintf_limit CMD_MEN (''./'' @ sc_simulator c @ '' '' @ sr_code_fname sim @ '' --sys_config='' @ cfg_fname);
              full = (if sc_has_additional_opt c then cmd @ '' '' @ sc_additional_opt c else cmd)
          in if CMD_MEN \<le> length full then None else Some (AIPU_STATUS_SUCCESS, sim1, cfg, full))"

text \<open>\<open>%04d\<close> of a word read as a signed number.\<close>

definition zero_pad :: "nat \<Rightarrow> string \<Rightarrow> string" where
  "zero_pad n t = replicate (n - length t) CHR ''0'' @ t"

definition dec4_str :: "u32 \<Rightarrow> string" where
  "dec4_str w = (let i = sint w
     in if i < 0 then CHR ''-'' # zero_pad 3 (digits 10 (nat (- i))) else zero_pad 4 (digits 10 (nat i)))"

fun output_items :: "nat \<Rightarrow> output_file_desc list \<Rightarrow> string" where
  "output_items i [] = ''''"
| "output_items i (d # ds) =
     str_item (''OUTPUT_DATA_FILE'' @ nat_str i) (of_fname d) @ hex_item (''OUTPUT_DATA_BASE'' @ nat_str i) (of_pa d) @
     hex_item (''OUTPUT_DATA_SIZE'' @ nat_str i) (of_size d) @ output_items (Suc i) ds"

definition update_simulation_rtcfg_new_arch ::
  "sim_ctrl \<Rightarrow> dev_config \<Rightarrow> string \<Rightarrow> simulation_res \<Rightarrow> string \<times> string" where
  "update_simulation_rtcfg_new_arch c config cfg_fname sim =
     (''CONFIG=Z'' @ dec_str (sint (cf_hw_version config)) @ ''-'' @ dec4_str (cf_hw_config config) @ ''\<newline>'' @
      str_item ''LOG_LEVEL'' ''0'' @ str_item ''LOG_FILE'' ''log_default'' @ str_item ''FAST_FWD_INST'' ''0'' @
      str_item ''INPUT_INST_CNT'' ''1'' @ str_item ''INPUT_INST_FILE0'' (sr_code_fname sim) @
      hex_item ''INPUT_INST_BASE0'' (ucast (cf_instruction_base_pa config)) @
      hex_item ''INPUT_INST_STARTPC0'' (ucast (cf_start_pc_pa config)) @
      hex_item ''INT_PC'' (ucast (cf_interrupt_pc_pa config)) @ str_item ''INPUT_DATA_CNT'' ''2'' @
      str_item ''INPUT_DATA_FILE0'' (sr_rodata_fname sim) @ hex_item ''INPUT_DATA_BASE0'' (ucast (cf_rodata_base config)) @
      str_item ''INPUT_DATA_FILE1'' (sr_data_fname sim) @ hex_item ''INPUT_DATA_BASE1'' (ucast (cf_stack_base config)) @
      nat_item ''OUTPUT_DATA_CNT'' (length (sr_outputs sim)) @ output_items 0 (sr_outputs sim) @
      str_item ''RUN_DESCRIPTOR'' ''BIN[0]'',
      snprintf_limit CMD_MEN (sc_simulator c @ '' '' @ cfg_fname))"

definition old_arch_run :: "sim_ctrl \<Rightarrow> dev_config \<Rightarrow> bool" where
  "old_arch_run c config \<longleftrightarrow> cf_arch config = AIPU_HW_ARCH_ZHOUYI \<and> cf_hw_version config = AIPU_HW_VERSION_ZHOUYI_V1 \<and>
     \<not> sc_use_new_arch_sim c"

text \<open>When the target is not found the opened file stays empty.\<close>

definition update_simulation_rtcfg ::
  "(nat \<Rightarrow> file_answer) \<Rightarrow> u32 \<Rightarrow> dev_config \<Rightarrow> sim_ctrl \<Rightarrow> proc \<Rightarrow> ufiles \<Rightarrow> (aipu_status \<times> sim_ctrl \<times> ufiles) option" where
  "update_simulation_rtcfg e gid config c p s =
     (case map_of (sc_graphs c) gid of
        None \<Rightarrow> Some (AIPU_STATUS_ERROR_GRAPH_NOT_EXIST, c, s)
      | Some sim \<Rightarrow>
          let (ret, ro_fname, s1) = create_simulation_input_file e gid (sr_rodata sim) ''Idata0'' (ucast (bu_size (sr_rodata sim))) c p s;
              sim1 = sim\<lparr>sr_rodata_fname := ro_fname\<rparr>; c1 = c\<lparr>sc_graphs := omap_insert gid sim1 (sc_graphs c)\<rparr>
          in if ret \<noteq> AIPU_STATUS_SUCCESS then Some (ret, c1, s1)
             else let (ret, d_fname, s2) = create_simulation_input_file e gid (sr_data sim) ''Idata1'' (ucast (bu_size (sr_data sim))) c p s1;
                      sim2 = sim1\<lparr>sr_data_fname := d_fname\<rparr>; c2 = c\<lparr>sc_graphs := omap_insert gid sim2 (sc_graphs c)\<rparr>
                  in if ret \<noteq> AIPU_STATUS_SUCCESS then Some (ret, c2, s2)
                     else let cfg_fname = snprintf_limit 512 (sc_cfg_file_dir c @ ''runtime.cfg'')
                          in if fa_open (e (uf_ops s2)) = -1 then Some (AIPU_STATUS_ERROR_OPEN_FILE_FAIL, c2, next_op s2)
                             else if old_arch_run c config
                             then do {
                               (ret, sim3, cfg, cmd) \<leftarrow> update_simulation_rtcfg_z1_old_arch c2 config cfg_fname sim2;
                               Some (ret, c2\<lparr>sc_graphs := omap_insert gid sim3 (sc_graphs c2), sc_cmd := cmd\<rparr>,
                                     write_text e cfg_fname cfg s2)
                             }
                             else let (cfg, cmd) = update_simulation_rtcfg_new_arch c2 config cfg_fname sim2
                                  in Some (AIPU_STATUS_SUCCESS, c2\<lparr>sc_cmd := cmd\<rparr>, write_text e cfg_fname cfg s2))"

subsection \<open>Running a job\<close>

text \<open>How a command ends: \<open>system\<close> fails, an exit status, or a signal.\<close>

datatype sim_exit = SysFailed | Exited nat | Signaled nat

text \<open>Stops at the first file that cannot be read.\<close>

fun load_outputs ::
  "(nat \<Rightarrow> file_answer) \<Rightarrow> output_file_desc list \<Rightarrow> proc \<Rightarrow> ufiles \<Rightarrow> bool \<times> proc \<times> ufiles" where
  "load_outputs e [] p s = (True, p, s)"
| "load_outputs e (d # ds) p s =
     (let (ret, p1, s1) = umd_load_file_helper e (of_fname d) (of_va d) (of_size d) p s
      in if ret \<noteq> AIPU_STATUS_SUCCESS then (False, p1, s1) else load_outputs e ds p1 s1)"

text \<open>
  The simulator is not part of the repository: \<open>run\<close> says how the command ends and what it
  makes of the files. The mutex of the device is held all along.
\<close>

definition sim_schedule_job ::
  "(nat \<Rightarrow> file_answer) \<Rightarrow> (string \<Rightarrow> (string \<Rightarrow> u8 list option) \<Rightarrow> sim_exit \<times> (string \<Rightarrow> u8 list option)) \<Rightarrow>
   u32 \<Rightarrow> job_desc \<Rightarrow> sim_ctrl \<Rightarrow> proc \<Rightarrow> ufiles \<Rightarrow> (aipu_status \<times> job_desc \<times> sim_ctrl \<times> proc \<times> ufiles) option" where
  "sim_schedule_job e run gid job c p s =
     (if map_of (sc_graphs c) gid = None then Some (AIPU_STATUS_ERROR_GRAPH_NOT_EXIST, job, c, p, s)
      else do {
        (ret, c1, s1) \<leftarrow> update_simulation_rtcfg e gid (jd_config job) c p s;
        let failed = (\<lambda>p s. Some (AIPU_STATUS_ERROR_JOB_EXCEPTION, job\<lparr>jd_state := JOB_STATE_EXCEPTION\<rparr>, c1, p, s));
        if ret \<noteq> AIPU_STATUS_SUCCESS then failed p s1
        else
          let (ending, files) = run (sc_cmd c1) (uf_data s1); s2 = s1\<lparr>uf_data := files\<rparr>
          in if ending \<noteq> Exited 0 then failed p s2
             else case map_of (sc_graphs c1) gid of
                None \<Rightarrow> None
              | Some sim \<Rightarrow>
                  let (ok, p3, s3) =
                    (if old_arch_run c1 (jd_config job)
                     then let (ret, p3, s3) = umd_load_file_helper e (sr_odata_fname sim) (sr_odata_whole_va sim)
                                (sr_odata_whole_size sim) p s2
                          in (ret = AIPU_STATUS_SUCCESS, p3, s3)
                     else load_outputs e (sr_outputs sim) p s2)
                  in if ok then Some (AIPU_STATUS_SUCCESS, job\<lparr>jd_state := JOB_STATE_DONE\<rparr>, c1, p3, s3) else failed p3 s3
      })"

definition sim_get_dev_status :: aipu_status where "sim_get_dev_status = AIPU_STATUS_ERROR_OP_NOT_SUPPORTED"

definition sim_poll_status :: aipu_status where "sim_poll_status = AIPU_STATUS_ERROR_OP_NOT_SUPPORTED"

definition sim_match_target_dev :: "u32 \<Rightarrow> u32 \<Rightarrow> u32 \<Rightarrow> bool" where
  "sim_match_target_dev a v config = True"

subsection \<open>Graphs in this build (\<open>context/graph/graph.cpp\<close>)\<close>

text \<open>
  The loader gives positions in the binary, \<open>gbin_at\<close> is where the application has it. The one
  set of thread buffers of a graph is made when the graph is loaded. \<open>uninit\<close>: the descriptors
  of the new set, not initialised.
\<close>

definition sim_graph_load ::
  "(nat \<Rightarrow> file_answer) \<Rightarrow> simulation_res \<Rightarrow> buffer_desc \<Rightarrow> addr \<Rightarrow> u8 list \<Rightarrow> graph_info \<Rightarrow> bool \<Rightarrow> graph \<Rightarrow>
   sim_ctrl \<Rightarrow> proc \<Rightarrow> ufiles \<Rightarrow> (aipu_status \<times> graph \<times> sim_ctrl \<times> proc \<times> ufiles) option" where
  "sim_graph_load e sim0 uninit gbin_at bin info map_flag g c p s = do {
     handle \<leftarrow> create_buf_handle_inner g;
     let g1 = g\<lparr>gr_map_flag := map_flag, gr_gbin := bin, gr_arch := AIPU_ARCH (gi_device info),
           gr_hw_version := AIPU_VERSION (gi_device info), gr_hw_config := AIPU_CONFIG (gi_device info),
           gr_entry := gi_entry info, gr_asid_flag := gi_asid_flag info, gr_linked_list_flag := gi_linked_list_flag info,
           gr_tbuf_templ := gi_tbuf_templ info, gr_inputs := gi_inputs info, gr_outputs := gi_outputs info,
           gr_inter_dumps := gi_inter_dumps info, gr_pdata := gi_pdata info, gr_plog_data := gi_plog_data info,
           gr_param_map := gi_param_map info, gr_dcr_map := gi_dcr_map info,
           gr_gdesc := create_graph_desc info (gr_gdesc g)\<rparr>;
     let gid = gd_id (gr_gdesc g1);
     let ptempl = (gi_pbuf_templ info)\<lparr>text_src := gbin_at + text_src (gi_pbuf_templ info)\<rparr>;
     let (ret, text, c1) = sim_alloc_text_buffer gid ptempl (pb_text (gr_pbuf g1)) c;
     let g2 = g1\<lparr>gr_pbuf := (gr_pbuf g1)\<lparr>pb_text := text\<rparr>\<rparr>;
     if ret \<noteq> AIPU_STATUS_SUCCESS then Some (ret, g2, c1, p, s)
     else
       let (ret, c2, s1) = sim_load_text_buffer e sim0 gid (text_src ptempl) (text_size ptempl) text c1 p s
       in if ret \<noteq> AIPU_STATUS_SUCCESS then Some (ret, g2, c2, p, s1)
          else do {
            let iobuf0 = \<lparr>iob_inputs = [], iob_outputs = [], iob_inter_dumps = [], iob_pdata = [], iob_plog_data = []\<rparr>;
            let tbuf0 = \<lparr>tb_handle = handle, tb_is_free = True, tb_stack = uninit, tb_rodata = uninit,
                  tb_descriptor = uninit, tb_reuse_buf = [], tb_reuse_group = uninit, tb_iobuf = iobuf0\<rparr>;
            (ret, pbuf, tbuf, c3, p1) \<leftarrow> simulation_alloc_data_buffer uninit gid ptempl (gr_pbuf g2) (gi_tbuf_templ info) tbuf0 c2 p;
            let g3 = g2\<lparr>gr_pbuf := pbuf\<rparr>;
            if ret \<noteq> AIPU_STATUS_SUCCESS then Some (ret, g3, c3, p1, s1)
            else do {
              iobuf \<leftarrow> create_iobufs g3 (tb_reuse_buf tbuf);
              let (ret, c4) = simulation_set_io_info gid iobuf c3;
              if ret \<noteq> AIPU_STATUS_SUCCESS then Some (ret, g3, c4, p1, s1)
              else do {
                let g4 = g3\<lparr>gr_tbufs := omap_insert handle (tbuf\<lparr>tb_iobuf := iobuf\<rparr>) (gr_tbufs g3)\<rparr>;
                p2 \<leftarrow> load_statics bin (static_sections ptempl) (pb_static_buf pbuf) p1;
                Some (ret, g4, c4, p2, s1)
              }
            }
          }
   }"

text \<open>The buffers of the graph, the last of them when there were more.\<close>

definition sim_alloc_thread_buffer ::
  "graph \<Rightarrow> proc \<Rightarrow> (aipu_status \<times> (u32 \<times> iobuf_info) option \<times> proc) option" where
  "sim_alloc_thread_buffer g p =
     (case gr_tbufs g of
        [] \<Rightarrow> Some (AIPU_STATUS_ERROR_BUF_ALLOC_FAIL, None, p)
      | _ # _ \<Rightarrow>
          let (handle, tbuf) = last (gr_tbufs g)
          in do {
            p1 \<leftarrow> init_plog (iob_plog_data (tb_iobuf tbuf)) p;
            Some (AIPU_STATUS_SUCCESS, Some (handle, tb_iobuf tbuf), p1)
          })"

definition sim_free_thread_buffer ::
  "u32 \<Rightarrow> graph \<Rightarrow> sim_ctrl \<Rightarrow> proc \<Rightarrow> aipu_status \<times> graph \<times> sim_ctrl \<times> proc" where
  "sim_free_thread_buffer handle g c p =
     (case get_tbuf_ptr g handle of
        None \<Rightarrow> (AIPU_STATUS_ERROR_INVALID_HANDLE, g, c, p)
      | Some tbuf \<Rightarrow>
          if \<not> tb_is_free tbuf then (AIPU_STATUS_ERROR_BUSY_HANDLE, g, c, p)
          else let (ret, p1) = sim_free_buf (tb_rodata tbuf) p
               in if ret \<noteq> AIPU_STATUS_SUCCESS then (ret, g, c, p1)
                  else let (ret, c1, p2) = simulation_free_data_buffer (gd_id (gr_gdesc g)) c p1
                       in if ret \<noteq> AIPU_STATUS_SUCCESS then (ret, g, c1, p2)
                          else (ret, g\<lparr>gr_tbufs := omap_erase handle (gr_tbufs g)\<rparr>, c1, p2))"

end
