(* ===== verification/UmdSimSpec.thy ===== *)
theory UmdSimSpec
  imports UmdSim UmdDumpSpec UmdLayout
begin

text \<open>
  The build for a simulator: where the buffers of a graph lie.
\<close>

subsection \<open>Pages\<close>

lemma ALIGN_PAGE_least:
  assumes "align_up (unat n) 4096 < 2 ^ 32"
  shows "unat (ALIGN_PAGE n) = align_up (unat n) 4096"
proof -
  have m: "(4096 - 1 :: u32) = mask 12" by (simp add: mask_eq_exp_minus_1)
  have "n + 4096 - 1 = n + 4095" by simp
  moreover have lt: "unat n + 4095 < 2 ^ 32"
  proof (rule ccontr)
    assume "\<not> ?thesis"
    then have "2 ^ 32 div 4096 \<le> (unat n + 4095) div (4096::nat)" by (intro div_le_mono) simp
    then show False using assms by (simp add: align_up_def)
  qed
  ultimately have u: "unat (n + 4096 - 1) = unat n + 4095" by (simp add: unat_word_ariths)
  have "x AND NOT (mask 12) = push_bit 12 (drop_bit 12 x)" for x :: u32
    by (rule bit_word_eqI) (auto simp: bit_simps)
  moreover have tb: "take_bit 32 (unat x) = unat x" for x :: u32
    by (rule take_bit_nat_eq_self) (use unsigned_less [of x] in simp)
  ultimately have "ALIGN_PAGE n = push_bit 12 (drop_bit 12 (n + 4096 - 1))" by (simp only: ALIGN_PAGE_def m)
  then have "unat (ALIGN_PAGE n) = take_bit 32 (push_bit 12 (drop_bit 12 (unat (n + 4096 - 1))))"
    using tb [of "n + 4096 - 1"] by (simp add: unsigned_push_bit_eq unsigned_drop_bit_eq del: add_diff_eq)
  also have "\<dots> = take_bit 32 (align_up (unat n) 4096)"
    unfolding u align_up_def push_bit_eq_mult drop_bit_eq_div by (simp add: add.commute)
  also have "\<dots> = align_up (unat n) 4096" using assms by (simp add: take_bit_nat_eq_self)
  finally show ?thesis .
qed

subsection \<open>Sections one after the other\<close>

definition sec_align :: "section_desc \<Rightarrow> nat" where
  "sec_align s = unat (sec_align_in_page s) * 4096"

fun sim_end :: "nat \<Rightarrow> section_desc list \<Rightarrow> nat" where
  "sim_end e [] = e"
| "sim_end e (s # ss) = sim_end (align_up e (sec_align s) + align_up (unat (sec_size s)) 4096) ss"

fun laid :: "nat \<Rightarrow> section_desc list \<Rightarrow> buffer_desc list \<Rightarrow> bool" where
  "laid e [] [] = True"
| "laid e (s # ss) (b # bs) =
     (unat (bu_pa b) = align_up e (sec_align s) \<and> unat (bu_size b) = align_up (unat (sec_size s)) 4096 \<and>
      laid (align_up e (sec_align s) + align_up (unat (sec_size s)) 4096) ss bs)"
| "laid e _ _ = False"

definition aligned_all :: "section_desc list \<Rightarrow> bool" where
  "aligned_all ss = list_all (\<lambda>s. sec_align_in_page s \<noteq> 0) ss"

lemma sim_end_ge: "aligned_all ss \<Longrightarrow> e \<le> sim_end e ss"
proof (induction ss arbitrary: e)
  case (Cons s ss)
  have "0 < sec_align s" using Cons.prems by (simp add: aligned_all_def sec_align_def unat_gt_0)
  then have "e \<le> align_up e (sec_align s)" by (rule align_up_bounds(1))
  also have "\<dots> \<le> align_up e (sec_align s) + align_up (unat (sec_size s)) 4096" by simp
  also have "\<dots> \<le> sim_end e (s # ss)" using Cons.IH Cons.prems by (simp add: aligned_all_def)
  finally show ?case .
qed simp

lemma sim_end_append: "sim_end e (xs @ ys) = sim_end (sim_end e xs) ys"
  by (induction xs arbitrary: e) simp_all

lemma laid_end: "laid e ss bs \<Longrightarrow> aligned_all ss \<Longrightarrow>
  list_all (\<lambda>b. e \<le> unat (bu_pa b) \<and> unat (bu_pa b) + unat (bu_size b) \<le> sim_end e ss) bs"
proof (induction e ss bs rule: laid.induct)
  case (2 e s ss b bs)
  have A: "0 < sec_align s" using 2(3) by (simp add: aligned_all_def sec_align_def unat_gt_0)
  have ss: "aligned_all ss" using 2(3) by (simp add: aligned_all_def)
  note e = align_up_bounds(1) [OF A, of e]
  let ?m = "unat (bu_pa b) + unat (bu_size b)"
  have IH: "laid ?m ss bs" "laid ?m ss bs \<Longrightarrow> aligned_all ss \<Longrightarrow>
      list_all (\<lambda>b. ?m \<le> unat (bu_pa b) \<and> unat (bu_pa b) + unat (bu_size b) \<le> sim_end ?m ss) bs"
    using 2(1,2) by auto
  have m: "sim_end e (s # ss) = sim_end ?m ss" using 2(2) by simp
  have "list_all (\<lambda>b. ?m \<le> unat (bu_pa b) \<and> unat (bu_pa b) + unat (bu_size b) \<le> sim_end ?m ss) bs"
    using IH ss by blast
  then show ?case unfolding m using 2(2) e sim_end_ge [OF ss, of ?m]
    by (auto simp: list_all_iff)
qed simp_all

lemma laid_sorted: "laid e ss bs \<Longrightarrow> aligned_all ss \<Longrightarrow>
  sorted_wrt (\<lambda>a b. unat (bu_pa a) + unat (bu_size a) \<le> unat (bu_pa b)) bs"
proof (induction e ss bs rule: laid.induct)
  case (2 e s ss b bs)
  have "aligned_all ss" using 2(3) by (simp add: aligned_all_def)
  then show ?case using 2(1,2) laid_end [of "unat (bu_pa b) + unat (bu_size b)" ss bs] by (auto simp: list_all_iff)
qed simp_all

lemma laid_append: "laid e xs as \<Longrightarrow> laid (sim_end e xs) ys bs \<Longrightarrow> laid e (xs @ ys) (as @ bs)"
  by (induction e xs as rule: laid.induct) simp_all

lemma laid_cong:
  "laid e ss bs \<Longrightarrow> map bu_pa bs' = map bu_pa bs \<Longrightarrow> map bu_size bs' = map bu_size bs \<Longrightarrow> laid e ss bs'"
proof (induction e ss bs arbitrary: bs' rule: laid.induct)
  case (2 e s ss b bs)
  then show ?case by (cases bs') auto
qed auto

lemma sim_place_lays:
  assumes "aligned_all ss" "sim_end (unat t) ss < 2 ^ 32"
  shows "\<exists>bs t'. sim_place b ss t = Some (bs, t') \<and> unat t' = sim_end (unat t) ss \<and> laid (unat t) ss bs"
  using assms
proof (induction ss arbitrary: t)
  case (Cons s ss)
  let ?pa = "align_up (unat t) (sec_align s)" and ?n = "align_up (unat (sec_size s)) 4096"
  have al: "sec_align_in_page s \<noteq> 0" "aligned_all ss" using Cons.prems(1) by (simp_all add: aligned_all_def)
  have le: "?pa + ?n < 2 ^ 32" using sim_end_ge [OF al(2), of "?pa + ?n"] Cons.prems(2) by simp
  then obtain r where r: "get_aligned_addr t (sec_align_in_page s) = Some r" "unat r = ?pa"
    using get_aligned_addr_least [OF al(1), of t] by (auto simp: sec_align_def)
  have n: "unat (ALIGN_PAGE (sec_size s)) = ?n" using ALIGN_PAGE_least le by simp
  have u: "unat (r + ALIGN_PAGE (sec_size s)) = ?pa + ?n" using le r(2) n by (simp add: unat_word_ariths)
  obtain bs t' where "sim_place b ss (r + ALIGN_PAGE (sec_size s)) = Some (bs, t')"
    "unat t' = sim_end (?pa + ?n) ss" "laid (?pa + ?n) ss bs"
    using Cons.IH [OF al(2), of "r + ALIGN_PAGE (sec_size s)"] Cons.prems(2) u by auto
  then show ?case using r n by (simp add: Let_def unat_ucast_u64)
qed simp

subsection \<open>The data of a graph\<close>

definition stack_section :: "tbuf_alloc_templ \<Rightarrow> section_desc" where
  "stack_section t = init_section_desc\<lparr>sec_size := tbuf_stack_size t, sec_align_in_page := stack_align_in_page t\<rparr>"

definition in_image :: "buffer_desc \<Rightarrow> buffer_desc \<Rightarrow> bool" where
  "in_image data b \<longleftrightarrow> unat (bu_pa data) \<le> unat (bu_pa b) \<and>
     unat (bu_pa b) + unat (bu_size b) \<le> unat (bu_pa data) + unat (bu_size data) \<and>
     bu_va b + unat (bu_pa data) = bu_va data + unat (bu_pa b)"

definition always_memory :: "proc \<Rightarrow> bool" where
  "always_memory p \<longleftrightarrow> (\<forall>k. ue_map (px_env p k) \<noteq> None)"

lemma sim_malloc_works:
  assumes "sz \<noteq> 0" "always_memory p"
  shows "\<exists>a p'. sim_malloc_buf sz buf c p = Some (AIPU_STATUS_SUCCESS,
     buf\<lparr>bu_pa := ucast (sc_malloc_top c), bu_va := a, bu_size := ucast (ALIGN_PAGE sz), bu_real_size := ucast sz\<rparr>,
     c\<lparr>sc_malloc_top := sc_malloc_top c + ALIGN_PAGE sz\<rparr>, p') \<and> always_memory p'"
proof -
  obtain a where "ue_map (env_now p) = Some a" using assms(2) by (auto simp: always_memory_def env_now_def)
  then show ?thesis
    using assms by (intro exI [of _ a]) (auto simp: sim_malloc_buf_def new_chars_def Let_def always_memory_def next_call_def)
qed

lemma sim_set_vas_maps [simp]:
  "map bu_pa (sim_set_vas d b n bs) = map bu_pa bs"
  "map bu_size (sim_set_vas d b n bs) = map bu_size bs"
  by (simp_all add: sim_set_vas_def sim_set_va_def map_append [symmetric] take_map [symmetric] drop_map [symmetric] comp_def)

lemma sim_set_va_in:
  assumes "unat (bu_pa b) < 2 ^ 32" "unat base \<le> unat (bu_pa b)" "bu_pa d = ucast base"
  shows "bu_va (sim_set_va d base b) + unat (bu_pa d) = bu_va d + unat (bu_pa b)"
proof -
  have u: "unat (ucast (bu_pa b) :: u32) = unat (bu_pa b)"
    using assms(1) by (simp add: unsigned_ucast_eq take_bit_nat_eq_self)
  then have "unat (ucast (bu_pa b) - base :: u32) = unat (bu_pa b) - unat base"
    using assms(2) by (simp add: unat_sub word_le_nat_alt)
  then show ?thesis using assms(2,3) by (simp add: sim_set_va_def unat_ucast_u64)
qed

lemma sim_rodata_works:
  assumes "tbuf_rodata_size templ + dcr_size templ \<noteq> 0" "always_memory p"
  shows "\<exists>ro d p'. sim_alloc_rodata_buffer rid templ r0 d0 c p = Some (AIPU_STATUS_SUCCESS, ro, d,
     c\<lparr>sc_malloc_top := sc_malloc_top c + ALIGN_PAGE (tbuf_rodata_size templ + dcr_size templ)\<rparr>, p') \<and> always_memory p'"
  using sim_malloc_works [OF assms, of r0 c] by (force simp: sim_alloc_rodata_buffer_def Let_def)

definition graph_sections :: "pbuf_alloc_templ \<Rightarrow> tbuf_alloc_templ \<Rightarrow> section_desc list" where
  "graph_sections ptempl ttempl = stack_section ttempl # static_sections ptempl @ reuse_sections ttempl"

lemma ucast_back: "(ucast (ucast (w :: u32) :: u64) :: u32) = w"
  by (rule bit_word_eqI) (simp add: bit_simps)

lemma laid_length: "laid e ss bs \<Longrightarrow> length bs = length ss"
  by (induction e ss bs rule: laid.induct) simp_all

lemma laid_in_image:
  assumes "laid (unat t) (s # ss) (b # bs)" "aligned_all (s # ss)" "sim_end (unat t) (s # ss) + 4096 \<le> 2 ^ 32"
    "unat t' = sim_end (unat t) (s # ss)" "bu_pa d = bu_pa b" "base = (ucast (bu_pa b) :: u32)"
    "bu_size d = ucast (ALIGN_PAGE (t' - base))" "x \<in> set (b # bs)"
    "bu_va x + unat (bu_pa d) = bu_va d + unat (bu_pa x)"
  shows "in_image d x"
proof -
  let ?e = "sim_end (unat t) (s # ss)" and ?pb = "unat (bu_pa b)"
  have all: "list_all (\<lambda>b. unat t \<le> unat (bu_pa b) \<and> unat (bu_pa b) + unat (bu_size b) \<le> ?e) (b # bs)"
    by (rule laid_end [OF assms(1,2)])
  have lo: "?pb \<le> unat (bu_pa x)"
    using laid_sorted [OF assms(1,2)] assms(8) by auto
  have hi: "unat (bu_pa x) + unat (bu_size x) \<le> ?e" "?pb \<le> ?e" using all assms(8) by (auto simp: list_all_iff)
  then have ub: "unat base = ?pb" using assms(3,6) by (simp add: unsigned_ucast_eq take_bit_nat_eq_self)
  then have n: "unat (t' - base) = ?e - ?pb" using assms(4) hi(2) by (simp add: unat_sub word_le_nat_alt)
  have "?e - ?pb \<le> align_up (?e - ?pb) 4096" "align_up (?e - ?pb) 4096 < ?e - ?pb + 4096"
    using align_up_bounds [of 4096 "?e - ?pb"] by simp_all
  moreover from this(2) have "align_up (unat (t' - base)) 4096 < 2 ^ 32" unfolding n using assms(3) by linarith
  ultimately have "?e - ?pb \<le> unat (bu_size d)"
    using ALIGN_PAGE_least [of "t' - base"] assms(7) n by (simp add: unat_ucast_u64)
  then show ?thesis using lo hi assms(5,9) by (simp add: in_image_def)
qed

text \<open>C24. Placing the buffers of a graph for the simulator succeeds when the device addresses
  do not run over 32 bits: the stack, the static and the reused sections then lie one after
  the other without overlap, each on its alignment and as long as its section in pages, all of
  them inside one block of the process, in which the distance of two addresses is that of the
  device addresses.\<close>

theorem sim_data_layout:
  assumes "map_of (sc_graphs c) gid = Some sim" "pb_static_buf pbuf = []" "tb_reuse_buf tbuf = []"
    "reuse_sections ttempl \<noteq> []" "tbuf_rodata_size ttempl + dcr_size ttempl \<noteq> 0" "tbuf_stack_size ttempl \<noteq> 0"
    "aligned_all (graph_sections ptempl ttempl)" "always_memory p"
    "t = sc_malloc_top c + ALIGN_PAGE (tbuf_rodata_size ttempl + dcr_size ttempl)"
    "sim_end (unat t) (graph_sections ptempl ttempl) + 4096 \<le> 2 ^ 32"
  shows "\<exists>pbuf' tbuf' c' p' sim' bufs. simulation_alloc_data_buffer b0 gid ptempl pbuf ttempl tbuf c p =
       Some (AIPU_STATUS_SUCCESS, pbuf', tbuf', c', p') \<and> map_of (sc_graphs c') gid = Some sim' \<and>
     bufs = tb_stack tbuf' # pb_static_buf pbuf' @ tb_reuse_buf tbuf' \<and>
     laid (unat t) (graph_sections ptempl ttempl) bufs \<and> list_all (in_image (sr_data sim')) bufs \<and>
     sorted_wrt (\<lambda>a b. unat (bu_pa a) + unat (bu_size a) \<le> unat (bu_pa b)) bufs"
proof -
  let ?st = "stack_section ttempl" and ?ss = "static_sections ptempl" and ?rs = "reuse_sections ttempl"
  let ?secs = "graph_sections ptempl ttempl"
  have secs: "?secs = ?st # ?ss @ ?rs" by (simp add: graph_sections_def)
  have al: "aligned_all [?st]" "aligned_all ?ss" "aligned_all ?rs" using assms(7) by (simp_all add: secs aligned_all_def)
  let ?c1 = "c\<lparr>sc_malloc_top := t\<rparr>"
  obtain ro desc p1 where ro: "sim_alloc_rodata_buffer (bu_region_id (pb_text pbuf)) ttempl (tb_rodata tbuf) (tb_descriptor tbuf) c p =
      Some (AIPU_STATUS_SUCCESS, ro, desc, ?c1, p1)" "always_memory p1"
    using sim_rodata_works [OF assms(5,8)] unfolding assms(9) by blast
  have ends: "sim_end (unat t) [?st] \<le> sim_end (unat t) (?st # ?ss)" "sim_end (unat t) (?st # ?ss) \<le> sim_end (unat t) ?secs"
    using sim_end_ge [OF al(2)] sim_end_ge [OF al(3)] sim_end_append [of "unat t" "?st # ?ss" ?rs] by (simp_all add: secs)
  let ?top1 = "sim_end (unat t) [?st]"
  have stp: "align_up (unat t) (unat (stack_align_in_page ttempl) * 4096) + align_up (unat (tbuf_stack_size ttempl)) 4096 = ?top1"
    by (simp add: stack_section_def sec_align_def init_section_desc_def)
  obtain stack_pa where st: "get_aligned_addr t (stack_align_in_page ttempl) = Some stack_pa"
    "unat stack_pa = align_up (unat t) (unat (stack_align_in_page ttempl) * 4096)"
    using get_aligned_addr_least [of "stack_align_in_page ttempl" t] al(1) stp ends assms(10)
    by (auto simp: aligned_all_def stack_section_def)
  have sz: "unat (ALIGN_PAGE (tbuf_stack_size ttempl)) = align_up (unat (tbuf_stack_size ttempl)) 4096"
    by (rule ALIGN_PAGE_least) (use stp ends assms(10) in linarith)
  let ?t1 = "stack_pa + ALIGN_PAGE (tbuf_stack_size ttempl)"
  have t1: "unat ?t1 = ?top1" using st(2) sz stp ends assms(10) by (simp add: unat_word_ariths)
  have e1: "sim_end (unat t) (?st # ?ss) = sim_end ?top1 ?ss" "sim_end (unat t) ?secs = sim_end (sim_end ?top1 ?ss) ?rs"
    by (simp_all add: secs sim_end_append)
  have lt: "sim_end ?top1 ?ss < 2 ^ 32" "sim_end (sim_end ?top1 ?ss) ?rs < 2 ^ 32"
    using ends assms(10) unfolding e1 by linarith+
  obtain ss_bufs t2 where s2: "sim_place b0 ?ss ?t1 = Some (ss_bufs, t2)" "unat t2 = sim_end ?top1 ?ss" "laid ?top1 ?ss ss_bufs"
    using sim_place_lays [OF al(2), of ?t1 b0] lt(1) unfolding t1 by blast
  obtain rs_bufs t3 where s3: "sim_place b0 ?rs t2 = Some (rs_bufs, t3)" "unat t3 = sim_end (unat t) ?secs"
    "laid (sim_end ?top1 ?ss) ?rs rs_bufs"
    using sim_place_lays [OF al(3), of t2 b0] lt(2) unfolding s2(2) e1(2) by blast
  have ne: "rs_bufs \<noteq> []" using s3(3) assms(4) by (cases "reuse_sections ttempl") auto
  let ?stack = "(tb_stack tbuf)\<lparr>bu_pa := ucast stack_pa, bu_size := ucast (ALIGN_PAGE (tbuf_stack_size ttempl)),
    bu_real_size := ucast (tbuf_stack_size ttempl)\<rparr>"
  have "laid (unat t) [?st] [?stack]"
    using st(2) sz by (simp add: stack_section_def sec_align_def init_section_desc_def unat_ucast_u64)
  moreover have "laid ?top1 (?ss @ ?rs) (ss_bufs @ rs_bufs)" by (rule laid_append [OF s2(3) s3(3)])
  ultimately have laid0: "laid (unat t) ?secs (?stack # ss_bufs @ rs_bufs)"
    using laid_append [of "unat t" "[?st]" "[?stack]" "?ss @ ?rs" "ss_bufs @ rs_bufs"] by (simp add: secs)
  have "0 < unat (tbuf_stack_size ttempl)" using assms(6) by (simp add: unat_gt_0)
  then have pos: "unat stack_pa < ?top1"
    using st(2) stp align_up_bounds(1) [of 4096 "unat (tbuf_stack_size ttempl)"] by linarith
  have "t3 - stack_pa \<noteq> 0" using pos ends s3(2) by auto
  then obtain a p2 where dm: "sim_malloc_buf (t3 - stack_pa) (sr_data sim) (?c1\<lparr>sc_malloc_top := t3\<rparr>) p1 =
      Some (AIPU_STATUS_SUCCESS, (sr_data sim)\<lparr>bu_pa := ucast t3, bu_va := a, bu_size := ucast (ALIGN_PAGE (t3 - stack_pa)),
        bu_real_size := ucast (t3 - stack_pa)\<rparr>, c\<lparr>sc_malloc_top := t3 + ALIGN_PAGE (t3 - stack_pa)\<rparr>, p2)"
    using sim_malloc_works [OF _ ro(2), of "t3 - stack_pa" "sr_data sim" "?c1\<lparr>sc_malloc_top := t3\<rparr>"] by auto
  let ?data = "(sr_data sim)\<lparr>bu_va := a, bu_size := ucast (ALIGN_PAGE (t3 - stack_pa)),
    bu_real_size := ucast (t3 - stack_pa), bu_pa := ucast stack_pa\<rparr>"
  let ?vas = "\<lambda>ss. sim_set_vas ?data stack_pa (length ss)"
  let ?bufs = "?stack\<lparr>bu_va := a\<rparr> # ?vas ?ss ss_bufs @ ?vas ?rs rs_bufs"
  have laid: "laid (unat t) ?secs ?bufs" by (rule laid_cong [OF laid0]) simp_all
  have len: "length ss_bufs = length ?ss" "length rs_bufs = length ?rs"
    using laid_length s2(3) s3(3) by metis+
  have al2: "aligned_all (?ss @ ?rs)" using al by (simp add: aligned_all_def)
  have "in_image ?data x" if x: "x \<in> set ?bufs" for x
  proof (rule laid_in_image)
    show "laid (unat t) (?st # ?ss @ ?rs) ?bufs" using laid by (simp only: secs)
    show "aligned_all (?st # ?ss @ ?rs)" using assms(7) by (simp only: secs)
    show "sim_end (unat t) (?st # ?ss @ ?rs) + 4096 \<le> 2 ^ 32" using assms(10) by (simp only: secs)
    show "unat t3 = sim_end (unat t) (?st # ?ss @ ?rs)" using s3(2) by (simp only: secs)
    show "x \<in> set ?bufs" by (rule x)
    have lo: "unat stack_pa \<le> unat (bu_pa b) \<and> unat (bu_pa b) < 2 ^ 32" if "b \<in> set (ss_bufs @ rs_bufs)" for b
    proof -
      have "?top1 \<le> unat (bu_pa b) \<and> unat (bu_pa b) + unat (bu_size b) \<le> sim_end ?top1 (?ss @ ?rs)"
        using laid_end [OF laid_append [OF s2(3) s3(3)] al2] that by (simp only: list_all_iff)
      then show ?thesis using pos lt(2) unfolding sim_end_append by linarith
    qed
    show "bu_va x + unat (bu_pa ?data) = bu_va ?data + unat (bu_pa x)"
    proof (cases "x \<in> set (?vas ?ss ss_bufs @ ?vas ?rs rs_bufs)")
      case True
      then obtain b where b: "b \<in> set (ss_bufs @ rs_bufs)" "x = sim_set_va ?data stack_pa b"
        using len by (auto simp: sim_set_vas_def)
      have "bu_pa x = bu_pa b" by (simp add: b(2) sim_set_va_def)
      then show ?thesis using sim_set_va_in [of b stack_pa ?data] lo [OF b(1)] unfolding b(2) by simp
    qed (use x in auto)
  qed (simp_all add: ucast_back)
  moreover have "sorted_wrt (\<lambda>a b. unat (bu_pa a) + unat (bu_size a) \<le> unat (bu_pa b)) ?bufs"
    by (rule laid_sorted [OF laid assms(7)])
  moreover have "\<exists>pbuf' tbuf' c'. simulation_alloc_data_buffer b0 gid ptempl pbuf ttempl tbuf c p =
       Some (AIPU_STATUS_SUCCESS, pbuf', tbuf', c', p2) \<and> map_of (sc_graphs c') gid = Some (sim\<lparr>sr_rodata := ro, sr_data := ?data\<rparr>) \<and>
     ?bufs = tb_stack tbuf' # pb_static_buf pbuf' @ tb_reuse_buf tbuf'"
    using assms(1-3) ro(1) st(1) s2(1) s3(1) ne dm
    by (simp add: simulation_alloc_data_buffer_def Let_def)
  ultimately show ?thesis using laid by (force simp: list_all_iff)
qed

text \<open>Two sections and a stack, for a graph whose code has been loaded.\<close>

definition demo_ptempl :: pbuf_alloc_templ where
  "demo_ptempl = \<lparr>text_src = 0x100, text_size = 0x40, data_src = 0, data_size = 0, static_sections = [demo_section 0x100 1]\<rparr>"

definition demo_ttempl :: tbuf_alloc_templ where
  "demo_ttempl = \<lparr>rodata_src = 0x200, tbuf_rodata_size = 0x40, dcr_src = None, dcr_size = 0, tbuf_stack_size = 0x800,
     stack_align_in_page = 1, reuse_sections = [demo_section 0x1800 2]\<rparr>"

definition demo_sim_res :: simulation_res where
  "demo_sim_res = \<lparr>sr_graph_id = 1, sr_code_fname = ''code'', sr_rodata_fname = '''', sr_data_fname = '''',
     sr_rodata = buffer_desc_init, sr_data = buffer_desc_init, sr_outputs = [], sr_odata_fname = '''', sr_odata_whole_pa = 0,
     sr_odata_whole_va = 0, sr_odata_whole_size = 0\<rparr>"

definition demo_sim :: sim_ctrl where
  "demo_sim = (new_sim_ctrl 0 '''' None)\<lparr>sc_graphs := [(1, demo_sim_res)], sc_output_dir := ''out'', sc_cfg_file_dir := ''cfg/''\<rparr>"

definition demo_pbuf :: pbuf_info where
  "demo_pbuf = \<lparr>pb_text = buffer_desc_init, pb_static_buf = [], pb_static_group = buffer_desc_init\<rparr>"

definition demo_sim_tbuf :: tbuf_info where
  "demo_sim_tbuf = \<lparr>tb_handle = 0, tb_is_free = True, tb_stack = buffer_desc_init, tb_rodata = buffer_desc_init,
     tb_descriptor = buffer_desc_init, tb_reuse_buf = [], tb_reuse_group = buffer_desc_init,
     tb_iobuf = \<lparr>iob_inputs = [], iob_outputs = [], iob_inter_dumps = [], iob_pdata = [], iob_plog_data = []\<rparr>\<rparr>"

lemma demo_sections:
  "graph_sections demo_ptempl demo_ttempl = [stack_section demo_ttempl, demo_section 0x100 1, demo_section 0x1800 2]"
  "sim_end 0x1000 (graph_sections demo_ptempl demo_ttempl) = 0x6000"
  by (simp_all add: graph_sections_def demo_ptempl_def demo_ttempl_def stack_section_def init_section_desc_def
    demo_section_def sec_align_def align_up_def)

lemma demo_sim_top: "unat (sc_malloc_top demo_sim + ALIGN_PAGE (tbuf_rodata_size demo_ttempl + dcr_size demo_ttempl)) = 0x1000"
  using ALIGN_PAGE_least [of "0x40"] by (simp add: demo_ttempl_def demo_sim_def new_sim_ctrl_def align_up_def)

theorem sim_data_layout_witness:
  "\<exists>pbuf' tbuf' c' p' sim' bufs. simulation_alloc_data_buffer buffer_desc_init 1 demo_ptempl demo_pbuf demo_ttempl demo_sim_tbuf
       demo_sim demo_proc = Some (AIPU_STATUS_SUCCESS, pbuf', tbuf', c', p') \<and> map_of (sc_graphs c') 1 = Some sim' \<and>
     bufs = tb_stack tbuf' # pb_static_buf pbuf' @ tb_reuse_buf tbuf' \<and>
     laid 0x1000 (graph_sections demo_ptempl demo_ttempl) bufs \<and> list_all (in_image (sr_data sim')) bufs \<and>
     sorted_wrt (\<lambda>a b. unat (bu_pa a) + unat (bu_size a) \<le> unat (bu_pa b)) bufs"
proof -
  have "map_of (sc_graphs demo_sim) 1 = Some demo_sim_res" by (simp add: demo_sim_def)
  moreover have "pb_static_buf demo_pbuf = []" "tb_reuse_buf demo_sim_tbuf = []" by (simp_all add: demo_pbuf_def demo_sim_tbuf_def)
  moreover have "reuse_sections demo_ttempl \<noteq> []" "tbuf_rodata_size demo_ttempl + dcr_size demo_ttempl \<noteq> 0"
    "tbuf_stack_size demo_ttempl \<noteq> 0" by (simp_all add: demo_ttempl_def)
  moreover have "aligned_all (graph_sections demo_ptempl demo_ttempl)"
    unfolding demo_sections(1) by (simp add: aligned_all_def stack_section_def demo_ttempl_def demo_section_def init_section_desc_def)
  moreover have "always_memory demo_proc" by (simp add: always_memory_def demo_proc_def demo_uenv_def)
  ultimately show ?thesis
    using sim_data_layout [OF _ _ _ _ _ _ _ _ refl, of demo_sim 1 demo_sim_res demo_pbuf demo_sim_tbuf demo_ttempl demo_ptempl demo_proc
        buffer_desc_init] demo_sections(2) unfolding demo_sim_top by simp
qed

end
