(* ===== verification/UmdSimRun.thy ===== *)
theory UmdSimRun
  imports UmdSimSpec
begin

text \<open>Running a job on the simulator: the files it is started on, and deviations.\<close>

subsection \<open>Names of the input files\<close>





definition runtime_cfg :: "string \<Rightarrow> string" where
  "runtime_cfg dir = snprintf_limit 512 (dir @ ''runtime.cfg'')"



subsection \<open>What the simulator is started on\<close>




























definition demo_image_res :: simulation_res where
  "demo_image_res = demo_sim_res\<lparr>sr_rodata := buffer_desc_init\<lparr>bu_va := 0x1000, bu_size := 4\<rparr>,
     sr_data := buffer_desc_init\<lparr>bu_va := 0x2000, bu_pa := 0x1000, bu_size := 4\<rparr>\<rparr>"

definition demo_image_sim :: sim_ctrl where
  "demo_image_sim = demo_sim\<lparr>sc_graphs := [(1, demo_image_res)], sc_simulator := ''sim''\<rparr>"

definition demo_image_proc :: proc where
  "demo_image_proc = demo_proc\<lparr>px_map := Some\<rparr>"

definition demo_files_env :: "nat \<Rightarrow> file_answer" where
  "demo_files_env k = \<lparr>fa_open = 3, fa_truncate = True, fa_count = 2 ^ 32\<rparr>"

lemma demo_holds: "holds_bytes demo_image_proc a [0, 0, 0, 0]"
  unfolding holds_bytes_def
  by (rule exI [of _ "[a, a + 1, a + 2, a + 3]"])
    (auto simp: demo_image_proc_def demo_proc_def ux_load_def numeral_nat less_Suc_eq)

lemma demo_dumpable: "dumpable demo_image_proc 0x1000 4 [0, 0, 0, 0]" "dumpable demo_image_proc 0x2000 4 [0, 0, 0, 0]"
  by (simp_all add: dumpable_def demo_holds)

lemma demo_files_work: "files_work demo_files_env"
  by (simp add: files_work_def demo_files_env_def)


subsection \<open>What the simulator leaves behind\<close>

definition put_bytes :: "nat \<Rightarrow> u8 list \<Rightarrow> u8 list \<Rightarrow> u8 list" where
  "put_bytes i bs m = take i m @ bs @ drop (i + length bs) m"

definition splice_output :: "addr \<Rightarrow> (string \<Rightarrow> u8 list option) \<Rightarrow> output_file_desc \<Rightarrow> u8 list \<Rightarrow> u8 list" where
  "splice_output a files d m = put_bytes (of_va d - a) (take (unat (of_size d)) (the (files (of_fname d)))) m"

lemma length_put_bytes: "i + length bs \<le> length m \<Longrightarrow> length (put_bytes i bs m) = length m"
  by (simp add: put_bytes_def)

lemma put_bytes_Cons: "i < length m \<Longrightarrow> put_bytes i (b # bs) m = put_bytes (Suc i) bs (m[i := b])"
  by (simp add: put_bytes_def take_Suc_conv_app_nth upd_conv_take_nth_drop add.commute)

lemma store_bytes_holds:
  assumes "holds_bytes p a m" "i + length bs \<le> length m"
  shows "\<exists>mm. store_bytes (a + i) bs p = p\<lparr>px_phys := mm\<rparr> \<and> holds_bytes (p\<lparr>px_phys := mm\<rparr>) a (put_bytes i bs m)"
  using assms
proof (induction bs arbitrary: i p m)
  case Nil
  then show ?case by (intro exI [of _ "px_phys p"]) (simp add: put_bytes_def)
next
  case (Cons b bs)
  have i: "i < length m" using Cons.prems(2) by simp
  obtain m1 where m1: "ux_store (a + i) b p = Some (p\<lparr>px_phys := m1\<rparr>)" "holds_bytes (p\<lparr>px_phys := m1\<rparr>) a (m[i := b])"
    using holds_store [OF Cons.prems(1) i] by blast
  obtain mm where "store_bytes (a + Suc i) bs (p\<lparr>px_phys := m1\<rparr>) = p\<lparr>px_phys := m1\<rparr>\<lparr>px_phys := mm\<rparr>"
    "holds_bytes (p\<lparr>px_phys := m1\<rparr>\<lparr>px_phys := mm\<rparr>) a (put_bytes (Suc i) bs (m[i := b]))"
    using Cons.IH [OF m1(2), of "Suc i"] Cons.prems(2) by auto
  then show ?case using m1(1) by (intro exI [of _ mm]) (simp add: put_bytes_Cons [OF i])
qed

definition in_block :: "addr \<Rightarrow> nat \<Rightarrow> output_file_desc \<Rightarrow> bool" where
  "in_block a n d \<longleftrightarrow> a \<le> of_va d \<and> of_va d - a + unat (of_size d) \<le> n"

lemma load_output_holds:
  assumes "umd_load_file_helper e (of_fname d) (of_va d) (of_size d) p s = (AIPU_STATUS_SUCCESS, p', s')" "files_work e"
    "holds_bytes p a m" "in_block a (length m) d"
  shows "uf_data s' = uf_data s \<and> uf_data s (of_fname d) \<noteq> None \<and> holds_bytes p' a (splice_output a (uf_data s) d m) \<and>
    length (splice_output a (uf_data s) d m) = length m"
proof -
  let ?bs = "take (unat (of_size d)) (the (uf_data s (of_fname d)))"
  have c: "2 ^ 32 \<le> fa_count (e (uf_ops s))" using assms(2) by (simp add: files_work_def)
  have "unat (of_size d) < 2 ^ LENGTH(32)" by (rule unsigned_less)
  then have n: "take (nat (fa_count (e (uf_ops s)))) ?bs = ?bs" using c by (intro take_all) auto
  have va: "a + (of_va d - a) = of_va d" "of_va d - a + length ?bs \<le> length m" using assms(4) by (auto simp: in_block_def)
  have "uf_data s (of_fname d) \<noteq> None" "p' = store_bytes (of_va d) ?bs p" "uf_data s' = uf_data s"
    using assms(1) n by (auto simp: umd_load_file_helper_def Let_def next_op_def split: if_splits option.splits)
  then show ?thesis
    using store_bytes_holds [OF assms(3) va(2)] length_put_bytes [OF va(2)] unfolding va(1) splice_output_def by auto
qed

lemma load_outputs_holds:
  assumes "load_outputs e ds p s = (True, p', s')" "files_work e" "holds_bytes p a m" "list_all (in_block a (length m)) ds"
  shows "uf_data s' = uf_data s \<and> list_all (\<lambda>d. uf_data s (of_fname d) \<noteq> None) ds \<and>
    holds_bytes p' a (fold (splice_output a (uf_data s)) ds m)"
  using assms
proof (induction ds arbitrary: p s m)
  case (Cons d ds)
  obtain p1 s1 where 1: "umd_load_file_helper e (of_fname d) (of_va d) (of_size d) p s = (AIPU_STATUS_SUCCESS, p1, s1)"
    "load_outputs e ds p1 s1 = (True, p', s')"
    using Cons.prems(1) by (auto simp: Let_def split: prod.splits if_splits)
  note l = load_output_holds [OF 1(1) Cons.prems(2,3)]
  show ?case using Cons.IH [OF 1(2) Cons.prems(2), of "splice_output a (uf_data s) d m"] l Cons.prems(4) by simp
qed simp

lemma rtcfg_keeps_outputs:
  assumes "update_simulation_rtcfg e gid config c p s = Some (AIPU_STATUS_SUCCESS, c', s')"
    "map_of (sc_graphs c) gid = Some sim" "\<not> old_arch_run c config"
  shows "\<exists>sim'. map_of (sc_graphs c') gid = Some sim' \<and> sr_outputs sim' = sr_outputs sim \<and> \<not> old_arch_run c' config"
  using assms by (auto simp: update_simulation_rtcfg_def Let_def old_arch_run_def split: prod.splits if_splits)

text \<open>C26. What a job computes in the simulator build is what the simulator wrote. With any simulator but the
  old one of Zhouyi V1, whose outputs come in one file, and on a system that opens files and
  reads them in full: if the job is reported as done, the simulator ended with exit status 0,
  left a file for every output of the graph, and the memory of the graph is what it was with
  the contents of these files put in their places, each cut to the size of its output; every
  other byte of the block is as it was.\<close>

theorem sim_outputs_loaded:
  assumes "sim_schedule_job e run gid job c p s = Some (AIPU_STATUS_SUCCESS, job', c', p', s')"
    "map_of (sc_graphs c) gid = Some sim" "\<not> old_arch_run c (jd_config job)" "files_work e"
    "holds_bytes p a m" "list_all (in_block a (length m)) (sr_outputs sim)"
  shows "\<exists>before after. run (sc_cmd c') before = (Exited 0, after) \<and>
     list_all (\<lambda>d. after (of_fname d) \<noteq> None) (sr_outputs sim) \<and> uf_data s' = after \<and>
     holds_bytes p' a (fold (splice_output a after) (sr_outputs sim) m)"
proof -
  obtain s1 after s2 where up: "update_simulation_rtcfg e gid (jd_config job) c p s = Some (AIPU_STATUS_SUCCESS, c', s1)"
      "run (sc_cmd c') (uf_data s1) = (Exited 0, after)"
    and r: "old_arch_run c' (jd_config job) \<or>
      (\<exists>sim'. map_of (sc_graphs c') gid = Some sim' \<and> load_outputs e (sr_outputs sim') p (s1\<lparr>uf_data := after\<rparr>) = (True, p', s'))"
    using assms(1,2) by (auto simp: sim_schedule_job_def Let_def elim!: bind_SomeE split: prod.splits if_splits option.splits)
  have "load_outputs e (sr_outputs sim) p (s1\<lparr>uf_data := after\<rparr>) = (True, p', s')"
    using r rtcfg_keeps_outputs [OF up(1) assms(2,3)] by auto
  from load_outputs_holds [OF this assms(4-6)] show ?thesis using up(2) by (intro exI [of _ "uf_data s1"] exI [of _ after]) simp
qed

definition demo_out_res :: simulation_res where
  "demo_out_res = demo_image_res\<lparr>sr_outputs := [\<lparr>of_fname = ''out'', of_id = 0, of_size = 2, of_va = 0x2002, of_pa = 0x1002\<rparr>]\<rparr>"

definition demo_out_sim :: sim_ctrl where
  "demo_out_sim = demo_image_sim\<lparr>sc_graphs := [(1, demo_out_res)]\<rparr>"

definition demo_run :: "string \<Rightarrow> (string \<Rightarrow> u8 list option) \<Rightarrow> sim_exit \<times> (string \<Rightarrow> u8 list option)" where
  "demo_run cmd files = (Exited 0, files(''out'' \<mapsto> [7, 9]))"

theorem sim_outputs_loaded_witness:
  "\<exists>job' c' p' s'. sim_schedule_job demo_files_env demo_run 1 dump_demo_job demo_out_sim demo_image_proc
       \<lparr>uf_data = Map.empty, uf_ops = 0\<rparr> = Some (AIPU_STATUS_SUCCESS, job', c', p', s') \<and>
     holds_bytes p' 0x2000 [0, 0, 7, 9]"
proof -
  let ?s = "\<lparr>uf_data = Map.empty, uf_ops = 0\<rparr>"
  have o: "map_of (sc_graphs demo_out_sim) 1 = Some demo_out_res"
    "sr_outputs demo_out_res = [\<lparr>of_fname = ''out'', of_id = 0, of_size = 2, of_va = 0x2002, of_pa = 0x1002\<rparr>]"
    "bu_va (sr_rodata demo_out_res) = 0x1000" "bu_size (sr_rodata demo_out_res) = 4" "sc_use_new_arch_sim demo_out_sim"
    "bu_va (sr_data demo_out_res) = 0x2000" "bu_size (sr_data demo_out_res) = 4"
    by (simp_all add: demo_out_res_def demo_image_res_def demo_sim_res_def demo_out_sim_def demo_image_sim_def demo_sim_def new_sim_ctrl_def)
  have f: "fa_open (demo_files_env k) = 3" "fa_count (demo_files_env k) = 2 ^ 32" for k by (simp_all add: demo_files_env_def)
  note d = dump_file_writes [OF demo_files_work demo_dumpable(1)] dump_file_writes [OF demo_files_work demo_dumpable(2)]
  have n: "\<not> old_arch_run demo_out_sim (jd_config dump_demo_job)" by (simp add: old_arch_run_def o)
  obtain job' c' p' s' where run: "sim_schedule_job demo_files_env demo_run 1 dump_demo_job demo_out_sim demo_image_proc ?s =
      Some (AIPU_STATUS_SUCCESS, job', c', p', s')"
    by (simp add: sim_schedule_job_def update_simulation_rtcfg_def create_simulation_input_file_def o d Let_def
      old_arch_run_def update_simulation_rtcfg_new_arch_def f demo_run_def umd_load_file_helper_def next_op_def)
  have b: "list_all (in_block 0x2000 (length [0, 0, 0, 0 :: u8])) (sr_outputs demo_out_res)" by (simp add: o in_block_def)
  obtain before after where "demo_run (sc_cmd c') before = (Exited 0, after)"
    "holds_bytes p' 0x2000 (fold (splice_output 0x2000 after) (sr_outputs demo_out_res) [0, 0, 0, 0])"
    using sim_outputs_loaded [OF run o(1) n demo_files_work demo_holds b] by blast
  then have "holds_bytes p' 0x2000 [0, 0, 7, 9]" by (auto simp: demo_run_def o splice_output_def put_bytes_def)
  then show ?thesis using run by blast
qed

subsection \<open>Deviations\<close>

text \<open>The address of the group of static sections is copied before it is set: unloading the graph releases
  whatever address the descriptor on the stack held.\<close>

theorem sim_static_group_uninitialised:
  assumes "simulation_alloc_data_buffer b0 gid ptempl pbuf ttempl tbuf c p = Some (AIPU_STATUS_SUCCESS, pbuf', tbuf', c', p')"
    "pb_static_buf pbuf = []" "static_sections ptempl \<noteq> []"
  shows "bu_va (pb_static_group pbuf') = bu_va b0"
proof -
  have place: "bs \<noteq> [] \<and> bu_va (hd bs) = bu_va b0" if "sim_place b0 (s # ss) t = Some (bs, t')" for s ss t bs t'
    using that by (auto simp: Let_def elim!: bind_SomeE)
  obtain s ss where "static_sections ptempl = s # ss" using assms(3) by (cases "static_sections ptempl") auto
  then show ?thesis using assms(1,2)
    by (auto simp: simulation_alloc_data_buffer_def Let_def sim_group_def simp del: sim_place.simps
      elim!: bind_SomeE dest!: place split: option.splits if_splits prod.splits)
qed

text \<open>The buffers of a graph can be freed but not allocated again.\<close>

theorem sim_buffers_only_once:
  assumes "gr_tbufs g = [(handle, tbuf)]" "sim_free_thread_buffer handle g c p = (AIPU_STATUS_SUCCESS, g', c', p')"
  shows "sim_alloc_thread_buffer g' p' = Some (AIPU_STATUS_ERROR_BUF_ALLOC_FAIL, None, p')"
  using assms by (auto simp: sim_free_thread_buffer_def sim_alloc_thread_buffer_def omap_erase_def Let_def
    split: option.splits if_splits prod.splits)

text \<open>The directory and the name of the configuration file are joined without a separator.\<close>

lemma runtime_cfg_hidden: "runtime_cfg ''.'' = ''.runtime.cfg''"
  by (simp add: runtime_cfg_def snprintf_limit_def)

end
